(* ===== verification/Bookit_Prelude.thy ===== *)
theory Bookit_Prelude
  imports Main
begin

text \<open>
  Shared vocabulary of the development: the type synonyms for the identifiers the services
  exchange, the parts of Rust's standard library the sources use on them (decimal rendering of
  integers by \<open>to_string\<close> and \<open>format!\<close>, parsing by \<open>str::parse\<close>, the casts between integer
  widths), and the generic lemmas on strings, lists and options that the component theories share.

  Identifiers (\<open>i32\<close> in the source) are kept as mathematical integers; they are compared,
  tested for sign and rendered, and wherever the source computes with them the wrap-around or the
  range check is written out (\<open>as_u64\<close>, \<open>in_i32\<close>).
\<close>

section \<open>Type synonyms\<close>

type_synonym user_id = int
type_synonym seat_id = int
type_synonym schedule_id = int
type_synonym env = "string \<Rightarrow> string option"  \<comment> \<open>the environment variables\<close>

named_theorems key_simps \<open>distinctness and injectivity of Redis keys\<close>
named_theorems step_defs \<open>definitions unfolded by case analysis on one operation\<close>

section \<open>Integer widths\<close>

definition in_i32 :: "int \<Rightarrow> bool" where
  "in_i32 n \<longleftrightarrow> - (2 ^ 31) \<le> n \<and> n < 2 ^ 31"

definition in_u64 :: "int \<Rightarrow> bool" where
  "in_u64 n \<longleftrightarrow> 0 \<le> n \<and> n < 2 ^ 64"

text \<open>\<open>n as u64\<close> and \<open>n as usize\<close>: sign extension, read as an unsigned 64-bit value.\<close>

definition as_u64 :: "int \<Rightarrow> int" where
  "as_u64 n = n mod 2 ^ 64"

text \<open>\<open>n as i32\<close> on a wider integer: the low 32 bits, read as two's complement.\<close>

definition as_i32 :: "int \<Rightarrow> int" where
  "as_i32 n = (n + 2 ^ 31) mod 2 ^ 32 - 2 ^ 31"

lemma as_u64_nonneg [simp]: "0 \<le> n \<Longrightarrow> n < 2 ^ 64 \<Longrightarrow> as_u64 n = n"
  by (simp add: as_u64_def)

lemma in_i32_as_i32: "in_i32 (as_i32 n)"
proof -
  have "0 \<le> (n + 2 ^ 31) mod 2 ^ 32" "(n + 2 ^ 31) mod 2 ^ 32 < (2 ^ 32 :: int)"
    by simp_all
  then show ?thesis by (simp add: in_i32_def as_i32_def)
qed

lemma as_i32_id: "in_i32 n \<Longrightarrow> as_i32 n = n"
  by (simp add: in_i32_def as_i32_def)

section \<open>Decimal rendering\<close>

definition digit :: "nat \<Rightarrow> char" where
  "digit d = char_of (48 + d)"

fun dec_nat :: "nat \<Rightarrow> string" where
  "dec_nat n = (if n < 10 then [digit n] else dec_nat (n div 10) @ [digit (n mod 10)])"

declare dec_nat.simps [simp del]

definition dec :: "int \<Rightarrow> string" where
  "dec n = (if n < 0 then CHR ''-'' # dec_nat (nat (- n)) else dec_nat (nat n))"

definition is_digit :: "char \<Rightarrow> bool" where
  "is_digit c \<longleftrightarrow> 48 \<le> (of_char c :: nat) \<and> (of_char c :: nat) \<le> 57"

definition undec_nat :: "string \<Rightarrow> nat" where
  "undec_nat = foldl (\<lambda>a c. 10 * a + (of_char c - 48)) 0"

lemma of_char_digit: "d < 10 \<Longrightarrow> (of_char (digit d) :: nat) = 48 + d"
  by (simp add: digit_def)

lemma is_digit_digit: "d < 10 \<Longrightarrow> is_digit (digit d)"
  by (simp add: is_digit_def of_char_digit)

lemma dec_nat_digits: "c \<in> set (dec_nat n) \<Longrightarrow> is_digit c"
proof (induction n rule: dec_nat.induct)
  case (1 n)
  then show ?case
    by (subst (asm) dec_nat.simps) (auto simp: is_digit_digit split: if_splits)
qed

lemma dec_nat_not_Nil [simp]: "dec_nat n \<noteq> []"
  by (subst dec_nat.simps) simp

lemma undec_dec_nat [simp]: "undec_nat (dec_nat n) = n"
proof (induction n rule: dec_nat.induct)
  case (1 n)
  show ?case
  proof (cases "n < 10")
    case True
    then show ?thesis by (subst dec_nat.simps) (simp add: undec_nat_def of_char_digit)
  next
    case False
    with 1 have IH: "undec_nat (dec_nat (n div 10)) = n div 10" by simp
    have "undec_nat (dec_nat n) = 10 * undec_nat (dec_nat (n div 10)) + n mod 10"
      using False by (subst dec_nat.simps) (simp add: undec_nat_def of_char_digit)
    with IH show ?thesis by simp
  qed
qed

lemma dec_nat_inject [simp]: "dec_nat m = dec_nat n \<longleftrightarrow> m = n"
  by (metis undec_dec_nat)

lemma dec_chars: "c \<in> set (dec n) \<Longrightarrow> is_digit c \<or> c = CHR ''-''"
  by (auto simp: dec_def dest: dec_nat_digits split: if_splits)

lemma dec_not_Nil [simp]: "dec n \<noteq> []"
  by (simp add: dec_def)

lemma is_digit_minus [simp]: "\<not> is_digit CHR ''-''"
  by (simp add: is_digit_def)

lemma minus_not_in_dec_nat: "CHR ''-'' \<notin> set (dec_nat n)"
  using dec_nat_digits is_digit_minus by blast

lemma dec_nat_neq_minus [simp]: "dec_nat n \<noteq> CHR ''-'' # xs" "CHR ''-'' # xs \<noteq> dec_nat n"
  using minus_not_in_dec_nat [of n] by (metis list.set_intros(1))+

lemma dec_inject [simp]: "dec m = dec n \<longleftrightarrow> m = n"
  by (auto simp: dec_def)

text \<open>A character that is neither a digit nor a minus sign separates rendered integers.\<close>

definition sep_char :: "char \<Rightarrow> bool" where
  "sep_char c \<longleftrightarrow> \<not> is_digit c \<and> c \<noteq> CHR ''-''"

lemma sep_not_in_dec: "sep_char c \<Longrightarrow> c \<notin> set (dec n)"
  using dec_chars by (auto simp: sep_char_def)

lemma append_sep_eq:
  assumes "c \<notin> set xs" "c \<notin> set ys"
  shows "xs @ c # us = ys @ c # vs \<longleftrightarrow> xs = ys \<and> us = vs"
  using assms
proof (induction xs arbitrary: ys)
  case Nil
  then show ?case by (cases ys) auto
next
  case (Cons x xs)
  then show ?case by (cases ys) auto
qed

lemma dec_sep_inject [simp]:
  "sep_char c \<Longrightarrow> dec m @ c # us = dec n @ c # vs \<longleftrightarrow> m = n \<and> us = vs"
  by (simp add: append_sep_eq sep_not_in_dec)

lemma sep_char_simps [simp]: "sep_char CHR '':''" "sep_char CHR ''}''"
  by (simp_all add: sep_char_def is_digit_def)

text \<open>A rendered integer followed by anything starts with a digit or a minus sign.\<close>

lemma dec_append_Cons_neq:
  assumes "sep_char c"
  shows "dec n @ us \<noteq> c # vs" and "c # vs \<noteq> dec n @ us"
proof -
  obtain d ds where d: "dec n = d # ds" by (cases "dec n") auto
  then have "d \<in> set (dec n)" by simp
  with dec_chars assms have "d \<noteq> c" by (auto simp: sep_char_def)
  with d show "dec n @ us \<noteq> c # vs" "c # vs \<noteq> dec n @ us" by auto
qed

section \<open>Parsing integers\<close>

text \<open>
  \<open>s.parse()\<close> into an integer type: an optional sign, at least one decimal digit, and the value
  in the range of the type.
\<close>

definition parse_digits :: "string \<Rightarrow> nat option" where
  "parse_digits s = (if s \<noteq> [] \<and> list_all is_digit s then Some (undec_nat s) else None)"

definition parse_dec :: "string \<Rightarrow> int option" where
  "parse_dec s =
     (case s of
        [] \<Rightarrow> None
      | c # cs \<Rightarrow>
          if c = CHR ''-'' then map_option (\<lambda>n. - int n) (parse_digits cs)
          else if c = CHR ''+'' then map_option int (parse_digits cs)
          else map_option int (parse_digits s))"

definition parse_within :: "(int \<Rightarrow> bool) \<Rightarrow> string \<Rightarrow> int option" where
  "parse_within p s =
     (case parse_dec s of Some n \<Rightarrow> if p n then Some n else None | None \<Rightarrow> None)"

definition parse_i32 :: "string \<Rightarrow> int option" where
  "parse_i32 = parse_within in_i32"

lemma parse_digits_dec_nat [simp]: "parse_digits (dec_nat n) = Some n"
  by (auto simp: parse_digits_def list_all_iff dest: dec_nat_digits)

lemma parse_dec_dec [simp]: "parse_dec (dec n) = Some n"
proof (cases "n < 0")
  case True
  then show ?thesis by (simp add: parse_dec_def dec_def)
next
  case False
  obtain c cs where c: "dec_nat (nat n) = c # cs" by (cases "dec_nat (nat n)") auto
  then have "is_digit c" using dec_nat_digits [of c "nat n"] by simp
  then have "c \<noteq> CHR ''-''" "c \<noteq> CHR ''+''" by (auto simp: is_digit_def)
  with False c parse_digits_dec_nat [of "nat n"] show ?thesis
    by (simp add: parse_dec_def dec_def)
qed

lemma parse_i32_dec [simp]: "in_i32 n \<Longrightarrow> parse_i32 (dec n) = Some n"
  by (simp add: parse_i32_def parse_within_def)

lemma parse_i32_range: "parse_i32 s = Some n \<Longrightarrow> in_i32 n"
  by (auto simp: parse_i32_def parse_within_def split: option.splits if_splits)

text \<open>\<open>str::strip_prefix\<close>.\<close>

definition strip_prefix :: "string \<Rightarrow> string \<Rightarrow> string option" where
  "strip_prefix pre s = (if take (length pre) s = pre then Some (drop (length pre) s) else None)"

section \<open>Generic lemmas\<close>

lemma fst_snd_conv: "x = (a, b) \<longleftrightarrow> fst x = a \<and> snd x = b"
  by auto

lemma nth_list_update_if:
  "i < length xs \<Longrightarrow> xs[i := v] ! j = (if i = j then v else xs ! j)"
  by simp

text \<open>Counting in a list of thread states when one of them moves.\<close>

definition count_if :: "('a \<Rightarrow> bool) \<Rightarrow> 'a list \<Rightarrow> nat" where
  "count_if P xs = length (filter P xs)"

lemma count_if_update:
  "i < length xs \<Longrightarrow>
   count_if P (xs[i := v]) = count_if P xs + of_bool (P v) - of_bool (P (xs ! i))"
proof (induction xs arbitrary: i)
  case (Cons x xs)
  have "P (xs ! k) \<Longrightarrow> k < length xs \<Longrightarrow> 0 < length (filter P xs)" for k
    using nth_mem by (fastforce simp: filter_empty_conv)
  with Cons show ?case by (cases i) (auto simp: count_if_def of_bool_def Suc_diff_le)
qed simp

lemma count_if_0: "count_if P xs = 0 \<longleftrightarrow> (\<forall>x \<in> set xs. \<not> P x)"
  by (simp add: count_if_def filter_empty_conv)

lemma count_if_pos: "i < length xs \<Longrightarrow> P (xs ! i) \<Longrightarrow> 0 < count_if P xs"
  using nth_mem by (fastforce simp: count_if_def filter_empty_conv)

end
