(* ===== verification/Redis_Service.thy ===== *)
theory Redis_Service
  imports Bookit_Prelude "HOL-Library.Word"
begin

text \<open>
  The Redis servers the services talk to, as a parameter of the model. A server is a value of type
  \<open>'r redis\<close>: its commands as functions on an abstract server state \<open>'r\<close>, and \<open>look\<close>, the
  keyspace a state stands for. What the program relies on is the documented effect of each command
  on that keyspace, stated as the assumptions of the locale \<open>redis_service\<close>; nothing else is known
  of a server. \<open>mem_redis\<close> is a server that keeps its keyspace in memory, and its interpretation
  shows that the assumptions can be met and lets the operations be evaluated.

  Every exchange with a server can fail. A \<open>world\<close> holds the servers of the pool list and a
  schedule of faults consumed one per exchange: \<open>Refused\<close> (no connection, or an error before the
  command ran) and \<open>ReplyLost\<close> (the command ran, its reply was lost). The theorems quantify over
  every schedule unless they say otherwise.
\<close>

section \<open>Keyspaces\<close>

datatype rval =
    RStr string
  | RBits "8 word list"
  | RZset "(string \<times> int) list"

record rentry =
  rvalue :: rval
  rttl :: "int option"  \<comment> \<open>remaining time to live in milliseconds\<close>

type_synonym keyspace = "string \<Rightarrow> rentry option"

definition str_entry :: "string \<Rightarrow> int option \<Rightarrow> rentry" where
  "str_entry v t = \<lparr>rvalue = RStr v, rttl = t\<rparr>"

definition str_of :: "rentry option \<Rightarrow> string option" where
  "str_of e = (case e of Some en \<Rightarrow> (case rvalue en of RStr v \<Rightarrow> Some v | _ \<Rightarrow> None) | None \<Rightarrow> None)"

definition zset_of :: "rentry option \<Rightarrow> (string \<times> int) list" where
  "zset_of e = (case e of Some en \<Rightarrow> (case rvalue en of RZset z \<Rightarrow> z | _ \<Rightarrow> []) | None \<Rightarrow> [])"

definition bits_of :: "rentry option \<Rightarrow> 8 word list" where
  "bits_of e = (case e of Some en \<Rightarrow> (case rvalue en of RBits b \<Rightarrow> b | _ \<Rightarrow> []) | None \<Rightarrow> [])"

subsection \<open>Sorted sets\<close>

definition zput :: "string \<Rightarrow> int \<Rightarrow> (string \<times> int) list \<Rightarrow> (string \<times> int) list" where
  "zput m s z = (m, s) # filter (\<lambda>p. fst p \<noteq> m) z"

definition zdel :: "string \<Rightarrow> (string \<times> int) list \<Rightarrow> (string \<times> int) list" where
  "zdel m z = filter (\<lambda>p. fst p \<noteq> m) z"

definition zset_entry :: "int option \<Rightarrow> (string \<times> int) list \<Rightarrow> rentry option" where
  "zset_entry t z = (if z = [] then None else Some \<lparr>rvalue = RZset z, rttl = t\<rparr>)"

text \<open>A sorted-set command on a key of another type is refused and leaves the key alone.\<close>

definition zmap_entry ::
    "((string \<times> int) list \<Rightarrow> (string \<times> int) list) \<Rightarrow> rentry option \<Rightarrow> rentry option" where
  "zmap_entry f e =
     (case e of
        None \<Rightarrow> zset_entry None (f [])
      | Some en \<Rightarrow> (case rvalue en of RZset z \<Rightarrow> zset_entry (rttl en) (f z) | _ \<Rightarrow> e))"

lemma map_of_zput [simp]: "map_of (zput m s z) = (map_of z)(m \<mapsto> s)"
proof
  fix x
  have "map_of (filter (\<lambda>p. fst p \<noteq> m) z) x = (if x = m then None else map_of z x)"
    by (induction z) auto
  then show "map_of (zput m s z) x = ((map_of z)(m \<mapsto> s)) x"
    by (simp add: zput_def)
qed

lemma map_of_zdel [simp]: "map_of (zdel m z) = (map_of z)(m := None)"
proof
  fix x
  show "map_of (zdel m z) x = ((map_of z)(m := None)) x"
    by (induction z) (auto simp: zdel_def)
qed

lemma distinct_zput: "distinct (map fst z) \<Longrightarrow> distinct (map fst (zput m s z))"
  by (auto simp: zput_def distinct_map_filter)

lemma distinct_zdel: "distinct (map fst z) \<Longrightarrow> distinct (map fst (zdel m z))"
  by (simp add: zdel_def distinct_map_filter)

lemma zset_of_zset_entry [simp]: "zset_of (zset_entry t z) = z"
  by (simp add: zset_of_def zset_entry_def)

lemma str_of_zset_entry [simp]: "str_of (zset_entry t z) = None"
  by (simp add: str_of_def zset_entry_def)

definition zset_typed :: "rentry option \<Rightarrow> bool" where
  "zset_typed e \<longleftrightarrow> (case e of None \<Rightarrow> True | Some en \<Rightarrow> (case rvalue en of RZset _ \<Rightarrow> True | _ \<Rightarrow> False))"

lemma zset_of_zmap_entry:
  "zset_typed e \<Longrightarrow> zset_of (zmap_entry f e) = f (zset_of e)"
  by (auto simp: zset_typed_def zmap_entry_def zset_of_def zset_entry_def
      split: option.splits rval.splits)

lemma zset_typed_zmap_entry: "zset_typed e \<Longrightarrow> zset_typed (zmap_entry f e)"
  by (auto simp: zset_typed_def zmap_entry_def zset_entry_def split: option.splits rval.splits)

subsection \<open>Two-bit fields\<close>

text \<open>
  \<open>BITFIELD key SET u2 offset value\<close> writes two bits, counted from the most significant bit of
  the first byte, and extends the value with zero bytes as needed. The program only uses even
  offsets, so a field never straddles two bytes. Redis limits offsets to \<open>2 ^ 32\<close> bits.
\<close>

unbundle bit_operations_syntax

definition bit_field :: "nat \<Rightarrow> 8 word \<Rightarrow> 8 word" where
  "bit_field slot b = drop_bit (6 - 2 * slot) b AND 3"

definition put_field :: "nat \<Rightarrow> 8 word \<Rightarrow> 8 word \<Rightarrow> 8 word" where
  "put_field slot v b =
     (b AND NOT (push_bit (6 - 2 * slot) 3)) OR push_bit (6 - 2 * slot) (v AND 3)"

definition bf_set :: "nat \<Rightarrow> 8 word \<Rightarrow> 8 word list \<Rightarrow> 8 word list" where
  "bf_set off v bs =
     (let i = off div 8;
          ext = bs @ replicate (Suc i - length bs) 0
      in ext[i := put_field (off mod 8 div 2) v (ext ! i)])"

definition bf_get :: "nat \<Rightarrow> 8 word list \<Rightarrow> 8 word" where
  "bf_get off bs =
     (if off div 8 < length bs then bit_field (off mod 8 div 2) (bs ! (off div 8)) else 0)"

definition bits_entry :: "nat \<Rightarrow> 8 word \<Rightarrow> rentry option \<Rightarrow> rentry option" where
  "bits_entry off v e =
     (if 2 ^ 32 \<le> off then e
      else (case e of
        None \<Rightarrow> Some \<lparr>rvalue = RBits (bf_set off v []), rttl = None\<rparr>
      | Some en \<Rightarrow>
          (case rvalue en of RBits bs \<Rightarrow> Some (en\<lparr>rvalue := RBits (bf_set off v bs)\<rparr>) | _ \<Rightarrow> e)))"

lemma bit_3_int [simp]: "bit (3 :: int) n \<longleftrightarrow> n < 2"
proof -
  have 3: "(3 :: int) = mask 2" by (simp add: mask_eq_exp_minus_1)
  show ?thesis unfolding 3 bit_mask_iff by simp
qed

lemma bit_field_put_same:
  "i < 4 \<Longrightarrow> bit_field i (put_field i v b) = v AND 3"
  by (rule bit_word_eqI) (auto simp: bit_field_def put_field_def bit_simps)

lemma bit_field_put_other:
  "i < 4 \<Longrightarrow> j < 4 \<Longrightarrow> i \<noteq> j \<Longrightarrow> bit_field j (put_field i v b) = bit_field j b"
  by (rule bit_word_eqI) (auto simp: bit_field_def put_field_def bit_simps)

lemma bf_get_set_same: "bf_get off (bf_set off v bs) = v AND 3"
proof -
  have "off mod 8 div 2 < 4" and "off div 8 < length bs + (Suc (off div 8) - length bs)"
    by (simp, arith)
  then show ?thesis
    by (simp add: bf_get_def bf_set_def Let_def bit_field_put_same)
qed

lemma bf_get_ext: "bf_get off (bs @ replicate n 0) = bf_get off bs"
  by (auto simp: bf_get_def nth_append bit_field_def)

lemma even_offset_eq:
  fixes off :: nat
  assumes "even off"
  shows "off = 8 * (off div 8) + 2 * (off mod 8 div 2)"
proof -
  from assms have "even (off mod 8)" by (simp add: dvd_mod)
  then have "2 * (off mod 8 div 2) = off mod 8" by simp
  then show ?thesis by simp
qed

lemma bf_get_set_other:
  assumes "even off" "even off'" "off \<noteq> off'"
  shows "bf_get off' (bf_set off v bs) = bf_get off' bs"
proof -
  let ?i = "off div 8" and ?e = "bs @ replicate (Suc (off div 8) - length bs) 0"
  have eq: "bf_set off v bs = ?e[?i := put_field (off mod 8 div 2) v (?e ! ?i)]"
    by (simp add: bf_set_def Let_def)
  have "bf_get off' (?e[?i := put_field (off mod 8 div 2) v (?e ! ?i)]) = bf_get off' ?e"
  proof (cases "off' div 8 = ?i")
    case True
    with assms even_offset_eq [of off] even_offset_eq [of off']
    have "off mod 8 div 2 \<noteq> off' mod 8 div 2" by metis
    moreover have "off mod 8 div 2 < 4" "off' mod 8 div 2 < 4" by simp_all
    moreover have "?i < length ?e" by simp
    ultimately show ?thesis
      using True by (simp only: bf_get_def length_list_update nth_list_update_eq
          if_True bit_field_put_other simp_thms)
  next
    case False
    then show ?thesis by (simp add: bf_get_def)
  qed
  then show ?thesis by (simp only: eq bf_get_ext)
qed

section \<open>Servers\<close>

record 'r redis =
  look :: "'r \<Rightarrow> keyspace"
  SET :: "string \<Rightarrow> string \<Rightarrow> 'r \<Rightarrow> 'r"
  SETPX :: "string \<Rightarrow> string \<Rightarrow> int \<Rightarrow> 'r \<Rightarrow> 'r"
  PEXPIRE :: "string \<Rightarrow> int \<Rightarrow> 'r \<Rightarrow> 'r"
  DEL :: "string \<Rightarrow> 'r \<Rightarrow> 'r"
  INCRBY :: "string \<Rightarrow> int \<Rightarrow> 'r \<Rightarrow> 'r"
  ZADD :: "string \<Rightarrow> int \<Rightarrow> string \<Rightarrow> 'r \<Rightarrow> 'r"
  ZREM :: "string \<Rightarrow> string \<Rightarrow> 'r \<Rightarrow> 'r"
  ZREMRANGE :: "string \<Rightarrow> int \<Rightarrow> 'r \<Rightarrow> 'r"  \<comment> \<open>\<open>ZREMRANGEBYSCORE key -inf max\<close>\<close>
  ZRANGE :: "string \<Rightarrow> int option \<Rightarrow> int option \<Rightarrow> 'r \<Rightarrow> string list"
    \<comment> \<open>\<open>ZRANGEBYSCORE key min max\<close>, \<open>None\<close> for an infinite bound\<close>
  BITSET :: "string \<Rightarrow> nat \<Rightarrow> 8 word \<Rightarrow> 'r \<Rightarrow> 'r"  \<comment> \<open>\<open>BITFIELD key SET u2 offset value\<close>\<close>
  TICK :: "int \<Rightarrow> 'r \<Rightarrow> 'r"  \<comment> \<open>the passage of time, in milliseconds\<close>

definition GET :: "'r redis \<Rightarrow> string \<Rightarrow> 'r \<Rightarrow> string option" where
  "GET R k r = str_of (look R r k)"

definition GETBITS :: "'r redis \<Rightarrow> string \<Rightarrow> 'r \<Rightarrow> 8 word list" where
  "GETBITS R k r = bits_of (look R r k)"

definition EXISTS :: "'r redis \<Rightarrow> string \<Rightarrow> 'r \<Rightarrow> bool" where
  "EXISTS R k r \<longleftrightarrow> look R r k \<noteq> None"

definition ZCARD :: "'r redis \<Rightarrow> string \<Rightarrow> 'r \<Rightarrow> nat" where
  "ZCARD R k r = length (zset_of (look R r k))"

text \<open>\<open>SET key value NX PX ttl\<close>: set only an absent key, and say whether it was set.\<close>

definition SETNXPX :: "'r redis \<Rightarrow> string \<Rightarrow> string \<Rightarrow> int \<Rightarrow> 'r \<Rightarrow> bool \<times> 'r" where
  "SETNXPX R k v t r = (if EXISTS R k r then (False, r) else (True, SETPX R k v t r))"

definition pexpire_entry :: "int \<Rightarrow> rentry option \<Rightarrow> rentry option" where
  "pexpire_entry t e = map_option (\<lambda>en. en\<lparr>rttl := Some t\<rparr>) e"

definition incr_entry :: "int \<Rightarrow> rentry option \<Rightarrow> rentry option" where
  "incr_entry d e =
     (case e of
        None \<Rightarrow> Some (str_entry (dec d) None)
      | Some en \<Rightarrow>
          (case rvalue en of
             RStr s \<Rightarrow> (case parse_dec s of
                 Some n \<Rightarrow> Some (en\<lparr>rvalue := RStr (dec (n + d))\<rparr>) | None \<Rightarrow> e)
           | _ \<Rightarrow> e))"

definition tick_entry :: "int \<Rightarrow> rentry option \<Rightarrow> rentry option" where
  "tick_entry d e =
     (case e of
        None \<Rightarrow> None
      | Some en \<Rightarrow>
          (case rttl en of
             None \<Rightarrow> e
           | Some t \<Rightarrow> if d < t then Some (en\<lparr>rttl := Some (t - d)\<rparr>) else None))"

definition within :: "int option \<Rightarrow> int option \<Rightarrow> int \<Rightarrow> bool" where
  "within lo hi s \<longleftrightarrow>
     (case lo of None \<Rightarrow> True | Some l \<Rightarrow> l \<le> s) \<and> (case hi of None \<Rightarrow> True | Some h \<Rightarrow> s \<le> h)"

locale redis_service =
  fixes R :: "'r redis"
  assumes look_SET [simp]: "look R (SET R k v r) = (look R r)(k \<mapsto> str_entry v None)"
    and look_SETPX [simp]:
      "0 < t \<Longrightarrow> look R (SETPX R k v t r) = (look R r)(k \<mapsto> str_entry v (Some t))"
    and look_PEXPIRE [simp]:
      "0 < t \<Longrightarrow> look R (PEXPIRE R k t r) = (look R r)(k := pexpire_entry t (look R r k))"
    and look_DEL [simp]: "look R (DEL R k r) = (look R r)(k := None)"
    and look_INCRBY [simp]: "look R (INCRBY R k d r) = (look R r)(k := incr_entry d (look R r k))"
    and look_ZADD [simp]:
      "look R (ZADD R k s m r) = (look R r)(k := zmap_entry (zput m s) (look R r k))"
    and look_ZREM [simp]:
      "look R (ZREM R k m r) = (look R r)(k := zmap_entry (zdel m) (look R r k))"
    and look_ZREMRANGE [simp]:
      "look R (ZREMRANGE R k mx r) =
         (look R r)(k := zmap_entry (filter (\<lambda>p. mx < snd p)) (look R r k))"
    and look_BITSET [simp]:
      "even off \<Longrightarrow> look R (BITSET R k off b r) = (look R r)(k := bits_entry off b (look R r k))"
    and look_TICK [simp]: "0 \<le> d \<Longrightarrow> look R (TICK R d r) = (\<lambda>k. tick_entry d (look R r k))"
    and set_ZRANGE:
      "set (ZRANGE R k lo hi r) = fst ` {p \<in> set (zset_of (look R r k)). within lo hi (snd p)}"

lemmas redis_reads = GET_def GETBITS_def EXISTS_def ZCARD_def SETNXPX_def

subsection \<open>A server in memory\<close>

definition mem_redis :: "keyspace redis" where
  "mem_redis =
     \<lparr>look = (\<lambda>r. r),
      SET = (\<lambda>k v r. r(k \<mapsto> str_entry v None)),
      SETPX = (\<lambda>k v t r. r(k \<mapsto> str_entry v (Some t))),
      PEXPIRE = (\<lambda>k t r. r(k := pexpire_entry t (r k))),
      DEL = (\<lambda>k r. r(k := None)),
      INCRBY = (\<lambda>k d r. r(k := incr_entry d (r k))),
      ZADD = (\<lambda>k s m r. r(k := zmap_entry (zput m s) (r k))),
      ZREM = (\<lambda>k m r. r(k := zmap_entry (zdel m) (r k))),
      ZREMRANGE = (\<lambda>k hi r. r(k := zmap_entry (filter (\<lambda>p. hi < snd p)) (r k))),
      ZRANGE = (\<lambda>k lo hi r. map fst (sort_key snd (filter (\<lambda>p. within lo hi (snd p)) (zset_of (r k))))),
      BITSET = (\<lambda>k off b r. r(k := bits_entry off b (r k))),
      TICK = (\<lambda>d r k. tick_entry d (r k))\<rparr>"

interpretation mem: redis_service mem_redis
  by unfold_locales (auto simp: mem_redis_def)

lemma mem_redis_simps:
  "look mem_redis r = r"
  "SET mem_redis k v r = r(k \<mapsto> str_entry v None)"
  "SETPX mem_redis k v t r = r(k \<mapsto> str_entry v (Some t))"
  "PEXPIRE mem_redis k t r = r(k := pexpire_entry t (r k))"
  "DEL mem_redis k r = r(k := None)"
  "INCRBY mem_redis k d r = r(k := incr_entry d (r k))"
  "ZADD mem_redis k x m r = r(k := zmap_entry (zput m x) (r k))"
  "ZREM mem_redis k m r = r(k := zmap_entry (zdel m) (r k))"
  "ZREMRANGE mem_redis k x r = r(k := zmap_entry (filter (\<lambda>p. x < snd p)) (r k))"
  "ZRANGE mem_redis k lo hi r =
     map fst (sort_key snd (filter (\<lambda>p. within lo hi (snd p)) (zset_of (r k))))"
  "BITSET mem_redis k off b r = r(k := bits_entry off b (r k))"
  "TICK mem_redis d r = (\<lambda>k. tick_entry d (r k))"
  by (simp_all add: mem_redis_def)

section \<open>Exchanges with the servers of a pool list\<close>

datatype fault = Delivered | Refused | ReplyLost

record ('r, 'p) world =
  nodes :: "'r list"
  faults :: "fault list"
  published :: "(nat \<times> string \<times> 'p) list"  \<comment> \<open>node, channel and payload of each PUBLISH, latest first\<close>

definition next_fault :: "('r, 'p) world \<Rightarrow> fault \<times> ('r, 'p) world" where
  "next_fault w = (case faults w of [] \<Rightarrow> (Delivered, w) | f # fs \<Rightarrow> (f, w\<lparr>faults := fs\<rparr>))"

text \<open>\<open>pool.get().await\<close>: whether a connection could be checked out.\<close>

definition pool_get :: "('r, 'p) world \<Rightarrow> bool \<times> ('r, 'p) world" where
  "pool_get w = (case next_fault w of (f, w') \<Rightarrow> (f \<noteq> Refused, w'))"

text \<open>One command or script sent to node \<open>i\<close>; \<open>None\<close> is an \<open>Err\<close> of the client library.\<close>

definition send :: "nat \<Rightarrow> ('r \<Rightarrow> 'a \<times> 'r) \<Rightarrow> ('r, 'p) world \<Rightarrow> 'a option \<times> ('r, 'p) world" where
  "send i c w =
     (case next_fault w of (f, w') \<Rightarrow>
        let (a, r') = c (nodes w' ! i); w'' = w'\<lparr>nodes := (nodes w')[i := r']\<rparr>
        in (case f of
              Delivered \<Rightarrow> (Some a, w'')
            | Refused \<Rightarrow> (None, w')
            | ReplyLost \<Rightarrow> (None, w'')))"

definition reading :: "('r \<Rightarrow> 'a) \<Rightarrow> 'r \<Rightarrow> 'a \<times> 'r" where
  "reading f r = (f r, r)"

definition writing :: "('r \<Rightarrow> 'r) \<Rightarrow> 'r \<Rightarrow> unit \<times> 'r" where
  "writing f r = ((), f r)"

text \<open>
  The replicated writes: a future per pool, joined. The futures touch different servers, so their
  order does not matter and the model runs them in pool order.
\<close>

definition write_node :: "('r \<Rightarrow> 'r) \<Rightarrow> nat \<Rightarrow> ('r, 'p) world \<Rightarrow> ('r, 'p) world" where
  "write_node f i w =
     (case pool_get w of (ok, w') \<Rightarrow> if ok then snd (send i (writing f) w') else w')"

text \<open>A write to the first pool, as the services do through their own \<open>redis_pool\<close>.\<close>

definition publish_node :: "nat \<Rightarrow> string \<Rightarrow> 'p \<Rightarrow> ('r, 'p) world \<Rightarrow> ('r, 'p) world" where
  "publish_node i ch p w =
     (case next_fault w of (f, w') \<Rightarrow>
        if f = Refused then w' else w'\<lparr>published := (i, ch, p) # published w'\<rparr>)"

definition on_all :: "('r \<Rightarrow> 'r) \<Rightarrow> ('r, 'p) world \<Rightarrow> ('r, 'p) world" where
  "on_all f w = fold (write_node f) [0..<length (nodes w)] w"

text \<open>
  What one exchange can do to the servers: nothing, or the command on its node. Properties of the
  servers are carried through a whole operation by these rules, whatever the fault schedule.
\<close>

lemma nodes_next_fault [simp]: "nodes (snd (next_fault w)) = nodes w"
  by (simp add: next_fault_def split: list.split)

lemma nodes_pool_get [simp]: "nodes (snd (pool_get w)) = nodes w"
  using nodes_next_fault [of w] by (cases "next_fault w") (simp add: pool_get_def)

lemma pool_getD: "pool_get w = (b, w') \<Longrightarrow> nodes w' = nodes w"
  using nodes_pool_get [of w] by simp

lemma send_cases:
  assumes "send i c w = (res, w')"
  obtains (run) "nodes w' = (nodes w)[i := snd (c (nodes w ! i))]"
      "res = None \<or> res = Some (fst (c (nodes w ! i)))"
    | (skip) "nodes w' = nodes w" "res = None"
proof -
  obtain f w0 where f: "next_fault w = (f, w0)" by (cases "next_fault w")
  then have n: "nodes w0 = nodes w" using nodes_next_fault [of w] by simp
  show thesis
    using assms f n run skip
    by (cases f) (auto simp: send_def Let_def split: prod.splits)
qed

lemma send_Some:
  assumes "send i c w = (Some a, w')"
  shows "nodes w' = (nodes w)[i := snd (c (nodes w ! i))]" and "a = fst (c (nodes w ! i))"
  using assms by (auto elim!: send_cases)

lemma send_pres:
  assumes "send i c w = (res, w')" "P (nodes w)"
    and "P ((nodes w)[i := snd (c (nodes w ! i))])"
  shows "P (nodes w')"
  using assms by (auto elim!: send_cases)

lemma send_reading:
  assumes "send i (reading f) w = (res, w')"
  shows "nodes w' = nodes w" and "res = None \<or> res = Some (f (nodes w ! i))"
  using assms by (auto simp: reading_def elim!: send_cases)

lemma write_node_pres:
  assumes "P (nodes w)" "P ((nodes w)[i := f (nodes w ! i)])"
  shows "P (nodes (write_node f i w))"
proof -
  obtain ok w1 where p: "pool_get w = (ok, w1)" by (cases "pool_get w")
  obtain res w2 where s: "send i (writing f) w1 = (res, w2)" by (cases "send i (writing f) w1")
  have "P (nodes w2)"
    by (rule send_pres [OF s]) (use assms pool_getD [OF p] in \<open>auto simp: writing_def\<close>)
  with p s assms pool_getD [OF p] show ?thesis by (simp add: write_node_def)
qed

lemma fold_write_node_pres:
  assumes "P (nodes w)" and "\<And>ns i. P ns \<Longrightarrow> i \<in> set is \<Longrightarrow> P (ns[i := f (ns ! i)])"
  shows "P (nodes (fold (write_node f) is w))"
  using assms
proof (induction "is" arbitrary: w)
  case Nil
  then show ?case by simp
next
  case (Cons i "is")
  have "P (nodes (write_node f i w))"
    by (rule write_node_pres) (use Cons.prems in auto)
  then have "P (nodes (fold (write_node f) is (write_node f i w)))"
    by (rule Cons.IH) (use Cons.prems in auto)
  then show ?case by simp
qed

lemma on_all_pres:
  assumes "P (nodes w)" and "\<And>ns i. P ns \<Longrightarrow> i < length (nodes w) \<Longrightarrow> P (ns[i := f (ns ! i)])"
  shows "P (nodes (on_all f w))"
  unfolding on_all_def by (rule fold_write_node_pres) (use assms in auto)

lemma length_nodes_on_all [simp]: "length (nodes (on_all f w)) = length (nodes w)"
  by (rule on_all_pres [where P = "\<lambda>ns. length ns = length (nodes w)"]) auto

lemma nodes_publish_node [simp]: "nodes (publish_node i ch p w) = nodes w"
  using nodes_next_fault [of w] by (cases "next_fault w") (simp add: publish_node_def)

text \<open>Without faults every exchange is delivered.\<close>

lemma no_faults_simps [simp]:
  assumes "faults w = []"
  shows "next_fault w = (Delivered, w)" and "pool_get w = (True, w)"
    and "send i c w = (Some (fst (c (nodes w ! i))), w\<lparr>nodes := (nodes w)[i := snd (c (nodes w ! i))]\<rparr>)"
    and "write_node f i w = w\<lparr>nodes := (nodes w)[i := f (nodes w ! i)]\<rparr>"
  using assms
  by (simp_all add: next_fault_def pool_get_def send_def write_node_def writing_def Let_def
      split: prod.split)

lemma fold_write_node_no_faults:
  "faults w = [] \<Longrightarrow> distinct is \<Longrightarrow> \<forall>i \<in> set is. i < length (nodes w) \<Longrightarrow>
   fold (write_node f) is w =
     w\<lparr>nodes := map (\<lambda>i. if i \<in> set is then f (nodes w ! i) else nodes w ! i) [0..<length (nodes w)]\<rparr>"
proof (induction "is" arbitrary: w)
  case Nil
  then show ?case by (simp add: map_nth)
next
  case (Cons i "is")
  then have "fold (write_node f) is (w\<lparr>nodes := (nodes w)[i := f (nodes w ! i)]\<rparr>) =
      w\<lparr>nodes := map (\<lambda>j. if j \<in> set is then f ((nodes w)[i := f (nodes w ! i)] ! j)
                          else (nodes w)[i := f (nodes w ! i)] ! j) [0..<length (nodes w)]\<rparr>"
    by simp
  also have "\<dots> = w\<lparr>nodes := map (\<lambda>j. if j \<in> set (i # is) then f (nodes w ! j) else nodes w ! j)
                      [0..<length (nodes w)]\<rparr>"
    using Cons.prems
    by (intro arg_cong [where f = "\<lambda>ns. w\<lparr>nodes := ns\<rparr>"]) (auto simp: nth_list_update)
  finally show ?case using Cons.prems by simp
qed

lemma on_all_no_faults [simp]:
  "faults w = [] \<Longrightarrow> on_all f w = w\<lparr>nodes := map f (nodes w)\<rparr>"
proof -
  assume "faults w = []"
  then have "on_all f w = w\<lparr>nodes := map (\<lambda>i. f (nodes w ! i)) [0..<length (nodes w)]\<rparr>"
    by (simp add: on_all_def fold_write_node_no_faults)
  also have "map (\<lambda>i. f (nodes w ! i)) [0..<length (nodes w)] = map f (nodes w)"
    by (rule nth_equalityI) auto
  finally show ?thesis .
qed

end
