(* ===== verification/Show_Actor.thy ===== *)
theory Show_Actor
  imports Redis_Service "HOL-Library.AList"
begin

text \<open>
  The per-show actor of the gateway (\<open>CachePaddedShowActor\<close> in
  \<open>apps/gateway-keeper/src/state_active.rs\<close>): a fixed array of seat slots with the admission flag of
  each seat, the map from seat ids to slots, and the request counter that keeps an idle actor from
  being evicted under a running request.

  The first part models each method as one function on the actor; its invariant makes the seat map
  a bijection between the known seats and the occupied slots. The second part takes
  \<open>begin_request\<close>, the lease's \<open>drop\<close>, \<open>try_begin_idle_eviction\<close> and the closing of a schedule apart
  into their atomic accesses and interleaves any number of threads.
\<close>

section \<open>State\<close>

definition STATE_AVAILABLE :: "8 word" where "STATE_AVAILABLE = 0"

definition STATE_PROCESSING :: "8 word" where "STATE_PROCESSING = 1"

definition SHOW_QUEUE_CAPACITY :: nat where "SHOW_QUEUE_CAPACITY = 5"

definition MAX_SEATS_PER_SHOW :: int where "MAX_SEATS_PER_SHOW = 200000"

definition ACTOR_IDLE_TTL :: int where "ACTOR_IDLE_TTL = 2 * 60 * 60"

record seat_slot =
  slot_seat :: seat_id
  slot_state :: "8 word"

datatype gateway_task =
    TLock user_id "seat_id list"
  | TCancel user_id "seat_id list"

record show_actor =
  sender :: "gateway_task list"  \<comment> \<open>the bounded channel, oldest task first\<close>
  seat_states :: "seat_slot list"
  seat_indices :: "seat_id \<Rightarrow> nat option"
  last_access :: int
  in_flight :: nat
  closing :: bool

type_synonym 'a result = "string + 'a"

section \<open>Methods\<close>

definition new_actor :: "int \<Rightarrow> nat \<Rightarrow> show_actor" where
  "new_actor unix_now seat_count =
     \<lparr>sender = [], seat_states = replicate seat_count \<lparr>slot_seat = 0, slot_state = STATE_AVAILABLE\<rparr>,
      seat_indices = Map.empty, last_access = unix_now, in_flight = 0, closing = False\<rparr>"

definition begin_request :: "int \<Rightarrow> show_actor \<Rightarrow> show_actor result" where
  "begin_request unix_now a =
     (if closing a then Inl ''show actor is closing''
      else Inr (a\<lparr>in_flight := in_flight a + 1, last_access := unix_now\<rparr>))"

definition drop_lease :: "int \<Rightarrow> show_actor \<Rightarrow> show_actor" where
  "drop_lease unix_now a = a\<lparr>last_access := unix_now, in_flight := in_flight a - 1\<rparr>"

text \<open>\<open>now.saturating_sub(last)\<close> on \<open>u64\<close>.\<close>

definition try_begin_idle_eviction :: "int \<Rightarrow> show_actor \<Rightarrow> bool \<times> show_actor" where
  "try_begin_idle_eviction now a =
     (let idle_for = max 0 (now - last_access a)
      in if idle_for < ACTOR_IDLE_TTL \<or> closing a then (False, a)
         else if in_flight a = 0 then (True, a\<lparr>closing := True\<rparr>)
         else (False, a\<lparr>closing := False\<rparr>))"

definition validate_seat_count :: "nat \<Rightarrow> show_actor \<Rightarrow> unit result" where
  "validate_seat_count seat_count a =
     (if length (seat_states a) = seat_count then Inr ()
      else Inl ''total seat count does not match the initialized show'')"

text \<open>
  \<open>one_based_index.checked_sub(1)\<close>, \<open>usize::try_from\<close> and the range filter. \<open>checked_sub\<close> fails only
  on \<open>i32::MIN\<close>, whose predecessor is negative as well.
\<close>

definition checked_index :: "int \<Rightarrow> show_actor \<Rightarrow> nat option" where
  "checked_index one_based a =
     (if 0 \<le> one_based - 1 \<and> nat (one_based - 1) < length (seat_states a)
      then Some (nat (one_based - 1)) else None)"

definition register_seat :: "seat_id \<Rightarrow> int \<Rightarrow> show_actor \<Rightarrow> nat result \<times> show_actor" where
  "register_seat t one_based a =
     (if t \<le> 0 then (Inl ''seat ids must be positive'', a)
      else
        (case checked_index one_based a of
           None \<Rightarrow> (Inl ''seat index is outside the show seat count'', a)
         | Some index \<Rightarrow>
            (if seat_indices a t \<noteq> None \<and> seat_indices a t \<noteq> Some index
             then (Inl ''seat id maps to a different seat index'', a)
             else
               (let a1 = a\<lparr>seat_indices := (seat_indices a)(t \<mapsto> index)\<rparr>;
                    slot = seat_states a1 ! index
                in if slot_seat slot = 0
                   then (Inr index, a1\<lparr>seat_states := (seat_states a1)[index := slot\<lparr>slot_seat := t\<rparr>]\<rparr>)
                   else if slot_seat slot = t then (Inr index, a1)
                   else (Inl ''seat index maps to a different seat id'',
                         a1\<lparr>seat_indices := (seat_indices a1)(t := None)\<rparr>)))))"

definition try_admit :: "nat \<Rightarrow> show_actor \<Rightarrow> bool \<times> show_actor" where
  "try_admit index a =
     (let slot = seat_states a ! index
      in if slot_state slot = STATE_AVAILABLE
         then (True, a\<lparr>seat_states := (seat_states a)[index := slot\<lparr>slot_state := STATE_PROCESSING\<rparr>]\<rparr>)
         else (False, a))"

definition clear_seat :: "seat_id \<Rightarrow> show_actor \<Rightarrow> show_actor" where
  "clear_seat t a =
     (case seat_indices a t of
        None \<Rightarrow> a
      | Some index \<Rightarrow>
          a\<lparr>seat_states := (seat_states a)
              [index := (seat_states a ! index)\<lparr>slot_state := STATE_AVAILABLE\<rparr>]\<rparr>)"

section \<open>The seat map is a bijection\<close>

definition actor_ok :: "show_actor \<Rightarrow> bool" where
  "actor_ok a \<longleftrightarrow>
     (\<forall>t i. seat_indices a t = Some i \<longleftrightarrow>
        0 < t \<and> i < length (seat_states a) \<and> slot_seat (seat_states a ! i) = t) \<and>
     (\<forall>i < length (seat_states a). 0 \<le> slot_seat (seat_states a ! i)) \<and>
     (\<forall>i < length (seat_states a). slot_state (seat_states a ! i) \<in> {STATE_AVAILABLE, STATE_PROCESSING} \<and>
        (slot_seat (seat_states a ! i) = 0 \<longrightarrow> slot_state (seat_states a ! i) = STATE_AVAILABLE))"

text \<open>A seat is admitted when it is known and its slot is being processed.\<close>

definition admitted :: "seat_id \<Rightarrow> show_actor \<Rightarrow> bool" where
  "admitted t a \<longleftrightarrow>
     (case seat_indices a t of
        None \<Rightarrow> False
      | Some i \<Rightarrow> slot_state (seat_states a ! i) = STATE_PROCESSING)"

lemma actor_okD:
  assumes "actor_ok a" "seat_indices a t = Some i"
  shows "i < length (seat_states a)" "slot_seat (seat_states a ! i) = t" "0 < t"
  using assms by (auto simp: actor_ok_def)

lemma actor_ok_inj: "actor_ok a \<Longrightarrow> seat_indices a t = Some i \<Longrightarrow> seat_indices a t' = Some i \<Longrightarrow> t = t'"
  by (auto simp: actor_ok_def)

lemma new_actor_ok: "actor_ok (new_actor n c)"
  by (simp add: actor_ok_def new_actor_def)

lemma checked_index_less: "checked_index o1 a = Some i \<Longrightarrow> i < length (seat_states a)"
  by (simp add: checked_index_def split: if_splits)

text \<open>What a registration can do: nothing, or claim a free slot for a new seat.\<close>

lemma register_seat_cases:
  assumes "actor_ok a" "register_seat t o1 a = (r, a')"
  obtains (known) i where "r = Inr i" "a' = a" "seat_indices a t = Some i" "checked_index o1 a = Some i"
    | (claimed) i where "r = Inr i" "seat_indices a t = None" "checked_index o1 a = Some i" "0 < t"
        "slot_seat (seat_states a ! i) = 0"
        "a' = a\<lparr>seat_indices := (seat_indices a)(t \<mapsto> i),
               seat_states := (seat_states a)[i := (seat_states a ! i)\<lparr>slot_seat := t\<rparr>]\<rparr>"
    | (rejected) e where "r = Inl e" "a' = a"
proof -
  show thesis
  proof (cases "t \<le> 0 \<or> checked_index o1 a = None")
    case True
    with assms(2) have "(\<exists>e. r = Inl e) \<and> a' = a" by (auto simp: register_seat_def split: if_splits)
    then show ?thesis using rejected by blast
  next
    case False
    then obtain i where i: "checked_index o1 a = Some i" "0 < t" by auto
    show ?thesis
    proof (cases "seat_indices a t")
      case (Some j)
      show ?thesis
      proof (cases "j = i")
        case True
        with Some i actor_okD [OF assms(1) Some] assms(2) show ?thesis
          by (intro known [of i]) (auto simp: register_seat_def Let_def fun_upd_idem)
      next
        case False
        with Some i assms(2) have "(\<exists>e. r = Inl e) \<and> a' = a" by (auto simp: register_seat_def)
        then show ?thesis using rejected by blast
      qed
    next
      case None
      have ne: "slot_seat (seat_states a ! i) \<noteq> t"
        using assms(1) None i checked_index_less [OF i(1)] by (fastforce simp: actor_ok_def)
      show ?thesis
      proof (cases "slot_seat (seat_states a ! i) = 0")
        case True
        with None i assms(2) show ?thesis
          by (intro claimed [of i]) (auto simp: register_seat_def Let_def)
      next
        case False
        have "(seat_indices a)(t := None) = seat_indices a" using None by auto
        with False None i ne assms(2) show ?thesis
          by (intro rejected [of "''seat index maps to a different seat id''"])
            (auto simp: register_seat_def Let_def)
      qed
    qed
  qed
qed

lemma state_consts [simp]: "STATE_AVAILABLE \<noteq> STATE_PROCESSING" "STATE_PROCESSING \<noteq> STATE_AVAILABLE"
  by (simp_all add: STATE_AVAILABLE_def STATE_PROCESSING_def)

lemma register_seat_ok:
  assumes "actor_ok a" "register_seat t o1 a = (r, a')"
  shows "actor_ok a'"
  using assms
proof (cases rule: register_seat_cases)
  case (claimed i)
  have i: "i < length (seat_states a)" using checked_index_less [OF claimed(3)] .
  have free: "slot_seat (seat_states a ! j) \<noteq> t" if "j < length (seat_states a)" for j
    using assms(1) claimed(2,4) that by (fastforce simp: actor_ok_def)
  have "\<forall>t' j. seat_indices a' t' = Some j \<longleftrightarrow>
      0 < t' \<and> j < length (seat_states a') \<and> slot_seat (seat_states a' ! j) = t'"
  proof (intro allI)
    fix t' j
    show "seat_indices a' t' = Some j \<longleftrightarrow>
        0 < t' \<and> j < length (seat_states a') \<and> slot_seat (seat_states a' ! j) = t'"
      using assms(1) claimed i free [of j]
      by (cases "t' = t"; cases "j = i") (auto simp: actor_ok_def nth_list_update)
  qed
  with assms(1) claimed i show ?thesis by (auto simp: actor_ok_def nth_list_update)
qed (use assms in auto)

text \<open>A registration changes nothing but the map and a free slot, and never an admission.\<close>

lemma register_seat_frame:
  assumes "actor_ok a" "register_seat t o1 a = (r, a')"
  shows "admitted t' a' = admitted t' a"
    and "length (seat_states a') = length (seat_states a)" "sender a' = sender a"
    and "in_flight a' = in_flight a" "closing a' = closing a" "last_access a' = last_access a"
    and "r = Inr i \<Longrightarrow> seat_indices a' t = Some i"
    and "seat_indices a t' = Some j \<Longrightarrow> seat_indices a' t' = Some j"
proof -
  show "admitted t' a' = admitted t' a"
    using assms
  proof (cases rule: register_seat_cases)
    case (claimed i)
    have i: "i < length (seat_states a)" using checked_index_less [OF claimed(3)] .
    with assms(1) claimed(5) have "slot_state (seat_states a ! i) = STATE_AVAILABLE" by (simp add: actor_ok_def)
    with claimed i assms(1) show ?thesis
      by (auto simp: admitted_def nth_list_update split: option.split)
  qed simp_all
qed (use assms in \<open>auto elim!: register_seat_cases\<close>)

lemma try_admit_spec:
  assumes "actor_ok a" "seat_indices a t = Some i" "try_admit i a = (b, a')"
  shows "b \<longleftrightarrow> \<not> admitted t a" "admitted t' a' \<longleftrightarrow> t' = t \<or> admitted t' a" "actor_ok a'"
    "seat_indices a' = seat_indices a" "length (seat_states a') = length (seat_states a)"
    "sender a' = sender a" "in_flight a' = in_flight a" "closing a' = closing a"
proof -
  note i = actor_okD [OF assms(1,2)]
  have st: "slot_state (seat_states a ! i) \<in> {STATE_AVAILABLE, STATE_PROCESSING}"
    using assms(1) i(1) by (simp add: actor_ok_def)
  show "b \<longleftrightarrow> \<not> admitted t a"
    using st assms(2,3) by (auto simp: try_admit_def Let_def admitted_def split: if_splits)
  show "admitted t' a' \<longleftrightarrow> t' = t \<or> admitted t' a"
    using st assms(2,3) i actor_ok_inj [OF assms(1)]
    by (auto simp: try_admit_def Let_def admitted_def nth_list_update split: if_splits option.splits)
  show "actor_ok a'"
    using assms(1,3) i by (auto simp: actor_ok_def try_admit_def Let_def nth_list_update split: if_splits)
qed (use assms(3) in \<open>auto simp: try_admit_def Let_def split: if_splits\<close>)

lemma clear_seat_spec:
  assumes "actor_ok a"
  shows "admitted t' (clear_seat t a) \<longleftrightarrow> t' \<noteq> t \<and> admitted t' a" "actor_ok (clear_seat t a)"
    "seat_indices (clear_seat t a) = seat_indices a" "sender (clear_seat t a) = sender a"
    "in_flight (clear_seat t a) = in_flight a" "closing (clear_seat t a) = closing a"
    "length (seat_states (clear_seat t a)) = length (seat_states a)"
proof -
  show "admitted t' (clear_seat t a) \<longleftrightarrow> t' \<noteq> t \<and> admitted t' a"
    using actor_okD [OF assms] actor_ok_inj [OF assms]
    by (auto simp: clear_seat_def admitted_def nth_list_update split: option.splits)
  show "actor_ok (clear_seat t a)"
    using assms by (auto simp: actor_ok_def clear_seat_def nth_list_update split: option.splits)
qed (auto simp: clear_seat_def split: option.splits)

section \<open>Interleaved requests, evictions and closings\<close>

text \<open>
  Where a thread stands between two atomic accesses. A request: \<open>ReqStart\<close>, past the first load of
  \<open>closing\<close> (\<open>ReqOpen\<close>), counted in \<open>in_flight\<close> (\<open>ReqCounted\<close>), past the second load and storing
  \<open>last_access\<close> (\<open>ReqStamp\<close>), holding the lease (\<open>Leased\<close>), dropping it (\<open>Dropping\<close>), or backing out
  because the second load saw \<open>closing\<close> (\<open>Backing\<close>). An eviction: \<open>EvStart\<close>, idle long enough
  (\<open>EvIdle\<close>), \<open>closing\<close> won by the exchange (\<open>EvWon\<close>), requests found in flight (\<open>EvUndo\<close>). A closing
  of the schedule: \<open>CloseStart\<close>. \<open>Done b\<close> is the end, with the boolean the method returned.
\<close>

datatype thread =
    ReqStart | ReqOpen | ReqCounted | ReqStamp | Leased | Dropping | Backing
  | EvStart | EvIdle | EvWon | EvUndo
  | CloseStart
  | Done bool

record race =
  r_closing :: bool
  r_in_flight :: nat
  r_last_access :: int
  r_threads :: "thread list"
  r_evicted :: bool  \<comment> \<open>some \<open>try_begin_idle_eviction\<close> has returned true\<close>

definition at :: "race \<Rightarrow> nat \<Rightarrow> thread \<Rightarrow> bool" where
  "at c i x \<longleftrightarrow> i < length (r_threads c) \<and> r_threads c ! i = x"

definition move :: "nat \<Rightarrow> thread \<Rightarrow> race \<Rightarrow> race" where
  "move i x c = c\<lparr>r_threads := (r_threads c)[i := x]\<rparr>"

inductive race_step :: "race \<Rightarrow> race \<Rightarrow> bool" where
  req_refused: "at c i ReqStart \<Longrightarrow> r_closing c \<Longrightarrow> race_step c (move i (Done False) c)"
| req_open: "at c i ReqStart \<Longrightarrow> \<not> r_closing c \<Longrightarrow> race_step c (move i ReqOpen c)"
| req_count: "at c i ReqOpen \<Longrightarrow> race_step c (move i ReqCounted (c\<lparr>r_in_flight := r_in_flight c + 1\<rparr>))"
| req_late: "at c i ReqCounted \<Longrightarrow> r_closing c \<Longrightarrow> race_step c (move i Backing c)"
| req_back: "at c i Backing \<Longrightarrow> race_step c (move i (Done False) (c\<lparr>r_in_flight := r_in_flight c - 1\<rparr>))"
| req_pass: "at c i ReqCounted \<Longrightarrow> \<not> r_closing c \<Longrightarrow> race_step c (move i ReqStamp c)"
| req_stamp: "at c i ReqStamp \<Longrightarrow> race_step c (move i Leased (c\<lparr>r_last_access := n\<rparr>))"
| drop_stamp: "at c i Leased \<Longrightarrow> race_step c (move i Dropping (c\<lparr>r_last_access := n\<rparr>))"
| drop_count: "at c i Dropping \<Longrightarrow> race_step c (move i (Done True) (c\<lparr>r_in_flight := r_in_flight c - 1\<rparr>))"
| ev_young: "at c i EvStart \<Longrightarrow> max 0 (now - r_last_access c) < ACTOR_IDLE_TTL \<Longrightarrow>
    race_step c (move i (Done False) c)"
| ev_idle: "at c i EvStart \<Longrightarrow> \<not> max 0 (now - r_last_access c) < ACTOR_IDLE_TTL \<Longrightarrow>
    race_step c (move i EvIdle c)"
| ev_lost: "at c i EvIdle \<Longrightarrow> r_closing c \<Longrightarrow> race_step c (move i (Done False) c)"
| ev_won: "at c i EvIdle \<Longrightarrow> \<not> r_closing c \<Longrightarrow> race_step c (move i EvWon (c\<lparr>r_closing := True\<rparr>))"
| ev_empty: "at c i EvWon \<Longrightarrow> r_in_flight c = 0 \<Longrightarrow>
    race_step c (move i (Done True) (c\<lparr>r_evicted := True\<rparr>))"
| ev_busy: "at c i EvWon \<Longrightarrow> r_in_flight c \<noteq> 0 \<Longrightarrow> race_step c (move i EvUndo c)"
| ev_undo: "at c i EvUndo \<Longrightarrow> race_step c (move i (Done False) (c\<lparr>r_closing := False\<rparr>))"
| close: "at c i CloseStart \<Longrightarrow> race_step c (move i (Done True) (c\<lparr>r_closing := True\<rparr>))"

inductive race_reach :: "race \<Rightarrow> race \<Rightarrow> bool" where
  reach_refl: "race_reach c c"
| reach_step: "race_reach c c1 \<Longrightarrow> race_step c1 c2 \<Longrightarrow> race_reach c c2"

definition race_start :: "thread list \<Rightarrow> int \<Rightarrow> race" where
  "race_start ts n =
     \<lparr>r_closing = False, r_in_flight = 0, r_last_access = n, r_threads = ts, r_evicted = False\<rparr>"

definition startable :: "thread \<Rightarrow> bool" where
  "startable x \<longleftrightarrow> x \<in> {ReqStart, EvStart, CloseStart}"

definition counted :: "thread \<Rightarrow> bool" where
  "counted x \<longleftrightarrow> x \<in> {ReqCounted, ReqStamp, Leased, Dropping, Backing}"

definition holding :: "thread \<Rightarrow> bool" where
  "holding x \<longleftrightarrow> x \<in> {ReqStamp, Leased, Dropping}"

definition evicting :: "thread \<Rightarrow> bool" where
  "evicting x \<longleftrightarrow> x \<in> {EvWon, EvUndo}"

definition race_ok :: "race \<Rightarrow> bool" where
  "race_ok c \<longleftrightarrow>
     r_in_flight c = count_if counted (r_threads c) \<and>
     count_if evicting (r_threads c) \<le> 1 \<and>
     (0 < count_if evicting (r_threads c) \<longrightarrow> r_closing c) \<and>
     (r_evicted c \<longrightarrow> r_closing c \<and> count_if evicting (r_threads c) = 0 \<and> count_if holding (r_threads c) = 0)"

lemma at_pos: "at c i x \<Longrightarrow> P x \<Longrightarrow> 0 < count_if P (r_threads c)"
  using count_if_pos [of i "r_threads c" P] by (simp add: at_def)

lemma count_move:
  "at c i x \<Longrightarrow> count_if P ((r_threads c)[i := y]) = count_if P (r_threads c) + of_bool (P y) - of_bool (P x)"
  by (auto simp: at_def count_if_update)

lemma holding_le_counted: "count_if counted ts = 0 \<Longrightarrow> count_if holding ts = 0"
  by (auto simp: count_if_0 counted_def holding_def)

lemmas thread_kinds = counted_def holding_def evicting_def

text \<open>
  Only the winner of the exchange resets \<open>closing\<close>, so while one eviction is between its exchange
  and its last access, every other thread sees \<open>closing\<close> set.
\<close>

lemma race_step_ok:
  assumes "race_step c c'" "race_ok c"
  shows "race_ok c'"
proof -
  have pos: "at c i x \<Longrightarrow> (counted x \<longrightarrow> 0 < count_if counted (r_threads c)) \<and>
      (evicting x \<longrightarrow> 0 < count_if evicting (r_threads c)) \<and>
      (holding x \<longrightarrow> 0 < count_if holding (r_threads c))" for i x
    using at_pos by blast
  have hold: "r_in_flight c = 0 \<Longrightarrow> count_if holding (r_threads c) = 0"
    using assms(2) holding_le_counted by (simp add: race_ok_def)
  from assms(1) show ?thesis
  proof (cases rule: race_step.cases)
  qed (use assms(2) hold in \<open>auto simp: race_ok_def move_def count_move thread_kinds dest: pos\<close>)
qed

lemma race_reach_ok: "race_reach c c' \<Longrightarrow> race_ok c \<Longrightarrow> race_ok c'"
  by (induction rule: race_reach.induct) (auto intro: race_step_ok)

lemma race_start_ok: "list_all startable ts \<Longrightarrow> race_ok (race_start ts n)"
proof -
  assume "list_all startable ts"
  then have "count_if counted ts = 0" "count_if evicting ts = 0"
    by (auto simp: count_if_0 list_all_iff startable_def thread_kinds)
  then show ?thesis by (simp add: race_ok_def race_start_def)
qed

text \<open>
  A thread that is not interrupted does what the method does as one function: the two models of
  the eviction agree.
\<close>

lemma race_reach_one: "race_step c c' \<Longrightarrow> race_reach c c'"
  by (rule reach_step [OF reach_refl])

lemma race_reach_trans: "race_reach b c \<Longrightarrow> race_reach a b \<Longrightarrow> race_reach a c"
  by (induction rule: race_reach.induct) (auto intro: reach_step)

definition shows_actor :: "race \<Rightarrow> show_actor \<Rightarrow> bool" where
  "shows_actor c a \<longleftrightarrow> r_closing c = closing a \<and> r_in_flight c = in_flight a \<and> r_last_access c = last_access a"

lemma at_move [simp]: "i < length (r_threads c) \<Longrightarrow> at (move i x c) i y \<longleftrightarrow> x = y"
  by (auto simp: at_def move_def)

lemma at_less: "at c i x \<Longrightarrow> i < length (r_threads c)"
  by (simp add: at_def)

lemma eviction_alone:
  assumes "at c i EvStart" "shows_actor c a"
  shows "\<exists>c'. race_reach c c' \<and> at c' i (Done (fst (try_begin_idle_eviction now a))) \<and>
    shows_actor c' (snd (try_begin_idle_eviction now a))"
proof -
  note i = at_less [OF assms(1)]
  have idle: "race_reach c (move i EvIdle c)" if "\<not> max 0 (now - last_access a) < ACTOR_IDLE_TTL"
    using ev_idle [OF assms(1), of now] that assms(2) by (intro race_reach_one) (simp add: shows_actor_def)
  consider (young) "max 0 (now - last_access a) < ACTOR_IDLE_TTL"
    | (lost) "\<not> max 0 (now - last_access a) < ACTOR_IDLE_TTL" "closing a"
    | (won) "\<not> max 0 (now - last_access a) < ACTOR_IDLE_TTL" "\<not> closing a" by blast
  then show ?thesis
  proof cases
    case young
    with ev_young [OF assms(1), of now] assms(2) i show ?thesis
      by (intro exI [of _ "move i (Done False) c"])
        (auto simp: try_begin_idle_eviction_def Let_def shows_actor_def move_def at_def intro: race_reach_one)
  next
    case lost
    have "race_reach c (move i (Done False) (move i EvIdle c))"
      by (rule reach_step [OF idle ev_lost]) (use lost assms(2) i in \<open>simp_all add: shows_actor_def move_def at_def\<close>)
    with lost assms(2) i show ?thesis
      by (intro exI [of _ "move i (Done False) (move i EvIdle c)"])
        (auto simp: try_begin_idle_eviction_def Let_def shows_actor_def move_def at_def)
  next
    case won
    let ?c = "move i EvWon (move i EvIdle c\<lparr>r_closing := True\<rparr>)"
    have r: "race_reach c ?c"
      by (rule reach_step [OF idle ev_won]) (use won assms(2) i in \<open>simp_all add: shows_actor_def move_def at_def\<close>)
    show ?thesis
    proof (cases "in_flight a = 0")
      case True
      have "race_reach c (move i (Done True) (?c\<lparr>r_evicted := True\<rparr>))"
        by (rule reach_step [OF r ev_empty]) (use True assms(2) i in \<open>simp_all add: shows_actor_def move_def at_def\<close>)
      with True won assms(2) i show ?thesis
        by (intro exI [of _ "move i (Done True) (?c\<lparr>r_evicted := True\<rparr>)"])
          (auto simp: try_begin_idle_eviction_def Let_def shows_actor_def move_def at_def)
    next
      case False
      have "race_reach c (move i EvUndo ?c)"
        by (rule reach_step [OF r ev_busy]) (use False assms(2) i in \<open>simp_all add: shows_actor_def move_def at_def\<close>)
      then have "race_reach c (move i (Done False) ((move i EvUndo ?c)\<lparr>r_closing := False\<rparr>))"
        by (rule reach_step [OF _ ev_undo]) (use i in \<open>simp add: move_def at_def\<close>)
      with False won assms(2) i show ?thesis
        by (intro exI [of _ "move i (Done False) ((move i EvUndo ?c)\<lparr>r_closing := False\<rparr>)"])
          (auto simp: try_begin_idle_eviction_def Let_def shows_actor_def move_def at_def)
    qed
  qed
qed

section \<open>Runs of requests and clears\<close>

datatype actor_op =
    Request seat_id int  \<comment> \<open>\<open>register_seat\<close>, then \<open>try_admit\<close> on the index it returned\<close>
  | Clear seat_id

fun do_op :: "actor_op \<Rightarrow> show_actor \<Rightarrow> bool \<times> show_actor" where
  "do_op (Request t o1) a =
     (case register_seat t o1 a of (Inl e, a1) \<Rightarrow> (False, a1) | (Inr i, a1) \<Rightarrow> try_admit i a1)"
| "do_op (Clear t) a = (False, clear_seat t a)"

fun actor_run :: "actor_op list \<Rightarrow> show_actor \<Rightarrow> bool list \<times> show_actor" where
  "actor_run [] a = ([], a)"
| "actor_run (x # xs) a =
     (let (b, a1) = do_op x a; (bs, a2) = actor_run xs a1 in (b # bs, a2))"

lemma do_op_spec:
  assumes "actor_ok a" "do_op x a = (b, a')"
  shows "actor_ok a'"
    and "b \<Longrightarrow> \<exists>t o1. x = Request t o1 \<and> \<not> admitted t a \<and> admitted t a'"
    and "admitted t a \<Longrightarrow> x \<noteq> Clear t \<Longrightarrow> admitted t a'"
proof -
  have "actor_ok a' \<and> (b \<longrightarrow> (\<exists>t o1. x = Request t o1 \<and> \<not> admitted t a \<and> admitted t a')) \<and>
      (admitted t a \<longrightarrow> x \<noteq> Clear t \<longrightarrow> admitted t a')" for t
  proof (cases x)
    case (Request t' o1)
    obtain r a1 where r: "register_seat t' o1 a = (r, a1)" by (cases "register_seat t' o1 a")
    note ok = register_seat_ok [OF assms(1) r] and fr = register_seat_frame [OF assms(1) r]
    show ?thesis
    proof (cases r)
      case (Inr i)
      with Request r assms(2) have "try_admit i a1 = (b, a')" by simp
      from try_admit_spec [OF ok fr(7) [OF Inr] this] fr(1) Request show ?thesis by auto
    qed (use Request r assms(2) ok fr(1) in auto)
  next
    case (Clear t')
    with assms clear_seat_spec(1,2) [OF assms(1)] show ?thesis by auto
  qed
  then show "actor_ok a'" "b \<Longrightarrow> \<exists>t o1. x = Request t o1 \<and> \<not> admitted t a \<and> admitted t a'"
    "admitted t a \<Longrightarrow> x \<noteq> Clear t \<Longrightarrow> admitted t a'" by blast+
qed

text \<open>While a seat is admitted, its next admission comes after a clear of it.\<close>

lemma actor_run_admitted:
  assumes "actor_ok a" "admitted t a" "actor_run xs a = (bs, a')" "j < length xs" "xs ! j = Request t o1" "bs ! j"
  shows "\<exists>k < j. xs ! k = Clear t"
  using assms
proof (induction xs arbitrary: a bs a' j)
  case (Cons x xs)
  obtain b a1 where x: "do_op x a = (b, a1)" by (cases "do_op x a")
  obtain bs1 a2 where xs: "actor_run xs a1 = (bs1, a2)" by (cases "actor_run xs a1")
  note sp = do_op_spec [OF Cons.prems(1) x]
  show ?case
  proof (cases j)
    case 0
    with Cons.prems x xs sp(2) show ?thesis by auto
  next
    case (Suc j')
    show ?thesis
    proof (cases "x = Clear t")
      case True
      with Suc show ?thesis by force
    next
      case False
      have "\<exists>k < j'. xs ! k = Clear t"
        by (rule Cons.IH [OF sp(1) sp(3) xs]) (use False Cons.prems Suc x xs in auto)
      with Suc show ?thesis by force
    qed
  qed
qed simp

lemma actor_run_exclusive:
  assumes "actor_ok a" "actor_run xs a = (bs, a')" "i < j" "j < length xs"
    and "xs ! i = Request t o1" "bs ! i" "xs ! j = Request t o2" "bs ! j"
  shows "\<exists>k. i < k \<and> k < j \<and> xs ! k = Clear t"
  using assms
proof (induction xs arbitrary: a bs a' i j)
  case (Cons x xs)
  obtain b a1 where x: "do_op x a = (b, a1)" by (cases "do_op x a")
  obtain bs1 a2 where xs: "actor_run xs a1 = (bs1, a2)" by (cases "actor_run xs a1")
  note sp = do_op_spec [OF Cons.prems(1) x]
  obtain j' where j: "j = Suc j'" using Cons.prems by (cases j) auto
  show ?case
  proof (cases i)
    case 0
    have "admitted t a1" using sp(2) 0 Cons.prems x xs by auto
    from actor_run_admitted [OF sp(1) this xs, of j' o2] Cons.prems j x xs
    obtain k where "k < j'" "xs ! k = Clear t" by auto
    with 0 j show ?thesis by (intro exI [of _ "Suc k"]) auto
  next
    case (Suc i')
    have "\<exists>k. i' < k \<and> k < j' \<and> xs ! k = Clear t"
      by (rule Cons.IH [OF sp(1) xs]) (use Suc j Cons.prems x xs in auto)
    then obtain k where "i' < k" "k < j'" "xs ! k = Clear t" by blast
    with Suc j show ?thesis by (intro exI [of _ "Suc k"]) auto
  qed
qed simp

section \<open>Properties\<close>

text \<open>
  (local admission is exclusive). However requests and clears are ordered, two successful admissions
  of the same seat on one actor, under whatever indices they name, have a clear of that seat between
  them.
\<close>

theorem admission_needs_clear:
  assumes "actor_run xs (new_actor n c) = (bs, a')" "i < j" "j < length xs"
    and "xs ! i = Request t o1" "bs ! i" "xs ! j = Request t o2" "bs ! j"
  shows "\<exists>k. i < k \<and> k < j \<and> xs ! k = Clear t"
  by (rule actor_run_exclusive [OF new_actor_ok assms])

lemmas actor_eval =
  register_seat_def checked_index_def try_admit_def clear_seat_def new_actor_def STATE_AVAILABLE_def
  STATE_PROCESSING_def Let_def

theorem admission_needs_clear_witness:
  "fst (actor_run [Request 7 1, Request 7 1, Clear 7, Request 7 1] (new_actor 0 2)) =
     [True, False, False, True] \<and>
   (\<exists>k. 0 < k \<and> k < 3 \<and> [Request 7 1, Request 7 1, Clear 7, Request 7 1] ! k = Clear 7)"
proof -
  let ?xs = "[Request 7 1, Request 7 1, Clear 7, Request 7 1]"
  have f: "fst (actor_run ?xs (new_actor 0 2)) = [True, False, False, True]"
    by (simp add: actor_eval numeral_2_eq_2)
  then obtain a where r: "actor_run ?xs (new_actor 0 2) = ([True, False, False, True], a)"
    by (cases "actor_run ?xs (new_actor 0 2)") auto
  from admission_needs_clear [OF r, of 0 3 7 1 1] f show ?thesis by simp
qed

text \<open>
  C30 (no request runs on an evicted actor). Any number of threads begin and finish requests, try to evict
  the actor as idle, and close the schedule, their atomic accesses interleaved in any way. Once an
  eviction has returned true, \<open>closing\<close> stays set and no thread holds a lease; at every moment the
  counter \<open>in_flight\<close> is the number of threads counted in it.
\<close>

theorem evicted_actor_has_no_request:
  assumes "list_all startable ts" "race_reach (race_start ts n) c"
  shows "r_in_flight c = count_if counted (r_threads c) \<and>
    (r_evicted c \<longrightarrow> r_closing c \<and> (\<forall>x \<in> set (r_threads c). \<not> holding x))"
  using race_reach_ok [OF assms(2) race_start_ok [OF assms(1)]] by (auto simp: race_ok_def count_if_0)

theorem evicted_actor_has_no_request_witness:
  "\<exists>c. race_reach (race_start [EvStart, ReqStart] 0) c \<and> r_evicted c \<and> r_closing c \<and>
     (\<forall>x \<in> set (r_threads c). \<not> holding x)"
proof -
  let ?c = "race_start [EvStart, ReqStart] 0"
  have "race_step ?c (move 0 EvIdle ?c)"
    by (rule ev_idle [where now = 7200]) (simp_all add: race_start_def at_def ACTOR_IDLE_TTL_def)
  from race_reach_one [OF this]
  have "race_reach ?c (move 0 EvWon ((move 0 EvIdle ?c)\<lparr>r_closing := True\<rparr>))"
    by (rule reach_step [OF _ ev_won]) (simp_all add: race_start_def at_def move_def)
  then have r: "race_reach ?c (move 0 (Done True) ((move 0 EvWon ((move 0 EvIdle ?c)\<lparr>r_closing := True\<rparr>))
      \<lparr>r_evicted := True\<rparr>))" (is "race_reach _ ?d")
    by (rule reach_step [OF _ ev_empty]) (simp_all add: race_start_def at_def move_def)
  have "r_evicted ?d" by (simp add: move_def)
  with r evicted_actor_has_no_request [OF _ r] show ?thesis by (auto simp: startable_def)
qed

end
