(* ===== verification/Redis_Keys.thy ===== *)
theory Redis_Keys
  imports Redis_Service
begin

text \<open>
  The key registry of \<open>packages/redis-conn/src/keys.rs\<close> and the keys the services build in place.
  All services share one keyspace, so the correctness of every lock, queue and cache rests on two
  facts proved here: each family of keys is injective in its arguments, and no two families ever
  produce the same key. They are collected in \<open>key_simps\<close> and carry the component proofs.
\<close>

section \<open>Cache keys\<close>

definition cache_show_key :: "string \<Rightarrow> string" where
  "cache_show_key mongo_show_id = ''cache:show:'' @ mongo_show_id"

definition cache_schedule_key :: "schedule_id \<Rightarrow> string" where
  "cache_schedule_key s = ''cache:schedule:'' @ dec s"

definition cache_schedule_total_seats_key :: "schedule_id \<Rightarrow> string" where
  "cache_schedule_total_seats_key s = ''cache:schedule:'' @ dec s @ '':seats:total''"

definition cache_schedule_available_seats_key :: "schedule_id \<Rightarrow> string" where
  "cache_schedule_available_seats_key s = ''cache:schedule:'' @ dec s @ '':seats:available''"

text \<open>\<open>str::trim\<close> and \<open>eq_ignore_ascii_case\<close>, on the ASCII white space.\<close>

definition is_space :: "char \<Rightarrow> bool" where
  "is_space c \<longleftrightarrow> c = CHR '' '' \<or> 9 \<le> (of_char c :: nat) \<and> (of_char c :: nat) \<le> 13"

definition trim :: "string \<Rightarrow> string" where
  "trim s = rev (dropWhile is_space (rev (dropWhile is_space s)))"

definition lower :: "char \<Rightarrow> char" where
  "lower c = (if 65 \<le> (of_char c :: nat) \<and> (of_char c :: nat) \<le> 90 then char_of (of_char c + 32 :: nat) else c)"

definition eq_ignore_ascii_case :: "string \<Rightarrow> string \<Rightarrow> bool" where
  "eq_ignore_ascii_case a b \<longleftrightarrow> map lower a = map lower b"

definition city_filter :: "string option \<Rightarrow> string option" where
  "city_filter city =
     (case map_option trim city of
        Some c \<Rightarrow> if c \<noteq> [] \<and> \<not> eq_ignore_ascii_case c ''All'' then Some c else None
      | None \<Rightarrow> None)"

definition cache_show_schedules_key :: "string \<Rightarrow> string option \<Rightarrow> string" where
  "cache_show_schedules_key mongo_show_id city =
     ''cache:show:'' @ mongo_show_id @ '':schedules:city:'' @
       (case city_filter city of Some c \<Rightarrow> c | None \<Rightarrow> ''all'')"

definition CACHE_SHOWS :: string where
  "CACHE_SHOWS = ''cache:shows:all:v2''"

definition CACHE_DASHBOARD_GRID :: string where
  "CACHE_DASHBOARD_GRID = ''cache:dashboard:grid:v2''"

definition cache_schedules_active_key :: string where
  "cache_schedules_active_key = ''cache:schedules:active''"

definition MOVIES_ALL :: string where
  "MOVIES_ALL = ''cache:movies:all:v2''"

definition cache_movies_key :: "string option \<Rightarrow> string option \<Rightarrow> string" where
  "cache_movies_key show_type city =
     MOVIES_ALL @
     (case show_type of
        Some t \<Rightarrow> if eq_ignore_ascii_case t ''All'' then [] else '':'' @ t
      | None \<Rightarrow> []) @
     (case city_filter city of Some c \<Rightarrow> '':city:'' @ c | None \<Rightarrow> [])"

section \<open>Seat, room and lifecycle keys\<close>

definition schedule_seat_bitmap :: "schedule_id \<Rightarrow> string" where
  "schedule_seat_bitmap s = ''{'' @ dec s @ ''}:seats_bitmap''"

definition seat_lock_key :: "schedule_id \<Rightarrow> seat_id \<Rightarrow> string" where
  "seat_lock_key s t = dec s @ '':'' @ dec t"

definition seat_user_context_key :: "schedule_id \<Rightarrow> seat_id \<Rightarrow> user_id \<Rightarrow> string" where
  "seat_user_context_key s t u = ''seat_ctx:{'' @ dec s @ ''}:'' @ dec t @ '':'' @ dec u"

definition seat_processing_queue_key :: string where
  "seat_processing_queue_key = ''cache:seat_processing:queue''"

definition room_channel :: "schedule_id \<Rightarrow> string" where
  "room_channel s = ''room:'' @ dec s"

definition global_events_channel :: string where
  "global_events_channel = ''ws:global:events''"

definition schedule_lifecycle_channel :: string where
  "schedule_lifecycle_channel = ''schedule:lifecycle''"

definition schedule_closed_key :: "schedule_id \<Rightarrow> string" where
  "schedule_closed_key s = ''schedule:closed:'' @ dec s"

text \<open>Keys the services format where they use them.\<close>

definition user_zset_key :: "schedule_id \<Rightarrow> user_id \<Rightarrow> string" where
  "user_zset_key s u = ''{'' @ dec s @ ''}:user:'' @ dec u"

definition room_zset_key :: "schedule_id \<Rightarrow> string" where
  "room_zset_key s = ''{'' @ dec s @ ''}:locks''"

definition seat_checkout_key :: "schedule_id \<Rightarrow> seat_id \<Rightarrow> string" where
  "seat_checkout_key s t = ''seat_checkout:'' @ dec s @ '':'' @ dec t"

definition seat_user_member :: "seat_id \<Rightarrow> user_id \<Rightarrow> string" where
  "seat_user_member t u = dec t @ '':'' @ dec u"

lemmas key_defs =
  schedule_seat_bitmap_def seat_lock_key_def seat_user_context_key_def
  seat_processing_queue_key_def schedule_closed_key_def user_zset_key_def room_zset_key_def
  seat_checkout_key_def cache_schedule_available_seats_key_def

section \<open>Injectivity\<close>

lemma seat_lock_key_inject [key_simps]:
  "seat_lock_key s t = seat_lock_key s' t' \<longleftrightarrow> s = s' \<and> t = t'"
  by (simp add: seat_lock_key_def)

lemma seat_user_context_key_inject [key_simps]:
  "seat_user_context_key s t u = seat_user_context_key s' t' u' \<longleftrightarrow> s = s' \<and> t = t' \<and> u = u'"
  by (simp add: seat_user_context_key_def)

lemma schedule_seat_bitmap_inject [key_simps]:
  "schedule_seat_bitmap s = schedule_seat_bitmap s' \<longleftrightarrow> s = s'"
  by (simp add: schedule_seat_bitmap_def)

lemma user_zset_key_inject [key_simps]:
  "user_zset_key s u = user_zset_key s' u' \<longleftrightarrow> s = s' \<and> u = u'"
  by (simp add: user_zset_key_def)

lemma room_zset_key_inject [key_simps]: "room_zset_key s = room_zset_key s' \<longleftrightarrow> s = s'"
  by (simp add: room_zset_key_def)

lemma seat_checkout_key_inject [key_simps]:
  "seat_checkout_key s t = seat_checkout_key s' t' \<longleftrightarrow> s = s' \<and> t = t'"
  by (simp add: seat_checkout_key_def)

lemma schedule_closed_key_inject [key_simps]:
  "schedule_closed_key s = schedule_closed_key s' \<longleftrightarrow> s = s'"
  by (simp add: schedule_closed_key_def)

lemma seat_user_member_inject [key_simps]:
  "seat_user_member t u = seat_user_member t' u' \<longleftrightarrow> t = t' \<and> u = u'"
  by (simp add: seat_user_member_def)

lemma room_channel_inject [key_simps]: "room_channel s = room_channel s' \<longleftrightarrow> s = s'"
  by (simp add: room_channel_def)

section \<open>Families of keys are disjoint\<close>

lemma seat_lock_key_neq_letter:
  "sep_char c \<Longrightarrow> seat_lock_key s t \<noteq> c # cs" "sep_char c \<Longrightarrow> c # cs \<noteq> seat_lock_key s t"
  by (simp_all add: seat_lock_key_def dec_append_Cons_neq)

lemma sep_char_letters: "sep_char CHR ''{''" "sep_char CHR ''s''" "sep_char CHR ''c''"
  by (simp_all add: sep_char_def is_digit_def)

lemma seat_lock_key_distinct [key_simps]:
  "seat_lock_key s t \<noteq> seat_user_context_key s' t' u" "seat_user_context_key s' t' u \<noteq> seat_lock_key s t"
  "seat_lock_key s t \<noteq> schedule_seat_bitmap s'" "schedule_seat_bitmap s' \<noteq> seat_lock_key s t"
  "seat_lock_key s t \<noteq> user_zset_key s' u" "user_zset_key s' u \<noteq> seat_lock_key s t"
  "seat_lock_key s t \<noteq> room_zset_key s'" "room_zset_key s' \<noteq> seat_lock_key s t"
  "seat_lock_key s t \<noteq> seat_checkout_key s' t'" "seat_checkout_key s' t' \<noteq> seat_lock_key s t"
  "seat_lock_key s t \<noteq> schedule_closed_key s'" "schedule_closed_key s' \<noteq> seat_lock_key s t"
  "seat_lock_key s t \<noteq> seat_processing_queue_key" "seat_processing_queue_key \<noteq> seat_lock_key s t"
  "seat_lock_key s t \<noteq> cache_schedule_available_seats_key s'"
  "cache_schedule_available_seats_key s' \<noteq> seat_lock_key s t"
  by (simp_all add: seat_user_context_key_def schedule_seat_bitmap_def user_zset_key_def
      room_zset_key_def seat_checkout_key_def schedule_closed_key_def seat_processing_queue_key_def
      cache_schedule_available_seats_key_def seat_lock_key_neq_letter sep_char_letters)

lemma seat_user_context_key_distinct [key_simps]:
  "seat_user_context_key s t u \<noteq> schedule_seat_bitmap s'"
  "schedule_seat_bitmap s' \<noteq> seat_user_context_key s t u"
  "seat_user_context_key s t u \<noteq> user_zset_key s' u'" "user_zset_key s' u' \<noteq> seat_user_context_key s t u"
  "seat_user_context_key s t u \<noteq> room_zset_key s'" "room_zset_key s' \<noteq> seat_user_context_key s t u"
  "seat_user_context_key s t u \<noteq> seat_checkout_key s' t'"
  "seat_checkout_key s' t' \<noteq> seat_user_context_key s t u"
  "seat_user_context_key s t u \<noteq> schedule_closed_key s'"
  "schedule_closed_key s' \<noteq> seat_user_context_key s t u"
  "seat_user_context_key s t u \<noteq> seat_processing_queue_key"
  "seat_processing_queue_key \<noteq> seat_user_context_key s t u"
  "seat_user_context_key s t u \<noteq> cache_schedule_available_seats_key s'"
  "cache_schedule_available_seats_key s' \<noteq> seat_user_context_key s t u"
  by (simp_all add: key_defs)

lemma schedule_seat_bitmap_distinct [key_simps]:
  "schedule_seat_bitmap s \<noteq> user_zset_key s' u" "user_zset_key s' u \<noteq> schedule_seat_bitmap s"
  "schedule_seat_bitmap s \<noteq> room_zset_key s'" "room_zset_key s' \<noteq> schedule_seat_bitmap s"
  "schedule_seat_bitmap s \<noteq> seat_checkout_key s' t" "seat_checkout_key s' t \<noteq> schedule_seat_bitmap s"
  "schedule_seat_bitmap s \<noteq> schedule_closed_key s'" "schedule_closed_key s' \<noteq> schedule_seat_bitmap s"
  "schedule_seat_bitmap s \<noteq> seat_processing_queue_key"
  "seat_processing_queue_key \<noteq> schedule_seat_bitmap s"
  "schedule_seat_bitmap s \<noteq> cache_schedule_available_seats_key s'"
  "cache_schedule_available_seats_key s' \<noteq> schedule_seat_bitmap s"
  by (simp_all add: key_defs)

lemma user_zset_key_distinct [key_simps]:
  "user_zset_key s u \<noteq> room_zset_key s'" "room_zset_key s' \<noteq> user_zset_key s u"
  "user_zset_key s u \<noteq> seat_checkout_key s' t" "seat_checkout_key s' t \<noteq> user_zset_key s u"
  "user_zset_key s u \<noteq> schedule_closed_key s'" "schedule_closed_key s' \<noteq> user_zset_key s u"
  "user_zset_key s u \<noteq> seat_processing_queue_key" "seat_processing_queue_key \<noteq> user_zset_key s u"
  "user_zset_key s u \<noteq> cache_schedule_available_seats_key s'"
  "cache_schedule_available_seats_key s' \<noteq> user_zset_key s u"
  by (simp_all add: key_defs)

lemma room_zset_key_distinct [key_simps]:
  "room_zset_key s \<noteq> seat_checkout_key s' t" "seat_checkout_key s' t \<noteq> room_zset_key s"
  "room_zset_key s \<noteq> schedule_closed_key s'" "schedule_closed_key s' \<noteq> room_zset_key s"
  "room_zset_key s \<noteq> seat_processing_queue_key" "seat_processing_queue_key \<noteq> room_zset_key s"
  "room_zset_key s \<noteq> cache_schedule_available_seats_key s'"
  "cache_schedule_available_seats_key s' \<noteq> room_zset_key s"
  by (simp_all add: key_defs)

lemma seat_checkout_key_distinct [key_simps]:
  "seat_checkout_key s t \<noteq> schedule_closed_key s'" "schedule_closed_key s' \<noteq> seat_checkout_key s t"
  "seat_checkout_key s t \<noteq> seat_processing_queue_key" "seat_processing_queue_key \<noteq> seat_checkout_key s t"
  "seat_checkout_key s t \<noteq> cache_schedule_available_seats_key s'"
  "cache_schedule_available_seats_key s' \<noteq> seat_checkout_key s t"
  by (simp_all add: key_defs)

lemma schedule_closed_key_distinct [key_simps]:
  "schedule_closed_key s \<noteq> seat_processing_queue_key" "seat_processing_queue_key \<noteq> schedule_closed_key s"
  "schedule_closed_key s \<noteq> cache_schedule_available_seats_key s'"
  "cache_schedule_available_seats_key s' \<noteq> schedule_closed_key s"
  "seat_processing_queue_key \<noteq> cache_schedule_available_seats_key s'"
  "cache_schedule_available_seats_key s' \<noteq> seat_processing_queue_key"
  by (simp_all add: key_defs)

end
