(* ===== verification/Wire_Format.thy ===== *)
theory Wire_Format
  imports Bookit_Prelude
begin

text \<open>
  What the services exchange: JSON values with the accessors the handlers use, the pub/sub events
  of \<open>packages/redis-conn/src/adapter.rs\<close> with the tagged encoding their \<open>serde\<close> attributes ask
  for, and the entries of the delayed seat-processing queue. The text form of a JSON value is left
  to \<open>serde_json\<close>: payloads are values here, and the members of the queue, which Redis compares as
  text, go through a codec that is a parameter of the definitions using it.
\<close>

section \<open>JSON values\<close>

datatype json =
    JNull
  | JBool bool
  | JInt int
  | JStr string
  | JArr "json list"
  | JObj "(string \<times> json) list"

text \<open>\<open>value["field"]\<close>: \<open>Null\<close> when the value is no object or has no such field.\<close>

fun jget :: "json \<Rightarrow> string \<Rightarrow> json" where
  "jget (JObj fs) k = (case map_of fs k of Some v \<Rightarrow> v | None \<Rightarrow> JNull)"
| "jget _ k = JNull"

fun as_str :: "json \<Rightarrow> string option" where
  "as_str (JStr s) = Some s"
| "as_str _ = None"

definition in_i64 :: "int \<Rightarrow> bool" where
  "in_i64 n \<longleftrightarrow> - (2 ^ 63) \<le> n \<and> n < 2 ^ 63"

fun as_i64 :: "json \<Rightarrow> int option" where
  "as_i64 (JInt n) = (if in_i64 n then Some n else None)"
| "as_i64 _ = None"

fun as_array :: "json \<Rightarrow> json list option" where
  "as_array (JArr xs) = Some xs"
| "as_array _ = None"

fun is_object :: "json \<Rightarrow> bool" where
  "is_object (JObj _) = True"
| "is_object _ = False"

lemma in_i32_in_i64: "in_i32 n \<Longrightarrow> in_i64 n"
  by (simp add: in_i32_def in_i64_def)

lemma as_i64_JInt_i32 [simp]: "in_i32 n \<Longrightarrow> as_i64 (JInt n) = Some n"
  by (simp add: in_i32_in_i64)

section \<open>Pub/sub events\<close>

datatype PubSubEvent =
    Register user_id string
  | Disconnect user_id string
  | SeatLocked user_id schedule_id seat_id
  | SeatUnlocked user_id schedule_id seat_id
  | LockSlotsResponse user_id schedule_id bool "seat_id list" "seat_id list"
  | PaymentConfirmed user_id schedule_id "seat_id list"
  | PaymentTimeout schedule_id "seat_id list"
  | ScheduleOpened schedule_id
  | ScheduleClosed schedule_id

text \<open>\<open>#[serde(tag = "event")]\<close>: an object whose field \<open>event\<close> holds the variant's name.\<close>

fun event_json :: "PubSubEvent \<Rightarrow> json" where
  "event_json (Register u sock) =
     JObj [(''event'', JStr ''Register''), (''user_id'', JInt u), (''socket_id'', JStr sock)]"
| "event_json (Disconnect u sock) =
     JObj [(''event'', JStr ''Disconnect''), (''user_id'', JInt u), (''socket_id'', JStr sock)]"
| "event_json (SeatLocked u s t) =
     JObj [(''event'', JStr ''SeatLocked''), (''user_id'', JInt u), (''showtime_id'', JInt s),
           (''seat_id'', JInt t)]"
| "event_json (SeatUnlocked u s t) =
     JObj [(''event'', JStr ''SeatUnlocked''), (''user_id'', JInt u), (''showtime_id'', JInt s),
           (''seat_id'', JInt t)]"
| "event_json (LockSlotsResponse u s ok locked failed) =
     JObj [(''event'', JStr ''LockSlotsResponse''), (''user_id'', JInt u), (''showtime_id'', JInt s),
           (''success'', JBool ok), (''locked_seat_ids'', JArr (map JInt locked)),
           (''failed_seat_ids'', JArr (map JInt failed))]"
| "event_json (PaymentConfirmed u s ts) =
     JObj [(''event'', JStr ''PaymentConfirmed''), (''user_id'', JInt u), (''showtime_id'', JInt s),
           (''seat_ids'', JArr (map JInt ts))]"
| "event_json (PaymentTimeout s ts) =
     JObj [(''event'', JStr ''PaymentTimeout''), (''showtime_id'', JInt s),
           (''seat_ids'', JArr (map JInt ts))]"
| "event_json (ScheduleOpened s) =
     JObj [(''event'', JStr ''ScheduleOpened''), (''schedule_id'', JInt s)]"
| "event_json (ScheduleClosed s) =
     JObj [(''event'', JStr ''ScheduleClosed''), (''schedule_id'', JInt s)]"

text \<open>
  Decoding: the tag selects the variant, every field must be present with its type, and an
  unknown tag or a missing field is an error.
\<close>

fun de_i32 :: "json \<Rightarrow> int option" where
  "de_i32 (JInt n) = (if in_i32 n then Some n else None)"
| "de_i32 _ = None"

fun de_bool :: "json \<Rightarrow> bool option" where
  "de_bool (JBool b) = Some b"
| "de_bool _ = None"

fun de_all :: "('a \<Rightarrow> 'b option) \<Rightarrow> 'a list \<Rightarrow> 'b list option" where
  "de_all f [] = Some []"
| "de_all f (x # xs) = (case f x of Some y \<Rightarrow> map_option (Cons y) (de_all f xs) | None \<Rightarrow> None)"

definition de_ids :: "json \<Rightarrow> int list option" where
  "de_ids v = (case as_array v of Some xs \<Rightarrow> de_all de_i32 xs | None \<Rightarrow> None)"

definition event_of_json :: "json \<Rightarrow> PubSubEvent option" where
  "event_of_json v =
     (case as_str (jget v ''event'') of
        None \<Rightarrow> None
      | Some tag \<Rightarrow>
         let user = de_i32 (jget v ''user_id''); show = de_i32 (jget v ''showtime_id'');
             sched = de_i32 (jget v ''schedule_id''); seat = de_i32 (jget v ''seat_id'');
             sock = as_str (jget v ''socket_id''); seats = de_ids (jget v ''seat_ids'')
         in if tag = ''Register'' then
              (case (user, sock) of (Some u, Some x) \<Rightarrow> Some (Register u x) | _ \<Rightarrow> None)
            else if tag = ''Disconnect'' then
              (case (user, sock) of (Some u, Some x) \<Rightarrow> Some (Disconnect u x) | _ \<Rightarrow> None)
            else if tag = ''SeatLocked'' then
              (case (user, show, seat) of
                 (Some u, Some s, Some t) \<Rightarrow> Some (SeatLocked u s t) | _ \<Rightarrow> None)
            else if tag = ''SeatUnlocked'' then
              (case (user, show, seat) of
                 (Some u, Some s, Some t) \<Rightarrow> Some (SeatUnlocked u s t) | _ \<Rightarrow> None)
            else if tag = ''LockSlotsResponse'' then
              (case (user, show, de_bool (jget v ''success''), de_ids (jget v ''locked_seat_ids''),
                     de_ids (jget v ''failed_seat_ids'')) of
                 (Some u, Some s, Some ok, Some l, Some f) \<Rightarrow> Some (LockSlotsResponse u s ok l f)
               | _ \<Rightarrow> None)
            else if tag = ''PaymentConfirmed'' then
              (case (user, show, seats) of
                 (Some u, Some s, Some ts) \<Rightarrow> Some (PaymentConfirmed u s ts) | _ \<Rightarrow> None)
            else if tag = ''PaymentTimeout'' then
              (case (show, seats) of (Some s, Some ts) \<Rightarrow> Some (PaymentTimeout s ts) | _ \<Rightarrow> None)
            else if tag = ''ScheduleOpened'' then map_option ScheduleOpened sched
            else if tag = ''ScheduleClosed'' then map_option ScheduleClosed sched
            else None)"

fun event_ids_i32 :: "PubSubEvent \<Rightarrow> bool" where
  "event_ids_i32 (Register u _) = in_i32 u"
| "event_ids_i32 (Disconnect u _) = in_i32 u"
| "event_ids_i32 (SeatLocked u s t) = (in_i32 u \<and> in_i32 s \<and> in_i32 t)"
| "event_ids_i32 (SeatUnlocked u s t) = (in_i32 u \<and> in_i32 s \<and> in_i32 t)"
| "event_ids_i32 (LockSlotsResponse u s _ l f) =
     (in_i32 u \<and> in_i32 s \<and> list_all in_i32 l \<and> list_all in_i32 f)"
| "event_ids_i32 (PaymentConfirmed u s ts) = (in_i32 u \<and> in_i32 s \<and> list_all in_i32 ts)"
| "event_ids_i32 (PaymentTimeout s ts) = (in_i32 s \<and> list_all in_i32 ts)"
| "event_ids_i32 (ScheduleOpened s) = in_i32 s"
| "event_ids_i32 (ScheduleClosed s) = in_i32 s"

lemma de_all_map_JInt [simp]: "list_all in_i32 ts \<Longrightarrow> de_all de_i32 (map JInt ts) = Some ts"
  by (induction ts) auto

lemma event_of_json_event_json: "event_ids_i32 e \<Longrightarrow> event_of_json (event_json e) = Some e"
  by (cases e) (simp_all add: event_of_json_def de_ids_def Let_def)

section \<open>Entries of the seat-processing queue\<close>

record QueueEntry =
  qe_seat :: seat_id
  qe_schedule :: schedule_id
  qe_user :: user_id

text \<open>
  Members of the queue are the JSON text of an entry. The text codec is \<open>serde_json\<close>'s; the
  program relies on decoding what it encoded, and on the text never being the plain
  \<open>seat:user\<close> form used in the room set.
\<close>

record codec =
  enc_entry :: "QueueEntry \<Rightarrow> string"
  dec_entry :: "string \<Rightarrow> QueueEntry option"

definition codec_ok :: "codec \<Rightarrow> bool" where
  "codec_ok J \<longleftrightarrow> (\<forall>e. dec_entry J (enc_entry J e) = Some e)"

definition mk_entry :: "seat_id \<Rightarrow> schedule_id \<Rightarrow> user_id \<Rightarrow> QueueEntry" where
  "mk_entry t s u = \<lparr>qe_seat = t, qe_schedule = s, qe_user = u\<rparr>"

lemma enc_entry_inject: "codec_ok J \<Longrightarrow> enc_entry J e = enc_entry J e' \<longleftrightarrow> e = e'"
  by (metis codec_ok_def option.inject)

subsection \<open>A codec\<close>

text \<open>
  The compact text \<open>serde_json\<close> gives for such an object (fields in the order of their names),
  with a reader of exactly that form: a codec that meets \<open>codec_ok\<close> and can be evaluated.
\<close>

definition quoted :: "string \<Rightarrow> string" where
  "quoted s = CHR 0x22 # s @ [CHR 0x22]"

definition field_text :: "string \<Rightarrow> string \<Rightarrow> string" where
  "field_text sep name = sep @ quoted name @ '':''"

definition read_int :: "string \<Rightarrow> string \<Rightarrow> (int \<times> string) option" where
  "read_int pre s =
     (if take (length pre) s = pre then
        (let rest = drop (length pre) s;
             ds = takeWhile (\<lambda>c. is_digit c \<or> c = CHR ''-'') rest
         in case parse_dec ds of Some n \<Rightarrow> Some (n, drop (length ds) rest) | None \<Rightarrow> None)
      else None)"

definition json_codec :: codec where
  "json_codec =
     \<lparr>enc_entry = (\<lambda>e. field_text ''{'' ''schedule_id'' @ dec (qe_schedule e) @
                       field_text '','' ''seat_id'' @ dec (qe_seat e) @
                       field_text '','' ''user_id'' @ dec (qe_user e) @ ''}''),
      dec_entry = (\<lambda>x.
        (case read_int (field_text ''{'' ''schedule_id'') x of
           None \<Rightarrow> None
         | Some (s, r1) \<Rightarrow>
            (case read_int (field_text '','' ''seat_id'') r1 of
               None \<Rightarrow> None
             | Some (t, r2) \<Rightarrow>
                (case read_int (field_text '','' ''user_id'') r2 of
                   None \<Rightarrow> None
                 | Some (u, r3) \<Rightarrow> if r3 = ''}'' then Some (mk_entry t s u) else None))))\<rparr>"

lemma takeWhile_dec:
  "sep_char c \<Longrightarrow> takeWhile (\<lambda>c. is_digit c \<or> c = CHR ''-'') (dec n @ c # r) = dec n"
  by (subst takeWhile_append2) (auto dest: dec_chars simp: sep_char_def)

lemma read_int_dec: "sep_char c \<Longrightarrow> read_int pre (pre @ dec n @ c # r) = Some (n, c # r)"
  by (simp add: read_int_def Let_def takeWhile_dec)

lemma field_text_Cons: "field_text '','' name = CHR '','' # quoted name @ '':''"
  by (simp add: field_text_def)

lemma codec_ok_json_codec: "codec_ok json_codec"
  unfolding codec_ok_def
proof
  fix e :: QueueEntry
  let ?seat = "field_text '','' ''seat_id'' @ dec (qe_seat e) @ field_text '','' ''user_id'' @ dec (qe_user e) @ ''}''"
  let ?user = "field_text '','' ''user_id'' @ dec (qe_user e) @ ''}''"
  have sep: "sep_char CHR '',''" "sep_char CHR ''}''"
    by (simp_all add: sep_char_def is_digit_def)
  have 1: "read_int (field_text ''{'' ''schedule_id'')
      (field_text ''{'' ''schedule_id'' @ dec (qe_schedule e) @ ?seat) = Some (qe_schedule e, ?seat)"
    using read_int_dec [OF sep(1)] by (simp add: field_text_Cons)
  have 2: "read_int (field_text '','' ''seat_id'') ?seat = Some (qe_seat e, ?user)"
    using read_int_dec [OF sep(1), of "field_text '','' ''seat_id''"] by (simp add: field_text_Cons)
  have 3: "read_int (field_text '','' ''user_id'') ?user = Some (qe_user e, ''}'')"
    using read_int_dec [OF sep(2)] by simp
  show "dec_entry json_codec (enc_entry json_codec e) = Some e"
    unfolding json_codec_def by (simp add: 1 2 3 mk_entry_def)
qed

end
