(* ===== verification/Seat_Lock.thy ===== *)
theory Seat_Lock
  imports Redis_Keys Wire_Format
begin

text \<open>
  The contract of the trait \<open>SeatLock\<close> (\<open>packages/redis-conn/src/seat_lock.rs\<close>) as the services
  rely on it: an acquire that succeeds makes the caller the holder, a seat held by somebody else is
  neither granted nor released, and an operation on one seat leaves the others alone. The clients'
  exclusion properties are proved once from the contract; the two implementations,
  \<open>SingleNodeLock\<close> and \<open>ClusterLock\<close>, are interpreted in their own theories.
\<close>

section \<open>Runs of lock operations\<close>

datatype lock_op =
    Acquire schedule_id seat_id user_id
  | Release schedule_id seat_id user_id

fun op_user :: "lock_op \<Rightarrow> user_id" where
  "op_user (Acquire _ _ u) = u"
| "op_user (Release _ _ u) = u"

fun apply_op ::
    "(schedule_id \<Rightarrow> seat_id \<Rightarrow> user_id \<Rightarrow> 'w \<Rightarrow> bool \<times> 'w) \<Rightarrow>
     (schedule_id \<Rightarrow> seat_id \<Rightarrow> user_id \<Rightarrow> 'w \<Rightarrow> bool \<times> 'w) \<Rightarrow> lock_op \<Rightarrow> 'w \<Rightarrow> bool \<times> 'w" where
  "apply_op acq rel (Acquire s t u) w = acq s t u w"
| "apply_op acq rel (Release s t u) w = rel s t u w"

definition run_ops ::
    "(schedule_id \<Rightarrow> seat_id \<Rightarrow> user_id \<Rightarrow> 'w \<Rightarrow> bool \<times> 'w) \<Rightarrow>
     (schedule_id \<Rightarrow> seat_id \<Rightarrow> user_id \<Rightarrow> 'w \<Rightarrow> bool \<times> 'w) \<Rightarrow> lock_op list \<Rightarrow> 'w \<Rightarrow> 'w" where
  "run_ops acq rel ops w = fold (\<lambda>x v. snd (apply_op acq rel x v)) ops w"

section \<open>Exclusive attempts\<close>

text \<open>
  A herd: everybody in the list attempts the same thing, one after the other. \<open>exclusive\<close> is what makes such an
  attempt exclusive: a success makes the caller the holder, and a holder is neither displaced nor joined.
\<close>

fun herd :: "('u \<Rightarrow> 'w \<Rightarrow> bool \<times> 'w) \<Rightarrow> 'u list \<Rightarrow> 'w \<Rightarrow> bool list \<times> 'w" where
  "herd acq [] w = ([], w)"
| "herd acq (u # us) w =
     (let (b, w1) = acq u w; (bs, w2) = herd acq us w1 in (b # bs, w2))"

lemma length_herd: "herd acq us w = (bs, w') \<Longrightarrow> length bs = length us"
  by (induction us arbitrary: w bs w') (auto simp: Let_def split: prod.splits)

locale exclusive =
  fixes attempt :: "'u \<Rightarrow> 'w \<Rightarrow> bool \<times> 'w" and held_by :: "'w \<Rightarrow> 'u option" and valid :: "'u \<Rightarrow> bool"
    and state_ok :: "'w \<Rightarrow> bool"
  assumes attempt_ok: "state_ok w \<Longrightarrow> valid u \<Longrightarrow> attempt u w = (b, w') \<Longrightarrow> state_ok w'"
    and attempt_grants: "state_ok w \<Longrightarrow> valid u \<Longrightarrow> attempt u w = (True, w') \<Longrightarrow> held_by w' = Some u"
    and attempt_keeps:
      "state_ok w \<Longrightarrow> valid u \<Longrightarrow> held_by w = Some v \<Longrightarrow> attempt u w = (b, w') \<Longrightarrow> held_by w' = Some v"
    and attempt_excludes:
      "state_ok w \<Longrightarrow> valid u \<Longrightarrow> held_by w = Some v \<Longrightarrow> v \<noteq> u \<Longrightarrow> attempt u w = (b, w') \<Longrightarrow> \<not> b"
begin

text \<open>In a herd for something held only the holder can win.\<close>

lemma herd_held:
  assumes "state_ok w" "held_by w = Some v" "\<forall>u \<in> set us. valid u"
    and "herd attempt us w = (bs, w')" "i < length us" "bs ! i"
  shows "us ! i = v"
  using assms
proof (induction us arbitrary: w bs w' i)
  case Nil
  then show ?case by simp
next
  case (Cons u us)
  obtain b w1 where a: "attempt u w = (b, w1)" by (cases "attempt u w")
  obtain bs' w2 where h: "herd attempt us w1 = (bs', w2)" by (cases "herd attempt us w1")
  from Cons.prems a have w1: "state_ok w1" "held_by w1 = Some v" by (auto intro: attempt_ok attempt_keeps)
  have "u = v" if "b" using that Cons.prems a attempt_excludes by fastforce
  with Cons.IH [OF w1 _ h] Cons.prems a h show ?case by (cases i) auto
qed

text \<open>All winners of a herd are the same, whatever the state it starts from.\<close>

lemma one_winner:
  assumes "state_ok w" "\<forall>u \<in> set us. valid u" "herd attempt us w = (bs, w')"
    and "i < j" "j < length us" "bs ! i" "bs ! j"
  shows "us ! i = us ! j"
  using assms
proof (induction us arbitrary: w bs w' i j)
  case Nil
  then show ?case by simp
next
  case (Cons u us)
  obtain b w1 where a: "attempt u w = (b, w1)" by (cases "attempt u w")
  obtain bs' w2 where h: "herd attempt us w1 = (bs', w2)" by (cases "herd attempt us w1")
  from Cons.prems a have w1: "state_ok w1" by (auto intro: attempt_ok)
  obtain k where k: "j = Suc k" using Cons.prems by (cases j) auto
  show ?case
  proof (cases i)
    case 0
    with Cons.prems a h have b: "attempt u w = (True, w1)" by auto
    have "held_by w1 = Some u" by (rule attempt_grants [OF _ _ b]) (use Cons.prems in auto)
    from herd_held [OF w1 this _ h] Cons.prems a h k have "us ! k = u" by auto
    with 0 k show ?thesis by simp
  next
    case (Suc i')
    with Cons.IH [OF w1 _ h] Cons.prems a h k show ?thesis by auto
  qed
qed

end

section \<open>The contract\<close>

locale seat_lock =
  fixes acquire :: "schedule_id \<Rightarrow> seat_id \<Rightarrow> user_id \<Rightarrow> 'w \<Rightarrow> bool \<times> 'w"
    and release :: "schedule_id \<Rightarrow> seat_id \<Rightarrow> user_id \<Rightarrow> 'w \<Rightarrow> bool \<times> 'w"
    and holder :: "schedule_id \<Rightarrow> seat_id \<Rightarrow> 'w \<Rightarrow> user_id option"
    and lock_ok :: "'w \<Rightarrow> bool"
  assumes acquire_ok: "lock_ok w \<Longrightarrow> in_i32 u \<Longrightarrow> acquire s t u w = (b, w') \<Longrightarrow> lock_ok w'"
    and release_ok: "lock_ok w \<Longrightarrow> in_i32 u \<Longrightarrow> release s t u w = (b, w') \<Longrightarrow> lock_ok w'"
    and acquire_grants:
      "lock_ok w \<Longrightarrow> in_i32 u \<Longrightarrow> acquire s t u w = (True, w') \<Longrightarrow> holder s t w' = Some u"
    and acquire_keeps:
      "lock_ok w \<Longrightarrow> in_i32 u \<Longrightarrow> holder s t w = Some v \<Longrightarrow> acquire s t u w = (b, w') \<Longrightarrow>
       holder s t w' = Some v"
    and acquire_excludes:
      "lock_ok w \<Longrightarrow> in_i32 u \<Longrightarrow> holder s t w = Some v \<Longrightarrow> v \<noteq> u \<Longrightarrow>
       acquire s t u w = (b, w') \<Longrightarrow> \<not> b"
    and acquire_frame:
      "lock_ok w \<Longrightarrow> in_i32 u \<Longrightarrow> acquire s t u w = (b, w') \<Longrightarrow> (s', t') \<noteq> (s, t) \<Longrightarrow>
       holder s' t' w' = holder s' t' w"
    and release_excludes:
      "lock_ok w \<Longrightarrow> in_i32 u \<Longrightarrow> holder s t w = Some v \<Longrightarrow> v \<noteq> u \<Longrightarrow>
       release s t u w = (b, w') \<Longrightarrow> \<not> b \<and> holder s t w' = Some v"
    and release_frame:
      "lock_ok w \<Longrightarrow> in_i32 u \<Longrightarrow> release s t u w = (b, w') \<Longrightarrow> (s', t') \<noteq> (s, t) \<Longrightarrow>
       holder s' t' w' = holder s' t' w"
begin

lemmas lock_specs =
  acquire_grants acquire_keeps acquire_excludes acquire_frame release_excludes release_frame

lemma apply_op_ok:
  "lock_ok w \<Longrightarrow> in_i32 (op_user x) \<Longrightarrow> apply_op acquire release x w = (b, w') \<Longrightarrow> lock_ok w'"
  by (cases x) (auto intro: acquire_ok release_ok)

lemma apply_op_keeps_holder:
  assumes "lock_ok w" "in_i32 (op_user x)" "op_user x \<noteq> v" "holder s t w = Some v"
    and "apply_op acquire release x w = (b, w')"
  shows "holder s t w' = Some v"
proof (cases x)
  case (Acquire s' t' u)
  with assms have a: "acquire s' t' u w = (b, w')" "in_i32 u" by auto
  show ?thesis
  proof (cases "(s, t) = (s', t')")
    case True
    with a assms show ?thesis using acquire_keeps by blast
  next
    case False
    with a assms show ?thesis using acquire_frame by simp
  qed
next
  case (Release s' t' u)
  with assms have r: "release s' t' u w = (b, w')" "in_i32 u" "v \<noteq> u" by auto
  show ?thesis
  proof (cases "(s, t) = (s', t')")
    case True
    with r assms show ?thesis using release_excludes by blast
  next
    case False
    with r assms show ?thesis using release_frame by simp
  qed
qed

text \<open>Nothing other users do takes a seat away from its holder.\<close>

lemma others_keep_holder:
  assumes "lock_ok w" "holder s t w = Some v"
    and "\<forall>x \<in> set ops. in_i32 (op_user x) \<and> op_user x \<noteq> v"
  shows "holder s t (run_ops acquire release ops w) = Some v"
  using assms
proof (induction ops arbitrary: w)
  case Nil
  then show ?case by (simp add: run_ops_def)
next
  case (Cons x ops)
  obtain b w' where x: "apply_op acquire release x w = (b, w')"
    by (cases "apply_op acquire release x w")
  with Cons.prems have "lock_ok w'" "holder s t w' = Some v"
    by (auto intro: apply_op_ok apply_op_keeps_holder)
  with Cons.IH Cons.prems x show ?case by (simp add: run_ops_def)
qed

end

text \<open>Acquiring one seat is an exclusive attempt.\<close>

sublocale seat_lock \<subseteq> ex: exclusive "acquire s t" "holder s t" in_i32 lock_ok for s t
  by unfold_locales (auto intro: acquire_ok acquire_grants acquire_keeps dest: acquire_excludes)

end
