(* ===== verification/Single_Node_Lock.thy ===== *)
theory Single_Node_Lock
  imports Seat_Lock
begin

text \<open>
  \<open>SingleNodeLock\<close> (\<open>packages/redis-conn/src/single_node_lock.rs\<close>): each seat's lock lives on one
  of several independent Redis servers, chosen by the CRC16 of the lock key; the sorted sets and the
  seat bitmap are replicated to all of them. Every operation of the trait is modelled with its error
  branches, over an arbitrary server and an arbitrary fault schedule. The theory ends with the
  interpretation of the \<open>seat_lock\<close> contract.
\<close>

unbundle bit_operations_syntax

section \<open>Choosing a server\<close>

definition crc_bit :: "16 word \<Rightarrow> 16 word" where
  "crc_bit crc =
     (if crc AND 0x8000 \<noteq> 0 then push_bit 1 crc XOR 0x1021 else push_bit 1 crc)"

definition crc_byte :: "16 word \<Rightarrow> 8 word \<Rightarrow> 16 word" where
  "crc_byte crc b = (crc_bit ^^ 8) (crc XOR push_bit 8 (ucast b))"

definition crc16 :: "8 word list \<Rightarrow> 16 word" where
  "crc16 data = foldl crc_byte 0 data"

definition as_bytes :: "string \<Rightarrow> 8 word list" where
  "as_bytes s = map (\<lambda>c. word_of_nat (of_char c)) s"

definition node_of :: "schedule_id \<Rightarrow> seat_id \<Rightarrow> nat \<Rightarrow> nat" where
  "node_of s t n = unat (crc16 (as_bytes (dec s @ '':'' @ dec t))) mod n"

definition pool_for_seat :: "('r, 'p) world \<Rightarrow> schedule_id \<Rightarrow> seat_id \<Rightarrow> nat option" where
  "pool_for_seat w s t =
     (if nodes w = [] then None else Some (node_of s t (length (nodes w))))"

text \<open>
  The shape every operation has: no pool, no connection, or the body on the seat's server; \<open>d\<close> is
  what the first two branches return.
\<close>

definition with_pool ::
    "nat option \<Rightarrow> 'a \<Rightarrow> (nat \<Rightarrow> ('r, 'p) world \<Rightarrow> 'a \<times> ('r, 'p) world) \<Rightarrow>
     ('r, 'p) world \<Rightarrow> 'a \<times> ('r, 'p) world" where
  "with_pool p d body w =
     (case p of
        None \<Rightarrow> (d, w)
      | Some i \<Rightarrow> (case pool_get w of (ok, w1) \<Rightarrow> if ok then body i w1 else (d, w1)))"

text \<open>A script returns its integer, or raises (\<open>None\<close>); the transport may fail as well.\<close>

definition run_script ::
    "nat \<Rightarrow> ('r \<Rightarrow> int option \<times> 'r) \<Rightarrow> ('r, 'p) world \<Rightarrow> int option \<times> ('r, 'p) world" where
  "run_script i sc w = (case send i sc w of (res, w') \<Rightarrow> (Option.bind res id, w'))"

section \<open>Replicated writes\<close>

definition zadd_cluster ::
    "'r redis \<Rightarrow> string \<Rightarrow> string \<Rightarrow> int \<Rightarrow> ('r, 'p) world \<Rightarrow> ('r, 'p) world" where
  "zadd_cluster R k m score w = on_all (ZADD R k score m) w"

definition zrem_cluster ::
    "'r redis \<Rightarrow> string \<Rightarrow> string \<Rightarrow> ('r, 'p) world \<Rightarrow> ('r, 'p) world" where
  "zrem_cluster R k m w = on_all (ZREM R k m) w"

definition zrembyscore_cluster ::
    "'r redis \<Rightarrow> string \<Rightarrow> int \<Rightarrow> ('r, 'p) world \<Rightarrow> ('r, 'p) world" where
  "zrembyscore_cluster R k mx w = on_all (ZREMRANGE R k mx) w"

definition set_schedule_seat_bitmap_state_cluster ::
    "'r redis \<Rightarrow> string \<Rightarrow> seat_id \<Rightarrow> 8 word \<Rightarrow> ('r, 'p) world \<Rightarrow> ('r, 'p) world" where
  "set_schedule_seat_bitmap_state_cluster R k t state w =
     (if t < 0 then w else on_all (BITSET R k (nat t * 2) state) w)"

definition publish_event :: "string \<Rightarrow> 'p \<Rightarrow> ('r, 'p) world \<Rightarrow> ('r, 'p) world" where
  "publish_event ch p w =
     fold (\<lambda>i v. case pool_get v of (ok, v1) \<Rightarrow> if ok then publish_node i ch p v1 else v1)
       [0..<length (nodes w)] w"

section \<open>Lua scripts\<close>

definition bit_offset :: "seat_id \<Rightarrow> nat" where
  "bit_offset t = nat (as_u64 t * 2 mod 2 ^ 64)"

text \<open>\<open>BITFIELD\<close> is the last call of every script; an offset it refuses raises.\<close>

definition bit_reply :: "nat \<Rightarrow> int \<Rightarrow> int option" where
  "bit_reply off n = (if off < 2 ^ 32 then Some n else None)"

definition lua_acquire ::
    "'r redis \<Rightarrow> codec \<Rightarrow> schedule_id \<Rightarrow> seat_id \<Rightarrow> user_id \<Rightarrow> int \<Rightarrow> int \<Rightarrow> int \<Rightarrow> 'r \<Rightarrow> int option \<times> 'r" where
  "lua_acquire R J s t u ttl_ms expiry processing_expiry r =
     (let current_owner = GET R (seat_lock_key s t) r
      in if current_owner \<noteq> None \<and> current_owner \<noteq> Some (dec u) then (Some 0, r)
         else
           (let r1 = SETPX R (seat_lock_key s t) (dec u) ttl_ms r;
                r2 = SETPX R (seat_user_context_key s t u) ''1'' ttl_ms r1;
                r3 = ZADD R (user_zset_key s u) expiry (dec t) r2;
                r4 = ZADD R (room_zset_key s) expiry (seat_user_member t u) r3;
                r5 = ZADD R seat_processing_queue_key processing_expiry (enc_entry J (mk_entry t s u)) r4;
                r6 = BITSET R (schedule_seat_bitmap s) (bit_offset t) 1 r5
            in (bit_reply (bit_offset t) 1, r6)))"

text \<open>The body shared by release and booking: drop both keys and the set members, write the bits.\<close>

definition lua_drop ::
    "'r redis \<Rightarrow> schedule_id \<Rightarrow> seat_id \<Rightarrow> user_id \<Rightarrow> string \<Rightarrow> 8 word \<Rightarrow> 'r \<Rightarrow> 'r" where
  "lua_drop R s t u member bits r =
     (let r1 = DEL R (seat_lock_key s t) r;
          r2 = DEL R (seat_user_context_key s t u) r1;
          r3 = ZREM R (user_zset_key s u) (dec t) r2;
          r4 = ZREM R (room_zset_key s) (seat_user_member t u) r3;
          r5 = ZREM R seat_processing_queue_key member r4
      in BITSET R (schedule_seat_bitmap s) (bit_offset t) bits r5)"

definition lua_release ::
    "'r redis \<Rightarrow> schedule_id \<Rightarrow> seat_id \<Rightarrow> user_id \<Rightarrow> string \<Rightarrow> 'r \<Rightarrow> int option \<times> 'r" where
  "lua_release R s t u member r =
     (let owner = GET R (seat_lock_key s t) r
      in if owner = None \<or> owner = Some (dec u)
         then (bit_reply (bit_offset t) 1, lua_drop R s t u member 0 r)
         else (Some 0, r))"

definition lua_release_expired ::
    "'r redis \<Rightarrow> schedule_id \<Rightarrow> seat_id \<Rightarrow> user_id \<Rightarrow> string \<Rightarrow> 'r \<Rightarrow> int option \<times> 'r" where
  "lua_release_expired R s t u member r =
     (let owner = GET R (seat_lock_key s t) r
      in if owner = None \<or> owner = Some (dec u)
         then (bit_reply (bit_offset t) 1, lua_drop R s t u member 0 r)
         else (Some 0, ZREM R seat_processing_queue_key member r))"

definition lua_book ::
    "'r redis \<Rightarrow> schedule_id \<Rightarrow> seat_id \<Rightarrow> user_id \<Rightarrow> string \<Rightarrow> 'r \<Rightarrow> int option \<times> 'r" where
  "lua_book R s t u member r =
     (let owner = GET R (seat_lock_key s t) r
      in if owner = None \<or> owner = Some (dec u)
         then (bit_reply (bit_offset t) 1, lua_drop R s t u member 2 r)
         else (Some 0, r))"

definition lua_force_book ::
    "'r redis \<Rightarrow> schedule_id \<Rightarrow> seat_id \<Rightarrow> user_id \<Rightarrow> string \<Rightarrow> 'r \<Rightarrow> int option \<times> 'r" where
  "lua_force_book R s t u member r =
     (let owner = GET R (seat_lock_key s t) r;
          r1 = (if owner = None \<or> owner = Some (dec u)
                then DEL R (seat_user_context_key s t u) (DEL R (seat_lock_key s t) r) else r);
          r2 = ZREM R (user_zset_key s u) (dec t) r1;
          r3 = ZREM R (room_zset_key s) (seat_user_member t u) r2;
          r4 = ZREM R seat_processing_queue_key member r3
      in (bit_reply (bit_offset t) 1, BITSET R (schedule_seat_bitmap s) (bit_offset t) 2 r4))"

section \<open>The operations of the trait\<close>

definition parse_owner :: "string option option \<Rightarrow> user_id option" where
  "parse_owner res = (case res of Some (Some v) \<Rightarrow> parse_i32 v | _ \<Rightarrow> None)"

definition acquire_lock ::
    "'r redis \<Rightarrow> schedule_id \<Rightarrow> seat_id \<Rightarrow> user_id \<Rightarrow> int \<Rightarrow> ('r, 'p) world \<Rightarrow> bool \<times> ('r, 'p) world" where
  "acquire_lock R s t u ttl_ms w =
     with_pool (pool_for_seat w s t) False
       (\<lambda>i w1.
         (case send i (SETNXPX R (seat_lock_key s t) (dec u) ttl_ms) w1 of (set_res, w2) \<Rightarrow>
            if set_res = Some True then (True, w2)
            else
              (case send i (reading (GET R (seat_lock_key s t))) w2 of (cur, w3) \<Rightarrow>
                 if parse_owner cur = Some u
                 then (True, snd (send i (writing (PEXPIRE R (seat_lock_key s t) ttl_ms)) w3))
                 else (False, w3)))) w"

definition acquire_distributed_lock ::
    "'r redis \<Rightarrow> schedule_id \<Rightarrow> seat_id \<Rightarrow> user_id \<Rightarrow> int \<Rightarrow> ('r, 'p) world \<Rightarrow> bool \<times> ('r, 'p) world" where
  "acquire_distributed_lock R s t u expires_in_sec w =
     acquire_lock R s t u (as_u64 expires_in_sec * 1000 mod 2 ^ 64) w"

text \<open>One iteration of the metadata loop: a pipeline in \<open>MULTI\<close>/\<open>EXEC\<close> on the seat's server.\<close>

definition metadata_pipe ::
    "'r redis \<Rightarrow> codec \<Rightarrow> schedule_id \<Rightarrow> user_id \<Rightarrow> int \<Rightarrow> seat_id \<Rightarrow> 'r \<Rightarrow> 'r" where
  "metadata_pipe R J s u expiry t r =
     (let r1 = ZADD R (room_zset_key s) expiry (seat_user_member t u) r;
          r2 = ZADD R (user_zset_key s u) expiry (dec t) r1;
          r3 = ZADD R seat_processing_queue_key (expiry + 15) (enc_entry J (mk_entry t s u)) r2
      in BITSET R (schedule_seat_bitmap s) (bit_offset t) 1 r3)"

definition metadata_seat ::
    "'r redis \<Rightarrow> codec \<Rightarrow> schedule_id \<Rightarrow> user_id \<Rightarrow> int \<Rightarrow> seat_id \<Rightarrow> ('r, 'p) world \<Rightarrow>
     bool \<times> ('r, 'p) world" where
  "metadata_seat R J s u expiry t w =
     with_pool (pool_for_seat w s t) False
       (\<lambda>i w1. case send i (writing (metadata_pipe R J s u expiry t)) w1 of
                 (res, w2) \<Rightarrow> (res \<noteq> None \<and> bit_offset t < 2 ^ 32, w2)) w"

fun metadata_loop ::
    "'r redis \<Rightarrow> codec \<Rightarrow> schedule_id \<Rightarrow> user_id \<Rightarrow> int \<Rightarrow> seat_id list \<Rightarrow> bool \<Rightarrow> ('r, 'p) world \<Rightarrow>
     bool \<times> ('r, 'p) world" where
  "metadata_loop R J s u expiry [] success w = (success, w)"
| "metadata_loop R J s u expiry (t # ts) success w =
     (case metadata_seat R J s u expiry t w of
        (ok, w1) \<Rightarrow> metadata_loop R J s u expiry ts (success \<and> ok) w1)"

definition update_seat_metadata_lua ::
    "'r redis \<Rightarrow> codec \<Rightarrow> int \<Rightarrow> schedule_id \<Rightarrow> seat_id list \<Rightarrow> user_id \<Rightarrow> int \<Rightarrow> ('r, 'p) world \<Rightarrow>
     bool \<times> ('r, 'p) world" where
  "update_seat_metadata_lua R J now s ts u expires_in_sec w =
     metadata_loop R J s u (now + expires_in_sec) ts True w"

text \<open>The replication that follows an acquiring script, and the one that follows a dropping script.\<close>

definition replicate_lock ::
    "'r redis \<Rightarrow> codec \<Rightarrow> schedule_id \<Rightarrow> seat_id \<Rightarrow> user_id \<Rightarrow> int \<Rightarrow> ('r, 'p) world \<Rightarrow> ('r, 'p) world" where
  "replicate_lock R J s t u expiry w =
     set_schedule_seat_bitmap_state_cluster R (schedule_seat_bitmap s) t 1
       (zadd_cluster R seat_processing_queue_key (enc_entry J (mk_entry t s u)) (expiry + 15)
         (zadd_cluster R (room_zset_key s) (seat_user_member t u) expiry
           (zadd_cluster R (user_zset_key s u) (dec t) expiry w)))"

definition replicate_drop ::
    "'r redis \<Rightarrow> schedule_id \<Rightarrow> seat_id \<Rightarrow> user_id \<Rightarrow> string \<Rightarrow> 8 word \<Rightarrow> ('r, 'p) world \<Rightarrow> ('r, 'p) world" where
  "replicate_drop R s t u member bits w =
     set_schedule_seat_bitmap_state_cluster R (schedule_seat_bitmap s) t bits
       (zrem_cluster R seat_processing_queue_key member
         (zrem_cluster R (room_zset_key s) (seat_user_member t u)
           (zrem_cluster R (user_zset_key s u) (dec t) w)))"

definition acquire_seat_lock_lua ::
    "'r redis \<Rightarrow> codec \<Rightarrow> int \<Rightarrow> schedule_id \<Rightarrow> seat_id \<Rightarrow> user_id \<Rightarrow> int \<Rightarrow> ('r, 'p) world \<Rightarrow>
     bool \<times> ('r, 'p) world" where
  "acquire_seat_lock_lua R J now s t u expires_in_sec w =
     (let ttl_ms = as_u64 expires_in_sec * 1000 mod 2 ^ 64; expiry = now + expires_in_sec
      in with_pool (pool_for_seat w s t) False
           (\<lambda>i w1.
             (case run_script i (lua_acquire R J s t u ttl_ms expiry (expiry + 15)) w1 of (res, w2) \<Rightarrow>
                if res = Some 1 then (True, replicate_lock R J s t u expiry w2) else (False, w2))) w)"

definition release_expired_lock_lua ::
    "'r redis \<Rightarrow> schedule_id \<Rightarrow> seat_id \<Rightarrow> user_id \<Rightarrow> string \<Rightarrow> ('r, 'p) world \<Rightarrow> bool \<times> ('r, 'p) world" where
  "release_expired_lock_lua R s t u member w =
     with_pool (pool_for_seat w s t) False
       (\<lambda>i w1. case run_script i (lua_release_expired R s t u member) w1 of
                 (res, w2) \<Rightarrow> (res = Some 1, replicate_drop R s t u member 0 w2)) w"

definition release_lock ::
    "'r redis \<Rightarrow> codec \<Rightarrow> schedule_id \<Rightarrow> seat_id \<Rightarrow> user_id \<Rightarrow> ('r, 'p) world \<Rightarrow> bool \<times> ('r, 'p) world" where
  "release_lock R J s t u w =
     (let member = enc_entry J (mk_entry t s u)
      in with_pool (pool_for_seat w s t) False
           (\<lambda>i w1. case run_script i (lua_release R s t u member) w1 of
                     (res, w2) \<Rightarrow>
                       if res = Some 1 then (True, replicate_drop R s t u member 0 w2)
                       else (False, w2)) w)"

definition book_seat_lua ::
    "'r redis \<Rightarrow> codec \<Rightarrow> schedule_id \<Rightarrow> seat_id \<Rightarrow> user_id \<Rightarrow> ('r, 'p) world \<Rightarrow> bool \<times> ('r, 'p) world" where
  "book_seat_lua R J s t u w =
     (let member = enc_entry J (mk_entry t s u)
      in with_pool (pool_for_seat w s t) False
           (\<lambda>i w1. case run_script i (lua_book R s t u member) w1 of
                     (res, w2) \<Rightarrow>
                       if res = Some 1 then (True, replicate_drop R s t u member 2 w2)
                       else (False, w2)) w)"

definition force_book_seat_lua ::
    "'r redis \<Rightarrow> schedule_id \<Rightarrow> seat_id \<Rightarrow> user_id \<Rightarrow> string \<Rightarrow> ('r, 'p) world \<Rightarrow> ('r, 'p) world" where
  "force_book_seat_lua R s t u member w =
     snd (with_pool (pool_for_seat w s t) ()
       (\<lambda>i w1. case run_script i (lua_force_book R s t u member) w1 of
                 (res, w2) \<Rightarrow> ((), replicate_drop R s t u member 2 w2)) w)"

definition get_lock_owner ::
    "'r redis \<Rightarrow> schedule_id \<Rightarrow> seat_id \<Rightarrow> ('r, 'p) world \<Rightarrow> user_id option \<times> ('r, 'p) world" where
  "get_lock_owner R s t w =
     with_pool (pool_for_seat w s t) None
       (\<lambda>i w1. case send i (reading (GET R (seat_lock_key s t))) w1 of
                 (cur, w2) \<Rightarrow> (parse_owner cur, w2)) w"

definition user_holds_lock ::
    "'r redis \<Rightarrow> schedule_id \<Rightarrow> seat_id \<Rightarrow> user_id \<Rightarrow> ('r, 'p) world \<Rightarrow> bool \<times> ('r, 'p) world" where
  "user_holds_lock R s t u w =
     with_pool (pool_for_seat w s t) False
       (\<lambda>i w1. case send i (reading (EXISTS R (seat_user_context_key s t u))) w1 of
                 (ex, w2) \<Rightarrow> (ex = Some True, w2)) w"

definition get_user_locked_seats ::
    "'r redis \<Rightarrow> int \<Rightarrow> schedule_id \<Rightarrow> user_id \<Rightarrow> ('r, 'p) world \<Rightarrow> seat_id list \<times> ('r, 'p) world" where
  "get_user_locked_seats R now s u w =
     with_pool (if nodes w = [] then None else Some 0) []
       (\<lambda>i w1. case send i (reading (ZRANGE R (user_zset_key s u) (Some now) None)) w1 of
                 (ms, w2) \<Rightarrow> (List.map_filter parse_i32 (case ms of Some xs \<Rightarrow> xs | None \<Rightarrow> []), w2)) w"

definition get_schedule_seat_bitmap_state_cluster ::
    "'r redis \<Rightarrow> string \<Rightarrow> ('r, 'p) world \<Rightarrow> 8 word list \<times> ('r, 'p) world" where
  "get_schedule_seat_bitmap_state_cluster R k w =
     with_pool (if nodes w = [] then None else Some 0) []
       (\<lambda>i w1. case send i (reading (GETBITS R k)) w1 of
                 (bs, w2) \<Rightarrow> (case bs of Some xs \<Rightarrow> xs | None \<Rightarrow> [], w2)) w"

section \<open>Lock cells\<close>

text \<open>
  What the servers say about one seat: the entry of its lock key (\<open>Key 1\<close>) and of a user's context
  key (\<open>Key 2\<close>) on the seat's own server, and the holder the code reads from the former.
\<close>

definition lock_cell :: "'r redis \<Rightarrow> schedule_id \<Rightarrow> seat_id \<Rightarrow> 'r list \<Rightarrow> rentry option" where
  "lock_cell R s t ns = look R (ns ! node_of s t (length ns)) (seat_lock_key s t)"

definition ctx_cell :: "'r redis \<Rightarrow> schedule_id \<Rightarrow> seat_id \<Rightarrow> user_id \<Rightarrow> 'r list \<Rightarrow> rentry option" where
  "ctx_cell R s t u ns = look R (ns ! node_of s t (length ns)) (seat_user_context_key s t u)"

definition cell_owner :: "rentry option \<Rightarrow> user_id option" where
  "cell_owner e = parse_owner (Some (str_of e))"

definition sn_holder :: "'r redis \<Rightarrow> schedule_id \<Rightarrow> seat_id \<Rightarrow> ('r, 'p) world \<Rightarrow> user_id option" where
  "sn_holder R s t w = cell_owner (lock_cell R s t (nodes w))"

definition lock_value_ok :: "rentry option \<Rightarrow> bool" where
  "lock_value_ok e \<longleftrightarrow> e = None \<or> (\<exists>u ttl. in_i32 u \<and> e = Some (str_entry (dec u) ttl))"

definition sn_ok :: "'r redis \<Rightarrow> ('r, 'p) world \<Rightarrow> bool" where
  "sn_ok R w \<longleftrightarrow> nodes w \<noteq> [] \<and> (\<forall>s t. lock_value_ok (lock_cell R s t (nodes w)))"

text \<open>Two lists of servers that agree on every lock key and every context key.\<close>

definition same_locks :: "'r redis \<Rightarrow> 'r list \<Rightarrow> 'r list \<Rightarrow> bool" where
  "same_locks R ns ns' \<longleftrightarrow>
     length ns' = length ns \<and>
     (\<forall>i < length ns. \<forall>s t.
        look R (ns' ! i) (seat_lock_key s t) = look R (ns ! i) (seat_lock_key s t) \<and>
        (\<forall>u. look R (ns' ! i) (seat_user_context_key s t u) = look R (ns ! i) (seat_user_context_key s t u)))"

definition lock_safe :: "'r redis \<Rightarrow> ('r \<Rightarrow> 'r) \<Rightarrow> bool" where
  "lock_safe R f \<longleftrightarrow>
     (\<forall>r s t. look R (f r) (seat_lock_key s t) = look R r (seat_lock_key s t) \<and>
        (\<forall>u. look R (f r) (seat_user_context_key s t u) = look R r (seat_user_context_key s t u)))"

lemma node_of_less [simp]: "0 < n \<Longrightarrow> node_of s t n < n"
  by (simp add: node_of_def)

lemma str_of_str_entry [simp]: "str_of (Some (str_entry v ttl)) = Some v" "str_of None = None"
  by (simp_all add: str_of_def str_entry_def)

lemma cell_owner_simps [simp]:
  "cell_owner None = None" "in_i32 u \<Longrightarrow> cell_owner (Some (str_entry (dec u) ttl)) = Some u"
  by (simp_all add: cell_owner_def parse_owner_def)

lemma pexpire_str_entry [simp]:
  "pexpire_entry t None = None" "pexpire_entry t (Some (str_entry v x)) = Some (str_entry v (Some t))"
  by (simp_all add: pexpire_entry_def str_entry_def)

lemma lock_value_ok_simps [simp]:
  "lock_value_ok None" "in_i32 u \<Longrightarrow> lock_value_ok (Some (str_entry (dec u) ttl))"
  by (auto simp: lock_value_ok_def)

lemma lock_value_ok_pexpire [simp]: "lock_value_ok e \<Longrightarrow> lock_value_ok (pexpire_entry t e)"
  by (force simp: lock_value_ok_def)

lemma cell_owner_pexpire [simp]: "cell_owner (pexpire_entry t e) = cell_owner e"
  by (cases e) (auto simp: pexpire_entry_def cell_owner_def parse_owner_def str_of_def split: rval.split)

lemma lock_value_ok_owner:
  "lock_value_ok e \<Longrightarrow> str_of e = Some (dec u) \<longleftrightarrow> cell_owner e = Some u"
  by (auto simp: lock_value_ok_def)

lemma lock_value_ok_None: "lock_value_ok e \<Longrightarrow> cell_owner e = None \<longleftrightarrow> e = None"
  by (auto simp: lock_value_ok_def)

lemma lock_cell_update:
  "i < length ns \<Longrightarrow>
   lock_cell R s t (ns[i := r]) =
     (if i = node_of s t (length ns) then look R r (seat_lock_key s t) else lock_cell R s t ns)"
  by (simp add: lock_cell_def nth_list_update)

lemma ctx_cell_update:
  "i < length ns \<Longrightarrow>
   ctx_cell R s t u (ns[i := r]) =
     (if i = node_of s t (length ns) then look R r (seat_user_context_key s t u) else ctx_cell R s t u ns)"
  by (simp add: ctx_cell_def nth_list_update)

lemma same_locks_refl [simp]: "same_locks R ns ns"
  by (simp add: same_locks_def)

lemma same_locks_trans: "same_locks R a b \<Longrightarrow> same_locks R b c \<Longrightarrow> same_locks R a c"
  by (simp add: same_locks_def)

lemma same_locksD:
  assumes "same_locks R ns ns'" "ns \<noteq> []"
  shows "lock_cell R s t ns' = lock_cell R s t ns" "ctx_cell R s t u ns' = ctx_cell R s t u ns"
    "ns' \<noteq> []" "length ns' = length ns"
  using assms by (auto simp: same_locks_def lock_cell_def ctx_cell_def)

lemma same_locks_update: "lock_safe R f \<Longrightarrow> same_locks R ns (ns[i := f (ns ! i)])"
  by (cases "i < length ns") (auto simp: same_locks_def lock_safe_def nth_list_update list_update_beyond)

lemma on_all_same_locks:
  assumes "lock_safe R f"
  shows "same_locks R (nodes w) (nodes (on_all f w))"
proof (rule on_all_pres)
  show "same_locks R (nodes w) (nodes w)" by simp
next
  fix ns i
  assume "same_locks R (nodes w) ns"
  then show "same_locks R (nodes w) (ns[i := f (ns ! i)])"
    by (rule same_locks_trans) (rule same_locks_update [OF assms])
qed

lemma even_bit_offset [simp]: "even (bit_offset t)"
proof -
  have "(2::int) dvd as_u64 t * 2 mod 2 ^ 64" by (simp add: dvd_mod_iff)
  moreover have "0 \<le> as_u64 t * 2 mod 2 ^ 64" by simp
  ultimately show ?thesis by (simp add: bit_offset_def even_nat_iff)
qed

lemma bit_offset_nonneg: "in_i32 t \<Longrightarrow> 0 \<le> t \<Longrightarrow> bit_offset t = nat t * 2"
  by (simp add: bit_offset_def in_i32_def nat_mult_distrib)

lemma run_script_cases:
  assumes "run_script i sc w = (res, w')"
  obtains (run) "nodes w' = (nodes w)[i := snd (sc (nodes w ! i))]"
      "res = None \<or> res = fst (sc (nodes w ! i))"
    | (skip) "nodes w' = nodes w" "res = None"
proof -
  obtain x w0 where x: "send i sc w = (x, w0)" by (cases "send i sc w")
  with assms have "res = Option.bind x id" "w' = w0" by (simp_all add: run_script_def)
  with x show thesis using run skip by (auto elim!: send_cases)
qed

text \<open>
  A script is a guarded drop when it removes the lock only of its own user or of nobody, and
  otherwise leaves every lock alone.
\<close>

definition guarded_drop :: "'r redis \<Rightarrow> schedule_id \<Rightarrow> seat_id \<Rightarrow> user_id \<Rightarrow> ('r \<Rightarrow> int option \<times> 'r) \<Rightarrow> bool" where
  "guarded_drop R s t u sc \<longleftrightarrow>
     (\<forall>r. let own = GET R (seat_lock_key s t) r; mine = (own = None \<or> own = Some (dec u))
          in (fst (sc r) = Some 1 \<longrightarrow> mine) \<and>
             (\<forall>s' t'. look R (snd (sc r)) (seat_lock_key s' t') =
                (if mine \<and> (s', t') = (s, t) then None else look R r (seat_lock_key s' t'))) \<and>
             (\<forall>s' t' v. look R (snd (sc r)) (seat_user_context_key s' t' v) =
                (if mine \<and> (s', t', v) = (s, t, u) then None
                 else look R r (seat_user_context_key s' t' v))))"

context redis_service
begin

lemma lock_safe_meta [simp]:
  "lock_safe R (ZADD R (user_zset_key s u) x m)" "lock_safe R (ZADD R (room_zset_key s) x m)"
  "lock_safe R (ZADD R seat_processing_queue_key x m)"
  "lock_safe R (ZREM R (user_zset_key s u) m)" "lock_safe R (ZREM R (room_zset_key s) m)"
  "lock_safe R (ZREM R seat_processing_queue_key m)"
  "even off \<Longrightarrow> lock_safe R (BITSET R (schedule_seat_bitmap s) off b)"
  by (simp_all add: lock_safe_def key_simps)

lemma replicate_lock_same_locks: "same_locks R (nodes w) (nodes (replicate_lock R J s t u x w))"
  unfolding replicate_lock_def zadd_cluster_def set_schedule_seat_bitmap_state_cluster_def
  by (auto intro!: same_locks_trans [OF _ on_all_same_locks] on_all_same_locks)

lemma replicate_drop_same_locks: "same_locks R (nodes w) (nodes (replicate_drop R s t u m b w))"
  unfolding replicate_drop_def zrem_cluster_def set_schedule_seat_bitmap_state_cluster_def
  by (auto intro!: same_locks_trans [OF _ on_all_same_locks] on_all_same_locks)

lemma metadata_pipe_lock_safe: "lock_safe R (metadata_pipe R J s u x t)"
  by (simp add: lock_safe_def metadata_pipe_def Let_def key_simps)

subsection \<open>Acquiring with SET NX\<close>

text \<open>What an acquire can do to the seat's server \<open>r\<close>, and what its answer tells.\<close>

lemma acquire_lock_node:
  assumes "nodes w \<noteq> []" "acquire_lock R s t u ttl w = (b, w')"
  defines "i \<equiv> node_of s t (length (nodes w))" and "k \<equiv> seat_lock_key s t"
  defines "r \<equiv> nodes w ! i"
  obtains r' where "nodes w' = (nodes w)[i := r']"
    and "look R r k = None \<and> r' \<in> {SETPX R k (dec u) ttl r, PEXPIRE R k ttl (SETPX R k (dec u) ttl r)}
      \<or> r' = r \<and> (b \<longrightarrow> parse_owner (Some (GET R k r)) = Some u)
      \<or> r' = PEXPIRE R k ttl r \<and> parse_owner (Some (GET R k r)) = Some u"
proof -
  have i: "i < length (nodes w)" using assms(1) by (simp add: i_def)
  obtain ok w1 where w1: "pool_get w = (ok, w1)" by (cases "pool_get w")
  obtain set_res w2 where w2: "send i (SETNXPX R k (dec u) ttl) w1 = (set_res, w2)"
    by (cases "send i (SETNXPX R k (dec u) ttl) w1")
  obtain cur w3 where w3: "send i (reading (GET R k)) w2 = (cur, w3)"
    by (cases "send i (reading (GET R k)) w2")
  obtain pe w4 where w4: "send i (writing (PEXPIRE R k ttl)) w3 = (pe, w4)"
    by (cases "send i (writing (PEXPIRE R k ttl)) w3")
  have res: "(b, w') = (if ok then if set_res = Some True then (True, w2)
      else if parse_owner cur = Some u then (True, w4) else (False, w3) else (False, w1))"
    using assms(1,2) by (simp add: acquire_lock_def with_pool_def pool_for_seat_def i_def [symmetric]
        k_def [symmetric] w1 w2 w3 w4 cong del: if_weak_cong)
  obtain r2 where r2: "nodes w2 = (nodes w)[i := r2]"
      "r2 = r \<and> set_res \<noteq> Some True \<or> look R r k = None \<and> r2 = SETPX R k (dec u) ttl r"
    using w2
  proof (cases rule: send_cases)
    case run
    then show ?thesis
      using that [of "snd (SETNXPX R k (dec u) ttl r)"] pool_getD [OF w1]
      by (auto simp: SETNXPX_def EXISTS_def r_def split: if_splits)
  next
    case skip
    then show ?thesis using that [of r] pool_getD [OF w1] by (simp add: r_def)
  qed
  have r2i: "nodes w2 ! i = r2" using r2(1) i by simp
  have w3n: "nodes w3 = (nodes w)[i := r2]" and cur: "cur = None \<or> cur = Some (GET R k r2)"
    using send_reading [OF w3] r2(1) r2i by auto
  obtain r4 where r4: "nodes w4 = (nodes w)[i := r4]" "r4 = r2 \<or> r4 = PEXPIRE R k ttl r2"
    using w4 w3n i by (cases rule: send_cases) (auto simp: writing_def)
  have w1n: "nodes w1 = (nodes w)[i := r]" using pool_getD [OF w1] i by (simp add: r_def)
  consider "w' = w1" "\<not> b" | "w' = w2" "set_res = Some True" | "w' = w3" "\<not> b"
    | "w' = w4" "parse_owner cur = Some u"
    using res by (auto split: if_splits)
  then show thesis
  proof cases
    case 1 then show ?thesis using that [OF _ disjI2] w1n by auto
  next
    case 2 then show ?thesis using that [OF _ disjI1] r2 by auto
  next
    case 3 then show ?thesis using that [of r2] r2(2) w3n by auto
  next
    case 4
    then have "parse_owner (Some (GET R k r2)) = Some u" using cur by (auto simp: parse_owner_def)
    then show ?thesis using that [of r4] r2(2) r4 4(1) by auto
  qed
qed

lemma acquire_lock_cell:
  assumes "nodes w \<noteq> []" "0 < ttl" "acquire_lock R s t u ttl w = (b, w')"
  defines "c \<equiv> lock_cell R s t (nodes w)" and "c' \<equiv> lock_cell R s t (nodes w')"
  shows "c \<noteq> None \<Longrightarrow> (c' = c \<or> c' = pexpire_entry ttl c) \<and> (b \<longrightarrow> cell_owner c = Some u)"
    and "c = None \<Longrightarrow> c' = None \<and> \<not> b \<or> c' = Some (str_entry (dec u) (Some ttl))"
    and "(s', t') \<noteq> (s, t) \<Longrightarrow> lock_cell R s' t' (nodes w') = lock_cell R s' t' (nodes w)"
    and "ctx_cell R s' t' v (nodes w') = ctx_cell R s' t' v (nodes w)"
    and "nodes w' \<noteq> []"
proof -
  let ?i = "node_of s t (length (nodes w))" and ?k = "seat_lock_key s t"
  let ?r = "nodes w ! ?i"
  have i: "?i < length (nodes w)" using assms(1) by simp
  obtain r' where n: "nodes w' = (nodes w)[?i := r']"
    and r': "look R ?r ?k = None \<and>
        r' \<in> {SETPX R ?k (dec u) ttl ?r, PEXPIRE R ?k ttl (SETPX R ?k (dec u) ttl ?r)}
      \<or> r' = ?r \<and> (b \<longrightarrow> parse_owner (Some (GET R ?k ?r)) = Some u)
      \<or> r' = PEXPIRE R ?k ttl ?r \<and> parse_owner (Some (GET R ?k ?r)) = Some u"
    using acquire_lock_node [OF assms(1,3)] by blast
  have c: "c = look R ?r ?k" "c' = look R r' ?k"
    using n i by (simp_all add: c_def c'_def lock_cell_def)
  have o: "parse_owner (Some (GET R ?k ?r)) = cell_owner c"
    by (simp add: c cell_owner_def GET_def)
  show "c \<noteq> None \<Longrightarrow> (c' = c \<or> c' = pexpire_entry ttl c) \<and> (b \<longrightarrow> cell_owner c = Some u)"
    using r' assms(2) unfolding o c by auto
  show "c = None \<Longrightarrow> c' = None \<and> \<not> b \<or> c' = Some (str_entry (dec u) (Some ttl))"
    using r' assms(2) unfolding o c by auto
  have frame: "look R r' (seat_lock_key s' t') = look R ?r (seat_lock_key s' t')"
    if "(s', t') \<noteq> (s, t)" for s' t' using r' that assms(2) by (auto simp: key_simps)
  have frame2: "look R r' (seat_user_context_key s' t' v) = look R ?r (seat_user_context_key s' t' v)"
    for s' t' v using r' assms(2) by (auto simp: key_simps)
  show "(s', t') \<noteq> (s, t) \<Longrightarrow> lock_cell R s' t' (nodes w') = lock_cell R s' t' (nodes w)"
    using frame [of s' t'] n i by (auto simp: lock_cell_def nth_list_update)
  show "ctx_cell R s' t' v (nodes w') = ctx_cell R s' t' v (nodes w)"
    using frame2 n i by (auto simp: ctx_cell_def nth_list_update)
  show "nodes w' \<noteq> []" using n assms(1) by simp
qed

subsection \<open>Scripts that drop a lock\<close>

lemma look_lua_drop:
  "look R (lua_drop R s t u m b r) (seat_lock_key s' t') =
     (if (s', t') = (s, t) then None else look R r (seat_lock_key s' t'))"
  "look R (lua_drop R s t u m b r) (seat_user_context_key s' t' v) =
     (if (s', t', v) = (s, t, u) then None else look R r (seat_user_context_key s' t' v))"
  by (auto simp: lua_drop_def Let_def key_simps)

lemma guarded_drop_scripts:
  "guarded_drop R s t u (lua_release R s t u m)"
  "guarded_drop R s t u (lua_release_expired R s t u m)"
  "guarded_drop R s t u (lua_book R s t u m)"
  by (auto simp: guarded_drop_def lua_release_def lua_release_expired_def lua_book_def
      Let_def look_lua_drop key_simps)

lemma guarded_drop_cell:
  assumes "nodes w \<noteq> []" "guarded_drop R s t u sc"
    and "run_script (node_of s t (length (nodes w))) sc w = (res, w')"
  defines "c \<equiv> lock_cell R s t (nodes w)" and "c' \<equiv> lock_cell R s t (nodes w')"
  shows "c' = c \<or> c' = None \<and> (str_of c = None \<or> str_of c = Some (dec u))"
    and "res = Some 1 \<Longrightarrow> c' = None \<and> (str_of c = None \<or> str_of c = Some (dec u))"
    and "(s', t') \<noteq> (s, t) \<Longrightarrow> lock_cell R s' t' (nodes w') = lock_cell R s' t' (nodes w)"
    and "(s', t', v) \<noteq> (s, t, u) \<Longrightarrow> ctx_cell R s' t' v (nodes w') = ctx_cell R s' t' v (nodes w)"
    and "nodes w' \<noteq> []"
    and "ctx_cell R s t u (nodes w') \<in> {None, ctx_cell R s t u (nodes w)}"
proof -
  let ?i = "node_of s t (length (nodes w))"
  have i: "?i < length (nodes w)" using assms(1) by simp
  let ?r = "nodes w ! ?i"
  let ?mine = "str_of c = None \<or> str_of c = Some (dec u)"
  have c: "GET R (seat_lock_key s t) ?r = str_of c" by (simp add: c_def lock_cell_def GET_def)
  have g: "fst (sc ?r) = Some 1 \<Longrightarrow> ?mine"
    "look R (snd (sc ?r)) (seat_lock_key s t) = (if ?mine then None else c)"
    "\<And>s' t'. (s', t') \<noteq> (s, t) \<Longrightarrow> look R (snd (sc ?r)) (seat_lock_key s' t') = look R ?r (seat_lock_key s' t')"
    "\<And>s' t' v. (s', t', v) \<noteq> (s, t, u) \<Longrightarrow>
       look R (snd (sc ?r)) (seat_user_context_key s' t' v) = look R ?r (seat_user_context_key s' t' v)"
    "look R (snd (sc ?r)) (seat_user_context_key s t u) \<in> {None, look R ?r (seat_user_context_key s t u)}"
    using assms(2) c unfolding guarded_drop_def Let_def by (auto simp: c_def lock_cell_def)
  show "c' = c \<or> c' = None \<and> ?mine"
    using assms(3) g(2) i
    by (auto simp: c_def c'_def lock_cell_update elim!: run_script_cases split: if_splits)
  show "res = Some 1 \<Longrightarrow> c' = None \<and> ?mine"
    using assms(3) g(1,2) i by (auto simp: c'_def lock_cell_update elim!: run_script_cases)
  show "(s', t') \<noteq> (s, t) \<Longrightarrow> lock_cell R s' t' (nodes w') = lock_cell R s' t' (nodes w)"
    using assms(3) g(3) [of s' t'] i
    by (auto simp: lock_cell_def nth_list_update elim!: run_script_cases)
  show "(s', t', v) \<noteq> (s, t, u) \<Longrightarrow> ctx_cell R s' t' v (nodes w') = ctx_cell R s' t' v (nodes w)"
    using assms(3) g(4) [of s' t' v] i
    by (auto simp: ctx_cell_def nth_list_update elim!: run_script_cases)
  show "nodes w' \<noteq> []"
    using assms(1,3) by (auto elim!: run_script_cases)
  show "ctx_cell R s t u (nodes w') \<in> {None, ctx_cell R s t u (nodes w)}"
    using assms(3) g(5) i by (auto simp: ctx_cell_def elim!: run_script_cases)
qed

subsection \<open>The operations keep the contract\<close>

lemma sn_okI:
  assumes "sn_ok R w" "nodes w' \<noteq> []"
    and "\<And>s' t'. (s', t') \<noteq> (s, t) \<Longrightarrow> lock_cell R s' t' (nodes w') = lock_cell R s' t' (nodes w)"
    and "lock_value_ok (lock_cell R s t (nodes w'))"
  shows "sn_ok R w'"
  unfolding sn_ok_def
proof (intro conjI allI)
  fix s' t'
  show "lock_value_ok (lock_cell R s' t' (nodes w'))"
  proof (cases "(s', t') = (s, t)")
    case False
    with assms show ?thesis by (simp add: sn_ok_def)
  qed (use assms(4) in simp)
qed (fact assms(2))

text \<open>
  Release, booking and expiry share one shape: a guarded script, then the replicated removal under
  some condition on its answer.
\<close>

lemma drop_op_cell:
  assumes "nodes w \<noteq> []" "guarded_drop R s t u sc"
    and "with_pool (pool_for_seat w s t) False
      (\<lambda>i w1. case run_script i sc w1 of (res, w2) \<Rightarrow>
        if P res then (res = Some 1, replicate_drop R s t u m bits w2) else (False, w2)) w = (b, w')"
  defines "c \<equiv> lock_cell R s t (nodes w)" and "c' \<equiv> lock_cell R s t (nodes w')"
  shows "c' = c \<or> c' = None \<and> (str_of c = None \<or> str_of c = Some (dec u))"
    and "b \<Longrightarrow> c' = None \<and> (str_of c = None \<or> str_of c = Some (dec u))"
    and "(s', t') \<noteq> (s, t) \<Longrightarrow> lock_cell R s' t' (nodes w') = lock_cell R s' t' (nodes w)"
    and "(s', t', v) \<noteq> (s, t, u) \<Longrightarrow> ctx_cell R s' t' v (nodes w') = ctx_cell R s' t' v (nodes w)"
    and "nodes w' \<noteq> []"
    and "ctx_cell R s t u (nodes w') \<in> {None, ctx_cell R s t u (nodes w)}"
proof -
  let ?i = "node_of s t (length (nodes w))"
  obtain ok w1 where w1: "pool_get w = (ok, w1)" by (cases "pool_get w")
  have n1: "nodes w1 = nodes w" using pool_getD [OF w1] .
  obtain res w2 where w2: "run_script ?i sc w1 = (res, w2)" by (cases "run_script ?i sc w1")
  have res: "(b, w') = (if ok then if P res then (res = Some 1, replicate_drop R s t u m bits w2)
      else (False, w2) else (False, w1))"
    using assms(1,3) by (simp add: with_pool_def pool_for_seat_def w1 w2 cong del: if_weak_cong)
  note d = guarded_drop_cell [of w1, unfolded n1, OF assms(1,2) w2]
  note same = same_locksD [OF replicate_drop_same_locks [of w2 s t u m bits] d(5)]
  show "c' = c \<or> c' = None \<and> (str_of c = None \<or> str_of c = Some (dec u))"
    using res d(1) same(1) n1 by (auto simp: c_def c'_def split: if_splits)
  show "b \<Longrightarrow> c' = None \<and> (str_of c = None \<or> str_of c = Some (dec u))"
    using res d(2) same(1) by (auto simp: c_def c'_def split: if_splits)
  show "(s', t') \<noteq> (s, t) \<Longrightarrow> lock_cell R s' t' (nodes w') = lock_cell R s' t' (nodes w)"
    using res d(3) same(1) n1 by (auto split: if_splits)
  show "(s', t', v) \<noteq> (s, t, u) \<Longrightarrow> ctx_cell R s' t' v (nodes w') = ctx_cell R s' t' v (nodes w)"
    using res d(4) same(2) n1 by (auto split: if_splits)
  show "nodes w' \<noteq> []" using res d(5) same(3) n1 assms(1) by (auto split: if_splits)
  show "ctx_cell R s t u (nodes w') \<in> {None, ctx_cell R s t u (nodes w)}"
    using res d(6) same(2) n1 by (auto split: if_splits)
qed

lemma drop_op_shapes:
  "release_lock R J s t u w = with_pool (pool_for_seat w s t) False
     (\<lambda>i w1. case run_script i (lua_release R s t u (enc_entry J (mk_entry t s u))) w1 of (res, w2) \<Rightarrow>
        if res = Some 1 then (res = Some 1, replicate_drop R s t u (enc_entry J (mk_entry t s u)) 0 w2)
        else (False, w2)) w"
  "book_seat_lua R J s t u w = with_pool (pool_for_seat w s t) False
     (\<lambda>i w1. case run_script i (lua_book R s t u (enc_entry J (mk_entry t s u))) w1 of (res, w2) \<Rightarrow>
        if res = Some 1 then (res = Some 1, replicate_drop R s t u (enc_entry J (mk_entry t s u)) 2 w2)
        else (False, w2)) w"
  "release_expired_lock_lua R s t u m w = with_pool (pool_for_seat w s t) False
     (\<lambda>i w1. case run_script i (lua_release_expired R s t u m) w1 of (res, w2) \<Rightarrow>
        if True then (res = Some 1, replicate_drop R s t u m 0 w2) else (False, w2)) w"
  by (auto simp: release_lock_def book_seat_lua_def release_expired_lock_lua_def Let_def with_pool_def
      split: option.split prod.split)

lemmas release_lock_cell =
  drop_op_cell [OF _ guarded_drop_scripts(1) trans [OF drop_op_shapes(1) [symmetric]]]
lemmas book_seat_lua_cell =
  drop_op_cell [OF _ guarded_drop_scripts(3) trans [OF drop_op_shapes(2) [symmetric]]]
lemmas release_expired_cell =
  drop_op_cell [OF _ guarded_drop_scripts(2) trans [OF drop_op_shapes(3) [symmetric]]]

text \<open>The holder and the invariant after an acquire or a release, in the terms of the contract.\<close>

lemma acquire_lock_ok:
  assumes "sn_ok R w" "in_i32 u" "0 < ttl" "acquire_lock R s t u ttl w = (b, w')"
  shows "sn_ok R w'"
proof -
  have n: "nodes w \<noteq> []" and v: "lock_value_ok (lock_cell R s t (nodes w))"
    using assms(1) by (simp_all add: sn_ok_def)
  note a = acquire_lock_cell [OF n assms(3,4)]
  show ?thesis
  proof (rule sn_okI [OF assms(1) a(5) a(3)])
    show "lock_value_ok (lock_cell R s t (nodes w'))"
      using a(1,2) v assms(2) by (cases "lock_cell R s t (nodes w) = None") auto
  qed
qed

lemma acquire_lock_holder:
  assumes "sn_ok R w" "in_i32 u" "0 < ttl" "acquire_lock R s t u ttl w = (b, w')"
  shows "b \<Longrightarrow> sn_holder R s t w' = Some u"
    and "sn_holder R s t w = Some v \<Longrightarrow> sn_holder R s t w' = Some v"
    and "sn_holder R s t w = Some v \<Longrightarrow> b \<Longrightarrow> u = v"
    and "(s', t') \<noteq> (s, t) \<Longrightarrow> sn_holder R s' t' w' = sn_holder R s' t' w"
proof -
  have n: "nodes w \<noteq> []" and v: "lock_value_ok (lock_cell R s t (nodes w))"
    using assms(1) by (simp_all add: sn_ok_def)
  note a = acquire_lock_cell [OF n assms(3,4)]
  show "b \<Longrightarrow> sn_holder R s t w' = Some u"
    using a(1,2) assms(2) by (cases "lock_cell R s t (nodes w) = None") (auto simp: sn_holder_def)
  show "sn_holder R s t w = Some v \<Longrightarrow> sn_holder R s t w' = Some v"
    using a(1) by (cases "lock_cell R s t (nodes w) = None") (auto simp: sn_holder_def)
  show "sn_holder R s t w = Some v \<Longrightarrow> b \<Longrightarrow> u = v"
    using a(1) by (cases "lock_cell R s t (nodes w) = None") (auto simp: sn_holder_def)
  show "(s', t') \<noteq> (s, t) \<Longrightarrow> sn_holder R s' t' w' = sn_holder R s' t' w"
    using a(3) by (simp add: sn_holder_def)
qed

lemma release_lock_ok:
  assumes "sn_ok R w" "release_lock R J s t u w = (b, w')"
  shows "sn_ok R w'"
proof -
  have n: "nodes w \<noteq> []" and v: "lock_value_ok (lock_cell R s t (nodes w))"
    using assms(1) by (simp_all add: sn_ok_def)
  note r = release_lock_cell [OF n assms(2)]
  show ?thesis by (rule sn_okI [OF assms(1) r(5) r(3)]) (use r(1) v in auto)
qed

lemma release_lock_holder:
  assumes "sn_ok R w" "release_lock R J s t u w = (b, w')"
  shows "sn_holder R s t w = Some v \<Longrightarrow> v \<noteq> u \<Longrightarrow> \<not> b \<and> sn_holder R s t w' = Some v"
    and "b \<Longrightarrow> sn_holder R s t w' = None"
    and "(s', t') \<noteq> (s, t) \<Longrightarrow> sn_holder R s' t' w' = sn_holder R s' t' w"
proof -
  have n: "nodes w \<noteq> []" and v: "lock_value_ok (lock_cell R s t (nodes w))"
    using assms(1) by (simp_all add: sn_ok_def)
  note r = release_lock_cell [OF n assms(2)]
  show "sn_holder R s t w = Some v \<Longrightarrow> v \<noteq> u \<Longrightarrow> \<not> b \<and> sn_holder R s t w' = Some v"
    using r(1,2) lock_value_ok_owner [OF v, of u] v by (auto simp: sn_holder_def lock_value_ok_def)
  show "b \<Longrightarrow> sn_holder R s t w' = None"
    using r(2) by (simp add: sn_holder_def)
  show "(s', t') \<noteq> (s, t) \<Longrightarrow> sn_holder R s' t' w' = sn_holder R s' t' w"
    using r(3) by (simp add: sn_holder_def)
qed

end

text \<open>
  The gateway acquires with a lease of 300 seconds. On any server that meets the documented
  behaviour, \<open>SingleNodeLock\<close> meets the contract of the trait.
\<close>

sublocale redis_service \<subseteq> sn: seat_lock
  "\<lambda>s t u. acquire_distributed_lock R s t u 300" "release_lock R J" "sn_holder R" "sn_ok R"
  for J :: codec
proof unfold_locales
  have ttl: "as_u64 300 * 1000 mod 2 ^ 64 = (300000 :: int)" "(0::int) < 300000" by simp_all
  note acq = acquire_distributed_lock_def ttl(1)
  fix w w' :: "('r, 'p) world" and u v s t s' t' b
  assume w: "sn_ok R w" "in_i32 u"
  show "acquire_distributed_lock R s t u 300 w = (b, w') \<Longrightarrow> sn_ok R w'"
    using acquire_lock_ok [OF w ttl(2)] unfolding acq .
  show "acquire_distributed_lock R s t u 300 w = (True, w') \<Longrightarrow> sn_holder R s t w' = Some u"
    using acquire_lock_holder(1) [OF w ttl(2)] unfolding acq by blast
  show "sn_holder R s t w = Some v \<Longrightarrow> acquire_distributed_lock R s t u 300 w = (b, w') \<Longrightarrow>
      sn_holder R s t w' = Some v"
    using acquire_lock_holder(2) [OF w ttl(2)] unfolding acq by blast
  show "sn_holder R s t w = Some v \<Longrightarrow> v \<noteq> u \<Longrightarrow> acquire_distributed_lock R s t u 300 w = (b, w') \<Longrightarrow> \<not> b"
    using acquire_lock_holder(3) [OF w ttl(2)] unfolding acq by blast
  show "acquire_distributed_lock R s t u 300 w = (b, w') \<Longrightarrow> (s', t') \<noteq> (s, t) \<Longrightarrow>
      sn_holder R s' t' w' = sn_holder R s' t' w"
    using acquire_lock_holder(4) [OF w ttl(2)] unfolding acq by blast
  show "release_lock R J s t u w = (b, w') \<Longrightarrow> sn_ok R w'"
    using release_lock_ok [OF w(1)] .
  show "sn_holder R s t w = Some v \<Longrightarrow> v \<noteq> u \<Longrightarrow> release_lock R J s t u w = (b, w') \<Longrightarrow>
      \<not> b \<and> sn_holder R s t w' = Some v"
    using release_lock_holder(1) [OF w(1)] by blast
  show "release_lock R J s t u w = (b, w') \<Longrightarrow> (s', t') \<noteq> (s, t) \<Longrightarrow>
      sn_holder R s' t' w' = sn_holder R s' t' w"
    using release_lock_holder(3) [OF w(1)] by blast
qed

section \<open>Operations that never touch a lock\<close>

definition no_ctx :: "'r redis \<Rightarrow> ('r, 'p) world \<Rightarrow> bool" where
  "no_ctx R w \<longleftrightarrow> nodes w \<noteq> [] \<and> (\<forall>s t u. ctx_cell R s t u (nodes w) = None)"

definition elapse :: "'r redis \<Rightarrow> int \<Rightarrow> ('r, 'p) world \<Rightarrow> ('r, 'p) world" where
  "elapse R d w = w\<lparr>nodes := map (TICK R d) (nodes w)\<rparr>"

lemma tick_str_entry [simp]:
  "tick_entry d None = None"
  "tick_entry d (Some (str_entry v (Some ttl))) =
     (if d < ttl then Some (str_entry v (Some (ttl - d))) else None)"
  by (simp_all add: tick_entry_def str_entry_def)

context redis_service
begin

lemma metadata_seat_same_locks:
  assumes "metadata_seat R J s u x t w = (b, w')"
  shows "same_locks R (nodes w) (nodes w')"
proof -
  obtain ok w1 where w1: "pool_get w = (ok, w1)" by (cases "pool_get w")
  let ?i = "node_of s t (length (nodes w))"
  obtain res w2 where w2: "send ?i (writing (metadata_pipe R J s u x t)) w1 = (res, w2)"
    by (cases "send ?i (writing (metadata_pipe R J s u x t)) w1")
  have "same_locks R (nodes w) (nodes w2)"
    by (rule send_pres [OF w2])
      (simp_all add: writing_def pool_getD [OF w1] same_locks_update metadata_pipe_lock_safe)
  then show ?thesis
    using assms pool_getD [OF w1]
    by (auto simp: metadata_seat_def with_pool_def pool_for_seat_def w1 w2 split: if_splits)
qed

lemma metadata_loop_same_locks:
  "metadata_loop R J s u x ts b w = (b', w') \<Longrightarrow> same_locks R (nodes w) (nodes w')"
proof (induction ts arbitrary: b w)
  case Nil
  then show ?case by simp
next
  case (Cons t ts)
  obtain ok w1 where w1: "metadata_seat R J s u x t w = (ok, w1)"
    by (cases "metadata_seat R J s u x t w")
  with Cons show ?case by (auto intro: same_locks_trans [OF metadata_seat_same_locks [OF w1]])
qed

lemma update_seat_metadata_same_locks:
  "update_seat_metadata_lua R J now s ts u x w = (b, w') \<Longrightarrow> same_locks R (nodes w) (nodes w')"
  unfolding update_seat_metadata_lua_def by (rule metadata_loop_same_locks)

lemma force_book_cell:
  assumes "nodes w \<noteq> []" "force_book_seat_lua R s t u m w = w'"
  shows "lock_cell R s t (nodes w') = lock_cell R s t (nodes w) \<or>
      lock_cell R s t (nodes w') = None \<and>
        str_of (lock_cell R s t (nodes w)) \<in> {None, Some (dec u)}"
    and "(s', t') \<noteq> (s, t) \<Longrightarrow> lock_cell R s' t' (nodes w') = lock_cell R s' t' (nodes w)"
    and "ctx_cell R s' t' v (nodes w') \<in> {None, ctx_cell R s' t' v (nodes w)}"
    and "nodes w' \<noteq> []"
proof -
  let ?i = "node_of s t (length (nodes w))" and ?sc = "lua_force_book R s t u m"
  let ?r = "nodes w ! ?i"
  have i: "?i < length (nodes w)" using assms(1) by simp
  obtain ok w1 where w1: "pool_get w = (ok, w1)" by (cases "pool_get w")
  obtain res w2 where w2: "run_script ?i ?sc w1 = (res, w2)" by (cases "run_script ?i ?sc w1")
  have n2: "nodes w2 = nodes w \<or> nodes w2 = (nodes w)[?i := snd (?sc ?r)]"
    using w2 pool_getD [OF w1] by (auto elim: run_script_cases)
  then have "nodes w2 \<noteq> []" using assms(1) by auto
  note same = same_locksD [OF replicate_drop_same_locks [of w2 s t u m 2] this]
  have w': "w' = (if ok then replicate_drop R s t u m 2 w2 else w1)"
    using assms by (simp add: force_book_seat_lua_def with_pool_def pool_for_seat_def w1 w2 split: if_splits)
  have own: "GET R (seat_lock_key s t) ?r = str_of (lock_cell R s t (nodes w))"
    by (simp add: GET_def lock_cell_def)
  have look: "look R (snd (?sc ?r)) (seat_lock_key s t) = look R ?r (seat_lock_key s t) \<or>
      look R (snd (?sc ?r)) (seat_lock_key s t) = None \<and>
        str_of (lock_cell R s t (nodes w)) \<in> {None, Some (dec u)}"
    "\<And>s' t'. (s', t') \<noteq> (s, t) \<Longrightarrow> look R (snd (?sc ?r)) (seat_lock_key s' t') = look R ?r (seat_lock_key s' t')"
    "\<And>s' t' v. look R (snd (?sc ?r)) (seat_user_context_key s' t' v) \<in>
       {None, look R ?r (seat_user_context_key s' t' v)}"
    by (auto simp: lua_force_book_def Let_def own key_simps)
  have "lock_cell R s t (nodes w2) = lock_cell R s t (nodes w) \<or>
      lock_cell R s t (nodes w2) = None \<and> str_of (lock_cell R s t (nodes w)) \<in> {None, Some (dec u)}"
    using look(1) n2 i by (auto simp: lock_cell_def)
  then show "lock_cell R s t (nodes w') = lock_cell R s t (nodes w) \<or>
      lock_cell R s t (nodes w') = None \<and> str_of (lock_cell R s t (nodes w)) \<in> {None, Some (dec u)}"
    using pool_getD [OF w1] by (auto simp: w' same(1))
  have "lock_cell R s' t' (nodes w2) = lock_cell R s' t' (nodes w)" if "(s', t') \<noteq> (s, t)"
    using look(2) [OF that] n2 i by (auto simp: lock_cell_def nth_list_update)
  then show "(s', t') \<noteq> (s, t) \<Longrightarrow> lock_cell R s' t' (nodes w') = lock_cell R s' t' (nodes w)"
    using pool_getD [OF w1] by (auto simp: w' same(1))
  have "ctx_cell R s' t' v (nodes w2) \<in> {None, ctx_cell R s' t' v (nodes w)}"
    using look(3) [of s' t' v] n2 i by (auto simp: ctx_cell_def nth_list_update)
  then show "ctx_cell R s' t' v (nodes w') \<in> {None, ctx_cell R s' t' v (nodes w)}"
    using pool_getD [OF w1] by (auto simp: w' same(2))
  show "nodes w' \<noteq> []" using w' same(3) pool_getD [OF w1] assms(1) by auto
qed

text \<open>Without a context key nobody holds a lock, as far as \<open>user_holds_lock\<close> can tell.\<close>

lemma user_holds_lock_ctx:
  assumes "nodes w \<noteq> []" "user_holds_lock R s t u w = (True, w')"
  shows "ctx_cell R s t u (nodes w) \<noteq> None"
proof -
  let ?i = "node_of s t (length (nodes w))"
  obtain ok w1 where w1: "pool_get w = (ok, w1)" by (cases "pool_get w")
  obtain ex w2 where w2: "send ?i (reading (EXISTS R (seat_user_context_key s t u))) w1 = (ex, w2)"
    by (cases "send ?i (reading (EXISTS R (seat_user_context_key s t u))) w1")
  have "ex = Some True"
    using assms by (auto simp: user_holds_lock_def with_pool_def pool_for_seat_def w1 w2 split: if_splits)
  with send_reading(2) [OF w2] pool_getD [OF w1] show ?thesis
    by (simp add: EXISTS_def ctx_cell_def)
qed

end

end
