(* ===== verification/Single_Node_Props.thy ===== *)
theory Single_Node_Props
  imports Single_Node_Lock
begin

text \<open>
  What \<open>SingleNodeLock\<close> guarantees to the services. Runs of the operations the services really
  call are a step relation \<open>service_step\<close>, labelled with the acting user; its invariants hold on
  every run, under every fault schedule. The second half states what each operation achieves when
  every exchange is delivered: leases, their renewal and expiry, the two keys of an atomic acquire,
  and the replicated seat bitmap.
\<close>

section \<open>Steps of the services\<close>

text \<open>
  The calls found in the services: the gateway acquires with \<open>acquire_distributed_lock\<close> and releases,
  the lock server updates the metadata and expires or force-books entries of the queue, the websocket
  server books. Leases run down by \<open>Elapsed\<close>, which has no acting user.
\<close>

inductive service_step ::
    "'r redis \<Rightarrow> codec \<Rightarrow> user_id option \<Rightarrow> ('r, 'p) world \<Rightarrow> ('r, 'p) world \<Rightarrow> bool" for R J where
  Acquired: "in_i32 u \<Longrightarrow> acquire_distributed_lock R s t u 300 w = (b, w') \<Longrightarrow>
     service_step R J (Some u) w w'"
| Recorded: "update_seat_metadata_lua R J now s ts u x w = (b, w') \<Longrightarrow>
     service_step R J (Some u) w w'"
| Released: "release_lock R J s t u w = (b, w') \<Longrightarrow> service_step R J (Some u) w w'"
| Expired: "release_expired_lock_lua R s t u m w = (b, w') \<Longrightarrow> service_step R J (Some u) w w'"
| Booked: "book_seat_lua R J s t u w = (b, w') \<Longrightarrow> service_step R J (Some u) w w'"
| Forced: "force_book_seat_lua R s t u m w = w' \<Longrightarrow> service_step R J (Some u) w w'"
| Elapsed: "0 \<le> d \<Longrightarrow> service_step R J None w (elapse R d w)"

inductive service_run ::
    "'r redis \<Rightarrow> codec \<Rightarrow> user_id option set \<Rightarrow> ('r, 'p) world \<Rightarrow> ('r, 'p) world \<Rightarrow> bool" for R J A where
  run_refl: "service_run R J A w w"
| run_step: "service_run R J A w w1 \<Longrightarrow> service_step R J a w1 w2 \<Longrightarrow> a \<in> A \<Longrightarrow> service_run R J A w w2"

lemma lock_value_ok_tick: "lock_value_ok e \<Longrightarrow> lock_value_ok (tick_entry d e)"
  by (auto simp: lock_value_ok_def tick_entry_def str_entry_def split: option.splits)

text \<open>How a step of \<open>a\<close> may change the entry of a lock key.\<close>

definition cell_step :: "user_id option \<Rightarrow> rentry option \<Rightarrow> rentry option \<Rightarrow> bool" where
  "cell_step a c c' \<longleftrightarrow> c' = c \<or>
     (case a of
        Some u \<Rightarrow>
          c' = None \<and> str_of c \<in> {None, Some (dec u)} \<or>
          c = None \<and> in_i32 u \<and> c' = Some (str_entry (dec u) (Some 300000)) \<or>
          c' = pexpire_entry 300000 c
      | None \<Rightarrow> \<exists>d. c' = tick_entry d c)"

lemma cell_step_ok: "cell_step a c c' \<Longrightarrow> lock_value_ok c \<Longrightarrow> lock_value_ok c'"
  by (auto simp: cell_step_def lock_value_ok_tick split: option.splits)

lemma cell_step_owner:
  assumes "cell_step (Some u) c c'" "lock_value_ok c" "cell_owner c = Some v" "v \<noteq> u"
  shows "cell_owner c' = Some v"
  using assms lock_value_ok_owner [OF assms(2), of u] by (auto simp: cell_step_def lock_value_ok_def)

context redis_service
begin

lemma elapse_cells:
  assumes "nodes w \<noteq> []" "0 \<le> d"
  shows "lock_cell R s t (nodes (elapse R d w)) = tick_entry d (lock_cell R s t (nodes w))"
    and "ctx_cell R s t u (nodes (elapse R d w)) = tick_entry d (ctx_cell R s t u (nodes w))"
  using assms by (simp_all add: elapse_def lock_cell_def ctx_cell_def)

lemma service_step_cell:
  assumes step: "service_step R J a w w'" and n: "nodes w \<noteq> []"
  shows "cell_step a (lock_cell R s t (nodes w)) (lock_cell R s t (nodes w')) \<and> nodes w' \<noteq> [] \<and>
    (ctx_cell R s t v (nodes w) = None \<longrightarrow> ctx_cell R s t v (nodes w') = None)"
  using step
proof (cases rule: service_step.cases)
  case (Acquired u s' t' b)
  then have "acquire_lock R s' t' u 300000 w = (b, w')" by (simp add: acquire_distributed_lock_def)
  note a = acquire_lock_cell [OF n _ this, simplified]
  show ?thesis
    using a(1,2) a(3) [of s t] a(4,5) Acquired(1,2)
    by (cases "(s, t) = (s', t')"; cases "lock_cell R s t (nodes w) = None") (auto simp: cell_step_def)
next
  case (Recorded u now s' ts x b)
  from same_locksD [OF update_seat_metadata_same_locks [OF Recorded(2)] n]
  show ?thesis by (simp add: cell_step_def)
next
  case (Released s' t' u b)
  note r = release_lock_cell [OF n Released(2)]
  show ?thesis using r(1) r(3) [of s t] r(4) [of s t v] r(5,6) Released(1)
    by (cases "(s, t) = (s', t')"; cases "u = v") (auto simp: cell_step_def)
next
  case (Expired s' t' u m b)
  note r = release_expired_cell [OF n Expired(2)]
  show ?thesis using r(1) r(3) [of s t] r(4) [of s t v] r(5,6) Expired(1)
    by (cases "(s, t) = (s', t')"; cases "u = v") (auto simp: cell_step_def)
next
  case (Booked s' t' u b)
  note r = book_seat_lua_cell [OF n Booked(2)]
  show ?thesis using r(1) r(3) [of s t] r(4) [of s t v] r(5,6) Booked(1)
    by (cases "(s, t) = (s', t')"; cases "u = v") (auto simp: cell_step_def)
next
  case (Forced s' t' u m)
  note r = force_book_cell [OF n Forced(2)]
  show ?thesis using r(1) r(2) [of s t] r(3) [of s t v] r(4) Forced(1)
    by (cases "(s, t) = (s', t')") (auto simp: cell_step_def)
next
  case (Elapsed d)
  then show ?thesis
    using elapse_cells [OF n] n by (auto simp: cell_step_def elapse_def)
qed

lemma service_step_ok:
  assumes "service_step R J a w w'" "sn_ok R w"
  shows "sn_ok R w'"
proof -
  have n: "nodes w \<noteq> []" using assms(2) by (simp add: sn_ok_def)
  from service_step_cell [OF assms(1) n] assms(2) show ?thesis
    unfolding sn_ok_def by (blast intro: cell_step_ok)
qed

lemma service_run_ok: "service_run R J A w w' \<Longrightarrow> sn_ok R w \<Longrightarrow> sn_ok R w'"
  by (induction rule: service_run.induct) (auto intro: service_step_ok)

lemma service_run_no_ctx: "service_run R J A w w' \<Longrightarrow> no_ctx R w \<Longrightarrow> no_ctx R w'"
proof (induction rule: service_run.induct)
  case (run_step w w1 a w2)
  then have "no_ctx R w1" by blast
  with service_step_cell [OF run_step(2)] show ?case by (auto simp: no_ctx_def)
qed simp

lemma service_run_keeps_holder:
  assumes "service_run R J A w w'" "sn_ok R w" "sn_holder R s t w = Some v" "None \<notin> A" "Some v \<notin> A"
  shows "sn_holder R s t w' = Some v"
  using assms
proof (induction rule: service_run.induct)
  case (run_step w w1 a w2)
  have ok: "sn_ok R w1" using service_run_ok [OF run_step(1)] run_step.prems by blast
  obtain u where u: "a = Some u" "u \<noteq> v" using run_step.hyps(3) run_step.prems by (cases a) auto
  have "nodes w1 \<noteq> []" "lock_value_ok (lock_cell R s t (nodes w1))" using ok by (auto simp: sn_ok_def)
  with service_step_cell [OF run_step.hyps(2), of s t] u run_step.IH run_step.prems
  show ?case unfolding sn_holder_def by (blast intro: cell_step_owner)
qed simp

text \<open>When every exchange is delivered, a free seat and a renewal are always granted.\<close>

lemma acquire_delivered:
  assumes "faults w = []" "sn_ok R w" "in_i32 u" "sn_holder R s t w \<in> {None, Some u}"
  obtains w' where "acquire_distributed_lock R s t u 300 w = (True, w')"
    and "lock_cell R s t (nodes w') = Some (str_entry (dec u) (Some 300000))"
    and "nodes w' \<noteq> []" and "faults w' = []"
proof -
  let ?i = "node_of s t (length (nodes w))"
  have n: "nodes w \<noteq> []" and v: "lock_value_ok (lock_cell R s t (nodes w))"
    using assms(2) by (simp_all add: sn_ok_def)
  have i: "?i < length (nodes w)" using n by simp
  have c: "look R (nodes w ! ?i) (seat_lock_key s t) = lock_cell R s t (nodes w)"
    by (simp add: lock_cell_def)
  consider "lock_cell R s t (nodes w) = None"
    | ttl where "lock_cell R s t (nodes w) = Some (str_entry (dec u) ttl)"
    using v assms(4) by (auto simp: lock_value_ok_def sn_holder_def)
  then show thesis
  proof cases
    case 1
    with n i c assms(1) show ?thesis
      using that [of "w\<lparr>nodes := (nodes w)[?i := SETPX R (seat_lock_key s t) (dec u) 300000 (nodes w ! ?i)]\<rparr>"]
      by (simp add: acquire_distributed_lock_def acquire_lock_def with_pool_def pool_for_seat_def
          SETNXPX_def EXISTS_def lock_cell_update)
  next
    case 2
    with n i c assms(1,3) show ?thesis
      using that [of "w\<lparr>nodes := (nodes w)[?i := PEXPIRE R (seat_lock_key s t) 300000 (nodes w ! ?i)]\<rparr>"]
      by (simp add: acquire_distributed_lock_def acquire_lock_def with_pool_def pool_for_seat_def
          SETNXPX_def EXISTS_def GET_def reading_def writing_def parse_owner_def lock_cell_update)
  qed
qed

lemma lease_lasts:
  assumes "faults w = []" "sn_ok R w" "in_i32 u" "sn_holder R s t w \<in> {None, Some u}" "0 \<le> d"
  shows "\<exists>w'. acquire_distributed_lock R s t u 300 w = (True, w') \<and>
    sn_holder R s t (elapse R d w') = (if d < 300000 then Some u else None)"
proof -
  obtain w' where "acquire_distributed_lock R s t u 300 w = (True, w')"
    and "lock_cell R s t (nodes w') = Some (str_entry (dec u) (Some 300000))" "nodes w' \<noteq> []"
    using acquire_delivered [OF assms(1-4)] by blast
  with elapse_cells(1) [of w' d s t] assms(3,5) show ?thesis by (auto simp: sn_holder_def)
qed

text \<open>The atomic script of the trait sets both keys with the same lease.\<close>

lemma lua_acquire_cells:
  assumes "str_of (look R r (seat_lock_key s t)) \<in> {None, Some (dec u)}" "0 < ttl" "bit_offset t < 2 ^ 32"
  shows "fst (lua_acquire R J s t u ttl x y r) = Some 1"
    and "look R (snd (lua_acquire R J s t u ttl x y r)) (seat_lock_key s t) = Some (str_entry (dec u) (Some ttl))"
    and "look R (snd (lua_acquire R J s t u ttl x y r)) (seat_user_context_key s t u) =
      Some (str_entry ''1'' (Some ttl))"
  using assms by (auto simp: lua_acquire_def Let_def GET_def bit_reply_def key_simps)

lemma acquire_seat_lock_lua_delivered:
  assumes "faults w = []" "sn_ok R w" "in_i32 u" "sn_holder R s t w \<in> {None, Some u}"
    and "in_i32 t" "0 \<le> t" "in_i32 x" "0 < x"
  obtains w' where "acquire_seat_lock_lua R J now s t u x w = (True, w')"
    and "lock_cell R s t (nodes w') = Some (str_entry (dec u) (Some (x * 1000)))"
    and "ctx_cell R s t u (nodes w') = Some (str_entry ''1'' (Some (x * 1000)))"
    and "nodes w' \<noteq> []"
proof -
  let ?i = "node_of s t (length (nodes w))" and ?ttl = "x * 1000"
  let ?sc = "lua_acquire R J s t u ?ttl (now + x) (now + x + 15)"
  let ?w1 = "w\<lparr>nodes := (nodes w)[?i := snd (?sc (nodes w ! ?i))]\<rparr>"
  have n: "nodes w \<noteq> []" and v: "lock_value_ok (lock_cell R s t (nodes w))"
    using assms(2) by (simp_all add: sn_ok_def)
  have i: "?i < length (nodes w)" using n by simp
  have ttl: "as_u64 x * 1000 mod 2 ^ 64 = ?ttl" "0 < ?ttl"
    using assms(7,8) by (simp_all add: in_i32_def)
  have off: "bit_offset t < 2 ^ 32"
    using assms(5,6) by (simp add: bit_offset_nonneg) (simp add: in_i32_def)
  have own: "str_of (look R (nodes w ! ?i) (seat_lock_key s t)) \<in> {None, Some (dec u)}"
    using v assms(4) by (auto simp: lock_value_ok_def sn_holder_def lock_cell_def)
  note sc = lua_acquire_cells [OF own ttl(2) off, of J "now + x" "now + x + 15"]
  have eq: "acquire_seat_lock_lua R J now s t u x w = (True, replicate_lock R J s t u (now + x) ?w1)"
    using n assms(1) sc(1) unfolding acquire_seat_lock_lua_def Let_def ttl(1)
    by (simp add: with_pool_def pool_for_seat_def run_script_def)
  have "nodes ?w1 \<noteq> []" using n by simp
  note same = same_locksD [OF replicate_lock_same_locks this]
  show thesis
    using that [OF eq] same sc(2,3) i by (simp add: lock_cell_def ctx_cell_def)
qed

lemma readers_delivered:
  assumes "faults w = []" "nodes w \<noteq> []"
  shows "fst (user_holds_lock R s t u w) \<longleftrightarrow> ctx_cell R s t u (nodes w) \<noteq> None"
    and "fst (get_lock_owner R s t w) = sn_holder R s t w"
  using assms
  by (simp_all add: user_holds_lock_def get_lock_owner_def with_pool_def pool_for_seat_def reading_def
      EXISTS_def GET_def ctx_cell_def sn_holder_def cell_owner_def lock_cell_def)

end

section \<open>The replicated seat bitmap\<close>

definition bits_typed :: "rentry option \<Rightarrow> bool" where
  "bits_typed e \<longleftrightarrow> (case e of None \<Rightarrow> True | Some en \<Rightarrow> (case rvalue en of RBits _ \<Rightarrow> True | _ \<Rightarrow> False))"

definition seat_bits :: "'r redis \<Rightarrow> schedule_id \<Rightarrow> seat_id \<Rightarrow> 'r \<Rightarrow> 8 word" where
  "seat_bits R s t r = bf_get (bit_offset t) (GETBITS R (schedule_seat_bitmap s) r)"

definition bitmaps_ok :: "'r redis \<Rightarrow> schedule_id \<Rightarrow> ('r, 'p) world \<Rightarrow> bool" where
  "bitmaps_ok R s w \<longleftrightarrow> (\<forall>r \<in> set (nodes w). bits_typed (look R r (schedule_seat_bitmap s)))"

lemma bits_of_bits_entry:
  "off < 2 ^ 32 \<Longrightarrow> bits_typed e \<Longrightarrow> bits_of (bits_entry off v e) = bf_set off v (bits_of e)"
  by (auto simp: bits_of_def bits_entry_def bits_typed_def split: option.splits rval.splits)

lemma bit_offset_small: "in_i32 t \<Longrightarrow> 0 \<le> t \<Longrightarrow> bit_offset t < 2 ^ 32"
  by (simp add: bit_offset_nonneg) (simp add: in_i32_def)

lemma bit_offset_inject:
  "in_i32 t \<Longrightarrow> 0 \<le> t \<Longrightarrow> in_i32 t' \<Longrightarrow> 0 \<le> t' \<Longrightarrow> bit_offset t = bit_offset t' \<longleftrightarrow> t = t'"
  by (simp add: bit_offset_nonneg eq_nat_nat_iff)

context redis_service
begin

lemma seat_bits_BITSET:
  assumes "bits_typed (look R r (schedule_seat_bitmap s))" "in_i32 t" "0 \<le> t"
  shows "seat_bits R s t (BITSET R (schedule_seat_bitmap s) (bit_offset t) v r) = v AND 3"
    and "in_i32 t' \<Longrightarrow> 0 \<le> t' \<Longrightarrow> t' \<noteq> t \<Longrightarrow>
      seat_bits R s t' (BITSET R (schedule_seat_bitmap s) (bit_offset t) v r) = seat_bits R s t' r"
  using assms bit_offset_inject [of t t']
  by (simp_all add: seat_bits_def GETBITS_def bits_of_bits_entry [OF bit_offset_small] bf_get_set_same
      bf_get_set_other)

lemma set_bitmap_delivered:
  assumes "faults w = []" "in_i32 t" "0 \<le> t"
  shows "set_schedule_seat_bitmap_state_cluster R (schedule_seat_bitmap s) t v w =
    w\<lparr>nodes := map (BITSET R (schedule_seat_bitmap s) (bit_offset t) v) (nodes w)\<rparr>"
  using assms by (simp add: set_schedule_seat_bitmap_state_cluster_def bit_offset_nonneg)

lemma get_bitmap_delivered:
  assumes "faults w = []" "nodes w \<noteq> []"
  shows "fst (get_schedule_seat_bitmap_state_cluster R k w) = GETBITS R k (nodes w ! 0)"
  using assms by (simp add: get_schedule_seat_bitmap_state_cluster_def with_pool_def reading_def)

lemma bitmap_write_read:
  assumes "faults w = []" "nodes w \<noteq> []" "bitmaps_ok R s w" "in_i32 t" "0 \<le> t"
    and "set_schedule_seat_bitmap_state_cluster R (schedule_seat_bitmap s) t v w = w'"
    and "fst (get_schedule_seat_bitmap_state_cluster R (schedule_seat_bitmap s) w) = before"
    and "fst (get_schedule_seat_bitmap_state_cluster R (schedule_seat_bitmap s) w') = after"
  shows "bf_get (bit_offset t) after = v AND 3"
    and "in_i32 t' \<Longrightarrow> 0 \<le> t' \<Longrightarrow> t' \<noteq> t \<Longrightarrow> bf_get (bit_offset t') after = bf_get (bit_offset t') before"
proof -
  let ?r = "nodes w ! 0"
  have r: "?r \<in> set (nodes w)" using assms(2) by (cases "nodes w") auto
  with assms(3) have b: "bits_typed (look R ?r (schedule_seat_bitmap s))" by (simp add: bitmaps_ok_def)
  have "nodes w' \<noteq> []" "faults w' = []"
    "nodes w' ! 0 = BITSET R (schedule_seat_bitmap s) (bit_offset t) v ?r"
    using assms(1,2,6) set_bitmap_delivered [OF assms(1,4,5)] by auto
  then have eq: "after = GETBITS R (schedule_seat_bitmap s) (BITSET R (schedule_seat_bitmap s) (bit_offset t) v ?r)"
    "before = GETBITS R (schedule_seat_bitmap s) ?r"
    using assms(1,2,7,8) by (auto simp: get_bitmap_delivered)
  note s = seat_bits_BITSET [OF b assms(4,5), unfolded seat_bits_def]
  show "bf_get (bit_offset t) after = v AND 3" using s(1) eq by simp
  show "in_i32 t' \<Longrightarrow> 0 \<le> t' \<Longrightarrow> t' \<noteq> t \<Longrightarrow> bf_get (bit_offset t') after = bf_get (bit_offset t') before"
    using s(2) eq by simp
qed

lemma replicate_drop_bits:
  assumes "faults w = []" "bitmaps_ok R s w" "in_i32 t" "0 \<le> t"
  shows "\<forall>r \<in> set (nodes (replicate_drop R s t u m v w)). seat_bits R s t r = v AND 3"
proof -
  let ?f = "\<lambda>r. ZREM R seat_processing_queue_key m
    (ZREM R (room_zset_key s) (seat_user_member t u) (ZREM R (user_zset_key s u) (dec t) r))"
  have "nodes (replicate_drop R s t u m v w) =
      map (\<lambda>r. BITSET R (schedule_seat_bitmap s) (bit_offset t) v (?f r)) (nodes w)"
    using assms(1)
    by (simp add: replicate_drop_def zrem_cluster_def comp_def set_bitmap_delivered [OF _ assms(3,4)])
  moreover have "bits_typed (look R (?f r) (schedule_seat_bitmap s))" if "r \<in> set (nodes w)" for r
    using assms(2) that by (simp add: bitmaps_ok_def key_simps)
  ultimately show ?thesis using seat_bits_BITSET(1) [OF _ assms(3,4)] by auto
qed

text \<open>An expired queue entry of \<open>u\<close> for a seat that \<open>v\<close> holds by now.\<close>

lemma stale_expiry:
  assumes "faults w = []" "sn_ok R w" "sn_holder R s t w = Some v" "v \<noteq> u"
    and "bitmaps_ok R s w" "in_i32 t" "0 \<le> t" "release_expired_lock_lua R s t u m w = (b, w')"
  shows "\<not> b" and "sn_holder R s t w' = Some v" and "\<forall>r \<in> set (nodes w'). seat_bits R s t r = 0"
proof -
  let ?i = "node_of s t (length (nodes w))" and ?r = "nodes w ! node_of s t (length (nodes w))"
  have n: "nodes w \<noteq> []" and vo: "lock_value_ok (lock_cell R s t (nodes w))"
    using assms(2) by (simp_all add: sn_ok_def)
  have i: "?i < length (nodes w)" using n by simp
  have own: "GET R (seat_lock_key s t) ?r = Some (dec v)"
    using vo assms(3) by (auto simp: GET_def sn_holder_def lock_value_ok_def lock_cell_def)
  let ?w1 = "w\<lparr>nodes := (nodes w)[?i := ZREM R seat_processing_queue_key m ?r]\<rparr>"
  have eq: "(b, w') = (False, replicate_drop R s t u m 0 ?w1)"
    using n assms(1,4,8) own
    by (simp add: release_expired_lock_lua_def with_pool_def pool_for_seat_def run_script_def
        lua_release_expired_def Let_def)
  then show "\<not> b" by simp
  have "bitmaps_ok R s ?w1"
    using assms(5) i by (auto simp: bitmaps_ok_def key_simps set_conv_nth nth_list_update)
  then show "\<forall>r \<in> set (nodes w'). seat_bits R s t r = 0"
    using replicate_drop_bits [of ?w1 s t u m 0] assms(1,6,7) eq by simp
  show "sn_holder R s t w' = Some v"
    using release_expired_cell(1) [OF n assms(8)] vo assms(3,4) lock_value_ok_owner [OF vo, of u]
    by (auto simp: sn_holder_def lock_value_ok_def)
qed

end

context redis_service
begin

lemmas single_node_one_winner = sn.ex.one_winner

lemma production_no_context:
  assumes "no_ctx R w" "service_run R J A w w'"
  shows "\<not> fst (user_holds_lock R s t u w')"
proof
  assume "fst (user_holds_lock R s t u w')"
  then obtain w'' where "user_holds_lock R s t u w' = (True, w'')"
    by (cases "user_holds_lock R s t u w'") auto
  moreover have "no_ctx R w'" by (rule service_run_no_ctx [OF assms(2,1)])
  ultimately show False by (auto simp: no_ctx_def dest: user_holds_lock_ctx)
qed

end

section \<open>Properties\<close>

text \<open>A pool of \<open>n\<close> empty servers in memory, for the concrete instances.\<close>

definition fresh_world :: "nat \<Rightarrow> (keyspace, json) world" where
  "fresh_world n = \<lparr>nodes = replicate n Map.empty, faults = [], published = []\<rparr>"

lemma fresh_world_simps [simp]:
  "nodes (fresh_world n) = replicate n Map.empty" "faults (fresh_world n) = []"
  "published (fresh_world n) = []"
  by (simp_all add: fresh_world_def)

lemma node_of_1 [simp]: "node_of s t (Suc 0) = 0"
  by (simp add: node_of_def)

lemma fresh_world_ok [simp]:
  "0 < n \<Longrightarrow> sn_ok mem_redis (fresh_world n)" "0 < n \<Longrightarrow> no_ctx mem_redis (fresh_world n)"
  "bitmaps_ok mem_redis s (fresh_world n)" "0 < n \<Longrightarrow> sn_holder mem_redis s t (fresh_world n) = None"
  by (simp_all add: sn_ok_def no_ctx_def bitmaps_ok_def sn_holder_def lock_cell_def ctx_cell_def bits_typed_def
      mem_redis_simps)

text \<open>
  C1 (mutual exclusion of \<open>acquire_distributed_lock\<close>). Any number of users ask for the same seat, in
  any order and under any schedule of network faults: all requests that are granted come from one
  user, so no seat is ever locked for two users within a lease.
\<close>

theorem distributed_lock_one_winner:
  assumes "redis_service R" "sn_ok R w" "\<forall>u \<in> set us. in_i32 u"
    and "herd (\<lambda>u. acquire_distributed_lock R s t u 300) us w = (bs, w')"
    and "i < j" "j < length us" "bs ! i" "bs ! j"
  shows "us ! i = us ! j"
  by (rule redis_service.single_node_one_winner [OF assms(1), of w us s t bs w']) (use assms in auto)

lemmas acquire_eval =
  acquire_distributed_lock_def acquire_lock_def with_pool_def pool_for_seat_def SETNXPX_def EXISTS_def
  GET_def reading_def writing_def parse_owner_def mem_redis_simps

theorem distributed_lock_one_winner_witness:
  "fst (herd (\<lambda>u. acquire_distributed_lock mem_redis 5 1 u 300) [7, 8, 7] (fresh_world 1)) =
     [True, False, True] \<and> [7, 8, 7::int] ! 0 = [7, 8, 7] ! 2"
proof -
  let ?h = "herd (\<lambda>u. acquire_distributed_lock mem_redis 5 1 u 300) [7, 8, 7] (fresh_world 1)"
  have f: "fst ?h = [True, False, True]"
    by (simp add: acquire_eval in_i32_def Let_def)
  then obtain w' where h: "?h = ([True, False, True], w')" by (cases ?h) auto
  show ?thesis
    using f distributed_lock_one_winner [OF mem.redis_service_axioms _ _ h, of 0 2]
    by (simp add: in_i32_def)
qed

text \<open>
  C2 (safety of every run). Whatever the services do in the name of other users, namely acquiring,
  recording metadata, releasing, expiring, booking and force-booking seats, with any answers and any
  network faults, the holder of a seat keeps it until time passes or the holder itself acts.
\<close>

theorem others_never_take_a_held_seat:
  assumes "redis_service R" "sn_ok R w" "sn_holder R s t w = Some v"
    and "service_run R J {Some u | u. u \<noteq> v} w w'"
  shows "sn_holder R s t w' = Some v"
  by (rule redis_service.service_run_keeps_holder [OF assms(1,4,2,3)]) auto

theorem others_never_take_a_held_seat_witness:
  "let w = snd (acquire_distributed_lock mem_redis 5 1 7 300 (fresh_world 1));
       w' = snd (release_lock mem_redis json_codec 5 1 8 w)
   in sn_holder mem_redis 5 1 w' = Some 7"
proof -
  let ?w = "snd (acquire_distributed_lock mem_redis 5 1 7 300 (fresh_world 1))"
  obtain b w' where r: "release_lock mem_redis json_codec 5 1 8 ?w = (b, w')"
    by (cases "release_lock mem_redis json_codec 5 1 8 ?w")
  have run: "service_run mem_redis json_codec {Some u | u. u \<noteq> 7} ?w w'"
    by (rule run_step [OF run_refl Released [OF r]]) simp
  have "sn_ok mem_redis ?w"
    by (rule mem.service_step_ok [OF Acquired [of 7 mem_redis 5 1 "fresh_world 1" "fst (acquire_distributed_lock mem_redis 5 1 7 300 (fresh_world 1))"]])
      (simp_all add: in_i32_def)
  moreover have "sn_holder mem_redis 5 1 ?w = Some 7"
    by (simp add: acquire_eval sn_holder_def lock_cell_def in_i32_def)
  ultimately have "sn_holder mem_redis 5 1 w' = Some 7"
    using others_never_take_a_held_seat [OF mem.redis_service_axioms _ _ run] by simp
  then show ?thesis using r by (simp add: Let_def)
qed

text \<open>
  (leases). When the exchanges are delivered, a seat that is free, or held by the caller already,
  is granted, and the lease then lasts 300 seconds from that call: the holder is the caller before
  the deadline and nobody afterwards.
\<close>

theorem lease_lasts_300_seconds:
  assumes "redis_service R" "faults w = []" "sn_ok R w" "in_i32 u" "sn_holder R s t w \<in> {None, Some u}"
    and "0 \<le> d"
  shows "\<exists>w'. acquire_distributed_lock R s t u 300 w = (True, w') \<and>
    sn_holder R s t (elapse R d w') = (if d < 300000 then Some u else None)"
  by (rule redis_service.lease_lasts [OF assms])

theorem lease_lasts_300_seconds_witness:
  "\<exists>w'. acquire_distributed_lock mem_redis 5 1 7 300 (fresh_world 3) = (True, w') \<and>
     sn_holder mem_redis 5 1 (elapse mem_redis 299999 w') = Some 7"
  using lease_lasts_300_seconds [OF mem.redis_service_axioms, of "fresh_world 3" 7 5 1 299999]
  by (simp add: in_i32_def)

text \<open>
  C47 (the atomic acquire). When the exchanges are delivered, \<open>acquire_seat_lock_lua\<close> on a seat that is
  free or the caller's own succeeds, and both views agree: \<open>get_lock_owner\<close> names the caller and
  \<open>user_holds_lock\<close> confirms it.
\<close>

theorem atomic_acquire_sets_both_keys:
  assumes "redis_service R" "faults w = []" "sn_ok R w" "in_i32 u" "sn_holder R s t w \<in> {None, Some u}"
    and "in_i32 t" "0 \<le> t" "in_i32 x" "0 < x"
  shows "\<exists>w'. acquire_seat_lock_lua R J now s t u x w = (True, w') \<and>
    lock_cell R s t (nodes w') = Some (str_entry (dec u) (Some (x * 1000))) \<and>
    ctx_cell R s t u (nodes w') = Some (str_entry ''1'' (Some (x * 1000)))"
  using redis_service.acquire_seat_lock_lua_delivered [OF assms] by metis

lemma dec_7: "dec 7 = ''7''"
  by code_simp

theorem atomic_acquire_sets_both_keys_witness:
  "\<exists>w'. acquire_seat_lock_lua mem_redis json_codec 1000 5 1 7 300 (fresh_world 3) = (True, w') \<and>
     lock_cell mem_redis 5 1 (nodes w') = Some (str_entry ''7'' (Some 300000))"
  using atomic_acquire_sets_both_keys
    [OF mem.redis_service_axioms, of "fresh_world 3" 7 5 1 300 json_codec 1000]
  by (auto simp: in_i32_def dec_7)

text \<open>
  C0 (the context key is never written). Starting from servers without context keys, no run of the
  operations the services call ever makes \<open>user_holds_lock\<close> answer true: the key it tests is only
  written by \<open>acquire_seat_lock_lua\<close>, which no service calls.
\<close>

theorem user_holds_lock_never_true:
  assumes "redis_service R" "no_ctx R w" "service_run R J A w w'"
  shows "\<not> fst (user_holds_lock R s t u w')"
  by (rule redis_service.production_no_context [OF assms])

theorem user_holds_lock_never_true_witness:
  "let w = snd (acquire_distributed_lock mem_redis 5 1 7 300 (fresh_world 1))
   in sn_holder mem_redis 5 1 w = Some 7 \<and> \<not> fst (user_holds_lock mem_redis 5 1 7 w)"
proof -
  let ?w = "snd (acquire_distributed_lock mem_redis 5 1 7 300 (fresh_world 1))"
  have run: "service_run mem_redis json_codec UNIV (fresh_world 1) ?w"
    by (rule run_step [OF run_refl Acquired [of 7 mem_redis 5 1 "fresh_world 1" "fst (acquire_distributed_lock mem_redis 5 1 7 300 (fresh_world 1))"]])
      (simp_all add: in_i32_def)
  have "sn_holder mem_redis 5 1 ?w = Some 7"
    by (simp add: acquire_eval sn_holder_def lock_cell_def in_i32_def)
  with user_holds_lock_never_true [OF mem.redis_service_axioms _ run] show ?thesis by (simp add: Let_def)
qed

text \<open>
  C25 (the bitmap is a faithful map of seat states). When the exchanges are delivered, the two bits
  read back for a seat after \<open>set_schedule_seat_bitmap_state_cluster\<close> are the two bits written, and
  the bits of every other seat read as before.
\<close>

theorem bitmap_write_then_read:
  assumes "redis_service R" "faults w = []" "nodes w \<noteq> []" "bitmaps_ok R s w" "in_i32 t" "0 \<le> t"
  shows "let k = schedule_seat_bitmap s;
             before = fst (get_schedule_seat_bitmap_state_cluster R k w);
             after = fst (get_schedule_seat_bitmap_state_cluster R k
                       (set_schedule_seat_bitmap_state_cluster R k t v w))
         in bf_get (bit_offset t) after = v AND 3 \<and>
            (\<forall>t'. in_i32 t' \<and> 0 \<le> t' \<and> t' \<noteq> t \<longrightarrow>
               bf_get (bit_offset t') after = bf_get (bit_offset t') before)"
  using redis_service.bitmap_write_read [OF assms refl refl refl] by (auto simp: Let_def)

theorem bitmap_write_then_read_witness:
  "let k = schedule_seat_bitmap 5;
       after = fst (get_schedule_seat_bitmap_state_cluster mem_redis k
                 (set_schedule_seat_bitmap_state_cluster mem_redis k 6 2 (fresh_world 3)))
   in bf_get (bit_offset 6) after = 2"
  using bitmap_write_then_read [OF mem.redis_service_axioms, of "fresh_world 3" 5 6 2]
  by (simp add: Let_def in_i32_def)

text \<open>
  C36 (a stale expiry frees the seat on the map). An expired queue entry of a user whose seat is held
  by somebody else by now: \<open>release_expired_lock_lua\<close> reports failure and the lock stays with its new
  holder, yet the bitmap of every server shows the seat as available.
\<close>

theorem stale_expiry_shows_held_seat_available:
  assumes "redis_service R" "faults w = []" "sn_ok R w" "sn_holder R s t w = Some v" "v \<noteq> u"
    and "bitmaps_ok R s w" "in_i32 t" "0 \<le> t" "release_expired_lock_lua R s t u m w = (b, w')"
  shows "\<not> b \<and> sn_holder R s t w' = Some v \<and> (\<forall>r \<in> set (nodes w'). seat_bits R s t r = 0)"
  using redis_service.stale_expiry [OF assms] by blast

theorem stale_expiry_shows_held_seat_available_witness:
  "let w = snd (acquire_distributed_lock mem_redis 5 1 7 300 (fresh_world 1));
       w' = snd (release_expired_lock_lua mem_redis 5 1 8 ''m'' w)
   in sn_holder mem_redis 5 1 w' = Some 7 \<and> (\<forall>r \<in> set (nodes w'). seat_bits mem_redis 5 1 r = 0)"
proof -
  let ?w = "snd (acquire_distributed_lock mem_redis 5 1 7 300 (fresh_world 1))"
  obtain b w' where r: "release_expired_lock_lua mem_redis 5 1 8 ''m'' ?w = (b, w')"
    by (cases "release_expired_lock_lua mem_redis 5 1 8 ''m'' ?w")
  have "sn_ok mem_redis ?w" "faults ?w = []" "sn_holder mem_redis 5 1 ?w = Some 7"
    "bitmaps_ok mem_redis 5 ?w"
    by (simp_all add: acquire_eval sn_holder_def sn_ok_def lock_cell_def in_i32_def bitmaps_ok_def
        bits_typed_def key_simps)
  then have "sn_holder mem_redis 5 1 w' = Some 7 \<and> (\<forall>r \<in> set (nodes w'). seat_bits mem_redis 5 1 r = 0)"
    using stale_expiry_shows_held_seat_available [OF mem.redis_service_axioms _ _ _ _ _ _ _ r]
    by (simp add: in_i32_def)
  then show ?thesis using r by (simp add: Let_def)
qed

text \<open>The checksum that routes a seat is CRC-16/XMODEM: its published check value.\<close>

lemma crc16_check_value: "crc16 (as_bytes ''123456789'') = 0x31C3"
  by code_simp

end
