(* ===== verification/Gateway.thy ===== *)
theory Gateway
  imports Show_Actor Single_Node_Props
begin

text \<open>
  The gateway's admission layer (\<open>GatewayState\<close> in \<open>apps/gateway-keeper/src/state_active.rs\<close>): one actor
  per show behind a bounded channel, the set of closed shows, the Redis servers and the RabbitMQ
  channel. A request is admitted on the actor's seat flags, queued, and served by the actor task,
  which takes the distributed locks and publishes the outcome.

  \<open>lock\<close> and \<open>cancel\<close> are the whole handlers: they submit, let the actor drain its channel up to
  their own task, and finish. \<open>lock_submit\<close>, \<open>serve_task\<close> and \<open>lock_finish\<close> are their parts, so that
  runs in which requests of several users overlap can be stated too. The gateway's own
  \<open>redis_pool\<close> is the first server of the pool list.
\<close>

section \<open>State\<close>

record SeatLockMessage =
  sm_action :: string
  sm_user :: user_id
  sm_showtime :: schedule_id
  sm_seats :: "seat_id list"
  sm_timestamp :: int

record broker =
  rmq_channel :: bool  \<comment> \<open>whether a channel was opened at start-up\<close>
  rmq_faults :: "bool list"  \<comment> \<open>outcomes of the coming publishes, \<open>True\<close> for an error\<close>
  locking_queue :: "SeatLockMessage list"

record LockResult =
  locked_seat_ids :: "seat_id list"
  failed_seat_ids :: "seat_id list"

datatype task_reply = RLock LockResult | RCancel "seat_id list"

record 'r gateway =
  show_actors :: "(schedule_id \<times> show_actor option) list"
    \<comment> \<open>\<open>Some None\<close> under a key: a cell whose initialisation failed\<close>
  closed_shows :: "schedule_id set"
  net :: "('r, json) world"
  rmq :: broker

definition actor_of :: "schedule_id \<Rightarrow> 'r gateway \<Rightarrow> show_actor option" where
  "actor_of s g = Option.bind (map_of (show_actors g) s) id"

definition put_actor :: "schedule_id \<Rightarrow> show_actor \<Rightarrow> 'r gateway \<Rightarrow> 'r gateway" where
  "put_actor s a g = g\<lparr>show_actors := AList.update s (Some a) (show_actors g)\<rparr>"

definition upd_actor :: "schedule_id \<Rightarrow> (show_actor \<Rightarrow> show_actor) \<Rightarrow> 'r gateway \<Rightarrow> 'r gateway" where
  "upd_actor s f g = (case actor_of s g of None \<Rightarrow> g | Some a \<Rightarrow> put_actor s (f a) g)"

text \<open>An exchange over the gateway's own connection, and over the lock's pools.\<close>

definition on_net :: "(('r, json) world \<Rightarrow> 'a \<times> ('r, json) world) \<Rightarrow> 'r gateway \<Rightarrow> 'a \<times> 'r gateway" where
  "on_net f g = (case f (net g) of (x, w) \<Rightarrow> (x, g\<lparr>net := w\<rparr>))"

definition do_net :: "(('r, json) world \<Rightarrow> ('r, json) world) \<Rightarrow> 'r gateway \<Rightarrow> 'r gateway" where
  "do_net f g = g\<lparr>net := f (net g)\<rparr>"

section \<open>Publishing to RabbitMQ\<close>

definition publish_to_locking_queue ::
    "int \<Rightarrow> string \<Rightarrow> user_id \<Rightarrow> schedule_id \<Rightarrow> seat_id list \<Rightarrow> broker \<Rightarrow> bool \<times> broker" where
  "publish_to_locking_queue now_ms action u s ts b =
     (if \<not> rmq_channel b then (False, b)
      else
        (let message = \<lparr>sm_action = action, sm_user = u, sm_showtime = s, sm_seats = ts, sm_timestamp = now_ms\<rparr>
         in case rmq_faults b of
              True # fs \<Rightarrow> (False, b\<lparr>rmq_faults := fs\<rparr>)
            | False # fs \<Rightarrow> (True, b\<lparr>rmq_faults := fs, locking_queue := locking_queue b @ [message]\<rparr>)
            | [] \<Rightarrow> (True, b\<lparr>locking_queue := locking_queue b @ [message]\<rparr>)))"

section \<open>The actor task\<close>

fun acquire_seats ::
    "(seat_id \<Rightarrow> 'w \<Rightarrow> bool \<times> 'w) \<Rightarrow> seat_id list \<Rightarrow> seat_id list \<Rightarrow> seat_id list \<Rightarrow> 'w \<Rightarrow>
     (seat_id list \<times> seat_id list) \<times> 'w" where
  "acquire_seats acq [] locked failed w = ((locked, failed), w)"
| "acquire_seats acq (t # ts) locked failed w =
     (case acq t w of (b, w1) \<Rightarrow>
        if b then acquire_seats acq ts (locked @ [t]) failed w1
        else acquire_seats acq ts locked (failed @ [t]) w1)"

definition acquire_and_publish ::
    "'r redis \<Rightarrow> int \<Rightarrow> user_id \<Rightarrow> schedule_id \<Rightarrow> seat_id list \<Rightarrow> 'r gateway \<Rightarrow> LockResult \<times> 'r gateway" where
  "acquire_and_publish R now_ms u s ts g =
     (case acquire_seats (\<lambda>t. acquire_distributed_lock R s t u 300) ts [] [] (net g) of
        ((locked, failed), w) \<Rightarrow>
          let g1 = g\<lparr>net := w\<rparr>;
              g2 = (if locked \<noteq> []
                    then g1\<lparr>rmq := snd (publish_to_locking_queue now_ms ''lock'' u s locked (rmq g1))\<rparr>
                    else g1)
          in (\<lparr>locked_seat_ids = locked, failed_seat_ids = failed\<rparr>, g2))"

definition cancel_committed ::
    "int \<Rightarrow> user_id \<Rightarrow> schedule_id \<Rightarrow> seat_id list \<Rightarrow> 'r gateway \<Rightarrow> seat_id list \<times> 'r gateway" where
  "cancel_committed now_ms u s ts g =
     (case publish_to_locking_queue now_ms ''unlock'' u s ts (rmq g) of
        (ok, b) \<Rightarrow> (if ok then ts else [], g\<lparr>rmq := b\<rparr>))"

fun serve_task ::
    "'r redis \<Rightarrow> int \<Rightarrow> schedule_id \<Rightarrow> gateway_task \<Rightarrow> 'r gateway \<Rightarrow> task_reply \<times> 'r gateway" where
  "serve_task R now_ms s (TLock u ts) g =
     (case acquire_and_publish R now_ms u s ts g of (res, g1) \<Rightarrow> (RLock res, g1))"
| "serve_task R now_ms s (TCancel u ts) g =
     (case cancel_committed now_ms u s ts g of (res, g1) \<Rightarrow> (RCancel res, g1))"

fun run_tasks ::
    "'r redis \<Rightarrow> int \<Rightarrow> schedule_id \<Rightarrow> gateway_task list \<Rightarrow> 'r gateway \<Rightarrow> task_reply list \<times> 'r gateway" where
  "run_tasks R now_ms s [] g = ([], g)"
| "run_tasks R now_ms s (x # xs) g =
     (case serve_task R now_ms s x g of (r, g1) \<Rightarrow>
        case run_tasks R now_ms s xs g1 of (rs, g2) \<Rightarrow> (r # rs, g2))"

text \<open>The receive loop, until the channel is empty.\<close>

definition run_show_actor ::
    "'r redis \<Rightarrow> int \<Rightarrow> schedule_id \<Rightarrow> 'r gateway \<Rightarrow> task_reply list \<times> 'r gateway" where
  "run_show_actor R now_ms s g =
     (case actor_of s g of
        None \<Rightarrow> ([], g)
      | Some a \<Rightarrow> run_tasks R now_ms s (sender a) (upd_actor s (\<lambda>a. a\<lparr>sender := []\<rparr>) g))"

section \<open>Finding or creating an actor\<close>

text \<open>
  The code tests \<open>closed_shows\<close> again during and after the initialisation of a cell, against a closing
  that arrives in between; in one handler run on its own the first test decides.
\<close>

definition clear_admission :: "schedule_id \<Rightarrow> seat_id list \<Rightarrow> 'r gateway \<Rightarrow> 'r gateway" where
  "clear_admission s ts g = upd_actor s (fold clear_seat ts) g"

definition checked_seat_count :: "int \<Rightarrow> nat option" where
  "checked_seat_count total_seat_count = (if 0 < total_seat_count \<and> total_seat_count \<le> MAX_SEATS_PER_SHOW then Some (nat total_seat_count) else None)"

text \<open>The test of the closed marker in Redis, made when no cell exists for the show.\<close>

definition closed_in_redis :: "'r redis \<Rightarrow> schedule_id \<Rightarrow> 'r gateway \<Rightarrow> bool \<times> 'r gateway" where
  "closed_in_redis R s g =
     (if map_of (show_actors g) s \<noteq> None then (False, g)
      else
        (case on_net pool_get g of (ok, g1) \<Rightarrow>
           if \<not> ok then (False, g1)
           else (case on_net (send 0 (reading (EXISTS R (schedule_closed_key s)))) g1 of
                   (res, g2) \<Rightarrow> (res = Some True, g2))))"

definition get_or_create_show_actor ::
    "'r redis \<Rightarrow> int \<Rightarrow> schedule_id \<Rightarrow> int \<Rightarrow> 'r gateway \<Rightarrow> show_actor result \<times> 'r gateway" where
  "get_or_create_show_actor R unix_now s total_seat_count g =
     (if s \<in> closed_shows g then (Inl ''schedule is closed'', g)
      else
        (case closed_in_redis R s g of (closed, g1) \<Rightarrow>
           if closed then (Inl ''schedule is closed'', g1\<lparr>closed_shows := insert s (closed_shows g1)\<rparr>)
           else
             (case checked_seat_count total_seat_count of
                None \<Rightarrow> (Inl ''total_seat_count must be between 1 and 200000'', g1)
              | Some seat_count \<Rightarrow>
                  (let a = (case actor_of s g1 of Some a \<Rightarrow> a | None \<Rightarrow> new_actor unix_now seat_count);
                       g2 = put_actor s a g1
                   in case validate_seat_count seat_count a of
                        Inl e \<Rightarrow> (Inl e, g2)
                      | Inr _ \<Rightarrow> (Inr a, g2)))))"

section \<open>Locking\<close>

fun register_all :: "(seat_id \<times> int) list \<Rightarrow> show_actor \<Rightarrow> (seat_id \<times> nat) list result \<times> show_actor" where
  "register_all [] a = (Inr [], a)"
| "register_all ((t, o1) # ps) a =
     (case register_seat t o1 a of
        (Inl e, a1) \<Rightarrow> (Inl e, a1)
      | (Inr i, a1) \<Rightarrow>
          (case register_all ps a1 of
             (Inl e, a2) \<Rightarrow> (Inl e, a2)
           | (Inr is, a2) \<Rightarrow> (Inr ((t, i) # is), a2)))"

fun admit_all :: "(seat_id \<times> nat) list \<Rightarrow> show_actor \<Rightarrow> (seat_id list \<times> seat_id list) \<times> show_actor" where
  "admit_all [] a = (([], []), a)"
| "admit_all ((t, i) # ps) a =
     (case try_admit i a of (b, a1) \<Rightarrow>
        (case admit_all ps a1 of ((adm, failed), a2) \<Rightarrow>
           (if b then (t # adm, failed) else (adm, t # failed), a2)))"

text \<open>
  A request up to its task in the channel: \<open>Answered\<close> when the handler returned without one,
  \<open>Queued\<close> with the seats admitted and those already refused.
\<close>

datatype submission =
    Answered "LockResult result"
  | Queued "seat_id list" "seat_id list"

definition lock_submit ::
    "'r redis \<Rightarrow> int \<Rightarrow> user_id \<Rightarrow> schedule_id \<Rightarrow> seat_id list \<Rightarrow> int list \<Rightarrow> int \<Rightarrow> 'r gateway \<Rightarrow>
     submission \<times> 'r gateway" where
  "lock_submit R unix_now u s ts idx total_seat_count g =
     (if length ts \<noteq> length idx
      then (Answered (Inl ''seat_ids and seat_indices must have the same length''), g)
      else
        (case get_or_create_show_actor R unix_now s total_seat_count g of
           (Inl e, g1) \<Rightarrow> (Answered (Inl e), g1)
         | (Inr a, g1) \<Rightarrow>
            (case begin_request unix_now a of
               Inl e \<Rightarrow> (Answered (Inl e), g1)
             | Inr a1 \<Rightarrow>
                (case register_all (zip ts idx) a1 of
                   (Inl e, a2) \<Rightarrow> (Answered (Inl e), put_actor s (drop_lease unix_now a2) g1)
                 | (Inr seats, a2) \<Rightarrow>
                    (case admit_all seats a2 of ((adm, failed), a3) \<Rightarrow>
                       if adm = [] then
                         (Answered (Inr \<lparr>locked_seat_ids = [], failed_seat_ids = failed\<rparr>),
                          put_actor s (drop_lease unix_now a3) g1)
                       else if SHOW_QUEUE_CAPACITY \<le> length (sender a3) then
                         (Answered (Inr \<lparr>locked_seat_ids = [], failed_seat_ids = failed @ adm\<rparr>),
                          upd_actor s (drop_lease unix_now) (clear_admission s adm (put_actor s a3 g1)))
                       else
                         (Queued adm failed,
                          put_actor s (a3\<lparr>sender := sender a3 @ [TLock u adm]\<rparr>) g1))))))"

definition lock_finish ::
    "int \<Rightarrow> schedule_id \<Rightarrow> LockResult \<Rightarrow> seat_id list \<Rightarrow> 'r gateway \<Rightarrow> LockResult \<times> 'r gateway" where
  "lock_finish unix_now s res failed g =
     (res\<lparr>failed_seat_ids := failed_seat_ids res @ failed\<rparr>,
      upd_actor s (drop_lease unix_now) (clear_admission s (failed_seat_ids res) g))"

definition lock ::
    "'r redis \<Rightarrow> int \<Rightarrow> int \<Rightarrow> user_id \<Rightarrow> schedule_id \<Rightarrow> seat_id list \<Rightarrow> int list \<Rightarrow> int \<Rightarrow> 'r gateway \<Rightarrow>
     LockResult result \<times> 'r gateway" where
  "lock R unix_now now_ms u s ts idx total_seat_count g =
     (case lock_submit R unix_now u s ts idx total_seat_count g of
        (Answered res, g1) \<Rightarrow> (res, g1)
      | (Queued adm failed, g1) \<Rightarrow>
          (case run_show_actor R now_ms s g1 of (replies, g2) \<Rightarrow>
             let reply = (case last replies of
                   RLock res \<Rightarrow> res | RCancel _ \<Rightarrow> \<lparr>locked_seat_ids = [], failed_seat_ids = adm\<rparr>)
             in case lock_finish unix_now s reply failed g2 of (res, g3) \<Rightarrow> (Inr res, g3)))"

section \<open>Cancelling\<close>

text \<open>The loop over the checkout markers, with its early return; an error of the client reads as absent.\<close>

fun checkout_active :: "'r redis \<Rightarrow> schedule_id \<Rightarrow> seat_id list \<Rightarrow> 'r gateway \<Rightarrow> bool \<times> 'r gateway" where
  "checkout_active R s [] g = (False, g)"
| "checkout_active R s (t # ts) g =
     (case on_net (send 0 (reading (EXISTS R (seat_checkout_key s t)))) g of
        (res, g1) \<Rightarrow> if res = Some True then (True, g1) else checkout_active R s ts g1)"

definition cancel ::
    "'r redis \<Rightarrow> int \<Rightarrow> int \<Rightarrow> user_id \<Rightarrow> schedule_id \<Rightarrow> seat_id list \<Rightarrow> int list \<Rightarrow> int \<Rightarrow> 'r gateway \<Rightarrow>
     seat_id list result \<times> 'r gateway" where
  "cancel R unix_now now_ms u s ts idx total_seat_count g =
     (if length ts \<noteq> length idx
      then (Inl ''seat_ids and seat_indices must have the same length'', g)
      else
        (case get_or_create_show_actor R unix_now s total_seat_count g of
           (Inl e, g1) \<Rightarrow> (Inl e, g1)
         | (Inr a, g1) \<Rightarrow>
            (case begin_request unix_now a of
               Inl e \<Rightarrow> (Inl e, g1)
             | Inr a1 \<Rightarrow>
                (case register_all (zip ts idx) a1 of
                   (Inl e, a2) \<Rightarrow> (Inl e, put_actor s (drop_lease unix_now a2) g1)
                 | (Inr _, a2) \<Rightarrow>
                    (case on_net pool_get (put_actor s a2 g1) of (ok, g2) \<Rightarrow>
                       case (if ok then checkout_active R s ts g2 else (False, g2)) of (busy, g3) \<Rightarrow>
                         if busy then
                           (Inl ''Cannot cancel seats while checkout is in progress'',
                            upd_actor s (drop_lease unix_now) g3)
                         else
                           (let g4 = upd_actor s (\<lambda>a. a\<lparr>sender := sender a @ [TCancel u ts]\<rparr>)
                                       (clear_admission s ts g3)
                            in case run_show_actor R now_ms s g4 of (replies, g5) \<Rightarrow>
                                 (Inr (case last replies of RCancel res \<Rightarrow> res | RLock _ \<Rightarrow> []),
                                  upd_actor s (drop_lease unix_now) g5)))))))"

section \<open>Closing schedules and evicting actors\<close>

definition mark_schedule_closed :: "schedule_id \<Rightarrow> 'r gateway \<Rightarrow> 'r gateway" where
  "mark_schedule_closed s g =
     g\<lparr>closed_shows := insert s (closed_shows g), show_actors := AList.delete s (show_actors g)\<rparr>"

definition handle_schedule_lifecycle_message :: "json option \<Rightarrow> 'r gateway \<Rightarrow> 'r gateway" where
  "handle_schedule_lifecycle_message payload g =
     (case Option.bind payload event_of_json of
        Some (ScheduleClosed s) \<Rightarrow> mark_schedule_closed s g
      | Some (ScheduleOpened s) \<Rightarrow> g\<lparr>closed_shows := closed_shows g - {s}\<rparr>
      | _ \<Rightarrow> g)"

fun mark_closed_where :: "(schedule_id \<times> bool) list \<Rightarrow> 'r gateway \<Rightarrow> 'r gateway" where
  "mark_closed_where [] g = g"
| "mark_closed_where ((s, closed) # ps) g =
     mark_closed_where ps (if closed then mark_schedule_closed s g else g)"

definition reconcile_closed_actors :: "'r redis \<Rightarrow> 'r gateway \<Rightarrow> 'r gateway" where
  "reconcile_closed_actors R g =
     (let schedule_ids = map fst (show_actors g)
      in if schedule_ids = [] then g
         else
           (case on_net pool_get g of (ok, g1) \<Rightarrow>
              if \<not> ok then g1
              else
                (case on_net (send 0 (reading (\<lambda>r. map (\<lambda>s. EXISTS R (schedule_closed_key s) r) schedule_ids))) g1 of
                   (None, g2) \<Rightarrow> g2
                 | (Some closed, g2) \<Rightarrow> mark_closed_where (zip schedule_ids closed) g2)))"

text \<open>
  One iteration of the eviction loop. The cell is removed only while the map still holds it; here
  nothing else runs between the snapshot and the removal.
\<close>

definition evict_one :: "int \<Rightarrow> schedule_id \<Rightarrow> 'r gateway \<Rightarrow> 'r gateway" where
  "evict_one now s g =
     (case actor_of s g of
        None \<Rightarrow> g
      | Some a \<Rightarrow>
          (case try_begin_idle_eviction now a of
             (evict, a1) \<Rightarrow>
               if evict then g\<lparr>show_actors := AList.delete s (show_actors g)\<rparr> else put_actor s a1 g))"

definition evict_idle_actors :: "int \<Rightarrow> 'r gateway \<Rightarrow> 'r gateway" where
  "evict_idle_actors now g = fold (evict_one now) (map fst (show_actors g)) g"

section \<open>Events and expired locks\<close>

fun split_on :: "char \<Rightarrow> string \<Rightarrow> string list" where
  "split_on c [] = [[]]"
| "split_on c (x # xs) =
     (if x = c then [] # split_on c xs
      else (case split_on c xs of p # ps \<Rightarrow> (x # p) # ps | [] \<Rightarrow> [[x]]))"

definition channel_schedule :: "string \<Rightarrow> schedule_id option" where
  "channel_schedule channel =
     (case drop 1 (split_on CHR '':'' channel) of p # _ \<Rightarrow> parse_i32 p | [] \<Rightarrow> None)"

definition handle_pubsub_message :: "json option \<Rightarrow> string \<Rightarrow> 'r gateway \<Rightarrow> 'r gateway" where
  "handle_pubsub_message payload channel g =
     (case payload of
        Some (JObj fs) \<Rightarrow>
          (case Option.bind (map_of fs ''event'') as_str of
             None \<Rightarrow> g
           | Some event \<Rightarrow>
              if event \<noteq> ''seat_unlocked'' \<and> event \<noteq> ''seat_booked'' then g
              else
                (case channel_schedule channel of
                   None \<Rightarrow> g
                 | Some s \<Rightarrow>
                    (case Option.bind (map_of fs ''seat_ids'') as_array of
                       None \<Rightarrow> g
                     | Some vs \<Rightarrow> clear_admission s (map as_i32 (List.map_filter as_i64 vs)) g)))
      | _ \<Rightarrow> g)"

definition publish_room :: "PubSubEvent \<Rightarrow> 'r gateway \<Rightarrow> 'r gateway" where
  "publish_room e g =
     (case (case e of SeatLocked _ s _ \<Rightarrow> Some s | SeatUnlocked _ s _ \<Rightarrow> Some s | _ \<Rightarrow> None) of
        None \<Rightarrow> g
      | Some s \<Rightarrow>
          (case on_net pool_get g of (ok, g1) \<Rightarrow>
             if ok then do_net (publish_node 0 (room_channel s) (event_json e)) g1 else g1))"

text \<open>The end of an iteration of the expiry loop: the seat is announced as free.\<close>

definition expire_seat :: "'r redis \<Rightarrow> string \<Rightarrow> QueueEntry \<Rightarrow> 'r gateway \<Rightarrow> 'r gateway" where
  "expire_seat R encoded e g =
     publish_room (SeatUnlocked (qe_user e) (qe_schedule e) (qe_seat e))
       (do_net (set_schedule_seat_bitmap_state_cluster R (schedule_seat_bitmap (qe_schedule e)) (qe_seat e) 0)
         (do_net (zrem_cluster R seat_processing_queue_key encoded)
           (clear_admission (qe_schedule e) [qe_seat e] g)))"

definition expire_entry :: "'r redis \<Rightarrow> codec \<Rightarrow> int \<Rightarrow> string \<Rightarrow> 'r gateway \<Rightarrow> 'r gateway" where
  "expire_entry R J now encoded g =
     (case dec_entry J encoded of
        None \<Rightarrow> do_net (zrem_cluster R seat_processing_queue_key encoded) g
      | Some e \<Rightarrow>
          (case on_net (get_lock_owner R (qe_schedule e) (qe_seat e)) g of (owner, g1) \<Rightarrow>
             if owner \<noteq> None \<and> owner \<noteq> Some (qe_user e)
             then do_net (zrem_cluster R seat_processing_queue_key encoded) g1
             else if owner = Some (qe_user e) then
               (case on_net (send 0 (reading (EXISTS R (seat_checkout_key (qe_schedule e) (qe_seat e))))) g1 of
                  (res, g2) \<Rightarrow>
                    if res = Some True
                    then do_net (zadd_cluster R seat_processing_queue_key encoded (now + 300)) g2
                    else expire_seat R encoded e
                      (snd (on_net (release_lock R J (qe_schedule e) (qe_seat e) (qe_user e)) g2)))
             else expire_seat R encoded e g1))"

definition release_expired_locks :: "'r redis \<Rightarrow> codec \<Rightarrow> int \<Rightarrow> 'r gateway \<Rightarrow> 'r gateway" where
  "release_expired_locks R J now g =
     (case on_net pool_get g of (ok, g1) \<Rightarrow>
        if \<not> ok then g1
        else
          (case on_net (send 0 (reading (ZRANGE R seat_processing_queue_key None (Some now)))) g1 of
             (res, g2) \<Rightarrow>
               fold (expire_entry R J now) (case res of Some entries \<Rightarrow> entries | None \<Rightarrow> []) g2))"

end
