(* ===== verification/Gateway_Props.thy ===== *)
theory Gateway_Props
  imports Gateway "HOL-Library.Multiset"
begin

text \<open>
  Correctness of the gateway's admission layer: what a lock request returns and leaves behind, on
  every branch; the admission flags of the actors; closed schedules; and the expiry loop.
\<close>

section \<open>Taking several locks\<close>

context seat_lock
begin

lemma acquire_holder:
  assumes "lock_ok w" "in_i32 u" "holder s' t' w = Some v" "acquire s t u w = (b, w')"
  shows "holder s' t' w' = Some v"
proof (cases "(s', t') = (s, t)")
  case True
  then show ?thesis using acquire_keeps [OF assms(1,2) _ assms(4)] assms(3) by simp
next
  case False
  then show ?thesis using acquire_frame [OF assms(1,2,4)] assms(3) by simp
qed

lemma acquire_seats_spec:
  assumes "lock_ok w" "in_i32 u" "\<forall>t \<in> set l0. holder s t w = Some u"
    and "acquire_seats (\<lambda>t. acquire s t u) ts l0 f0 w = ((l, f), w')"
  shows "lock_ok w' \<and> (\<forall>t \<in> set l. holder s t w' = Some u) \<and> mset (l @ f) = mset (l0 @ f0 @ ts) \<and>
    set f \<subseteq> set f0 \<union> set ts"
  using assms
proof (induction ts arbitrary: l0 f0 w)
  case Nil
  then show ?case by auto
next
  case (Cons t ts)
  obtain b w1 where a: "acquire s t u w = (b, w1)" by (cases "acquire s t u w")
  have ok: "lock_ok w1" using acquire_ok [OF Cons.prems(1,2) a] .
  have keep: "\<forall>x \<in> set l0. holder s x w1 = Some u"
    using acquire_holder [OF Cons.prems(1,2) _ a] Cons.prems(3) by blast
  show ?case
  proof (cases b)
    case True
    with acquire_grants [OF Cons.prems(1,2)] a keep
    have "\<forall>x \<in> set (l0 @ [t]). holder s x w1 = Some u" by auto
    from Cons.IH [OF ok Cons.prems(2) this] Cons.prems(4) a True show ?thesis by auto
  next
    case False
    from Cons.IH [OF ok Cons.prems(2) keep, of "f0 @ [t]"] Cons.prems(4) a False show ?thesis by auto
  qed
qed

lemma acquire_seats_keeps:
  assumes "lock_ok w" "in_i32 u" "holder s' t' w = Some v"
    and "acquire_seats (\<lambda>t. acquire s t u) ts l0 f0 w = ((l, f), w')"
  shows "holder s' t' w' = Some v"
  using assms
proof (induction ts arbitrary: l0 f0 w)
  case (Cons t ts)
  obtain b w1 where a: "acquire s t u w = (b, w1)" by (cases "acquire s t u w")
  have ok: "lock_ok w1" using acquire_ok [OF Cons.prems(1,2) a] .
  have "holder s' t' w1 = Some v"
    using acquire_holder [OF Cons.prems(1,2,3) a] .
  with Cons ok a show ?case by (cases b) auto
qed simp

end

section \<open>Registering and admitting the seats of a request\<close>

lemma register_all_spec:
  assumes "actor_ok a" "register_all ps a = (r, a')"
  shows "actor_ok a' \<and> sender a' = sender a \<and> (\<forall>t. admitted t a' = admitted t a) \<and>
    in_flight a' = in_flight a \<and> closing a' = closing a \<and>
    (\<forall>t i. seat_indices a t = Some i \<longrightarrow> seat_indices a' t = Some i) \<and>
    (\<forall>is. r = Inr is \<longrightarrow> map fst is = map fst ps \<and> (\<forall>(t, i) \<in> set is. seat_indices a' t = Some i))"
  using assms
proof (induction ps arbitrary: a r a')
  case (Cons p ps)
  obtain t o1 where p: "p = (t, o1)" by (cases p)
  obtain x a1 where x: "register_seat t o1 a = (x, a1)" by (cases "register_seat t o1 a")
  note ok = register_seat_ok [OF Cons.prems(1) x] and fr = register_seat_frame [OF Cons.prems(1) x]
  show ?case
  proof (cases x)
    case (Inl e)
    with Cons.prems p x ok fr show ?thesis by auto
  next
    case (Inr i)
    obtain y a2 where y: "register_all ps a1 = (y, a2)" by (cases "register_all ps a1")
    note IH = Cons.IH [OF ok y]
    have i: "seat_indices a1 t = Some i" using fr(7) Inr by simp
    show ?thesis
      using Cons.prems(2) p x y Inr IH fr i by (cases y) auto
  qed
qed auto

lemma admit_all_spec:
  assumes "actor_ok a" "\<forall>(t, i) \<in> set ps. seat_indices a t = Some i" "admit_all ps a = ((adm, failed), a')"
  shows "actor_ok a' \<and> sender a' = sender a \<and> in_flight a' = in_flight a \<and> closing a' = closing a \<and>
    (\<forall>t. admitted t a' \<longleftrightarrow> t \<in> set adm \<or> admitted t a) \<and>
    distinct adm \<and> (\<forall>t \<in> set adm. \<not> admitted t a) \<and> mset adm + mset failed = mset (map fst ps)"
  using assms
proof (induction ps arbitrary: a adm failed a')
  case (Cons p ps)
  obtain t i where p: "p = (t, i)" by (cases p)
  obtain b a1 where b: "try_admit i a = (b, a1)" by (cases "try_admit i a")
  obtain ad fa a2 where rest: "admit_all ps a1 = ((ad, fa), a2)"
    by (metis prod.collapse)
  have i: "seat_indices a t = Some i" using Cons.prems(2) p by auto
  note sp = try_admit_spec [OF Cons.prems(1) i b]
  have "\<forall>(t, i) \<in> set ps. seat_indices a1 t = Some i" using Cons.prems(2) sp(4) by auto
  note IH = Cons.IH [OF sp(3) this rest]
  show ?case
    using Cons.prems(3) p b rest IH sp by (cases b) auto
qed simp

lemma fold_clear_seat:
  assumes "actor_ok a"
  shows "actor_ok (fold clear_seat ts a) \<and> sender (fold clear_seat ts a) = sender a \<and>
    in_flight (fold clear_seat ts a) = in_flight a \<and> closing (fold clear_seat ts a) = closing a \<and>
    (\<forall>t. admitted t (fold clear_seat ts a) \<longleftrightarrow> t \<notin> set ts \<and> admitted t a)"
  using assms
proof (induction ts arbitrary: a)
  case (Cons t ts)
  with clear_seat_spec [OF Cons.prems] show ?case by auto
qed simp

section \<open>The invariant of the gateway\<close>

fun task_user :: "gateway_task \<Rightarrow> user_id" where
  "task_user (TLock u _) = u"
| "task_user (TCancel u _) = u"

definition actors_ok :: "'r gateway \<Rightarrow> bool" where
  "actors_ok g \<longleftrightarrow> (\<forall>s a. actor_of s g = Some a \<longrightarrow>
     actor_ok a \<and> length (sender a) \<le> SHOW_QUEUE_CAPACITY \<and> (\<forall>x \<in> set (sender a). in_i32 (task_user x)))"

definition gw_ok :: "'r redis \<Rightarrow> 'r gateway \<Rightarrow> bool" where
  "gw_ok R g \<longleftrightarrow> sn_ok R (net g) \<and> actors_ok g"

text \<open>Whether the gateway has a seat of a show admitted.\<close>

definition gw_admitted :: "schedule_id \<Rightarrow> seat_id \<Rightarrow> 'r gateway \<Rightarrow> bool" where
  "gw_admitted s t g \<longleftrightarrow> (case actor_of s g of None \<Rightarrow> False | Some a \<Rightarrow> admitted t a)"

lemma actor_of_put [simp]:
  "actor_of s' (put_actor s a g) = (if s' = s then Some a else actor_of s' g)"
  by (simp add: actor_of_def put_actor_def update_conv')

lemma put_actor_simps [simp]:
  "net (put_actor s a g) = net g" "rmq (put_actor s a g) = rmq g"
  "closed_shows (put_actor s a g) = closed_shows g"
  by (simp_all add: put_actor_def)

lemma actor_of_upd [simp]:
  "actor_of s' (upd_actor s f g) = (if s' = s then map_option f (actor_of s g) else actor_of s' g)"
  by (simp add: upd_actor_def split: option.split)

lemma upd_actor_simps [simp]:
  "net (upd_actor s f g) = net g" "rmq (upd_actor s f g) = rmq g"
  "closed_shows (upd_actor s f g) = closed_shows g"
  by (simp_all add: upd_actor_def split: option.split)

lemma actor_of_frame [simp]:
  "actor_of s (g\<lparr>net := w\<rparr>) = actor_of s g" "actor_of s (g\<lparr>rmq := b\<rparr>) = actor_of s g"
  "actor_of s (g\<lparr>closed_shows := c\<rparr>) = actor_of s g"
  by (simp_all add: actor_of_def)

lemma sn_ok_nodes: "nodes w' = nodes w \<Longrightarrow> sn_ok R w' = sn_ok R w"
  by (simp add: sn_ok_def)

lemma sn_holder_nodes: "nodes w' = nodes w \<Longrightarrow> sn_holder R s t w' = sn_holder R s t w"
  by (simp add: sn_holder_def)

text \<open>Exchanges that only read leave the servers and the rest of the gateway alone.\<close>

definition same_but_net :: "'r gateway \<Rightarrow> 'r gateway \<Rightarrow> bool" where
  "same_but_net g g1 \<longleftrightarrow> nodes (net g1) = nodes (net g) \<and> show_actors g1 = show_actors g \<and>
     rmq g1 = rmq g \<and> closed_shows g1 = closed_shows g"

lemma same_but_net_refl [simp]: "same_but_net g g"
  by (simp add: same_but_net_def)

lemma same_but_net_trans: "same_but_net a b \<Longrightarrow> same_but_net b c \<Longrightarrow> same_but_net a c"
  by (simp add: same_but_net_def)

lemma same_but_net_actor: "same_but_net g g1 \<Longrightarrow> actor_of s g1 = actor_of s g"
  by (simp add: same_but_net_def actor_of_def)

lemma on_net_pool_get: "on_net pool_get g = (ok, g1) \<Longrightarrow> same_but_net g g1"
  by (auto simp: on_net_def same_but_net_def dest: pool_getD split: prod.splits)

lemma on_net_reading:
  assumes "on_net (send i (reading f)) g = (res, g1)"
  shows "same_but_net g g1" "res = None \<or> res = Some (f (nodes (net g) ! i))"
proof -
  obtain w where w: "send i (reading f) (net g) = (res, w)" "g1 = g\<lparr>net := w\<rparr>"
    using assms by (auto simp: on_net_def split: prod.splits)
  from send_reading [OF w(1)] w(2) show "same_but_net g g1" "res = None \<or> res = Some (f (nodes (net g) ! i))"
    by (auto simp: same_but_net_def)
qed

lemma closed_in_redis_frame:
  assumes "closed_in_redis R s g = (b, g1)"
  shows "same_but_net g g1"
proof -
  obtain ok g0 where 0: "on_net pool_get g = (ok, g0)" by (cases "on_net pool_get g")
  obtain res g2 where 2: "on_net (send 0 (reading (EXISTS R (schedule_closed_key s)))) g0 = (res, g2)"
    by (cases "on_net (send 0 (reading (EXISTS R (schedule_closed_key s)))) g0")
  have "same_but_net g g2" by (rule same_but_net_trans [OF on_net_pool_get [OF 0] on_net_reading(1) [OF 2]])
  with assms on_net_pool_get [OF 0] show ?thesis by (auto simp: closed_in_redis_def 0 2 split: if_splits)
qed

text \<open>What finding or creating an actor can do to the gateway.\<close>

lemma get_or_create_cases:
  assumes "get_or_create_show_actor R n s c g = (r, g1)"
  obtains (closed) "r = Inl ''schedule is closed''" "s \<in> closed_shows g" "g1 = g"
    | (marked) g0 where "r = Inl ''schedule is closed''" "same_but_net g g0"
        "g1 = g0\<lparr>closed_shows := insert s (closed_shows g0)\<rparr>"
    | (bad_count) e where "r = Inl e" "same_but_net g g1" "checked_seat_count c = None"
    | (found) g0 a k where "same_but_net g g0" "g1 = put_actor s a g0" "checked_seat_count c = Some k"
        "actor_of s g = Some a \<or> actor_of s g = None \<and> a = new_actor n k"
        "r = Inr a \<or> (\<exists>e. r = Inl e)" "s \<notin> closed_shows g"
proof -
  obtain b g0 where b: "closed_in_redis R s g = (b, g0)" by (cases "closed_in_redis R s g")
  note fr = closed_in_redis_frame [OF b]
  have act: "actor_of s g0 = actor_of s g" using same_but_net_actor [OF fr] .
  note d = assms [unfolded get_or_create_show_actor_def b]
  show thesis
  proof (cases "s \<in> closed_shows g")
    case True
    with d show ?thesis by (intro closed) auto
  next
    case nc: False
    show ?thesis
    proof (cases b)
      case True
      with d nc show ?thesis by (intro marked [of g0]) (auto simp: fr)
    next
      case False
      show ?thesis
      proof (cases "checked_seat_count c")
        case None
        then show ?thesis using d nc False bad_count fr by auto
      next
        case (Some k)
        let ?a = "case actor_of s g of Some a \<Rightarrow> a | None \<Rightarrow> new_actor n k"
        have "g1 = put_actor s ?a g0 \<and> (r = Inr ?a \<or> (\<exists>e. r = Inl e))"
          using d nc False Some by (auto simp: Let_def act split: sum.splits)
        then show ?thesis using nc Some fr by (intro found [of g0 ?a k]) (auto split: option.split)
      qed
    qed
  qed
qed

lemma get_or_create_frame:
  assumes "get_or_create_show_actor R n s c g = (r, g1)"
  shows "nodes (net g1) = nodes (net g)" "rmq g1 = rmq g"
    "s' \<noteq> s \<Longrightarrow> actor_of s' g1 = actor_of s' g"
    "actor_of s g1 = actor_of s g \<or> actor_of s g = None \<and> (\<exists>k. actor_of s g1 = Some (new_actor n k))"
    "r = Inr a \<Longrightarrow> actor_of s g1 = Some a"
  using assms
  by (cases rule: get_or_create_cases; auto simp: same_but_net_def actor_of_def put_actor_def update_conv'; fail)+

lemma admitted_new [simp]: "\<not> admitted t (new_actor n k)"
  by (simp add: admitted_def new_actor_def)

lemma get_or_create_ok:
  assumes "get_or_create_show_actor R n s c g = (r, g1)" "gw_ok R g"
  shows "gw_ok R g1" "gw_admitted s' t g1 = gw_admitted s' t g"
proof -
  note fr = get_or_create_frame [OF assms(1)]
  show "gw_ok R g1"
    unfolding gw_ok_def actors_ok_def
  proof (intro conjI allI impI)
    show "sn_ok R (net g1)" using assms(2) fr(1) sn_ok_nodes by (auto simp: gw_ok_def)
  next
    fix s' a
    assume "actor_of s' g1 = Some a"
    then consider "actor_of s' g = Some a" | k where "a = new_actor n k"
      using fr(3,4) by (cases "s' = s") auto
    then have "actor_ok a \<and> length (sender a) \<le> SHOW_QUEUE_CAPACITY \<and> (\<forall>x \<in> set (sender a). in_i32 (task_user x))"
    proof cases
      case 1
      with assms(2) show ?thesis by (simp add: gw_ok_def actors_ok_def)
    next
      case 2
      then show ?thesis using new_actor_ok [of n k] by (simp add: new_actor_def)
    qed
    then show "actor_ok a" "length (sender a) \<le> SHOW_QUEUE_CAPACITY"
      "\<forall>x \<in> set (sender a). in_i32 (task_user x)" by auto
  qed
  show "gw_admitted s' t g1 = gw_admitted s' t g"
    using fr(3,4) by (cases "s' = s") (auto simp: gw_admitted_def)
qed

section \<open>Serving tasks\<close>

lemma actor_update_simps [simp]:
  "admitted t (a\<lparr>sender := q\<rparr>) = admitted t a" "admitted t (a\<lparr>in_flight := k\<rparr>) = admitted t a"
  "admitted t (a\<lparr>last_access := n\<rparr>) = admitted t a"
  "actor_ok (a\<lparr>sender := q\<rparr>) = actor_ok a" "actor_ok (a\<lparr>in_flight := k\<rparr>) = actor_ok a"
  "actor_ok (a\<lparr>last_access := n\<rparr>) = actor_ok a"
  by (simp_all add: admitted_def actor_ok_def split: option.split)

lemma drop_lease_simps [simp]:
  "admitted t (drop_lease n a) = admitted t a" "actor_ok (drop_lease n a) = actor_ok a"
  "sender (drop_lease n a) = sender a"
  by (simp_all add: drop_lease_def)

lemma begin_request_Inr:
  "begin_request n a = Inr a1 \<Longrightarrow>
   \<not> closing a \<and> sender a1 = sender a \<and> actor_ok a1 = actor_ok a \<and> (\<forall>t. admitted t a1 = admitted t a)"
  by (auto simp: begin_request_def split: if_splits)

lemma run_tasks_snoc:
  "run_tasks R m s (xs @ [x]) g =
     (case run_tasks R m s xs g of (rs, g1) \<Rightarrow>
        case serve_task R m s x g1 of (r, g2) \<Rightarrow> (rs @ [r], g2))"
  by (induction xs arbitrary: g) (auto split: prod.splits)

definition keeps_holders :: "'r redis \<Rightarrow> 'r gateway \<Rightarrow> 'r gateway \<Rightarrow> bool" where
  "keeps_holders R g g' \<longleftrightarrow>
     (\<forall>s t v. sn_holder R s t (net g) = Some v \<longrightarrow> sn_holder R s t (net g') = Some v)"

lemma keeps_holders_trans: "keeps_holders R a b \<Longrightarrow> keeps_holders R b c \<Longrightarrow> keeps_holders R a c"
  by (simp add: keeps_holders_def)

context redis_service
begin

lemmas gateway_acquire = sn.acquire_seats_spec sn.acquire_seats_keeps

lemma acquire_and_publish_spec:
  assumes "sn_ok R (net g)" "in_i32 u" "acquire_and_publish R m u s ts g = (res, g')"
  shows "sn_ok R (net g') \<and> show_actors g' = show_actors g \<and> closed_shows g' = closed_shows g \<and>
    keeps_holders R g g' \<and> (\<forall>t \<in> set (locked_seat_ids res). sn_holder R s t (net g') = Some u) \<and>
    mset (locked_seat_ids res @ failed_seat_ids res) = mset ts"
proof -
  obtain l f w where a: "acquire_seats (\<lambda>t. acquire_distributed_lock R s t u 300) ts [] [] (net g) = ((l, f), w)"
    by (metis prod.collapse)
  have n: "net g' = w" "show_actors g' = show_actors g" "closed_shows g' = closed_shows g"
    "locked_seat_ids res = l" "failed_seat_ids res = f"
    using assms(3) by (auto simp: acquire_and_publish_def a Let_def split: if_splits)
  have "sn_ok R w \<and> (\<forall>t \<in> set l. sn_holder R s t w = Some u) \<and> mset (l @ f) = mset ([] @ [] @ ts) \<and>
      set f \<subseteq> set [] \<union> set ts"
    by (rule gateway_acquire(1) [OF assms(1,2) _ a]) simp
  moreover have "keeps_holders R g g'"
    using gateway_acquire(2) [OF assms(1,2) _ a] n(1) by (simp add: keeps_holders_def)
  ultimately show ?thesis using n by simp
qed

lemma serve_task_spec:
  assumes "sn_ok R (net g)" "in_i32 (task_user x)" "serve_task R m s x g = (r, g')"
  shows "sn_ok R (net g') \<and> show_actors g' = show_actors g \<and> closed_shows g' = closed_shows g \<and>
    keeps_holders R g g'"
proof (cases x)
  case (TLock u ts)
  with assms show ?thesis
    using acquire_and_publish_spec [OF assms(1), of u m s ts] by (auto split: prod.splits)
next
  case (TCancel u ts)
  with assms show ?thesis by (auto simp: cancel_committed_def keeps_holders_def split: prod.splits)
qed

lemma run_tasks_spec:
  assumes "sn_ok R (net g)" "\<forall>x \<in> set xs. in_i32 (task_user x)" "run_tasks R m s xs g = (rs, g')"
  shows "sn_ok R (net g') \<and> show_actors g' = show_actors g \<and> closed_shows g' = closed_shows g \<and>
    keeps_holders R g g'"
  using assms
proof (induction xs arbitrary: g rs)
  case Nil
  then show ?case by (simp add: keeps_holders_def)
next
  case (Cons x xs)
  obtain r g1 where x: "serve_task R m s x g = (r, g1)" by (cases "serve_task R m s x g")
  obtain rs1 where xs: "run_tasks R m s xs g1 = (rs1, g')"
    using Cons.prems(3) x by (auto split: prod.splits)
  have 1: "in_i32 (task_user x)" "\<forall>x \<in> set xs. in_i32 (task_user x)" using Cons.prems(2) by auto
  note h = serve_task_spec [OF Cons.prems(1) 1(1) x]
  have "sn_ok R (net g1)" using h by blast
  from Cons.IH [OF this 1(2) xs] h show ?case by (auto intro: keeps_holders_trans)
qed

end

section \<open>Submitting a request\<close>

lemma gw_ok_put:
  assumes "gw_ok R g" "actor_ok a" "length (sender a) \<le> SHOW_QUEUE_CAPACITY"
    and "\<forall>x \<in> set (sender a). in_i32 (task_user x)"
  shows "gw_ok R (put_actor s a g)"
  using assms by (auto simp: gw_ok_def actors_ok_def split: if_splits)

lemma gw_ok_upd:
  assumes "gw_ok R g" "\<And>a. actor_ok a \<Longrightarrow> actor_ok (f a) \<and> sender (f a) = sender a"
  shows "gw_ok R (upd_actor s f g)"
  using assms(1) assms(2) by (auto simp: gw_ok_def actors_ok_def split: if_splits)

lemma clear_admission_ok: "gw_ok R g \<Longrightarrow> gw_ok R (clear_admission s ts g)"
  unfolding clear_admission_def by (rule gw_ok_upd) (auto dest: fold_clear_seat)

lemma gw_admitted_put [simp]:
  "gw_admitted s' t (put_actor s a g) = (if s' = s then admitted t a else gw_admitted s' t g)"
  by (simp add: gw_admitted_def)

lemma gw_admitted_clear:
  assumes "gw_ok R g"
  shows "gw_admitted s' t (clear_admission s ts g) \<longleftrightarrow> gw_admitted s' t g \<and> \<not> (s' = s \<and> t \<in> set ts)"
  using assms
  by (auto simp: gw_admitted_def clear_admission_def gw_ok_def actors_ok_def fold_clear_seat split: option.splits)

lemma gw_admitted_drop [simp]: "gw_admitted s' t (upd_actor s (drop_lease n) g) = gw_admitted s' t g"
  by (auto simp: gw_admitted_def split: option.split)

lemma gw_ok_drop: "gw_ok R g \<Longrightarrow> gw_ok R (upd_actor s (drop_lease n) g)"
  by (rule gw_ok_upd) auto

text \<open>What a submission leaves behind, on every branch.\<close>

definition submitted :: "user_id \<Rightarrow> schedule_id \<Rightarrow> seat_id list \<Rightarrow> 'r gateway \<Rightarrow> submission \<Rightarrow> 'r gateway \<Rightarrow> bool" where
  "submitted u s ts g sub g1 \<longleftrightarrow>
     (case sub of
        Answered (Inl e) \<Rightarrow> \<forall>s' t. gw_admitted s' t g1 = gw_admitted s' t g
      | Answered (Inr res) \<Rightarrow>
          locked_seat_ids res = [] \<and> mset (failed_seat_ids res) = mset ts \<and>
          (\<forall>s' t. gw_admitted s' t g1 = gw_admitted s' t g)
      | Queued adm failed \<Rightarrow>
          distinct adm \<and> (\<forall>t \<in> set adm. \<not> gw_admitted s t g) \<and> mset (adm @ failed) = mset ts \<and>
          (\<exists>a q. actor_of s g1 = Some a \<and> sender a = q @ [TLock u adm]) \<and>
          (\<forall>s' t. gw_admitted s' t g1 \<longleftrightarrow> gw_admitted s' t g \<or> s' = s \<and> t \<in> set adm))"

lemma lock_submit_spec:
  assumes "gw_ok R g" "in_i32 u" "lock_submit R n u s ts idx c g = (sub, g1)"
  shows "gw_ok R g1 \<and> nodes (net g1) = nodes (net g) \<and> submitted u s ts g sub g1"
proof (cases "length ts = length idx")
  case False
  with assms show ?thesis by (auto simp: lock_submit_def submitted_def)
next
  case len: True
  obtain r g0 where r: "get_or_create_show_actor R n s c g = (r, g0)"
    by (cases "get_or_create_show_actor R n s c g")
  note fr = get_or_create_frame [OF r] and ok = get_or_create_ok [OF r assms(1)]
  show ?thesis
  proof (cases r)
    case (Inl e)
    with assms(3) len r ok fr show ?thesis by (auto simp: lock_submit_def submitted_def)
  next
    case (Inr a)
    have a: "actor_of s g0 = Some a" using fr(5) Inr .
    then have aok: "actor_ok a" "length (sender a) \<le> SHOW_QUEUE_CAPACITY"
      "\<forall>x \<in> set (sender a). in_i32 (task_user x)" using ok(1) by (auto simp: gw_ok_def actors_ok_def)
    have adm0: "gw_admitted s t g = admitted t a" for t using ok(2) [of s t] a by (simp add: gw_admitted_def)
    show ?thesis
    proof (cases "begin_request n a")
      case bad: (Inl e)
      with assms(3) len r Inr ok fr show ?thesis by (auto simp: lock_submit_def submitted_def)
    next
      case begun: (Inr a1)
      note b = begin_request_Inr [OF begun]
      obtain rr a2 where rr: "register_all (zip ts idx) a1 = (rr, a2)" by (cases "register_all (zip ts idx) a1")
      have "actor_ok a1" using b aok(1) by simp
      note reg = register_all_spec [OF this rr]
      show ?thesis
      proof (cases rr)
        case bad: (Inl e)
        have "gw_ok R (put_actor s (drop_lease n a2) g0)"
          by (rule gw_ok_put [OF ok(1)]) (use reg b aok in simp_all)
        with assms(3) len r Inr begun rr bad ok fr reg b adm0 show ?thesis
          by (auto simp: lock_submit_def submitted_def)
      next
        case seats: (Inr seats)
        obtain adm failed a3 where ad: "admit_all seats a2 = ((adm, failed), a3)" by (metis prod.collapse)
        have sts: "map fst seats = ts" "\<forall>(t, i) \<in> set seats. seat_indices a2 t = Some i"
          using reg seats len by auto
        have "actor_ok a2" using reg by blast
        note adm = admit_all_spec [OF this sts(2) ad]
        have ok3: "actor_ok a3" "sender a3 = sender a" using adm reg b by auto
        have okp: "gw_ok R (put_actor s a3 g0)" by (rule gw_ok_put [OF ok(1)]) (use ok3 aok in simp_all)
        have okd: "gw_ok R (put_actor s (drop_lease n a3) g0)"
          by (rule gw_ok_put [OF ok(1)]) (use ok3 aok in simp_all)
        have ms: "mset adm + mset failed = mset ts" using adm sts(1) by simp
        have adm3: "admitted t a3 \<longleftrightarrow> t \<in> set adm \<or> gw_admitted s t g" for t
          using adm reg b adm0 by simp
        consider (none) "adm = []" | (full) "adm \<noteq> []" "SHOW_QUEUE_CAPACITY \<le> length (sender a3)"
          | (queued) "adm \<noteq> []" "\<not> SHOW_QUEUE_CAPACITY \<le> length (sender a3)" by blast
        then show ?thesis
        proof cases
          case none
          with assms(3) len r Inr begun rr seats ad okd fr ok(2) adm3 ms show ?thesis
            by (auto simp: lock_submit_def submitted_def)
        next
          case full
          have "gw_ok R (upd_actor s (drop_lease n) (clear_admission s adm (put_actor s a3 g0)))"
            by (intro gw_ok_drop clear_admission_ok okp)
          moreover have "gw_admitted s' t (clear_admission s adm (put_actor s a3 g0)) = gw_admitted s' t g" for s' t
            using adm adm3 reg b adm0 ok(2) by (auto simp: gw_admitted_clear [OF okp])
          ultimately show ?thesis
            using full assms(3) len r Inr begun rr seats ad fr ms
            by (auto simp: lock_submit_def submitted_def clear_admission_def union_commute)
        next
          case queued
          have "gw_ok R (put_actor s (a3\<lparr>sender := sender a3 @ [TLock u adm]\<rparr>) g0)"
            by (rule gw_ok_put [OF ok(1)]) (use ok3 aok queued assms(2) in auto)
          then show ?thesis
            using queued assms(3) len r Inr begun rr seats ad fr ms adm adm3 reg b adm0 ok(2)
            by (auto simp: lock_submit_def submitted_def)
        qed
      qed
    qed
  qed
qed

section \<open>The whole request\<close>

lemma gw_admitted_actors: "show_actors g' = show_actors g \<Longrightarrow> gw_admitted s t g' = gw_admitted s t g"
  by (simp add: gw_admitted_def actor_of_def)

lemma gw_admitted_sender [simp]:
  "gw_admitted s' t (upd_actor s (\<lambda>a. a\<lparr>sender := q\<rparr>) g) = gw_admitted s' t g"
  by (auto simp: gw_admitted_def split: option.split)

lemma gw_ok_clear_sender: "gw_ok R g \<Longrightarrow> gw_ok R (upd_actor s (\<lambda>a. a\<lparr>sender := []\<rparr>) g)"
  by (auto simp: gw_ok_def actors_ok_def SHOW_QUEUE_CAPACITY_def split: if_splits)

context redis_service
begin

text \<open>Draining the channel: the last task's reply is its own.\<close>

lemma run_show_actor_lock:
  assumes "gw_ok R g" "actor_of s g = Some a" "sender a = q @ [TLock u adm]" "run_show_actor R m s g = (rs, g')"
  obtains res where "last rs = RLock res" "gw_ok R g'" "keeps_holders R g g'"
    "\<forall>t \<in> set (locked_seat_ids res). sn_holder R s t (net g') = Some u"
    "mset (locked_seat_ids res @ failed_seat_ids res) = mset adm"
    "\<forall>s' t. gw_admitted s' t g' = gw_admitted s' t g" "closed_shows g' = closed_shows g"
proof -
  let ?g0 = "upd_actor s (\<lambda>a. a\<lparr>sender := []\<rparr>) g"
  have ok0: "gw_ok R ?g0" using gw_ok_clear_sender [OF assms(1)] .
  have "\<forall>x \<in> set (sender a). in_i32 (task_user x)"
    using assms(1,2) by (auto simp: gw_ok_def actors_ok_def)
  then have q: "\<forall>x \<in> set q. in_i32 (task_user x)" "in_i32 u"
    using assms(3) by auto
  obtain rs1 g1 where 1: "run_tasks R m s q ?g0 = (rs1, g1)" by (cases "run_tasks R m s q ?g0")
  obtain res g2 where 2: "acquire_and_publish R m u s adm g1 = (res, g2)"
    by (cases "acquire_and_publish R m u s adm g1")
  have eq: "rs = rs1 @ [RLock res]" "g' = g2"
    using assms(2-4) 1 2 by (auto simp: run_show_actor_def run_tasks_snoc)
  have "sn_ok R (net ?g0)" using ok0 by (simp add: gw_ok_def)
  note h1 = run_tasks_spec [OF this q(1) 1]
  have "sn_ok R (net g1)" using h1 by blast
  note h2 = acquire_and_publish_spec [OF this q(2) 2]
  have k: "keeps_holders R g g2"
    using h1 h2 unfolding keeps_holders_def by simp
  have act: "show_actors g2 = show_actors ?g0" using h1 h2 by simp
  then have ok2: "gw_ok R g2" using ok0 h2 by (simp add: gw_ok_def actors_ok_def actor_of_def)
  have adm: "gw_admitted s' t g2 = gw_admitted s' t g" for s' t
    using gw_admitted_actors [OF act] by simp
  show thesis
    by (rule that [of res]) (use eq ok2 h1 h2 adm k in auto)
qed

lemma lock_spec:
  assumes "gw_ok R g" "in_i32 u" "lock R n m u s ts idx c g = (r, g')"
  shows "gw_ok R g' \<and> keeps_holders R g g' \<and>
    (case r of
       Inl e \<Rightarrow> \<forall>s' t. gw_admitted s' t g' = gw_admitted s' t g
     | Inr res \<Rightarrow>
         mset (locked_seat_ids res @ failed_seat_ids res) = mset ts \<and>
         (\<forall>t \<in> set (locked_seat_ids res). sn_holder R s t (net g') = Some u) \<and>
         (\<forall>s' t. gw_admitted s' t g' \<longleftrightarrow>
            gw_admitted s' t g \<or> s' = s \<and> t \<in> set (locked_seat_ids res)))"
proof -
  obtain sub g1 where sub: "lock_submit R n u s ts idx c g = (sub, g1)"
    by (cases "lock_submit R n u s ts idx c g")
  note sp = lock_submit_spec [OF assms(1,2) sub]
  have k1: "keeps_holders R g g1" using sp by (simp add: keeps_holders_def sn_holder_def)
  show ?thesis
  proof (cases sub)
    case (Answered x)
    with assms(3) sub have "r = x" "g' = g1" by (auto simp: lock_def)
    with Answered sp k1 show ?thesis by (cases x) (auto simp: submitted_def)
  next
    case (Queued adm failed)
    have sq: "distinct adm" "\<forall>t \<in> set adm. \<not> gw_admitted s t g" "mset adm + mset failed = mset ts"
      "\<exists>a q. actor_of s g1 = Some a \<and> sender a = q @ [TLock u adm]"
      "\<forall>s' t. gw_admitted s' t g1 \<longleftrightarrow> gw_admitted s' t g \<or> s' = s \<and> t \<in> set adm"
      using sp by (simp_all add: Queued submitted_def)
    obtain a q where a: "actor_of s g1 = Some a" "sender a = q @ [TLock u adm]" using sq(4) by blast
    obtain rs g2 where rs: "run_show_actor R m s g1 = (rs, g2)" by (cases "run_show_actor R m s g1")
    have ok1: "gw_ok R g1" using sp by blast
    obtain res where res: "last rs = RLock res" "gw_ok R g2" "keeps_holders R g1 g2"
      "\<forall>t \<in> set (locked_seat_ids res). sn_holder R s t (net g2) = Some u"
      "mset (locked_seat_ids res @ failed_seat_ids res) = mset adm"
      "\<forall>s' t. gw_admitted s' t g2 = gw_admitted s' t g1"
      by (rule run_show_actor_lock [OF ok1 a rs])
    have r: "r = Inr (res\<lparr>failed_seat_ids := failed_seat_ids res @ failed\<rparr>)"
      "g' = upd_actor s (drop_lease n) (clear_admission s (failed_seat_ids res) g2)"
      using assms(3) by (auto simp: lock_def sub Queued rs res(1) lock_finish_def)
    have "distinct (locked_seat_ids res @ failed_seat_ids res)"
      using sq(1) mset_eq_imp_distinct_iff [OF res(5)] by simp
    then have dis: "set (locked_seat_ids res) \<inter> set (failed_seat_ids res) = {}" by simp
    have sets: "set adm = set (locked_seat_ids res) \<union> set (failed_seat_ids res)"
      using mset_eq_setD [OF res(5)] by auto
    have "gw_admitted s' t g' \<longleftrightarrow> gw_admitted s' t g \<or> s' = s \<and> t \<in> set (locked_seat_ids res)" for s' t
      using sq(2,5) res(6) sets dis by (auto simp: r gw_admitted_clear [OF res(2)])
    moreover have "mset (locked_seat_ids res @ failed_seat_ids res @ failed) = mset ts"
      using sq(3) res(5) by (simp add: ac_simps)
    moreover have "net g' = net g2" by (simp add: r clear_admission_def)
    moreover have "keeps_holders R g g2" using keeps_holders_trans [OF k1 res(3)] .
    moreover have "gw_ok R g'" unfolding r by (intro gw_ok_drop clear_admission_ok res(2))
    ultimately show ?thesis using res(4) r(1) by (simp add: keeps_holders_def)
  qed
qed

end

section \<open>The expiry loop\<close>

definition held_by :: "'r redis \<Rightarrow> schedule_id \<Rightarrow> seat_id \<Rightarrow> user_id \<Rightarrow> ('r, 'p) world \<Rightarrow> bool" where
  "held_by R s t v w \<longleftrightarrow> sn_ok R w \<and> sn_holder R s t w = Some v"

lemma held_by_nodes: "nodes w' = nodes w \<Longrightarrow> held_by R s t v w' = held_by R s t v w"
  by (simp add: held_by_def sn_ok_def sn_holder_def)

lemma net_simps [simp]: "net (clear_admission s ts g) = net g" "net (do_net f g) = f (net g)"
  by (simp_all add: clear_admission_def do_net_def)

lemma nodes_publish_room [simp]: "nodes (net (publish_room e g)) = nodes (net g)"
proof -
  obtain ok g1 where g1: "on_net pool_get g = (ok, g1)" by (cases "on_net pool_get g")
  from on_net_pool_get [OF g1] g1 show ?thesis
    by (cases e) (auto simp: publish_room_def same_but_net_def)
qed

context redis_service
begin

lemma held_by_same_locks: "same_locks R (nodes w) (nodes w') \<Longrightarrow> held_by R s t v w \<Longrightarrow> held_by R s t v w'"
  using same_locksD [of R "nodes w" "nodes w'"] by (auto simp: held_by_def sn_ok_def sn_holder_def)

lemma held_by_cluster_writes:
  "held_by R s t v w \<Longrightarrow> held_by R s t v (zrem_cluster R seat_processing_queue_key m w)"
  "held_by R s t v w \<Longrightarrow> held_by R s t v (zadd_cluster R seat_processing_queue_key m x w)"
  "held_by R s t v w \<Longrightarrow> held_by R s t v (set_schedule_seat_bitmap_state_cluster R (schedule_seat_bitmap s') t' b w)"
  unfolding zrem_cluster_def zadd_cluster_def set_schedule_seat_bitmap_state_cluster_def
  by (auto intro!: held_by_same_locks [OF on_all_same_locks])

lemma get_lock_owner_reads:
  assumes "get_lock_owner R s t w = (o1, w')"
  shows "nodes w' = nodes w"
proof -
  obtain ok w1 where w1: "pool_get w = (ok, w1)" by (cases "pool_get w")
  let ?i = "node_of s t (length (nodes w))"
  obtain c w2 where w2: "send ?i (reading (GET R (seat_lock_key s t))) w1 = (c, w2)"
    by (cases "send ?i (reading (GET R (seat_lock_key s t))) w1")
  show ?thesis
    using assms pool_getD [OF w1] send_reading(1) [OF w2]
    by (auto simp: get_lock_owner_def with_pool_def pool_for_seat_def w1 w2 split: if_splits)
qed

lemma release_held_by:
  assumes "held_by R s t v w" "release_lock R J s' t' u w = (b, w')" "(s', t', u) \<noteq> (s, t, v)"
  shows "held_by R s t v w'"
proof -
  have ok: "sn_ok R w" and h: "sn_holder R s t w = Some v" using assms(1) by (auto simp: held_by_def)
  note r = release_lock_holder [OF ok assms(2)] and ok' = release_lock_ok [OF ok assms(2)]
  show ?thesis
  proof (cases "(s, t) = (s', t')")
    case True
    with r(1) [of v] h assms(3) ok' show ?thesis by (auto simp: held_by_def)
  next
    case False
    with r(3) [of s t] h ok' show ?thesis by (simp add: held_by_def)
  qed
qed

lemma expire_seat_held_by: "held_by R s t v (net g) \<Longrightarrow> held_by R s t v (net (expire_seat R m e g))"
  by (simp add: expire_seat_def held_by_nodes [OF nodes_publish_room] held_by_cluster_writes)

lemma expire_entry_held_by:
  assumes "held_by R s t v (net g)" "dec_entry J m \<noteq> Some (mk_entry t s v)"
  shows "held_by R s t v (net (expire_entry R J now m g))"
proof (cases "dec_entry J m")
  case None
  with assms show ?thesis by (simp add: expire_entry_def held_by_cluster_writes)
next
  case (Some e)
  have ne: "(qe_schedule e, qe_seat e, qe_user e) \<noteq> (s, t, v)"
    using assms(2) Some by (cases e) (auto simp: mk_entry_def)
  obtain own w1 where w1: "get_lock_owner R (qe_schedule e) (qe_seat e) (net g) = (own, w1)"
    by (cases "get_lock_owner R (qe_schedule e) (qe_seat e) (net g)")
  let ?g1 = "g\<lparr>net := w1\<rparr>"
  let ?chk = "send 0 (reading (EXISTS R (seat_checkout_key (qe_schedule e) (qe_seat e))))"
  obtain res w2 where w2: "?chk w1 = (res, w2)" by (cases "?chk w1")
  obtain b w3 where w3: "release_lock R J (qe_schedule e) (qe_seat e) (qe_user e) w2 = (b, w3)"
    by (cases "release_lock R J (qe_schedule e) (qe_seat e) (qe_user e) w2")
  have h1: "held_by R s t v w1" using assms(1) held_by_nodes [OF get_lock_owner_reads [OF w1]] by blast
  have h2: "held_by R s t v w2" using h1 held_by_nodes [OF send_reading(1) [OF w2]] by blast
  have h3: "held_by R s t v w3" using release_held_by [OF h2 w3 ne] .
  show ?thesis
    using h1 h2 h3
    by (auto simp: expire_entry_def Some on_net_def w1 w2 w3 intro!: expire_seat_held_by held_by_cluster_writes)
qed

lemma release_expired_locks_held_by:
  assumes "held_by R s t v (net g)"
    and "\<forall>m \<in> set (ZRANGE R seat_processing_queue_key None (Some now) (nodes (net g) ! 0)).
      dec_entry J m \<noteq> Some (mk_entry t s v)"
  shows "held_by R s t v (net (release_expired_locks R J now g))"
proof -
  obtain ok g1 where g1: "on_net pool_get g = (ok, g1)" by (cases "on_net pool_get g")
  let ?rd = "reading (ZRANGE R seat_processing_queue_key None (Some now))"
  obtain res g2 where g2: "on_net (send 0 ?rd) g1 = (res, g2)" by (cases "on_net (send 0 ?rd) g1")
  note s1 = on_net_pool_get [OF g1] and s2 = on_net_reading [OF g2]
  have h1: "held_by R s t v (net g1)" "held_by R s t v (net g2)"
    using assms(1) s1 s2(1) held_by_nodes [of "net g1" "net g" R s t v] held_by_nodes [of "net g2" "net g" R s t v]
    by (simp_all add: same_but_net_def)
  have "held_by R s t v (net (fold (expire_entry R J now) ms g2))"
    if "\<forall>m \<in> set ms. dec_entry J m \<noteq> Some (mk_entry t s v)" for ms
    using h1(2) that
  proof (induction ms arbitrary: g2)
    case (Cons m ms)
    with expire_entry_held_by [of s t v g2 J m] show ?case by simp
  qed simp
  with h1 s1 s2(2) assms(2) show ?thesis
    by (auto simp: release_expired_locks_def g1 g2 same_but_net_def split: option.split)
qed

text \<open>When every exchange is delivered, an expired entry of the holder frees the seat.\<close>

lemma release_lock_delivered:
  assumes "faults w = []" "held_by R s t u w" "in_i32 t" "0 \<le> t"
  obtains w' where "release_lock R J s t u w = (True, w')" "faults w' = []" "sn_holder R s t w' = None" "sn_ok R w'"
    "published w' = published w"
proof -
  let ?i = "node_of s t (length (nodes w))" and ?m = "enc_entry J (mk_entry t s u)"
  let ?r = "nodes w ! ?i"
  have ok: "sn_ok R w" and n: "nodes w \<noteq> []" and v: "lock_value_ok (lock_cell R s t (nodes w))"
    using assms(2) by (auto simp: held_by_def sn_ok_def)
  have own: "GET R (seat_lock_key s t) ?r = Some (dec u)"
    using assms(2) v by (auto simp: GET_def held_by_def sn_holder_def lock_value_ok_def lock_cell_def)
  let ?w1 = "w\<lparr>nodes := (nodes w)[?i := lua_drop R s t u ?m 0 ?r]\<rparr>"
  have eq: "release_lock R J s t u w = (True, replicate_drop R s t u ?m 0 ?w1)"
    using n assms(1) own bit_offset_small [OF assms(3,4)]
    by (simp add: release_lock_def with_pool_def pool_for_seat_def run_script_def lua_release_def
        bit_reply_def Let_def)
  have "faults (replicate_drop R s t u ?m 0 ?w1) = []"
    "published (replicate_drop R s t u ?m 0 ?w1) = published w"
    using assms(1) by (simp_all add: replicate_drop_def zrem_cluster_def set_schedule_seat_bitmap_state_cluster_def)
  with eq show thesis
    using that release_lock_holder(2) [OF ok eq] release_lock_ok [OF ok eq] by simp
qed

lemma expire_entry_delivered:
  assumes "gw_ok R g" "faults (net g) = []" "dec_entry J m = Some (mk_entry t s u)" "in_i32 t" "0 \<le> t"
    and "sn_holder R s t (net g) = Some u"
  defines "busy \<equiv> EXISTS R (seat_checkout_key s t) (nodes (net g) ! 0)"
  shows "sn_holder R s t (net (expire_entry R J now m g)) = (if busy then Some u else None)"
    and "gw_admitted s t (expire_entry R J now m g) \<longleftrightarrow> busy \<and> gw_admitted s t g"
    and "\<not> busy \<Longrightarrow> published (net (expire_entry R J now m g)) =
      (0, room_channel s, event_json (SeatUnlocked u s t)) # published (net g)"
proof -
  have n: "nodes (net g) \<noteq> []" and ok: "sn_ok R (net g)" using assms(1) by (auto simp: gw_ok_def sn_ok_def)
  have own: "get_lock_owner R s t (net g) = (Some u, net g)"
    using assms(2,6) n readers_delivered(2) [OF assms(2) n, of s t]
    by (simp add: get_lock_owner_def with_pool_def pool_for_seat_def reading_def)
  have held: "held_by R s t u (net g)" using ok assms(6) by (simp add: held_by_def)
  obtain w' where rel: "release_lock R J s t u (net g) = (True, w')" "faults w' = []"
    "sn_holder R s t w' = None" "sn_ok R w'" "published w' = published (net g)"
    by (rule release_lock_delivered [OF assms(2) held assms(4,5)])
  let ?bm = "set_schedule_seat_bitmap_state_cluster R (schedule_seat_bitmap s) t 0"
  let ?w3 = "?bm (zrem_cluster R seat_processing_queue_key m w')"
  let ?g3 = "do_net ?bm (do_net (zrem_cluster R seat_processing_queue_key m)
    (clear_admission s [t] (g\<lparr>net := w'\<rparr>)))"
  have ent: "expire_entry R J now m g =
      (if busy then do_net (zadd_cluster R seat_processing_queue_key m (now + 300)) g
       else publish_room (SeatUnlocked u s t) ?g3)"
    using assms(2,3) own rel(1)
    by (simp add: expire_entry_def on_net_def busy_def reading_def expire_seat_def mk_entry_def)
  have w3: "faults ?w3 = []" "published ?w3 = published (net g)"
    using rel(2,5) by (simp_all add: zrem_cluster_def set_schedule_seat_bitmap_state_cluster_def)
  have pub: "publish_room (SeatUnlocked u s t) ?g3 =
      ?g3\<lparr>net := ?w3\<lparr>published := (0, room_channel s, event_json (SeatUnlocked u s t)) # published (net g)\<rparr>\<rparr>"
    using w3 by (simp add: publish_room_def on_net_def do_net_def publish_node_def clear_admission_def)
  have same: "same_locks R (nodes w') (nodes ?w3)"
    unfolding zrem_cluster_def set_schedule_seat_bitmap_state_cluster_def
    by (auto intro!: same_locks_trans [OF _ on_all_same_locks] on_all_same_locks)
  have "nodes w' \<noteq> []" using rel(4) by (simp add: sn_ok_def)
  note cells = same_locksD(1) [OF same this]
  have "held_by R s t u (zadd_cluster R seat_processing_queue_key m (now + 300) (net g))"
    by (rule held_by_cluster_writes(2) [OF held])
  then show "sn_holder R s t (net (expire_entry R J now m g)) = (if busy then Some u else None)"
    using rel(3) by (auto simp: ent pub sn_holder_def cells held_by_def)
  have okg: "gw_ok R (g\<lparr>net := w'\<rparr>)" using assms(1) rel(4) by (simp add: gw_ok_def actors_ok_def)
  have "gw_admitted s t (g\<lparr>net := w\<rparr>) = gw_admitted s t g" for w and g :: "'r gateway"
    by (simp add: gw_admitted_def)
  then show "gw_admitted s t (expire_entry R J now m g) \<longleftrightarrow> busy \<and> gw_admitted s t g"
    unfolding ent pub by (simp add: do_net_def gw_admitted_clear [OF okg])
  show "\<not> busy \<Longrightarrow> published (net (expire_entry R J now m g)) =
      (0, room_channel s, event_json (SeatUnlocked u s t)) # published (net g)"
    by (simp add: ent pub)
qed

end

section \<open>Cancelling\<close>

lemma checkout_active_frame:
  "checkout_active R s ts g = (b, g1) \<Longrightarrow> same_but_net g g1"
proof (induction ts arbitrary: g)
  case (Cons t ts)
  let ?c = "send 0 (reading (EXISTS R (seat_checkout_key s t)))"
  obtain res g0 where g0: "on_net ?c g = (res, g0)" by (cases "on_net ?c g")
  from on_net_reading(1) [OF g0] Cons g0 show ?case by (auto intro: same_but_net_trans split: if_splits)
qed simp

lemma publish_result:
  "publish_to_locking_queue m act u s ts b = (ok, b') \<Longrightarrow>
   locking_queue b' = locking_queue b @
     (if ok then [\<lparr>sm_action = act, sm_user = u, sm_showtime = s, sm_seats = ts, sm_timestamp = m\<rparr>] else [])"
  by (auto simp: publish_to_locking_queue_def Let_def split: if_splits list.splits bool.splits)

context redis_service
begin

lemma run_show_actor_cancel:
  assumes "gw_ok R g" "actor_of s g = Some a" "in_i32 u"
    and "run_show_actor R m s (upd_actor s (\<lambda>a. a\<lparr>sender := sender a @ [TCancel u ts]\<rparr>) g) = (rs, g')"
  shows "\<exists>res. last rs = RCancel res \<and>
      (res = [] \<or> res = ts \<and> (\<exists>q. locking_queue (rmq g') = q @
         [\<lparr>sm_action = ''unlock'', sm_user = u, sm_showtime = s, sm_seats = ts, sm_timestamp = m\<rparr>]))"
    and "keeps_holders R g g'" "gw_admitted s' t g' = gw_admitted s' t g" "gw_ok R g'"
proof -
  let ?g0 = "upd_actor s (\<lambda>a. a\<lparr>sender := []\<rparr>) (upd_actor s (\<lambda>a. a\<lparr>sender := sender a @ [TCancel u ts]\<rparr>) g)"
  have q: "\<forall>x \<in> set (sender a). in_i32 (task_user x)" "sn_ok R (net ?g0)"
    using assms(1,2) by (auto simp: gw_ok_def actors_ok_def)
  obtain rs1 g1 where 1: "run_tasks R m s (sender a) ?g0 = (rs1, g1)" by (cases "run_tasks R m s (sender a) ?g0")
  obtain ok b where p: "publish_to_locking_queue m ''unlock'' u s ts (rmq g1) = (ok, b)"
    by (cases "publish_to_locking_queue m ''unlock'' u s ts (rmq g1)")
  have eq: "rs = rs1 @ [RCancel (if ok then ts else [])]" "g' = g1\<lparr>rmq := b\<rparr>"
    using assms(2,4) 1 p by (auto simp: run_show_actor_def run_tasks_snoc cancel_committed_def)
  show "\<exists>res. last rs = RCancel res \<and>
      (res = [] \<or> res = ts \<and> (\<exists>q. locking_queue (rmq g') = q @
         [\<lparr>sm_action = ''unlock'', sm_user = u, sm_showtime = s, sm_seats = ts, sm_timestamp = m\<rparr>]))"
    using eq publish_result [OF p] by auto
  note h1 = run_tasks_spec [OF q(2,1) 1]
  show "keeps_holders R g g'" using h1 eq by (simp add: keeps_holders_def)
  have act: "actor_of x g' = actor_of x ?g0" for x using h1 eq by (simp add: actor_of_def)
  have "admitted t (a\<lparr>sender := q\<rparr>) = admitted t a" for a q by simp
  then show "gw_admitted s' t g' = gw_admitted s' t g"
    unfolding gw_admitted_def act by (auto split: option.split)
  show "gw_ok R g'"
    unfolding gw_ok_def actors_ok_def act
    using assms(1) h1 eq(2) by (auto simp: gw_ok_def actors_ok_def SHOW_QUEUE_CAPACITY_def split: if_splits)
qed

lemma cancel_spec:
  assumes "gw_ok R g" "in_i32 u" "cancel R n m u s ts idx c g = (Inr res, g')"
  shows "(res = [] \<or> res = ts \<and> (\<exists>q. locking_queue (rmq g') = q @
      [\<lparr>sm_action = ''unlock'', sm_user = u, sm_showtime = s, sm_seats = ts, sm_timestamp = m\<rparr>]))"
    and "keeps_holders R g g'"
    and "gw_admitted s' t g' \<longleftrightarrow> gw_admitted s' t g \<and> \<not> (s' = s \<and> t \<in> set ts)"
proof -
  obtain r g0 where r: "get_or_create_show_actor R n s c g = (r, g0)"
    by (cases "get_or_create_show_actor R n s c g")
  note fr = get_or_create_frame [OF r] and ok = get_or_create_ok [OF r assms(1)]
  note d = assms(3) [unfolded cancel_def r]
  obtain a where a: "r = Inr a" "length ts = length idx" using d by (cases r) (auto split: if_splits)
  obtain a1 where a1: "begin_request n a = Inr a1" using d a by (cases "begin_request n a") auto
  obtain ps a2 where a2: "register_all (zip ts idx) a1 = (Inr ps, a2)"
    using d a a1 by (cases "register_all (zip ts idx) a1"; cases "fst (register_all (zip ts idx) a1)") auto
  note b = begin_request_Inr [OF a1]
  have act: "actor_of s g0 = Some a" using fr(5) a(1) .
  then have aok: "actor_ok a" "length (sender a) \<le> SHOW_QUEUE_CAPACITY"
    "\<forall>x \<in> set (sender a). in_i32 (task_user x)" using ok(1) by (auto simp: gw_ok_def actors_ok_def)
  have "actor_ok a1" using b aok by simp
  note reg = register_all_spec [OF this a2]
  have okp: "gw_ok R (put_actor s a2 g0)" by (rule gw_ok_put [OF ok(1)]) (use reg b aok in simp_all)
  have adm0: "gw_admitted s' t (put_actor s a2 g0) = gw_admitted s' t g" for s' t
    using reg b ok(2) [of s' t] act by (auto simp: gw_admitted_def)
  obtain pk g2 where g2: "on_net pool_get (put_actor s a2 g0) = (pk, g2)"
    by (cases "on_net pool_get (put_actor s a2 g0)")
  obtain busy g3 where g3: "(if pk then checkout_active R s ts g2 else (False, g2)) = (busy, g3)"
    by (cases "if pk then checkout_active R s ts g2 else (False, g2)")
  have same: "same_but_net (put_actor s a2 g0) g3"
    using same_but_net_trans [OF on_net_pool_get [OF g2]] on_net_pool_get [OF g2] g3
    by (auto dest: checkout_active_frame split: if_splits)
  have ok3: "gw_ok R g3"
    using okp same same_but_net_actor [OF same] sn_ok_nodes [of "net g3" "net (put_actor s a2 g0)" R]
    by (simp add: gw_ok_def actors_ok_def same_but_net_def)
  let ?g4 = "clear_admission s ts g3"
  have ok4: "gw_ok R ?g4" using clear_admission_ok [OF ok3] .
  obtain a4 where a4: "actor_of s ?g4 = Some a4"
    using same_but_net_actor [OF same, of s] by (simp add: clear_admission_def)
  obtain rs g5 where g5: "run_show_actor R m s (upd_actor s (\<lambda>a. a\<lparr>sender := sender a @ [TCancel u ts]\<rparr>) ?g4) = (rs, g5)"
    by (cases "run_show_actor R m s (upd_actor s (\<lambda>a. a\<lparr>sender := sender a @ [TCancel u ts]\<rparr>) ?g4)")
  have fin: "res = (case last rs of RCancel res \<Rightarrow> res | RLock _ \<Rightarrow> [])" "g' = upd_actor s (drop_lease n) g5"
    using d a a1 a2 g2 g3 g5 by (auto simp: Let_def split: if_splits)
  note h = run_show_actor_cancel [OF ok4 a4 assms(2) g5]
  show "(res = [] \<or> res = ts \<and> (\<exists>q. locking_queue (rmq g') = q @
      [\<lparr>sm_action = ''unlock'', sm_user = u, sm_showtime = s, sm_seats = ts, sm_timestamp = m\<rparr>]))"
    using h(1) fin by auto
  have "nodes (net ?g4) = nodes (net g)" using same fr(1) by (simp add: same_but_net_def)
  then show "keeps_holders R g g'"
    using h(2) fin by (simp add: keeps_holders_def sn_holder_def)
  have "gw_admitted s' t g3 = gw_admitted s' t g" for s' t
    using adm0 [of s' t] same_but_net_actor [OF same] by (simp add: gw_admitted_def)
  then show "gw_admitted s' t g' \<longleftrightarrow> gw_admitted s' t g \<and> \<not> (s' = s \<and> t \<in> set ts)"
    using h(3) fin by (simp add: gw_admitted_clear [OF ok3])
qed

end

section \<open>Properties\<close>

definition empty_gateway :: "keyspace gateway" where
  "empty_gateway =
     \<lparr>show_actors = [], closed_shows = {}, net = fresh_world 1,
      rmq = \<lparr>rmq_channel = True, rmq_faults = [], locking_queue = []\<rparr>\<rparr>"

lemma empty_gateway_ok: "gw_ok mem_redis empty_gateway"
  by (simp add: gw_ok_def actors_ok_def empty_gateway_def actor_of_def)

lemmas gateway_eval =
  lock_def cancel_def lock_submit_def get_or_create_show_actor_def empty_gateway_def closed_in_redis_def
  on_net_def fresh_world_def reading_def EXISTS_def mem_redis_simps checked_seat_count_def
  MAX_SEATS_PER_SHOW_def actor_of_def put_actor_def validate_seat_count_def begin_request_def actor_eval
  SHOW_QUEUE_CAPACITY_def run_show_actor_def upd_actor_def acquire_and_publish_def acquire_eval
  lock_finish_def clear_admission_def drop_lease_def cancel_committed_def publish_to_locking_queue_def

text \<open>
  C27 (what a lock request returns is true). Under any faults of the network and of the broker, and with any
  requests queued before it on the actor, the answer of \<open>lock\<close> splits the requested seats into
  locked and failed ones, each seat it reports as locked is held by the caller in Redis when the
  handler returns, and no lock somebody held before has been lost.
\<close>

theorem lock_reports_held_seats:
  assumes "redis_service R" "gw_ok R g" "in_i32 u" "lock R n m u s ts idx c g = (Inr res, g')"
  shows "mset (locked_seat_ids res @ failed_seat_ids res) = mset ts \<and>
    (\<forall>t \<in> set (locked_seat_ids res). sn_holder R s t (net g') = Some u) \<and>
    (\<forall>s' t v. sn_holder R s' t (net g) = Some v \<longrightarrow> sn_holder R s' t (net g') = Some v)"
  using redis_service.lock_spec [OF assms] by (simp add: keeps_holders_def)

theorem lock_reports_held_seats_witness:
  "\<exists>g'. lock mem_redis 0 0 7 5 [1] [1] 1 empty_gateway =
       (Inr \<lparr>locked_seat_ids = [1], failed_seat_ids = []\<rparr>, g') \<and>
     sn_holder mem_redis 5 1 (net g') = Some 7"
proof -
  let ?r = "lock mem_redis 0 0 7 5 [1] [1] 1 empty_gateway"
  have f: "fst ?r = Inr \<lparr>locked_seat_ids = [1], failed_seat_ids = []\<rparr>"
    by (simp add: gateway_eval)
  obtain g' where r: "?r = (Inr \<lparr>locked_seat_ids = [1], failed_seat_ids = []\<rparr>, g')"
    using f by (cases ?r) auto
  from lock_reports_held_seats [OF mem.redis_service_axioms empty_gateway_ok _ r]
  show ?thesis using r by (simp add: in_i32_def)
qed

text \<open>
  C28 (admission flags follow the outcome). After \<open>lock\<close> the gateway's seat flags are those from before plus
  the seats the request locked: a seat that was refused, by the flags, by a full channel or by Redis,
  is never left marked, and an error leaves every flag as it was. The invariant of the gateway
  (bijective seat maps, channels within their capacity, well-formed locks) is kept.
\<close>

theorem lock_admission_flags:
  assumes "redis_service R" "gw_ok R g" "in_i32 u" "lock R n m u s ts idx c g = (r, g')"
  shows "gw_ok R g' \<and>
    (\<forall>s' t. gw_admitted s' t g' \<longleftrightarrow> gw_admitted s' t g \<or>
       s' = s \<and> (case r of Inl e \<Rightarrow> False | Inr res \<Rightarrow> t \<in> set (locked_seat_ids res)))"
  using redis_service.lock_spec [OF assms] by (cases r) auto

theorem lock_admission_flags_witness:
  "\<not> gw_admitted 5 1 (snd (lock mem_redis 0 0 7 5 [1] [2] 1 empty_gateway))"
proof -
  let ?r = "lock mem_redis 0 0 7 5 [1] [2] 1 empty_gateway"
  have "fst ?r = Inl ''seat index is outside the show seat count''"
    by (simp add: gateway_eval)
  then obtain g' where r: "?r = (Inl ''seat index is outside the show seat count'', g')"
    by (cases ?r) auto
  from lock_admission_flags [OF mem.redis_service_axioms empty_gateway_ok _ r]
  show ?thesis using r by (simp add: in_i32_def) (simp add: gw_admitted_def empty_gateway_def actor_of_def)
qed

text \<open>
  (cancelling). A cancellation that returns has cleared the admission of exactly its seats; it reports
  the seats only when the unlock message for them is the last one in the locking queue, and it takes
  no lock away by itself.
\<close>

theorem cancel_queues_unlock:
  assumes "redis_service R" "gw_ok R g" "in_i32 u" "cancel R n m u s ts idx c g = (Inr res, g')"
  shows "(res = [] \<or> res = ts \<and> (\<exists>q. locking_queue (rmq g') = q @
      [\<lparr>sm_action = ''unlock'', sm_user = u, sm_showtime = s, sm_seats = ts, sm_timestamp = m\<rparr>])) \<and>
    (\<forall>s' t. gw_admitted s' t g' \<longleftrightarrow> gw_admitted s' t g \<and> \<not> (s' = s \<and> t \<in> set ts)) \<and>
    (\<forall>s' t v. sn_holder R s' t (net g) = Some v \<longrightarrow> sn_holder R s' t (net g') = Some v)"
  using redis_service.cancel_spec [OF assms] by (simp add: keeps_holders_def)

theorem cancel_queues_unlock_witness:
  "\<exists>g' q. cancel mem_redis 0 9 7 5 [1] [1] 1 empty_gateway = (Inr [1], g') \<and>
     locking_queue (rmq g') = q @
       [\<lparr>sm_action = ''unlock'', sm_user = 7, sm_showtime = 5, sm_seats = [1], sm_timestamp = 9\<rparr>]"
proof -
  let ?r = "cancel mem_redis 0 9 7 5 [1] [1] 1 empty_gateway"
  have "fst ?r = Inr [1]" by (simp add: gateway_eval)
  then obtain g' where r: "?r = (Inr [1], g')" by (cases ?r) auto
  from cancel_queues_unlock [OF mem.redis_service_axioms empty_gateway_ok _ r]
  show ?thesis using r by (simp add: in_i32_def)
qed

text \<open>
  C36 (closed schedules). Once the gateway has handled \<open>ScheduleClosed\<close> for a schedule, its actor is gone and
  every lock and cancel request for it is refused without any effect, until \<open>ScheduleOpened\<close> arrives;
  the actors of other schedules are untouched by both events.
\<close>

theorem closed_schedule_refuses:
  assumes "in_i32 s" "length ts = length idx"
    and "handle_schedule_lifecycle_message (Some (event_json (ScheduleClosed s))) g = g1"
  shows "lock R n m u s ts idx c g1 = (Inl ''schedule is closed'', g1) \<and>
    cancel R n m u s ts idx c g1 = (Inl ''schedule is closed'', g1) \<and> actor_of s g1 = None \<and>
    (\<forall>s'. s' \<noteq> s \<longrightarrow> actor_of s' g1 = actor_of s' g) \<and>
    s \<notin> closed_shows (handle_schedule_lifecycle_message (Some (event_json (ScheduleOpened s))) g1)"
proof -
  have ev: "event_of_json (event_json (ScheduleClosed s)) = Some (ScheduleClosed s)"
    "event_of_json (event_json (ScheduleOpened s)) = Some (ScheduleOpened s)"
    by (rule event_of_json_event_json, use assms(1) in simp)+
  have g1: "g1 = mark_schedule_closed s g"
    using assms(3) ev(1) unfolding handle_schedule_lifecycle_message_def by (simp del: event_json.simps)
  then have "s \<in> closed_shows g1" by (simp add: mark_schedule_closed_def)
  moreover have "actor_of s g1 = None" "s' \<noteq> s \<Longrightarrow> actor_of s' g1 = actor_of s' g" for s'
    by (simp_all add: g1 mark_schedule_closed_def actor_of_def delete_conv')
  ultimately show ?thesis
    using assms(2) ev(2)
    by (simp add: lock_def lock_submit_def cancel_def get_or_create_show_actor_def
        handle_schedule_lifecycle_message_def del: event_json.simps)
qed

theorem closed_schedule_refuses_witness:
  "fst (lock mem_redis 0 0 7 5 [1] [1] 1
     (handle_schedule_lifecycle_message (Some (event_json (ScheduleClosed 5))) empty_gateway)) =
   Inl ''schedule is closed''"
  using closed_schedule_refuses [of 5 "[1]" "[1]" empty_gateway _ mem_redis 0 0 7 1]
  by (simp add: in_i32_def)

text \<open>
  (expiry is safe). One pass of the gateway's expiry loop, under any faults, takes a seat from its holder
  only if a due entry of the queue names exactly that schedule, seat and user.
\<close>

theorem expiry_needs_due_entry:
  assumes "redis_service R" "sn_ok R (net g)" "sn_holder R s t (net g) = Some v"
    and "\<forall>x \<in> set (ZRANGE R seat_processing_queue_key None (Some now) (nodes (net g) ! 0)).
      dec_entry J x \<noteq> Some (mk_entry t s v)"
  shows "sn_holder R s t (net (release_expired_locks R J now g)) = Some v"
  using redis_service.release_expired_locks_held_by [OF assms(1) _ assms(4)] assms(2,3)
  by (simp add: held_by_def)

theorem expiry_needs_due_entry_witness:
  "let g = snd (lock mem_redis 0 0 7 5 [1] [1] 1 empty_gateway)
   in sn_holder mem_redis 5 1 (net (release_expired_locks mem_redis json_codec 1000 g)) = Some 7"
proof -
  let ?g = "snd (lock mem_redis 0 0 7 5 [1] [1] 1 empty_gateway)"
  have "sn_ok mem_redis (net ?g)"
    using mem.lock_spec [OF empty_gateway_ok, of 7 0 0 5 "[1]" "[1]" 1 "fst (lock mem_redis 0 0 7 5 [1] [1] 1 empty_gateway)" ?g]
    by (simp add: gw_ok_def in_i32_def)
  moreover have "sn_holder mem_redis 5 1 (net ?g) = Some 7"
    "ZRANGE mem_redis seat_processing_queue_key None (Some 1000) (nodes (net ?g) ! 0) = []"
    by (simp_all add: gateway_eval sn_holder_def lock_cell_def in_i32_def key_simps zset_of_def)
  ultimately have "sn_holder mem_redis 5 1 (net (release_expired_locks mem_redis json_codec 1000 ?g)) = Some 7"
    using expiry_needs_due_entry [OF mem.redis_service_axioms, of ?g 5 1 7 1000 json_codec] by simp
  then show ?thesis by (simp add: Let_def)
qed

text \<open>
  C34 (what expiry does). When the exchanges are delivered, a due entry of the seat's holder frees the seat:
  the lock and the admission flag are gone and \<open>SeatUnlocked\<close> is published to the room; while a
  checkout is in progress for the seat it keeps its holder and its admission instead.
\<close>

theorem due_entry_frees_seat:
  assumes "redis_service R" "gw_ok R g" "faults (net g) = []" "dec_entry J x = Some (mk_entry t s u)"
    and "in_i32 t" "0 \<le> t" "sn_holder R s t (net g) = Some u"
  shows "let busy = EXISTS R (seat_checkout_key s t) (nodes (net g) ! 0); g' = expire_entry R J now x g
         in sn_holder R s t (net g') = (if busy then Some u else None) \<and>
            (gw_admitted s t g' \<longleftrightarrow> busy \<and> gw_admitted s t g) \<and>
            (\<not> busy \<longrightarrow> published (net g') =
               (0, room_channel s, event_json (SeatUnlocked u s t)) # published (net g))"
  using redis_service.expire_entry_delivered [OF assms] by (simp add: Let_def)

theorem due_entry_frees_seat_witness:
  "let g = snd (lock mem_redis 0 0 7 5 [1] [1] 1 empty_gateway);
       g' = expire_entry mem_redis json_codec 1000 (enc_entry json_codec (mk_entry 1 5 7)) g
   in sn_holder mem_redis 5 1 (net g') = None \<and> \<not> gw_admitted 5 1 g'"
proof -
  let ?g = "snd (lock mem_redis 0 0 7 5 [1] [1] 1 empty_gateway)"
  have ok: "gw_ok mem_redis ?g"
    using mem.lock_spec [OF empty_gateway_ok, of 7 0 0 5 "[1]" "[1]" 1 "fst (lock mem_redis 0 0 7 5 [1] [1] 1 empty_gateway)" ?g]
    by (simp add: in_i32_def)
  have e: "sn_holder mem_redis 5 1 (net ?g) = Some 7" "faults (net ?g) = []"
    "\<not> EXISTS mem_redis (seat_checkout_key 5 1) (nodes (net ?g) ! 0)"
    by (simp_all add: gateway_eval sn_holder_def lock_cell_def in_i32_def key_simps)
  have "dec_entry json_codec (enc_entry json_codec (mk_entry 1 5 7)) = Some (mk_entry 1 5 7)"
    using codec_ok_json_codec by (simp add: codec_ok_def)
  from due_entry_frees_seat [OF mem.redis_service_axioms ok e(2) this _ _ e(1), of 1000] e(3)
  show ?thesis by (simp add: Let_def in_i32_def)
qed

text \<open>
  C40 (the gateway does not understand its own events). The listener of the room channels clears admissions
  only for the events \<open>seat_unlocked\<close> and \<open>seat_booked\<close> with a list \<open>seat_ids\<close>. No event of the shared
  type \<open>PubSubEvent\<close>, as \<open>publish_room\<close> sends them, has that form: whatever is published, the flags of
  every other gateway stay as they are.
\<close>

theorem pubsub_events_are_ignored:
  "handle_pubsub_message (Some (event_json e)) channel g = g"
  by (cases e) (simp_all add: handle_pubsub_message_def)

end
