(* ===== verification/Circuit_Breaker.thy ===== *)
theory Circuit_Breaker
  imports Redis_Keys Wire_Format
begin

text \<open>
  The circuit breaker the gateway keeps in Redis for each downstream service
  (\<open>apps/gateway-keeper/src/circuit_breaker.rs\<close>), with every fallback of its Redis calls. The abstract
  machine \<open>breaker\<close> (closed, open until a deadline, half open, with a failure counter) abstracts its keys, and
  what it answers is then told by the history of checks, successes and failures alone.
\<close>

section \<open>Keys and commands\<close>

definition cb_state_key :: "string \<Rightarrow> string" where
  "cb_state_key service = ''cb:'' @ service @ '':state''"

definition cb_until_key :: "string \<Rightarrow> string" where
  "cb_until_key service = ''cb:'' @ service @ '':open_until''"

definition cb_failures_key :: "string \<Rightarrow> string" where
  "cb_failures_key service = ''cb:'' @ service @ '':failures''"

lemma cb_keys_distinct [key_simps]:
  "cb_state_key s \<noteq> cb_until_key s" "cb_until_key s \<noteq> cb_state_key s"
  "cb_state_key s \<noteq> cb_failures_key s" "cb_failures_key s \<noteq> cb_state_key s"
  "cb_until_key s \<noteq> cb_failures_key s" "cb_failures_key s \<noteq> cb_until_key s"
  by (simp_all add: cb_state_key_def cb_until_key_def cb_failures_key_def)

definition in_u32 :: "int \<Rightarrow> bool" where
  "in_u32 n \<longleftrightarrow> 0 \<le> n \<and> n < 2 ^ 32"

text \<open>\<open>INCR key\<close> read as a \<open>u32\<close>; \<open>None\<close> is an error of the command or of the conversion.\<close>

definition incr_u32 :: "'r redis \<Rightarrow> string \<Rightarrow> 'r \<Rightarrow> int option \<times> 'r" where
  "incr_u32 R k r =
     (let r1 = INCRBY R k 1 r in (Option.bind (GET R k r1) (parse_within in_u32), r1))"

section \<open>Operations\<close>

record RedisCircuitBreaker =
  failure_threshold :: int
  open_ttl_secs :: int

definition the_state :: "string option option \<Rightarrow> string" where
  "the_state res = (case res of Some (Some v) \<Rightarrow> v | _ \<Rightarrow> ''CLOSED'')"

definition open_until_value :: "string option option \<Rightarrow> int" where
  "open_until_value res = (case res of Some (Some v) \<Rightarrow> (case parse_within in_i64 v of Some n \<Rightarrow> n | None \<Rightarrow> 0) | _ \<Rightarrow> 0)"

definition allow_request :: "'r redis \<Rightarrow> int \<Rightarrow> string \<Rightarrow> ('r, 'p) world \<Rightarrow> bool \<times> ('r, 'p) world" where
  "allow_request R now service w =
     (case pool_get w of (ok, w1) \<Rightarrow>
        if \<not> ok then (True, w1)
        else
          (case send 0 (reading (GET R (cb_state_key service))) w1 of (current_state, w2) \<Rightarrow>
             if the_state current_state = ''OPEN'' then
               (case send 0 (reading (GET R (cb_until_key service))) w2 of (until_res, w3) \<Rightarrow>
                  if now < open_until_value until_res then (False, w3)
                  else (True, snd (send 0 (writing (SET R (cb_state_key service) ''HALF_OPEN'')) w3)))
             else (True, w2)))"

definition record_success :: "'r redis \<Rightarrow> string \<Rightarrow> ('r, 'p) world \<Rightarrow> ('r, 'p) world" where
  "record_success R service w =
     (case pool_get w of (ok, w1) \<Rightarrow>
        if \<not> ok then w1
        else
          (let w2 = snd (send 0 (reading (GET R (cb_state_key service))) w1);
               w3 = snd (send 0 (writing (DEL R (cb_failures_key service))) w2)
           in snd (send 0 (writing (SET R (cb_state_key service) ''CLOSED'')) w3)))"

definition record_failure ::
    "'r redis \<Rightarrow> RedisCircuitBreaker \<Rightarrow> int \<Rightarrow> string \<Rightarrow> ('r, 'p) world \<Rightarrow> ('r, 'p) world" where
  "record_failure R cb now service w =
     (case pool_get w of (ok, w1) \<Rightarrow>
        if \<not> ok then w1
        else
          (case send 0 (reading (GET R (cb_state_key service))) w1 of (current_state, w2) \<Rightarrow>
             case send 0 (incr_u32 R (cb_failures_key service)) w2 of (inc, w3) \<Rightarrow>
               let failures = (case inc of Some (Some n) \<Rightarrow> n | _ \<Rightarrow> 1)
               in if failure_threshold cb \<le> failures \<or> the_state current_state = ''HALF_OPEN'' then
                    (let w4 = snd (send 0 (writing (SET R (cb_state_key service) ''OPEN'')) w3)
                     in snd (send 0 (writing (SET R (cb_until_key service) (dec (now + open_ttl_secs cb)))) w4))
                  else w3))"

section \<open>The abstract machine\<close>

datatype phase = Closed | Open | HalfOpen

record breaker =
  phase :: phase
  failures :: int
  open_until :: int

definition spec_allow :: "int \<Rightarrow> breaker \<Rightarrow> bool \<times> breaker" where
  "spec_allow now b =
     (if phase b = Open then (if now < open_until b then (False, b) else (True, b\<lparr>phase := HalfOpen\<rparr>))
      else (True, b))"

definition spec_success :: "breaker \<Rightarrow> breaker" where
  "spec_success b = b\<lparr>phase := Closed, failures := 0\<rparr>"

definition spec_failure :: "RedisCircuitBreaker \<Rightarrow> int \<Rightarrow> breaker \<Rightarrow> breaker" where
  "spec_failure cb now b =
     (let b1 = b\<lparr>failures := failures b + 1\<rparr>
      in if failure_threshold cb \<le> failures b1 \<or> phase b = HalfOpen
         then b1\<lparr>phase := Open, open_until := now + open_ttl_secs cb\<rparr> else b1)"

definition cb_view :: "'r redis \<Rightarrow> string \<Rightarrow> ('r, 'p) world \<Rightarrow> breaker" where
  "cb_view R service w =
     (let r = nodes w ! 0; st = GET R (cb_state_key service) r
      in \<lparr>phase = (if st = Some ''OPEN'' then Open else if st = Some ''HALF_OPEN'' then HalfOpen else Closed),
          failures = (case GET R (cb_failures_key service) r of
              Some v \<Rightarrow> (case parse_within in_u32 v of Some n \<Rightarrow> n | None \<Rightarrow> 0) | None \<Rightarrow> 0),
          open_until = open_until_value (Some (GET R (cb_until_key service) r))\<rparr>)"

definition counter_ok :: "rentry option \<Rightarrow> bool" where
  "counter_ok e \<longleftrightarrow> e = None \<or> (\<exists>n ttl. 0 \<le> n \<and> n < 2 ^ 32 - 1 \<and> e = Some (str_entry (dec n) ttl))"

text \<open>The counter is absent or below its last value, and every exchange is delivered.\<close>

definition cb_ok :: "'r redis \<Rightarrow> string \<Rightarrow> ('r, 'p) world \<Rightarrow> bool" where
  "cb_ok R service w \<longleftrightarrow> nodes w \<noteq> [] \<and> faults w = [] \<and> counter_ok (look R (nodes w ! 0) (cb_failures_key service))"

lemma str_of_simps [simp]: "str_of (Some (str_entry v ttl)) = Some v" "str_of None = None"
  by (simp_all add: str_of_def str_entry_def)

lemma incr_entry_simps [simp]:
  "incr_entry d None = Some (str_entry (dec d) None)"
  "incr_entry d (Some (str_entry (dec n) ttl)) = Some (str_entry (dec (n + d)) ttl)"
  by (simp_all add: incr_entry_def str_entry_def)

lemma parse_u32_dec [simp]: "0 \<le> n \<Longrightarrow> n < 2 ^ 32 \<Longrightarrow> parse_within in_u32 (dec n) = Some n"
  by (simp add: parse_within_def in_u32_def)

lemma the_state_Some [simp]:
  "the_state (Some x) = ''OPEN'' \<longleftrightarrow> x = Some ''OPEN''"
  "the_state (Some x) = ''HALF_OPEN'' \<longleftrightarrow> x = Some ''HALF_OPEN''"
  by (auto simp: the_state_def split: option.split)

context redis_service
begin

lemma incr_u32_spec:
  assumes "counter_ok (look R r k)"
  obtains n ttl where "incr_u32 R k r = (Some (n + 1), INCRBY R k 1 r)" "0 \<le> n" "n < 2 ^ 32 - 1"
    "look R (INCRBY R k 1 r) = (look R r)(k \<mapsto> str_entry (dec (n + 1)) ttl)"
    "(case GET R k r of Some v \<Rightarrow> (case parse_within in_u32 v of Some n \<Rightarrow> n | None \<Rightarrow> 0) | None \<Rightarrow> 0) = n"
proof -
  consider "look R r k = None" | n ttl where "0 \<le> n" "n < 2 ^ 32 - 1" "look R r k = Some (str_entry (dec n) ttl)"
    using assms by (auto simp: counter_ok_def)
  then show thesis
  proof cases
    case 1
    then show ?thesis
      using that [of 0 None] by (simp add: incr_u32_def Let_def GET_def parse_within_def in_u32_def)
  next
    case 2
    then show ?thesis
      using that [of n ttl] by (simp add: incr_u32_def Let_def GET_def parse_within_def in_u32_def)
  qed
qed

lemma allow_request_refines:
  assumes "cb_ok R service w" "allow_request R now service w = (b, w')"
  shows "(b, cb_view R service w') = spec_allow now (cb_view R service w)" "cb_ok R service w'"
proof -
  let ?r = "nodes w ! 0"
  have n: "0 < length (nodes w)" "faults w = []" using assms(1) by (auto simp: cb_ok_def)
  note ev = assms(2) [unfolded allow_request_def]
  show "(b, cb_view R service w') = spec_allow now (cb_view R service w)" "cb_ok R service w'"
    using ev n assms(1)
    by (auto simp: reading_def writing_def spec_allow_def cb_view_def Let_def GET_def key_simps cb_ok_def
        split: if_splits)
qed

lemma record_success_refines:
  assumes "cb_ok R service w"
  shows "cb_view R service (record_success R service w) = spec_success (cb_view R service w)"
    and "cb_ok R service (record_success R service w)"
proof -
  have n: "0 < length (nodes w)" "faults w = []" using assms by (auto simp: cb_ok_def)
  then show "cb_view R service (record_success R service w) = spec_success (cb_view R service w)"
    "cb_ok R service (record_success R service w)"
    by (simp_all add: record_success_def reading_def writing_def spec_success_def cb_view_def Let_def GET_def
        key_simps cb_ok_def counter_ok_def)
qed

lemma record_failure_refines:
  assumes "cb_ok R service w" "in_i64 (now + open_ttl_secs cb)"
    and "failures (cb_view R service w) < 2 ^ 32 - 2"
  shows "cb_view R service (record_failure R cb now service w) = spec_failure cb now (cb_view R service w)"
    and "cb_ok R service (record_failure R cb now service w)"
proof -
  let ?r = "nodes w ! 0" and ?k = "cb_failures_key service"
  have n: "0 < length (nodes w)" "faults w = []" and c: "counter_ok (look R ?r ?k)"
    using assms(1) by (auto simp: cb_ok_def)
  obtain k ttl where k: "incr_u32 R ?k ?r = (Some (k + 1), INCRBY R ?k 1 ?r)" "0 \<le> k" "k < 2 ^ 32 - 1"
    "look R (INCRBY R ?k 1 ?r) = (look R ?r)(?k \<mapsto> str_entry (dec (k + 1)) ttl)"
    "(case GET R ?k ?r of Some v \<Rightarrow> (case parse_within in_u32 v of Some n \<Rightarrow> n | None \<Rightarrow> 0) | None \<Rightarrow> 0) = k"
    by (rule incr_u32_spec [OF c])
  have k4: "incr_entry 1 (look R ?r ?k) = Some (str_entry (dec (k + 1)) ttl)"
    using fun_cong [OF k(4), of ?k] by simp
  have fl: "failures (cb_view R service w) = k" using k(5) by (simp add: cb_view_def Let_def)
  have kb: "k < 2 ^ 32 - 2" using assms(3) fl by simp
  have ok': "counter_ok (Some (str_entry (dec (k + 1)) ttl))"
    unfolding counter_ok_def using k(2) kb by (intro disjI2 exI [of _ "k + 1"] exI [of _ ttl]) simp
  have p: "parse_within in_u32 (dec (k + 1)) = Some (k + 1)" using k(2) kb by simp
  have u: "open_until_value (Some (Some (dec (now + open_ttl_secs cb)))) = now + open_ttl_secs cb"
    using assms(2) by (simp add: open_until_value_def parse_within_def)
  let ?open = "failure_threshold cb \<le> k + 1 \<or> GET R (cb_state_key service) ?r = Some ''HALF_OPEN''"
  let ?r1 = "INCRBY R ?k 1 ?r"
  let ?r2 = "SET R (cb_until_key service) (dec (now + open_ttl_secs cb)) (SET R (cb_state_key service) ''OPEN'' ?r1)"
  have eq: "record_failure R cb now service w = w\<lparr>nodes := (nodes w)[0 := if ?open then ?r2 else ?r1]\<rparr>"
    using n k(1) by (simp add: record_failure_def reading_def writing_def Let_def)
  show "cb_view R service (record_failure R cb now service w) = spec_failure cb now (cb_view R service w)"
  proof (cases ?open)
    case True
    then have "spec_failure cb now (cb_view R service w) =
        \<lparr>phase = Open, failures = k + 1, open_until = now + open_ttl_secs cb\<rparr>"
      using k(5) by (auto simp: spec_failure_def cb_view_def Let_def)
    moreover have "cb_view R service (record_failure R cb now service w) =
        \<lparr>phase = Open, failures = k + 1, open_until = now + open_ttl_secs cb\<rparr>"
      unfolding eq using True n p u by (simp add: cb_view_def Let_def GET_def k4 key_simps)
    ultimately show ?thesis by simp
  next
    case False
    then show ?thesis
      unfolding eq using n p k(5) by (simp add: cb_view_def spec_failure_def Let_def GET_def k4 key_simps)
  qed
  show "cb_ok R service (record_failure R cb now service w)"
    unfolding eq using n ok' by (simp add: cb_ok_def k4 key_simps)
qed

end

section \<open>Histories\<close>

text \<open>
  What happened to a service, oldest first: a request is checked, a call succeeds, a call fails. The breaker sees
  each as it happens; what it should answer is read off the history alone.
\<close>

datatype cb_event = Check int | Success | Failure int

fun cb_step :: "'r redis \<Rightarrow> RedisCircuitBreaker \<Rightarrow> string \<Rightarrow> cb_event \<Rightarrow> ('r, 'p) world \<Rightarrow> ('r, 'p) world" where
  "cb_step R cb service (Check now) w = snd (allow_request R now service w)"
| "cb_step R cb service Success w = record_success R service w"
| "cb_step R cb service (Failure now) w = record_failure R cb now service w"

definition cb_replay ::
    "'r redis \<Rightarrow> RedisCircuitBreaker \<Rightarrow> string \<Rightarrow> cb_event list \<Rightarrow> ('r, 'p) world \<Rightarrow> ('r, 'p) world" where
  "cb_replay R cb service log w = fold (cb_step R cb service) log w"

fun event_times :: "cb_event list \<Rightarrow> int list" where
  "event_times [] = []"
| "event_times (Check t # es) = t # event_times es"
| "event_times (Success # es) = event_times es"
| "event_times (Failure t # es) = t # event_times es"

text \<open>The times of the failures since the last success.\<close>

definition recent_failures :: "cb_event list \<Rightarrow> int list" where
  "recent_failures log =
     fold (\<lambda>e ts. case e of Check _ \<Rightarrow> ts | Success \<Rightarrow> [] | Failure t \<Rightarrow> ts @ [t]) log []"

definition tripped :: "RedisCircuitBreaker \<Rightarrow> int list \<Rightarrow> bool" where
  "tripped cb ts \<longleftrightarrow> ts \<noteq> [] \<and> failure_threshold cb \<le> int (length ts)"

definition must_refuse :: "RedisCircuitBreaker \<Rightarrow> cb_event list \<Rightarrow> int \<Rightarrow> bool" where
  "must_refuse cb log now \<longleftrightarrow>
     tripped cb (recent_failures log) \<and> now < last (recent_failures log) + open_ttl_secs cb"

lemma recent_failures_simps [simp]:
  "recent_failures [] = []" "recent_failures (log @ [Check t]) = recent_failures log"
  "recent_failures (log @ [Success]) = []" "recent_failures (log @ [Failure t]) = recent_failures log @ [t]"
  by (simp_all add: recent_failures_def)

lemma event_times_append [simp]: "event_times (es @ es') = event_times es @ event_times es'"
  by (induction es rule: event_times.induct) simp_all

text \<open>The machine's state told by the history.\<close>

definition tells :: "RedisCircuitBreaker \<Rightarrow> cb_event list \<Rightarrow> breaker \<Rightarrow> bool" where
  "tells cb log b \<longleftrightarrow>
     (let ts = recent_failures log
      in failures b = int (length ts) \<and> (phase b = Closed \<longleftrightarrow> \<not> tripped cb ts) \<and>
         (phase b = Open \<longrightarrow> open_until b = last ts + open_ttl_secs cb) \<and>
         (phase b = HalfOpen \<longrightarrow> (\<exists>t \<in> set (event_times log). last ts + open_ttl_secs cb \<le> t)))"

lemma tells_allow:
  assumes "tells cb log b" "\<forall>t \<in> set (event_times log). t \<le> now"
  shows "fst (spec_allow now b) = (\<not> must_refuse cb log now)" "tells cb (log @ [Check now]) (snd (spec_allow now b))"
proof -
  show "fst (spec_allow now b) = (\<not> must_refuse cb log now)"
    using assms by (cases "phase b") (auto simp: tells_def must_refuse_def spec_allow_def Let_def)
  show "tells cb (log @ [Check now]) (snd (spec_allow now b))"
    using assms(1) by (cases "phase b") (auto simp: tells_def spec_allow_def Let_def)
qed

lemma tells_success: "tells cb (log @ [Success]) (spec_success b)"
  by (simp add: tells_def spec_success_def tripped_def)

lemma tells_failure:
  assumes "tells cb log b"
  shows "tells cb (log @ [Failure now]) (spec_failure cb now b)"
  using assms by (cases "phase b") (auto simp: tells_def spec_failure_def tripped_def Let_def)

lemma length_recent_failures: "length (recent_failures log) \<le> length log"
proof (induction log rule: rev_induct)
  case (snoc e log)
  then show ?case by (cases e) simp_all
qed simp

lemma cb_replay_tells:
  assumes "redis_service R" "cb_ok R service w" "cb_view R service w = \<lparr>phase = Closed, failures = 0, open_until = d\<rparr>"
    and "sorted (event_times log)" "\<forall>t \<in> set (event_times log). in_i64 (t + open_ttl_secs cb)"
    and "int (length log) < 2 ^ 32 - 1"
  shows "cb_ok R service (cb_replay R cb service log w) \<and> tells cb log (cb_view R service (cb_replay R cb service log w))"
  using assms(4-6)
proof (induction log rule: rev_induct)
  case Nil
  then show ?case using assms(2,3) by (simp add: cb_replay_def tells_def tripped_def)
next
  case (snoc e log)
  let ?w = "cb_replay R cb service log w"
  have ih: "cb_ok R service ?w" "tells cb log (cb_view R service ?w)" using snoc by (simp_all add: sorted_append)
  have step: "cb_replay R cb service (log @ [e]) w = cb_step R cb service e ?w" by (simp add: cb_replay_def)
  show ?case
  proof (cases e)
    case (Check now)
    obtain b w' where a: "allow_request R now service ?w = (b, w')" by (cases "allow_request R now service ?w")
    note r = redis_service.allow_request_refines [OF assms(1) ih(1) a]
    have "cb_view R service w' = snd (spec_allow now (cb_view R service ?w))" using r(1) by (metis snd_conv)
    moreover have "\<forall>t \<in> set (event_times log). t \<le> now" using snoc.prems(1) Check by (simp add: sorted_append)
    ultimately show ?thesis using tells_allow(2) [OF ih(2)] r(2) a by (simp add: step [unfolded Check] Check)
  next
    case Success
    with redis_service.record_success_refines [OF assms(1) ih(1)] tells_success show ?thesis by (simp add: step [unfolded Success])
  next
    case (Failure now)
    have f: "failures (cb_view R service ?w) < 2 ^ 32 - 2"
      using ih(2) length_recent_failures [of log] snoc.prems(3) by (simp add: tells_def Let_def)
    have i: "in_i64 (now + open_ttl_secs cb)" using snoc.prems(2) Failure by simp
    from redis_service.record_failure_refines [OF assms(1) ih(1) i f] tells_failure [OF ih(2)]
    show ?thesis by (simp add: step [unfolded Failure] Failure)
  qed
qed

section \<open>Properties\<close>

text \<open>
  C35 (the breaker follows the history). Starting closed without failures, with its exchanges delivered and a clock
  that does not run backwards, whatever requests were checked and whatever calls succeeded or failed before: a
  request is refused exactly if the failures since the last success have reached the threshold and less than
  \<open>open_ttl_secs\<close> have passed since the latest of them. Once that time has passed every request is
  admitted, not one probe as the comment in the code says.
\<close>

theorem breaker_follows_history:
  assumes "redis_service R" "cb_ok R service w" "cb_view R service w = \<lparr>phase = Closed, failures = 0, open_until = d\<rparr>"
    and "sorted (event_times log @ [now])" "\<forall>t \<in> set (event_times log). in_i64 (t + open_ttl_secs cb)"
    and "int (length log) < 2 ^ 32 - 1"
  shows "fst (allow_request R now service (cb_replay R cb service log w)) = (\<not> must_refuse cb log now)"
proof -
  let ?w = "cb_replay R cb service log w"
  have s: "sorted (event_times log)" "\<forall>t \<in> set (event_times log). t \<le> now" using assms(4) by (simp_all add: sorted_append)
  note t = cb_replay_tells [OF assms(1-3) s(1) assms(5,6)]
  obtain b w' where a: "allow_request R now service ?w = (b, w')" by (cases "allow_request R now service ?w")
  have "b = fst (spec_allow now (cb_view R service ?w))"
    using redis_service.allow_request_refines(1) [OF assms(1) conjunct1 [OF t] a] by (metis fst_conv)
  with tells_allow(1) [OF conjunct2 [OF t] s(2)] a show ?thesis by simp
qed

definition cb_world :: "(keyspace, json) world" where
  "cb_world = \<lparr>nodes = [Map.empty], faults = [], published = []\<rparr>"

lemma cb_world_ok: "cb_ok mem_redis service cb_world"
  by (simp add: cb_ok_def cb_world_def counter_ok_def mem_redis_simps)

lemma cb_view_world: "cb_view mem_redis service cb_world = \<lparr>phase = Closed, failures = 0, open_until = 0\<rparr>"
  by (simp add: cb_view_def cb_world_def GET_def mem_redis_simps open_until_value_def Let_def)

definition gateway_breaker :: RedisCircuitBreaker where
  "gateway_breaker = \<lparr>failure_threshold = 3, open_ttl_secs = 30\<rparr>"

theorem breaker_follows_history_witness:
  "\<not> fst (allow_request mem_redis 1029 ''http-server'' (cb_replay mem_redis gateway_breaker ''http-server''
      [Failure 980, Success, Failure 990, Check 992, Failure 995, Failure 1000] cb_world))"
  using breaker_follows_history [OF mem.redis_service_axioms cb_world_ok cb_view_world,
      of "[Failure 980, Success, Failure 990, Check 992, Failure 995, Failure 1000]" 1029 gateway_breaker "''http-server''"]
  by (simp add: gateway_breaker_def in_i64_def must_refuse_def tripped_def recent_failures_def)

text \<open>Failures in a row, at the given times.\<close>

definition fail_all ::
    "'r redis \<Rightarrow> RedisCircuitBreaker \<Rightarrow> string \<Rightarrow> int list \<Rightarrow> ('r, 'p) world \<Rightarrow> ('r, 'p) world" where
  "fail_all R cb service nows w = fold (\<lambda>now v. record_failure R cb now service v) nows w"

definition spec_fail_all :: "RedisCircuitBreaker \<Rightarrow> int list \<Rightarrow> breaker \<Rightarrow> breaker" where
  "spec_fail_all cb nows b = fold (spec_failure cb) nows b"

lemma spec_fail_all_closed:
  "phase b = Closed \<Longrightarrow> failures b + int (length nows) < failure_threshold cb \<Longrightarrow>
   spec_fail_all cb nows b = b\<lparr>failures := failures b + int (length nows)\<rparr>"
proof (induction nows arbitrary: b)
  case (Cons t ts)
  have "spec_failure cb t b = b\<lparr>failures := failures b + 1\<rparr>"
    using Cons.prems by (simp add: spec_failure_def Let_def)
  with Cons show ?case by (simp add: spec_fail_all_def)
qed (simp add: spec_fail_all_def)

lemma failures_spec_failure: "failures (spec_failure cb now b) = failures b + 1"
  by (simp add: spec_failure_def Let_def)

lemma fail_all_refines:
  assumes "redis_service R" "cb_ok R service w" "\<forall>now \<in> set nows. in_i64 (now + open_ttl_secs cb)"
    and "failures (cb_view R service w) + int (length nows) < 2 ^ 32 - 1"
  shows "cb_view R service (fail_all R cb service nows w) = spec_fail_all cb nows (cb_view R service w) \<and>
    cb_ok R service (fail_all R cb service nows w)"
  using assms(2-4)
proof (induction nows arbitrary: w)
  case Nil
  then show ?case by (simp add: fail_all_def spec_fail_all_def)
next
  case (Cons t ts)
  let ?w = "record_failure R cb t service w"
  have pre: "cb_ok R service w" "in_i64 (t + open_ttl_secs cb)" "failures (cb_view R service w) < 2 ^ 32 - 2"
    using Cons.prems by auto
  note r = redis_service.record_failure_refines [OF assms(1) pre]
  have "cb_view R service (fail_all R cb service ts ?w) = spec_fail_all cb ts (cb_view R service ?w) \<and>
      cb_ok R service (fail_all R cb service ts ?w)"
    by (rule Cons.IH [OF r(2)]) (use Cons.prems r(1) in \<open>auto simp: failures_spec_failure\<close>)
  then show ?case using r(1) by (simp add: fail_all_def spec_fail_all_def)
qed

text \<open>
  (the breaker trips and recovers). From a closed breaker without failures, fewer failures in a row than
  the threshold leave every request allowed; the failure that reaches the threshold at time \<open>now\<close>
  refuses every request until \<open>now + open_ttl_secs\<close> and lets requests pass from then on.
\<close>

theorem breaker_trips_at_threshold:
  assumes "redis_service R" "cb_ok R service w" "cb_view R service w = \<lparr>phase = Closed, failures = 0, open_until = d\<rparr>"
    and "int (length nows) = failure_threshold cb - 1" "failure_threshold cb < 2 ^ 32 - 2"
    and "\<forall>t \<in> set (nows @ [now]). in_i64 (t + open_ttl_secs cb)"
  shows "fst (allow_request R t service (fail_all R cb service nows w)) \<and>
    fst (allow_request R t service (fail_all R cb service (nows @ [now]) w)) =
      (now + open_ttl_secs cb \<le> t)"
proof -
  have len: "int (length nows) < failure_threshold cb" using assms(4) by simp
  have b: "failures (cb_view R service w) + int (length nows) < 2 ^ 32 - 1"
    "failures (cb_view R service w) + int (length (nows @ [now])) < 2 ^ 32 - 1" using assms(3-5) by simp_all
  note f1 = fail_all_refines [OF assms(1,2) _ b(1), of cb] and f2 = fail_all_refines [OF assms(1,2) _ b(2), of cb]
  let ?w1 = "fail_all R cb service nows w" and ?w2 = "fail_all R cb service (nows @ [now]) w"
  have v1: "cb_view R service ?w1 = \<lparr>phase = Closed, failures = failure_threshold cb - 1, open_until = d\<rparr>"
    "cb_ok R service ?w1"
    using f1 assms(3,4,6) spec_fail_all_closed [of "cb_view R service w" nows cb] len by auto
  have "spec_fail_all cb (nows @ [now]) (cb_view R service w) =
      spec_failure cb now (spec_fail_all cb nows (cb_view R service w))"
    by (simp add: spec_fail_all_def)
  also have "\<dots> = \<lparr>phase = Open, failures = failure_threshold cb, open_until = now + open_ttl_secs cb\<rparr>"
    using spec_fail_all_closed [of "cb_view R service w" nows cb] assms(3,4) len
    by (simp add: spec_failure_def Let_def)
  finally have v2: "cb_view R service ?w2 =
      \<lparr>phase = Open, failures = failure_threshold cb, open_until = now + open_ttl_secs cb\<rparr>" "cb_ok R service ?w2"
    using f2 assms(6) by auto
  obtain b1 x1 b2 x2 where a: "allow_request R t service ?w1 = (b1, x1)" "allow_request R t service ?w2 = (b2, x2)"
    by (metis prod.collapse)
  from redis_service.allow_request_refines(1) [OF assms(1) v1(2) a(1)] v1(1)
    redis_service.allow_request_refines(1) [OF assms(1) v2(2) a(2)] v2(1)
  show ?thesis by (auto simp: a spec_allow_def split: if_splits)
qed

theorem breaker_trips_at_threshold_witness:
  "\<not> fst (allow_request mem_redis 1025 ''http-server''
      (fail_all mem_redis gateway_breaker ''http-server'' [990, 995, 1000] cb_world))"
  using breaker_trips_at_threshold [OF mem.redis_service_axioms cb_world_ok cb_view_world,
      of "[990, 995]" gateway_breaker 1000 1025 "''http-server''"]
  by (simp add: gateway_breaker_def in_i64_def)

text \<open>
  (half open admits everything). Once the open period has elapsed, the first check moves the breaker to
  half open; from then on every further request is allowed as well, however many, until one of them
  reports its outcome.
\<close>

theorem half_open_admits_every_request:
  assumes "redis_service R" "cb_ok R service w" "phase (cb_view R service w) = Open"
    and "open_until (cb_view R service w) \<le> now"
    and "allow_request R now service w = (b, w')"
  shows "b \<and> (\<forall>later. allow_request R later service w' = (True, w'))"
proof -
  from redis_service.allow_request_refines [OF assms(1,2,5)] assms(3,4)
  have b: "b" and v: "phase (cb_view R service w') = HalfOpen" and ok: "cb_ok R service w'"
    by (auto simp: spec_allow_def)
  have "GET R (cb_state_key service) (nodes w' ! 0) \<noteq> Some ''OPEN''"
    using v by (auto simp: cb_view_def Let_def split: if_splits)
  with ok b show ?thesis by (simp add: allow_request_def cb_ok_def reading_def)
qed

theorem half_open_admits_every_request_witness:
  "let w = fail_all mem_redis gateway_breaker ''http-server'' [990, 995, 1000] cb_world;
       w' = snd (allow_request mem_redis 1030 ''http-server'' w)
   in fst (allow_request mem_redis 1031 ''http-server'' w') \<and> fst (allow_request mem_redis 1032 ''http-server'' w')"
proof -
  let ?w = "fail_all mem_redis gateway_breaker ''http-server'' [990, 995, 1000] cb_world"
  have f: "cb_view mem_redis ''http-server'' ?w = spec_fail_all gateway_breaker [990, 995, 1000]
      (cb_view mem_redis ''http-server'' cb_world) \<and> cb_ok mem_redis ''http-server'' ?w"
    by (rule fail_all_refines [OF mem.redis_service_axioms cb_world_ok])
      (simp_all add: cb_view_world gateway_breaker_def in_i64_def)
  obtain b w' where a: "allow_request mem_redis 1030 ''http-server'' ?w = (b, w')"
    by (cases "allow_request mem_redis 1030 ''http-server'' ?w")
  have "\<forall>later. allow_request mem_redis later ''http-server'' w' = (True, w')"
    using half_open_admits_every_request [OF mem.redis_service_axioms _ _ _ a] f
    by (simp add: cb_view_world spec_fail_all_def spec_failure_def gateway_breaker_def Let_def)
  with a show ?thesis by (simp add: Let_def)
qed

end
