(* ===== verification/Rate_Limit.thy ===== *)
theory Rate_Limit
  imports Redis_Keys Wire_Format
begin

text \<open>
  The gateway's sliding-window rate limiter (\<open>apps/gateway-keeper/src/rate_limit_sliding.rs\<close>): a script on
  a sorted set of the admitted requests. Its reference is the plain definition of a sliding window, a
  log of all admitted requests of which those of the last window are counted; the script is proved
  to give the same answers although it forgets old entries and lets its key expire.
\<close>

section \<open>The limiter\<close>

definition rl_script ::
    "'r redis \<Rightarrow> string \<Rightarrow> int \<Rightarrow> int \<Rightarrow> int \<Rightarrow> int \<Rightarrow> string \<Rightarrow> 'r \<Rightarrow> (int \<times> int) \<times> 'r" where
  "rl_script R key now window_start limit ttl_ms member r =
     (let r1 = ZREMRANGE R key window_start r;
          count = int (ZCARD R key r1)
      in if count < limit
         then ((1, count + 1), PEXPIRE R key ttl_ms (ZADD R key now member r1))
         else ((0, count), r1))"

definition check_sliding_window ::
    "'r redis \<Rightarrow> int \<Rightarrow> int \<Rightarrow> string \<Rightarrow> int \<Rightarrow> int \<Rightarrow> ('r, 'p) world \<Rightarrow> (bool \<times> int \<times> int) \<times> ('r, 'p) world" where
  "check_sliding_window R now_ms rnd key limit window_ms w =
     (let window_start = now_ms - window_ms; member = dec now_ms @ '':'' @ dec rnd
      in case send 0 (rl_script R key now_ms window_start limit (window_ms * 2) member) w of
           (res, w1) \<Rightarrow>
             (let result = (case res of Some p \<Rightarrow> p | None \<Rightarrow> (0, 0))
              in ((fst result = 1, snd result, now_ms + window_ms), w1)))"

section \<open>The reference\<close>

type_synonym log = "(string \<times> int) list"

definition in_window :: "int \<Rightarrow> int \<Rightarrow> log \<Rightarrow> log" where
  "in_window window now A = filter (\<lambda>p. now - window < snd p) A"

definition spec_allows :: "int \<Rightarrow> int \<Rightarrow> int \<Rightarrow> log \<Rightarrow> bool" where
  "spec_allows limit window now A \<longleftrightarrow> int (length (in_window window now A)) < limit"

text \<open>Requests at the given times; between two of them the server's clock moves on.\<close>

fun rl_run ::
    "'r redis \<Rightarrow> string \<Rightarrow> int \<Rightarrow> int \<Rightarrow> int \<Rightarrow> (int \<times> int) list \<Rightarrow> ('r, 'p) world \<Rightarrow> bool list" where
  "rl_run R key limit window prev [] w = []"
| "rl_run R key limit window prev ((now, rnd) # xs) w =
     (case check_sliding_window R now rnd key limit window
             (w\<lparr>nodes := map (TICK R (now - prev)) (nodes w)\<rparr>) of
        ((ok, _, _), w1) \<Rightarrow> ok # rl_run R key limit window now xs w1)"

fun spec_run :: "int \<Rightarrow> int \<Rightarrow> (int \<times> int) list \<Rightarrow> log \<Rightarrow> bool list" where
  "spec_run limit window [] A = []"
| "spec_run limit window ((now, rnd) # xs) A =
     (let ok = spec_allows limit window now A
      in ok # spec_run limit window xs (if ok then (dec now @ '':'' @ dec rnd, now) # A else A))"

section \<open>The simulation\<close>

text \<open>
  The set in Redis and the log at time \<open>now\<close>: same entries within the window, no entry that was not
  logged, and a time to live that outlasts the window of every entry.
\<close>

definition rl_sim :: "int \<Rightarrow> int \<Rightarrow> log \<Rightarrow> rentry option \<Rightarrow> bool" where
  "rl_sim window now A e \<longleftrightarrow>
     zset_typed e \<and> set (zset_of e) \<subseteq> set A \<and>
     (\<forall>p \<in> set A. now - window < snd p \<longrightarrow> p \<in> set (zset_of e)) \<and>
     distinct (map fst A) \<and> distinct (map fst (zset_of e)) \<and>
     (\<forall>en. e = Some en \<longrightarrow> (\<exists>x. rttl en = Some x \<and> (\<forall>p \<in> set (zset_of e). snd p + 2 * window \<le> now + x)))"

lemma rl_sim_tick:
  assumes "rl_sim window now A e" "now \<le> now'" "0 < window"
  shows "rl_sim window now' A (tick_entry (now' - now) e)"
proof (cases e)
  case None
  have "\<not> now' - window < snd p" if "p \<in> set A" for p
    using assms(1,2) that None by (auto simp: rl_sim_def zset_of_def)
  with None assms show ?thesis by (auto simp: rl_sim_def zset_typed_def zset_of_def tick_entry_def)
next
  case (Some en)
  obtain x where x: "rttl en = Some x" "\<forall>p \<in> set (zset_of e). snd p + 2 * window \<le> now + x"
    using assms(1) Some by (auto simp: rl_sim_def)
  show ?thesis
  proof (cases "now' - now < x")
    case True
    have "zset_of (tick_entry (now' - now) e) = zset_of e" "zset_typed (tick_entry (now' - now) e) = zset_typed e"
      using Some x True by (simp_all add: tick_entry_def zset_of_def zset_typed_def)
    with assms Some x True show ?thesis by (auto simp: rl_sim_def tick_entry_def)
  next
    case False
    then have e': "tick_entry (now' - now) e = None" using Some x by (simp add: tick_entry_def)
    have "\<not> now' - window < snd p" if "p \<in> set A" for p
    proof
      assume w: "now' - window < snd p"
      then have "p \<in> set (zset_of e)" using assms(1,2) that by (auto simp: rl_sim_def)
      with x(2) False w assms(3) show False by force
    qed
    with assms(1) show ?thesis unfolding e' by (auto simp: rl_sim_def zset_typed_def zset_of_def)
  qed
qed

lemma in_window_length:
  assumes "rl_sim window now A e"
  shows "length (filter (\<lambda>p. now - window < snd p) (zset_of e)) = length (in_window window now A)"
proof -
  have d: "distinct A" "distinct (zset_of e)" using assms by (auto simp: rl_sim_def distinct_map)
  have "set (filter (\<lambda>p. now - window < snd p) (zset_of e)) = set (in_window window now A)"
    using assms by (auto simp: rl_sim_def in_window_def)
  then show ?thesis using d by (metis distinct_card distinct_filter in_window_def)
qed

lemma distinct_map_fst_filter: "distinct (map fst xs) \<Longrightarrow> distinct (map fst (filter P xs))"
  by (rule distinct_map_filter)

context redis_service
begin

lemma rl_script_sim:
  assumes "rl_sim window now A (look R r k)" "0 < window" "m \<notin> fst ` set A" "\<forall>p \<in> set A. snd p \<le> now"
    and "rl_script R k now (now - window) limit (window * 2) m r = ((x, c), r')"
  shows "x = 1 \<longleftrightarrow> spec_allows limit window now A"
    and "rl_sim window now (if spec_allows limit window now A then (m, now) # A else A) (look R r' k)"
proof -
  let ?e = "look R r k" and ?f = "filter (\<lambda>p. now - window < snd p)"
  let ?e1 = "zmap_entry ?f ?e"
  let ?z1 = "?f (zset_of ?e)"
  have t: "zset_typed ?e" using assms(1) by (simp add: rl_sim_def)
  have z1: "zset_of ?e1 = ?z1" "zset_typed ?e1" using zset_of_zmap_entry [OF t] zset_typed_zmap_entry [OF t] by auto
  have cnt: "int (ZCARD R k (ZREMRANGE R k (now - window) r)) = int (length (in_window window now A))"
    using z1 in_window_length [OF assms(1)] by (simp add: ZCARD_def)
  note ev = assms(5) [unfolded rl_script_def Let_def cnt]
  show "x = 1 \<longleftrightarrow> spec_allows limit window now A" using ev by (auto simp: spec_allows_def split: if_splits)
  have dis: "distinct (map fst A)" "distinct (map fst ?z1)" "set ?z1 \<subseteq> set A"
    using assms(1) distinct_map_fst_filter by (auto simp: rl_sim_def)
  have e1: "?e1 = zset_entry t ?z1" if "?e = Some en" "rttl en = t" for en t
    using that t by (auto simp: zmap_entry_def zset_typed_def zset_of_def split: rval.splits)
  have e1N: "?e1 = None" if "?e = None" using that by (simp add: zmap_entry_def zset_entry_def zset_of_def)
  show "rl_sim window now (if spec_allows limit window now A then (m, now) # A else A) (look R r' k)"
  proof (cases "spec_allows limit window now A")
    case False
    then have "r' = ZREMRANGE R k (now - window) r" using ev by (simp add: spec_allows_def)
    then have lk: "look R r' k = ?e1" by simp
    have "\<exists>x. rttl en = Some x \<and> (\<forall>p \<in> set ?z1. snd p + 2 * window \<le> now + x)" if "?e1 = Some en" for en
    proof (cases ?e)
      case (Some en0)
      then obtain y where "rttl en0 = Some y" "\<forall>p \<in> set (zset_of ?e). snd p + 2 * window \<le> now + y"
        using assms(1) by (auto simp: rl_sim_def)
      with e1 [OF Some refl] that show ?thesis by (auto simp: zset_entry_def split: if_splits)
    qed (use e1N that in simp)
    with False z1 dis assms(1) show ?thesis unfolding lk by (auto simp: rl_sim_def)
  next
    case True
    then have "r' = PEXPIRE R k (window * 2) (ZADD R k now m (ZREMRANGE R k (now - window) r))"
      using ev by (simp add: spec_allows_def)
    then have lk: "look R r' k = pexpire_entry (window * 2) (zmap_entry (zput m now) ?e1)"
      using assms(2) by simp
    have z2: "zset_of (zmap_entry (zput m now) ?e1) = zput m now ?z1" "zset_typed (zmap_entry (zput m now) ?e1)"
      using zset_of_zmap_entry [OF z1(2)] zset_typed_zmap_entry [OF z1(2)] z1(1) by auto
    have z3: "zset_of (look R r' k) = zput m now ?z1" "zset_typed (look R r' k)"
      using z2 unfolding lk
      by (auto simp: pexpire_entry_def zset_of_def zset_typed_def split: option.splits)
    have m: "m \<notin> fst ` set ?z1" using assms(3) dis(3) by auto
    then have zp: "set (zput m now ?z1) = insert (m, now) (set ?z1)" by (auto simp: zput_def)
    have "\<forall>en. look R r' k = Some en \<longrightarrow> rttl en = Some (window * 2)"
      unfolding lk by (auto simp: pexpire_entry_def)
    moreover have "\<forall>p \<in> set (zput m now ?z1). snd p \<le> now"
    proof -
      have "snd p \<le> now" if "p \<in> set ?z1" for p using that dis(3) assms(4) by blast
      then show ?thesis unfolding zp by simp
    qed
    ultimately show ?thesis
      using True z3 zp dis assms(1,2,3) distinct_zput [OF dis(2), of m now]
      by (auto simp: rl_sim_def)
  qed
qed

lemma rl_run_spec_run:
  assumes "faults w = []" "nodes w \<noteq> []" "0 < window" "rl_sim window prev A (look R (nodes w ! 0) k)"
    and "sorted (prev # map fst xs)" "\<forall>p \<in> set A. snd p \<le> prev"
    and "distinct (map fst A @ map (\<lambda>(now, rnd). dec now @ '':'' @ dec rnd) xs)"
  shows "rl_run R k limit window prev xs w = spec_run limit window xs A"
  using assms
proof (induction xs arbitrary: w prev A)
  case (Cons p xs)
  obtain now rnd where p: "p = (now, rnd)" by (cases p)
  let ?m = "dec now @ '':'' @ dec rnd" and ?r = "TICK R (now - prev) (nodes w ! 0)"
  let ?w = "w\<lparr>nodes := map (TICK R (now - prev)) (nodes w)\<rparr>"
  have le: "prev \<le> now" using Cons.prems(5) p by simp
  have sim: "rl_sim window now A (look R ?r k)"
    using rl_sim_tick [OF Cons.prems(4) le Cons.prems(3)] le by simp
  obtain x c r' where sc: "rl_script R k now (now - window) limit (window * 2) ?m ?r = ((x, c), r')"
    by (metis prod.collapse)
  have m: "?m \<notin> fst ` set A" using Cons.prems(7) p by auto
  have "\<forall>p \<in> set A. snd p \<le> now" using Cons.prems(6) le by force
  note s = rl_script_sim [OF sim Cons.prems(3) m this sc]
  have n: "nodes w ! 0 \<in> set (nodes w)" "0 < length (nodes w)" using Cons.prems(2) by auto
  let ?A = "if spec_allows limit window now A then (?m, now) # A else A"
  let ?w1 = "?w\<lparr>nodes := (nodes ?w)[0 := r']\<rparr>"
  have chk: "check_sliding_window R now rnd k limit window ?w = ((x = 1, c, now + window), ?w1)"
    using Cons.prems(1) n(2) sc by (simp add: check_sliding_window_def Let_def)
  have "rl_run R k limit window now xs ?w1 = spec_run limit window xs ?A"
    by (rule Cons.IH) (use Cons.prems p n s(2) le in auto)
  with chk s(1) show ?case by (simp add: p Let_def)
qed simp

end

section \<open>Property\<close>

text \<open>
  C36 (the limiter is an exact sliding window). Any sequence of requests at non-decreasing times, with
  distinct members, against an empty key: when the exchanges are delivered, every answer of
  \<open>check_sliding_window\<close> is the answer of the reference, which allows a request iff fewer than
  \<open>limit\<close> requests were admitted in the last \<open>window\<close> milliseconds, although the key forgets old entries
  and expires.
\<close>

theorem sliding_window_exact:
  assumes "redis_service R" "faults w = []" "nodes w \<noteq> []" "look R (nodes w ! 0) key = None" "0 < window"
    and "sorted (prev # map fst xs)" "distinct (map (\<lambda>(now, rnd). dec now @ '':'' @ dec rnd) xs)"
  shows "rl_run R key limit window prev xs w = spec_run limit window xs []"
  by (rule redis_service.rl_run_spec_run [OF assms(1-3,5)])
    (use assms in \<open>auto simp: rl_sim_def zset_typed_def zset_of_def\<close>)

theorem sliding_window_exact_witness:
  "rl_run mem_redis ''rl:user:7'' 2 60000 0 [(1000, 1), (2000, 2), (3000, 3), (61000, 4)]
     \<lparr>nodes = [Map.empty], faults = [], published = ([] :: (nat \<times> string \<times> json) list)\<rparr> =
   [True, True, False, True]"
proof -
  have d: "distinct (map (\<lambda>(now, rnd). dec now @ '':'' @ dec rnd) [(1000, 1), (2000, 2), (3000, 3), (61000, 4)])"
    by simp
  from sliding_window_exact [OF mem.redis_service_axioms _ _ _ _ _ d,
      of "\<lparr>nodes = [Map.empty], faults = [], published = ([] :: (nat \<times> string \<times> json) list)\<rparr>"
        "''rl:user:7''" 60000 0 2]
  show ?thesis by (simp add: mem_redis_simps spec_allows_def in_window_def)
qed

end
