(* ===== verification/Gateway_Api.thy ===== *)
theory Gateway_Api
  imports Gateway_Props Circuit_Breaker Rate_Limit
begin

text \<open>
  The gateway's edge: bearer authentication, request validation and the HTTP and gRPC handlers for
  locking and cancelling (\<open>main.rs\<close>, \<open>grpc_service.rs\<close>), the rate-limiting middleware, and the proxy to
  the downstream services behind the circuit breaker (\<open>proxy.rs\<close>), all in \<open>apps/gateway-keeper/src\<close>.

  Verifying a token (\<open>jsonwebtoken\<close>) is a parameter that gives the subject of a valid token; calling a
  downstream service is a parameter that gives its response or the kind of failure.
\<close>

section \<open>Requests and responses\<close>

record http_request =
  rq_method :: string
  rq_path :: string
  rq_headers :: "(string \<times> string) list"
  rq_body :: string

record http_response =
  rs_status :: int
  rs_headers :: "(string \<times> string) list"
  rs_body :: string

text \<open>\<open>ApiError(status, message)\<close>.\<close>

type_synonym api_error = "int \<times> string"

record SeatRequest =
  seat_ids :: "seat_id list"
  seat_indices_req :: "int list"
  total_seat_count_req :: int

record LockResponse =
  success :: bool
  lr_locked :: "seat_id list"
  lr_failed :: "seat_id list"

section \<open>Authentication and validation\<close>

definition authenticated_user ::
    "(string \<Rightarrow> string \<Rightarrow> string option) \<Rightarrow> (string \<times> string) list \<Rightarrow> string \<Rightarrow> api_error + user_id" where
  "authenticated_user decode_sub headers jwt_secret =
     (case Option.bind (map_of headers ''authorization'') (strip_prefix ''Bearer '') of
        None \<Rightarrow> Inl (401, ''missing bearer token'')
      | Some token \<Rightarrow>
          if token = ''mock_token'' then Inr 1
          else
            (case decode_sub jwt_secret token of
               None \<Rightarrow> Inl (401, ''invalid bearer token'')
             | Some sub \<Rightarrow>
                (case parse_i32 sub of
                   None \<Rightarrow> Inl (401, ''invalid user identity'')
                 | Some u \<Rightarrow> Inr u)))"

definition validate_seats :: "seat_id list \<Rightarrow> int list \<Rightarrow> int \<Rightarrow> api_error + unit" where
  "validate_seats ts idx total_seat_count =
     (if ts = [] \<or> list_ex (\<lambda>t. t \<le> 0) ts \<or> length ts \<noteq> length idx \<or> total_seat_count \<le> 0 \<or>
         list_ex (\<lambda>i. i \<le> 0 \<or> total_seat_count < i) idx
      then Inl (400, ''seat_ids, seat_indices and total_seat_count are invalid'') else Inr ())"

section \<open>Handlers\<close>

definition lock_seats ::
    "'r redis \<Rightarrow> (string \<Rightarrow> string \<Rightarrow> string option) \<Rightarrow> string \<Rightarrow> int \<Rightarrow> int \<Rightarrow> schedule_id \<Rightarrow>
     (string \<times> string) list \<Rightarrow> SeatRequest \<Rightarrow> 'r gateway \<Rightarrow> (api_error + LockResponse) \<times> 'r gateway" where
  "lock_seats R decode_sub jwt_secret unix_now now_ms s headers req g =
     (case authenticated_user decode_sub headers jwt_secret of
        Inl e \<Rightarrow> (Inl e, g)
      | Inr u \<Rightarrow>
          (case validate_seats (seat_ids req) (seat_indices_req req) (total_seat_count_req req) of
             Inl e \<Rightarrow> (Inl e, g)
           | Inr _ \<Rightarrow>
              (case lock R unix_now now_ms u s (seat_ids req) (seat_indices_req req) (total_seat_count_req req) g of
                 (Inl _, g1) \<Rightarrow> (Inl (400, ''Invalid show seat metadata''), g1)
               | (Inr res, g1) \<Rightarrow>
                   (Inr \<lparr>success = (locked_seat_ids res \<noteq> []), lr_locked = locked_seat_ids res,
                         lr_failed = failed_seat_ids res\<rparr>, g1))))"

definition cancel_seats ::
    "'r redis \<Rightarrow> (string \<Rightarrow> string \<Rightarrow> string option) \<Rightarrow> string \<Rightarrow> int \<Rightarrow> int \<Rightarrow> schedule_id \<Rightarrow>
     (string \<times> string) list \<Rightarrow> SeatRequest \<Rightarrow> 'r gateway \<Rightarrow> (api_error + bool \<times> seat_id list) \<times> 'r gateway" where
  "cancel_seats R decode_sub jwt_secret unix_now now_ms s headers req g =
     (case authenticated_user decode_sub headers jwt_secret of
        Inl e \<Rightarrow> (Inl e, g)
      | Inr u \<Rightarrow>
          (case validate_seats (seat_ids req) (seat_indices_req req) (total_seat_count_req req) of
             Inl e \<Rightarrow> (Inl e, g)
           | Inr _ \<Rightarrow>
              (case cancel R unix_now now_ms u s (seat_ids req) (seat_indices_req req) (total_seat_count_req req) g of
                 (Inl _, g1) \<Rightarrow> (Inl (400, ''Cannot cancel seats while checkout is in progress''), g1)
               | (Inr ids, g1) \<Rightarrow> (Inr (ids \<noteq> [], ids), g1))))"

text \<open>The gRPC handlers: \<open>Inl\<close> is \<open>Status::invalid_argument\<close> with its message.\<close>

definition slot_request_invalid :: "schedule_id \<Rightarrow> SeatRequest \<Rightarrow> bool" where
  "slot_request_invalid s req \<longleftrightarrow>
     s < 0 \<or> total_seat_count_req req \<le> 0 \<or> seat_ids req = [] \<or> list_ex (\<lambda>t. t \<le> 0) (seat_ids req) \<or>
     length (seat_ids req) \<noteq> length (seat_indices_req req)"

definition lock_slot ::
    "'r redis \<Rightarrow> int \<Rightarrow> int \<Rightarrow> user_id \<Rightarrow> schedule_id \<Rightarrow> SeatRequest \<Rightarrow> 'r gateway \<Rightarrow>
     (string + LockResponse) \<times> 'r gateway" where
  "lock_slot R unix_now now_ms u s req g =
     (if slot_request_invalid s req
      then (Inl ''showtime_id, total_seat_count, seat_ids and seat_indices are required'', g)
      else
        (case lock R unix_now now_ms u s (seat_ids req) (seat_indices_req req) (total_seat_count_req req) g of
           (Inl e, g1) \<Rightarrow> (Inl e, g1)
         | (Inr res, g1) \<Rightarrow>
             (Inr \<lparr>success = (locked_seat_ids res \<noteq> []), lr_locked = locked_seat_ids res,
                   lr_failed = failed_seat_ids res\<rparr>, g1)))"

definition unlock_slot ::
    "'r redis \<Rightarrow> int \<Rightarrow> int \<Rightarrow> user_id \<Rightarrow> schedule_id \<Rightarrow> SeatRequest \<Rightarrow> 'r gateway \<Rightarrow>
     (string + bool \<times> seat_id list) \<times> 'r gateway" where
  "unlock_slot R unix_now now_ms u s req g =
     (if slot_request_invalid s req
      then (Inl ''showtime_id, total_seat_count, seat_ids and seat_indices are required'', g)
      else
        (case cancel R unix_now now_ms u s (seat_ids req) (seat_indices_req req) (total_seat_count_req req) g of
           (Inl e, g1) \<Rightarrow> (Inl e, g1)
         | (Inr ids, g1) \<Rightarrow> (Inr (ids \<noteq> [], ids), g1)))"

section \<open>Rate limiting\<close>

definition rate_limit_middleware ::
    "'r redis \<Rightarrow> (string \<Rightarrow> string \<Rightarrow> string option) \<Rightarrow> string \<Rightarrow> int \<Rightarrow> int \<Rightarrow> (string \<times> string) list \<Rightarrow>
     ('r gateway \<Rightarrow> 'b \<times> 'r gateway) \<Rightarrow> 'r gateway \<Rightarrow> (api_error + 'b) \<times> 'r gateway" where
  "rate_limit_middleware R decode_sub jwt_secret now_ms rnd headers run_next g =
     (let identifier = (case authenticated_user decode_sub headers jwt_secret of
            Inr u \<Rightarrow> ''user:'' @ dec u | Inl _ \<Rightarrow> ''anonymous'');
          key = ''rl:'' @ identifier
      in case on_net pool_get g of (ok, g1) \<Rightarrow>
           if \<not> ok then (Inl (500, ''Redis connection failed''), g1)
           else
             (case on_net (check_sliding_window R now_ms rnd key 100 60000) g1 of ((allowed, _, _), g2) \<Rightarrow>
                if \<not> allowed then (Inl (429, ''Rate limit exceeded''), g2)
                else (case run_next g2 of (res, g3) \<Rightarrow> (Inr res, g3))))"

section \<open>The proxy\<close>

datatype upstream =
    Responded http_response
  | ConnectError
  | TimeoutError
  | OtherError

definition service_busy_response :: http_response where
  "service_busy_response =
     \<lparr>rs_status = 503, rs_headers = [(''content-type'', ''application/json'')],
      rs_body = ''message: Service Not Available, code: CIRCUIT_OPEN''\<rparr>"

definition upstream_proxy_error_response :: http_response where
  "upstream_proxy_error_response =
     \<lparr>rs_status = 502, rs_headers = [(''content-type'', ''application/json'')],
      rs_body = ''message: The upstream response could not be processed., code: UPSTREAM_ERROR''\<rparr>"

definition has_bearer_token :: "(string \<times> string) list \<Rightarrow> bool" where
  "has_bearer_token headers \<longleftrightarrow>
     (case Option.bind (map_of headers ''authorization'') (strip_prefix ''Bearer '') of
        None \<Rightarrow> False | Some token \<Rightarrow> trim token \<noteq> [])"

fun is_downstream_unreachable :: "upstream \<Rightarrow> bool" where
  "is_downstream_unreachable ConnectError = True"
| "is_downstream_unreachable TimeoutError = True"
| "is_downstream_unreachable _ = False"

definition trim_end_slashes :: "string \<Rightarrow> string" where
  "trim_end_slashes s = rev (dropWhile (\<lambda>c. c = CHR ''/'') (rev s))"

definition forward_request :: "string \<Rightarrow> http_request \<Rightarrow> http_request" where
  "forward_request base_url req =
     req\<lparr>rq_path := trim_end_slashes base_url @ rq_path req,
         rq_headers := filter (\<lambda>(k, v). k \<noteq> ''host'' \<and> k \<noteq> ''connection'') (rq_headers req)\<rparr>"

definition forward_response :: "http_response \<Rightarrow> http_response" where
  "forward_response res =
     res\<lparr>rs_headers := filter (\<lambda>(k, v). k \<noteq> ''transfer-encoding'' \<and> k \<noteq> ''connection'' \<and>
           strip_prefix ''access-control-'' (map lower k) = None) (rs_headers res)\<rparr>"

text \<open>
  \<open>builds\<close> says whether \<open>reqwest\<close> can build the forwarded request, \<open>execute\<close> is the downstream call; trace
  headers are added by the telemetry layer inside it.
\<close>

definition proxy_request ::
    "'r redis \<Rightarrow> RedisCircuitBreaker \<Rightarrow> (http_request \<Rightarrow> bool) \<Rightarrow> (http_request \<Rightarrow> upstream) \<Rightarrow> int \<Rightarrow> string \<Rightarrow>
     string \<Rightarrow> http_request \<Rightarrow> ('r, 'p) world \<Rightarrow> http_response \<times> ('r, 'p) world" where
  "proxy_request R cb builds execute now service base_url req w =
     (case allow_request R now service w of (allowed, w1) \<Rightarrow>
        if \<not> allowed then (service_busy_response, w1)
        else
          (let fwd = forward_request base_url req
           in if \<not> builds fwd
              then (\<lparr>rs_status = 500, rs_headers = [], rs_body = ''Internal Gateway Error''\<rparr>, w1)
              else
                (case execute fwd of
                   Responded res \<Rightarrow> (forward_response res, record_success R service w1)
                 | err \<Rightarrow>
                     if is_downstream_unreachable err
                     then (service_busy_response, record_failure R cb now service w1)
                     else (upstream_proxy_error_response, w1))))"

definition proxy_to_authenticated_http_server ::
    "'r redis \<Rightarrow> RedisCircuitBreaker \<Rightarrow> (http_request \<Rightarrow> bool) \<Rightarrow> (http_request \<Rightarrow> upstream) \<Rightarrow> int \<Rightarrow>
     string \<Rightarrow> http_request \<Rightarrow> ('r, 'p) world \<Rightarrow> http_response \<times> ('r, 'p) world" where
  "proxy_to_authenticated_http_server R cb builds execute now base_url req w =
     (if \<not> has_bearer_token (rq_headers req)
      then (\<lparr>rs_status = 401, rs_headers = [(''content-type'', ''application/json'')],
             rs_body = ''error: Missing Authorization header''\<rparr>, w)
      else proxy_request R cb builds execute now ''http-server'' base_url req w)"

text \<open>The search call: \<open>connects\<close> is the gRPC connection, \<open>search\<close> its answer.\<close>

definition proxy_to_search_server ::
    "'r redis \<Rightarrow> RedisCircuitBreaker \<Rightarrow> bool \<Rightarrow> (string \<Rightarrow> string \<Rightarrow> string option) \<Rightarrow> int \<Rightarrow>
     (string \<times> string) list \<Rightarrow> ('r, 'p) world \<Rightarrow> http_response \<times> ('r, 'p) world" where
  "proxy_to_search_server R cb connects search now params w =
     (case allow_request R now ''search-server'' w of (allowed, w1) \<Rightarrow>
        if \<not> allowed then (service_busy_response, w1)
        else
          (let param = (\<lambda>k. case map_of params k of Some v \<Rightarrow> v | None \<Rightarrow> [])
           in if \<not> connects then (service_busy_response, record_failure R cb now ''search-server'' w1)
              else
                (case search (param ''q'') (param ''city'') of
                   Some results \<Rightarrow>
                     (\<lparr>rs_status = 200, rs_headers = [(''content-type'', ''application/json'')], rs_body = results\<rparr>,
                      record_success R ''search-server'' w1)
                 | None \<Rightarrow> (service_busy_response, record_failure R cb now ''search-server'' w1))))"

section \<open>Routes\<close>

datatype endpoint = LockSeats string | CancelSeats string | Health | ToSearch | ToHttp | ToAuthenticatedHttp

fun route :: "string list \<Rightarrow> endpoint option" where
  "route segments =
     (case segments of
        a # rest \<Rightarrow>
          if a = ''v1'' then
            (case rest of
               [b, showtime_id, c, d] \<Rightarrow>
                 if b = ''showtimes'' \<and> c = ''seats'' then
                   (if d = ''lock'' then Some (LockSeats showtime_id)
                    else if d = ''cancel'' then Some (CancelSeats showtime_id) else None)
                 else None
             | _ \<Rightarrow> None)
          else if a = ''health'' \<and> rest = [] then Some Health
          else if a = ''api'' then
            (case rest of
               b # _ \<Rightarrow>
                 if b = ''search'' then Some ToSearch
                 else if b = ''auth'' \<or> b = ''user'' then Some ToHttp
                 else if b = ''admin'' then Some ToAuthenticatedHttp
                 else None
             | [] \<Rightarrow> None)
          else None
      | [] \<Rightarrow> None)"

section \<open>Lemmas\<close>

lemma authenticated_user_i32: "authenticated_user d h k = Inr u \<Longrightarrow> in_i32 u"
  by (auto simp: authenticated_user_def parse_i32_range in_i32_def split: option.splits if_splits
      dest: parse_i32_range)

lemma validate_seats_ok:
  "validate_seats ts idx c = Inr () \<longleftrightarrow>
     ts \<noteq> [] \<and> (\<forall>t \<in> set ts. 0 < t) \<and> length ts = length idx \<and> 0 < c \<and> (\<forall>i \<in> set idx. 0 < i \<and> i \<le> c)"
  by (auto simp: validate_seats_def list_ex_iff not_less not_le)

section \<open>Properties\<close>

text \<open>
  C39 (the lock endpoint). An answer of \<open>lock_seats\<close> is an error that leaves every admission flag as it was, or
  a response in which each requested seat is listed once per request as locked or failed, the seats
  listed as locked are held in Redis by the user of the verified token, and \<open>success\<close> is set exactly
  when there is such a seat.
\<close>

theorem lock_seats_response:
  assumes "redis_service R" "gw_ok R g" "lock_seats R dec_sub key n m s headers req g = (r, g')"
  shows "case r of
      Inl e \<Rightarrow> fst e \<in> {400, 401} \<and> (\<forall>s' t. gw_admitted s' t g' = gw_admitted s' t g)
    | Inr resp \<Rightarrow>
        (\<exists>u. authenticated_user dec_sub headers key = Inr u \<and>
             (\<forall>t \<in> set (lr_locked resp). sn_holder R s t (net g') = Some u)) \<and>
        mset (lr_locked resp @ lr_failed resp) = mset (seat_ids req) \<and>
        (success resp \<longleftrightarrow> lr_locked resp \<noteq> [])"
proof (cases "authenticated_user dec_sub headers key")
  case (Inl e)
  with assms(3) have "r = Inl e" "g' = g" by (auto simp: lock_seats_def)
  with Inl show ?thesis by (auto simp: authenticated_user_def split: option.splits if_splits)
next
  case (Inr u)
  show ?thesis
  proof (cases "validate_seats (seat_ids req) (seat_indices_req req) (total_seat_count_req req)")
    case bad: (Inl e)
    with Inr assms(3) have "r = Inl e" "g' = g" by (auto simp: lock_seats_def)
    with bad show ?thesis by (auto simp: validate_seats_def split: if_splits)
  next
    case ok: (Inr x)
    obtain l g1 where l: "lock R n m u s (seat_ids req) (seat_indices_req req) (total_seat_count_req req) g = (l, g1)"
      by (metis prod.collapse)
    note sp = redis_service.lock_spec [OF assms(1,2) authenticated_user_i32 [OF Inr] l]
    show ?thesis using assms(3) Inr ok l sp by (cases l) (auto simp: lock_seats_def)
  qed
qed

definition one_seat_request :: SeatRequest where
  "one_seat_request = \<lparr>seat_ids = [1], seat_indices_req = [1], total_seat_count_req = 1\<rparr>"

theorem lock_seats_response_witness:
  "\<exists>r g'. lock_seats mem_redis (\<lambda>_ _. Some ''7'') ''k'' 0 0 5 [(''authorization'', ''Bearer x'')]
      one_seat_request empty_gateway = (Inr r, g') \<and> success r \<and> sn_holder mem_redis 5 1 (net g') = Some 7"
proof -
  have p: "parse_i32 ''7'' = Some 7" by code_simp
  let ?x = "lock_seats mem_redis (\<lambda>_ _. Some ''7'') ''k'' 0 0 5 [(''authorization'', ''Bearer x'')]
    one_seat_request empty_gateway"
  have au: "authenticated_user (\<lambda>_ _. Some ''7'') [(''authorization'', ''Bearer x'')] ''k'' = Inr 7"
    by (simp add: authenticated_user_def strip_prefix_def p)
  have "fst ?x = Inr \<lparr>success = True, lr_locked = [1], lr_failed = []\<rparr>"
    by (simp add: lock_seats_def au validate_seats_def one_seat_request_def gateway_eval)
  then obtain g' where x: "?x = (Inr \<lparr>success = True, lr_locked = [1], lr_failed = []\<rparr>, g')"
    by (cases ?x) auto
  from lock_seats_response [OF mem.redis_service_axioms empty_gateway_ok x] x au show ?thesis by auto
qed

text \<open>
  (what moves the circuit). For a request the breaker lets through, when exchanges are delivered: an HTTP
  response of any status is passed on with its status and body and counts as a success of the
  service; a connection failure or timeout gives 503 and counts as a failure; any other client error
  gives 502 and changes nothing. A refused request gives 503 whatever the service would have done.
\<close>

theorem proxy_moves_circuit:
  assumes "redis_service R" "cb_ok R service w" "in_i64 (now + open_ttl_secs cb)"
    and "failures (cb_view R service w) < 2 ^ 32 - 2" "builds (forward_request base req)"
    and "proxy_request R cb builds execute now service base req w = (resp, w')"
  shows "case spec_allow now (cb_view R service w) of (allowed, v) \<Rightarrow>
      if \<not> allowed then resp = service_busy_response \<and> cb_view R service w' = v
      else (case execute (forward_request base req) of
        Responded res \<Rightarrow> rs_status resp = rs_status res \<and> rs_body resp = rs_body res \<and>
          cb_view R service w' = spec_success v
      | OtherError \<Rightarrow> rs_status resp = 502 \<and> cb_view R service w' = v
      | _ \<Rightarrow> rs_status resp = 503 \<and> cb_view R service w' = spec_failure cb now v)"
proof -
  obtain b w1 where a: "allow_request R now service w = (b, w1)" by (cases "allow_request R now service w")
  note al = redis_service.allow_request_refines [OF assms(1,2) a]
  have f: "failures (cb_view R service w1) < 2 ^ 32 - 2"
    using al(1) assms(4) by (auto simp: spec_allow_def split: if_splits)
  note su = redis_service.record_success_refines(1) [OF assms(1) al(2)]
    and fa = redis_service.record_failure_refines(1) [OF assms(1) al(2) assms(3) f]
  show ?thesis
    using assms(5,6) al(1) su fa
    by (cases "execute (forward_request base req)")
      (auto simp: proxy_request_def a Let_def forward_response_def service_busy_response_def
        upstream_proxy_error_response_def split: if_splits)
qed

theorem proxy_moves_circuit_witness:
  "cb_view mem_redis ''http-server'' (snd (proxy_request mem_redis gateway_breaker (\<lambda>_. True)
     (\<lambda>_. Responded \<lparr>rs_status = 500, rs_headers = [], rs_body = []\<rparr>) 1000 ''http-server'' ''http://h'' 
     \<lparr>rq_method = ''GET'', rq_path = ''/x'', rq_headers = [], rq_body = []\<rparr> cb_world)) =
   \<lparr>phase = Closed, failures = 0, open_until = 0\<rparr>"
proof -
  let ?req = "\<lparr>rq_method = ''GET'', rq_path = ''/x'', rq_headers = [], rq_body = []\<rparr>"
  let ?ex = "\<lambda>_. Responded \<lparr>rs_status = 500, rs_headers = [], rs_body = []\<rparr>"
  obtain resp w' where p: "proxy_request mem_redis gateway_breaker (\<lambda>_. True) ?ex 1000 ''http-server'' ''http://h'' ?req
      cb_world = (resp, w')" by (metis prod.collapse)
  have o: "in_i64 (1000 + open_ttl_secs gateway_breaker)" by (simp add: gateway_breaker_def in_i64_def)
  from proxy_moves_circuit [OF mem.redis_service_axioms cb_world_ok o _ _ p]
  show ?thesis by (simp add: p cb_view_world spec_allow_def spec_success_def)
qed

text \<open>
  C28 (admin routes need a token). Every path below \<open>/api/admin\<close> is routed to the authenticated proxy, which
  answers 401 to a request without a bearer token, whatever the state of the circuit and of the
  servers, and without touching either.
\<close>

theorem admin_needs_bearer:
  assumes "\<not> has_bearer_token (rq_headers req)"
  shows "route (''api'' # ''admin'' # rest) = Some ToAuthenticatedHttp \<and>
    rs_status (fst (proxy_to_authenticated_http_server R cb builds execute now base req w)) = 401 \<and>
    snd (proxy_to_authenticated_http_server R cb builds execute now base req w) = w"
  using assms by (simp add: proxy_to_authenticated_http_server_def)

theorem admin_needs_bearer_witness:
  "rs_status (fst (proxy_to_authenticated_http_server mem_redis gateway_breaker (\<lambda>_. True) (\<lambda>_. ConnectError) 0
     ''http://h'' \<lparr>rq_method = ''GET'', rq_path = ''/api/admin'', rq_headers = [(''authorization'', ''Bearer  '')],
       rq_body = []\<rparr> cb_world)) = 401"
proof -
  let ?req = "\<lparr>rq_method = ''GET'', rq_path = ''/api/admin'', rq_headers = [(''authorization'', ''Bearer  '')],
    rq_body = []\<rparr>"
  have "\<not> has_bearer_token (rq_headers ?req)"
    by (simp add: has_bearer_token_def strip_prefix_def trim_def is_space_def)
  from admin_needs_bearer [OF this] show ?thesis by blast
qed

text \<open>
  C40 (a fixed token is a valid identity). The token \<open>mock_token\<close> authenticates as user 1 with any secret,
  without verification; every other token must be verified under the secret and carry an \<open>i32\<close> subject.
\<close>

theorem mock_token_is_user_1:
  "authenticated_user decode_sub [(''authorization'', ''Bearer mock_token'')] jwt_secret = Inr 1 \<and>
   (authenticated_user decode_sub [(''authorization'', ''Bearer '' @ token)] jwt_secret = Inr u \<longleftrightarrow>
    (if token = ''mock_token'' then u = 1
     else \<exists>sub. decode_sub jwt_secret token = Some sub \<and> parse_i32 sub = Some u))"
  by (auto simp: authenticated_user_def strip_prefix_def split: option.splits)

end
