(* ===== verification/Cluster_Lock.thy ===== *)
theory Cluster_Lock
  imports Single_Node_Props
begin

text \<open>
  \<open>ClusterLock\<close> (\<open>packages/redis-conn/src/cluster_lock.rs\<close>), the implementation of the trait on a Redis
  Cluster. The cluster is one keyspace behind one connection, so it is a world with a single server;
  there is no pool to check out and every call is one exchange.

  A cluster assigns each key to a hash slot and refuses a script whose keys lie in different slots.
  The assignment is a parameter \<open>S\<close> of the operations that run scripts; \<open>hash_slot\<close> is the
  documented one. Times are in milliseconds here, where \<open>SingleNodeLock\<close> uses seconds.
\<close>

section \<open>Scripts and commands on a cluster\<close>

type_synonym slots = "string \<Rightarrow> nat"

definition same_slot :: "slots \<Rightarrow> string list \<Rightarrow> bool" where
  "same_slot S ks \<longleftrightarrow> (case ks of [] \<Rightarrow> True | k # ks' \<Rightarrow> list_all (\<lambda>x. S x = S k) ks')"

definition run_cluster ::
    "slots \<Rightarrow> string list \<Rightarrow> ('r \<Rightarrow> int \<times> 'r) \<Rightarrow> ('r, 'p) world \<Rightarrow> int option \<times> ('r, 'p) world" where
  "run_cluster S ks sc w =
     (if same_slot S ks then send 0 sc w
      else (case next_fault w of (f, w1) \<Rightarrow> (None, w1)))"

definition cluster_do :: "('r \<Rightarrow> 'r) \<Rightarrow> ('r, 'p) world \<Rightarrow> ('r, 'p) world" where
  "cluster_do f w = snd (send 0 (writing f) w)"

text \<open>The documented slot of a key: the checksum of its hash tag, or of the whole key.\<close>

definition hash_tag :: "string \<Rightarrow> string" where
  "hash_tag k =
     (case dropWhile (\<lambda>c. c \<noteq> CHR ''{'') k of
        [] \<Rightarrow> k
      | _ # r \<Rightarrow>
          (let tag = takeWhile (\<lambda>c. c \<noteq> CHR ''}'') r
           in if tag \<noteq> [] \<and> length tag < length r then tag else k))"

definition hash_slot :: slots where
  "hash_slot k = unat (crc16 (as_bytes (hash_tag k))) mod 16384"

section \<open>Operations\<close>

text \<open>\<open>usize::try_from(seat_id)\<close> and \<open>checked_mul(2)\<close>, which cannot overflow a 64-bit \<open>usize\<close>.\<close>

definition checked_offset :: "seat_id \<Rightarrow> nat option" where
  "checked_offset t = (if 0 \<le> t then Some (nat t * 2) else None)"

text \<open>\<open>(expires_in_sec * 1000) as u64\<close>: the product is an \<open>i32\<close>.\<close>

definition cluster_ttl :: "int \<Rightarrow> int" where
  "cluster_ttl x = as_u64 (as_i32 (x * 1000))"

definition cluster_zrem :: "'r redis \<Rightarrow> string \<Rightarrow> string \<Rightarrow> ('r, 'p) world \<Rightarrow> ('r, 'p) world" where
  "cluster_zrem R k m w = cluster_do (ZREM R k m) w"

definition cluster_zadd :: "'r redis \<Rightarrow> string \<Rightarrow> string \<Rightarrow> int \<Rightarrow> ('r, 'p) world \<Rightarrow> ('r, 'p) world" where
  "cluster_zadd R k m score w = cluster_do (ZADD R k score m) w"

definition cluster_zrembyscore :: "'r redis \<Rightarrow> string \<Rightarrow> int \<Rightarrow> ('r, 'p) world \<Rightarrow> ('r, 'p) world" where
  "cluster_zrembyscore R k mx w = cluster_do (ZREMRANGE R k mx) w"

definition cluster_set_bitmap ::
    "'r redis \<Rightarrow> string \<Rightarrow> seat_id \<Rightarrow> 8 word \<Rightarrow> ('r, 'p) world \<Rightarrow> ('r, 'p) world" where
  "cluster_set_bitmap R k t state w =
     (case checked_offset t of None \<Rightarrow> w | Some off \<Rightarrow> cluster_do (BITSET R k off state) w)"

definition cluster_get_bitmap :: "'r redis \<Rightarrow> string \<Rightarrow> ('r, 'p) world \<Rightarrow> 8 word list \<times> ('r, 'p) world" where
  "cluster_get_bitmap R k w =
     (case send 0 (reading (GETBITS R k)) w of
        (bs, w1) \<Rightarrow> (case bs of Some xs \<Rightarrow> xs | None \<Rightarrow> [], w1))"

definition cluster_publish :: "string \<Rightarrow> 'p \<Rightarrow> ('r, 'p) world \<Rightarrow> ('r, 'p) world" where
  "cluster_publish ch p w = publish_node 0 ch p w"

definition cluster_lua_acquire ::
    "'r redis \<Rightarrow> schedule_id \<Rightarrow> seat_id \<Rightarrow> user_id \<Rightarrow> int \<Rightarrow> int \<Rightarrow> int \<Rightarrow> nat \<Rightarrow> 'r \<Rightarrow> int \<times> 'r" where
  "cluster_lua_acquire R s t u ttl_ms expiry processing_expiry off r =
     (let current_owner = GET R (seat_lock_key s t) r; member = seat_user_member t u
      in if current_owner = None \<or> current_owner = Some (dec u) then
           (let r1 = SETPX R (seat_lock_key s t) (dec u) ttl_ms r;
                r2 = ZADD R (room_zset_key s) expiry member r1;
                r3 = ZADD R (user_zset_key s u) expiry (dec t) r2;
                r4 = ZADD R seat_processing_queue_key processing_expiry member r3
            in (1, BITSET R (schedule_seat_bitmap s) off 1 r4))
         else (0, r))"

definition cluster_acquire_seat_lock_lua ::
    "slots \<Rightarrow> 'r redis \<Rightarrow> int \<Rightarrow> schedule_id \<Rightarrow> seat_id \<Rightarrow> user_id \<Rightarrow> int \<Rightarrow> ('r, 'p) world \<Rightarrow>
     bool \<times> ('r, 'p) world" where
  "cluster_acquire_seat_lock_lua S R now s t u expires_in_sec w =
     (let ttl_ms = cluster_ttl expires_in_sec; expiry = now + ttl_ms;
          processing_expiry = now + expires_in_sec * 1000 + 15000
      in case checked_offset t of
           None \<Rightarrow> (False, w)
         | Some off \<Rightarrow>
             (case run_cluster S
                 [seat_lock_key s t, room_zset_key s, user_zset_key s u, seat_processing_queue_key,
                  schedule_seat_bitmap s]
                 (cluster_lua_acquire R s t u ttl_ms expiry processing_expiry off) w of
                (res, w1) \<Rightarrow> (res = Some 1, w1)))"

definition cluster_acquire_distributed_lock ::
    "'r redis \<Rightarrow> schedule_id \<Rightarrow> seat_id \<Rightarrow> user_id \<Rightarrow> int \<Rightarrow> ('r, 'p) world \<Rightarrow> bool \<times> ('r, 'p) world" where
  "cluster_acquire_distributed_lock R s t u expires_in_sec w =
     (case send 0 (SETNXPX R (seat_lock_key s t) (dec u) (cluster_ttl expires_in_sec)) w of
        (res, w1) \<Rightarrow> (res = Some True, w1))"

fun cluster_lua_metadata ::
    "'r redis \<Rightarrow> codec \<Rightarrow> schedule_id \<Rightarrow> user_id \<Rightarrow> int \<Rightarrow> seat_id list \<Rightarrow> 'r \<Rightarrow> 'r" where
  "cluster_lua_metadata R J s u expiry [] r = r"
| "cluster_lua_metadata R J s u expiry (t # ts) r =
     cluster_lua_metadata R J s u expiry ts
       (case checked_offset t of
          None \<Rightarrow> r
        | Some off \<Rightarrow>
            (let r1 = ZADD R (room_zset_key s) expiry (enc_entry J (mk_entry t s u)) r;
                 r2 = ZADD R (user_zset_key s u) expiry (dec t) r1
             in BITSET R (schedule_seat_bitmap s) off 1 r2))"

definition cluster_update_seat_metadata_lua ::
    "slots \<Rightarrow> 'r redis \<Rightarrow> codec \<Rightarrow> int \<Rightarrow> schedule_id \<Rightarrow> seat_id list \<Rightarrow> user_id \<Rightarrow> int \<Rightarrow> ('r, 'p) world \<Rightarrow>
     bool \<times> ('r, 'p) world" where
  "cluster_update_seat_metadata_lua S R J now s ts u expires_in_sec w =
     (let expiry = now + cluster_ttl expires_in_sec;
          processing_expiry = now + expires_in_sec * 1000 + 15000
      in case run_cluster S [room_zset_key s, user_zset_key s u, schedule_seat_bitmap s]
           (\<lambda>r. (1, cluster_lua_metadata R J s u expiry ts r)) w of
           (res, w1) \<Rightarrow>
             (res = Some 1,
              if res = None then w1
              else cluster_do (fold (\<lambda>t. ZADD R seat_processing_queue_key processing_expiry
                                        (enc_entry J (mk_entry t s u))) ts) w1))"

definition cluster_lua_release :: "'r redis \<Rightarrow> schedule_id \<Rightarrow> seat_id \<Rightarrow> user_id \<Rightarrow> 'r \<Rightarrow> int \<times> 'r" where
  "cluster_lua_release R s t u r =
     (let current_owner = GET R (seat_lock_key s t) r
      in if current_owner = None \<or> current_owner = Some (dec u) then
           (1, if current_owner \<noteq> None
               then DEL R (seat_user_context_key s t u) (DEL R (seat_lock_key s t) r) else r)
         else (0, r))"

definition cluster_release_lock ::
    "slots \<Rightarrow> 'r redis \<Rightarrow> schedule_id \<Rightarrow> seat_id \<Rightarrow> user_id \<Rightarrow> ('r, 'p) world \<Rightarrow> bool \<times> ('r, 'p) world" where
  "cluster_release_lock S R s t u w =
     (case run_cluster S [seat_lock_key s t, seat_user_context_key s t u] (cluster_lua_release R s t u) w of
        (res, w1) \<Rightarrow>
          if res = Some 1 then
            (let w2 = cluster_zrem R (user_zset_key s u) (dec t) w1;
                 w3 = cluster_zrem R (room_zset_key s) (seat_user_member t u) w2;
                 w4 = cluster_zrem R seat_processing_queue_key (seat_user_member t u) w3
             in (True, cluster_set_bitmap R (schedule_seat_bitmap s) t 0 w4))
          else (False, w1))"

text \<open>The keys of the scripts below, and the body they share.\<close>

definition drop_keys :: "schedule_id \<Rightarrow> seat_id \<Rightarrow> user_id \<Rightarrow> string list" where
  "drop_keys s t u =
     [seat_lock_key s t, seat_user_context_key s t u, room_zset_key s, user_zset_key s u,
      seat_processing_queue_key, schedule_seat_bitmap s]"

definition cluster_lua_drop ::
    "'r redis \<Rightarrow> schedule_id \<Rightarrow> seat_id \<Rightarrow> user_id \<Rightarrow> string \<Rightarrow> nat \<Rightarrow> 8 word \<Rightarrow> 'r \<Rightarrow> 'r" where
  "cluster_lua_drop R s t u member off bits r =
     (let r1 = DEL R (seat_lock_key s t) r;
          r2 = DEL R (seat_user_context_key s t u) r1;
          r3 = ZREM R (room_zset_key s) member r2;
          r4 = ZREM R (user_zset_key s u) (dec t) r3;
          r5 = ZREM R seat_processing_queue_key member r4
      in BITSET R (schedule_seat_bitmap s) off bits r5)"

definition cluster_release_expired_lock_lua ::
    "slots \<Rightarrow> 'r redis \<Rightarrow> schedule_id \<Rightarrow> seat_id \<Rightarrow> user_id \<Rightarrow> string \<Rightarrow> ('r, 'p) world \<Rightarrow> bool \<times> ('r, 'p) world" where
  "cluster_release_expired_lock_lua S R s t u member w =
     (case checked_offset t of
        None \<Rightarrow> (False, w)
      | Some off \<Rightarrow>
          (case run_cluster S (drop_keys s t u)
              (\<lambda>r. let current_owner = GET R (seat_lock_key s t) r
                   in if current_owner = Some (dec u) \<or> current_owner = None
                      then (1, cluster_lua_drop R s t u member off 0 r) else (0, r)) w of
             (res, w1) \<Rightarrow> (res = Some 1, w1)))"

definition cluster_book_seat_lua ::
    "slots \<Rightarrow> 'r redis \<Rightarrow> schedule_id \<Rightarrow> seat_id \<Rightarrow> user_id \<Rightarrow> ('r, 'p) world \<Rightarrow> bool \<times> ('r, 'p) world" where
  "cluster_book_seat_lua S R s t u w =
     (case checked_offset t of
        None \<Rightarrow> (False, w)
      | Some off \<Rightarrow>
          (case run_cluster S (drop_keys s t u)
              (\<lambda>r. let current_owner = GET R (seat_lock_key s t) r
                   in if current_owner = Some (dec u)
                      then (1, cluster_lua_drop R s t u (seat_user_member t u) off 2 r) else (0, r)) w of
             (res, w1) \<Rightarrow> (res = Some 1, w1)))"

definition cluster_force_book_seat_lua ::
    "slots \<Rightarrow> 'r redis \<Rightarrow> schedule_id \<Rightarrow> seat_id \<Rightarrow> user_id \<Rightarrow> string \<Rightarrow> ('r, 'p) world \<Rightarrow> ('r, 'p) world" where
  "cluster_force_book_seat_lua S R s t u member w =
     (case checked_offset t of
        None \<Rightarrow> w
      | Some off \<Rightarrow>
          snd (run_cluster S (drop_keys s t u) (\<lambda>r. (1, cluster_lua_drop R s t u member off 2 r)) w))"

definition cluster_get_lock_owner ::
    "'r redis \<Rightarrow> schedule_id \<Rightarrow> seat_id \<Rightarrow> ('r, 'p) world \<Rightarrow> user_id option \<times> ('r, 'p) world" where
  "cluster_get_lock_owner R s t w =
     (case send 0 (reading (GET R (seat_lock_key s t))) w of (cur, w1) \<Rightarrow> (parse_owner cur, w1))"

definition cluster_user_holds_lock ::
    "'r redis \<Rightarrow> schedule_id \<Rightarrow> seat_id \<Rightarrow> user_id \<Rightarrow> ('r, 'p) world \<Rightarrow> bool \<times> ('r, 'p) world" where
  "cluster_user_holds_lock R s t u w =
     (case send 0 (reading (EXISTS R (seat_user_context_key s t u))) w of (ex, w1) \<Rightarrow> (ex = Some True, w1))"

definition cluster_get_user_locked_seats ::
    "'r redis \<Rightarrow> int \<Rightarrow> schedule_id \<Rightarrow> user_id \<Rightarrow> ('r, 'p) world \<Rightarrow> seat_id list \<times> ('r, 'p) world" where
  "cluster_get_user_locked_seats R now_secs s u w =
     (case send 0 (reading (ZRANGE R (user_zset_key s u) (Some now_secs) None)) w of
        (ms, w1) \<Rightarrow> (List.map_filter parse_i32 (case ms of Some xs \<Rightarrow> xs | None \<Rightarrow> []), w1))"

section \<open>The contract\<close>

definition cl_ok :: "'r redis \<Rightarrow> ('r, 'p) world \<Rightarrow> bool" where
  "cl_ok R w \<longleftrightarrow> sn_ok R w \<and> length (nodes w) = 1"

lemma cluster_ttl_300 [simp]: "cluster_ttl 300 = 300000"
  by (simp add: cluster_ttl_def as_i32_def)

lemma lock_cell_one: "length ns = 1 \<Longrightarrow> lock_cell R s t ns = look R (ns ! 0) (seat_lock_key s t)"
  by (simp add: lock_cell_def)

lemma run_cluster_cases:
  assumes "run_cluster S ks sc w = (res, w')"
  obtains (run) "same_slot S ks" "nodes w' = (nodes w)[0 := snd (sc (nodes w ! 0))]"
      "res = None \<or> res = Some (fst (sc (nodes w ! 0)))"
    | (skip) "nodes w' = nodes w" "res = None"
proof (cases "same_slot S ks")
  case True
  with assms have "send 0 sc w = (res, w')" by (simp add: run_cluster_def)
  then show thesis by (cases rule: send_cases) (use True run skip in auto)
next
  case False
  obtain f w1 where "next_fault w = (f, w1)" by (cases "next_fault w")
  with False assms nodes_next_fault [of w] show thesis by (intro skip) (auto simp: run_cluster_def)
qed

context redis_service
begin

lemma cluster_do_same_locks: "lock_safe R f \<Longrightarrow> same_locks R (nodes w) (nodes (cluster_do f w))"
proof -
  assume f: "lock_safe R f"
  obtain res w1 where w1: "send 0 (writing f) w = (res, w1)" by (cases "send 0 (writing f) w")
  have "same_locks R (nodes w) (nodes w1)"
    by (rule send_pres [OF w1]) (simp_all add: writing_def same_locks_update f)
  then show ?thesis by (simp add: cluster_do_def w1)
qed

lemma cluster_after_release:
  "same_locks R (nodes w) (nodes (cluster_set_bitmap R (schedule_seat_bitmap s) t b
     (cluster_zrem R seat_processing_queue_key m (cluster_zrem R (room_zset_key s) m'
       (cluster_zrem R (user_zset_key s u) m'' w)))))"
  unfolding cluster_set_bitmap_def cluster_zrem_def checked_offset_def
  by (auto intro!: same_locks_trans [OF _ cluster_do_same_locks] cluster_do_same_locks split: option.split)

lemma cluster_acquire_cell:
  assumes "cl_ok R w" "in_i32 u" "cluster_acquire_distributed_lock R s t u 300 w = (b, w')"
  shows "lock_cell R s t (nodes w') = lock_cell R s t (nodes w) \<and> \<not> b \<or>
      lock_cell R s t (nodes w) = None \<and>
      lock_cell R s t (nodes w') = Some (str_entry (dec u) (Some 300000))"
    and "(s', t') \<noteq> (s, t) \<Longrightarrow> lock_cell R s' t' (nodes w') = lock_cell R s' t' (nodes w)"
    and "length (nodes w') = 1"
proof -
  let ?c = "SETNXPX R (seat_lock_key s t) (dec u) 300000" and ?r = "nodes w ! 0"
  have n: "length (nodes w) = 1" using assms(1) by (simp add: cl_ok_def)
  obtain res where w': "send 0 ?c w = (res, w')" "b = (res = Some True)"
    using assms(3) by (auto simp: cluster_acquire_distributed_lock_def split: prod.splits)
  show len: "length (nodes w') = 1" using w'(1) n by (auto elim!: send_cases)
  have "nodes w' = nodes w \<and> res = None \<or> nodes w' = (nodes w)[0 := snd (?c ?r)] \<and> (res = None \<or> res = Some (fst (?c ?r)))"
    using w'(1) by (auto elim!: send_cases)
  then have z: "nodes w' ! 0 = ?r \<and> res \<noteq> Some True \<or>
      look R ?r (seat_lock_key s t) = None \<and> nodes w' ! 0 = SETPX R (seat_lock_key s t) (dec u) 300000 ?r"
    using n by (auto simp: SETNXPX_def EXISTS_def split: if_splits)
  show "lock_cell R s t (nodes w') = lock_cell R s t (nodes w) \<and> \<not> b \<or>
      lock_cell R s t (nodes w) = None \<and> lock_cell R s t (nodes w') = Some (str_entry (dec u) (Some 300000))"
    unfolding lock_cell_one [OF n] lock_cell_one [OF len] using z w'(2) by auto
  show "(s', t') \<noteq> (s, t) \<Longrightarrow> lock_cell R s' t' (nodes w') = lock_cell R s' t' (nodes w)"
    unfolding lock_cell_one [OF n] lock_cell_one [OF len] using z by (auto simp: key_simps)
qed

lemma cluster_release_cell:
  assumes "cl_ok R w" "cluster_release_lock S R s t u w = (b, w')"
  shows "lock_cell R s t (nodes w') = lock_cell R s t (nodes w) \<and>
        (b \<longrightarrow> lock_cell R s t (nodes w) = None) \<or>
      lock_cell R s t (nodes w') = None \<and> str_of (lock_cell R s t (nodes w)) = Some (dec u)"
    and "(s', t') \<noteq> (s, t) \<Longrightarrow> lock_cell R s' t' (nodes w') = lock_cell R s' t' (nodes w)"
    and "length (nodes w') = 1"
proof -
  let ?sc = "cluster_lua_release R s t u" and ?r = "nodes w ! 0"
  have n: "length (nodes w) = 1" and ok: "sn_ok R w" using assms(1) by (auto simp: cl_ok_def)
  have v: "lock_value_ok (lock_cell R s t (nodes w))" using ok by (simp add: sn_ok_def)
  obtain res w1 where w1: "run_cluster S [seat_lock_key s t, seat_user_context_key s t u] ?sc w = (res, w1)"
    by (cases "run_cluster S [seat_lock_key s t, seat_user_context_key s t u] ?sc w")
  have len1: "length (nodes w1) = 1" using w1 n by (auto elim: run_cluster_cases)
  have own: "GET R (seat_lock_key s t) ?r = str_of (lock_cell R s t (nodes w))"
    by (simp add: GET_def lock_cell_one [OF n])
  have c1: "lock_cell R s t (nodes w1) = lock_cell R s t (nodes w) \<and>
        (res = Some 1 \<longrightarrow> lock_cell R s t (nodes w) = None) \<or>
      lock_cell R s t (nodes w1) = None \<and> str_of (lock_cell R s t (nodes w)) = Some (dec u)"
    using w1
  proof (cases rule: run_cluster_cases)
    case run
    then have z: "nodes w1 ! 0 = snd (?sc ?r)" using n by simp
    show ?thesis
      using run(3) v own unfolding lock_cell_one [OF len1] lock_cell_one [OF n] z
      by (auto simp: cluster_lua_release_def lock_value_ok_def key_simps split: if_splits)
  qed simp
  have f1: "lock_cell R s' t' (nodes w1) = lock_cell R s' t' (nodes w)" if "(s', t') \<noteq> (s, t)"
    using w1
  proof (cases rule: run_cluster_cases)
    case run
    then have z: "nodes w1 ! 0 = snd (?sc ?r)" using n by simp
    show ?thesis
      using that unfolding lock_cell_one [OF len1] lock_cell_one [OF n] z
      by (auto simp: cluster_lua_release_def key_simps Let_def)
  qed simp
  have "nodes w1 \<noteq> []" using len1 by auto
  note same = same_locksD [OF cluster_after_release this]
  have fin: "w' = w1 \<and> \<not> b \<or> res = Some 1 \<and> b \<and> w' = cluster_set_bitmap R (schedule_seat_bitmap s) t 0
      (cluster_zrem R seat_processing_queue_key (seat_user_member t u)
        (cluster_zrem R (room_zset_key s) (seat_user_member t u) (cluster_zrem R (user_zset_key s u) (dec t) w1)))"
    using assms(2) by (auto simp: cluster_release_lock_def w1 Let_def split: if_splits)
  show "lock_cell R s t (nodes w') = lock_cell R s t (nodes w) \<and>
        (b \<longrightarrow> lock_cell R s t (nodes w) = None) \<or>
      lock_cell R s t (nodes w') = None \<and> str_of (lock_cell R s t (nodes w)) = Some (dec u)"
    using fin c1 same(1) by auto
  show "(s', t') \<noteq> (s, t) \<Longrightarrow> lock_cell R s' t' (nodes w') = lock_cell R s' t' (nodes w)"
    using fin f1 same(1) by auto
  show "length (nodes w') = 1" using fin len1 same(4) by auto
qed

lemma cl_okI:
  assumes "cl_ok R w" "length (nodes w') = 1" "lock_value_ok (lock_cell R s t (nodes w'))"
    and "\<And>s' t'. (s', t') \<noteq> (s, t) \<Longrightarrow> lock_cell R s' t' (nodes w') = lock_cell R s' t' (nodes w)"
  shows "cl_ok R w'"
proof -
  have "nodes w' \<noteq> []" using assms(2) by auto
  then have "sn_ok R w'" using assms(1,3,4) by (intro sn_okI [of w w' s t]) (auto simp: cl_ok_def)
  with assms(2) show ?thesis by (simp add: cl_ok_def)
qed

end

text \<open>\<open>ClusterLock\<close> meets the contract of the trait as well, for every assignment of slots.\<close>

sublocale redis_service \<subseteq> cl: seat_lock
  "\<lambda>s t u. cluster_acquire_distributed_lock R s t u 300" "cluster_release_lock S R" "sn_holder R" "cl_ok R"
  for S :: slots
proof unfold_locales
  fix w w' :: "('r, 'p) world" and u v s t s' t' b
  assume w: "cl_ok R w" "in_i32 u"
  have v: "lock_value_ok (lock_cell R s t (nodes w))" using w(1) by (simp add: cl_ok_def sn_ok_def)
  note a = cluster_acquire_cell [OF w] and r = cluster_release_cell [OF w(1)]
  show "cl_ok R w'" if acq: "cluster_acquire_distributed_lock R s t u 300 w = (b, w')"
    by (rule cl_okI [OF w(1) a(3) [OF acq] _ a(2) [OF acq]]) (use a(1) [OF acq] v w(2) in auto)
  show "cluster_acquire_distributed_lock R s t u 300 w = (True, w') \<Longrightarrow> sn_holder R s t w' = Some u"
    using a(1) w(2) by (fastforce simp: sn_holder_def)
  show "sn_holder R s t w = Some v \<Longrightarrow> cluster_acquire_distributed_lock R s t u 300 w = (b, w') \<Longrightarrow>
      sn_holder R s t w' = Some v"
    using a(1) by (fastforce simp: sn_holder_def)
  show "sn_holder R s t w = Some v \<Longrightarrow> v \<noteq> u \<Longrightarrow> cluster_acquire_distributed_lock R s t u 300 w = (b, w') \<Longrightarrow> \<not> b"
    using a(1) by (fastforce simp: sn_holder_def)
  show "cluster_acquire_distributed_lock R s t u 300 w = (b, w') \<Longrightarrow> (s', t') \<noteq> (s, t) \<Longrightarrow>
      sn_holder R s' t' w' = sn_holder R s' t' w"
    using a(2) by (simp add: sn_holder_def)
  show "cl_ok R w'" if rel: "cluster_release_lock S R s t u w = (b, w')"
    by (rule cl_okI [OF w(1) r(3) [OF rel] _ r(2) [OF rel]]) (use r(1) [OF rel] v in auto)
  show "\<not> b \<and> sn_holder R s t w' = Some v"
    if "sn_holder R s t w = Some v" "v \<noteq> u" "cluster_release_lock S R s t u w = (b, w')"
    using r(1) [OF that(3)] that(1,2) lock_value_ok_owner [OF v, of u] by (auto simp: sn_holder_def)
  show "cluster_release_lock S R s t u w = (b, w') \<Longrightarrow> (s', t') \<noteq> (s, t) \<Longrightarrow>
      sn_holder R s' t' w' = sn_holder R s' t' w"
    using r(2) by (simp add: sn_holder_def)
qed

section \<open>What the cluster does to the scripts\<close>

lemma takeWhile_dec_brace: "takeWhile (\<lambda>c. c \<noteq> CHR ''}'') (dec s @ CHR ''}'' # r) = dec s"
  by (subst takeWhile_append2) (auto dest: dec_chars simp: is_digit_def)

lemma hash_tag_braces:
  "CHR ''{'' \<notin> set pre \<Longrightarrow> hash_tag (pre @ CHR ''{'' # dec s @ CHR ''}'' # r) = dec s"
proof -
  assume "CHR ''{'' \<notin> set pre"
  then have "dropWhile (\<lambda>c. c \<noteq> CHR ''{'') (pre @ CHR ''{'' # dec s @ CHR ''}'' # r) =
      CHR ''{'' # dec s @ CHR ''}'' # r"
    by (subst dropWhile_append2) auto
  then show ?thesis by (simp add: hash_tag_def takeWhile_dec_brace Let_def)
qed

lemma hash_slot_schedule_keys:
  "hash_slot (room_zset_key s) = hash_slot (dec s)"
  "hash_slot (seat_user_context_key s t u) = hash_slot (dec s)"
proof -
  have id: "hash_tag (dec s) = dec s"
  proof -
    have "CHR ''{'' \<notin> set (dec s)" using dec_chars [of "CHR ''{''" s] by (auto simp: is_digit_def)
    then have "dropWhile (\<lambda>c. c \<noteq> CHR ''{'') (dec s) = []" using dropWhile_eq_Nil_conv by blast
    then show ?thesis by (simp only: hash_tag_def list.case)
  qed
  have "hash_tag (room_zset_key s) = dec s"
    using hash_tag_braces [of "[]" s "'':locks''"] by (simp add: room_zset_key_def)
  then show "hash_slot (room_zset_key s) = hash_slot (dec s)" by (simp add: hash_slot_def id)
  have "hash_tag (seat_user_context_key s t u) = dec s"
    using hash_tag_braces [of "''seat_ctx:''" s "'':'' @ dec t @ '':'' @ dec u"] by (simp add: seat_user_context_key_def)
  then show "hash_slot (seat_user_context_key s t u) = hash_slot (dec s)" by (simp add: hash_slot_def id)
qed

lemma run_cluster_cross: "\<not> same_slot S ks \<Longrightarrow> run_cluster S ks sc w = (None, snd (next_fault w))"
  by (simp add: run_cluster_def split: prod.split)

text \<open>
  C38 (cross-slot scripts). With the slot assignment of Redis Cluster, whenever the lock key and the
  schedule's tagged keys fall into different slots, the scripts of \<open>ClusterLock\<close> that combine them
  never run: acquiring, releasing, expiring and booking report failure and change no server.
\<close>

theorem cross_slot_scripts_fail:
  assumes "hash_slot (seat_lock_key s t) \<noteq> hash_slot (room_zset_key s)"
  shows "(\<forall>(b, w') \<in> {cluster_acquire_seat_lock_lua hash_slot R now s t u x w,
      cluster_release_lock hash_slot R s t u w, cluster_release_expired_lock_lua hash_slot R s t u m w,
      cluster_book_seat_lua hash_slot R s t u w}. \<not> b \<and> nodes w' = nodes w)"
proof -
  have ne: "hash_slot (room_zset_key s) \<noteq> hash_slot (seat_lock_key s t)"
    "hash_slot (seat_user_context_key s t u) \<noteq> hash_slot (seat_lock_key s t)"
    using assms by (simp_all add: hash_slot_schedule_keys)
  then show ?thesis
    by (auto simp: cluster_acquire_seat_lock_lua_def cluster_release_lock_def cluster_book_seat_lua_def
        cluster_release_expired_lock_lua_def drop_keys_def run_cluster_cross same_slot_def Let_def
        split: option.splits)
qed

theorem cross_slot_scripts_fail_witness:
  "\<not> fst (cluster_release_lock hash_slot mem_redis 5 1 7 (fresh_world 1))"
proof -
  have k: "seat_lock_key 5 1 = ''5:1''" "dec 5 = ''5''" by code_simp+
  have t: "hash_tag ''5:1'' = ''5:1''" "hash_tag ''5'' = ''5''" by code_simp+
  have c: "crc16 (as_bytes ''5:1'') = 57977" "crc16 (as_bytes ''5'') = 26358" by code_simp+
  have "hash_slot (seat_lock_key 5 1) \<noteq> hash_slot (room_zset_key 5)"
    unfolding hash_slot_schedule_keys k by (simp add: hash_slot_def t c)
  from cross_slot_scripts_fail [OF this, of mem_redis 0 7 300 "fresh_world 1" "[]"]
  show ?thesis by auto
qed

context redis_service
begin

lemmas cluster_one_winner = cl.ex.one_winner

lemma cluster_force_book_delivered:
  assumes "faults w = []" "cl_ok R w" "same_slot S (drop_keys s t u)" "0 \<le> t"
  shows "sn_holder R s t (cluster_force_book_seat_lua S R s t u m w) = None"
proof -
  have n: "length (nodes w) = 1" using assms(2) by (simp add: cl_ok_def)
  let ?w = "w\<lparr>nodes := (nodes w)[0 := cluster_lua_drop R s t u m (nat t * 2) 2 (nodes w ! 0)]\<rparr>"
  have eq: "cluster_force_book_seat_lua S R s t u m w = ?w"
    using assms(1,3,4) by (simp add: cluster_force_book_seat_lua_def checked_offset_def run_cluster_def)
  have "lock_cell R s t (nodes ?w) = None"
    using n by (simp add: lock_cell_one cluster_lua_drop_def Let_def key_simps)
  then show ?thesis unfolding eq sn_holder_def by simp
qed

end

text \<open>
  C39 (mutual exclusion on a cluster). All requests of \<open>ClusterLock::acquire_distributed_lock\<close> for one seat
  that are granted within a lease come from one user, under any network faults.
\<close>

theorem cluster_lock_one_winner:
  assumes "redis_service R" "cl_ok R w" "\<forall>u \<in> set us. in_i32 u"
    and "herd (\<lambda>u. cluster_acquire_distributed_lock R s t u 300) us w = (bs, w')"
    and "i < j" "j < length us" "bs ! i" "bs ! j"
  shows "us ! i = us ! j"
  by (rule redis_service.cluster_one_winner [OF assms(1), of w us s t bs w']) (use assms in auto)

theorem cluster_lock_one_winner_witness:
  "\<exists>bs w'. herd (\<lambda>u. cluster_acquire_distributed_lock mem_redis 5 1 u 300) [7, 8] (fresh_world 1) = (bs, w') \<and>
     (bs ! 0 \<longrightarrow> \<not> bs ! 1)"
proof -
  obtain bs w' where h: "herd (\<lambda>u. cluster_acquire_distributed_lock mem_redis 5 1 u 300) [7, 8] (fresh_world 1) = (bs, w')"
    by (metis prod.collapse)
  have "cl_ok mem_redis (fresh_world 1)" by (simp add: cl_ok_def)
  from cluster_lock_one_winner [OF mem.redis_service_axioms this _ h, of 0 1]
  show ?thesis using h by (auto simp: in_i32_def)
qed

text \<open>
  C0 (force-booking on a cluster ignores the holder). Where the scripts can run, \<open>ClusterLock\<close>'s
  \<open>force_book_seat_lua\<close> for one user deletes the lock of whoever holds the seat; the same call on
  \<open>SingleNodeLock\<close> never does.
\<close>

theorem cluster_force_book_drops_any_lock:
  assumes "redis_service R" "faults w = []" "cl_ok R w" "same_slot S (drop_keys s t u)" "0 \<le> t"
    and "sn_holder R s t w = Some v" "v \<noteq> u"
  shows "sn_holder R s t (cluster_force_book_seat_lua S R s t u m w) = None \<and>
    sn_holder R s t (force_book_seat_lua R s t u m w) = Some v"
proof -
  have ok: "sn_ok R w" using assms(3) by (simp add: cl_ok_def)
  then have n: "nodes w \<noteq> []" and v: "lock_value_ok (lock_cell R s t (nodes w))" by (simp_all add: sn_ok_def)
  have "sn_holder R s t (force_book_seat_lua R s t u m w) = Some v"
    using redis_service.force_book_cell(1) [OF assms(1) n refl, of s t u m] assms(6,7)
      lock_value_ok_owner [OF v, of u] v
    by (auto simp: sn_holder_def lock_value_ok_def)
  with redis_service.cluster_force_book_delivered [OF assms(1-5)] show ?thesis by simp
qed

theorem cluster_force_book_drops_any_lock_witness:
  "let w = snd (cluster_acquire_distributed_lock mem_redis 5 1 7 300 (fresh_world 1))
   in sn_holder mem_redis 5 1 w = Some 7 \<and>
      sn_holder mem_redis 5 1 (cluster_force_book_seat_lua (\<lambda>_. 0) mem_redis 5 1 8 [] w) = None"
proof -
  let ?w = "snd (cluster_acquire_distributed_lock mem_redis 5 1 7 300 (fresh_world 1))"
  have h: "sn_holder mem_redis 5 1 ?w = Some 7" "faults ?w = []" "cl_ok mem_redis ?w"
    by (simp_all add: cluster_acquire_distributed_lock_def acquire_eval sn_holder_def cl_ok_def sn_ok_def
        lock_cell_def in_i32_def key_simps)
  have "same_slot (\<lambda>_. 0) (drop_keys 5 1 8)" by (simp add: same_slot_def drop_keys_def)
  from cluster_force_book_drops_any_lock [OF mem.redis_service_axioms h(2,3) this _ h(1), of "[]"] h(1)
  show ?thesis by (simp add: Let_def)
qed

end
