(* ===== verification/Lock_Backend.thy ===== *)
theory Lock_Backend
  imports Cluster_Lock
begin

text \<open>
  How the services get at Redis (\<open>packages/redis-conn/src/lib.rs\<close>) and PostgreSQL
  (\<open>packages/db/src/db.rs\<close>): the retry loop that opens a pool with capped exponential back-off, configured
  from the environment, and the choice of the lock implementation. \<open>Arc<dyn SeatLock>\<close> is a record of
  the trait's methods, of which \<open>SingleNodeLock\<close> and \<open>ClusterLock\<close> give one value each.
\<close>

section \<open>Configuration\<close>

definition env_u64 :: "env \<Rightarrow> string \<Rightarrow> int \<Rightarrow> int" where
  "env_u64 env name dflt =
     (case Option.bind (env name) (parse_within in_u64) of Some n \<Rightarrow> n | None \<Rightarrow> dflt)"

definition env_u32 :: "env \<Rightarrow> string \<Rightarrow> int \<Rightarrow> int" where
  "env_u32 env name dflt = min (max 1 (env_u64 env name dflt)) (2 ^ 32 - 1)"

section \<open>Opening a pool\<close>

text \<open>
  The loop over \<open>1..=attempts\<close>: the first element of \<open>builds\<close> says whether the next attempt to build the
  pool succeeds, an attempt beyond the list fails. The result is the outcome and the delays slept, in
  milliseconds. \<open>None\<close> is the end of the loop, marked \<open>unreachable!\<close> in the code.
\<close>

fun retry_loop :: "nat \<Rightarrow> nat \<Rightarrow> int \<Rightarrow> int \<Rightarrow> bool list \<Rightarrow> (bool \<times> int list) option" where
  "retry_loop 0 attempt delay max_delay builds = None"
| "retry_loop (Suc left) attempt delay max_delay builds =
     (let ok = (case builds of [] \<Rightarrow> False | b # _ \<Rightarrow> b)
      in if ok then Some (True, [])
         else if left \<noteq> 0
         then map_option (\<lambda>(r, ds). (r, delay # ds))
                (retry_loop left (attempt + 1) (min (delay * 2) max_delay) max_delay (tl builds))
         else Some (False, []))"

definition establish_pool :: "env \<Rightarrow> bool list \<Rightarrow> (bool \<times> int list) option" where
  "establish_pool env builds =
     retry_loop (nat (env_u32 env ''CONNECTION_RETRY_ATTEMPTS'' 30)) 1
       (env_u64 env ''CONNECTION_RETRY_INITIAL_MS'' 500) (env_u64 env ''CONNECTION_RETRY_MAX_MS'' 30000) builds"

text \<open>\<open>create_db_pool\<close> runs the same loop; its failure is a panic.\<close>

definition create_db_pool :: "env \<Rightarrow> bool list \<Rightarrow> (bool \<times> int list) option" where
  "create_db_pool env builds =
     retry_loop (nat (env_u32 env ''CONNECTION_RETRY_ATTEMPTS'' 30)) 1
       (env_u64 env ''CONNECTION_RETRY_INITIAL_MS'' 500) (env_u64 env ''CONNECTION_RETRY_MAX_MS'' 30000) builds"

lemma retry_loop_result:
  assumes "0 < n" "0 \<le> delay" "delay \<le> mx"
  shows "\<exists>ds. retry_loop n a delay mx builds = Some (True \<in> set (take n builds), ds) \<and> length ds < n \<and>
    (\<forall>d \<in> set ds. 0 \<le> d \<and> d \<le> mx)"
  using assms
proof (induction n arbitrary: a delay builds)
  case (Suc n)
  show ?case
  proof (cases "builds \<noteq> [] \<and> hd builds")
    case True
    then show ?thesis by (cases builds) auto
  next
    case False
    then have ok: "(case builds of [] \<Rightarrow> False | b # _ \<Rightarrow> b) = False" by (cases builds) auto
    show ?thesis
    proof (cases "n = 0")
      case True
      with False show ?thesis by (cases builds) auto
    next
      case n: False
      obtain ds where ds: "retry_loop n (a + 1) (min (delay * 2) mx) mx (tl builds) =
          Some (True \<in> set (take n (tl builds)), ds)" "length ds < n" "\<forall>d \<in> set ds. 0 \<le> d \<and> d \<le> mx"
        using Suc.IH [of "min (delay * 2) mx" "a + 1" "tl builds"] n Suc.prems by auto
      have "True \<in> set (take (Suc n) builds) \<longleftrightarrow> True \<in> set (take n (tl builds))"
        using False by (cases builds) auto
      with ds ok n Suc.prems show ?thesis by (simp add: Let_def)
    qed
  qed
qed simp

section \<open>The trait object\<close>

record 'w SeatLock =
  sl_acquire_seat :: "schedule_id \<Rightarrow> seat_id \<Rightarrow> user_id \<Rightarrow> int \<Rightarrow> 'w \<Rightarrow> bool \<times> 'w"
  sl_acquire :: "schedule_id \<Rightarrow> seat_id \<Rightarrow> user_id \<Rightarrow> int \<Rightarrow> 'w \<Rightarrow> bool \<times> 'w"
  sl_update_metadata :: "schedule_id \<Rightarrow> seat_id list \<Rightarrow> user_id \<Rightarrow> int \<Rightarrow> 'w \<Rightarrow> bool \<times> 'w"
  sl_release :: "schedule_id \<Rightarrow> seat_id \<Rightarrow> user_id \<Rightarrow> 'w \<Rightarrow> bool \<times> 'w"
  sl_release_expired :: "schedule_id \<Rightarrow> seat_id \<Rightarrow> user_id \<Rightarrow> string \<Rightarrow> 'w \<Rightarrow> bool \<times> 'w"
  sl_owner :: "schedule_id \<Rightarrow> seat_id \<Rightarrow> 'w \<Rightarrow> user_id option \<times> 'w"
  sl_user_holds :: "schedule_id \<Rightarrow> seat_id \<Rightarrow> user_id \<Rightarrow> 'w \<Rightarrow> bool \<times> 'w"
  sl_user_seats :: "schedule_id \<Rightarrow> user_id \<Rightarrow> 'w \<Rightarrow> seat_id list \<times> 'w"
  sl_set_bitmap :: "string \<Rightarrow> seat_id \<Rightarrow> 8 word \<Rightarrow> 'w \<Rightarrow> 'w"
  sl_get_bitmap :: "string \<Rightarrow> 'w \<Rightarrow> 8 word list \<times> 'w"
  sl_zrem :: "string \<Rightarrow> string \<Rightarrow> 'w \<Rightarrow> 'w"
  sl_zadd :: "string \<Rightarrow> string \<Rightarrow> int \<Rightarrow> 'w \<Rightarrow> 'w"
  sl_zrembyscore :: "string \<Rightarrow> int \<Rightarrow> 'w \<Rightarrow> 'w"
  sl_publish :: "string \<Rightarrow> json \<Rightarrow> 'w \<Rightarrow> 'w"
  sl_book :: "schedule_id \<Rightarrow> seat_id \<Rightarrow> user_id \<Rightarrow> 'w \<Rightarrow> bool \<times> 'w"
  sl_force_book :: "schedule_id \<Rightarrow> seat_id \<Rightarrow> user_id \<Rightarrow> string \<Rightarrow> 'w \<Rightarrow> 'w"

text \<open>\<open>now_ms\<close> is the clock the implementations read.\<close>

definition single_node_lock :: "'r redis \<Rightarrow> codec \<Rightarrow> int \<Rightarrow> ('r, json) world SeatLock" where
  "single_node_lock R J now_ms =
     \<lparr>sl_acquire_seat = acquire_seat_lock_lua R J (now_ms div 1000),
      sl_acquire = acquire_distributed_lock R,
      sl_update_metadata = update_seat_metadata_lua R J (now_ms div 1000),
      sl_release = release_lock R J,
      sl_release_expired = release_expired_lock_lua R,
      sl_owner = get_lock_owner R,
      sl_user_holds = user_holds_lock R,
      sl_user_seats = get_user_locked_seats R (now_ms div 1000),
      sl_set_bitmap = set_schedule_seat_bitmap_state_cluster R,
      sl_get_bitmap = get_schedule_seat_bitmap_state_cluster R,
      sl_zrem = zrem_cluster R,
      sl_zadd = zadd_cluster R,
      sl_zrembyscore = zrembyscore_cluster R,
      sl_publish = publish_event,
      sl_book = book_seat_lua R J,
      sl_force_book = force_book_seat_lua R\<rparr>"

definition cluster_lock :: "slots \<Rightarrow> 'r redis \<Rightarrow> codec \<Rightarrow> int \<Rightarrow> ('r, json) world SeatLock" where
  "cluster_lock S R J now_ms =
     \<lparr>sl_acquire_seat = cluster_acquire_seat_lock_lua S R now_ms,
      sl_acquire = cluster_acquire_distributed_lock R,
      sl_update_metadata = cluster_update_seat_metadata_lua S R J now_ms,
      sl_release = cluster_release_lock S R,
      sl_release_expired = cluster_release_expired_lock_lua S R,
      sl_owner = cluster_get_lock_owner R,
      sl_user_holds = cluster_user_holds_lock R,
      sl_user_seats = cluster_get_user_locked_seats R (now_ms div 1000),
      sl_set_bitmap = cluster_set_bitmap R,
      sl_get_bitmap = cluster_get_bitmap R,
      sl_zrem = cluster_zrem R,
      sl_zadd = cluster_zadd R,
      sl_zrembyscore = cluster_zrembyscore R,
      sl_publish = cluster_publish,
      sl_book = cluster_book_seat_lua S R,
      sl_force_book = cluster_force_book_seat_lua S R\<rparr>"

definition establish_seat_lock :: "env \<Rightarrow> slots \<Rightarrow> 'r redis \<Rightarrow> codec \<Rightarrow> int \<Rightarrow> ('r, json) world SeatLock" where
  "establish_seat_lock env S R J now_ms =
     (let redis_mode = (case env ''REDIS_MODE'' of Some m \<Rightarrow> m | None \<Rightarrow> ''single'')
      in if eq_ignore_ascii_case redis_mode ''cluster'' then cluster_lock S R J now_ms
         else single_node_lock R J now_ms)"

section \<open>Properties\<close>

text \<open>
  C40 (opening a pool). Whatever the environment says, if the initial delay is within the cap, the loop ends
  with a result, never at its \<open>unreachable!\<close> end: success exactly when one of the allowed attempts
  succeeds, after fewer sleeps than attempts, none longer than the cap.
\<close>

theorem establish_pool_terminates:
  assumes "0 \<le> env_u64 env ''CONNECTION_RETRY_INITIAL_MS'' 500"
    and "env_u64 env ''CONNECTION_RETRY_INITIAL_MS'' 500 \<le> env_u64 env ''CONNECTION_RETRY_MAX_MS'' 30000"
  shows "let n = nat (env_u32 env ''CONNECTION_RETRY_ATTEMPTS'' 30)
    in \<exists>delays. establish_pool env builds = Some (True \<in> set (take n builds), delays) \<and> length delays < n \<and>
         (\<forall>d \<in> set delays. 0 \<le> d \<and> d \<le> env_u64 env ''CONNECTION_RETRY_MAX_MS'' 30000)"
proof -
  have "0 < nat (env_u32 env ''CONNECTION_RETRY_ATTEMPTS'' 30)" by (simp add: env_u32_def)
  from retry_loop_result [OF this assms] show ?thesis by (simp add: establish_pool_def Let_def)
qed

theorem establish_pool_terminates_witness:
  "\<exists>delays. establish_pool (\<lambda>_. None) [False, False, True] = Some (True, delays) \<and> length delays < 30"
  using establish_pool_terminates [of "\<lambda>_. None" "[False, False, True]"]
  by (auto simp: env_u64_def env_u32_def)

end
