(* ===== verification/Booking_DB.thy ===== *)
theory Booking_DB
  imports Wire_Format Redis_Service
begin

text \<open>
  The relational database behind the booking flow: the rows of \<open>packages/db/src/models.rs\<close>, the tables
  with the primary keys, unique indexes and foreign keys of \<open>packages/db/migrations\<close>, and the statements
  the services run on them. A statement means what SQL says (an \<open>UPDATE\<close> rewrites the rows its \<open>WHERE\<close>
  selects, an \<open>INSERT\<close> is refused when it violates a constraint), a transaction is all or nothing.
  Every exchange with the server consults a schedule of faults: a statement that fails aborts its
  transaction, and a \<open>COMMIT\<close> whose reply is lost has taken effect although the client sees an error.
\<close>

section \<open>Scalars\<close>

type_synonym Uuid = "128 word"

text \<open>A \<open>BigDecimal\<close> is an unscaled integer and a scale; a timestamp counts microseconds.\<close>

type_synonym BigDecimal = "int \<times> int"
type_synonym timestamp = int

definition seconds :: "int \<Rightarrow> timestamp" where
  "seconds n = n * 1000000"

text \<open>
  What the handlers take from other crates: parsing and printing of identifiers and amounts, the
  conversion of an amount to paise (through \<open>f64\<close>), and the trace context put into event payloads.
\<close>

record crates =
  parse_uuid :: "string \<Rightarrow> Uuid option"
  show_uuid :: "Uuid \<Rightarrow> string"
  parse_decimal :: "string \<Rightarrow> BigDecimal option"
  paise_of :: "BigDecimal \<Rightarrow> int"
  current_carrier :: json

section \<open>Enumerations and rows\<close>

datatype UserRole = UserRole_User | UserRole_Admin

datatype SeatStatus = Available | Locked | Booked

datatype ShowType = Movie | Concert | Event | GameEvent

datatype LayoutSeatClass = Standard | Premium | Vip | Ga

datatype SeatSource = Base | Extra

datatype TimeSlot = Morning | Afternoon | Evening | Night

datatype ScheduleLifecycleState = Scheduled | Open | Closed

record User =
  us_id :: int
  us_email :: string
  us_password_hash :: string
  us_role :: UserRole
  us_created_at :: timestamp

record Schedule =
  sc_id :: schedule_id
  sc_mongo_show_id :: string
  sc_show_type :: ShowType
  sc_layout_id :: "int option"
  sc_start_time :: timestamp
  sc_booking_open_at :: timestamp
  sc_lifecycle_state :: ScheduleLifecycleState
  sc_created_at :: timestamp
  sc_deleted_at :: "timestamp option"
  sc_venue_name :: "string option"
  sc_venue_address :: "string option"
  sc_venue_city :: "string option"
  sc_venue_state :: "string option"
  sc_date :: timestamp
  sc_slot :: TimeSlot
  sc_end_time :: timestamp

record ScheduleSeat =
  ss_id :: seat_id
  ss_schedule_id :: schedule_id
  ss_seat_index :: int
  ss_layout_seat_id :: "int option"
  ss_source :: SeatSource
  ss_row_letter :: string
  ss_seat_number :: int
  ss_seat_class :: LayoutSeatClass
  ss_price :: BigDecimal
  ss_status :: SeatStatus
  ss_booking_id :: "int option"

record Order =
  od_id :: Uuid
  od_payment_request_id :: Uuid
  od_user_id :: user_id
  od_schedule_id :: schedule_id
  od_seat_ids :: json
  od_total_amount :: BigDecimal
  od_razorpay_order_id :: string
  od_razorpay_payment_id :: "string option"
  od_status :: string
  od_created_at :: timestamp
  od_updated_at :: timestamp

record Ticket =
  tk_id :: Uuid
  tk_order_id :: Uuid
  tk_user_id :: user_id
  tk_schedule_id :: schedule_id
  tk_seat_ids :: json
  tk_pdf_url :: string
  tk_status :: string
  tk_created_at :: timestamp
  tk_updated_at :: timestamp

record UserAudit =
  ua_id :: Uuid
  ua_user_id :: user_id
  ua_action :: string
  ua_order_id :: Uuid
  ua_amount :: BigDecimal
  ua_details :: json
  ua_created_at :: timestamp

text \<open>The column \<open>status\<close> is the enumeration \<open>payment_request_status\<close>, read as text by the model.\<close>

record PaymentRequest =
  pr_id :: Uuid
  pr_idempotency_key :: string
  pr_user_id :: user_id
  pr_schedule_id :: schedule_id
  pr_seat_ids :: json
  pr_status :: string
  pr_booking_id :: "int option"
  pr_failure_reason :: "string option"
  pr_created_at :: timestamp
  pr_updated_at :: timestamp

record OutboxEvent =
  oe_id :: Uuid
  oe_aggregate_type :: string
  oe_aggregate_id :: Uuid
  oe_event_type :: string
  oe_payload :: json
  oe_created_at :: timestamp
  oe_published_at :: "timestamp option"
  oe_attempts :: int
  oe_processing_at :: "timestamp option"
  oe_next_attempt_at :: timestamp
  oe_last_error :: "string option"
  oe_dead_lettered_at :: "timestamp option"

section \<open>Tables and constraints\<close>

record tables =
  users :: "User list"
  schedules :: "Schedule list"
  schedule_seats :: "ScheduleSeat list"
  orders :: "Order list"
  tickets :: "Ticket list"
  user_audits :: "UserAudit list"
  payment_requests :: "PaymentRequest list"
  outbox_events :: "OutboxEvent list"

text \<open>The primary keys and unique indexes.\<close>

definition keys_ok :: "tables \<Rightarrow> bool" where
  "keys_ok T \<longleftrightarrow>
     distinct (map us_id (users T)) \<and> distinct (map us_email (users T)) \<and> distinct (map sc_id (schedules T)) \<and>
     distinct (map ss_id (schedule_seats T)) \<and>
     distinct (map (\<lambda>r. (ss_schedule_id r, ss_seat_index r)) (schedule_seats T)) \<and>
     distinct (map (\<lambda>r. (ss_schedule_id r, ss_row_letter r, ss_seat_number r)) (schedule_seats T)) \<and>
     distinct (map (\<lambda>r. (sc_mongo_show_id r, sc_venue_city r, case sc_venue_name r of Some n \<Rightarrow> n | None \<Rightarrow> [], sc_start_time r))
       (filter (\<lambda>r. sc_deleted_at r = None \<and> sc_venue_city r \<noteq> None) (schedules T))) \<and>
     distinct (map od_id (orders T)) \<and> distinct (map od_payment_request_id (orders T)) \<and>
     distinct (map tk_id (tickets T)) \<and> distinct (map tk_order_id (tickets T)) \<and>
     distinct (map ua_id (user_audits T)) \<and>
     distinct (map pr_id (payment_requests T)) \<and>
     distinct (map (\<lambda>r. (pr_user_id r, pr_idempotency_key r)) (payment_requests T)) \<and>
     distinct (map oe_id (outbox_events T))"

text \<open>The foreign keys of the tables the booking flow writes.\<close>

definition refs_ok :: "tables \<Rightarrow> bool" where
  "refs_ok T \<longleftrightarrow>
     (\<forall>r \<in> set (orders T). od_payment_request_id r \<in> pr_id ` set (payment_requests T) \<and>
        od_user_id r \<in> us_id ` set (users T) \<and> od_schedule_id r \<in> sc_id ` set (schedules T)) \<and>
     (\<forall>r \<in> set (tickets T). tk_order_id r \<in> od_id ` set (orders T) \<and>
        tk_user_id r \<in> us_id ` set (users T) \<and> tk_schedule_id r \<in> sc_id ` set (schedules T)) \<and>
     (\<forall>r \<in> set (user_audits T). ua_order_id r \<in> od_id ` set (orders T) \<and>
        ua_user_id r \<in> us_id ` set (users T)) \<and>
     (\<forall>r \<in> set (payment_requests T). pr_user_id r \<in> us_id ` set (users T) \<and>
        pr_schedule_id r \<in> sc_id ` set (schedules T))"

definition tables_ok :: "tables \<Rightarrow> bool" where
  "tables_ok T \<longleftrightarrow> keys_ok T \<and> refs_ok T"

section \<open>Statements\<close>

datatype db_error = PoolError | QueryFailed | ConstraintViolation

definition update_rows :: "('a \<Rightarrow> bool) \<Rightarrow> ('a \<Rightarrow> 'a) \<Rightarrow> 'a list \<Rightarrow> 'a list" where
  "update_rows sel f rs = map (\<lambda>r. if sel r then f r else r) rs"

text \<open>An insertion or an update is refused when the table would break a constraint.\<close>

definition checked :: "(tables \<Rightarrow> tables) \<Rightarrow> tables \<Rightarrow> tables option" where
  "checked f T = (if tables_ok (f T) then Some (f T) else None)"

record database =
  rows :: tables
  db_faults :: "fault list"

definition db_fault :: "database \<Rightarrow> fault \<times> database" where
  "db_fault d = (case db_faults d of [] \<Rightarrow> (Delivered, d) | f # fs \<Rightarrow> (f, d\<lparr>db_faults := fs\<rparr>))"

definition db_get :: "database \<Rightarrow> bool \<times> database" where
  "db_get d = (case db_fault d of (f, d') \<Rightarrow> (f \<noteq> Refused, d'))"

text \<open>A query outside a transaction: \<open>None\<close> when it fails.\<close>

definition query :: "(tables \<Rightarrow> 'a) \<Rightarrow> database \<Rightarrow> 'a option \<times> database" where
  "query q d = (case db_fault d of (f, d') \<Rightarrow> (if f = Delivered then Some (q (rows d')) else None, d'))"

text \<open>A single statement commits by itself; its reply may be lost after it took effect.\<close>

definition execute :: "(tables \<Rightarrow> tables) \<Rightarrow> database \<Rightarrow> (db_error + unit) \<times> database" where
  "execute st d =
     (case db_fault d of (f, d') \<Rightarrow>
        if f = Refused then (Inl QueryFailed, d')
        else case checked st (rows d') of
               None \<Rightarrow> (Inl ConstraintViolation, d')
             | Some T \<Rightarrow> (if f = ReplyLost then Inl QueryFailed else Inr (), d'\<lparr>rows := T\<rparr>))"

text \<open>The statements of a transaction in order, each checked, the first failure ending the run.\<close>

fun run_stmts :: "(tables \<Rightarrow> tables) list \<Rightarrow> database \<Rightarrow> (db_error + unit) \<times> database" where
  "run_stmts [] d = (Inr (), d)"
| "run_stmts (st # sts) d =
     (case db_fault d of (f, d') \<Rightarrow>
        if f \<noteq> Delivered then (Inl QueryFailed, d')
        else case checked st (rows d') of
               None \<Rightarrow> (Inl ConstraintViolation, d')
             | Some T \<Rightarrow> run_stmts sts (d'\<lparr>rows := T\<rparr>))"

text \<open>\<open>BEGIN\<close>, the body, then \<open>COMMIT\<close>, or \<open>ROLLBACK\<close> when the body failed.\<close>

definition transaction :: "(tables \<Rightarrow> tables) list \<Rightarrow> database \<Rightarrow> (db_error + unit) \<times> database" where
  "transaction sts d =
     (case db_fault d of (fb, d0) \<Rightarrow>
        if fb \<noteq> Delivered then (Inl QueryFailed, d0)
        else case run_stmts sts d0 of
               (Inl e, d1) \<Rightarrow> (Inl e, d1\<lparr>rows := rows d0\<rparr>)
             | (Inr _, d1) \<Rightarrow>
                 (case db_fault d1 of (fc, d2) \<Rightarrow>
                    if fc = Refused then (Inl QueryFailed, d2\<lparr>rows := rows d0\<rparr>)
                    else (if fc = ReplyLost then Inl QueryFailed else Inr (), d2)))"

text \<open>\<open>pool.get()\<close>, then the work on the connection.\<close>

definition with_conn ::
    "(database \<Rightarrow> (db_error + unit) \<times> database) \<Rightarrow> database \<Rightarrow> (db_error + unit) \<times> database" where
  "with_conn f d = (case db_get d of (ok, d1) \<Rightarrow> if ok then f d1 else (Inl PoolError, d1))"

section \<open>Lemmas on statements\<close>

lemma rows_db_fault [simp]: "rows (snd (db_fault d)) = rows d"
  by (simp add: db_fault_def split: list.split)

lemma db_faultD: "db_fault d = (f, d') \<Longrightarrow> rows d' = rows d"
  using rows_db_fault [of d] by simp

lemma db_getD: "db_get d = (b, d') \<Longrightarrow> rows d' = rows d"
  by (auto simp: db_get_def dest: db_faultD split: prod.splits)

lemma queryD: "query q d = (res, d') \<Longrightarrow> rows d' = rows d \<and> (res = None \<or> res = Some (q (rows d)))"
  by (auto simp: query_def dest!: db_faultD split: prod.splits)

lemma checked_ok: "checked f T = Some T' \<Longrightarrow> tables_ok T' \<and> T' = f T"
  by (auto simp: checked_def split: if_splits)

definition run_all :: "(tables \<Rightarrow> tables) list \<Rightarrow> tables \<Rightarrow> tables" where
  "run_all sts T = foldl (\<lambda>T f. f T) T sts"

lemma run_all_simps [simp]:
  "run_all [] T = T" "run_all (f # sts) T = run_all sts (f T)"
  by (simp_all add: run_all_def)

lemma run_stmts_Inr:
  "run_stmts sts d = (Inr x, d') \<Longrightarrow> rows d' = run_all sts (rows d)"
proof (induction sts arbitrary: d)
  case (Cons st sts)
  obtain f d1 where f: "db_fault d = (f, d1)" by (cases "db_fault d")
  with Cons.prems obtain T where T: "checked st (rows d1) = Some T"
    and r: "run_stmts sts (d1\<lparr>rows := T\<rparr>) = (Inr x, d')"
    by (auto split: if_splits option.splits)
  from Cons.IH [OF r] checked_ok [OF T] db_faultD [OF f] show ?case by simp
qed simp

lemma run_stmts_ok:
  "tables_ok (rows d) \<Longrightarrow> run_stmts sts d = (Inr x, d') \<Longrightarrow> tables_ok (rows d')"
proof (induction sts arbitrary: d)
  case (Cons st sts)
  obtain f d1 where f: "db_fault d = (f, d1)" by (cases "db_fault d")
  with Cons.prems obtain T where T: "checked st (rows d1) = Some T"
    and r: "run_stmts sts (d1\<lparr>rows := T\<rparr>) = (Inr x, d')"
    by (auto split: if_splits option.splits)
  from Cons.IH [OF _ r] checked_ok [OF T] show ?case by auto
qed simp

text \<open>
  A transaction leaves the tables alone or applies all of its statements; when it reports success it has
  applied them, and it never leaves a constraint broken.
\<close>

lemma transaction_cases:
  assumes "transaction sts d = (res, d')"
  obtains (rolled_back) e where "res = Inl e" "rows d' = rows d"
    | (committed) "rows d' = run_all sts (rows d)" "tables_ok (rows d) \<longrightarrow> tables_ok (rows d')"
proof -
  obtain fb d0 where fb: "db_fault d = (fb, d0)" by (cases "db_fault d")
  note r0 = db_faultD [OF fb]
  obtain r d1 where b: "run_stmts sts d0 = (r, d1)" by (cases "run_stmts sts d0")
  obtain fc d2 where fc: "db_fault d1 = (fc, d2)" by (cases "db_fault d1")
  note r2 = db_faultD [OF fc]
  show thesis
  proof (cases "fb = Delivered \<and> (\<exists>x. r = Inr x) \<and> fc \<noteq> Refused")
    case True
    then obtain x where "r = Inr x" by auto
    with True b have "rows d1 = run_all sts (rows d0)" "tables_ok (rows d0) \<longrightarrow> tables_ok (rows d1)"
      by (auto dest: run_stmts_Inr intro: run_stmts_ok)
    with True assms fb b fc r0 r2 show thesis
      by (intro committed) (auto simp: transaction_def split: if_splits)
  next
    case False
    with assms fb b fc r0 r2 have "\<exists>e. res = Inl e \<and> rows d' = rows d"
      by (auto simp: transaction_def split: if_splits sum.splits)
    then show thesis using rolled_back by blast
  qed
qed

lemma with_conn_cases:
  assumes "with_conn (transaction sts) d = (res, d')"
  obtains (rolled_back) e where "res = Inl e" "rows d' = rows d"
    | (committed) "rows d' = run_all sts (rows d)" "tables_ok (rows d) \<longrightarrow> tables_ok (rows d')"
proof -
  obtain ok d1 where g: "db_get d = (ok, d1)" by (cases "db_get d")
  note r = db_getD [OF g]
  show thesis
  proof (cases ok)
    case True
    with assms g have "transaction sts d1 = (res, d')" by (simp add: with_conn_def)
    then show thesis using r rolled_back committed by (cases rule: transaction_cases) auto
  next
    case False
    with assms g r show thesis by (intro rolled_back) (auto simp: with_conn_def)
  qed
qed

lemma with_conn_Inr:
  "with_conn (transaction sts) d = (Inr x, d') \<Longrightarrow> rows d' = run_all sts (rows d)"
  by (auto elim: with_conn_cases)

lemma transaction_Inr:
  assumes "transaction sts d = (Inr x, d')"
  shows "rows d' = run_all sts (rows d)" and "tables_ok (rows d) \<Longrightarrow> tables_ok (rows d')"
  using assms by (auto elim: transaction_cases)

lemma transaction_keeps_tables_ok:
  "tables_ok (rows d) \<Longrightarrow> transaction sts d = (res, d') \<Longrightarrow> tables_ok (rows d')"
  by (auto elim!: transaction_cases)

lemma execute_cases:
  assumes "execute st d = (res, d')"
  shows "rows d' = rows d \<or> rows d' = st (rows d) \<and> tables_ok (rows d')"
  using assms
  by (auto simp: execute_def dest!: db_faultD checked_ok split: prod.splits if_splits option.splits)

lemma execute_Inr:
  "execute st d = (Inr x, d') \<Longrightarrow> rows d' = st (rows d) \<and> tables_ok (rows d')"
  by (auto simp: execute_def dest!: db_faultD checked_ok split: prod.splits if_splits option.splits)

lemma no_db_faults_simps [simp]:
  assumes "db_faults d = []"
  shows "db_fault d = (Delivered, d)" and "db_get d = (True, d)" and "query q d = (Some (q (rows d)), d)"
  using assms by (simp_all add: db_fault_def db_get_def query_def)

lemma map_update_rows:
  "(\<And>r. g (f r) = g r) \<Longrightarrow> map g (update_rows sel f rs) = map g rs"
  by (simp add: update_rows_def)

lemma set_update_rows: "set (update_rows sel f rs) = (\<lambda>r. if sel r then f r else r) ` set rs"
  by (simp add: update_rows_def)

lemma update_rows_hit: "r \<in> set rs \<Longrightarrow> sel r \<Longrightarrow> f r \<in> set (update_rows sel f rs)"
  by (auto simp: set_update_rows)

end
