(* ===== verification/Lock_Server.thy ===== *)
theory Lock_Server
  imports Gateway Lock_Backend Booking_DB
begin

text \<open>
  The lock server (\<open>apps/lock-server/src\<close>, the active files): the consumer of the locking queue, which records
  the metadata of locked seats and releases unlocked ones, and the updater, one elected instance of which
  settles the due entries of the seat-processing queue. Redis is reached through the trait object and through
  the server's own pool (the first server), the database decides whether an expired seat was booked.
\<close>

section \<open>Messages\<close>

definition LOCK_TTL_SECS :: int where
  "LOCK_TTL_SECS = 300"

definition default_action :: string where
  "default_action = ''lock''"

text \<open>The JSON the gateway puts into the queue, and how the lock server reads it (an object, or the array of the
  fields in order; only \<open>action\<close> has a default).\<close>

definition message_json :: "SeatLockMessage \<Rightarrow> json" where
  "message_json m =
     JObj [(''action'', JStr (sm_action m)), (''user_id'', JInt (sm_user m)), (''showtime_id'', JInt (sm_showtime m)),
       (''seat_ids'', JArr (map JInt (sm_seats m))), (''timestamp'', JInt (sm_timestamp m))]"

definition mk_message :: "json \<Rightarrow> json \<Rightarrow> json \<Rightarrow> json \<Rightarrow> json \<Rightarrow> SeatLockMessage option" where
  "mk_message a u s ts t =
     (case (as_str a, de_i32 u, de_i32 s, de_ids ts, as_i64 t) of
        (Some a', Some u', Some s', Some ts', Some t') \<Rightarrow>
          Some \<lparr>sm_action = a', sm_user = u', sm_showtime = s', sm_seats = ts', sm_timestamp = t'\<rparr>
      | _ \<Rightarrow> None)"

fun message_of_json :: "json \<Rightarrow> SeatLockMessage option" where
  "message_of_json (JObj fs) =
     mk_message (case map_of fs ''action'' of Some a \<Rightarrow> a | None \<Rightarrow> JStr default_action)
       (jget (JObj fs) ''user_id'') (jget (JObj fs) ''showtime_id'') (jget (JObj fs) ''seat_ids'')
       (jget (JObj fs) ''timestamp'')"
| "message_of_json (JArr [a, u, s, ts, t]) = mk_message a u s ts t"
| "message_of_json _ = None"

section \<open>Publishing\<close>

definition ls_publish :: "string \<Rightarrow> PubSubEvent \<Rightarrow> ('r, json) world \<Rightarrow> ('r, json) world" where
  "ls_publish channel event w =
     (case pool_get w of (ok, w1) \<Rightarrow> if ok then publish_node 0 channel (event_json event) w1 else w1)"

definition publish_room_event :: "PubSubEvent \<Rightarrow> ('r, json) world \<Rightarrow> ('r, json) world" where
  "publish_room_event event w =
     (case event of
        SeatLocked _ s _ \<Rightarrow> ls_publish (room_channel s) event w
      | SeatUnlocked _ s _ \<Rightarrow> ls_publish (room_channel s) event w
      | _ \<Rightarrow> w)"

definition publish_global_event :: "PubSubEvent \<Rightarrow> ('r, json) world \<Rightarrow> ('r, json) world" where
  "publish_global_event event w = ls_publish global_events_channel event w"

section \<open>Requests\<close>

text \<open>
  The trait object is given for each moment of the clock, in milliseconds. Up to three attempts, with 200, 400
  and 800 milliseconds slept after a failed one.
\<close>

fun metadata_retry ::
    "(int \<Rightarrow> 'w SeatLock) \<Rightarrow> int \<Rightarrow> SeatLockMessage \<Rightarrow> nat \<Rightarrow> nat \<Rightarrow> 'w \<Rightarrow> bool \<times> 'w" where
  "metadata_retry L now m retry 0 w = (False, w)"
| "metadata_retry L now m retry (Suc left) w =
     (case sl_update_metadata (L now) (sm_showtime m) (sm_seats m) (sm_user m) LOCK_TTL_SECS w of
        (True, w1) \<Rightarrow> (True, w1)
      | (False, w1) \<Rightarrow> metadata_retry L (now + 100 * 2 ^ (retry + 1)) m (retry + 1) left w1)"

definition unlock_one ::
    "('r, json) world SeatLock \<Rightarrow> schedule_id \<Rightarrow> user_id \<Rightarrow> seat_id \<Rightarrow> ('r, json) world \<Rightarrow> ('r, json) world" where
  "unlock_one L s u t w =
     (case sl_release L s t u w of (b, w1) \<Rightarrow> if b then publish_room_event (SeatUnlocked u s t) w1 else w1)"

definition process_lock_request ::
    "(int \<Rightarrow> ('r, json) world SeatLock) \<Rightarrow> int \<Rightarrow> SeatLockMessage \<Rightarrow> ('r, json) world \<Rightarrow> ('r, json) world" where
  "process_lock_request L now m w =
     (let u = sm_user m; s = sm_showtime m; ts = sm_seats m
      in if sm_action m = ''unlock'' then fold (unlock_one (L now) s u) ts w
         else (case metadata_retry L now m 0 3 w of
                 (updated, w1) \<Rightarrow>
                   publish_global_event
                     (LockSlotsResponse u s updated (if updated then ts else []) (if updated then [] else ts))
                     (if updated then fold (\<lambda>t. publish_room_event (SeatLocked u s t)) ts w1 else w1)))"

section \<open>The updater\<close>

definition leader_key :: string where
  "leader_key = ''lock_server:layout_updater_leader''"

definition acquire_updater_leader_lock :: "'r redis \<Rightarrow> string \<Rightarrow> ('r, 'p) world \<Rightarrow> bool \<times> ('r, 'p) world" where
  "acquire_updater_leader_lock R me w =
     (case pool_get w of (ok, w1) \<Rightarrow>
        if \<not> ok then (False, w1)
        else (case send 0 (SETNXPX R leader_key me 2000) w1 of (created, w2) \<Rightarrow>
                if created = Some True then (True, w2)
                else (case send 0 (reading (GET R leader_key)) w2 of (owner, w3) \<Rightarrow>
                        if Option.bind owner id \<noteq> Some me then (False, w3)
                        else (True, snd (send 0 (writing (PEXPIRE R leader_key 2000)) w3)))))"

text \<open>A failed count is zero.\<close>

definition count_rows :: "(tables \<Rightarrow> nat) \<Rightarrow> database \<Rightarrow> nat \<times> database" where
  "count_rows q d = (case query q d of (res, d1) \<Rightarrow> (case res of Some n \<Rightarrow> n | None \<Rightarrow> 0, d1))"

definition is_seat_booked_in_db :: "schedule_id \<Rightarrow> seat_id \<Rightarrow> database \<Rightarrow> bool \<times> database" where
  "is_seat_booked_in_db s t d =
     (case db_get d of (ok, d1) \<Rightarrow>
        if \<not> ok then (False, d1)
        else (case count_rows (\<lambda>T. count_if (\<lambda>r. ss_schedule_id r = s \<and> ss_id r = t \<and> ss_status r = Booked)
                      (schedule_seats T)) d1 of
                (booked, d2) \<Rightarrow>
                  if 0 < booked then (True, d2)
                  else (case count_rows (\<lambda>T. count_if (\<lambda>r. tk_schedule_id r = s \<and> tk_status r = ''active'') (tickets T)) d2 of
                          (n, d3) \<Rightarrow> (0 < n, d3))))"

record 'r lock_server =
  ls_world :: "('r, json) world"
  ls_db :: database
  ls_seats :: "schedule_id \<rightharpoonup> (seat_id \<rightharpoonup> nat)"  \<comment> \<open>the per-show maps of seat states\<close>

definition settle_entry ::
    "codec \<Rightarrow> ('r, json) world SeatLock \<Rightarrow> string \<Rightarrow> 'r lock_server \<Rightarrow> 'r lock_server" where
  "settle_entry J L encoded st =
     (case dec_entry J encoded of
        None \<Rightarrow> st\<lparr>ls_world := sl_zrem L seat_processing_queue_key encoded (ls_world st)\<rparr>
      | Some e \<Rightarrow>
          (case is_seat_booked_in_db (qe_schedule e) (qe_seat e) (ls_db st) of
             (True, d1) \<Rightarrow>
               st\<lparr>ls_db := d1,
                  ls_world := sl_force_book L (qe_schedule e) (qe_seat e) (qe_user e) encoded (ls_world st)\<rparr>
           | (False, d1) \<Rightarrow>
               st\<lparr>ls_db := d1,
                  ls_world := publish_room_event (SeatUnlocked (qe_user e) (qe_schedule e) (qe_seat e))
                    (snd (sl_release_expired L (qe_schedule e) (qe_seat e) (qe_user e) encoded (ls_world st)))\<rparr>))"

text \<open>One tick of the updater's interval, at \<open>now\<close> seconds.\<close>

definition updater_tick ::
    "'r redis \<Rightarrow> codec \<Rightarrow> ('r, json) world SeatLock \<Rightarrow> string \<Rightarrow> int \<Rightarrow> 'r lock_server \<Rightarrow> 'r lock_server" where
  "updater_tick R J L me now st =
     (case acquire_updater_leader_lock R me (ls_world st) of (leader, w1) \<Rightarrow>
        if \<not> leader then st\<lparr>ls_world := w1\<rparr>
        else (case pool_get w1 of (ok, w2) \<Rightarrow>
                if \<not> ok then st\<lparr>ls_world := w2\<rparr>
                else (case send 0 (reading (ZRANGE R seat_processing_queue_key None (Some now))) w2 of
                        (due, w3) \<Rightarrow>
                          fold (settle_entry J L) (case due of Some xs \<Rightarrow> xs | None \<Rightarrow> []) (st\<lparr>ls_world := w3\<rparr>))))"

section \<open>The consumer\<close>

definition AVAILABLE :: nat where
  "AVAILABLE = 0"

definition PROCESSING :: nat where
  "PROCESSING = 1"

definition mark_processing :: "schedule_id \<Rightarrow> seat_id list \<Rightarrow> 'r lock_server \<Rightarrow> 'r lock_server" where
  "mark_processing s ts st =
     (let seats = (case ls_seats st s of Some m \<Rightarrow> m | None \<Rightarrow> Map.empty)
      in st\<lparr>ls_seats := (ls_seats st)(s \<mapsto> fold (\<lambda>t m. m(t \<mapsto> PROCESSING)) ts seats)\<rparr>)"

definition clear_processing :: "schedule_id \<Rightarrow> seat_id list \<Rightarrow> 'r lock_server \<Rightarrow> 'r lock_server" where
  "clear_processing s ts st =
     (case ls_seats st s of
        None \<Rightarrow> st
      | Some seats \<Rightarrow>
          st\<lparr>ls_seats := (ls_seats st)(s \<mapsto> fold (\<lambda>t m. if m t = None then m else m(t \<mapsto> AVAILABLE)) ts seats)\<rparr>)"

datatype settlement = Ack | Nack bool

text \<open>
  One task of an actor. \<open>crash\<close> is a panic of the handler after an arbitrary part of its work: the delivery is
  returned to the queue and the actor restarts.
\<close>

definition run_actor_task ::
    "(int \<Rightarrow> ('r, json) world SeatLock) \<Rightarrow> int \<Rightarrow> (('r, json) world \<Rightarrow> ('r, json) world) option \<Rightarrow> SeatLockMessage \<Rightarrow>
     'r lock_server \<Rightarrow> settlement \<times> 'r lock_server" where
  "run_actor_task L now crash m st =
     (let s = sm_showtime m; ts = sm_seats m;
          st1 = mark_processing s ts st;
          st2 = st1\<lparr>ls_world := (case crash of None \<Rightarrow> process_lock_request L now m | Some f \<Rightarrow> f) (ls_world st1)\<rparr>;
          st3 = clear_processing s ts st2
      in (case crash of None \<Rightarrow> Ack | Some _ \<Rightarrow> Nack True, st3))"

text \<open>A delivery of the consumer: \<open>None\<close> is a body that is not JSON.\<close>

definition consume_lock_message ::
    "(int \<Rightarrow> ('r, json) world SeatLock) \<Rightarrow> int \<Rightarrow> (('r, json) world \<Rightarrow> ('r, json) world) option \<Rightarrow> json option \<Rightarrow>
     'r lock_server \<Rightarrow> settlement \<times> 'r lock_server" where
  "consume_lock_message L now crash body st =
     (case Option.bind body message_of_json of
        None \<Rightarrow> (Nack False, st)
      | Some m \<Rightarrow> run_actor_task L now crash m st)"

end
