(* ===== verification/Lock_Server_Props.thy ===== *)
theory Lock_Server_Props
  imports Lock_Server
begin

text \<open>
  What the lock server guarantees: at most one instance leads the updater, handling a message of the queue
  never takes a seat from another user, the updater takes a seat only on a due entry that names its holder,
  the gateway's messages are understood, and a handled message leaves none of its seats marked as being
  processed. The last section shows how the booking test of the updater errs.
\<close>

section \<open>Leadership\<close>

definition leader :: "'r redis \<Rightarrow> ('r, 'p) world \<Rightarrow> string option" where
  "leader R w = GET R leader_key (nodes w ! 0)"

context redis_service
begin

lemma send_SETNXPX_cases:
  assumes "send 0 (SETNXPX R k v t) w = (res, w')" "nodes w \<noteq> []" "0 < t"
  shows "nodes w' \<noteq> []"
    and "res = Some True \<Longrightarrow> GET R k (nodes w' ! 0) = Some v"
    and "GET R k (nodes w ! 0) = Some x \<Longrightarrow> GET R k (nodes w' ! 0) = Some x \<and> res \<noteq> Some True"
  using assms
  by (auto elim!: send_cases simp: SETNXPX_def EXISTS_def GET_def str_of_def str_entry_def split: if_splits option.splits)

lemma send_PEXPIRE_GET:
  assumes "send 0 (writing (PEXPIRE R k t)) w = (res, w')" "nodes w \<noteq> []" "0 < t"
  shows "GET R k (nodes w' ! 0) = GET R k (nodes w ! 0)"
  using assms
  by (auto elim!: send_cases simp: writing_def GET_def pexpire_entry_def str_of_def split: option.split)

text \<open>Whoever is told to lead is the leader then, and a leader is not displaced.\<close>

lemma leader_lock_result:
  assumes "acquire_updater_leader_lock R me w = (b, w')" "nodes w \<noteq> []"
  shows "b \<Longrightarrow> leader R w' = Some me"
    and "leader R w = Some x \<Longrightarrow> leader R w' = Some x \<and> (b \<longrightarrow> x = me)"
    and "nodes w' \<noteq> []"
proof -
  obtain ok w1 where w1: "pool_get w = (ok, w1)" by (cases "pool_get w")
  obtain created w2 where w2: "send 0 (SETNXPX R leader_key me 2000) w1 = (created, w2)"
    by (cases "send 0 (SETNXPX R leader_key me 2000) w1")
  obtain ow w3 where w3: "send 0 (reading (GET R leader_key)) w2 = (ow, w3)"
    by (cases "send 0 (reading (GET R leader_key)) w2")
  obtain x4 w4 where w4: "send 0 (writing (PEXPIRE R leader_key 2000)) w3 = (x4, w4)"
    by (cases "send 0 (writing (PEXPIRE R leader_key 2000)) w3")
  have n1: "nodes w1 = nodes w" "nodes w1 \<noteq> []" using pool_getD [OF w1] assms(2) by simp_all
  note s = send_SETNXPX_cases [OF w2 n1(2)]
  note g = send_reading [OF w3]
  have n3: "nodes w3 \<noteq> []" using g(1) s(1) by simp
  note p = send_PEXPIRE_GET [OF w4 n3]
  have n4: "nodes w4 \<noteq> []" using w4 n3 by (auto elim!: send_cases)
  have cases: "b = False \<and> w' = w1 \<and> \<not> ok \<or> ok \<and> created = Some True \<and> b \<and> w' = w2 \<or>
      ok \<and> created \<noteq> Some True \<and> Option.bind ow id \<noteq> Some me \<and> \<not> b \<and> w' = w3 \<or>
      ok \<and> created \<noteq> Some True \<and> Option.bind ow id = Some me \<and> b \<and> w' = w4"
    using assms(1) w1 w2 w3 w4 by (auto simp: acquire_updater_leader_lock_def split: if_splits)
  show "b \<Longrightarrow> leader R w' = Some me"
    using cases s(2) g p by (auto simp: leader_def)
  show "leader R w = Some x \<Longrightarrow> leader R w' = Some x \<and> (b \<longrightarrow> x = me)"
    using cases s(3) [of x] g p n1 by (auto simp: leader_def)
  show "nodes w' \<noteq> []" using cases n1 s(1) n3 n4 by auto
qed

end

sublocale redis_service \<subseteq> ul: exclusive "acquire_updater_leader_lock R" "leader R" "\<lambda>_. True" "\<lambda>w. nodes w \<noteq> []"
proof unfold_locales
  fix w w' :: "('r, 'p) world" and u v b
  assume n: "nodes w \<noteq> []"
  show "acquire_updater_leader_lock R u w = (b, w') \<Longrightarrow> nodes w' \<noteq> []"
    using leader_lock_result(3) [OF _ n] .
  show "acquire_updater_leader_lock R u w = (True, w') \<Longrightarrow> leader R w' = Some u"
    using leader_lock_result(1) [OF _ n] by blast
  show "leader R w = Some v \<Longrightarrow> acquire_updater_leader_lock R u w = (b, w') \<Longrightarrow> leader R w' = Some v"
    using leader_lock_result(2) [OF _ n] by blast
  show "leader R w = Some v \<Longrightarrow> v \<noteq> u \<Longrightarrow> acquire_updater_leader_lock R u w = (b, w') \<Longrightarrow> \<not> b"
    using leader_lock_result(2) [OF _ n] by blast
qed

context redis_service
begin

lemmas leader_one_winner = ul.one_winner

end

section \<open>Holders\<close>

lemma nodes_publish_events [simp]:
  "nodes (publish_room_event e w) = nodes w" "nodes (publish_global_event e w) = nodes w"
proof -
  have "nodes (ls_publish ch e w) = nodes w" for ch e and w :: "('a, json) world"
    using nodes_pool_get [of w] by (cases "pool_get w") (simp add: ls_publish_def)
  then show "nodes (publish_room_event e w) = nodes w" "nodes (publish_global_event e w) = nodes w"
    by (simp_all add: publish_room_event_def publish_global_event_def split: PubSubEvent.split)
qed

lemma nodes_fold_publish [simp]: "nodes (fold (\<lambda>t. publish_room_event (f t)) ts w) = nodes w"
  by (induction ts arbitrary: w) simp_all

lemma leader_key_distinct [key_simps]:
  "seat_lock_key s t \<noteq> leader_key" "leader_key \<noteq> seat_lock_key s t"
  "seat_user_context_key s t u \<noteq> leader_key" "leader_key \<noteq> seat_user_context_key s t u"
proof -
  have "sep_char CHR ''l''" by (simp add: sep_char_def is_digit_def)
  from dec_append_Cons_neq [OF this] show "seat_lock_key s t \<noteq> leader_key" "leader_key \<noteq> seat_lock_key s t"
    by (simp_all add: seat_lock_key_def leader_key_def)
  show "seat_user_context_key s t u \<noteq> leader_key" "leader_key \<noteq> seat_user_context_key s t u"
    by (simp_all add: seat_user_context_key_def leader_key_def)
qed

lemma sn_lock_fields [simp]:
  "sl_update_metadata (single_node_lock R J n) = update_seat_metadata_lua R J (n div 1000)"
  "sl_release (single_node_lock R J n) = release_lock R J"
  "sl_zrem (single_node_lock R J n) = zrem_cluster R"
  "sl_force_book (single_node_lock R J n) = force_book_seat_lua R"
  "sl_release_expired (single_node_lock R J n) = release_expired_lock_lua R"
  by (simp_all add: single_node_lock_def)

text \<open>\<open>keeps w w'\<close>: the seat of interest keeps its holder, and lock values stay well formed.\<close>

definition keeps :: "'r redis \<Rightarrow> schedule_id \<Rightarrow> seat_id \<Rightarrow> user_id \<Rightarrow> ('r, 'p) world \<Rightarrow> bool" where
  "keeps R s t v w \<longleftrightarrow> sn_ok R w \<and> sn_holder R s t w = Some v"

lemma keeps_nodes: "nodes w' = nodes w \<Longrightarrow> keeps R s t v w' = keeps R s t v w"
  by (simp add: keeps_def sn_ok_def sn_holder_def)

context redis_service
begin

lemma keeps_same_locks: "same_locks R (nodes w) (nodes w') \<Longrightarrow> keeps R s t v w \<Longrightarrow> keeps R s t v w'"
  using same_locksD [of R "nodes w" "nodes w'"] by (simp add: keeps_def sn_ok_def sn_holder_def)

lemma keeps_release:
  assumes "keeps R s t v w" "u \<noteq> v" "release_lock R J s' t' u w = (b, w')"
  shows "keeps R s t v w'"
proof -
  have ok: "sn_ok R w" "sn_holder R s t w = Some v" using assms(1) by (simp_all add: keeps_def)
  note r = release_lock_holder [OF ok(1) assms(3)]
  show ?thesis
    using r(1) [of v] r(3) [of s t] ok assms(2) release_lock_ok [OF ok(1) assms(3)]
    by (cases "(s, t) = (s', t')") (auto simp: keeps_def)
qed

lemma keeps_cell:
  assumes "keeps R s t v w" "(s', t', u) \<noteq> (s, t, v)" "nodes w' \<noteq> []"
    and "lock_cell R s' t' (nodes w') = lock_cell R s' t' (nodes w) \<or>
      lock_cell R s' t' (nodes w') = None \<and> str_of (lock_cell R s' t' (nodes w)) \<in> {None, Some (dec u)}"
    and "\<And>s'' t''. (s'', t'') \<noteq> (s', t') \<Longrightarrow> lock_cell R s'' t'' (nodes w') = lock_cell R s'' t'' (nodes w)"
  shows "keeps R s t v w'"
proof -
  have ok: "nodes w \<noteq> []" "\<And>s t. lock_value_ok (lock_cell R s t (nodes w))" "sn_holder R s t w = Some v"
    using assms(1) by (simp_all add: keeps_def sn_ok_def)
  have none_ok: "lock_value_ok None" by (simp add: lock_value_ok_def)
  have "lock_value_ok (lock_cell R s'' t'' (nodes w'))" for s'' t''
    using ok(2) [of s'' t''] assms(4) assms(5) [of s'' t''] none_ok by (cases "(s'', t'') = (s', t')") auto
  moreover have "lock_cell R s t (nodes w') = lock_cell R s t (nodes w)"
    using assms(2,4) assms(5) [of s t] ok lock_value_ok_owner [OF ok(2), of s t u]
    by (cases "(s, t) = (s', t')") (auto simp: sn_holder_def lock_value_ok_def cell_owner_def parse_owner_def)
  ultimately show ?thesis using ok assms(3) by (simp add: keeps_def sn_ok_def sn_holder_def)
qed

lemma keeps_expired:
  assumes "keeps R s t v w" "(s', t', u) \<noteq> (s, t, v)" "release_expired_lock_lua R s' t' u m w = (b, w')"
  shows "keeps R s t v w'"
proof -
  have n: "nodes w \<noteq> []" using assms(1) by (simp add: keeps_def sn_ok_def)
  note r = release_expired_cell [OF n assms(3)]
  show ?thesis by (rule keeps_cell [OF assms(1,2) r(5)]) (use r(1,3) in auto)
qed

lemma keeps_force_book:
  assumes "keeps R s t v w" "(s', t', u) \<noteq> (s, t, v)"
  shows "keeps R s t v (force_book_seat_lua R s' t' u m w)"
proof -
  have n: "nodes w \<noteq> []" using assms(1) by (simp add: keeps_def sn_ok_def)
  note r = force_book_cell [where s = s' and t = t' and u = u and m = m, OF n refl]
  show ?thesis by (rule keeps_cell [OF assms r(4)]) (use r(1,2) in auto)
qed

lemma metadata_retry_same_locks:
  "metadata_retry (single_node_lock R J) now m retry left w = (b, w') \<Longrightarrow> same_locks R (nodes w) (nodes w')"
proof (induction "left" arbitrary: now retry w)
  case (Suc left)
  obtain c w1 where c: "update_seat_metadata_lua R J (now div 1000) (sm_showtime m) (sm_seats m) (sm_user m)
      LOCK_TTL_SECS w = (c, w1)"
    by (cases "update_seat_metadata_lua R J (now div 1000) (sm_showtime m) (sm_seats m) (sm_user m) LOCK_TTL_SECS w")
  note s = update_seat_metadata_same_locks [OF c]
  show ?case
  proof (cases c)
    case True
    with Suc.prems c s show ?thesis by simp
  next
    case False
    with Suc.prems c have "metadata_retry (single_node_lock R J) (now + 100 * 2 ^ (retry + 1)) m (retry + 1) left w1 = (b, w')"
      by simp
    from same_locks_trans [OF s Suc.IH [OF this]] show ?thesis .
  qed
qed simp

lemma process_lock_request_keeps:
  assumes "keeps R s t v w" "sm_action m = ''unlock'' \<longrightarrow> sm_user m \<noteq> v"
  shows "keeps R s t v (process_lock_request (single_node_lock R J) now m w)"
proof (cases "sm_action m = ''unlock''")
  case True
  have "keeps R s t v (fold (unlock_one (single_node_lock R J now) (sm_showtime m) (sm_user m)) ts w)"
    if "keeps R s t v w" for ts w
    using that
  proof (induction ts arbitrary: w)
    case (Cons x ts)
    obtain b w1 where r: "release_lock R J (sm_showtime m) x (sm_user m) w = (b, w1)"
      by (cases "release_lock R J (sm_showtime m) x (sm_user m) w")
    have "keeps R s t v w1" using keeps_release [OF Cons.prems _ r] assms(2) True by simp
    then have "keeps R s t v (unlock_one (single_node_lock R J now) (sm_showtime m) (sm_user m) x w)"
      by (simp add: unlock_one_def r keeps_nodes [of "publish_room_event _ _"])
    from Cons.IH [OF this] show ?case by simp
  qed simp
  with True assms(1) show ?thesis by (simp add: process_lock_request_def Let_def)
next
  case False
  obtain b w1 where r: "metadata_retry (single_node_lock R J) now m 0 3 w = (b, w1)"
    by (cases "metadata_retry (single_node_lock R J) now m 0 3 w")
  from keeps_same_locks [OF metadata_retry_same_locks [OF r] assms(1)] False r show ?thesis
    by (simp add: process_lock_request_def Let_def keeps_nodes [of "publish_global_event _ _"]
        keeps_nodes [of "fold _ _ _"])
qed

lemma settle_entry_keeps:
  assumes "keeps R s t v (ls_world st)" "dec_entry J x \<noteq> Some (mk_entry t s v)"
  shows "keeps R s t v (ls_world (settle_entry J (single_node_lock R J' n) x st))"
proof (cases "dec_entry J x")
  case None
  have "lock_safe R (ZREM R seat_processing_queue_key x)" by (simp add: lock_safe_def key_simps)
  from keeps_same_locks [OF on_all_same_locks [OF this] assms(1)] None show ?thesis
    by (simp add: settle_entry_def zrem_cluster_def)
next
  case (Some e)
  have ne: "(qe_schedule e, qe_seat e, qe_user e) \<noteq> (s, t, v)" using assms(2) Some by (auto simp: mk_entry_def)
  obtain b d1 where b: "is_seat_booked_in_db (qe_schedule e) (qe_seat e) (ls_db st) = (b, d1)"
    by (cases "is_seat_booked_in_db (qe_schedule e) (qe_seat e) (ls_db st)")
  obtain c w1 where r: "release_expired_lock_lua R (qe_schedule e) (qe_seat e) (qe_user e) x (ls_world st) = (c, w1)"
    by (cases "release_expired_lock_lua R (qe_schedule e) (qe_seat e) (qe_user e) x (ls_world st)")
  from keeps_expired [OF assms(1) ne r] keeps_force_book [OF assms(1) ne, of x] show ?thesis
    by (cases b) (simp_all add: settle_entry_def Some b r keeps_nodes [of "publish_room_event _ _"])
qed

lemma settle_entries_keep:
  assumes "keeps R s t v (ls_world st)" "\<forall>x \<in> set xs. dec_entry J x \<noteq> Some (mk_entry t s v)"
  shows "keeps R s t v (ls_world (fold (settle_entry J (single_node_lock R J' n)) xs st))"
  using assms by (induction xs arbitrary: st) (simp_all add: settle_entry_keeps)

text \<open>Asking for the leadership touches no key but its own.\<close>

lemma send_frame:
  assumes "send 0 c w = (res, w')" "\<And>r. look R (snd (c r)) k = look R r k"
  shows "length (nodes w') = length (nodes w) \<and> look R (nodes w' ! i) k = look R (nodes w ! i) k"
  by (rule send_pres [OF assms(1)], simp) (cases "nodes w = []"; auto simp: nth_list_update assms(2))

lemma leader_lock_frame:
  assumes "acquire_updater_leader_lock R me w = (b, w')" "k \<noteq> leader_key"
  shows "length (nodes w') = length (nodes w) \<and> look R (nodes w' ! i) k = look R (nodes w ! i) k"
proof -
  obtain ok w1 where w1: "pool_get w = (ok, w1)" by (cases "pool_get w")
  obtain created w2 where w2: "send 0 (SETNXPX R leader_key me 2000) w1 = (created, w2)"
    by (cases "send 0 (SETNXPX R leader_key me 2000) w1")
  obtain ow w3 where w3: "send 0 (reading (GET R leader_key)) w2 = (ow, w3)"
    by (cases "send 0 (reading (GET R leader_key)) w2")
  obtain x4 w4 where w4: "send 0 (writing (PEXPIRE R leader_key 2000)) w3 = (x4, w4)"
    by (cases "send 0 (writing (PEXPIRE R leader_key 2000)) w3")
  have s2: "length (nodes w2) = length (nodes w1) \<and> look R (nodes w2 ! i) k = look R (nodes w1 ! i) k"
    by (rule send_frame [OF w2]) (simp add: SETNXPX_def assms(2))
  have s4: "length (nodes w4) = length (nodes w3) \<and> look R (nodes w4 ! i) k = look R (nodes w3 ! i) k"
    by (rule send_frame [OF w4]) (simp add: writing_def assms(2))
  have "nodes w1 = nodes w" "nodes w3 = nodes w2" using pool_getD [OF w1] send_reading(1) [OF w3] .
  with s2 s4 assms(1) w1 w2 w3 w4 show ?thesis
    by (auto simp: acquire_updater_leader_lock_def split: if_splits)
qed

lemma leader_lock_same_locks:
  assumes "acquire_updater_leader_lock R me w = (b, w')"
  shows "same_locks R (nodes w) (nodes w')"
  unfolding same_locks_def
  by (intro conjI allI impI leader_lock_frame [OF assms leader_key_distinct(1), THEN conjunct1]
      leader_lock_frame [OF assms leader_key_distinct(1), THEN conjunct2]
      leader_lock_frame [OF assms leader_key_distinct(3), THEN conjunct2])

lemma updater_tick_keeps:
  assumes "keeps R s t v (ls_world st)"
    and "\<forall>x \<in> set (ZRANGE R seat_processing_queue_key None (Some now) (nodes (ls_world st) ! 0)).
      dec_entry J x \<noteq> Some (mk_entry t s v)"
  shows "keeps R s t v (ls_world (updater_tick R J (single_node_lock R J' n) me now st))"
proof -
  let ?q = "ZRANGE R seat_processing_queue_key None (Some now)"
  obtain b w1 where w1: "acquire_updater_leader_lock R me (ls_world st) = (b, w1)"
    by (cases "acquire_updater_leader_lock R me (ls_world st)")
  obtain ok w2 where w2: "pool_get w1 = (ok, w2)" by (cases "pool_get w1")
  obtain due w3 where w3: "send 0 (reading ?q) w2 = (due, w3)" by (cases "send 0 (reading ?q) w2")
  note k1 = keeps_same_locks [OF leader_lock_same_locks [OF w1] assms(1)]
  have n: "nodes w2 = nodes w1" "nodes w3 = nodes w1" using pool_getD [OF w2] send_reading(1) [OF w3] by simp_all
  have "seat_processing_queue_key \<noteq> leader_key" by (simp add: seat_processing_queue_key_def leader_key_def)
  from leader_lock_frame [OF w1 this, of 0]
  have "set (?q (nodes w1 ! 0)) = set (?q (nodes (ls_world st) ! 0))" by (simp add: set_ZRANGE)
  then have due: "\<forall>x \<in> set (case due of Some xs \<Rightarrow> xs | None \<Rightarrow> []). dec_entry J x \<noteq> Some (mk_entry t s v)"
    using assms(2) send_reading(2) [OF w3] n(1) by auto
  have k: "keeps R s t v w2" "keeps R s t v (ls_world (st\<lparr>ls_world := w3\<rparr>))"
    using k1 keeps_nodes [OF n(1)] keeps_nodes [OF n(2)] by simp_all
  note fin = settle_entries_keep [OF k(2) due, of J' n]
  show ?thesis
    unfolding updater_tick_def w1 w2 w3 prod.case
    by (cases b; cases ok) (use k1 k fin in simp_all)
qed

end

section \<open>Seat states of the consumer\<close>

definition seat_state :: "'r lock_server \<Rightarrow> schedule_id \<Rightarrow> seat_id \<Rightarrow> nat option" where
  "seat_state st s t = Option.bind (ls_seats st s) (\<lambda>m. m t)"

lemma fold_mark: "fold (\<lambda>t m. m(t \<mapsto> v)) ts m x = (if x \<in> set ts then Some v else m x)"
  by (induction ts arbitrary: m) auto

lemma fold_clear:
  "fold (\<lambda>t m. if m t = None then m else m(t \<mapsto> v)) ts m x =
     (if x \<in> set ts \<and> m x \<noteq> None then Some v else m x)"
  by (induction ts arbitrary: m) auto

lemma task_seat_state:
  assumes "run_actor_task L now crash m st = (a, st')"
  shows "seat_state st' s t =
    (if s = sm_showtime m \<and> t \<in> set (sm_seats m) then Some AVAILABLE else seat_state st s t)"
  using assms
  by (auto simp: run_actor_task_def Let_def mark_processing_def clear_processing_def seat_state_def fold_mark fold_clear
      split: option.splits)

section \<open>Properties\<close>

text \<open>A lock server for the concrete instances: seat 1 of schedule 5 is locked by user 7.\<close>

definition demo_server :: "keyspace lock_server" where
  "demo_server =
     \<lparr>ls_world = snd (acquire_distributed_lock mem_redis 5 1 7 300 (fresh_world 1)),
      ls_db = \<lparr>rows = \<lparr>users = [], schedules = [], schedule_seats = [], orders = [], tickets = [], user_audits = [],
        payment_requests = [], outbox_events = []\<rparr>, db_faults = []\<rparr>, ls_seats = Map.empty\<rparr>"

definition demo_unlock :: SeatLockMessage where
  "demo_unlock = \<lparr>sm_action = ''unlock'', sm_user = 8, sm_showtime = 5, sm_seats = [1], sm_timestamp = 0\<rparr>"

lemma demo_server_ok:
  "sn_ok mem_redis (ls_world demo_server)" "sn_holder mem_redis 5 1 (ls_world demo_server) = Some 7"
proof -
  obtain b where b: "acquire_distributed_lock mem_redis 5 1 7 300 (fresh_world 1) = (b, ls_world demo_server)"
    by (cases "acquire_distributed_lock mem_redis 5 1 7 300 (fresh_world 1)") (simp add: demo_server_def)
  show "sn_ok mem_redis (ls_world demo_server)"
    by (rule mem.service_step_ok [OF Acquired [OF _ b]]) (simp_all add: in_i32_def)
  show "sn_holder mem_redis 5 1 (ls_world demo_server) = Some 7"
    by (simp add: demo_server_def acquire_eval sn_holder_def lock_cell_def in_i32_def)
qed

text \<open>
  (one leader). Once an instance has been told that it leads the updater, no other instance is told so, in
  any number of attempts by any instances and under any faults, until time passes.
\<close>

theorem one_updater_leader:
  assumes "redis_service R" "nodes w \<noteq> []"
    and "herd (acquire_updater_leader_lock R) instances w = (bs, w')"
    and "i < j" "j < length instances" "bs ! i" "bs ! j"
  shows "instances ! i = instances ! j"
  using redis_service.leader_one_winner [OF assms(1,2) _ assms(3-7)] by simp

theorem one_updater_leader_witness:
  "fst (herd (acquire_updater_leader_lock mem_redis) [''a'', ''b'', ''a''] (fresh_world 1)) = [True, False, True] \<and>
     [''a'', ''b'', ''a''] ! 0 = [''a'', ''b'', ''a''] ! 2"
proof -
  let ?h = "herd (acquire_updater_leader_lock mem_redis) [''a'', ''b'', ''a''] (fresh_world 1)"
  have f: "fst ?h = [True, False, True]"
    by (simp add: acquire_updater_leader_lock_def acquire_eval str_of_def str_entry_def Let_def pexpire_entry_def)
  then obtain w' where h: "?h = ([True, False, True], w')" by (cases ?h) auto
  show ?thesis
    using f one_updater_leader [OF mem.redis_service_axioms _ h, of 0 2] by simp
qed

text \<open>
  (handling a message respects holders). Whatever message of the locking queue is handled, with any outcome of
  its exchanges, a seat keeps its holder, except that an unlock message may take seats from the user it names.
\<close>

theorem lock_message_respects_holders:
  assumes "redis_service R" "sn_ok R (ls_world st)" "sn_holder R s t (ls_world st) = Some v"
    and "message_of_json body = Some m" "sm_action m = ''unlock'' \<longrightarrow> sm_user m \<noteq> v"
    and "consume_lock_message (single_node_lock R J) now None (Some body) st = (a, st')"
  shows "a = Ack \<and> sn_ok R (ls_world st') \<and> sn_holder R s t (ls_world st') = Some v"
proof -
  have "keeps R s t v (process_lock_request (single_node_lock R J) now m (ls_world st))"
    by (rule redis_service.process_lock_request_keeps [OF assms(1)]) (use assms(2,3,5) in \<open>simp_all add: keeps_def\<close>)
  then show ?thesis
    using assms(4,6)
    by (auto simp: consume_lock_message_def run_actor_task_def Let_def mark_processing_def clear_processing_def
        keeps_def split: option.splits)
qed

theorem lock_message_respects_holders_witness:
  "sn_holder mem_redis 5 1 (ls_world (snd (consume_lock_message (single_node_lock mem_redis json_codec) 0 None
     (Some (message_json demo_unlock)) demo_server))) = Some 7"
proof -
  obtain a st' where r: "consume_lock_message (single_node_lock mem_redis json_codec) 0 None
     (Some (message_json demo_unlock)) demo_server = (a, st')"
    by (cases "consume_lock_message (single_node_lock mem_redis json_codec) 0 None
     (Some (message_json demo_unlock)) demo_server")
  have m: "message_of_json (message_json demo_unlock) = Some demo_unlock"
    by (simp add: message_json_def mk_message_def de_ids_def demo_unlock_def in_i32_def in_i64_def)
  from lock_message_respects_holders [OF mem.redis_service_axioms demo_server_ok m _ r] r show ?thesis
    by (simp add: demo_unlock_def)
qed

text \<open>
  (the updater needs a due entry). One tick of the updater, leader or not and under any faults, takes a seat
  from its holder only if a due entry of the queue names exactly that schedule, seat and user.
\<close>

theorem updater_needs_due_entry:
  assumes "redis_service R" "sn_ok R (ls_world st)" "sn_holder R s t (ls_world st) = Some v"
    and "\<forall>x \<in> set (ZRANGE R seat_processing_queue_key None (Some now) (nodes (ls_world st) ! 0)).
      dec_entry J x \<noteq> Some (mk_entry t s v)"
  shows "sn_holder R s t (ls_world (updater_tick R J (single_node_lock R J n) me now st)) = Some v"
  using redis_service.updater_tick_keeps [OF assms(1) _ assms(4), of J n me] assms(2,3) by (simp add: keeps_def)

theorem updater_needs_due_entry_witness:
  "sn_holder mem_redis 5 1 (ls_world (updater_tick mem_redis json_codec (single_node_lock mem_redis json_codec 0) ''a''
     1000 demo_server)) = Some 7"
proof (rule updater_needs_due_entry [OF mem.redis_service_axioms demo_server_ok])
  have "zset_of ((nodes (ls_world demo_server) ! 0) seat_processing_queue_key) = []"
    by (simp add: demo_server_def acquire_eval zset_of_def in_i32_def key_simps)
  then show "\<forall>x \<in> set (ZRANGE mem_redis seat_processing_queue_key None (Some 1000) (nodes (ls_world demo_server) ! 0)).
      dec_entry json_codec x \<noteq> Some (mk_entry 1 5 7)"
    by (simp add: mem_redis_simps)
qed

text \<open>
  C32 (the gateway's messages are understood). What the gateway puts into the locking queue decodes to the same
  message, and a body without \<open>action\<close> is a lock request.
\<close>

theorem lock_message_roundtrip:
  assumes "in_i32 (sm_user m)" "in_i32 (sm_showtime m)" "list_all in_i32 (sm_seats m)" "in_i64 (sm_timestamp m)"
  shows "message_of_json (message_json m) = Some m \<and>
    message_of_json (JObj (tl (case message_json m of JObj fs \<Rightarrow> fs))) = Some (m\<lparr>sm_action := ''lock''\<rparr>)"
  using assms by (simp add: message_json_def mk_message_def de_ids_def default_action_def)

theorem lock_message_roundtrip_witness:
  "message_of_json (message_json demo_unlock) = Some demo_unlock"
  using lock_message_roundtrip [of demo_unlock] by (simp add: demo_unlock_def in_i32_def in_i64_def)

text \<open>
  C37 (every delivery is settled and its seats freed). A body that is no message is rejected for good without
  any effect; any other is acknowledged when its handler returns and requeued when it panics, and either way
  none of its seats stays marked as being processed while the marks of all other seats are as before.
\<close>

theorem lock_delivery_settled:
  assumes "consume_lock_message L now crash body st = (a, st')"
  shows "case Option.bind body message_of_json of
      None \<Rightarrow> a = Nack False \<and> st' = st
    | Some m \<Rightarrow> a = (if crash = None then Ack else Nack True) \<and>
        (\<forall>s t. seat_state st' s t =
          (if s = sm_showtime m \<and> t \<in> set (sm_seats m) then Some AVAILABLE else seat_state st s t))"
proof (cases "Option.bind body message_of_json")
  case (Some m)
  with assms have r: "run_actor_task L now crash m st = (a, st')" by (simp add: consume_lock_message_def)
  then have "a = (if crash = None then Ack else Nack True)"
    by (auto simp: run_actor_task_def Let_def split: option.splits)
  with Some task_seat_state [OF r] show ?thesis by simp
qed (use assms in \<open>simp add: consume_lock_message_def\<close>)

theorem lock_delivery_settled_witness:
  "case consume_lock_message (single_node_lock mem_redis json_codec) 0 (Some id) (Some (message_json demo_unlock)) demo_server of
     (a, st') \<Rightarrow> a = Nack True \<and> seat_state st' 5 1 = Some AVAILABLE"
proof -
  obtain a st' where r: "consume_lock_message (single_node_lock mem_redis json_codec) 0 (Some id)
     (Some (message_json demo_unlock)) demo_server = (a, st')"
    by (cases "consume_lock_message (single_node_lock mem_redis json_codec) 0 (Some id)
     (Some (message_json demo_unlock)) demo_server")
  have m: "message_of_json (message_json demo_unlock) = Some demo_unlock"
    by (simp add: message_json_def mk_message_def de_ids_def demo_unlock_def in_i32_def in_i64_def)
  from lock_delivery_settled [OF r] m r show ?thesis by (simp add: demo_unlock_def)
qed

text \<open>
  (one active ticket books the whole show). When the database answers, the updater's test calls a seat booked
  as soon as any active ticket of its schedule exists, even if the seat itself is available; the expired lock
  is then turned into a booking.
\<close>

theorem any_ticket_books_the_show:
  assumes "db_faults d = []" "r \<in> set (tickets (rows d))" "tk_schedule_id r = s" "tk_status r = ''active''"
  shows "is_seat_booked_in_db s t d = (True, d)"
proof -
  have "0 < count_if (\<lambda>r. tk_schedule_id r = s \<and> tk_status r = ''active'') (tickets (rows d))"
    using assms(2-4) by (auto simp: count_if_def filter_empty_conv)
  with assms(1) show ?thesis by (simp add: is_seat_booked_in_db_def count_rows_def)
qed

definition demo_ticket :: Ticket where
  "demo_ticket =
     \<lparr>tk_id = 1, tk_order_id = 1, tk_user_id = 7, tk_schedule_id = 5, tk_seat_ids = JArr [JInt 2], tk_pdf_url = [],
      tk_status = ''active'', tk_created_at = 0, tk_updated_at = 0\<rparr>"

theorem any_ticket_books_the_show_witness:
  "fst (is_seat_booked_in_db 5 1 ((ls_db demo_server)\<lparr>rows := (rows (ls_db demo_server))\<lparr>tickets := [demo_ticket]\<rparr>\<rparr>))"
  using any_ticket_books_the_show
    [of "(ls_db demo_server)\<lparr>rows := (rows (ls_db demo_server))\<lparr>tickets := [demo_ticket]\<rparr>\<rparr>" demo_ticket 5 1]
  by (simp add: demo_server_def demo_ticket_def)

end
