(* ===== verification/Payment_Processor.thy ===== *)
theory Payment_Processor
  imports Lock_Backend Single_Node_Props Booking_DB
begin

text \<open>
  The worker that turns payment messages into bookings (\<open>apps/payment-processor/src\<close>): the two
  transactions of \<open>repository.rs\<close>, the refund call of \<open>payment.rs\<close> and the consumer of \<open>consumer.rs\<close> with
  its checkout and cancellation branches. The worker talks to the seat locks through the trait object, to
  the shared cache through its own pool (the first server of the world), to the database and to the
  payment provider. Every early return and every swallowed error is a branch of the definitions.
\<close>

section \<open>State of the worker\<close>

datatype disposition = Acked | Nacked bool  \<comment> \<open>\<open>Nacked requeue\<close>\<close>

record 'r worker =
  cache :: "('r, json) world"
  store :: database
  refunds :: "(string \<times> int) list"  \<comment> \<open>refund requests sent to the provider, latest first\<close>

definition seats_json :: "seat_id list \<Rightarrow> json" where
  "seats_json ts = JArr (map JInt ts)"

section \<open>Helpers of the consumer\<close>

definition adjust_script :: "'r redis \<Rightarrow> string \<Rightarrow> int \<Rightarrow> 'r \<Rightarrow> unit \<times> 'r" where
  "adjust_script R k delta r = ((), if EXISTS R k r then INCRBY R k delta r else r)"

definition adjust_cached_available_seats ::
    "'r redis \<Rightarrow> schedule_id \<Rightarrow> int \<Rightarrow> ('r, 'p) world \<Rightarrow> ('r, 'p) world" where
  "adjust_cached_available_seats R s delta w =
     (case pool_get w of (ok, w1) \<Rightarrow>
        if ok then snd (send 0 (adjust_script R (cache_schedule_available_seats_key s) delta) w1) else w1)"

definition parse_seat_ids :: "json \<Rightarrow> seat_id list" where
  "parse_seat_ids payload =
     (case as_array (jget payload ''seat_ids'') of
        Some arr \<Rightarrow> map as_i32 (List.map_filter as_i64 arr)
      | None \<Rightarrow> (case as_i64 (jget payload ''seat_id'') of Some i \<Rightarrow> [as_i32 i] | None \<Rightarrow> []))"

definition i32_field :: "json \<Rightarrow> string \<Rightarrow> int" where
  "i32_field payload k = as_i32 (case as_i64 (jget payload k) of Some n \<Rightarrow> n | None \<Rightarrow> 0)"

definition str_field :: "json \<Rightarrow> string \<Rightarrow> string \<Rightarrow> string" where
  "str_field payload k dflt = (case as_str (jget payload k) of Some v \<Rightarrow> v | None \<Rightarrow> dflt)"

definition publish_room_json :: "schedule_id \<Rightarrow> json \<Rightarrow> ('r, json) world \<Rightarrow> ('r, json) world" where
  "publish_room_json s msg w =
     (case pool_get w of (ok, w1) \<Rightarrow> if ok then publish_node 0 (''room:'' @ dec s) msg w1 else w1)"

definition clear_checkout_keys ::
    "'r redis \<Rightarrow> schedule_id \<Rightarrow> seat_id list \<Rightarrow> ('r, 'p) world \<Rightarrow> ('r, 'p) world" where
  "clear_checkout_keys R s ts w =
     (case pool_get w of (ok, w1) \<Rightarrow>
        if ok then fold (\<lambda>t v. snd (send 0 (writing (DEL R (seat_checkout_key s t))) v)) ts w1 else w1)"

section \<open>Refunds\<close>

text \<open>\<open>api\<close> answers for the provider: whether a refund request comes back with a success status.\<close>

definition process_razorpay_refund ::
    "env \<Rightarrow> (string \<Rightarrow> int \<Rightarrow> bool) \<Rightarrow> string \<Rightarrow> int \<Rightarrow> bool \<times> (string \<times> int) list" where
  "process_razorpay_refund env api payment_id amount_paise =
     (let key_id = (case env ''RAZORPAY_KEY_ID'' of Some k \<Rightarrow> k | None \<Rightarrow> [])
      in if env ''APP_MODE'' = Some ''test'' \<or> key_id = [] then (True, [])
         else case env ''RAZORPAY_KEY_SECRET'' of
                None \<Rightarrow> (False, [])
              | Some _ \<Rightarrow> (api payment_id amount_paise, [(payment_id, amount_paise)]))"

section \<open>Transactions\<close>

record CheckoutCommit =
  cc_order_id :: Uuid
  cc_payment_request_id :: Uuid
  cc_user_id :: user_id
  cc_schedule_id :: schedule_id
  cc_seat_ids :: "seat_id list"
  cc_total_amount :: string
  cc_razorpay_order_id :: string
  cc_razorpay_payment_id :: "string option"

record CancellationCommit =
  xc_order_id :: Uuid
  xc_user_id :: user_id
  xc_schedule_id :: schedule_id
  xc_seat_ids :: "seat_id list"
  xc_amount :: string

definition order_exists :: "Uuid \<Rightarrow> database \<Rightarrow> bool \<times> database" where
  "order_exists p d =
     (case db_get d of (ok, d1) \<Rightarrow>
        if \<not> ok then (False, d1)
        else case query (\<lambda>T. \<exists>r \<in> set (orders T). od_payment_request_id r = p) d1 of
               (res, d2) \<Rightarrow> (res = Some True, d2))"

definition set_seats :: "SeatStatus \<Rightarrow> seat_id list \<Rightarrow> tables \<Rightarrow> tables" where
  "set_seats st ts T =
     T\<lparr>schedule_seats := update_rows (\<lambda>r. ss_id r \<in> set ts) (\<lambda>r. r\<lparr>ss_status := st\<rparr>) (schedule_seats T)\<rparr>"

text \<open>\<open>parsed_amount\<close> is \<open>BigDecimal::from_str(..).unwrap_or_default()\<close>.\<close>

definition parsed_amount :: "crates \<Rightarrow> string \<Rightarrow> BigDecimal" where
  "parsed_amount E a = (case parse_decimal E a of Some b \<Rightarrow> b | None \<Rightarrow> (0, 0))"

definition new_audit ::
    "timestamp \<Rightarrow> Uuid \<Rightarrow> user_id \<Rightarrow> string \<Rightarrow> Uuid \<Rightarrow> BigDecimal \<Rightarrow> seat_id list \<Rightarrow> UserAudit" where
  "new_audit now i u action oid amount ts =
     \<lparr>ua_id = i, ua_user_id = u, ua_action = action, ua_order_id = oid, ua_amount = amount,
      ua_details = JObj [(''seat_ids'', seats_json ts)], ua_created_at = now\<rparr>"

definition order_event ::
    "crates \<Rightarrow> timestamp \<Rightarrow> Uuid \<Rightarrow> string \<Rightarrow> Uuid \<Rightarrow> user_id \<Rightarrow> schedule_id \<Rightarrow> seat_id list \<Rightarrow> string \<Rightarrow>
     OutboxEvent" where
  "order_event E now i event_type oid u s ts amount =
     \<lparr>oe_id = i, oe_aggregate_type = ''Order'', oe_aggregate_id = oid, oe_event_type = event_type,
      oe_payload = JObj [(''_trace_context'', current_carrier E), (''order_id'', JStr (show_uuid E oid)),
         (''user_id'', JInt u), (''schedule_id'', JInt s), (''seat_ids'', seats_json ts),
         (''amount'', JStr amount)],
      oe_created_at = now, oe_published_at = None, oe_attempts = 0, oe_processing_at = None,
      oe_next_attempt_at = now, oe_last_error = None, oe_dead_lettered_at = None\<rparr>"

definition new_order :: "crates \<Rightarrow> timestamp \<Rightarrow> CheckoutCommit \<Rightarrow> Order" where
  "new_order E now c =
     \<lparr>od_id = cc_order_id c, od_payment_request_id = cc_payment_request_id c, od_user_id = cc_user_id c,
      od_schedule_id = cc_schedule_id c, od_seat_ids = seats_json (cc_seat_ids c),
      od_total_amount = parsed_amount E (cc_total_amount c),
      od_razorpay_order_id = cc_razorpay_order_id c, od_razorpay_payment_id = cc_razorpay_payment_id c,
      od_status = ''completed'', od_created_at = now, od_updated_at = now\<rparr>"

text \<open>
  The two identifiers drawn inside a transaction (for the audit and for the outbox event) are arguments,
  like the clock.
\<close>

definition checkout_stmts ::
    "crates \<Rightarrow> timestamp \<Rightarrow> Uuid \<times> Uuid \<Rightarrow> CheckoutCommit \<Rightarrow> (tables \<Rightarrow> tables) list" where
  "checkout_stmts E now ids c =
     [set_seats Booked (cc_seat_ids c),
      (\<lambda>T. T\<lparr>orders := orders T @ [new_order E now c]\<rparr>),
      (\<lambda>T. T\<lparr>payment_requests := update_rows (\<lambda>r. pr_id r = cc_payment_request_id c)
         (\<lambda>r. r\<lparr>pr_status := ''succeeded'', pr_failure_reason := None, pr_updated_at := now\<rparr>)
         (payment_requests T)\<rparr>),
      (\<lambda>T. T\<lparr>user_audits := user_audits T @
         [new_audit now (fst ids) (cc_user_id c) ''order_completed'' (cc_order_id c)
            (parsed_amount E (cc_total_amount c)) (cc_seat_ids c)]\<rparr>),
      (\<lambda>T. T\<lparr>outbox_events := outbox_events T @
         [order_event E now (snd ids) ''OrderCompleted'' (cc_order_id c) (cc_user_id c) (cc_schedule_id c)
            (cc_seat_ids c) (cc_total_amount c)]\<rparr>)]"

definition commit_checkout ::
    "crates \<Rightarrow> timestamp \<Rightarrow> Uuid \<times> Uuid \<Rightarrow> CheckoutCommit \<Rightarrow> database \<Rightarrow> (db_error + unit) \<times> database" where
  "commit_checkout E now ids c = with_conn (transaction (checkout_stmts E now ids c))"

definition cancellation_stmts ::
    "crates \<Rightarrow> timestamp \<Rightarrow> Uuid \<times> Uuid \<Rightarrow> CancellationCommit \<Rightarrow> (tables \<Rightarrow> tables) list" where
  "cancellation_stmts E now ids c =
     [set_seats Available (xc_seat_ids c),
      (\<lambda>T. T\<lparr>orders := update_rows (\<lambda>r. od_id r = xc_order_id c) (\<lambda>r. r\<lparr>od_status := ''refunded''\<rparr>) (orders T)\<rparr>),
      (\<lambda>T. T\<lparr>tickets :=
         update_rows (\<lambda>r. tk_order_id r = xc_order_id c) (\<lambda>r. r\<lparr>tk_status := ''cancelled''\<rparr>) (tickets T)\<rparr>),
      (\<lambda>T. T\<lparr>user_audits := user_audits T @
         [new_audit now (fst ids) (xc_user_id c) ''ticket_cancelled'' (xc_order_id c)
            (parsed_amount E (xc_amount c)) (xc_seat_ids c)]\<rparr>),
      (\<lambda>T. T\<lparr>outbox_events := outbox_events T @
         [order_event E now (snd ids) ''TicketCancelled'' (xc_order_id c) (xc_user_id c) (xc_schedule_id c)
            (xc_seat_ids c) (xc_amount c)]\<rparr>)]"

definition commit_cancellation ::
    "crates \<Rightarrow> timestamp \<Rightarrow> Uuid \<times> Uuid \<Rightarrow> CancellationCommit \<Rightarrow> database \<Rightarrow> (db_error + unit) \<times> database" where
  "commit_cancellation E now ids c = with_conn (transaction (cancellation_stmts E now ids c))"

section \<open>Cancellation\<close>

definition process_cancellation ::
    "crates \<Rightarrow> env \<Rightarrow> (string \<Rightarrow> int \<Rightarrow> bool) \<Rightarrow> 'r redis \<Rightarrow> timestamp \<Rightarrow> Uuid \<times> Uuid \<Rightarrow> json \<Rightarrow> 'r worker \<Rightarrow>
     disposition \<times> 'r worker" where
  "process_cancellation E env api R now ids payload st =
     (let u = i32_field payload ''user_id''; s = i32_field payload ''schedule_id'';
          ts = parse_seat_ids payload; amount = str_field payload ''amount'' ''0''
      in case parse_uuid E (str_field payload ''order_id'' []) of
           None \<Rightarrow> (Nacked False, st)
         | Some oid \<Rightarrow>
             let (refunded, calls) =
                   (case as_str (jget payload ''razorpay_payment_id'') of
                      None \<Rightarrow> (True, [])
                    | Some pid \<Rightarrow> process_razorpay_refund env api pid (paise_of E (parsed_amount E amount)));
                 st1 = st\<lparr>refunds := calls @ refunds st\<rparr>
             in if \<not> refunded then (Nacked False, st1)
                else case commit_cancellation E now ids
                       \<lparr>xc_order_id = oid, xc_user_id = u, xc_schedule_id = s, xc_seat_ids = ts, xc_amount = amount\<rparr>
                       (store st1) of
                       (Inl _, d) \<Rightarrow> (Nacked False, st1\<lparr>store := d\<rparr>)
                     | (Inr _, d) \<Rightarrow>
                         (Acked, st1\<lparr>store := d, cache :=
                            publish_room_json s
                              (JObj [(''event'', JStr ''seat_unlocked''), (''seat_ids'', seats_json ts), (''user_id'', JInt u)])
                              (adjust_cached_available_seats R s (int (length ts)) (cache st1))\<rparr>))"

section \<open>Checkout\<close>

fun validate_locks ::
    "'w SeatLock \<Rightarrow> schedule_id \<Rightarrow> user_id \<Rightarrow> seat_id list \<Rightarrow> 'w \<Rightarrow> string option \<times> 'w" where
  "validate_locks L s u [] w = (None, w)"
| "validate_locks L s u (t # ts) w =
     (case sl_owner L s t w of
        (None, w1) \<Rightarrow> (Some (''seat lock not found for seat '' @ dec t @ '' (user '' @ dec u @ '')''), w1)
      | (Some actual_owner, w1) \<Rightarrow>
          if actual_owner \<noteq> u
          then (Some (''seat '' @ dec t @ '' is locked by user '' @ dec actual_owner @ '' not user '' @ dec u), w1)
          else (case sl_user_holds L s t u w1 of
                  (ctx_ok, w2) \<Rightarrow>
                    if ctx_ok then validate_locks L s u ts w2
                    else (Some (''user context lock not found for seat '' @ dec t @ '' (user '' @ dec u @ '')''), w2)))"

text \<open>The status becomes \<open>failed\<close> unless it is \<open>succeeded\<close>.\<close>

definition fail_request :: "timestamp \<Rightarrow> Uuid \<Rightarrow> string \<Rightarrow> tables \<Rightarrow> tables" where
  "fail_request now p reason T =
     T\<lparr>payment_requests := update_rows (\<lambda>r. pr_id r = p \<and> pr_status r \<noteq> ''succeeded'')
        (\<lambda>r. r\<lparr>pr_status := ''failed'', pr_failure_reason := Some reason, pr_updated_at := now\<rparr>)
        (payment_requests T)\<rparr>"

definition mark_payment_failed :: "timestamp \<Rightarrow> Uuid \<Rightarrow> string \<Rightarrow> database \<Rightarrow> database" where
  "mark_payment_failed now p reason d =
     (case db_get d of (ok, d1) \<Rightarrow> if ok then snd (execute (fail_request now p reason) d1) else d1)"

definition release_and_mark ::
    "'w SeatLock \<Rightarrow> schedule_id \<Rightarrow> user_id \<Rightarrow> seat_id \<Rightarrow> 'w \<Rightarrow> 'w" where
  "release_and_mark L s u t w =
     sl_set_bitmap L (schedule_seat_bitmap s) t 2 (snd (sl_release L s t u w))"

definition schedule_field :: "json \<Rightarrow> schedule_id" where
  "schedule_field payload =
     as_i32 (case as_i64 (jget payload ''schedule_id'') of
               Some n \<Rightarrow> n
             | None \<Rightarrow> (case as_i64 (jget payload ''showtime_id'') of Some n \<Rightarrow> n | None \<Rightarrow> 0))"

text \<open>What follows the pre-flight checks: the commit, then the cache, locks and notification.\<close>

definition finish_checkout ::
    "crates \<Rightarrow> 'r redis \<Rightarrow> ('r, json) world SeatLock \<Rightarrow> timestamp \<Rightarrow> Uuid \<times> Uuid \<Rightarrow> CheckoutCommit \<Rightarrow> 'r worker \<Rightarrow>
     disposition \<times> 'r worker" where
  "finish_checkout E R L now ids c st =
     (let s = cc_schedule_id c; u = cc_user_id c; ts = cc_seat_ids c
      in case commit_checkout E now ids c (store st) of
           (Inl _, d) \<Rightarrow> (Nacked False, st\<lparr>store := d, cache := clear_checkout_keys R s ts (cache st)\<rparr>)
         | (Inr _, d) \<Rightarrow>
             (let w1 = adjust_cached_available_seats R s (- int (length ts)) (cache st);
                  w2 = fold (release_and_mark L s u) ts w1;
                  w3 = publish_room_json s
                    (JObj [(''event'', JStr ''seat_booked''), (''seat_ids'', seats_json ts), (''user_id'', JInt u)]) w2
              in (Acked, st\<lparr>store := d, cache := clear_checkout_keys R s ts w3\<rparr>)))"

definition process_checkout ::
    "crates \<Rightarrow> 'r redis \<Rightarrow> ('r, json) world SeatLock \<Rightarrow> timestamp \<Rightarrow> Uuid \<times> Uuid \<times> Uuid \<Rightarrow> json \<Rightarrow> 'r worker \<Rightarrow>
     disposition \<times> 'r worker" where
  "process_checkout E R L now ids payload st =
     (let u = i32_field payload ''user_id''; s = schedule_field payload; ts = parse_seat_ids payload
      in case Option.bind (as_str (jget payload ''payment_request_id'')) (parse_uuid E) of
           None \<Rightarrow> (Nacked False, st)
         | Some p \<Rightarrow>
             (case order_exists p (store st) of
                (True, d1) \<Rightarrow> (Acked, st\<lparr>store := d1\<rparr>)
              | (False, d1) \<Rightarrow>
                  if ts = [] then (Nacked False, st\<lparr>store := d1\<rparr>)
                  else (case validate_locks L s u ts (cache st) of
                          (Some reason, w1) \<Rightarrow>
                            (Nacked False, st\<lparr>store := mark_payment_failed now p reason d1,
                                              cache := clear_checkout_keys R s ts w1\<rparr>)
                        | (None, w1) \<Rightarrow>
                            finish_checkout E R L now (snd ids)
                              \<lparr>cc_order_id = fst ids, cc_payment_request_id = p, cc_user_id = u,
                               cc_schedule_id = s, cc_seat_ids = ts, cc_total_amount = str_field payload ''amount'' ''0'',
                               cc_razorpay_order_id = str_field payload ''razorpay_order_id'' [],
                               cc_razorpay_payment_id = as_str (jget payload ''razorpay_payment_id'')\<rparr>
                              (st\<lparr>store := d1, cache := w1\<rparr>))))"

section \<open>The consumer\<close>

text \<open>
  One delivery: \<open>None\<close> is a body that is not JSON. What a delivery draws from outside (the clock, fresh
  identifiers, the provider's answers) comes with it.
\<close>

record delivery =
  dl_payload :: "json option"
  dl_now :: timestamp
  dl_ids :: "Uuid \<times> Uuid \<times> Uuid"
  dl_provider :: "string \<Rightarrow> int \<Rightarrow> bool"

definition process_message ::
    "crates \<Rightarrow> env \<Rightarrow> 'r redis \<Rightarrow> (timestamp \<Rightarrow> ('r, json) world SeatLock) \<Rightarrow> delivery \<Rightarrow> 'r worker \<Rightarrow>
     disposition \<times> 'r worker" where
  "process_message E env R L m st =
     (case dl_payload m of
        None \<Rightarrow> (Nacked False, st)
      | Some payload \<Rightarrow>
          if str_field payload ''request_type'' ''checkout'' = ''cancellation''
          then process_cancellation E env (dl_provider m) R (dl_now m) (snd (dl_ids m)) payload st
          else process_checkout E R (L (dl_now m)) (dl_now m) (dl_ids m) payload st)"

text \<open>The loop over the stream of deliveries; \<open>None\<close> is a transport error, which is skipped.\<close>

fun process_messages ::
    "crates \<Rightarrow> env \<Rightarrow> 'r redis \<Rightarrow> (timestamp \<Rightarrow> ('r, json) world SeatLock) \<Rightarrow> delivery option list \<Rightarrow> 'r worker \<Rightarrow>
     disposition list \<times> 'r worker" where
  "process_messages E env R L [] st = ([], st)"
| "process_messages E env R L (None # ms) st = process_messages E env R L ms st"
| "process_messages E env R L (Some m # ms) st =
     (let (a, st1) = process_message E env R L m st; (as, st2) = process_messages E env R L ms st1
      in (a # as, st2))"

end
