(* ===== verification/Payments_Api.thy ===== *)
theory Payments_Api
  imports Payment_Processor
begin

text \<open>
  The payment handlers of the HTTP API (\<open>apps/http-server/src/api/user/payments.rs\<close>) and its error type
  (\<open>helpers/errors.rs\<close>): requesting a payment, opening an order at the provider, the checkout summary and
  requesting a cancellation. A handler that reads the database and later writes it is split where other
  requests can come in between; the function \<open>others\<close> is what they do meanwhile.
\<close>

section \<open>Errors\<close>

text \<open>The texts of database and internal errors are only logged, so the model leaves them out.\<close>

datatype AppError =
    BadRequest string | Unauthorized string | Forbidden string | NotFound string | Validation string
  | TooManyRequests string | Database | Internal

definition internal_message :: string where
  "internal_message = ''An unexpected internal error occurred. Please try again later.''"

fun into_response :: "AppError \<Rightarrow> nat \<times> string" where
  "into_response (BadRequest m) = (400, m)"
| "into_response (Unauthorized m) = (401, m)"
| "into_response (Forbidden m) = (403, m)"
| "into_response (NotFound m) = (404, m)"
| "into_response (Validation m) = (422, m)"
| "into_response (TooManyRequests m) = (429, m)"
| "into_response Database = (500, internal_message)"
| "into_response Internal = (500, internal_message)"

section \<open>State and requests\<close>

record 'r http =
  hs_cache :: "('r, json) world"
  hs_db :: database

text \<open>
  Functions of other crates: the subject of a verified token, HMAC-SHA256 in hexadecimal, the arithmetic and
  printing of \<open>BigDecimal\<close>, its rounding to an \<open>i64\<close>, the printing of a start time, and the title MongoDB has
  for a show.
\<close>

record pay_crates =
  jwt_sub :: "string \<Rightarrow> string \<Rightarrow> string option"
  hmac_hex :: "string \<Rightarrow> string \<Rightarrow> string"
  bd_add :: "BigDecimal \<Rightarrow> BigDecimal \<Rightarrow> BigDecimal"
  bd_mul :: "BigDecimal \<Rightarrow> BigDecimal \<Rightarrow> BigDecimal"
  bd_show :: "BigDecimal \<Rightarrow> string"
  bd_round_i64 :: "BigDecimal \<Rightarrow> int option"
  time_text :: "timestamp \<Rightarrow> string"
  show_title_of :: "string \<Rightarrow> string option"

record PaymentBody =
  rq_schedule_id :: schedule_id
  rq_seat_ids :: "seat_id list"
  rq_key :: string
  rq_order_id :: "string option"
  rq_payment_id :: "string option"
  rq_signature :: "string option"

record PaymentAccepted =
  pa_request_id :: string
  pa_status :: string

definition authenticated_user ::
    "pay_crates \<Rightarrow> (string \<times> string) list \<Rightarrow> string \<Rightarrow> AppError + user_id" where
  "authenticated_user N headers secret =
     (case Option.bind (map_of headers ''authorization'') (strip_prefix ''Bearer '') of
        None \<Rightarrow> Inl (BadRequest ''missing bearer token'')
      | Some token \<Rightarrow>
          if token = ''mock_token'' then Inr 1
          else case jwt_sub N secret token of
                 None \<Rightarrow> Inl (BadRequest ''invalid bearer token'')
               | Some sub \<Rightarrow>
                   (case parse_i32 sub of
                      None \<Rightarrow> Inl (BadRequest ''invalid user identity'')
                    | Some u \<Rightarrow> Inr u))"

definition same_payment_intent :: "schedule_id \<Rightarrow> seat_id list \<Rightarrow> schedule_id \<Rightarrow> seat_id list \<Rightarrow> bool" where
  "same_payment_intent s ts s' ts' \<longleftrightarrow> s = s' \<and> sort ts = sort ts'"

section \<open>Requesting a payment\<close>

text \<open>Orders that start with \<open>order_mock_\<close> skip the signature; \<open>Hmac\<close> takes a key of any length.\<close>

definition check_signature :: "pay_crates \<Rightarrow> env \<Rightarrow> PaymentBody \<Rightarrow> AppError + unit" where
  "check_signature N env req =
     (case rq_order_id req of
        None \<Rightarrow> Inr ()
      | Some order_id \<Rightarrow>
          if strip_prefix ''order_mock_'' order_id \<noteq> None then Inr ()
          else case rq_payment_id req of
                 None \<Rightarrow> Inl (BadRequest ''Missing Razorpay payment ID'')
               | Some payment_id \<Rightarrow>
                   (case rq_signature req of
                      None \<Rightarrow> Inl (BadRequest ''Missing Razorpay signature'')
                    | Some signature \<Rightarrow>
                        (let secret = (case env ''RAZORPAY_KEY_SECRET'' of Some k \<Rightarrow> k | None \<Rightarrow> [])
                         in if hmac_hex N secret (order_id @ ''|'' @ payment_id) \<noteq> signature
                            then Inl (BadRequest ''Invalid Razorpay signature'') else Inr ())))"

definition existing_payment :: "user_id \<Rightarrow> string \<Rightarrow> tables \<Rightarrow> PaymentRequest option" where
  "existing_payment u k T =
     (case filter (\<lambda>r. pr_idempotency_key r = k \<and> pr_user_id r = u) (payment_requests T) of
        [] \<Rightarrow> None | r # _ \<Rightarrow> Some r)"

definition match_existing :: "PaymentBody \<Rightarrow> PaymentRequest \<Rightarrow> AppError + unit" where
  "match_existing req r =
     (case de_ids (pr_seat_ids r) of
        None \<Rightarrow> Inl Internal
      | Some ts \<Rightarrow>
          if \<not> same_payment_intent (pr_schedule_id r) ts (rq_schedule_id req) (rq_seat_ids req)
          then Inl (BadRequest ''idempotency_key was already used for a different payment request'') else Inr ())"

fun holds_all ::
    "'r redis \<Rightarrow> schedule_id \<Rightarrow> user_id \<Rightarrow> seat_id list \<Rightarrow> ('r, 'p) world \<Rightarrow> bool \<times> ('r, 'p) world" where
  "holds_all R s u [] w = (True, w)"
| "holds_all R s u (t # ts) w =
     (case user_holds_lock R s t u w of (ok, w1) \<Rightarrow> if ok then holds_all R s u ts w1 else (False, w1))"

definition chosen_seats :: "schedule_id \<Rightarrow> seat_id list \<Rightarrow> tables \<Rightarrow> ScheduleSeat list" where
  "chosen_seats s ts T = filter (\<lambda>r. ss_id r \<in> set ts \<and> ss_schedule_id r = s) (schedule_seats T)"

definition total_amount :: "pay_crates \<Rightarrow> BigDecimal list \<Rightarrow> BigDecimal" where
  "total_amount N prices =
     (let sub_total = foldl (bd_add N) (0, 0) prices in bd_add N sub_total (bd_mul N sub_total (18, 2)))"

text \<open>
  Everything up to the price: the user with the row of an earlier request under the same key, or the user with
  the amount to charge.
\<close>

definition check_payment ::
    "pay_crates \<Rightarrow> env \<Rightarrow> 'r redis \<Rightarrow> string \<Rightarrow> (string \<times> string) list \<Rightarrow> PaymentBody \<Rightarrow> 'r http \<Rightarrow>
     (AppError + user_id \<times> (PaymentRequest + BigDecimal)) \<times> 'r http" where
  "check_payment N env R secret headers req st =
     (case authenticated_user N headers secret of
        Inl e \<Rightarrow> (Inl e, st)
      | Inr u \<Rightarrow>
          if rq_seat_ids req = [] \<or> trim (rq_key req) = [] \<or> 128 < length (rq_key req)
          then (Inl (BadRequest ''schedule, seats, and idempotency_key are required''), st)
          else case check_signature N env req of
                 Inl e \<Rightarrow> (Inl e, st)
               | Inr _ \<Rightarrow>
                   (case db_get (hs_db st) of (ok, d1) \<Rightarrow>
                      if \<not> ok then (Inl Internal, st\<lparr>hs_db := d1\<rparr>)
                      else case query (existing_payment u (rq_key req)) d1 of
                             (None, d2) \<Rightarrow> (Inl Internal, st\<lparr>hs_db := d2\<rparr>)
                           | (Some (Some r), d2) \<Rightarrow>
                               (case match_existing req r of Inl e \<Rightarrow> Inl e | Inr _ \<Rightarrow> Inr (u, Inl r), st\<lparr>hs_db := d2\<rparr>)
                           | (Some None, d2) \<Rightarrow>
                               (case holds_all R (rq_schedule_id req) u (rq_seat_ids req) (hs_cache st) of
                                  (False, w) \<Rightarrow>
                                    (Inl (BadRequest ''one or more seats are not locked by this user''),
                                     st\<lparr>hs_db := d2, hs_cache := w\<rparr>)
                                | (True, w) \<Rightarrow>
                                    (case query (chosen_seats (rq_schedule_id req) (rq_seat_ids req)) d2 of
                                       (None, d3) \<Rightarrow> (Inl Internal, st\<lparr>hs_db := d3, hs_cache := w\<rparr>)
                                     | (Some seats, d3) \<Rightarrow>
                                         (if length seats \<noteq> length (rq_seat_ids req)
                                          then Inl (BadRequest
                                                 ''one or more seats do not belong to the requested schedule'')
                                          else case filter (\<lambda>r. ss_status r = Booked) seats of
                                                 r # _ \<Rightarrow>
                                                   Inl (BadRequest (''seat '' @ dec (ss_id r) @ '' is already booked''))
                                               | [] \<Rightarrow> Inr (u, Inr (total_amount N (map ss_price seats))),
                                          st\<lparr>hs_db := d3, hs_cache := w\<rparr>)))))"

definition del_keys :: "'r redis \<Rightarrow> string list \<Rightarrow> ('r, 'p) world \<Rightarrow> ('r, 'p) world" where
  "del_keys R ks w = fold (\<lambda>k v. snd (send 0 (writing (DEL R k)) v)) ks w"

text \<open>
  The checkout keys of the seats, claimed one after the other for 300 seconds. A refusal deletes those created
  by this call; an error of the connection leaves them to expire.
\<close>

fun claim_checkout ::
    "'r redis \<Rightarrow> string \<Rightarrow> string list \<Rightarrow> string list \<Rightarrow> ('r, 'p) world \<Rightarrow>
     (AppError + string list) \<times> ('r, 'p) world" where
  "claim_checkout R owner [] created w = (Inr created, w)"
| "claim_checkout R owner (k # ks) created w =
     (case send 0 (SETNXPX R k owner 300000) w of
        (None, w1) \<Rightarrow> (Inl Internal, w1)
      | (Some True, w1) \<Rightarrow> claim_checkout R owner ks (created @ [k]) w1
      | (Some False, w1) \<Rightarrow>
          (case send 0 (reading (GET R k)) w1 of
             (None, w2) \<Rightarrow> (Inl Internal, w2)
           | (Some current, w2) \<Rightarrow>
               if current \<noteq> Some owner
               then (Inl (BadRequest ''one or more seats already have a checkout in progress''), del_keys R created w2)
               else claim_checkout R owner ks created w2))"

definition checkout_owner :: "user_id \<Rightarrow> string \<Rightarrow> string" where
  "checkout_owner u k = dec u @ '':'' @ k"

definition opt_str :: "string option \<Rightarrow> json" where
  "opt_str x = (case x of Some v \<Rightarrow> JStr v | None \<Rightarrow> JNull)"

definition payment_payload ::
    "crates \<Rightarrow> Uuid \<Rightarrow> user_id \<Rightarrow> PaymentBody \<Rightarrow> string \<Rightarrow> json" where
  "payment_payload E p u req amount =
     JObj [(''_trace_context'', current_carrier E), (''payment_request_id'', JStr (show_uuid E p)),
       (''user_id'', JInt u), (''schedule_id'', JInt (rq_schedule_id req)), (''seat_ids'', seats_json (rq_seat_ids req)),
       (''amount'', JStr amount), (''razorpay_order_id'', opt_str (rq_order_id req)),
       (''razorpay_payment_id'', opt_str (rq_payment_id req))]"

definition payment_event :: "timestamp \<Rightarrow> Uuid \<Rightarrow> string \<Rightarrow> Uuid \<Rightarrow> json \<Rightarrow> OutboxEvent" where
  "payment_event now i event_type aggregate payload =
     \<lparr>oe_id = i, oe_aggregate_type = ''payment'', oe_aggregate_id = aggregate, oe_event_type = event_type,
      oe_payload = payload, oe_created_at = now, oe_published_at = None, oe_attempts = 0, oe_processing_at = None,
      oe_next_attempt_at = now, oe_last_error = None, oe_dead_lettered_at = None\<rparr>"

definition new_request :: "timestamp \<Rightarrow> Uuid \<Rightarrow> user_id \<Rightarrow> PaymentBody \<Rightarrow> PaymentRequest" where
  "new_request now p u req =
     \<lparr>pr_id = p, pr_idempotency_key = rq_key req, pr_user_id = u, pr_schedule_id = rq_schedule_id req,
      pr_seat_ids = seats_json (rq_seat_ids req), pr_status = ''pending'', pr_booking_id = None,
      pr_failure_reason = None, pr_created_at = now, pr_updated_at = now\<rparr>"

text \<open>\<open>ON CONFLICT (user_id, idempotency_key) DO NOTHING\<close>; the event is only inserted with a new row.\<close>

definition request_stmts ::
    "crates \<Rightarrow> timestamp \<Rightarrow> Uuid \<times> Uuid \<Rightarrow> user_id \<Rightarrow> PaymentBody \<Rightarrow> string \<Rightarrow> tables \<Rightarrow> (tables \<Rightarrow> tables) list" where
  "request_stmts E now ids u req amount T0 =
     (if existing_payment u (rq_key req) T0 \<noteq> None then [\<lambda>T. T]
      else [\<lambda>T. T\<lparr>payment_requests := payment_requests T @ [new_request now (fst ids) u req]\<rparr>,
            \<lambda>T. T\<lparr>outbox_events := outbox_events T @
               [payment_event now (snd ids) ''payment.requested'' (fst ids) (payment_payload E (fst ids) u req amount)]\<rparr>])"

definition commit_request ::
    "crates \<Rightarrow> 'r redis \<Rightarrow> timestamp \<Rightarrow> Uuid \<times> Uuid \<Rightarrow> user_id \<Rightarrow> PaymentBody \<Rightarrow> string \<Rightarrow> string list \<Rightarrow> 'r http \<Rightarrow>
     (AppError + PaymentAccepted) \<times> 'r http" where
  "commit_request E R now ids u req amount created st =
     (let d = hs_db st; T = rows d
      in case transaction (request_stmts E now ids u req amount T) d of
           (Inl _, d1) \<Rightarrow> (Inl Internal, st\<lparr>hs_db := d1, hs_cache := del_keys R created (hs_cache st)\<rparr>)
         | (Inr _, d1) \<Rightarrow>
             if existing_payment u (rq_key req) T = None
             then (Inr \<lparr>pa_request_id = show_uuid E (fst ids), pa_status = ''pending''\<rparr>, st\<lparr>hs_db := d1\<rparr>)
             else (case query (existing_payment u (rq_key req)) d1 of
                     (Some (Some r), d2) \<Rightarrow>
                       (case match_existing req r of
                          Inl e \<Rightarrow> Inl e
                        | Inr _ \<Rightarrow> Inr \<lparr>pa_request_id = show_uuid E (pr_id r), pa_status = ''pending''\<rparr>,
                        st\<lparr>hs_db := d2\<rparr>)
                   | (_, d2) \<Rightarrow> (Inl Internal, st\<lparr>hs_db := d2\<rparr>)))"

text \<open>
  The handler. \<open>others 0\<close> runs between the checks and the claim of the checkout keys, \<open>others 1\<close> between the
  claim and the transaction.
\<close>

definition request_payment ::
    "crates \<Rightarrow> pay_crates \<Rightarrow> env \<Rightarrow> 'r redis \<Rightarrow> string \<Rightarrow> (nat \<Rightarrow> 'r http \<Rightarrow> 'r http) \<Rightarrow> timestamp \<Rightarrow> Uuid \<times> Uuid \<Rightarrow>
     (string \<times> string) list \<Rightarrow> PaymentBody \<Rightarrow> 'r http \<Rightarrow> (AppError + PaymentAccepted) \<times> 'r http" where
  "request_payment E N env R secret others now ids headers req st =
     (case check_payment N env R secret headers req st of
        (Inl e, st1) \<Rightarrow> (Inl e, st1)
      | (Inr (u, Inl r), st1) \<Rightarrow> (Inr \<lparr>pa_request_id = show_uuid E (pr_id r), pa_status = pr_status r\<rparr>, st1)
      | (Inr (u, Inr amount), st1) \<Rightarrow>
          (let st2 = others 0 st1
           in case pool_get (hs_cache st2) of (ok, w) \<Rightarrow>
                if \<not> ok then (Inl Internal, st2\<lparr>hs_cache := w\<rparr>)
                else case claim_checkout R (checkout_owner u (rq_key req))
                         (map (seat_checkout_key (rq_schedule_id req)) (rq_seat_ids req)) [] w of
                       (Inl e, w1) \<Rightarrow> (Inl e, st2\<lparr>hs_cache := w1\<rparr>)
                     | (Inr created, w1) \<Rightarrow>
                         commit_request E R now ids u req (bd_show N amount) created (others 1 (st2\<lparr>hs_cache := w1\<rparr>))))"

section \<open>An order at the provider\<close>

record OrderBody =
  ob_schedule_id :: schedule_id
  ob_seat_ids :: "seat_id list"
  ob_amount_paise :: int

text \<open>\<open>api amount\<close> is the provider's answer: a failure or the JSON it returns. The prices are those of the seats
  by id, without a test of their schedule.\<close>

definition create_razorpay_order ::
    "crates \<Rightarrow> pay_crates \<Rightarrow> env \<Rightarrow> 'r redis \<Rightarrow> string \<Rightarrow> (int \<Rightarrow> json option) \<Rightarrow> Uuid \<Rightarrow> (string \<times> string) list \<Rightarrow>
     OrderBody \<Rightarrow> 'r http \<Rightarrow> (AppError + string) \<times> 'r http" where
  "create_razorpay_order E N env R secret api i headers req st =
     (case authenticated_user N headers secret of
        Inl e \<Rightarrow> (Inl e, st)
      | Inr u \<Rightarrow>
          if ob_seat_ids req = [] then (Inl (BadRequest ''at least one seat_id is required''), st)
          else case holds_all R (ob_schedule_id req) u (ob_seat_ids req) (hs_cache st) of
                 (False, w) \<Rightarrow> (Inl (BadRequest ''one or more seats are not locked by this user''), st\<lparr>hs_cache := w\<rparr>)
               | (True, w) \<Rightarrow>
                   (case db_get (hs_db st) of (ok, d1) \<Rightarrow>
                      if \<not> ok then (Inl Internal, st\<lparr>hs_cache := w, hs_db := d1\<rparr>)
                      else case query (\<lambda>T. map ss_price (filter (\<lambda>r. ss_id r \<in> set (ob_seat_ids req)) (schedule_seats T))) d1 of
                             (None, d2) \<Rightarrow> (Inl Internal, st\<lparr>hs_cache := w, hs_db := d2\<rparr>)
                           | (Some prices, d2) \<Rightarrow>
                               (case bd_round_i64 N (bd_mul N (total_amount N prices) (100, 0)) of
                                  None \<Rightarrow> Inl Internal
                                | Some paise \<Rightarrow>
                                    if paise \<noteq> ob_amount_paise req
                                    then Inl (BadRequest ''price mismatch between client and server'')
                                    else if (case env ''RAZORPAY_KEY_ID'' of Some k \<Rightarrow> k | None \<Rightarrow> []) = []
                                    then Inr (''order_mock_'' @ take 14 (filter (\<lambda>c. c \<noteq> CHR ''-'') (show_uuid E i)))
                                    else case api (ob_amount_paise req) of
                                           None \<Rightarrow> Inl Internal
                                         | Some answer \<Rightarrow> Inr (str_field answer ''id'' []),
                                st\<lparr>hs_cache := w, hs_db := d2\<rparr>)))"

section \<open>The checkout summary\<close>

record SeatSummary =
  sm_seat_id :: seat_id
  sm_row_letter :: string
  sm_seat_number :: int
  sm_seat_class :: string
  sm_price :: string

record CheckoutSummary =
  su_schedule_id :: schedule_id
  su_show_title :: string
  su_show_time :: string
  su_venue_name :: string
  su_venue_address :: string
  su_venue_city :: string
  su_seats :: "SeatSummary list"
  su_estimated_amount :: string

fun seat_class_text :: "LayoutSeatClass \<Rightarrow> string" where
  "seat_class_text Standard = ''Standard''"
| "seat_class_text Premium = ''Premium''"
| "seat_class_text Vip = ''Vip''"
| "seat_class_text Ga = ''Ga''"

definition seat_summary :: "pay_crates \<Rightarrow> ScheduleSeat \<Rightarrow> SeatSummary" where
  "seat_summary N r =
     \<lparr>sm_seat_id = ss_id r, sm_row_letter = ss_row_letter r, sm_seat_number = ss_seat_number r,
      sm_seat_class = seat_class_text (ss_seat_class r), sm_price = bd_show N (ss_price r)\<rparr>"

definition or_else :: "string option \<Rightarrow> string \<Rightarrow> string" where
  "or_else x d = (case x of Some v \<Rightarrow> v | None \<Rightarrow> d)"

definition get_checkout_summary ::
    "pay_crates \<Rightarrow> string \<Rightarrow> (string \<times> string) list \<Rightarrow> schedule_id \<Rightarrow> seat_id list \<Rightarrow> database \<Rightarrow>
     (AppError + CheckoutSummary) \<times> database" where
  "get_checkout_summary N secret headers s ts d =
     (case authenticated_user N headers secret of
        Inl e \<Rightarrow> (Inl e, d)
      | Inr _ \<Rightarrow>
          if ts = [] then (Inl (BadRequest ''at least one seat_id is required''), d)
          else case db_get d of (ok, d1) \<Rightarrow>
            if \<not> ok then (Inl Internal, d1)
            else case query (\<lambda>T. filter (\<lambda>r. sc_id r = s) (schedules T)) d1 of (res, d2) \<Rightarrow>
              (case res of
                 Some (sch # _) \<Rightarrow>
                   (case query (\<lambda>T. filter (\<lambda>r. ss_id r \<in> set ts) (schedule_seats T)) d2 of
                      (None, d3) \<Rightarrow> (Inl Internal, d3)
                    | (Some seats, d3) \<Rightarrow>
                        (Inr \<lparr>su_schedule_id = sc_id sch,
                           su_show_title = or_else (show_title_of N (sc_mongo_show_id sch)) ''Unknown Show'',
                           su_show_time = time_text N (sc_start_time sch),
                           su_venue_name = or_else (sc_venue_name sch) ''Unknown Venue'',
                           su_venue_address = or_else (sc_venue_address sch) ''Unknown Address'',
                           su_venue_city = or_else (sc_venue_city sch) ''Unknown City'',
                           su_seats = map (seat_summary N) seats,
                           su_estimated_amount = bd_show N (total_amount N (map ss_price seats))\<rparr>, d3))
               | _ \<Rightarrow> (Inl (NotFound ''schedule not found''), d2)))"

section \<open>Requesting a cancellation\<close>

record CancelResponse =
  cr_order_id :: string
  cr_status :: string
  cr_accepted :: bool  \<comment> \<open>the answer is \<open>202 Accepted\<close>, not \<open>200 OK\<close>\<close>

definition cancel_payload :: "crates \<Rightarrow> pay_crates \<Rightarrow> user_id \<Rightarrow> Order \<Rightarrow> string \<Rightarrow> json" where
  "cancel_payload E N u r key =
     JObj [(''_trace_context'', current_carrier E), (''request_type'', JStr ''cancellation''),
       (''order_id'', JStr (show_uuid E (od_id r))), (''user_id'', JInt u), (''schedule_id'', JInt (od_schedule_id r)),
       (''seat_ids'', od_seat_ids r), (''amount'', JStr (bd_show N (od_total_amount r))),
       (''razorpay_payment_id'', opt_str (od_razorpay_payment_id r)), (''idempotency_key'', JStr key)]"

definition completed_order :: "Uuid \<Rightarrow> Order \<Rightarrow> bool" where
  "completed_order oid r \<longleftrightarrow> od_id r = oid \<and> od_status r = ''completed''"

definition cancel_stmts :: "timestamp \<Rightarrow> Uuid \<Rightarrow> Uuid \<Rightarrow> json \<Rightarrow> tables \<Rightarrow> (tables \<Rightarrow> tables) list" where
  "cancel_stmts now i oid payload T0 =
     (\<lambda>T. T\<lparr>orders := update_rows (completed_order oid) (\<lambda>r. r\<lparr>od_status := ''cancelling''\<rparr>) (orders T)\<rparr>) #
     (if list_ex (completed_order oid) (orders T0)
      then [\<lambda>T. T\<lparr>outbox_events := outbox_events T @
              [payment_event now i ''payment.cancellation_requested'' oid payload]\<rparr>]
      else [])"

text \<open>\<open>others\<close> runs between reading the order and the transaction.\<close>

definition cancel_order ::
    "crates \<Rightarrow> pay_crates \<Rightarrow> string \<Rightarrow> (database \<Rightarrow> database) \<Rightarrow> timestamp \<Rightarrow> Uuid \<Rightarrow> (string \<times> string) list \<Rightarrow> Uuid \<Rightarrow>
     string \<Rightarrow> database \<Rightarrow> (AppError + CancelResponse) \<times> database" where
  "cancel_order E N secret others now i headers oid key d =
     (case authenticated_user N headers secret of
        Inl e \<Rightarrow> (Inl e, d)
      | Inr u \<Rightarrow>
          if trim key = [] then (Inl (BadRequest ''idempotency_key is required''), d)
          else case db_get d of (ok, d1) \<Rightarrow>
            if \<not> ok then (Inl Internal, d1)
            else case query (\<lambda>T. filter (\<lambda>r. od_id r = oid) (orders T)) d1 of (res, d2) \<Rightarrow>
              (case res of
                 Some (r # _) \<Rightarrow>
                   if od_user_id r \<noteq> u then (Inl (BadRequest ''order does not belong to this user''), d2)
                   else if od_status r \<in> {''cancelling'', ''cancelled'', ''refunded''}
                   then (Inr \<lparr>cr_order_id = show_uuid E (od_id r), cr_status = ''cancelling'', cr_accepted = False\<rparr>, d2)
                   else if od_status r \<noteq> ''completed''
                   then (Inl (BadRequest ''only completed orders can be cancelled''), d2)
                   else (case others d2 of d3 \<Rightarrow>
                           case transaction (cancel_stmts now i (od_id r) (cancel_payload E N u r key) (rows d3)) d3 of
                             (Inl _, d4) \<Rightarrow> (Inl Internal, d4)
                           | (Inr _, d4) \<Rightarrow>
                               (Inr \<lparr>cr_order_id = show_uuid E (od_id r), cr_status = ''cancelling'',
                                     cr_accepted = True\<rparr>, d4))
               | _ \<Rightarrow> (Inl (NotFound ''order not found''), d2)))"

end
