(* ===== verification/Payment_Props.thy ===== *)
theory Payment_Props
  imports Payment_Processor
begin

text \<open>
  What the payment worker guarantees: an order is created only for seats whose lock and context key the
  payer holds, an acknowledged checkout has its order, one payment request never yields two orders however
  often its message is delivered and whatever fails on the way, and a cancellation frees its seats in the
  database. Three theorems record where the code falls short: with the lock operations the services use no
  checkout passes the context-key check, a cancelled seat stays marked as booked in the seat bitmap, and
  the booking transaction does not look at the state of the seats.
\<close>

section \<open>What the worker needs of the lock object\<close>

locale lock_reads =
  fixes L :: "'w SeatLock"
    and holder :: "schedule_id \<Rightarrow> seat_id \<Rightarrow> 'w \<Rightarrow> user_id option"
    and ctx :: "schedule_id \<Rightarrow> seat_id \<Rightarrow> user_id \<Rightarrow> 'w \<Rightarrow> bool"
  assumes owner_sound: "sl_owner L s t w = (Some u, w') \<Longrightarrow> holder s t w = Some u"
    and owner_pure: "sl_owner L s t w = (res, w') \<Longrightarrow> holder s' t' w' = holder s' t' w \<and> ctx s' t' v w' = ctx s' t' v w"
    and holds_sound: "sl_user_holds L s t u w = (True, w') \<Longrightarrow> ctx s t u w"
    and holds_pure:
      "sl_user_holds L s t u w = (b, w') \<Longrightarrow> holder s' t' w' = holder s' t' w \<and> ctx s' t' v w' = ctx s' t' v w"
begin

text \<open>Seats that pass the check are all held by the payer, with the context key in place.\<close>

lemma validate_locks_sound:
  "validate_locks L s u ts w = (None, w') \<Longrightarrow> \<forall>t \<in> set ts. holder s t w = Some u \<and> ctx s t u w"
proof (induction ts arbitrary: w)
  case (Cons t ts)
  obtain res w1 where o: "sl_owner L s t w = (res, w1)" by (cases "sl_owner L s t w")
  obtain b w2 where h: "sl_user_holds L s t u w1 = (b, w2)" by (cases "sl_user_holds L s t u w1")
  from Cons.prems o h have r: "res = Some u" b "validate_locks L s u ts w2 = (None, w')"
    by (auto split: option.splits if_splits)
  have "holder s t w = Some u" using o r(1) owner_sound by simp
  moreover have "ctx s t u w1" using h r(2) holds_sound by simp
  then have "ctx s t u w" using owner_pure [OF o] by simp
  moreover have "\<forall>t \<in> set ts. holder s t w = Some u \<and> ctx s t u w"
    using Cons.IH [OF r(3)] holds_pure [OF h] owner_pure [OF o] by auto
  ultimately show ?case by simp
qed simp

end

definition sn_ctx :: "'r redis \<Rightarrow> schedule_id \<Rightarrow> seat_id \<Rightarrow> user_id \<Rightarrow> ('r, 'p) world \<Rightarrow> bool" where
  "sn_ctx R s t u w \<longleftrightarrow> nodes w \<noteq> [] \<and> ctx_cell R s t u (nodes w) \<noteq> None"

definition node0_holder :: "'r redis \<Rightarrow> schedule_id \<Rightarrow> seat_id \<Rightarrow> ('r, 'p) world \<Rightarrow> user_id option" where
  "node0_holder R s t w = cell_owner (look R (nodes w ! 0) (seat_lock_key s t))"

definition node0_ctx :: "'r redis \<Rightarrow> schedule_id \<Rightarrow> seat_id \<Rightarrow> user_id \<Rightarrow> ('r, 'p) world \<Rightarrow> bool" where
  "node0_ctx R s t u w \<longleftrightarrow> look R (nodes w ! 0) (seat_user_context_key s t u) \<noteq> None"

lemma with_pool_reading:
  assumes "with_pool p d (\<lambda>i w1. case send i (reading (f i)) w1 of (res, w2) \<Rightarrow> (g res, w2)) w = (a, w')"
  shows "nodes w' = nodes w" and "a = d \<or> a = g None \<or> (\<exists>i. p = Some i \<and> a = g (Some (f i (nodes w ! i))))"
proof -
  show "nodes w' = nodes w"
    using assms by (auto simp: with_pool_def dest!: pool_getD dest: send_reading split: option.splits prod.splits if_splits)
  show "a = d \<or> a = g None \<or> (\<exists>i. p = Some i \<and> a = g (Some (f i (nodes w ! i))))"
  proof (cases p)
    case (Some i)
    obtain ok w1 where w1: "pool_get w = (ok, w1)" by (cases "pool_get w")
    obtain res w2 where w2: "send i (reading (f i)) w1 = (res, w2)" by (cases "send i (reading (f i)) w1")
    from send_reading(2) [OF w2] pool_getD [OF w1] assms Some w1 w2 show ?thesis
      by (auto simp: with_pool_def split: if_splits)
  qed (use assms in \<open>simp add: with_pool_def\<close>)
qed

lemma get_lock_owner_read:
  assumes "get_lock_owner R s t w = (res, w')"
  shows "nodes w' = nodes w" and "res = Some u \<Longrightarrow> sn_holder R s t w = Some u"
proof -
  note r = with_pool_reading [where f = "\<lambda>_. GET R (seat_lock_key s t)" and g = parse_owner,
      OF assms [unfolded get_lock_owner_def]]
  show "nodes w' = nodes w" by (rule r(1))
  show "sn_holder R s t w = Some u" if "res = Some u"
    using r(2) that
    by (auto simp: sn_holder_def cell_owner_def lock_cell_def pool_for_seat_def GET_def parse_owner_def [of None]
        split: if_splits)
qed

lemma user_holds_lock_read:
  assumes "user_holds_lock R s t u w = (b, w')"
  shows "nodes w' = nodes w" and "b \<Longrightarrow> sn_ctx R s t u w"
proof -
  note r = with_pool_reading [where f = "\<lambda>_. EXISTS R (seat_user_context_key s t u)" and g = "\<lambda>x. x = Some True",
      OF assms [unfolded user_holds_lock_def]]
  show "nodes w' = nodes w" by (rule r(1))
  show "sn_ctx R s t u w" if b
    using r(2) that by (auto simp: sn_ctx_def ctx_cell_def pool_for_seat_def EXISTS_def split: if_splits)
qed

lemma single_node_lock_sel [simp]:
  "sl_owner (single_node_lock R J n) = get_lock_owner R"
  "sl_user_holds (single_node_lock R J n) = user_holds_lock R"
  "sl_release (single_node_lock R J n) = release_lock R J"
  "sl_set_bitmap (single_node_lock R J n) = set_schedule_seat_bitmap_state_cluster R"
  by (simp_all add: single_node_lock_def)

interpretation sn_reads: lock_reads "single_node_lock R J n" "sn_holder R" "sn_ctx R" for R :: "'r redis" and J n
proof unfold_locales
  fix s t u v s' t' res b and w w' :: "('r, json) world"
  show "sl_owner (single_node_lock R J n) s t w = (Some u, w') \<Longrightarrow> sn_holder R s t w = Some u"
    by (auto dest: get_lock_owner_read(2))
  show "sl_owner (single_node_lock R J n) s t w = (res, w') \<Longrightarrow>
      sn_holder R s' t' w' = sn_holder R s' t' w \<and> sn_ctx R s' t' v w' = sn_ctx R s' t' v w"
    by (auto dest!: get_lock_owner_read(1) simp: sn_holder_def sn_ctx_def)
  show "sl_user_holds (single_node_lock R J n) s t u w = (True, w') \<Longrightarrow> sn_ctx R s t u w"
    by (auto dest: user_holds_lock_read(2))
  show "sl_user_holds (single_node_lock R J n) s t u w = (b, w') \<Longrightarrow>
      sn_holder R s' t' w' = sn_holder R s' t' w \<and> sn_ctx R s' t' v w' = sn_ctx R s' t' v w"
    by (auto dest!: user_holds_lock_read(1) simp: sn_holder_def sn_ctx_def)
qed

interpretation cl_reads: lock_reads "cluster_lock S R J n" "node0_holder R" "node0_ctx R"
  for S and R :: "'r redis" and J n
proof unfold_locales
  fix s t u v s' t' res b and w w' :: "('r, json) world"
  show "sl_owner (cluster_lock S R J n) s t w = (Some u, w') \<Longrightarrow> node0_holder R s t w = Some u"
    by (auto simp: cluster_lock_def cluster_get_lock_owner_def node0_holder_def cell_owner_def parse_owner_def GET_def
        dest!: send_reading(2) split: prod.splits)
  show "sl_owner (cluster_lock S R J n) s t w = (res, w') \<Longrightarrow>
      node0_holder R s' t' w' = node0_holder R s' t' w \<and> node0_ctx R s' t' v w' = node0_ctx R s' t' v w"
    by (auto simp: cluster_lock_def cluster_get_lock_owner_def node0_holder_def node0_ctx_def
        dest!: send_reading(1) split: prod.splits)
  show "sl_user_holds (cluster_lock S R J n) s t u w = (True, w') \<Longrightarrow> node0_ctx R s t u w"
    by (auto simp: cluster_lock_def cluster_user_holds_lock_def node0_ctx_def EXISTS_def
        dest!: send_reading(2) split: prod.splits)
  show "sl_user_holds (cluster_lock S R J n) s t u w = (b, w') \<Longrightarrow>
      node0_holder R s' t' w' = node0_holder R s' t' w \<and> node0_ctx R s' t' v w' = node0_ctx R s' t' v w"
    by (auto simp: cluster_lock_def cluster_user_holds_lock_def node0_holder_def node0_ctx_def
        dest!: send_reading(1) split: prod.splits)
qed

section \<open>The database under a checkout\<close>

lemma order_exists_rows: "order_exists p d = (b, d') \<Longrightarrow> rows d' = rows d"
  by (auto simp: order_exists_def dest!: db_getD queryD split: prod.splits if_splits)

lemma order_existsD: "order_exists p d = (True, d') \<Longrightarrow> \<exists>r \<in> set (orders (rows d)). od_payment_request_id r = p"
  by (auto simp: order_exists_def dest!: db_getD queryD split: prod.splits if_splits)

lemma mark_payment_failed_rows:
  "rows (mark_payment_failed now p reason d) = rows d \<or>
   rows (mark_payment_failed now p reason d) = fail_request now p reason (rows d) \<and>
     tables_ok (rows (mark_payment_failed now p reason d))"
proof -
  obtain ok d1 where g: "db_get d = (ok, d1)" by (cases "db_get d")
  obtain res d2 where x: "execute (fail_request now p reason) d1 = (res, d2)"
    by (cases "execute (fail_request now p reason) d1")
  from execute_cases [OF x] db_getD [OF g] show ?thesis by (auto simp: mark_payment_failed_def g x)
qed

text \<open>Every outcome of a checkout, as far as the tables are concerned.\<close>

lemma process_checkout_cases:
  assumes "process_checkout E R L now ids payload st = (a, st')"
  obtains (refused) "a = Nacked False" "rows (store st') = rows (store st)"
    | (existing) p where "Option.bind (as_str (jget payload ''payment_request_id'')) (parse_uuid E) = Some p"
        "a = Acked" "rows (store st') = rows (store st)"
        "\<exists>r \<in> set (orders (rows (store st))). od_payment_request_id r = p"
    | (failed) p reason where "Option.bind (as_str (jget payload ''payment_request_id'')) (parse_uuid E) = Some p"
        "a = Nacked False"
        "rows (store st') = fail_request now p reason (rows (store st))" "tables_ok (rows (store st'))"
    | (committed) p c w1 where "Option.bind (as_str (jget payload ''payment_request_id'')) (parse_uuid E) = Some p"
        "cc_payment_request_id c = p" "cc_seat_ids c = parse_seat_ids payload"
        "cc_schedule_id c = schedule_field payload" "cc_user_id c = i32_field payload ''user_id''"
        "parse_seat_ids payload \<noteq> []"
        "validate_locks L (schedule_field payload) (i32_field payload ''user_id'') (parse_seat_ids payload)
           (cache st) = (None, w1)"
        "rows (store st') = run_all (checkout_stmts E now (snd ids) c) (rows (store st))"
        "tables_ok (rows (store st)) \<longrightarrow> tables_ok (rows (store st'))"
        "c = \<lparr>cc_order_id = fst ids, cc_payment_request_id = p, cc_user_id = i32_field payload ''user_id'',
           cc_schedule_id = schedule_field payload, cc_seat_ids = parse_seat_ids payload,
           cc_total_amount = str_field payload ''amount'' ''0'',
           cc_razorpay_order_id = str_field payload ''razorpay_order_id'' [],
           cc_razorpay_payment_id = as_str (jget payload ''razorpay_payment_id'')\<rparr>"
proof -
  let ?u = "i32_field payload ''user_id''" and ?s = "schedule_field payload" and ?ts = "parse_seat_ids payload"
  show thesis
  proof (cases "Option.bind (as_str (jget payload ''payment_request_id'')) (parse_uuid E)")
    case None
    with assms show thesis by (intro refused) (auto simp: process_checkout_def Let_def)
  next
    case p: (Some p)
    obtain b d1 where o: "order_exists p (store st) = (b, d1)" by (cases "order_exists p (store st)")
    note r1 = order_exists_rows [OF o]
    obtain res w1 where v: "validate_locks L ?s ?u ?ts (cache st) = (res, w1)"
      by (cases "validate_locks L ?s ?u ?ts (cache st)")
    consider (ex) b | (empty) "\<not> b" "?ts = []" | (bad) reason where "\<not> b" "?ts \<noteq> []" "res = Some reason"
      | (go) "\<not> b" "?ts \<noteq> []" "res = None" by (cases b; cases res) auto
    then show thesis
    proof cases
      case ex
      with assms p o r1 order_existsD [of p "store st" d1] show thesis
        by (intro existing) (auto simp: process_checkout_def Let_def)
    next
      case empty
      with assms p o r1 show thesis by (intro refused) (auto simp: process_checkout_def Let_def)
    next
      case bad
      with assms p o v have a: "a = Nacked False" "store st' = mark_payment_failed now p reason d1"
        by (auto simp: process_checkout_def Let_def)
      from mark_payment_failed_rows [of now p reason d1] r1 show thesis
        using a refused failed p by metis
    next
      case go
      define c where "c = \<lparr>cc_order_id = fst ids, cc_payment_request_id = p, cc_user_id = ?u,
          cc_schedule_id = ?s, cc_seat_ids = ?ts, cc_total_amount = str_field payload ''amount'' ''0'',
          cc_razorpay_order_id = str_field payload ''razorpay_order_id'' [],
          cc_razorpay_payment_id = as_str (jget payload ''razorpay_payment_id'')\<rparr>"
      obtain res' d2 where x: "commit_checkout E now (snd ids) c d1 = (res', d2)"
        by (cases "commit_checkout E now (snd ids) c d1")
      have fin: "finish_checkout E R L now (snd ids) c (st\<lparr>store := d1, cache := w1\<rparr>) = (a, st')"
        using assms p o v go by (simp add: process_checkout_def Let_def c_def)
      then have st': "store st' = d2" "(\<exists>e. res' = Inl e) \<longrightarrow> a = Nacked False"
        using x by (auto simp: finish_checkout_def Let_def split: sum.splits)
      from x show thesis unfolding commit_checkout_def
      proof (cases rule: with_conn_cases)
        case rolled_back
        with st' r1 show thesis by (intro refused) auto
      next
        case comm: committed
        show thesis
          by (rule committed [of p c w1]) (use p v go comm st' r1 in \<open>auto simp: c_def\<close>)
      qed
    qed
  qed
qed


section \<open>Tables along a run\<close>

lemma orders_of_stmts:
  "orders (fail_request now p reason T) = orders T"
  "schedule_seats (fail_request now p reason T) = schedule_seats T"
  "orders (run_all (checkout_stmts E now ids c) T) = orders T @ [new_order E now c]"
  "orders (run_all (cancellation_stmts E now ids x) T) =
     update_rows (\<lambda>r. od_id r = xc_order_id x) (\<lambda>r. r\<lparr>od_status := ''refunded''\<rparr>) (orders T)"
  by (simp_all add: fail_request_def checkout_stmts_def cancellation_stmts_def set_seats_def)

text \<open>The identity of an order: its id and the payment request it settles.\<close>

definition order_key :: "Order \<Rightarrow> Uuid \<times> Uuid" where
  "order_key r = (od_id r, od_payment_request_id r)"

definition settles :: "Uuid \<Rightarrow> tables \<Rightarrow> Order list" where
  "settles p T = filter (\<lambda>r. od_payment_request_id r = p) (orders T)"

lemma tables_ok_one_order: "tables_ok T \<Longrightarrow> length (settles p T) \<le> 1"
proof -
  assume "tables_ok T"
  then have "distinct (map od_payment_request_id (settles p T))"
    by (simp add: tables_ok_def keys_ok_def settles_def distinct_map_filter)
  moreover have "set (map od_payment_request_id (settles p T)) \<subseteq> {p}" by (auto simp: settles_def)
  ultimately show ?thesis
    using card_mono [of "{p}" "set (map od_payment_request_id (settles p T))"]
      distinct_card [of "map od_payment_request_id (settles p T)"] by simp
qed

text \<open>One delivery keeps the constraints and every order there was.\<close>

definition rows_advance :: "tables \<Rightarrow> tables \<Rightarrow> bool" where
  "rows_advance T T' \<longleftrightarrow>
     (tables_ok T \<longrightarrow> tables_ok T') \<and> order_key ` set (orders T) \<subseteq> order_key ` set (orders T')"

lemma rows_advance_refl [simp]: "rows_advance T T"
  by (simp add: rows_advance_def)

lemma rows_advance_trans: "rows_advance T T1 \<Longrightarrow> rows_advance T1 T2 \<Longrightarrow> rows_advance T T2"
  by (auto simp: rows_advance_def)

lemma process_checkout_advances:
  assumes "process_checkout E R L now ids payload st = (a, st')"
  shows "rows_advance (rows (store st)) (rows (store st'))"
  using assms by (cases rule: process_checkout_cases) (auto simp: rows_advance_def orders_of_stmts)

lemma process_cancellation_rows:
  assumes "process_cancellation E env api R now ids payload st = (a, st')"
  obtains (kept) "a = Nacked False" "rows (store st') = rows (store st)"
    | (cancelled) oid c where "parse_uuid E (str_field payload ''order_id'' []) = Some oid"
        "xc_order_id c = oid" "xc_seat_ids c = parse_seat_ids payload"
        "rows (store st') = run_all (cancellation_stmts E now ids c) (rows (store st))"
        "tables_ok (rows (store st)) \<longrightarrow> tables_ok (rows (store st'))"
proof -
  let ?pid = "as_str (jget payload ''razorpay_payment_id'')" and ?amount = "str_field payload ''amount'' ''0''"
  show thesis
  proof (cases "parse_uuid E (str_field payload ''order_id'' [])")
    case None
    with assms show thesis by (intro kept) (auto simp: process_cancellation_def Let_def)
  next
    case oid: (Some oid)
    obtain ok calls where ref: "(case ?pid of None \<Rightarrow> (True, []) | Some pid \<Rightarrow>
        process_razorpay_refund env api pid (paise_of E (parsed_amount E ?amount))) = (ok, calls)"
      by (cases "case ?pid of None \<Rightarrow> (True, []) | Some pid \<Rightarrow>
        process_razorpay_refund env api pid (paise_of E (parsed_amount E ?amount))")
    define c where "c = \<lparr>xc_order_id = oid, xc_user_id = i32_field payload ''user_id'',
        xc_schedule_id = i32_field payload ''schedule_id'', xc_seat_ids = parse_seat_ids payload, xc_amount = ?amount\<rparr>"
    obtain res d where x: "commit_cancellation E now ids c (store st) = (res, d)"
      by (cases "commit_cancellation E now ids c (store st)")
    have st': "store st' = (if ok then d else store st) \<and> (\<not> ok \<or> (\<exists>e. res = Inl e) \<longrightarrow> a = Nacked False)"
      using assms oid ref x by (auto simp: process_cancellation_def Let_def c_def split: sum.splits if_splits)
    from x show thesis unfolding commit_cancellation_def
    proof (cases rule: with_conn_cases)
      case rolled_back
      with st' show thesis by (intro kept) auto
    next
      case committed
      show thesis
      proof (cases ok)
        case True
        show thesis by (rule cancelled [of oid c]) (use oid committed st' True in \<open>auto simp: c_def\<close>)
      qed (use st' kept in auto)
    qed
  qed
qed

lemma process_cancellation_advances:
  assumes "process_cancellation E env api R now ids payload st = (a, st')"
  shows "rows_advance (rows (store st)) (rows (store st'))"
  using assms
proof (cases rule: process_cancellation_rows)
  case (cancelled oid c)
  have "map order_key (orders (rows (store st'))) = map order_key (orders (rows (store st)))"
    unfolding cancelled orders_of_stmts by (rule map_update_rows) (simp add: order_key_def)
  then have "order_key ` set (orders (rows (store st'))) = order_key ` set (orders (rows (store st)))"
    by (metis set_map)
  with cancelled show ?thesis by (simp add: rows_advance_def)
qed simp

lemma process_message_advances:
  "process_message E env R L m st = (a, st') \<Longrightarrow> rows_advance (rows (store st)) (rows (store st'))"
  by (auto simp: process_message_def intro: process_checkout_advances process_cancellation_advances
      split: option.splits if_splits)

lemma process_messages_advances:
  "process_messages E env R L ms st = (as, st') \<Longrightarrow> rows_advance (rows (store st)) (rows (store st'))"
proof (induction E env R L ms st arbitrary: "as" rule: process_messages.induct)
  case (3 E env R L m ms st)
  obtain a st1 where m: "process_message E env R L m st = (a, st1)" by (cases "process_message E env R L m st")
  obtain as1 st2 where ms: "process_messages E env R L ms st1 = (as1, st2)"
    by (cases "process_messages E env R L ms st1")
  from 3 m ms show ?case
    using rows_advance_trans [OF process_message_advances [OF m]] by (auto simp: Let_def)
qed auto

section \<open>A concrete worker\<close>

text \<open>
  Schedule 7 with its seat 3, free in the database and locked in Redis by user 1 with both keys, and the
  pending payment request 9 of that user; no faults.
\<close>

definition demo_crates :: crates where
  "demo_crates =
     \<lparr>parse_uuid = (\<lambda>s. map_option word_of_nat (parse_digits s)), show_uuid = (\<lambda>i. dec (uint i)),
      parse_decimal = (\<lambda>s. map_option (\<lambda>n. (n, 0)) (parse_dec s)), paise_of = (\<lambda>b. fst b * 100),
      current_carrier = JObj []\<rparr>"

definition demo_seat :: ScheduleSeat where
  "demo_seat =
     \<lparr>ss_id = 3, ss_schedule_id = 7, ss_seat_index = 1, ss_layout_seat_id = None, ss_source = Base,
      ss_row_letter = ''A'', ss_seat_number = 1, ss_seat_class = Standard, ss_price = (120, 0),
      ss_status = Available, ss_booking_id = None\<rparr>"

definition demo_request :: "Uuid \<Rightarrow> string \<Rightarrow> PaymentRequest" where
  "demo_request i k =
     \<lparr>pr_id = i, pr_idempotency_key = k, pr_user_id = 1, pr_schedule_id = 7, pr_seat_ids = seats_json [3],
      pr_status = ''pending'', pr_booking_id = None, pr_failure_reason = None, pr_created_at = 0, pr_updated_at = 0\<rparr>"

definition demo_tables :: tables where
  "demo_tables =
     \<lparr>users = [\<lparr>us_id = 1, us_email = [], us_password_hash = [], us_role = UserRole_User, us_created_at = 0\<rparr>],
      schedules = [\<lparr>sc_id = 7, sc_mongo_show_id = [], sc_show_type = Movie, sc_layout_id = None, sc_start_time = 0,
        sc_booking_open_at = 0, sc_lifecycle_state = Open, sc_created_at = 0, sc_deleted_at = None,
        sc_venue_name = None, sc_venue_address = None, sc_venue_city = None, sc_venue_state = None,
        sc_date = 0, sc_slot = Evening, sc_end_time = 0\<rparr>],
      schedule_seats = [demo_seat], orders = [], tickets = [], user_audits = [],
      payment_requests = [demo_request 9 ''a''], outbox_events = []\<rparr>"

definition demo_keyspace :: keyspace where
  "demo_keyspace =
     Map.empty(seat_lock_key 7 3 \<mapsto> str_entry (dec 1) (Some 300000),
       seat_user_context_key 7 3 1 \<mapsto> str_entry ''1'' (Some 300000))"

definition demo_worker :: "keyspace worker" where
  "demo_worker =
     \<lparr>cache = \<lparr>nodes = [demo_keyspace], faults = [], published = []\<rparr>,
      store = \<lparr>rows = demo_tables, db_faults = []\<rparr>, refunds = []\<rparr>"

definition demo_checkout :: json where
  "demo_checkout =
     JObj [(''payment_request_id'', JStr ''9''), (''user_id'', JInt 1), (''schedule_id'', JInt 7),
       (''seat_ids'', JArr [JInt 3]), (''amount'', JStr ''120''), (''razorpay_payment_id'', JStr ''pay'')]"

definition demo_order :: Order where
  "demo_order =
     \<lparr>od_id = 5, od_payment_request_id = 9, od_user_id = 1, od_schedule_id = 7, od_seat_ids = seats_json [3],
      od_total_amount = (120, 0), od_razorpay_order_id = [], od_razorpay_payment_id = Some ''pay'',
      od_status = ''completed'', od_created_at = 0, od_updated_at = 0\<rparr>"

lemma demo_crates_simps [simp]:
  "parse_uuid demo_crates ''9'' = Some 9" "parse_uuid demo_crates ''5'' = Some 5"
  "parse_uuid demo_crates [] = None" "parse_decimal demo_crates ''120'' = Some (120, 0)"
  "paise_of demo_crates (120, 0) = 12000"
proof -
  have "parse_digits ''9'' = Some 9" "parse_digits ''5'' = Some 5" "parse_digits [] = None"
    "parse_dec ''120'' = Some 120"
    by code_simp+
  then show "parse_uuid demo_crates ''9'' = Some 9" "parse_uuid demo_crates ''5'' = Some 5"
    "parse_uuid demo_crates [] = None" "parse_decimal demo_crates ''120'' = Some (120, 0)"
    "paise_of demo_crates (120, 0) = 12000"
    by (simp_all add: demo_crates_def)
qed

lemma demo_checkout_fields [simp]:
  "as_str (jget demo_checkout ''payment_request_id'') = Some ''9''"
  "i32_field demo_checkout ''user_id'' = 1" "schedule_field demo_checkout = 7"
  "parse_seat_ids demo_checkout = [3]" "str_field demo_checkout ''amount'' x = ''120''"
  "str_field demo_checkout ''razorpay_order_id'' x = x"
  "as_str (jget demo_checkout ''razorpay_payment_id'') = Some ''pay''"
  by (simp_all add: demo_checkout_def i32_field_def schedule_field_def parse_seat_ids_def str_field_def
      List.map_filter_def as_i32_def in_i64_def)

lemma demo_tables_ok [simp]: "tables_ok demo_tables"
  by (simp add: tables_ok_def keys_ok_def refs_ok_def demo_tables_def demo_request_def demo_seat_def)

lemma demo_validated:
  "validate_locks (single_node_lock mem_redis json_codec 0) 7 1 [3] (cache demo_worker) = (None, cache demo_worker)"
proof -
  have "in_i32 1" by (simp add: in_i32_def)
  then show ?thesis
    by (simp add: demo_worker_def demo_keyspace_def get_lock_owner_def user_holds_lock_def with_pool_def
        pool_for_seat_def node_of_def reading_def redis_reads mem_redis_simps parse_owner_def key_simps str_of_def
        str_entry_def)
qed

definition demo_after :: tables where
  "demo_after =
     demo_tables\<lparr>schedule_seats := [demo_seat\<lparr>ss_status := Booked\<rparr>], orders := [demo_order],
       payment_requests := [(demo_request 9 ''a'')\<lparr>pr_status := ''succeeded''\<rparr>],
       user_audits := [new_audit 0 6 1 ''order_completed'' 5 (120, 0) [3]],
       outbox_events := [order_event demo_crates 0 8 ''OrderCompleted'' 5 1 7 [3] ''120'']\<rparr>"

lemmas demo_defs = demo_tables_def demo_request_def demo_seat_def demo_order_def new_audit_def order_event_def

lemmas db_eval =
  with_conn_def transaction_def checked_def set_seats_def update_rows_def tables_ok_def keys_ok_def refs_ok_def

lemma demo_commit:
  "commit_checkout demo_crates 0 (6, 8)
     \<lparr>cc_order_id = 5, cc_payment_request_id = 9, cc_user_id = 1, cc_schedule_id = 7, cc_seat_ids = [3],
      cc_total_amount = ''120'', cc_razorpay_order_id = [], cc_razorpay_payment_id = Some ''pay''\<rparr>
     (store demo_worker) = (Inr (), \<lparr>rows = demo_after, db_faults = []\<rparr>)"
  by (simp add: commit_checkout_def checkout_stmts_def demo_worker_def demo_after_def db_eval demo_defs
      new_order_def parsed_amount_def)

lemma demo_run:
  "\<exists>st'. process_checkout demo_crates mem_redis (single_node_lock mem_redis json_codec 0) 0 (5, 6, 8)
     demo_checkout demo_worker = (Acked, st') \<and> rows (store st') = demo_after"
proof -
  have "order_exists 9 (store demo_worker) = (False, store demo_worker)"
    by (simp add: order_exists_def demo_worker_def demo_tables_def)
  then show ?thesis
    by (simp add: process_checkout_def finish_checkout_def demo_validated demo_commit Let_def del: validate_locks.simps)
qed

lemma demo_after_simps [simp]:
  "tables_ok demo_after" "orders demo_after = [demo_order]" "od_payment_request_id demo_order = 9"
  "od_id demo_order = 5"
  by (simp_all add: demo_after_def db_eval demo_defs)

lemma demo_worker_rows [simp]: "rows (store demo_worker) = demo_tables" "orders demo_tables = []"
  by (simp_all add: demo_worker_def demo_tables_def)

section \<open>Checkout\<close>

text \<open>
  C4 (at most one order per payment). Whatever messages the worker consumes, in whatever order and with
  whatever redeliveries, lost connections and lost replies, the constraints of the schema keep holding,
  orders never disappear, and no payment request ever has two orders.
\<close>

theorem one_order_per_payment:
  assumes "tables_ok (rows (store st))" "process_messages E env R L ms st = (as, st')"
  shows "tables_ok (rows (store st')) \<and> length (settles p (rows (store st'))) \<le> 1 \<and>
    order_key ` set (orders (rows (store st))) \<subseteq> order_key ` set (orders (rows (store st')))"
proof -
  have ok: "tables_ok (rows (store st'))"
    and keep: "order_key ` set (orders (rows (store st))) \<subseteq> order_key ` set (orders (rows (store st')))"
    using process_messages_advances [OF assms(2)] assms(1) by (auto simp: rows_advance_def)
  from ok keep tables_ok_one_order [OF ok] show ?thesis by blast
qed

theorem one_order_per_payment_witness:
  "let st' = snd (process_messages demo_crates (\<lambda>_. None) mem_redis (single_node_lock mem_redis json_codec)
     [Some \<lparr>dl_payload = Some demo_checkout, dl_now = 0, dl_ids = (5, 6, 8), dl_provider = (\<lambda>_ _. True)\<rparr>] demo_worker)
   in settles 9 (rows (store st')) = [demo_order] \<and> length (settles 9 (rows (store st'))) \<le> 1"
proof -
  obtain st' where st': "process_checkout demo_crates mem_redis (single_node_lock mem_redis json_codec 0) 0 (5, 6, 8)
     demo_checkout demo_worker = (Acked, st')" "rows (store st') = demo_after"
    using demo_run by blast
  have m: "process_messages demo_crates (\<lambda>_. None) mem_redis (single_node_lock mem_redis json_codec)
     [Some \<lparr>dl_payload = Some demo_checkout, dl_now = 0, dl_ids = (5, 6, 8), dl_provider = (\<lambda>_ _. True)\<rparr>] demo_worker
     = ([Acked], st')"
    using st' by (simp add: process_message_def str_field_def demo_checkout_def)
  have "tables_ok (rows (store demo_worker))" by simp
  from one_order_per_payment [OF this m] m st'(2) show ?thesis by (simp add: settles_def)
qed

text \<open>
  (an acknowledged checkout has its order). When the worker acknowledges a checkout message, the order
  of its payment request is in the database: it was there already, or this delivery committed it.
\<close>

theorem acked_checkout_has_order:
  assumes "process_checkout E R L now ids payload st = (Acked, st')"
  shows "\<exists>p. Option.bind (as_str (jget payload ''payment_request_id'')) (parse_uuid E) = Some p \<and>
    settles p (rows (store st')) \<noteq> []"
  using assms
proof (cases rule: process_checkout_cases)
  case (existing p)
  then show ?thesis by (auto simp: settles_def filter_empty_conv)
next
  case (committed p c w1)
  then show ?thesis by (auto simp: settles_def orders_of_stmts new_order_def)
qed simp_all

theorem acked_checkout_has_order_witness:
  "settles 9 (rows (store (snd (process_checkout demo_crates mem_redis (single_node_lock mem_redis json_codec 0) 0
     (5, 6, 8) demo_checkout demo_worker)))) \<noteq> []"
proof -
  obtain st' where st': "process_checkout demo_crates mem_redis (single_node_lock mem_redis json_codec 0) 0 (5, 6, 8)
     demo_checkout demo_worker = (Acked, st')"
    using demo_run by blast
  from acked_checkout_has_order [OF st'] st' show ?thesis by simp
qed

text \<open>
  C5 (only held seats are booked). With the single-node locks, a checkout that changes the orders at all
  was made by a user who, when the message was processed, held the lock of every seat it names and had the
  context key of every one of them; and it names at least one seat.
\<close>

theorem booked_seats_were_held:
  assumes "process_checkout E R (single_node_lock R J n) now ids payload st = (a, st')"
    and "orders (rows (store st')) \<noteq> orders (rows (store st))"
  shows "parse_seat_ids payload \<noteq> [] \<and>
    (\<forall>t \<in> set (parse_seat_ids payload).
       sn_holder R (schedule_field payload) t (cache st) = Some (i32_field payload ''user_id'') \<and>
       sn_ctx R (schedule_field payload) t (i32_field payload ''user_id'') (cache st))"
  using assms(1)
proof (cases rule: process_checkout_cases)
  case (committed p c w1)
  then show ?thesis using sn_reads.validate_locks_sound by blast
qed (use assms(2) in \<open>auto simp: orders_of_stmts\<close>)

theorem booked_seats_were_held_witness:
  "sn_holder mem_redis 7 3 (cache demo_worker) = Some 1 \<and> sn_ctx mem_redis 7 3 1 (cache demo_worker)"
proof -
  obtain st' where st': "process_checkout demo_crates mem_redis (single_node_lock mem_redis json_codec 0) 0 (5, 6, 8)
     demo_checkout demo_worker = (Acked, st')" "rows (store st') = demo_after"
    using demo_run by blast
  have "orders (rows (store st')) \<noteq> orders (rows (store demo_worker))" by (simp add: st'(2))
  from booked_seats_were_held [OF st'(1) this] show ?thesis by simp
qed

lemma update_rows_id: "(\<And>r. r \<in> set rs \<Longrightarrow> \<not> sel r) \<Longrightarrow> update_rows sel f rs = rs"
  by (simp add: update_rows_def map_idI)

text \<open>
  Once a payment request has its order and is marked as succeeded, delivering its checkout message again changes
  no row, even when the look-up of the order fails.
\<close>

lemma checkout_redelivery_rows:
  assumes "Option.bind (as_str (jget payload ''payment_request_id'')) (parse_uuid E) = Some p"
    and "tables_ok (rows (store st))" "settles p (rows (store st)) \<noteq> []"
    and "\<forall>r \<in> set (payment_requests (rows (store st))). pr_id r = p \<longrightarrow> pr_status r = ''succeeded''"
    and "process_checkout E R L now ids payload st = (a, st')"
  shows "rows (store st') = rows (store st)"
  using assms(5)
proof (cases rule: process_checkout_cases)
  case (failed p' reason)
  with assms have "p' = p" by simp
  with assms(4) have "fail_request now p' reason (rows (store st)) = rows (store st)"
    by (simp add: fail_request_def update_rows_id)
  with failed show ?thesis by simp
next
  case (committed p' c w1)
  with assms have "p' = p" by simp
  with assms(3) obtain r where r: "r \<in> set (orders (rows (store st)))" "od_payment_request_id r = p"
    by (auto simp: settles_def filter_empty_conv)
  have "distinct (map od_payment_request_id (orders (rows (store st'))))"
    using committed assms(2) by (auto simp: tables_ok_def keys_ok_def)
  with committed r \<open>p' = p\<close> have False by (force simp: orders_of_stmts new_order_def)
  then show ?thesis ..
qed simp_all


text \<open>
  (no checkout passes the second key). The lock operations that the services call never write the
  context key that the worker demands. So in every state they can reach from empty context keys, whatever
  the faults, processing a checkout message creates no order and books no seat.
\<close>

theorem checkout_never_books:
  assumes "redis_service R" "no_ctx R w0" "service_run R J A w0 (cache st)"
    and "process_checkout E R (single_node_lock R J n) now ids payload st = (a, st')"
  shows "orders (rows (store st')) = orders (rows (store st)) \<and>
    schedule_seats (rows (store st')) = schedule_seats (rows (store st))"
  using assms(4)
proof (cases rule: process_checkout_cases)
  case (committed p c w1)
  then obtain t where "t \<in> set (parse_seat_ids payload)" by (cases "parse_seat_ids payload") auto
  with committed have "sn_ctx R (schedule_field payload) t (i32_field payload ''user_id'') (cache st)"
    using sn_reads.validate_locks_sound by blast
  moreover have "no_ctx R (cache st)" using redis_service.service_run_no_ctx [OF assms(1,3,2)] .
  ultimately show ?thesis by (simp add: no_ctx_def sn_ctx_def)
qed (simp_all add: orders_of_stmts)

theorem checkout_never_books_witness:
  "let w = snd (acquire_distributed_lock mem_redis 7 3 1 300 (fresh_world 1))
   in sn_holder mem_redis 7 3 w = Some 1 \<and>
      orders (rows (store (snd (process_checkout demo_crates mem_redis (single_node_lock mem_redis json_codec 0) 0
        (5, 6, 8) demo_checkout (demo_worker\<lparr>cache := w\<rparr>))))) = []"
proof -
  let ?w = "snd (acquire_distributed_lock mem_redis 7 3 1 300 (fresh_world 1))"
  let ?st = "demo_worker\<lparr>cache := ?w\<rparr>"
  obtain b where b: "acquire_distributed_lock mem_redis 7 3 1 300 (fresh_world 1) = (b, ?w)"
    by (cases "acquire_distributed_lock mem_redis 7 3 1 300 (fresh_world 1)") simp
  have run: "service_run mem_redis json_codec {Some 1} (fresh_world 1) (cache ?st)"
    using run_step [OF run_refl Acquired [OF _ b], of "{Some 1}"] by (simp add: in_i32_def)
  obtain a st' where r: "process_checkout demo_crates mem_redis (single_node_lock mem_redis json_codec 0) 0
      (5, 6, 8) demo_checkout ?st = (a, st')"
    by (cases "process_checkout demo_crates mem_redis (single_node_lock mem_redis json_codec 0) 0
      (5, 6, 8) demo_checkout ?st")
  have "sn_holder mem_redis 7 3 ?w = Some 1"
    by (simp add: acquire_eval sn_holder_def lock_cell_def in_i32_def)
  moreover have "no_ctx mem_redis (fresh_world 1)" by simp
  from checkout_never_books [OF mem.redis_service_axioms this run r] r have
    "orders (rows (store (snd (process_checkout demo_crates mem_redis (single_node_lock mem_redis json_codec 0) 0
        (5, 6, 8) demo_checkout ?st)))) = []" by simp
  ultimately show ?thesis by (simp add: Let_def)
qed

text \<open>
  The booking transaction never looks at the state of the seats. \<open>erase\<close> forgets it, and what a transaction
  answers is a function of the erased tables.
\<close>

definition erase :: "tables \<Rightarrow> tables" where
  "erase T = T\<lparr>schedule_seats := map (\<lambda>r. r\<lparr>ss_status := Available\<rparr>) (schedule_seats T)\<rparr>"

lemma tables_ok_erase: "tables_ok (erase T) = tables_ok T"
  by (simp add: tables_ok_def keys_ok_def refs_ok_def erase_def comp_def)

lemma db_fault_faults:
  "db_faults d = db_faults e \<Longrightarrow>
   fst (db_fault d) = fst (db_fault e) \<and> db_faults (snd (db_fault d)) = db_faults (snd (db_fault e))"
  by (simp add: db_fault_def split: list.split)

definition respects_erase :: "(tables \<Rightarrow> tables) \<Rightarrow> bool" where
  "respects_erase f \<longleftrightarrow> (\<forall>T U. erase T = erase U \<longrightarrow> erase (f T) = erase (f U))"

lemma respects_eraseD: "respects_erase f \<Longrightarrow> erase T = erase U \<Longrightarrow> erase (f T) = erase (f U)"
  unfolding respects_erase_def by iprover

lemma run_stmts_erase:
  assumes "list_all respects_erase sts"
    and "erase (rows d) = erase (rows e)" "db_faults d = db_faults e"
  shows "fst (run_stmts sts d) = fst (run_stmts sts e) \<and>
    db_faults (snd (run_stmts sts d)) = db_faults (snd (run_stmts sts e))"
  using assms
proof (induction sts arbitrary: d e)
  case (Cons f sts)
  obtain x d1 where d1: "db_fault d = (x, d1)" by (cases "db_fault d")
  obtain e1 where e1: "db_fault e = (x, e1)" "db_faults d1 = db_faults e1"
    using db_fault_faults [OF Cons.prems(3)] d1 by (cases "db_fault e") auto
  have "erase (rows d1) = erase (rows e1)"
    using Cons.prems(2) db_faultD [OF d1] db_faultD [OF e1(1)] by simp
  then have f: "erase (f (rows d1)) = erase (f (rows e1))"
    by (rule respects_eraseD [rotated]) (use Cons.prems(1) in simp)
  then have ok: "tables_ok (f (rows d1)) = tables_ok (f (rows e1))" by (metis tables_ok_erase)
  have IH: "fst (run_stmts sts (d1\<lparr>rows := f (rows d1)\<rparr>)) = fst (run_stmts sts (e1\<lparr>rows := f (rows e1)\<rparr>)) \<and>
      db_faults (snd (run_stmts sts (d1\<lparr>rows := f (rows d1)\<rparr>))) =
      db_faults (snd (run_stmts sts (e1\<lparr>rows := f (rows e1)\<rparr>)))"
    by (rule Cons.IH) (use Cons.prems(1) f e1(2) in simp_all)
  show ?case
    by (cases "x = Delivered"; cases "tables_ok (f (rows e1))") (simp_all add: d1 e1 checked_def ok IH)
qed simp

lemma erase_simps:
  "orders (erase T) = orders T" "payment_requests (erase T) = payment_requests T"
  "user_audits (erase T) = user_audits T" "outbox_events (erase T) = outbox_events T"
  "erase (T\<lparr>orders := o'\<rparr>) = (erase T)\<lparr>orders := o'\<rparr>"
  "erase (T\<lparr>payment_requests := p\<rparr>) = (erase T)\<lparr>payment_requests := p\<rparr>"
  "erase (T\<lparr>user_audits := a\<rparr>) = (erase T)\<lparr>user_audits := a\<rparr>"
  "erase (T\<lparr>outbox_events := e\<rparr>) = (erase T)\<lparr>outbox_events := e\<rparr>"
  "erase (set_seats st ts T) = erase T"
  by (simp_all add: erase_def set_seats_def update_rows_def comp_def if_distrib cong: if_cong)

lemma erase_fields:
  assumes "erase T = erase U"
  shows "orders T = orders U" "payment_requests T = payment_requests U"
    "user_audits T = user_audits U" "outbox_events T = outbox_events U"
  using assms by (metis erase_simps)+

lemma checkout_stmts_erase: "list_all respects_erase (checkout_stmts E now ids c)"
  unfolding checkout_stmts_def
  by (auto simp: respects_erase_def erase_simps dest: erase_fields)

lemma transaction_erase:
  assumes "list_all respects_erase sts"
    and "erase (rows d) = erase (rows e)" "db_faults d = db_faults e"
  shows "fst (transaction sts d) = fst (transaction sts e)"
proof -
  let ?d = "snd (db_fault d)" and ?e = "snd (db_fault e)"
  have f: "fst (db_fault d) = fst (db_fault e)" "db_faults ?d = db_faults ?e"
    using db_fault_faults [OF assms(3)] by simp_all
  from run_stmts_erase [OF assms(1) _ f(2)] assms(2)
  have r: "fst (run_stmts sts ?d) = fst (run_stmts sts ?e)"
    "db_faults (snd (run_stmts sts ?d)) = db_faults (snd (run_stmts sts ?e))" by auto
  then have "fst (db_fault (snd (run_stmts sts ?d))) = fst (db_fault (snd (run_stmts sts ?e)))"
    using db_fault_faults by blast
  with f r show ?thesis
    by (cases "db_fault d"; cases "db_fault e"; cases "run_stmts sts ?d"; cases "run_stmts sts ?e")
      (auto simp: transaction_def split: sum.splits prod.splits)
qed

text \<open>
  (booked seats can be booked again). The answer of the booking transaction does not depend on the state of
  the seats it books: it succeeds on seats that are already booked exactly when it would on free ones, so
  the database does not keep two payment requests from booking the same seat.
\<close>

theorem booking_ignores_seat_status:
  "fst (commit_checkout E now ids c (d\<lparr>rows := set_seats st ts (rows d)\<rparr>)) = fst (commit_checkout E now ids c d)"
proof -
  let ?e = "d\<lparr>rows := set_seats st ts (rows d)\<rparr>"
  have e: "erase (rows ?e) = erase (rows d)" "db_faults ?e = db_faults d"
    by (simp_all add: erase_simps)
  have g: "fst (db_get ?e) = fst (db_get d)" "db_faults (snd (db_get ?e)) = db_faults (snd (db_get d))"
    "rows (snd (db_get ?e)) = rows ?e" "rows (snd (db_get d)) = rows d"
    by (auto simp: db_get_def db_fault_def split: list.split)
  with transaction_erase [OF checkout_stmts_erase, of "snd (db_get ?e)" "snd (db_get d)"] e show ?thesis
    by (cases "db_get ?e"; cases "db_get d") (auto simp: commit_checkout_def with_conn_def)
qed


section \<open>Cancellation\<close>

definition demo_cancellation :: json where
  "demo_cancellation =
     JObj [(''request_type'', JStr ''cancellation''), (''order_id'', JStr ''5''), (''user_id'', JInt 1),
       (''schedule_id'', JInt 7), (''seat_ids'', JArr [JInt 3]), (''amount'', JStr ''120''),
       (''razorpay_payment_id'', JStr ''pay'')]"

definition demo_booked :: "keyspace worker" where
  "demo_booked =
     \<lparr>cache = \<lparr>nodes = [Map.empty(schedule_seat_bitmap 7 \<mapsto> \<lparr>rvalue = RBits [2], rttl = None\<rparr>)], faults = [],
        published = []\<rparr>, store = \<lparr>rows = demo_after, db_faults = []\<rparr>, refunds = []\<rparr>"

lemma demo_cancellation_fields [simp]:
  "str_field demo_cancellation ''order_id'' x = ''5''" "i32_field demo_cancellation ''user_id'' = 1"
  "i32_field demo_cancellation ''schedule_id'' = 7" "parse_seat_ids demo_cancellation = [3]"
  "str_field demo_cancellation ''amount'' x = ''120''"
  "as_str (jget demo_cancellation ''razorpay_payment_id'') = Some ''pay''"
  by (simp_all add: demo_cancellation_def i32_field_def parse_seat_ids_def str_field_def List.map_filter_def
      as_i32_def in_i64_def)

lemma demo_cancelled:
  "\<exists>st'. process_cancellation demo_crates (\<lambda>_. None) (\<lambda>_ _. True) mem_redis 0 (16, 18) demo_cancellation demo_booked
     = (Acked, st')"
  by (simp add: process_cancellation_def process_razorpay_refund_def commit_cancellation_def cancellation_stmts_def
      demo_booked_def demo_after_def db_eval demo_defs parsed_amount_def Let_def)

text \<open>
  (what an acknowledged cancellation did). When a cancellation is acknowledged, every seat it names is
  available again in the database, its order is refunded, its tickets are cancelled, and an unpublished
  event for the notification service is in the outbox.
\<close>

theorem acked_cancellation_effects:
  assumes "process_cancellation E env api R now ids payload st = (Acked, st')"
  shows "\<exists>oid. parse_uuid E (str_field payload ''order_id'' []) = Some oid \<and>
    (\<forall>r \<in> set (schedule_seats (rows (store st'))). ss_id r \<in> set (parse_seat_ids payload) \<longrightarrow> ss_status r = Available) \<and>
    (\<forall>r \<in> set (orders (rows (store st'))). od_id r = oid \<longrightarrow> od_status r = ''refunded'') \<and>
    (\<forall>r \<in> set (tickets (rows (store st'))). tk_order_id r = oid \<longrightarrow> tk_status r = ''cancelled'') \<and>
    (\<exists>e \<in> set (outbox_events (rows (store st'))). oe_event_type e = ''TicketCancelled'' \<and> oe_aggregate_id e = oid \<and>
       oe_published_at e = None)"
  using assms
proof (cases rule: process_cancellation_rows)
  case (cancelled oid c)
  then show ?thesis
    by (intro exI [of _ oid])
      (auto simp: cancellation_stmts_def set_seats_def update_rows_def order_event_def)
qed simp

theorem acked_cancellation_effects_witness:
  "let st' = snd (process_cancellation demo_crates (\<lambda>_. None) (\<lambda>_ _. True) mem_redis 0 (16, 18) demo_cancellation
     demo_booked)
   in \<exists>e \<in> set (outbox_events (rows (store st'))). oe_event_type e = ''TicketCancelled'' \<and> oe_aggregate_id e = 5"
proof -
  obtain st' where r: "process_cancellation demo_crates (\<lambda>_. None) (\<lambda>_ _. True) mem_redis 0 (16, 18) demo_cancellation
     demo_booked = (Acked, st')"
    using demo_cancelled by blast
  from acked_cancellation_effects [OF r] show ?thesis unfolding r Let_def snd_conv by auto
qed

lemma nodes_publish_room_json [simp]: "nodes (publish_room_json s msg w) = nodes w"
  using nodes_pool_get [of w] by (cases "pool_get w") (simp add: publish_room_json_def)

context redis_service
begin

lemma adjust_keeps_bitmap:
  "look R (nodes (adjust_cached_available_seats R s delta w) ! i) (schedule_seat_bitmap s') =
   look R (nodes w ! i) (schedule_seat_bitmap s')"
proof -
  let ?sc = "adjust_script R (cache_schedule_available_seats_key s) delta"
  obtain ok w1 where w1: "pool_get w = (ok, w1)" by (cases "pool_get w")
  obtain res w2 where w2: "send 0 ?sc w1 = (res, w2)" by (cases "send 0 ?sc w1")
  have k: "look R (snd (?sc r)) (schedule_seat_bitmap s') = look R r (schedule_seat_bitmap s')" for r
    by (simp add: adjust_script_def key_defs)
  have "look R (nodes w2 ! i) (schedule_seat_bitmap s') = look R (nodes w1 ! i) (schedule_seat_bitmap s')"
    by (rule send_pres [OF w2], simp)
      (cases "nodes w1 = []"; auto simp: nth_list_update k)
  with pool_getD [OF w1] show ?thesis by (simp add: adjust_cached_available_seats_def w1 w2)
qed

end

text \<open>
  (a cancelled seat stays booked in the bitmap). The cancellation never touches the seat bitmap on any
  server: a seat whose bits say booked before the cancellation still says booked afterwards, although the
  database has it available again.
\<close>

theorem cancelled_seat_stays_booked:
  assumes "redis_service R" "process_cancellation E env api R now ids payload st = (a, st')"
  shows "GETBITS R (schedule_seat_bitmap s) (nodes (cache st') ! i) =
    GETBITS R (schedule_seat_bitmap s) (nodes (cache st) ! i)"
  using assms(2)
  by (auto simp: process_cancellation_def GETBITS_def Let_def redis_service.adjust_keeps_bitmap [OF assms(1)]
      split: option.splits prod.splits sum.splits if_splits)

theorem cancelled_seat_stays_booked_witness:
  "let st' = snd (process_cancellation demo_crates (\<lambda>_. None) (\<lambda>_ _. True) mem_redis 0 (16, 18) demo_cancellation
     demo_booked)
   in bf_get (bit_offset 3) (GETBITS mem_redis (schedule_seat_bitmap 7) (nodes (cache st') ! 0)) = 2"
proof -
  obtain a st' where r: "process_cancellation demo_crates (\<lambda>_. None) (\<lambda>_ _. True) mem_redis 0 (16, 18) demo_cancellation
     demo_booked = (a, st')"
    using demo_cancelled by blast
  have "GETBITS mem_redis (schedule_seat_bitmap 7) (nodes (cache st') ! 0) = [2]"
    unfolding cancelled_seat_stays_booked [OF mem.redis_service_axioms r]
    by (simp add: demo_booked_def GETBITS_def bits_of_def mem_redis_simps)
  moreover have "bf_get (bit_offset 3) [2] = 2" by code_simp
  ultimately show ?thesis unfolding r by simp
qed

text \<open>
  (every delivery of a cancellation refunds). With the provider configured, each time a cancellation with a
  payment is processed a refund request goes out, whatever the order's state: a message delivered twice,
  or an order already refunded, is refunded again.
\<close>

theorem every_cancellation_refunds:
  assumes "env ''APP_MODE'' \<noteq> Some ''test''" "env ''RAZORPAY_KEY_ID'' = Some k" "k \<noteq> []"
    and "env ''RAZORPAY_KEY_SECRET'' \<noteq> None"
    and "parse_uuid E (str_field payload ''order_id'' []) \<noteq> None"
    and "as_str (jget payload ''razorpay_payment_id'') = Some pid"
  shows "refunds (snd (process_cancellation E env api R now ids payload st)) =
    (pid, paise_of E (parsed_amount E (str_field payload ''amount'' ''0''))) # refunds st"
  using assms
  by (auto simp: process_cancellation_def process_razorpay_refund_def Let_def split: option.splits prod.splits sum.splits)

theorem every_cancellation_refunds_witness:
  "let env = (\<lambda>_. Some ''live'');
       run = process_cancellation demo_crates env (\<lambda>_ _. True) mem_redis 0 (16, 18) demo_cancellation
   in refunds (snd (run (snd (run demo_booked)))) = [(''pay'', 12000), (''pay'', 12000)]"
  using every_cancellation_refunds
    [of "\<lambda>_. Some ''live''" "''live''" demo_crates demo_cancellation "''pay''" "\<lambda>_ _. True" mem_redis]
  by (simp add: parsed_amount_def demo_booked_def Let_def)

end
