(* ===== verification/Payments_Api_Props.thy ===== *)
theory Payments_Api_Props
  imports Payments_Api Payment_Props "HOL-Library.Multiset"
begin

text \<open>
  Properties of the payment handlers: a new payment request is justified by locks, prices and free seats, it is
  written with its event or not at all, a repeated request changes nothing, the checkout keys admit one payer per
  seat, and an order is cancelled at most once.
\<close>

section \<open>The checks\<close>

lemma sort_eq_iff_mset: "sort xs = sort ys \<longleftrightarrow> mset xs = mset ys" for xs ys :: "int list"
  by (metis mset_sort properties_for_sort sorted_sort)

lemma holds_all_read:
  assumes "holds_all R s u ts w = (b, w')"
  shows "nodes w' = nodes w" and "b \<Longrightarrow> \<forall>t \<in> set ts. sn_ctx R s t u w"
proof -
  have "nodes w' = nodes w \<and> (b \<longrightarrow> (\<forall>t \<in> set ts. sn_ctx R s t u w))"
    using assms
  proof (induction ts arbitrary: w)
    case (Cons t ts)
    obtain ok w1 where h: "user_holds_lock R s t u w = (ok, w1)" by (cases "user_holds_lock R s t u w")
    note r = user_holds_lock_read [OF h]
    show ?case
    proof (cases ok)
      case True
      with Cons h have "nodes w' = nodes w1 \<and> (b \<longrightarrow> (\<forall>t \<in> set ts. sn_ctx R s t u w1))" by simp
      with True r show ?thesis by (simp add: sn_ctx_def)
    qed (use Cons h r in auto)
  qed simp
  then show "nodes w' = nodes w" "b \<Longrightarrow> \<forall>t \<in> set ts. sn_ctx R s t u w" by auto
qed

lemma existing_paymentD:
  "existing_payment u k T = Some r \<Longrightarrow> r \<in> set (payment_requests T) \<and> pr_user_id r = u \<and> pr_idempotency_key r = k"
  by (auto simp: existing_payment_def filter_eq_Cons_iff split: list.splits)

lemma existing_payment_None:
  "existing_payment u k T = None \<longleftrightarrow>
   (\<forall>r \<in> set (payment_requests T). \<not> (pr_idempotency_key r = k \<and> pr_user_id r = u))"
  using filter_empty_conv [of "\<lambda>r. pr_idempotency_key r = k \<and> pr_user_id r = u" "payment_requests T"]
  by (cases "filter (\<lambda>r. pr_idempotency_key r = k \<and> pr_user_id r = u) (payment_requests T)")
    (simp_all add: existing_payment_def, blast?)

text \<open>Chosen seats as many as asked for: they are pairwise different and all belong to the schedule.\<close>

lemma chosen_seats_all:
  assumes "tables_ok T" "length (chosen_seats s ts T) = length ts"
  shows "distinct ts \<and> ss_id ` set (chosen_seats s ts T) = set ts"
proof -
  let ?ids = "map ss_id (chosen_seats s ts T)"
  have d: "distinct ?ids"
    using assms(1) by (simp add: tables_ok_def keys_ok_def chosen_seats_def distinct_map_filter)
  have sub: "set ?ids \<subseteq> set ts" by (auto simp: chosen_seats_def)
  have "length ts = card (set ?ids)" using assms(2) distinct_card [OF d] by simp
  then have "card (set ts) \<le> card (set ?ids)" using card_length [of ts] by simp
  then have eq: "set ?ids = set ts" by (rule card_seteq [OF finite_set sub])
  with \<open>length ts = card (set ?ids)\<close> have "card (set ts) = length ts" by simp
  then show ?thesis using eq by (simp add: card_distinct)
qed

definition payable :: "pay_crates \<Rightarrow> env \<Rightarrow> 'r redis \<Rightarrow> user_id \<Rightarrow> PaymentBody \<Rightarrow> 'r http \<Rightarrow> bool" where
  "payable N env R u req st \<longleftrightarrow>
     rq_seat_ids req \<noteq> [] \<and> check_signature N env req = Inr () \<and>
     (\<forall>t \<in> set (rq_seat_ids req). sn_ctx R (rq_schedule_id req) t u (hs_cache st)) \<and>
     length (chosen_seats (rq_schedule_id req) (rq_seat_ids req) (rows (hs_db st))) = length (rq_seat_ids req) \<and>
     (\<forall>r \<in> set (chosen_seats (rq_schedule_id req) (rq_seat_ids req) (rows (hs_db st))). ss_status r \<noteq> Booked)"

definition charge :: "pay_crates \<Rightarrow> PaymentBody \<Rightarrow> tables \<Rightarrow> BigDecimal" where
  "charge N req T = total_amount N (map ss_price (chosen_seats (rq_schedule_id req) (rq_seat_ids req) T))"

lemma check_payment_cases:
  assumes "check_payment N env R secret headers req st = (res, st1)"
  obtains (refused) e where "res = Inl e" "rows (hs_db st1) = rows (hs_db st)"
        "nodes (hs_cache st1) = nodes (hs_cache st)"
    | (existing) u r where "res = Inr (u, Inl r)" "authenticated_user N headers secret = Inr u"
        "existing_payment u (rq_key req) (rows (hs_db st)) = Some r" "match_existing req r = Inr ()"
        "rows (hs_db st1) = rows (hs_db st)" "hs_cache st1 = hs_cache st"
    | (fresh) u where "res = Inr (u, Inr (charge N req (rows (hs_db st))))"
        "authenticated_user N headers secret = Inr u"
        "existing_payment u (rq_key req) (rows (hs_db st)) = None" "payable N env R u req st"
        "rows (hs_db st1) = rows (hs_db st)" "nodes (hs_cache st1) = nodes (hs_cache st)"
proof -
  let ?s = "rq_schedule_id req" and ?ts = "rq_seat_ids req" and ?T = "rows (hs_db st)"
  show thesis
  proof (cases "authenticated_user N headers secret")
    case (Inl e)
    with assms show thesis by (intro refused) (auto simp: check_payment_def)
  next
    case u: (Inr u)
    show thesis
    proof (cases "?ts = [] \<or> trim (rq_key req) = [] \<or> 128 < length (rq_key req) \<or> check_signature N env req \<noteq> Inr ()")
      case True
      with assms u show thesis
        by (intro refused [of "projl res"]) (auto simp: check_payment_def split: sum.splits if_splits)
    next
      case ok: False
      obtain b d1 where g: "db_get (hs_db st) = (b, d1)" by (cases "db_get (hs_db st)")
      obtain ex d2 where q: "query (existing_payment u (rq_key req)) d1 = (ex, d2)"
        by (cases "query (existing_payment u (rq_key req)) d1")
      obtain h w where h: "holds_all R ?s u ?ts (hs_cache st) = (h, w)" by (cases "holds_all R ?s u ?ts (hs_cache st)")
      obtain seats d3 where s: "query (chosen_seats ?s ?ts) d2 = (seats, d3)" by (cases "query (chosen_seats ?s ?ts) d2")
      note eqs = u ok g q h s
      have r: "rows d1 = ?T" "rows d2 = ?T" "rows d3 = ?T"
        using db_getD [OF g] queryD [OF q] queryD [OF s] by simp_all
      consider (down) "\<not> b" | (lost) b "ex = None" | (found) r where b "ex = Some (Some r)"
        | (new) b "ex = Some None" by (cases b; cases ex; cases "the ex") auto
      then show thesis
      proof cases
        case down
        with assms eqs r show thesis
          by (intro refused [of Internal]) (auto simp: check_payment_def)
      next
        case lost
        with assms eqs r show thesis
          by (intro refused [of Internal]) (auto simp: check_payment_def)
      next
        case (found x)
        then have x: "existing_payment u (rq_key req) ?T = Some x" using queryD [OF q] r by simp
        show thesis
        proof (cases "match_existing req x")
          case (Inl e)
          with assms eqs r found show thesis by (intro refused [of e]) (auto simp: check_payment_def)
        next
          case (Inr v)
          with assms eqs r found x show thesis by (intro existing [of u x]) (auto simp: check_payment_def)
        qed
      next
        case new
        then have none: "existing_payment u (rq_key req) ?T = None" using queryD [OF q] r by simp
        show thesis
        proof (cases "h \<and> seats \<noteq> None \<and> length (the seats) = length ?ts \<and> filter (\<lambda>r. ss_status r = Booked) (the seats) = []")
          case True
          then have c: "seats = Some (chosen_seats ?s ?ts ?T)" using queryD [OF s] r by auto
          then have "payable N env R u req st"
            using True ok holds_all_read(2) [OF h] by (auto simp: payable_def filter_empty_conv)
          moreover have "res = Inr (u, Inr (charge N req ?T))" "st1 = st\<lparr>hs_db := d3, hs_cache := w\<rparr>"
            using assms eqs new True c by (auto simp: check_payment_def charge_def split: list.splits)
          ultimately show thesis
            using fresh u none r holds_all_read(1) [OF h] by simp
        next
          case False
          have "rows (hs_db st1) = ?T \<and> nodes (hs_cache st1) = nodes (hs_cache st) \<and> (\<exists>e. res = Inl e)"
            using assms eqs r new False holds_all_read(1) [OF h]
            by (cases h; cases seats) (auto simp: check_payment_def split: list.splits if_splits)
          then show thesis using refused by blast
        qed
      qed
    qed
  qed
qed

section \<open>The checkout keys\<close>

context redis_service
begin

lemma claim_step:
  assumes "send 0 (SETNXPX R k owner 300000) w = (Some b, w1)" "nodes w \<noteq> []"
  shows "nodes w1 \<noteq> []"
    and "b \<longleftrightarrow> look R (nodes w ! 0) k = None"
    and "look R (nodes w1 ! 0) = (look R (nodes w ! 0))(k := if b then Some (str_entry owner (Some 300000)) else look R (nodes w ! 0) k)"
  using send_Some [OF assms(1)] assms(2) by (auto simp: SETNXPX_def EXISTS_def split: if_splits)

text \<open>A claim that goes through finds every key free or its own, and leaves every key its own.\<close>

lemma claim_checkout_owned:
  assumes "claim_checkout R owner ks created w = (Inr created', w')" "nodes w \<noteq> []"
  shows "nodes w' \<noteq> [] \<and>
    (\<forall>k. GET R k (nodes w ! 0) = Some owner \<longrightarrow> GET R k (nodes w' ! 0) = Some owner) \<and>
    (\<forall>k \<in> set ks. GET R k (nodes w' ! 0) = Some owner \<and> (look R (nodes w ! 0) k = None \<or> GET R k (nodes w ! 0) = Some owner))"
  using assms
proof (induction ks arbitrary: created w)
  case (Cons k ks)
  obtain b w1 where s: "send 0 (SETNXPX R k owner 300000) w = (Some b, w1)"
    using Cons.prems(1) by (cases "send 0 (SETNXPX R k owner 300000) w"; cases "fst (send 0 (SETNXPX R k owner 300000) w)") auto
  note c = claim_step [OF s Cons.prems(2)]
  obtain created2 w2 where r: "claim_checkout R owner ks created2 w2 = (Inr created', w')"
      and n: "nodes w2 = nodes w1" and own: "\<not> b \<longrightarrow> GET R k (nodes w1 ! 0) = Some owner"
  proof (cases b)
    case True
    then show thesis using Cons.prems(1) s that [of "created @ [k]" w1] by simp
  next
    case False
    obtain cur w2 where g: "send 0 (reading (GET R k)) w1 = (cur, w2)" by (cases "send 0 (reading (GET R k)) w1")
    from False Cons.prems(1) s g have "cur = Some (Some owner)" "claim_checkout R owner ks created w2 = (Inr created', w')"
      by (auto split: option.splits if_splits)
    with send_reading [OF g] that [of created w2] show thesis by simp
  qed
  have ih: "nodes w' \<noteq> []"
    "\<And>x. GET R x (nodes w1 ! 0) = Some owner \<Longrightarrow> GET R x (nodes w' ! 0) = Some owner"
    "\<And>x. x \<in> set ks \<Longrightarrow> GET R x (nodes w' ! 0) = Some owner \<and>
      (look R (nodes w1 ! 0) x = None \<or> GET R x (nodes w1 ! 0) = Some owner)"
    using Cons.IH [OF r] c(1) n by auto
  have k: "GET R k (nodes w1 ! 0) = Some owner" using c own by (cases b) (simp_all add: GET_def str_of_def str_entry_def)
  have other: "look R (nodes w1 ! 0) x = look R (nodes w ! 0) x" if "x \<noteq> k" for x using c(3) that by simp
  have keep: "GET R x (nodes w1 ! 0) = Some owner" if "GET R x (nodes w ! 0) = Some owner" for x
    using that other [of x] k by (cases "x = k") (simp_all add: GET_def)
  have kk: "look R (nodes w ! 0) k = None \<or> GET R k (nodes w ! 0) = Some owner"
    using c own by (cases b) (simp_all add: GET_def)
  show ?case
  proof (intro conjI ballI allI impI ih(1))
    show "GET R x (nodes w' ! 0) = Some owner" if "GET R x (nodes w ! 0) = Some owner" for x
      using ih(2) keep [OF that] .
  next
    fix x assume "x \<in> set (k # ks)"
    then show "GET R x (nodes w' ! 0) = Some owner" using ih(2) [OF k] ih(3) by auto
    show "look R (nodes w ! 0) x = None \<or> GET R x (nodes w ! 0) = Some owner"
    proof (cases "x = k")
      case False
      with \<open>x \<in> set (k # ks)\<close> ih(3) [of x] other [OF False] show ?thesis by (simp add: GET_def)
    qed (use kk in simp)
  qed
qed simp

end

section \<open>The transaction of a request\<close>

lemma commit_request_cases:
  assumes "commit_request E R now ids u req amount created st = (res, st')"
  obtains (same) "rows (hs_db st') = rows (hs_db st)"
        "\<And>acc. res = Inr acc \<Longrightarrow> \<exists>r. existing_payment u (rq_key req) (rows (hs_db st)) = Some r \<and>
            match_existing req r = Inr () \<and> acc = \<lparr>pa_request_id = show_uuid E (pr_id r), pa_status = ''pending''\<rparr>"
    | (added) "existing_payment u (rq_key req) (rows (hs_db st)) = None"
        "rows (hs_db st') = run_all (request_stmts E now ids u req amount (rows (hs_db st))) (rows (hs_db st))"
        "tables_ok (rows (hs_db st)) \<longrightarrow> tables_ok (rows (hs_db st'))"
        "\<And>acc. res = Inr acc \<Longrightarrow> acc = \<lparr>pa_request_id = show_uuid E (fst ids), pa_status = ''pending''\<rparr> \<and>
            hs_cache st' = hs_cache st"
proof -
  let ?T = "rows (hs_db st)"
  obtain tr d1 where t: "transaction (request_stmts E now ids u req amount ?T) (hs_db st) = (tr, d1)"
    by (cases "transaction (request_stmts E now ids u req amount ?T) (hs_db st)")
  show thesis
  proof (cases "existing_payment u (rq_key req) ?T")
    case None
    with assms t have st': "hs_db st' = d1"
        and acc: "\<And>acc. res = Inr acc \<Longrightarrow> (\<exists>x. tr = Inr x) \<and> acc = \<lparr>pa_request_id = show_uuid E (fst ids), pa_status = ''pending''\<rparr> \<and>
            hs_cache st' = hs_cache st"
      by (auto simp: commit_request_def split: sum.splits)
    from t show thesis
    proof (cases rule: transaction_cases)
      case (rolled_back e)
      with acc st' show thesis by (intro same) auto
    next
      case committed
      with acc st' None show thesis by (intro added) auto
    qed
  next
    case (Some r)
    have d1: "rows d1 = ?T"
      using t by (cases rule: transaction_cases) (simp_all add: request_stmts_def Some)
    obtain ex d2 where q: "query (existing_payment u (rq_key req)) d1 = (ex, d2)"
      by (cases "query (existing_payment u (rq_key req)) d1")
    show thesis
    proof (rule same)
      show "rows (hs_db st') = ?T"
        using assms t q d1 Some queryD [OF q]
        by (cases tr; cases ex; cases "the ex") (auto simp: commit_request_def)
      fix acc assume "res = Inr acc"
      then show "\<exists>r. existing_payment u (rq_key req) ?T = Some r \<and> match_existing req r = Inr () \<and>
          acc = \<lparr>pa_request_id = show_uuid E (pr_id r), pa_status = ''pending''\<rparr>"
        using assms t q d1 Some queryD [OF q]
        by (cases tr; cases "match_existing req r") (auto simp: commit_request_def split: sum.splits)
    qed
  qed
qed

section \<open>The handler\<close>

lemma request_payment_cases:
  assumes "request_payment E N env R secret others now ids headers req st = (res, st')"
  obtains (refused) e where "res = Inl e" "rows (hs_db st') = rows (hs_db st)"
    | (replayed) u r where "authenticated_user N headers secret = Inr u"
        "existing_payment u (rq_key req) (rows (hs_db st)) = Some r" "match_existing req r = Inr ()"
        "res = Inr \<lparr>pa_request_id = show_uuid E (pr_id r), pa_status = pr_status r\<rparr>"
        "rows (hs_db st') = rows (hs_db st)" "hs_cache st' = hs_cache st"
    | (fresh) u st1 where "authenticated_user N headers secret = Inr u"
        "existing_payment u (rq_key req) (rows (hs_db st)) = None" "payable N env R u req st"
        "rows (hs_db st1) = rows (hs_db st)" "nodes (hs_cache st1) = nodes (hs_cache st)"
        "(\<exists>e. res = Inl e) \<and> rows (hs_db st') = rows (hs_db (others 0 st1)) \<or>
         (\<exists>w w1 created. nodes w = nodes (hs_cache (others 0 st1)) \<and>
            claim_checkout R (checkout_owner u (rq_key req))
              (map (seat_checkout_key (rq_schedule_id req)) (rq_seat_ids req)) [] w = (Inr created, w1) \<and>
            commit_request E R now ids u req (bd_show N (charge N req (rows (hs_db st)))) created
              (others 1 ((others 0 st1)\<lparr>hs_cache := w1\<rparr>)) = (res, st'))"
proof -
  obtain r st1 where c: "check_payment N env R secret headers req st = (r, st1)"
    by (cases "check_payment N env R secret headers req st")
  from c show thesis
  proof (cases rule: check_payment_cases)
    case (refused e)
    with assms c show thesis by (intro that(1)) (auto simp: request_payment_def)
  next
    case (existing u r)
    with assms c show thesis by (intro that(2)) (auto simp: request_payment_def)
  next
    case (fresh u)
    let ?st = "others 0 st1"
    obtain ok w where g: "pool_get (hs_cache ?st) = (ok, w)" by (cases "pool_get (hs_cache ?st)")
    obtain cl w1 where cl: "claim_checkout R (checkout_owner u (rq_key req))
        (map (seat_checkout_key (rq_schedule_id req)) (rq_seat_ids req)) [] w = (cl, w1)"
      by (metis surj_pair)
    show thesis
    proof (cases "ok \<and> (\<exists>created. cl = Inr created)")
      case True
      then obtain created where "cl = Inr created" by blast
      with True assms c fresh g cl pool_getD [OF g] show thesis
        by (intro that(3) [of u st1]) (auto simp: request_payment_def Let_def)
    next
      case False
      with assms c fresh g cl show thesis
        by (intro that(3) [of u st1]) (auto simp: request_payment_def Let_def split: sum.splits if_splits)
    qed
  qed
qed

lemma match_existingD:
  "match_existing req r = Inr () \<Longrightarrow>
   pr_schedule_id r = rq_schedule_id req \<and>
   (\<exists>ts. de_ids (pr_seat_ids r) = Some ts \<and> mset ts = mset (rq_seat_ids req))"
  by (auto simp: match_existing_def same_payment_intent_def sort_eq_iff_mset split: option.splits if_splits)

lemma de_ids_seats_json: "list_all in_i32 ts \<Longrightarrow> de_ids (seats_json ts) = Some ts"
  by (induction ts) (auto simp: de_ids_def seats_json_def)

text \<open>Every payment request has its event in the outbox.\<close>

definition announced :: "tables \<Rightarrow> bool" where
  "announced T \<longleftrightarrow>
     (\<forall>r \<in> set (payment_requests T). \<exists>e \<in> set (outbox_events T).
        oe_event_type e = ''payment.requested'' \<and> oe_aggregate_id e = pr_id r)"

lemma announced_request_stmts:
  "announced T \<Longrightarrow> announced (run_all (request_stmts E now ids u req amount T) T)"
  by (auto simp: announced_def request_stmts_def new_request_def payment_event_def)

definition http_keeps :: "(tables \<Rightarrow> bool) \<Rightarrow> ('r http \<Rightarrow> 'r http) \<Rightarrow> bool" where
  "http_keeps P f \<longleftrightarrow> (\<forall>x. P (rows (hs_db x)) \<longrightarrow> P (rows (hs_db (f x))))"

lemma checkout_owner_inject:
  assumes "checkout_owner u k = checkout_owner u' k'"
  shows "u = u' \<and> k = k'"
  using assms unfolding checkout_owner_def by (simp add: dec_sep_inject)

section \<open>Properties\<close>

text \<open>
  (payment intents). Two lists of seats are the same payment intent exactly when they are the same collection
  of seats of the same schedule, whatever their order.
\<close>

theorem same_intent_is_multiset:
  "same_payment_intent s ts s' ts' \<longleftrightarrow> s = s' \<and> mset ts = mset ts'"
  by (simp add: same_payment_intent_def sort_eq_iff_mset)

text \<open>
  C32 (an accepted payment is on record). Whatever other requests do meanwhile, an accepted request has a row of
  its user and key for the same schedule and the same seats, whose id is the one answered; and if every earlier
  request has its event in the outbox, so has this one.
\<close>

theorem accepted_payment_recorded:
  assumes "request_payment E N env R secret others now ids headers req st = (Inr acc, st')"
    and "list_all in_i32 (rq_seat_ids req)" "announced (rows (hs_db st))"
    and "http_keeps announced (others 0)" "http_keeps announced (others 1)"
  shows "\<exists>u r ts. authenticated_user N headers secret = Inr u \<and> r \<in> set (payment_requests (rows (hs_db st'))) \<and>
    pr_user_id r = u \<and> pr_idempotency_key r = rq_key req \<and> pr_schedule_id r = rq_schedule_id req \<and>
    de_ids (pr_seat_ids r) = Some ts \<and> mset ts = mset (rq_seat_ids req) \<and>
    pa_request_id acc = show_uuid E (pr_id r) \<and>
    (\<exists>e \<in> set (outbox_events (rows (hs_db st'))). oe_event_type e = ''payment.requested'' \<and> oe_aggregate_id e = pr_id r)"
proof -
  have row: ?thesis
    if "authenticated_user N headers secret = Inr u" "existing_payment u (rq_key req) (rows (hs_db st')) = Some r"
      "match_existing req r = Inr ()" "pa_request_id acc = show_uuid E (pr_id r)" "announced (rows (hs_db st'))" for u r
    using that existing_paymentD [OF that(2)] match_existingD [OF that(3)] by (auto simp: announced_def)
  from assms(1) show ?thesis
  proof (cases rule: request_payment_cases)
    case (replayed u r)
    with row [of u r] assms(3) show ?thesis by simp
  next
    case (fresh u st1)
    then obtain w w1 created where c: "commit_request E R now ids u req (bd_show N (charge N req (rows (hs_db st)))) created
        (others 1 ((others 0 st1)\<lparr>hs_cache := w1\<rparr>)) = (Inr acc, st')"
      by blast
    have "announced (rows (hs_db (others 0 st1)))" using assms(3,4) fresh by (simp add: http_keeps_def)
    then have a: "announced (rows (hs_db (others 1 ((others 0 st1)\<lparr>hs_cache := w1\<rparr>))))"
      using assms(5) by (simp add: http_keeps_def)
    from c show ?thesis
    proof (cases rule: commit_request_cases)
      case same
      then show ?thesis using row fresh(1) a by fastforce
    next
      case added
      let ?r = "new_request now (fst ids) u req"
      have "?r \<in> set (payment_requests (rows (hs_db st')))" using added(1,2) by (simp add: request_stmts_def)
      moreover have "announced (rows (hs_db st'))" using announced_request_stmts [OF a] added(2) by simp
      ultimately have "\<exists>e \<in> set (outbox_events (rows (hs_db st'))).
          oe_event_type e = ''payment.requested'' \<and> oe_aggregate_id e = pr_id ?r"
        by (simp only: announced_def)
      with \<open>?r \<in> _\<close> show ?thesis
        using fresh(1) added(4) [OF refl] de_ids_seats_json [OF assms(2)]
        by (intro exI [of _ u] exI [of _ ?r] exI [of _ "rq_seat_ids req"]) (simp add: new_request_def)
    qed
  qed simp
qed

text \<open>
  (a repeated request changes nothing). When the user already has a request under the key, repeating the call
  changes neither the database nor the cache, whatever fails, and an accepted repetition answers with the earlier
  request, which is about the same seats.
\<close>

theorem repeated_payment_harmless:
  assumes "authenticated_user N headers secret = Inr u"
    and "existing_payment u (rq_key req) (rows (hs_db st)) = Some r"
    and "request_payment E N env R secret others now ids headers req st = (res, st')"
  shows "rows (hs_db st') = rows (hs_db st) \<and>
    (\<forall>acc. res = Inr acc \<longrightarrow> acc = \<lparr>pa_request_id = show_uuid E (pr_id r), pa_status = pr_status r\<rparr> \<and>
       hs_cache st' = hs_cache st \<and> pr_schedule_id r = rq_schedule_id req \<and>
       (\<exists>ts. de_ids (pr_seat_ids r) = Some ts \<and> mset ts = mset (rq_seat_ids req)))"
  using assms(3)
proof (cases rule: request_payment_cases)
  case (replayed u' r')
  with assms match_existingD [of req r] show ?thesis by simp
qed (use assms in auto)

lemma payable_seats:
  assumes "payable N env R u req st" "tables_ok (rows (hs_db st))"
  shows "distinct (rq_seat_ids req) \<and>
    (\<forall>t \<in> set (rq_seat_ids req). sn_ctx R (rq_schedule_id req) t u (hs_cache st) \<and>
       (\<exists>r \<in> set (schedule_seats (rows (hs_db st))). ss_id r = t \<and> ss_schedule_id r = rq_schedule_id req \<and>
          ss_status r \<noteq> Booked))"
proof -
  let ?c = "chosen_seats (rq_schedule_id req) (rq_seat_ids req) (rows (hs_db st))"
  from assms have "length ?c = length (rq_seat_ids req)" by (simp add: payable_def)
  with chosen_seats_all [OF assms(2)] have d: "distinct (rq_seat_ids req)" "ss_id ` set ?c = set (rq_seat_ids req)"
    by auto
  have "\<exists>r \<in> set ?c. ss_id r = t" if "t \<in> set (rq_seat_ids req)" for t
    using that d(2) by (metis (no_types, lifting) imageE)
  with d(1) assms(1) show ?thesis by (fastforce simp: payable_def chosen_seats_def)
qed

text \<open>The two ways through the signature check.\<close>

definition passes_unsigned :: "PaymentBody \<Rightarrow> bool" where
  "passes_unsigned req \<longleftrightarrow> rq_order_id req = None \<or> (\<exists>rest. rq_order_id req = Some (''order_mock_'' @ rest))"

lemma strip_prefix_None: "strip_prefix p x = None \<longleftrightarrow> (\<nexists>rest. x = p @ rest)"
  by (auto simp: strip_prefix_def) (metis append_take_drop_id)

definition provider_signed :: "pay_crates \<Rightarrow> env \<Rightarrow> PaymentBody \<Rightarrow> bool" where
  "provider_signed N env req \<longleftrightarrow>
     (\<exists>oid pid. rq_order_id req = Some oid \<and> rq_payment_id req = Some pid \<and>
        rq_signature req = Some (hmac_hex N (or_else (env ''RAZORPAY_KEY_SECRET'') []) (oid @ ''|'' @ pid)))"

lemma check_signature_Inr:
  "check_signature N env req = Inr () \<longleftrightarrow> passes_unsigned req \<or> provider_signed N env req"
  by (auto simp: check_signature_def passes_unsigned_def provider_signed_def strip_prefix_None or_else_def Let_def
      split: option.splits)

text \<open>
  C31 (a new payment is justified). When no other request interferes, a call that adds a payment request came
  from a user with the context key of every seat, and names pairwise different seats of the schedule
  none of which is booked; their checkout keys were free or the payer's own before, and are the payer's own when
  the call is accepted. If the call names an order of the provider, it carries a payment id and their signature under
  the configured secret; a call without an order id, or with one that begins with \<open>order_mock_\<close>, needs no signature.
\<close>

theorem new_payment_is_justified:
  assumes "redis_service R" "nodes (hs_cache st) \<noteq> []" "tables_ok (rows (hs_db st))"
    and "request_payment E N env R secret (\<lambda>_ x. x) now ids headers req st = (res, st')"
    and "payment_requests (rows (hs_db st')) \<noteq> payment_requests (rows (hs_db st))"
  shows "\<exists>u. authenticated_user N headers secret = Inr u \<and> (passes_unsigned req \<or> provider_signed N env req) \<and>
    distinct (rq_seat_ids req) \<and>
    (\<forall>t \<in> set (rq_seat_ids req). sn_ctx R (rq_schedule_id req) t u (hs_cache st) \<and>
       (\<exists>r \<in> set (schedule_seats (rows (hs_db st))). ss_id r = t \<and> ss_schedule_id r = rq_schedule_id req \<and>
          ss_status r \<noteq> Booked) \<and>
       (let k = seat_checkout_key (rq_schedule_id req) t; own = Some (checkout_owner u (rq_key req))
        in (look R (nodes (hs_cache st) ! 0) k = None \<or> GET R k (nodes (hs_cache st) ! 0) = own) \<and>
           (\<forall>acc. res = Inr acc \<longrightarrow> GET R k (nodes (hs_cache st') ! 0) = own)))"
  using assms(4)
proof (cases rule: request_payment_cases)
  case (fresh u st1)
  let ?own = "checkout_owner u (rq_key req)"
  from fresh assms(5) obtain w w1 created where w: "nodes w = nodes (hs_cache st)"
      and c: "claim_checkout R ?own (map (seat_checkout_key (rq_schedule_id req)) (rq_seat_ids req)) [] w = (Inr created, w1)"
      and x: "commit_request E R now ids u req (bd_show N (charge N req (rows (hs_db st)))) created
        (st1\<lparr>hs_cache := w1\<rparr>) = (res, st')"
    by auto
  note keys = redis_service.claim_checkout_owned [OF assms(1) c, unfolded w, OF assms(2)]
  from x have "\<forall>acc. res = Inr acc \<longrightarrow> hs_cache st' = w1"
  proof (cases rule: commit_request_cases)
    case same
    with fresh assms(5) show ?thesis by simp
  next
    case added
    then show ?thesis by simp
  qed
  with keys fresh payable_seats [OF fresh(3) assms(3)] show ?thesis
    by (intro exI [of _ u]) (simp add: Let_def payable_def check_signature_Inr [symmetric])
qed (use assms(5) in auto)

text \<open>
  (one checkout per seat). While the checkout key of a seat is another payer's, or another request's of the
  same payer, no call for that seat adds a payment request.
\<close>

theorem one_checkout_per_seat:
  assumes "redis_service R" "nodes (hs_cache st) \<noteq> []"
    and "t \<in> set (rq_seat_ids req)"
    and "GET R (seat_checkout_key (rq_schedule_id req) t) (nodes (hs_cache st) ! 0) = Some (checkout_owner v k)"
    and "authenticated_user N headers secret = Inr u" "(v, k) \<noteq> (u, rq_key req)"
  shows "payment_requests (rows (hs_db (snd (request_payment E N env R secret (\<lambda>_ x. x) now ids headers req st)))) =
    payment_requests (rows (hs_db st))"
proof -
  obtain res st' where r: "request_payment E N env R secret (\<lambda>_ x. x) now ids headers req st = (res, st')"
    by (cases "request_payment E N env R secret (\<lambda>_ x. x) now ids headers req st")
  from r have "payment_requests (rows (hs_db st')) = payment_requests (rows (hs_db st))"
  proof (cases rule: request_payment_cases)
    case (fresh u' st1)
    with assms(5) have u: "u' = u" by simp
    have no: False if w: "nodes w = nodes (hs_cache st)"
      and c: "claim_checkout R (checkout_owner u (rq_key req))
        (map (seat_checkout_key (rq_schedule_id req)) (rq_seat_ids req)) [] w = (Inr created, w1)" for w w1 created
    proof -
      have "look R (nodes (hs_cache st) ! 0) (seat_checkout_key (rq_schedule_id req) t) = None \<or>
          GET R (seat_checkout_key (rq_schedule_id req) t) (nodes (hs_cache st) ! 0) = Some (checkout_owner u (rq_key req))"
        using redis_service.claim_checkout_owned [OF assms(1) c, unfolded w, OF assms(2)] assms(3) by simp
      then show False
        using assms(4,6) by (auto simp: GET_def str_of_def dest: checkout_owner_inject)
    qed
    from fresh(6) u show ?thesis using no fresh(4,5) by fastforce
  qed simp_all
  with r show ?thesis by simp
qed

text \<open>
  (the estimate is charged). On the same prices, a payment that passes the checks charges exactly the amount
  that the checkout summary of the same seats shows.
\<close>

theorem estimate_is_charged:
  assumes "tables_ok (rows d)" "rows (hs_db st) = rows d"
    and "get_checkout_summary N secret headers (rq_schedule_id req) (rq_seat_ids req) d = (Inr su, d')"
    and "check_payment N env R secret headers req st = (Inr (u, Inr amount), st1)"
  shows "su_estimated_amount su = bd_show N amount \<and> map sm_seat_id (su_seats su) =
    map ss_id (chosen_seats (rq_schedule_id req) (rq_seat_ids req) (rows d))"
proof -
  let ?ts = "rq_seat_ids req" and ?s = "rq_schedule_id req"
  obtain b d1 where g: "db_get d = (b, d1)" by (cases "db_get d")
  obtain sch d2 where q: "query (\<lambda>T. filter (\<lambda>r. sc_id r = ?s) (schedules T)) d1 = (sch, d2)"
    by (cases "query (\<lambda>T. filter (\<lambda>r. sc_id r = ?s) (schedules T)) d1")
  obtain ss d3 where s: "query (\<lambda>T. filter (\<lambda>r. ss_id r \<in> set ?ts) (schedule_seats T)) d2 = (ss, d3)"
    by (cases "query (\<lambda>T. filter (\<lambda>r. ss_id r \<in> set ?ts) (schedule_seats T)) d2")
  have d2: "rows d2 = rows d" using db_getD [OF g] queryD [OF q] by simp
  from assms(4) have p: "payable N env R u req st" and amount: "amount = charge N req (rows d)"
    by (cases rule: check_payment_cases; simp add: assms(2))+
  let ?c = "chosen_seats ?s ?ts (rows d)"
  have ids: "ss_id ` set ?c = set ?ts"
    using chosen_seats_all [OF assms(1)] p by (simp add: payable_def assms(2))
  have same: "filter (\<lambda>r. ss_id r \<in> set ?ts) (schedule_seats (rows d)) = ?c"
    unfolding chosen_seats_def
  proof (rule filter_cong [OF refl])
    fix r assume r: "r \<in> set (schedule_seats (rows d))"
    have "ss_schedule_id r = ?s" if "ss_id r \<in> set ?ts"
    proof -
      from that ids obtain r' where "r' \<in> set ?c" "ss_id r' = ss_id r" by (metis (no_types, lifting) imageE)
      moreover from this r assms(1) have "r' = r"
        by (auto simp: chosen_seats_def tables_ok_def keys_ok_def distinct_map inj_on_def)
      ultimately show ?thesis by (simp add: chosen_seats_def)
    qed
    then show "(ss_id r \<in> set ?ts) = (ss_id r \<in> set ?ts \<and> ss_schedule_id r = ?s)" by blast
  qed
  from assms(3) have "su_estimated_amount su = bd_show N (total_amount N (map ss_price ?c)) \<and>
      map sm_seat_id (su_seats su) = map ss_id ?c"
    using queryD [OF s] d2 same
    by (auto simp: get_checkout_summary_def g q s seat_summary_def comp_def split: sum.splits if_splits option.splits list.splits)
  then show ?thesis by (simp add: amount charge_def)
qed

text \<open>
  (an order has the right price). An order is opened at the provider, or as a mock, only for a user with the
  context key of every seat, and only when the client's amount is the rounded total of the seats' prices.
\<close>

theorem provider_order_priced:
  assumes "create_razorpay_order E N env R secret api i headers req st = (Inr oid, st')"
  shows "\<exists>u. authenticated_user N headers secret = Inr u \<and> ob_seat_ids req \<noteq> [] \<and>
    (\<forall>t \<in> set (ob_seat_ids req). sn_ctx R (ob_schedule_id req) t u (hs_cache st)) \<and>
    bd_round_i64 N (bd_mul N (total_amount N
      (map ss_price (filter (\<lambda>r. ss_id r \<in> set (ob_seat_ids req)) (schedule_seats (rows (hs_db st)))))) (100, 0)) =
      Some (ob_amount_paise req) \<and> rows (hs_db st') = rows (hs_db st)"
proof -
  obtain u where u: "authenticated_user N headers secret = Inr u"
    using assms by (auto simp: create_razorpay_order_def split: sum.splits)
  obtain h w where h: "holds_all R (ob_schedule_id req) u (ob_seat_ids req) (hs_cache st) = (h, w)"
    by (cases "holds_all R (ob_schedule_id req) u (ob_seat_ids req) (hs_cache st)")
  obtain b d1 where g: "db_get (hs_db st) = (b, d1)" by (cases "db_get (hs_db st)")
  let ?q = "\<lambda>T. map ss_price (filter (\<lambda>r. ss_id r \<in> set (ob_seat_ids req)) (schedule_seats T))"
  obtain ps d2 where q: "query ?q d1 = (ps, d2)" by (cases "query ?q d1")
  note r = db_getD [OF g] queryD [OF q]
  have "ob_seat_ids req \<noteq> []" h b "ps \<noteq> None"
    using assms u h g q by (auto simp: create_razorpay_order_def split: if_splits bool.splits option.splits)
  with r have "ps = Some (?q (rows (hs_db st)))" by auto
  with assms u h g q \<open>h\<close> \<open>b\<close> \<open>ob_seat_ids req \<noteq> []\<close> r holds_all_read(2) [OF h] show ?thesis
    by (auto simp: create_razorpay_order_def split: option.splits if_splits)
qed

section \<open>A concrete run\<close>

definition demo_pay_crates :: pay_crates where
  "demo_pay_crates =
     \<lparr>jwt_sub = (\<lambda>_ _. None), hmac_hex = (@),
      bd_add = (\<lambda>(a, m) (b, n). (a * 10 ^ nat n + b * 10 ^ nat m, m + n)),
      bd_mul = (\<lambda>(a, m) (b, n). (a * b, m + n)), bd_show = (\<lambda>(a, m). dec (a div 10 ^ nat m)),
      bd_round_i64 = (\<lambda>(a, m). Some (a div 10 ^ nat m)), time_text = (\<lambda>_. []), show_title_of = (\<lambda>_. None)\<rparr>"

definition demo_body :: PaymentBody where
  "demo_body =
     \<lparr>rq_schedule_id = 7, rq_seat_ids = [3], rq_key = ''b'', rq_order_id = None, rq_payment_id = None,
      rq_signature = None\<rparr>"

definition demo_http :: "keyspace http" where
  "demo_http = \<lparr>hs_cache = cache demo_worker, hs_db = store demo_worker\<rparr>"

definition bearer :: "(string \<times> string) list" where
  "bearer = [(''authorization'', ''Bearer mock_token'')]"

lemma demo_auth [simp]: "authenticated_user demo_pay_crates bearer secret = Inr 1"
  by (simp add: authenticated_user_def bearer_def strip_prefix_def)

lemma demo_http_sel [simp]:
  "hs_cache demo_http = \<lparr>nodes = [demo_keyspace], faults = [], published = []\<rparr>"
  "hs_db demo_http = \<lparr>rows = demo_tables, db_faults = []\<rparr>"
  by (simp_all add: demo_http_def demo_worker_def)

lemma demo_body_sel [simp]:
  "rq_schedule_id demo_body = 7" "rq_seat_ids demo_body = [3]" "rq_key demo_body = ''b''"
  "rq_order_id demo_body = None" "rq_payment_id demo_body = None"
  by (simp_all add: demo_body_def)

lemma demo_lookups [simp]:
  "existing_payment 1 ''b'' demo_tables = None" "chosen_seats 7 [3] demo_tables = [demo_seat]"
  "ss_status demo_seat = Available" "ss_price demo_seat = (120, 0)"
  by (simp_all add: existing_payment_def chosen_seats_def demo_tables_def demo_request_def demo_seat_def)

lemma demo_check_of:
  assumes "rq_schedule_id b = 7" "rq_seat_ids b = [3]" "rq_key b = ''b''"
    "check_signature demo_pay_crates (\<lambda>_. None) b = Inr ()"
  shows "check_payment demo_pay_crates (\<lambda>_. None) mem_redis [] bearer b demo_http =
     (Inr (1, Inr (total_amount demo_pay_crates [(120, 0)])), demo_http)"
proof -
  have t: "trim ''b'' = ''b''" by code_simp
  have h: "user_holds_lock mem_redis 7 3 1 (hs_cache demo_http) = (True, hs_cache demo_http)"
    by (simp add: demo_keyspace_def user_holds_lock_def with_pool_def
        pool_for_seat_def node_of_def reading_def redis_reads mem_redis_simps key_simps)
  show ?thesis
    using t h assms by (simp add: check_payment_def)
qed

lemma demo_check:
  "check_payment demo_pay_crates (\<lambda>_. None) mem_redis [] bearer demo_body demo_http =
     (Inr (1, Inr (total_amount demo_pay_crates [(120, 0)])), demo_http)"
  by (rule demo_check_of) (simp_all add: check_signature_def)

definition demo_claimed :: keyspace where
  "demo_claimed = demo_keyspace(seat_checkout_key 7 3 \<mapsto> str_entry ''1:b'' (Some 300000))"

lemma demo_claim:
  "claim_checkout mem_redis (checkout_owner 1 ''b'') [seat_checkout_key 7 3] []
      \<lparr>nodes = [demo_keyspace], faults = [], published = []\<rparr> =
     (Inr [seat_checkout_key 7 3], \<lparr>nodes = [demo_claimed], faults = [], published = []\<rparr>)"
proof -
  have o: "checkout_owner 1 ''b'' = ''1:b''" by code_simp
  show ?thesis
    unfolding o by (simp add: redis_reads mem_redis_simps demo_keyspace_def demo_claimed_def key_simps)
qed

definition demo_requested :: tables where
  "demo_requested =
     run_all (request_stmts demo_crates 0 (4, 8) 1 demo_body ''141'' demo_tables) demo_tables"

lemma demo_requested_of:
  "tables_ok (run_all (request_stmts demo_crates 0 (4, 8) 1 b ''141'' demo_tables) demo_tables)"
  if "rq_schedule_id b = 7" "rq_seat_ids b = [3]" "rq_key b = ''b''"
  using that by (simp add: request_stmts_def new_request_def payment_event_def db_eval demo_defs)

lemma demo_total: "bd_show demo_pay_crates (total_amount demo_pay_crates [(120, 0)]) = ''141''"
proof -
  have "dec 141 = ''141''" by code_simp
  then show ?thesis by (simp add: total_amount_def demo_pay_crates_def Let_def)
qed

lemma demo_run_of:
  assumes "rq_schedule_id b = 7" "rq_seat_ids b = [3]" "rq_key b = ''b''"
    "check_signature demo_pay_crates (\<lambda>_. None) b = Inr ()"
  shows "request_payment demo_crates demo_pay_crates (\<lambda>_. None) mem_redis [] (\<lambda>_ x. x) 0 (4, 8) bearer b demo_http =
     (Inr \<lparr>pa_request_id = show_uuid demo_crates 4, pa_status = ''pending''\<rparr>,
      \<lparr>hs_cache = \<lparr>nodes = [demo_claimed], faults = [], published = []\<rparr>,
       hs_db = \<lparr>rows = run_all (request_stmts demo_crates 0 (4, 8) 1 b ''141'' demo_tables) demo_tables,
         db_faults = []\<rparr>\<rparr>)"
proof -
  have "tables_ok (demo_tables\<lparr>payment_requests := payment_requests demo_tables @ [new_request 0 4 1 b]\<rparr>)"
    using assms by (simp add: new_request_def db_eval demo_defs)
  then have t: "transaction (request_stmts demo_crates 0 (4, 8) 1 b ''141'' demo_tables)
      \<lparr>rows = demo_tables, db_faults = []\<rparr> =
      (Inr (), \<lparr>rows = run_all (request_stmts demo_crates 0 (4, 8) 1 b ''141'' demo_tables) demo_tables, db_faults = []\<rparr>)"
    using demo_requested_of [OF assms(1-3)] assms by (simp add: transaction_def request_stmts_def checked_def)
  show ?thesis
    using assms by (simp add: request_payment_def demo_check_of demo_claim demo_total commit_request_def t Let_def
        del: claim_checkout.simps)
qed

lemma demo_request_run:
  "request_payment demo_crates demo_pay_crates (\<lambda>_. None) mem_redis [] (\<lambda>_ x. x) 0 (4, 8) bearer demo_body demo_http =
     (Inr \<lparr>pa_request_id = show_uuid demo_crates 4, pa_status = ''pending''\<rparr>,
      \<lparr>hs_cache = \<lparr>nodes = [demo_claimed], faults = [], published = []\<rparr>,
       hs_db = \<lparr>rows = demo_requested, db_faults = []\<rparr>\<rparr>)"
  unfolding demo_requested_def by (rule demo_run_of) (simp_all add: check_signature_def)

text \<open>A request with an order of the provider and its signature.\<close>

definition demo_signed :: PaymentBody where
  "demo_signed = demo_body\<lparr>rq_order_id := Some ''order_1'', rq_payment_id := Some ''pay_1'',
     rq_signature := Some ''order_1|pay_1''\<rparr>"

lemma demo_signed_sel [simp]:
  "rq_schedule_id demo_signed = 7" "rq_seat_ids demo_signed = [3]" "rq_key demo_signed = ''b''"
  "rq_order_id demo_signed = Some ''order_1''" "rq_payment_id demo_signed = Some ''pay_1''"
  "rq_signature demo_signed = Some ''order_1|pay_1''"
  by (simp_all add: demo_signed_def)

lemma demo_signature: "check_signature demo_pay_crates (\<lambda>_. None) demo_signed = Inr ()"
  by (simp add: check_signature_def strip_prefix_def demo_pay_crates_def)

section \<open>Witnesses\<close>

definition demo_known :: "keyspace http" where
  "demo_known =
     demo_http\<lparr>hs_db := \<lparr>rows = demo_tables\<lparr>payment_requests := [new_request 0 4 1 demo_body],
       outbox_events := [payment_event 0 8 ''payment.requested'' 4 JNull]\<rparr>, db_faults = []\<rparr>\<rparr>"

theorem accepted_payment_recorded_witness:
  "\<exists>r. r \<in> set (payment_requests (rows (hs_db (snd (request_payment demo_crates demo_pay_crates (\<lambda>_. None) mem_redis []
     (\<lambda>_ x. x) 0 (5, 6) bearer demo_body demo_known))))) \<and> pr_idempotency_key r = ''b''"
proof -
  have t: "trim ''b'' = ''b''" by code_simp
  have e: "existing_payment 1 ''b'' (rows (hs_db demo_known)) = Some (new_request 0 4 1 demo_body)"
    by (simp add: demo_known_def existing_payment_def) (simp add: new_request_def)
  have m: "match_existing demo_body (new_request 0 4 1 demo_body) = Inr ()"
    using de_ids_seats_json [of "[3]"]
    by (simp add: match_existing_def same_payment_intent_def new_request_def in_i32_def)
  have f: "db_faults (hs_db demo_known) = []" by (simp add: demo_known_def)
  obtain acc st' where r: "request_payment demo_crates demo_pay_crates (\<lambda>_. None) mem_redis [] (\<lambda>_ x. x) 0 (5, 6)
      bearer demo_body demo_known = (Inr acc, st')"
    using t e m f by (auto simp: request_payment_def check_payment_def check_signature_def)
  have i: "list_all in_i32 (rq_seat_ids demo_body)" by (simp add: in_i32_def)
  have a: "announced (rows (hs_db demo_known))"
    by (simp add: announced_def demo_known_def new_request_def payment_event_def)
  have k: "http_keeps announced ((\<lambda>_ x. x) (0::nat) :: keyspace http \<Rightarrow> _)" "http_keeps announced ((\<lambda>_ x. x) (1::nat) :: keyspace http \<Rightarrow> _)"
    by (simp_all add: http_keeps_def)
  from accepted_payment_recorded [OF r i a k] r show ?thesis by auto
qed

theorem estimate_is_charged_witness:
  "\<exists>su d'. get_checkout_summary demo_pay_crates [] bearer 7 [3] (hs_db demo_http) = (Inr su, d') \<and>
     su_estimated_amount su = ''141''"
proof -
  obtain su d' where r: "get_checkout_summary demo_pay_crates [] bearer (rq_schedule_id demo_body) (rq_seat_ids demo_body)
      (hs_db demo_http) = (Inr su, d')"
    by (simp add: get_checkout_summary_def) (simp add: demo_tables_def)
  have "tables_ok (rows (hs_db demo_http))" by simp
  from estimate_is_charged [OF this refl r demo_check] r show ?thesis by (simp add: demo_total)
qed

theorem provider_order_priced_witness:
  "\<exists>oid st'. create_razorpay_order demo_crates demo_pay_crates (\<lambda>_. None) mem_redis [] (\<lambda>_. None) 5 bearer
     \<lparr>ob_schedule_id = 7, ob_seat_ids = [3], ob_amount_paise = 14160\<rparr> demo_http = (Inr oid, st') \<and>
     rows (hs_db st') = demo_tables \<and> sn_ctx mem_redis 7 3 1 (hs_cache demo_http)"
proof -
  let ?req = "\<lparr>ob_schedule_id = 7, ob_seat_ids = [3], ob_amount_paise = 14160\<rparr>"
  have h: "user_holds_lock mem_redis 7 3 1 (hs_cache demo_http) = (True, hs_cache demo_http)"
    by (simp add: demo_keyspace_def user_holds_lock_def with_pool_def
        pool_for_seat_def node_of_def reading_def redis_reads mem_redis_simps key_simps)
  have p: "map ss_price (filter (\<lambda>r. ss_id r = 3) (schedule_seats demo_tables)) = [(120, 0)]"
    by (simp add: demo_tables_def demo_seat_def)
  have "bd_round_i64 demo_pay_crates (bd_mul demo_pay_crates (total_amount demo_pay_crates [(120, 0)]) (100, 0)) = Some 14160"
    by (simp add: total_amount_def demo_pay_crates_def Let_def)
  with h p obtain oid st' where r: "create_razorpay_order demo_crates demo_pay_crates (\<lambda>_. None) mem_redis [] (\<lambda>_. None) 5
      bearer ?req demo_http = (Inr oid, st')"
    by (simp add: create_razorpay_order_def)
  from provider_order_priced [OF r] r show ?thesis by auto
qed

theorem new_payment_is_justified_witness:
  "provider_signed demo_pay_crates (\<lambda>_. None) demo_signed \<and> sn_ctx mem_redis 7 3 1 (hs_cache demo_http) \<and>
   GET mem_redis (seat_checkout_key 7 3) demo_claimed = Some (checkout_owner 1 ''b'')"
proof -
  have ne: "nodes (hs_cache demo_http) \<noteq> []" "tables_ok (rows (hs_db demo_http))" by simp_all
  have "payment_requests (run_all (request_stmts demo_crates 0 (4, 8) 1 demo_signed ''141'' demo_tables) demo_tables) \<noteq>
      payment_requests demo_tables"
    by (simp add: request_stmts_def)
  moreover have "\<not> passes_unsigned demo_signed" by (simp add: passes_unsigned_def)
  ultimately show ?thesis
    using new_payment_is_justified [OF mem.redis_service_axioms ne demo_run_of [OF _ _ _ demo_signature]] by (simp add: Let_def)
qed

theorem one_checkout_per_seat_witness:
  "payment_requests (rows (hs_db (snd (request_payment demo_crates demo_pay_crates (\<lambda>_. None) mem_redis []
     (\<lambda>_ x. x) 0 (4, 8) bearer demo_body
     (demo_http\<lparr>hs_cache := \<lparr>nodes = [demo_keyspace(seat_checkout_key 7 3 \<mapsto> str_entry ''2:b'' (Some 1))], faults = [],
        published = []\<rparr>\<rparr>))))) = payment_requests demo_tables"
proof -
  let ?st = "demo_http\<lparr>hs_cache := \<lparr>nodes = [demo_keyspace(seat_checkout_key 7 3 \<mapsto> str_entry ''2:b'' (Some 1))],
    faults = [], published = []\<rparr>\<rparr>"
  have o: "checkout_owner 2 ''b'' = ''2:b''" by code_simp
  have "payment_requests (rows (hs_db (snd (request_payment demo_crates demo_pay_crates (\<lambda>_. None) mem_redis []
     (\<lambda>_ x. x) 0 (4, 8) bearer demo_body ?st)))) = payment_requests (rows (hs_db ?st))"
    by (rule one_checkout_per_seat [OF mem.redis_service_axioms, where t = 3 and v = 2 and k = "''b''" and u = 1])
      (simp_all add: o redis_reads mem_redis_simps str_of_def str_entry_def)
  then show ?thesis by simp
qed

theorem repeated_payment_harmless_witness:
  "rows (hs_db (snd (request_payment demo_crates demo_pay_crates (\<lambda>_. None) mem_redis [] (\<lambda>_ x. x) 1 (5, 6) bearer
     (demo_body\<lparr>rq_key := ''a''\<rparr>) demo_http))) = demo_tables"
proof -
  obtain res st' where r: "request_payment demo_crates demo_pay_crates (\<lambda>_. None) mem_redis [] (\<lambda>_ x. x) 1 (5, 6) bearer
     (demo_body\<lparr>rq_key := ''a''\<rparr>) demo_http = (res, st')"
    by (cases "request_payment demo_crates demo_pay_crates (\<lambda>_. None) mem_redis [] (\<lambda>_ x. x) 1 (5, 6) bearer
     (demo_body\<lparr>rq_key := ''a''\<rparr>) demo_http")
  have "existing_payment 1 (rq_key (demo_body\<lparr>rq_key := ''a''\<rparr>)) (rows (hs_db demo_http)) = Some (demo_request 9 ''a'')"
    by (simp add: existing_payment_def demo_tables_def) (simp add: demo_request_def)
  from repeated_payment_harmless [OF demo_auth this r] r show ?thesis by simp
qed

end
