(* ===== verification/Outbox.thy ===== *)
theory Outbox
  imports Booking_DB
begin

text \<open>
  The transactional outbox (\<open>apps/outbox-server/src\<close>): events written by the booking transactions are
  claimed from the table one by one, published to RabbitMQ with publisher confirms, and marked as published,
  scheduled for another attempt, or dead-lettered. The broker is a parameter that answers each publish; the
  clock, the rows other publishers hold locked and the broker's answers of one iteration come with it.
\<close>

section \<open>Retry policy and routing\<close>

definition MAX_ATTEMPTS :: int where
  "MAX_ATTEMPTS = 10"

definition retry_delay_seconds :: "int \<Rightarrow> int" where
  "retry_delay_seconds attempts = min (2 ^ nat (max 1 (min attempts 8))) 300"

definition should_dead_letter :: "int \<Rightarrow> bool \<Rightarrow> bool" where
  "should_dead_letter attempts permanent_failure \<longleftrightarrow> permanent_failure \<and> MAX_ATTEMPTS \<le> attempts"

definition parse_payment_message_ttl :: "string option \<Rightarrow> int" where
  "parse_payment_message_ttl v =
     (case Option.bind v (parse_within in_u64) of Some n \<Rightarrow> if 1000 \<le> n then n else 300000 | None \<Rightarrow> 300000)"

record Route =
  rt_exchange :: string
  rt_routing_key :: string

definition route_for :: "string \<Rightarrow> Route option" where
  "route_for event_type =
     (if event_type = ''payment.requested'' \<or> event_type = ''payment.cancellation_requested''
      then Some \<lparr>rt_exchange = [], rt_routing_key = ''payment_processing''\<rparr>
      else if event_type = ''OrderCompleted'' \<or> event_type = ''TicketCancelled''
      then Some \<lparr>rt_exchange = ''booking_events_exchange'', rt_routing_key = []\<rparr>
      else None)"

section \<open>The store\<close>

record ClaimedEvent =
  ce_id :: Uuid
  ce_aggregate_id :: Uuid
  ce_event_type :: string
  ce_payload :: json
  ce_attempts :: int

text \<open>The \<open>WHERE\<close> clause of the claim; \<open>locked\<close> are the rows \<open>SKIP LOCKED\<close> passes over.\<close>

definition claimable :: "timestamp \<Rightarrow> (Uuid \<Rightarrow> bool) \<Rightarrow> OutboxEvent \<Rightarrow> bool" where
  "claimable now locked e \<longleftrightarrow>
     oe_published_at e = None \<and> oe_dead_lettered_at e = None \<and> oe_next_attempt_at e \<le> now \<and>
     (case oe_processing_at e of None \<Rightarrow> True | Some t \<Rightarrow> t < now - seconds 300) \<and> \<not> locked (oe_id e)"

definition candidate :: "timestamp \<Rightarrow> (Uuid \<Rightarrow> bool) \<Rightarrow> tables \<Rightarrow> OutboxEvent option" where
  "candidate now locked T =
     (case sort_key oe_created_at (filter (claimable now locked) (outbox_events T)) of
        [] \<Rightarrow> None | e # _ \<Rightarrow> Some e)"

definition update_event :: "Uuid \<Rightarrow> (OutboxEvent \<Rightarrow> OutboxEvent) \<Rightarrow> tables \<Rightarrow> tables" where
  "update_event i f T = T\<lparr>outbox_events := update_rows (\<lambda>e. oe_id e = i) f (outbox_events T)\<rparr>"

definition update_request :: "Uuid \<Rightarrow> (string \<Rightarrow> bool) \<Rightarrow> (PaymentRequest \<Rightarrow> PaymentRequest) \<Rightarrow> tables \<Rightarrow> tables" where
  "update_request i st f T =
     T\<lparr>payment_requests := update_rows (\<lambda>r. pr_id r = i \<and> st (pr_status r)) f (payment_requests T)\<rparr>"

definition claim_next ::
    "timestamp \<Rightarrow> (Uuid \<Rightarrow> bool) \<Rightarrow> database \<Rightarrow> (db_error + ClaimedEvent option) \<times> database" where
  "claim_next now locked d =
     (case db_get d of (ok, d1) \<Rightarrow>
        if \<not> ok then (Inl PoolError, d1)
        else case candidate now locked (rows d1) of
               None \<Rightarrow> (case query (\<lambda>_. ()) d1 of (res, d2) \<Rightarrow> (if res = None then Inl QueryFailed else Inr None, d2))
             | Some e \<Rightarrow>
                 (case execute (update_event (oe_id e)
                     (\<lambda>r. r\<lparr>oe_processing_at := Some now, oe_attempts := oe_attempts r + 1\<rparr>)) d1 of
                    (Inl x, d2) \<Rightarrow> (Inl x, d2)
                  | (Inr _, d2) \<Rightarrow>
                      (Inr (Some \<lparr>ce_id = oe_id e, ce_aggregate_id = oe_aggregate_id e, ce_event_type = oe_event_type e,
                         ce_payload = oe_payload e, ce_attempts = oe_attempts e + 1\<rparr>), d2)))"

definition published_stmts :: "timestamp \<Rightarrow> ClaimedEvent \<Rightarrow> (tables \<Rightarrow> tables) list" where
  "published_stmts now ev =
     update_event (ce_id ev) (\<lambda>e. e\<lparr>oe_published_at := Some now, oe_processing_at := None, oe_last_error := None\<rparr>) #
     (if ce_event_type ev = ''payment.requested''
      then [update_request (ce_aggregate_id ev) (\<lambda>x. x = ''pending'')
              (\<lambda>r. r\<lparr>pr_status := ''processing'', pr_updated_at := now\<rparr>)]
      else [])"

definition mark_published :: "timestamp \<Rightarrow> ClaimedEvent \<Rightarrow> database \<Rightarrow> (db_error + unit) \<times> database" where
  "mark_published now ev = with_conn (transaction (published_stmts now ev))"

definition failed_stmts :: "timestamp \<Rightarrow> ClaimedEvent \<Rightarrow> string \<Rightarrow> bool \<Rightarrow> (tables \<Rightarrow> tables) list" where
  "failed_stmts now ev message permanent_failure =
     (if should_dead_letter (ce_attempts ev) permanent_failure
      then update_event (ce_id ev)
             (\<lambda>e. e\<lparr>oe_dead_lettered_at := Some now, oe_processing_at := None, oe_last_error := Some message\<rparr>) #
           (if ce_event_type ev = ''payment.requested''
            then [update_request (ce_aggregate_id ev) (\<lambda>x. x \<noteq> ''succeeded'')
                    (\<lambda>r. r\<lparr>pr_status := ''failed'', pr_failure_reason := Some message, pr_updated_at := now\<rparr>)]
            else [])
      else [update_event (ce_id ev)
              (\<lambda>e. e\<lparr>oe_processing_at := None,
                     oe_next_attempt_at := now + seconds (retry_delay_seconds (ce_attempts ev)),
                     oe_last_error := Some message\<rparr>)])"

definition mark_failed ::
    "timestamp \<Rightarrow> ClaimedEvent \<Rightarrow> string \<Rightarrow> bool \<Rightarrow> database \<Rightarrow> (db_error + unit) \<times> database" where
  "mark_failed now ev message permanent_failure = with_conn (transaction (failed_stmts now ev message permanent_failure))"

section \<open>The publisher\<close>

datatype confirmation = ConfirmAck | ConfirmReturned | ConfirmNack | NotRequested

record amqp_message =
  am_exchange :: string
  am_routing_key :: string
  am_mandatory :: bool
  am_body :: json
  am_delivery_mode :: nat
  am_message_id :: string
  am_type :: string
  am_expiration :: "string option"

text \<open>\<open>obj.insert(key, value)\<close> on an object; any other value is left alone.\<close>

fun json_insert :: "string \<Rightarrow> json \<Rightarrow> json \<Rightarrow> json" where
  "json_insert k v (JObj fs) = JObj ((k, v) # filter (\<lambda>p. fst p \<noteq> k) fs)"
| "json_insert k v x = x"

definition event_message :: "crates \<Rightarrow> env \<Rightarrow> ClaimedEvent \<Rightarrow> Route \<Rightarrow> amqp_message" where
  "event_message E env ev r =
     (let is_fanout = (rt_exchange r = ''booking_events_exchange'')
      in \<lparr>am_exchange = rt_exchange r, am_routing_key = rt_routing_key r, am_mandatory = (\<not> is_fanout),
          am_body = (if is_fanout then json_insert ''event_type'' (JStr (ce_event_type ev)) (ce_payload ev)
                     else ce_payload ev),
          am_delivery_mode = 2, am_message_id = show_uuid E (ce_id ev), am_type = ce_event_type ev,
          am_expiration =
            (if rt_routing_key r = ''payment_processing''
             then Some (dec (parse_payment_message_ttl (env ''PAYMENT_MESSAGE_TTL_MS''))) else None)\<rparr>)"

text \<open>
  \<open>broker\<close> answers a publish: an error of the channel (\<open>Inl\<close>, with its text) or a confirmation. The second
  component is what went over the channel, the message with the broker's own answer, whatever is made of it.
\<close>

type_synonym broker = "amqp_message \<Rightarrow> string + confirmation"
type_synonym exchange = "amqp_message \<times> (string + confirmation)"

definition publish_outbox :: "crates \<Rightarrow> env \<Rightarrow> broker \<Rightarrow> ClaimedEvent \<Rightarrow> (string + unit) \<times> exchange list" where
  "publish_outbox E env broker ev =
     (case route_for (ce_event_type ev) of
        None \<Rightarrow> (Inl (''unsupported outbox event type '' @ ce_event_type ev), [])
      | Some r \<Rightarrow>
          (let m = event_message E env ev r; answer = broker m
           in (case answer of
                 Inl err \<Rightarrow> Inl err
               | Inr ConfirmAck \<Rightarrow> Inr ()
               | Inr ConfirmReturned \<Rightarrow> Inl ''broker returned unroutable event''
               | Inr ConfirmNack \<Rightarrow> Inl ''broker negatively acknowledged event''
               | Inr NotRequested \<Rightarrow> Inl ''publisher confirm was not requested'',
               [(m, answer)])))"

section \<open>The loop\<close>

record outbox_input =
  oi_now :: timestamp
  oi_locked :: "Uuid \<Rightarrow> bool"
  oi_broker :: broker

record outbox_state =
  ob_db :: database
  ob_channel :: "exchange list"  \<comment> \<open>every message sent with the broker's answer, latest first\<close>

text \<open>
  One pass of the loop of \<open>run\<close>; the flag tells whether the loop goes on. It returns with the error when
  the database fails and after a failed publish.
\<close>

definition run_pass :: "crates \<Rightarrow> env \<Rightarrow> outbox_input \<Rightarrow> outbox_state \<Rightarrow> bool \<times> outbox_state" where
  "run_pass E env inp st =
     (case claim_next (oi_now inp) (oi_locked inp) (ob_db st) of
        (Inl _, d) \<Rightarrow> (False, st\<lparr>ob_db := d\<rparr>)
      | (Inr None, d) \<Rightarrow> (True, st\<lparr>ob_db := d\<rparr>)
      | (Inr (Some ev), d) \<Rightarrow>
          (case publish_outbox E env (oi_broker inp) ev of
             (Inr _, sent) \<Rightarrow>
               (case mark_published (oi_now inp) ev d of
                  (res, d') \<Rightarrow> (res = Inr (), st\<lparr>ob_db := d', ob_channel := sent @ ob_channel st\<rparr>))
           | (Inl err, sent) \<Rightarrow>
               (case mark_failed (oi_now inp) ev err (route_for (ce_event_type ev) = None) d of
                  (res, d') \<Rightarrow> (False, st\<lparr>ob_db := d', ob_channel := sent @ ob_channel st\<rparr>))))"

text \<open>
  \<open>run\<close> on the inputs of its passes, until it returns or the inputs end; \<open>outbox_main\<close> is the loop of \<open>main\<close>,
  which connects anew after every return.
\<close>

fun outbox_run :: "crates \<Rightarrow> env \<Rightarrow> outbox_input list \<Rightarrow> outbox_state \<Rightarrow> outbox_state" where
  "outbox_run E env [] st = st"
| "outbox_run E env (i # is) st =
     (case run_pass E env i st of (go, st') \<Rightarrow> if go then outbox_run E env is st' else st')"

definition outbox_main :: "crates \<Rightarrow> env \<Rightarrow> outbox_input list list \<Rightarrow> outbox_state \<Rightarrow> outbox_state" where
  "outbox_main E env sessions st = fold (outbox_run E env) sessions st"

end
