(* ===== verification/Outbox_Props.thy ===== *)
theory Outbox_Props
  imports Outbox
begin

text \<open>
  The outbox loses nothing and invents nothing: whatever the database and the broker do, every event stays in
  the table with its content, it is marked as published only after the broker confirmed it, and it is
  given up only when it has no route and ten attempts have failed. A claimed event is invisible to other
  publishers for five minutes, the oldest claimable event goes first, retries are spaced by bounded delays,
  and without faults a routed event is published in one pass.
\<close>

section \<open>Rows of the outbox\<close>

definition event_content :: "OutboxEvent \<Rightarrow> Uuid \<times> string \<times> Uuid \<times> string \<times> json \<times> timestamp" where
  "event_content e =
     (oe_id e, oe_aggregate_type e, oe_aggregate_id e, oe_event_type e, oe_payload e, oe_created_at e)"

text \<open>The broker has acknowledged the very message of the event: its id, type and payload on the route of its type.\<close>

definition event_claim :: "OutboxEvent \<Rightarrow> ClaimedEvent" where
  "event_claim e = \<lparr>ce_id = oe_id e, ce_aggregate_id = oe_aggregate_id e, ce_event_type = oe_event_type e,
     ce_payload = oe_payload e, ce_attempts = 0\<rparr>"

definition confirmed_in :: "crates \<Rightarrow> exchange set \<Rightarrow> OutboxEvent \<Rightarrow> bool" where
  "confirmed_in E C e \<longleftrightarrow> (\<exists>env r. route_for (oe_event_type e) = Some r \<and>
     (event_message E env (event_claim e) r, Inr ConfirmAck) \<in> C)"

lemma event_message_cong:
  "ce_id ev = ce_id ev' \<Longrightarrow> ce_event_type ev = ce_event_type ev' \<Longrightarrow> ce_payload ev = ce_payload ev' \<Longrightarrow>
   event_message E env ev r = event_message E env ev' r"
  by (simp add: event_message_def Let_def)

lemma event_claim_sel [simp]:
  "ce_id (event_claim e) = oe_id e" "ce_event_type (event_claim e) = oe_event_type e"
  "ce_payload (event_claim e) = oe_payload e"
  by (simp_all add: event_claim_def)

lemma confirmed_in_mono: "C \<subseteq> C' \<Longrightarrow> confirmed_in E C e \<Longrightarrow> confirmed_in E C' e"
  by (auto simp: confirmed_in_def)

lemma confirmed_in_content:
  "oe_id e' = oe_id e \<Longrightarrow> oe_event_type e' = oe_event_type e \<Longrightarrow> oe_payload e' = oe_payload e \<Longrightarrow>
   confirmed_in E C e' = confirmed_in E C e"
  using event_message_cong [of "event_claim e'" "event_claim e"] by (simp add: confirmed_in_def)

lemma confirmed_simps [simp]:
  "confirmed_in E C (e\<lparr>oe_processing_at := p\<rparr>) = confirmed_in E C e"
  "confirmed_in E C (e\<lparr>oe_attempts := a\<rparr>) = confirmed_in E C e"
  "confirmed_in E C (e\<lparr>oe_published_at := p\<rparr>) = confirmed_in E C e"
  "confirmed_in E C (e\<lparr>oe_next_attempt_at := t\<rparr>) = confirmed_in E C e"
  "confirmed_in E C (e\<lparr>oe_last_error := m\<rparr>) = confirmed_in E C e"
  "confirmed_in E C (e\<lparr>oe_dead_lettered_at := p\<rparr>) = confirmed_in E C e"
  by (rule confirmed_in_content; simp)+

text \<open>A publish that succeeds was acknowledged.\<close>

lemma publish_outbox_confirmed:
  assumes "publish_outbox E env broker ev = (Inr u, sent)" "oe_id e = ce_id ev" "oe_event_type e = ce_event_type ev"
    "oe_payload e = ce_payload ev"
  shows "confirmed_in E (set sent) e"
proof -
  from assms(1) obtain r where r: "route_for (ce_event_type ev) = Some r" "sent = [(event_message E env ev r, Inr ConfirmAck)]"
    by (auto simp: publish_outbox_def Let_def split: option.splits sum.splits confirmation.splits)
  have "event_message E env (event_claim e) r = event_message E env ev r"
    using assms(2-4) by (intro event_message_cong) simp_all
  with r assms(3) show ?thesis by (auto simp: confirmed_in_def)
qed

definition row_ok :: "crates \<Rightarrow> exchange set \<Rightarrow> OutboxEvent \<Rightarrow> bool" where
  "row_ok E C e \<longleftrightarrow>
     (oe_published_at e \<noteq> None \<longrightarrow> confirmed_in E C e) \<and>
     (oe_dead_lettered_at e \<noteq> None \<longrightarrow> route_for (oe_event_type e) = None \<and> MAX_ATTEMPTS \<le> oe_attempts e)"

definition outbox_ok :: "crates \<Rightarrow> exchange set \<Rightarrow> tables \<Rightarrow> bool" where
  "outbox_ok E C T \<longleftrightarrow> (\<forall>e \<in> set (outbox_events T). row_ok E C e)"

text \<open>What the server may do to a payment request: nothing, or move it from pending to processing.\<close>

definition request_move :: "PaymentRequest \<Rightarrow> PaymentRequest \<Rightarrow> bool" where
  "request_move r r' \<longleftrightarrow>
     pr_id r' = pr_id r \<and>
     (pr_status r' = pr_status r \<or> pr_status r = ''pending'' \<and> pr_status r' = ''processing'')"

definition outbox_moves :: "tables \<Rightarrow> tables \<Rightarrow> bool" where
  "outbox_moves T T' \<longleftrightarrow>
     map event_content (outbox_events T') = map event_content (outbox_events T) \<and>
     list_all2 request_move (payment_requests T) (payment_requests T') \<and>
     T'\<lparr>payment_requests := [], outbox_events := []\<rparr> = T\<lparr>payment_requests := [], outbox_events := []\<rparr>"

lemma request_move_refl [simp]: "request_move r r"
  by (simp add: request_move_def)

lemma request_move_trans: "request_move r r1 \<Longrightarrow> request_move r1 r2 \<Longrightarrow> request_move r r2"
  by (auto simp: request_move_def)

lemma outbox_moves_refl [simp]: "outbox_moves T T"
  by (simp add: outbox_moves_def list.rel_refl)

lemma outbox_moves_trans: "outbox_moves T T1 \<Longrightarrow> outbox_moves T1 T2 \<Longrightarrow> outbox_moves T T2"
  unfolding outbox_moves_def
  using list_all2_trans [of request_move request_move request_move "payment_requests T" "payment_requests T1"
      "payment_requests T2", OF request_move_trans] by simp

lemma update_event_sel [simp]:
  "outbox_events (update_event i f T) = update_rows (\<lambda>e. oe_id e = i) f (outbox_events T)"
  "payment_requests (update_event i f T) = payment_requests T"
  "outbox_events (update_request i st g T) = outbox_events T"
  "payment_requests (update_request i st g T) =
     update_rows (\<lambda>r. pr_id r = i \<and> st (pr_status r)) g (payment_requests T)"
  by (simp_all add: update_event_def update_request_def)

lemma row_ok_mono: "C \<subseteq> C' \<Longrightarrow> row_ok E C e \<Longrightarrow> row_ok E C' e"
  using confirmed_in_mono by (auto simp: row_ok_def)

lemma outbox_ok_mono: "C \<subseteq> C' \<Longrightarrow> outbox_ok E C T \<Longrightarrow> outbox_ok E C' T"
  using row_ok_mono by (auto simp: outbox_ok_def)

lemma outbox_ok_update_event:
  assumes "outbox_ok E C T" "C \<subseteq> C'"
    and "\<And>e. e \<in> set (outbox_events T) \<Longrightarrow> row_ok E C e \<Longrightarrow> oe_id e = i \<Longrightarrow> row_ok E C' (f e)"
  shows "outbox_ok E C' (update_event i f T)"
  using assms row_ok_mono [OF assms(2)] by (auto simp: outbox_ok_def set_update_rows)

lemma outbox_moves_update_event:
  "(\<And>e. event_content (f e) = event_content e) \<Longrightarrow> outbox_moves T (update_event i f T)"
  by (simp add: outbox_moves_def map_update_rows list.rel_refl) (simp add: update_event_def)

lemma outbox_moves_update_request:
  "(\<And>r. pr_id r = i \<Longrightarrow> st (pr_status r) \<Longrightarrow> request_move r (g r)) \<Longrightarrow> outbox_moves T (update_request i st g T)"
  by (auto simp: outbox_moves_def update_rows_def list_all2_conv_all_nth) (simp add: update_request_def)

section \<open>One pass\<close>

lemma candidate_SomeD:
  assumes "candidate now locked T = Some e"
  shows "e \<in> set (outbox_events T)" "claimable now locked e"
    "\<forall>e' \<in> set (outbox_events T). claimable now locked e' \<longrightarrow> oe_created_at e \<le> oe_created_at e'"
proof -
  let ?xs = "sort_key oe_created_at (filter (claimable now locked) (outbox_events T))"
  obtain es where xs: "?xs = e # es" using assms by (auto simp: candidate_def split: list.splits)
  have set: "set (e # es) = set (outbox_events T) \<inter> Collect (claimable now locked)"
    unfolding xs [symmetric] by auto
  then show "e \<in> set (outbox_events T)" "claimable now locked e" by auto
  have "sorted (map oe_created_at (e # es))" unfolding xs [symmetric] by simp
  then show "\<forall>e' \<in> set (outbox_events T). claimable now locked e' \<longrightarrow> oe_created_at e \<le> oe_created_at e'"
    using set by auto
qed

lemma candidate_None: "candidate now locked T = None \<longleftrightarrow> (\<forall>e \<in> set (outbox_events T). \<not> claimable now locked e)"
proof -
  have "candidate now locked T = None \<longleftrightarrow> sort_key oe_created_at (filter (claimable now locked) (outbox_events T)) = []"
    by (auto simp: candidate_def split: list.splits)
  also have "\<dots> \<longleftrightarrow> filter (claimable now locked) (outbox_events T) = []"
    by (metis length_0_conv length_sort)
  finally show ?thesis by (simp add: filter_empty_conv)
qed

text \<open>The outcomes of a claim: the rows are left alone, or one event is claimed and handed out or its reply lost.\<close>

definition claim_stmt :: "timestamp \<Rightarrow> Uuid \<Rightarrow> tables \<Rightarrow> tables" where
  "claim_stmt now i = update_event i (\<lambda>r. r\<lparr>oe_processing_at := Some now, oe_attempts := oe_attempts r + 1\<rparr>)"

lemma claim_next_cases:
  assumes "claim_next now locked d = (res, d')"
  obtains (none) "rows d' = rows d" "\<And>ev. res \<noteq> Inr (Some ev)"
    | (claimed) e where "candidate now locked (rows d) = Some e"
        "rows d' = claim_stmt now (oe_id e) (rows d)" "tables_ok (rows d')"
        "\<And>ev. res = Inr (Some ev) \<Longrightarrow> ce_id ev = oe_id e \<and> ce_event_type ev = oe_event_type e \<and>
           ce_attempts ev = oe_attempts e + 1 \<and> ce_aggregate_id ev = oe_aggregate_id e \<and> ce_payload ev = oe_payload e"
proof -
  obtain ok d1 where g: "db_get d = (ok, d1)" by (cases "db_get d")
  note r1 = db_getD [OF g]
  show thesis
  proof (cases "ok \<and> candidate now locked (rows d) \<noteq> None")
    case True
    then obtain e where e: "candidate now locked (rows d) = Some e" by auto
    obtain x d2 where x: "execute (claim_stmt now (oe_id e)) d1 = (x, d2)"
      by (cases "execute (claim_stmt now (oe_id e)) d1")
    have out: "d' = d2" "\<And>ev. res = Inr (Some ev) \<Longrightarrow> x = Inr () \<and> ev = \<lparr>ce_id = oe_id e,
        ce_aggregate_id = oe_aggregate_id e, ce_event_type = oe_event_type e, ce_payload = oe_payload e,
        ce_attempts = oe_attempts e + 1\<rparr>"
      using assms True g e r1 x by (auto simp: claim_next_def claim_stmt_def [symmetric] split: sum.splits)
    have ok: "x = Inr () \<Longrightarrow> rows d2 = claim_stmt now (oe_id e) (rows d1) \<and> tables_ok (rows d2)"
      using execute_Inr [of _ d1 "()" d2] x by blast
    consider "rows d2 = claim_stmt now (oe_id e) (rows d1)" "tables_ok (rows d2)" | "rows d2 = rows d1" "x \<noteq> Inr ()"
      using execute_cases [OF x] ok by blast
    then show thesis
    proof cases
      case 1
      show thesis by (rule claimed [OF e]) (use 1 out r1 in auto)
    next
      case 2
      show thesis by (rule none) (use 2 out r1 in auto)
    qed
  next
    case False
    with assms g r1 show thesis
      by (intro none) (auto simp: claim_next_def dest!: queryD split: option.splits prod.splits if_splits)
  qed
qed

lemma claim_next_SomeD:
  assumes "claim_next now locked d = (Inr (Some ev), d')"
  shows "\<exists>e. candidate now locked (rows d) = Some e \<and> rows d' = claim_stmt now (oe_id e) (rows d) \<and>
    ce_id ev = oe_id e"
  using assms
proof (cases rule: claim_next_cases)
  case none
  from none(2) [of ev] show ?thesis by simp
next
  case (claimed e)
  then show ?thesis using claimed(4) [OF refl] by auto
qed

lemma claim_stmt_moves [simp]: "outbox_moves T (claim_stmt now i T)"
  unfolding claim_stmt_def by (rule outbox_moves_update_event) (simp add: event_content_def)

lemma claim_stmt_ok: "outbox_ok E C T \<Longrightarrow> outbox_ok E C (claim_stmt now i T)"
  unfolding claim_stmt_def
  by (rule outbox_ok_update_event) (auto simp: row_ok_def)

lemma unique_event:
  assumes "tables_ok T" "e \<in> set (outbox_events T)" "r \<in> set (outbox_events T)" "oe_id r = oe_id e"
  shows "r = e"
  using assms by (auto simp: tables_ok_def keys_ok_def dest: inj_onD [OF iffD1 [OF distinct_map, THEN conjunct2]])

lemma published_stmts_ok:
  assumes "outbox_ok E C T" "C \<subseteq> C'"
    and "\<And>e. e \<in> set (outbox_events T) \<Longrightarrow> oe_id e = ce_id ev \<Longrightarrow> confirmed_in E C' e"
  shows "outbox_moves T (run_all (published_stmts now ev) T)"
    and "outbox_ok E C' (run_all (published_stmts now ev) T)"
proof -
  let ?f = "\<lambda>e. e\<lparr>oe_published_at := Some now, oe_processing_at := None, oe_last_error := None\<rparr>"
  let ?T = "update_event (ce_id ev) ?f T"
  have m: "outbox_moves T ?T" by (rule outbox_moves_update_event) (simp add: event_content_def)
  have same: "confirmed_in E C' (?f e) = confirmed_in E C' e" for e by (rule confirmed_in_content) simp_all
  have ok: "outbox_ok E C' ?T"
    by (rule outbox_ok_update_event [OF assms(1,2)]) (use assms(3) same in \<open>simp add: row_ok_def\<close>)
  show "outbox_moves T (run_all (published_stmts now ev) T)"
    unfolding published_stmts_def
    using m outbox_moves_trans [OF m outbox_moves_update_request
        [of "ce_aggregate_id ev" "\<lambda>x. x = ''pending''" "\<lambda>r. r\<lparr>pr_status := ''processing'', pr_updated_at := now\<rparr>"]]
    by (simp add: request_move_def)
  show "outbox_ok E C' (run_all (published_stmts now ev) T)"
    using ok by (simp add: published_stmts_def outbox_ok_def)
qed

lemma failed_stmts_ok:
  assumes "outbox_ok E C T" "permanent \<longleftrightarrow> route_for (ce_event_type ev) = None"
    and "\<And>e. e \<in> set (outbox_events T) \<Longrightarrow> oe_id e = ce_id ev \<Longrightarrow>
      oe_event_type e = ce_event_type ev \<and> oe_attempts e = ce_attempts ev"
  shows "outbox_moves T (run_all (failed_stmts now ev msg permanent) T)"
    and "outbox_ok E C (run_all (failed_stmts now ev msg permanent) T)"
proof -
  have r: "permanent \<Longrightarrow> ce_event_type ev \<noteq> ''payment.requested''"
    using assms(2) by (auto simp: route_for_def split: if_splits)
  show "outbox_moves T (run_all (failed_stmts now ev msg permanent) T)"
    using r by (auto simp: failed_stmts_def should_dead_letter_def event_content_def intro!: outbox_moves_update_event)
  show "outbox_ok E C (run_all (failed_stmts now ev msg permanent) T)"
    using r assms(3)
    by (auto simp: failed_stmts_def should_dead_letter_def row_ok_def assms(2) intro!: outbox_ok_update_event [OF assms(1)])
qed


text \<open>Every pass keeps the constraints, the content of the events and the meaning of their marks.\<close>

lemma run_pass_ok:
  assumes "run_pass E env inp st = (go, st')"
    and "tables_ok (rows (ob_db st))" "outbox_ok E (set (ob_channel st)) (rows (ob_db st))"
  shows "tables_ok (rows (ob_db st'))" and "outbox_ok E (set (ob_channel st')) (rows (ob_db st'))"
    and "outbox_moves (rows (ob_db st)) (rows (ob_db st'))"
proof -
  let ?C = "set (ob_channel st)" and ?T = "rows (ob_db st)"
  obtain res d where c: "claim_next (oi_now inp) (oi_locked inp) (ob_db st) = (res, d)"
    by (cases "claim_next (oi_now inp) (oi_locked inp) (ob_db st)")
  have d: "tables_ok (rows d)" "outbox_ok E ?C (rows d)" "outbox_moves ?T (rows d)"
    using c by (cases rule: claim_next_cases; use assms(2,3) claim_stmt_ok in auto)+
  have "tables_ok (rows (ob_db st')) \<and> outbox_ok E (set (ob_channel st')) (rows (ob_db st')) \<and>
    outbox_moves ?T (rows (ob_db st'))"
  proof (cases "\<exists>ev. res = Inr (Some ev)")
    case False
    with assms(1) c d show ?thesis by (auto simp: run_pass_def split: sum.splits option.splits)
  next
    case True
    then obtain ev where ev: "res = Inr (Some ev)" by auto
    from c obtain e where e: "candidate (oi_now inp) (oi_locked inp) ?T = Some e"
      and r: "rows d = claim_stmt (oi_now inp) (oe_id e) ?T"
      and eq: "ce_id ev = oe_id e" "ce_event_type ev = oe_event_type e" "ce_attempts ev = oe_attempts e + 1" "ce_payload ev = oe_payload e"
      by (cases rule: claim_next_cases) (use ev in auto)
    have row: "oe_event_type x = ce_event_type ev \<and> oe_attempts x = ce_attempts ev \<and> oe_payload x = ce_payload ev"
      if "x \<in> set (outbox_events (rows d))" "oe_id x = ce_id ev" for x
      using that
      by (auto simp: r claim_stmt_def set_update_rows eq split: if_splits
          dest!: unique_event [OF assms(2) candidate_SomeD(1) [OF e]])
    obtain answer sent where pub: "publish_outbox E env (oi_broker inp) ev = (answer, sent)"
      by (cases "publish_outbox E env (oi_broker inp) ev")
    let ?C' = "set (sent @ ob_channel st)"
    have sub: "?C \<subseteq> ?C'" by auto
    show ?thesis
    proof (cases answer)
      case (Inr x)
      obtain y d' where m: "mark_published (oi_now inp) ev d = (y, d')" by (cases "mark_published (oi_now inp) ev d")
      have st': "st' = st\<lparr>ob_db := d', ob_channel := sent @ ob_channel st\<rparr>"
        using assms(1) c ev Inr pub m by (simp add: run_pass_def)
      have conf: "confirmed_in E ?C' x" if "x \<in> set (outbox_events (rows d))" "oe_id x = ce_id ev" for x
        using publish_outbox_confirmed [OF pub [unfolded Inr], of x] row [OF that] that(2)
          confirmed_in_mono [of "set sent" ?C'] by auto
      note p = published_stmts_ok [where now = "oi_now inp" and ev = ev, OF d(2) sub conf]
      from m show ?thesis unfolding mark_published_def
      proof (cases rule: with_conn_cases)
        case rolled_back
        with d outbox_ok_mono [OF sub] st' show ?thesis by simp
      next
        case committed
        with d p(2) st' outbox_moves_trans [OF d(3) p(1)] show ?thesis by simp
      qed
    next
      case (Inl err)
      let ?perm = "route_for (ce_event_type ev) = None"
      obtain y d' where m: "mark_failed (oi_now inp) ev err ?perm d = (y, d')"
        by (cases "mark_failed (oi_now inp) ev err ?perm d")
      have st': "st' = st\<lparr>ob_db := d', ob_channel := sent @ ob_channel st\<rparr>"
        using assms(1) c ev Inl pub m by (simp add: run_pass_def)
      have row': "oe_event_type x = ce_event_type ev \<and> oe_attempts x = ce_attempts ev"
        if "x \<in> set (outbox_events (rows d))" "oe_id x = ce_id ev" for x using row [OF that] by simp
      note f = failed_stmts_ok [where now = "oi_now inp" and msg = err and ev = ev, OF d(2) refl row']
      from m show ?thesis unfolding mark_failed_def
      proof (cases rule: with_conn_cases)
        case rolled_back
        with d outbox_ok_mono [OF sub] st' show ?thesis by simp
      next
        case committed
        with d outbox_ok_mono [OF sub f(2)] st' outbox_moves_trans [OF d(3) f(1)] show ?thesis by simp
      qed
    qed
  qed
  then show "tables_ok (rows (ob_db st'))" "outbox_ok E (set (ob_channel st')) (rows (ob_db st'))"
    "outbox_moves ?T (rows (ob_db st'))" by auto
qed

lemma outbox_run_ok:
  assumes "tables_ok (rows (ob_db st))" "outbox_ok E (set (ob_channel st)) (rows (ob_db st))"
  shows "tables_ok (rows (ob_db (outbox_run E env is st))) \<and>
    outbox_ok E (set (ob_channel (outbox_run E env is st))) (rows (ob_db (outbox_run E env is st))) \<and>
    outbox_moves (rows (ob_db st)) (rows (ob_db (outbox_run E env is st)))"
  using assms
proof (induction "is" arbitrary: st)
  case (Cons i "is")
  obtain go st1 where p: "run_pass E env i st = (go, st1)" by (cases "run_pass E env i st")
  note k = run_pass_ok [OF p Cons.prems]
  from Cons.IH [OF k(1,2)] k outbox_moves_trans [OF k(3)] p show ?case by auto
qed simp

lemma outbox_main_ok:
  assumes "tables_ok (rows (ob_db st))" "outbox_ok E (set (ob_channel st)) (rows (ob_db st))"
  shows "tables_ok (rows (ob_db (outbox_main E env ss st))) \<and>
    outbox_ok E (set (ob_channel (outbox_main E env ss st))) (rows (ob_db (outbox_main E env ss st))) \<and>
    outbox_moves (rows (ob_db st)) (rows (ob_db (outbox_main E env ss st)))"
  using assms
proof (induction ss arbitrary: st)
  case (Cons i ss)
  note k = outbox_run_ok [OF Cons.prems, of env i]
  from Cons.IH [of "outbox_run E env i st"] k outbox_moves_trans [of "rows (ob_db st)" "rows (ob_db (outbox_run E env i st))"]
  show ?case by (auto simp: outbox_main_def)
qed (simp add: outbox_main_def)


section \<open>Passes without database faults\<close>

lemma tables_ok_update_event:
  assumes "\<And>e. oe_id (f e) = oe_id e"
  shows "tables_ok (update_event i f T) = tables_ok T"
proof -
  have "map oe_id (update_rows (\<lambda>e. oe_id e = i) f (outbox_events T)) = map oe_id (outbox_events T)"
    by (rule map_update_rows) (rule assms)
  then show ?thesis by (simp add: tables_ok_def keys_ok_def refs_ok_def update_event_def)
qed

lemma tables_ok_update_request:
  assumes "\<And>r. (pr_id (g r), pr_user_id (g r), pr_idempotency_key (g r), pr_schedule_id (g r)) =
    (pr_id r, pr_user_id r, pr_idempotency_key r, pr_schedule_id r)"
  shows "tables_ok (update_request i st g T) = tables_ok T"
proof -
  let ?rs = "payment_requests T" and ?rs' = "update_rows (\<lambda>r. pr_id r = i \<and> st (pr_status r)) g (payment_requests T)"
  have e: "map pr_id ?rs' = map pr_id ?rs" "map pr_user_id ?rs' = map pr_user_id ?rs"
    "map pr_schedule_id ?rs' = map pr_schedule_id ?rs"
    "map (\<lambda>r. (pr_user_id r, pr_idempotency_key r)) ?rs' = map (\<lambda>r. (pr_user_id r, pr_idempotency_key r)) ?rs"
    by (rule map_update_rows, use assms in simp)+
  have "pr_id ` set ?rs' = pr_id ` set ?rs" "pr_user_id ` set ?rs' = pr_user_id ` set ?rs"
    "pr_schedule_id ` set ?rs' = pr_schedule_id ` set ?rs"
    using e(1-3) [THEN arg_cong, of set] by simp_all
  moreover have "(\<forall>r \<in> set rs. pr_user_id r \<in> A \<and> pr_schedule_id r \<in> B) \<longleftrightarrow>
      pr_user_id ` set rs \<subseteq> A \<and> pr_schedule_id ` set rs \<subseteq> B" for rs :: "PaymentRequest list" and A B
    by auto
  ultimately show ?thesis
    using e by (simp add: tables_ok_def keys_ok_def refs_ok_def update_request_def)
qed

lemma transaction_no_faults:
  assumes "db_faults d = []" "tables_ok (rows d)"
    and "list_all (\<lambda>f. \<forall>T. tables_ok T \<longrightarrow> tables_ok (f T)) sts"
  shows "with_conn (transaction sts) d = (Inr (), d\<lparr>rows := run_all sts (rows d)\<rparr>)"
proof -
  have "run_stmts sts d = (Inr (), d\<lparr>rows := run_all sts (rows d)\<rparr>)"
    using assms by (induction sts arbitrary: d) (auto simp: checked_def)
  with assms(1) show ?thesis by (simp add: with_conn_def transaction_def)
qed

lemma mark_published_no_faults:
  assumes "db_faults d = []" "tables_ok (rows d)"
  shows "mark_published now ev d = (Inr (), d\<lparr>rows := run_all (published_stmts now ev) (rows d)\<rparr>)"
  unfolding mark_published_def
  by (rule transaction_no_faults [OF assms])
    (simp add: published_stmts_def tables_ok_update_event tables_ok_update_request)

lemma mark_failed_no_faults:
  assumes "db_faults d = []" "tables_ok (rows d)"
  shows "mark_failed now ev msg b d = (Inr (), d\<lparr>rows := run_all (failed_stmts now ev msg b) (rows d)\<rparr>)"
  unfolding mark_failed_def
  by (rule transaction_no_faults [OF assms])
    (simp add: failed_stmts_def tables_ok_update_event tables_ok_update_request)

lemma claim_next_no_faults:
  assumes "db_faults d = []" "tables_ok (rows d)" "candidate now locked (rows d) = Some e"
  shows "claim_next now locked d =
    (Inr (Some \<lparr>ce_id = oe_id e, ce_aggregate_id = oe_aggregate_id e, ce_event_type = oe_event_type e,
       ce_payload = oe_payload e, ce_attempts = oe_attempts e + 1\<rparr>), d\<lparr>rows := claim_stmt now (oe_id e) (rows d)\<rparr>)"
  using assms
  by (simp add: claim_next_def execute_def checked_def claim_stmt_def [symmetric])
    (simp add: claim_stmt_def tables_ok_update_event)


section \<open>A concrete outbox\<close>

definition outbox_crates :: crates where
  "outbox_crates =
     \<lparr>parse_uuid = (\<lambda>s. map_option word_of_nat (parse_digits s)), show_uuid = (\<lambda>i. dec (uint i)),
      parse_decimal = (\<lambda>s. None), paise_of = fst, current_carrier = JNull\<rparr>"

definition outbox_event :: "Uuid \<Rightarrow> string \<Rightarrow> timestamp \<Rightarrow> OutboxEvent" where
  "outbox_event i ty t =
     \<lparr>oe_id = i, oe_aggregate_type = ''Order'', oe_aggregate_id = i, oe_event_type = ty, oe_payload = JObj [],
      oe_created_at = t, oe_published_at = None, oe_attempts = 0, oe_processing_at = None, oe_next_attempt_at = t,
      oe_last_error = None, oe_dead_lettered_at = None\<rparr>"

definition outbox_world :: "OutboxEvent list \<Rightarrow> outbox_state" where
  "outbox_world es =
     \<lparr>ob_db = \<lparr>rows = \<lparr>users = [], schedules = [], schedule_seats = [], orders = [], tickets = [], user_audits = [],
        payment_requests = [], outbox_events = es\<rparr>, db_faults = []\<rparr>, ob_channel = []\<rparr>"

definition outbox_in :: "timestamp \<Rightarrow> (string + confirmation) \<Rightarrow> outbox_input" where
  "outbox_in now answer = \<lparr>oi_now = now, oi_locked = (\<lambda>_. False), oi_broker = (\<lambda>_. answer)\<rparr>"

lemma outbox_world_simps [simp]:
  "db_faults (ob_db (outbox_world es)) = []" "outbox_events (rows (ob_db (outbox_world es))) = es"
  "payment_requests (rows (ob_db (outbox_world es))) = []" "ob_channel (outbox_world es) = []"
  "tables_ok (rows (ob_db (outbox_world es))) = distinct (map oe_id es)"
  by (simp_all add: outbox_world_def tables_ok_def keys_ok_def refs_ok_def)

lemma outbox_in_simps [simp]:
  "oi_now (outbox_in now a) = now" "oi_locked (outbox_in now a) = (\<lambda>_. False)" "oi_broker (outbox_in now a) m = a"
  by (simp_all add: outbox_in_def)

section \<open>Properties\<close>

text \<open>The channel records the answers of the brokers, and nothing else.\<close>

definition answers :: "outbox_input set \<Rightarrow> exchange set" where
  "answers I = {(m, a). \<exists>i \<in> I. a = oi_broker i m}"

lemma publish_outbox_answers: "publish_outbox E env b ev = (x, sent) \<Longrightarrow> set sent \<subseteq> {(m, a). a = b m}"
  by (auto simp: publish_outbox_def Let_def split: option.splits)

lemma run_pass_channel:
  "run_pass E env i st = (go, st') \<Longrightarrow> set (ob_channel st') \<subseteq> set (ob_channel st) \<union> answers {i}"
  by (auto simp: run_pass_def answers_def dest!: publish_outbox_answers split: prod.splits sum.splits option.splits)

lemma outbox_run_channel: "set (ob_channel (outbox_run E env is st)) \<subseteq> set (ob_channel st) \<union> answers (set is)"
proof (induction "is" arbitrary: st)
  case (Cons i "is")
  obtain go st1 where p: "run_pass E env i st = (go, st1)" by (cases "run_pass E env i st")
  from run_pass_channel [OF p] Cons.IH [of st1] p show ?case by (auto simp: answers_def)
qed simp

lemma outbox_main_channel:
  "set (ob_channel (outbox_main E env ss st)) \<subseteq> set (ob_channel st) \<union> answers (\<Union> (set ` set ss))"
proof (induction ss arbitrary: st)
  case (Cons i ss)
  from Cons.IH [of "outbox_run E env i st"] outbox_run_channel [of E env i st]
  have "answers (\<Union> (set ` set (i # ss))) = answers (set i) \<union> answers (\<Union> (set ` set ss))"
    by (auto simp: answers_def)
  moreover have "outbox_main E env (i # ss) st = outbox_main E env ss (outbox_run E env i st)"
    by (simp add: outbox_main_def)
  ultimately show ?case using Cons.IH [of "outbox_run E env i st"] outbox_run_channel [of E env i st] by auto
qed (simp add: outbox_main_def)

text \<open>
  C7 (the outbox loses nothing). Along any number of connections and passes of the outbox server, with any
  failures of the database and any answers of the broker: the events of the table keep their identity and
  content, an event is marked as published only if the broker itself acknowledged the message of that event (its id,
  type and payload, on the route of its type; a negative or missing confirmation and a returned message are none; the recorded acknowledgements are answers the brokers of these passes gave),
  an event is dead-lettered only
  if its type has no route and at least ten attempts were made, and a payment request is at most moved from
  pending to processing.
\<close>

theorem outbox_loses_nothing:
  assumes "tables_ok (rows (ob_db st))" "outbox_ok E (set (ob_channel st)) (rows (ob_db st))"
  shows "let st' = outbox_main E env sessions st
    in map event_content (outbox_events (rows (ob_db st'))) = map event_content (outbox_events (rows (ob_db st))) \<and>
       outbox_ok E (set (ob_channel st')) (rows (ob_db st')) \<and>
       set (ob_channel st') \<subseteq> set (ob_channel st) \<union> answers (\<Union> (set ` set sessions)) \<and>
       list_all2 request_move (payment_requests (rows (ob_db st))) (payment_requests (rows (ob_db st')))"
  using outbox_main_ok [OF assms] outbox_main_channel [of E env sessions st]
  by (simp add: outbox_moves_def Let_def)

theorem outbox_loses_nothing_witness:
  "let st' = outbox_main outbox_crates (\<lambda>_. None) [[outbox_in 5 (Inr ConfirmAck)], [outbox_in 6 (Inr ConfirmNack)]]
     (outbox_world [outbox_event 1 ''OrderCompleted'' 0, outbox_event 2 ''Strange'' 1])
   in map event_content (outbox_events (rows (ob_db st'))) =
        map event_content [outbox_event 1 ''OrderCompleted'' 0, outbox_event 2 ''Strange'' 1] \<and>
      outbox_ok outbox_crates (set (ob_channel st')) (rows (ob_db st'))"
proof -
  let ?st = "outbox_world [outbox_event 1 ''OrderCompleted'' 0, outbox_event 2 ''Strange'' 1]"
  have "tables_ok (rows (ob_db ?st))" "outbox_ok outbox_crates (set (ob_channel ?st)) (rows (ob_db ?st))"
    by (simp_all add: outbox_event_def outbox_ok_def row_ok_def)
  from outbox_loses_nothing [OF this, of "\<lambda>_. None"
      "[[outbox_in 5 (Inr ConfirmAck)], [outbox_in 6 (Inr ConfirmNack)]]"]
  show ?thesis by (simp add: Let_def)
qed

text \<open>
  (a claimed event is hidden). After one publisher has claimed an event, no claim made within the next
  five minutes by any publisher hands out the same event, unless its mark was written in between.
\<close>

theorem claim_hides_event:
  assumes "claim_next now locked d = (Inr (Some ev), d1)" "rows d2 = rows d1"
    and "now' \<le> now + seconds 300" "claim_next now' locked' d2 = (Inr (Some ev'), d3)"
  shows "ce_id ev' \<noteq> ce_id ev"
proof
  assume same: "ce_id ev' = ce_id ev"
  obtain e :: OutboxEvent where e: "rows d1 = claim_stmt now (oe_id e) (rows d)" "ce_id ev = oe_id e"
    using claim_next_SomeD [OF assms(1)] by blast
  obtain e' where e': "candidate now' locked' (rows d2) = Some e'" "ce_id ev' = oe_id e'"
    using claim_next_SomeD [OF assms(4)] by blast
  note e' = e' [unfolded assms(2)]
  have "oe_id e' = oe_id e" using e(2) e'(2) same by simp
  moreover have "e' \<in> set (outbox_events (claim_stmt now (oe_id e) (rows d)))"
    using candidate_SomeD(1) [OF e'(1)] unfolding e(1) .
  ultimately have "oe_processing_at e' = Some now"
    by (auto simp: claim_stmt_def set_update_rows split: if_splits)
  with candidate_SomeD(2) [OF e'(1)] assms(3) show False by (simp add: claimable_def)
qed

theorem claim_hides_event_witness:
  "let d = ob_db (outbox_world [outbox_event 1 ''OrderCompleted'' 0, outbox_event 2 ''TicketCancelled'' 1]);
       (r, d1) = claim_next 5 (\<lambda>_. False) d; (r', d2) = claim_next 6 (\<lambda>_. False) d1
   in map_sum id (map_option ce_id) r = Inr (Some 1) \<and> map_sum id (map_option ce_id) r' = Inr (Some 2) \<and>
      (2 :: Uuid) \<noteq> 1"
proof -
  let ?d = "ob_db (outbox_world [outbox_event 1 ''OrderCompleted'' 0, outbox_event 2 ''TicketCancelled'' 1])"
  obtain ev d1 where 1: "claim_next 5 (\<lambda>_. False) ?d = (Inr (Some ev), d1)" and ev: "ce_id ev = 1"
    and d1: "outbox_events (rows d1) = [(outbox_event 1 ''OrderCompleted'' 0)\<lparr>oe_processing_at := Some 5, oe_attempts := 1\<rparr>,
      outbox_event 2 ''TicketCancelled'' 1]" "db_faults d1 = []" "tables_ok (rows d1)"
    by (subst (asm) claim_next_no_faults [where e = "outbox_event 1 ''OrderCompleted'' 0"])
      (auto simp: candidate_def claimable_def outbox_event_def claim_stmt_def update_rows_def tables_ok_update_event)
  obtain ev' d2 where 2: "claim_next 6 (\<lambda>_. False) d1 = (Inr (Some ev'), d2)" and ev': "ce_id ev' = 2"
    using claim_next_no_faults [OF d1(2,3), of 6 "\<lambda>_. False" "outbox_event 2 ''TicketCancelled'' 1"]
    by (auto simp: candidate_def claimable_def outbox_event_def d1(1) seconds_def)
  have "ce_id ev' \<noteq> ce_id ev"
    by (rule claim_hides_event [OF 1 refl _ 2]) (simp add: seconds_def)
  with 1 2 ev ev' show ?thesis by simp
qed

text \<open>
  C38 (retry delays). The delay before the next attempt is between 2 and 256 seconds whatever the number of
  attempts, never shrinks from one attempt to the next, and so never reaches its cap of 300 seconds.
\<close>

theorem retry_delay_bounds:
  "2 \<le> retry_delay_seconds a \<and> retry_delay_seconds a \<le> 256 \<and>
   retry_delay_seconds a \<le> retry_delay_seconds (a + 1)"
proof -
  define k where "k x = nat (max 1 (min x 8))" for x :: int
  have k: "1 \<le> k a" "k a \<le> 8" "k a \<le> k (a + 1)" "k (a + 1) \<le> 8" by (auto simp: k_def)
  have "(2::int) ^ 1 \<le> 2 ^ k a" "(2::int) ^ k a \<le> 2 ^ 8" "(2::int) ^ k a \<le> 2 ^ k (a + 1)" "(2::int) ^ k (a + 1) \<le> 2 ^ 8"
    by (rule power_increasing; use k in simp)+
  then show ?thesis by (simp add: retry_delay_seconds_def k_def [symmetric])
qed

text \<open>
  (a routed event gets out). When the database answers and the broker confirms, one pass publishes the
  oldest claimable event: the pass goes on, the event is marked as published and confirmed, and the message
  the broker saw carries its content under its route.
\<close>

theorem routed_event_published:
  assumes "db_faults (ob_db st) = []" "tables_ok (rows (ob_db st))"
    and "candidate (oi_now inp) (oi_locked inp) (rows (ob_db st)) = Some e"
    and "route_for (oe_event_type e) \<noteq> None" "\<forall>m. oi_broker inp m = Inr ConfirmAck"
  shows "\<exists>st' r. run_pass E env inp st = (True, st') \<and> route_for (oe_event_type e) = Some r \<and>
    ob_channel st' = (event_message E env (event_claim e) r, Inr ConfirmAck) # ob_channel st \<and>
    (\<exists>e' \<in> set (outbox_events (rows (ob_db st'))). event_content e' = event_content e \<and>
       oe_published_at e' = Some (oi_now inp))"
proof -
  let ?ev = "\<lparr>ce_id = oe_id e, ce_aggregate_id = oe_aggregate_id e, ce_event_type = oe_event_type e,
    ce_payload = oe_payload e, ce_attempts = oe_attempts e + 1\<rparr>"
  let ?d = "(ob_db st)\<lparr>rows := claim_stmt (oi_now inp) (oe_id e) (rows (ob_db st))\<rparr>"
  obtain r where r: "route_for (oe_event_type e) = Some r" using assms(4) by blast
  let ?x = "(event_message E env (event_claim e) r, Inr ConfirmAck)"
  have "event_message E env ?ev r = event_message E env (event_claim e) r" by (rule event_message_cong) simp_all
  then have pub: "publish_outbox E env (oi_broker inp) ?ev = (Inr (), [?x])"
    using r assms(5) by (simp add: publish_outbox_def Let_def)
  have ok: "db_faults ?d = []" "tables_ok (rows ?d)"
    using assms(1,2) by (simp_all add: claim_stmt_def tables_ok_update_event)
  note e = candidate_SomeD(1) [OF assms(3)]
  let ?T = "run_all (published_stmts (oi_now inp) ?ev) (rows ?d)"
  let ?e1 = "e\<lparr>oe_processing_at := Some (oi_now inp), oe_attempts := oe_attempts e + 1\<rparr>"
  let ?e2 = "?e1\<lparr>oe_published_at := Some (oi_now inp), oe_processing_at := None, oe_last_error := None\<rparr>"
  have run: "run_pass E env inp st =
      (True, st\<lparr>ob_db := ?d\<lparr>rows := ?T\<rparr>, ob_channel := ?x # ob_channel st\<rparr>)"
    by (simp add: run_pass_def claim_next_no_faults [OF assms(1-3)] pub mark_published_no_faults [OF ok])
  have "?e1 \<in> set (outbox_events (rows ?d))"
    using update_rows_hit [OF e, of "\<lambda>r. oe_id r = oe_id e"] by (simp add: claim_stmt_def)
  from update_rows_hit [OF this, of "\<lambda>r. oe_id r = oe_id e"
      "\<lambda>e. e\<lparr>oe_published_at := Some (oi_now inp), oe_processing_at := None, oe_last_error := None\<rparr>"]
  have "?e2 \<in> set (outbox_events ?T)" by (simp add: published_stmts_def)
  then show ?thesis unfolding run using r by (auto simp: event_content_def intro!: bexI [of _ ?e2])
qed

theorem routed_event_published_witness:
  "\<exists>st'. run_pass outbox_crates (\<lambda>_. None) (outbox_in 5 (Inr ConfirmAck))
     (outbox_world [outbox_event 1 ''OrderCompleted'' 0]) = (True, st') \<and> map snd (ob_channel st') = [Inr ConfirmAck]"
  using routed_event_published [of "outbox_world [outbox_event 1 ''OrderCompleted'' 0]" "outbox_in 5 (Inr ConfirmAck)"
      "outbox_event 1 ''OrderCompleted'' 0" outbox_crates "\<lambda>_. None"]
  by (auto simp: candidate_def claimable_def outbox_event_def route_for_def)

text \<open>
  (a failed event comes back). When the database answers and publishing the claimed event fails without
  the event being given up, the pass ends with its row released: it is claimable again, by anybody, as soon as
  its delay of at most 256 seconds has passed, and no earlier.
\<close>

theorem failed_event_comes_back:
  assumes "db_faults (ob_db st) = []" "tables_ok (rows (ob_db st))"
    and "candidate (oi_now inp) (oi_locked inp) (rows (ob_db st)) = Some e"
    and "route_for (oe_event_type e) \<noteq> None \<or> oe_attempts e + 1 < MAX_ATTEMPTS"
    and "\<forall>m. oi_broker inp m \<noteq> Inr ConfirmAck"
  shows "\<exists>st'. run_pass E env inp st = (False, st') \<and>
    (\<exists>e' \<in> set (outbox_events (rows (ob_db st'))). event_content e' = event_content e \<and>
       (claimable t (\<lambda>_. False) e' \<longleftrightarrow>
          oi_now inp + seconds (retry_delay_seconds (oe_attempts e + 1)) \<le> t))"
proof -
  let ?ev = "\<lparr>ce_id = oe_id e, ce_aggregate_id = oe_aggregate_id e, ce_event_type = oe_event_type e,
    ce_payload = oe_payload e, ce_attempts = oe_attempts e + 1\<rparr>"
  let ?d = "(ob_db st)\<lparr>rows := claim_stmt (oi_now inp) (oe_id e) (rows (ob_db st))\<rparr>"
  obtain err sent where pub: "publish_outbox E env (oi_broker inp) ?ev = (Inl err, sent)"
    using assms(5) by (fastforce simp: publish_outbox_def Let_def split: option.splits sum.splits confirmation.splits)
  have ok: "db_faults ?d = []" "tables_ok (rows ?d)"
    using assms(1,2) by (simp_all add: claim_stmt_def tables_ok_update_event)
  have nd: "\<not> should_dead_letter (oe_attempts e + 1) (route_for (oe_event_type e) = None)"
    using assms(4) by (auto simp: should_dead_letter_def)
  note e = candidate_SomeD(1,2) [OF assms(3)]
  let ?T = "run_all (failed_stmts (oi_now inp) ?ev err (route_for (oe_event_type e) = None)) (rows ?d)"
  let ?f = "\<lambda>r. r\<lparr>oe_processing_at := None,
    oe_next_attempt_at := oi_now inp + seconds (retry_delay_seconds (oe_attempts e + 1)), oe_last_error := Some err\<rparr>"
  let ?e1 = "e\<lparr>oe_processing_at := Some (oi_now inp), oe_attempts := oe_attempts e + 1\<rparr>"
  have run: "run_pass E env inp st = (False, st\<lparr>ob_db := ?d\<lparr>rows := ?T\<rparr>, ob_channel := sent @ ob_channel st\<rparr>)"
    by (simp add: run_pass_def claim_next_no_faults [OF assms(1-3)] pub mark_failed_no_faults [OF ok])
  have "?e1 \<in> set (outbox_events (rows ?d))"
    using update_rows_hit [OF e(1), of "\<lambda>r. oe_id r = oe_id e"] by (simp add: claim_stmt_def)
  from update_rows_hit [OF this, of "\<lambda>r. oe_id r = oe_id e" ?f]
  have "?f ?e1 \<in> set (outbox_events ?T)" using nd by (simp add: failed_stmts_def)
  then show ?thesis
    unfolding run using e(2) by (auto simp: event_content_def claimable_def intro!: bexI [of _ "?f ?e1"])
qed

theorem failed_event_comes_back_witness:
  "\<exists>st'. run_pass outbox_crates (\<lambda>_. None) (outbox_in 5 (Inr ConfirmNack))
     (outbox_world [outbox_event 1 ''OrderCompleted'' 0]) = (False, st') \<and>
     (\<exists>e' \<in> set (outbox_events (rows (ob_db st'))). claimable 2000005 (\<lambda>_. False) e')"
  using failed_event_comes_back [of "outbox_world [outbox_event 1 ''OrderCompleted'' 0]" "outbox_in 5 (Inr ConfirmNack)"
      "outbox_event 1 ''OrderCompleted'' 0" outbox_crates "\<lambda>_. None" 2000005]
  by (auto simp: candidate_def claimable_def outbox_event_def route_for_def retry_delay_seconds_def seconds_def)

end
