(* ===== verification/Notification.thy ===== *)
theory Notification
  imports Payment_Processor
begin

text \<open>
  The notification worker (\<open>apps/notification-worker/src\<close>): it consumes the booking events, issues tickets and
  sends mails. Modelled are the consumer with both event kinds and every early return, the look-up of the
  recipient, the mail configuration and the settings of the ticket upload. Rendering, SMTP, PDF and storage
  clients, URL parsing and date formatting are third-party code and come as parameters.
\<close>

section \<open>Settings\<close>

text \<open>A variable that is set to something other than blanks or a pair of quotes.\<close>

definition configured :: "env \<Rightarrow> string \<Rightarrow> string option" where
  "configured env k =
     (case env k of
        Some v \<Rightarrow> if trim v \<noteq> [] \<and> v \<noteq> [CHR 0x22, CHR 0x22] \<and> v \<noteq> [CHR 0x27, CHR 0x27] then Some v else None
      | None \<Rightarrow> None)"

record SmtpConfig =
  smtp_host :: string
  smtp_port :: int
  smtp_secure :: bool
  smtp_user :: string
  smtp_password :: string
  smtp_from :: string

definition in_u16 :: "int \<Rightarrow> bool" where
  "in_u16 n \<longleftrightarrow> 0 \<le> n \<and> n < 2 ^ 16"

definition smtp_credentials :: "env \<Rightarrow> string + string \<times> string" where
  "smtp_credentials env =
     (case (configured env ''SMTP_USER'', configured env ''SMTP_PASS'') of
        (Some u, Some p) \<Rightarrow> Inr (u, p)
      | (None, None) \<Rightarrow>
          (case configured env ''GMAIL_USER'' of
             None \<Rightarrow> Inl ''SMTP_USER or GMAIL_USER is required''
           | Some u \<Rightarrow>
               (case configured env ''GMAIL_APP_PASSWORD'' of
                  None \<Rightarrow> Inl ''SMTP_PASS or GMAIL_APP_PASSWORD is required''
                | Some p \<Rightarrow> Inr (u, p)))
      | _ \<Rightarrow> Inl ''SMTP_USER and SMTP_PASS must be configured together'')"

definition smtp_tls :: "env \<Rightarrow> int \<Rightarrow> string + bool" where
  "smtp_tls env port =
     (case configured env ''SMTP_SECURE'' of
        None \<Rightarrow> Inr (port = 465)
      | Some v \<Rightarrow>
          if v = ''true'' then Inr True
          else if v = ''false'' then Inr False
          else Inl ''SMTP_SECURE must be true or false'')"

definition from_lookup :: "env \<Rightarrow> string + SmtpConfig" where
  "from_lookup env =
     (case smtp_credentials env of
        Inl e \<Rightarrow> Inl e
      | Inr (user, password) \<Rightarrow>
          (let host = (case configured env ''SMTP_HOST'' of Some h \<Rightarrow> h | None \<Rightarrow> ''smtp.gmail.com'')
           in case parse_within in_u16 (case configured env ''SMTP_PORT'' of Some p \<Rightarrow> p | None \<Rightarrow> ''465'') of
                None \<Rightarrow> Inl ''SMTP_PORT must be a valid port''
              | Some port \<Rightarrow>
                  if port = 0 then Inl ''SMTP_PORT must be nonzero''
                  else case smtp_tls env port of
                         Inl e \<Rightarrow> Inl e
                       | Inr secure \<Rightarrow>
                           if port = 465 \<and> \<not> secure then Inl ''SMTP port 465 requires SMTP_SECURE=true''
                           else if port = 587 \<and> secure
                           then Inl ''SMTP port 587 requires SMTP_SECURE=false (STARTTLS)''
                           else Inr \<lparr>smtp_host = host, smtp_port = port, smtp_secure = secure, smtp_user = user,
                                  smtp_password = password,
                                  smtp_from = (case configured env ''SMTP_FROM'' of Some f \<Rightarrow> f | None \<Rightarrow> user)\<rparr>))"

definition trim_end_slash :: "string \<Rightarrow> string" where
  "trim_end_slash s = rev (dropWhile (\<lambda>c. c = CHR ''/'') (rev s))"

definition resolve_endpoint :: "string \<Rightarrow> string option \<Rightarrow> string option" where
  "resolve_endpoint account_id configured_url =
     (let expected = ''https://'' @ account_id @ ''.r2.cloudflarestorage.com''
      in case map_option trim configured_url of
           None \<Rightarrow> Some expected
         | Some v \<Rightarrow>
             if v \<in> {[], [CHR 0x22, CHR 0x22], [CHR 0x27, CHR 0x27]} then Some expected
             else if trim_end_slash v = expected then Some expected else None)"

section \<open>Data of a notification\<close>

record TicketPdfRequest =
  pdf_order_id :: string
  pdf_show_name :: string
  pdf_show_time :: string
  pdf_place :: string
  pdf_venue :: string
  pdf_price :: string
  pdf_seat_numbers :: "string list"

record BookingEmailData =
  be_order_id :: string
  be_venue :: string
  be_show_time :: string
  be_seats :: "string list"
  be_seat_count :: nat
  be_amount :: string
  be_ticket_url :: string
  be_support_email :: string

record CancellationEmailData =
  cx_order_id :: string
  cx_seats :: "string list"
  cx_seat_count :: nat
  cx_refund_amount :: string
  cx_support_email :: string

datatype mail = BookingMail BookingEmailData | CancellationMail CancellationEmailData

record url =
  url_scheme :: string
  url_has_host :: bool
  url_path :: string

text \<open>
  Third-party functions the worker calls: \<open>reqwest\<close>'s URL parser, the text of a JSON number read as \<open>f64\<close>, and
  \<open>chrono\<close>'s rendering of a start time.
\<close>

record notify_crates =
  parse_url :: "string \<Rightarrow> url option"
  f64_text :: "json \<Rightarrow> string option"
  show_time_text :: "timestamp \<Rightarrow> string"

definition str_contains :: "string \<Rightarrow> string \<Rightarrow> bool" where
  "str_contains sub s \<longleftrightarrow> list_ex (\<lambda>i. take (length sub) (drop i s) = sub) [0..<Suc (length s)]"

definition valid_pdf_url :: "notify_crates \<Rightarrow> string \<Rightarrow> bool" where
  "valid_pdf_url N v =
     (case parse_url N v of
        None \<Rightarrow> False
      | Some u \<Rightarrow>
          url_scheme u \<in> {''http'', ''https''} \<and> url_has_host u \<and> \<not> str_contains ''/tickets/default'' (url_path u))"

definition amount_text :: "notify_crates \<Rightarrow> json \<Rightarrow> string" where
  "amount_text N payload =
     (case as_str (jget payload ''amount'') of
        Some s \<Rightarrow> s
      | None \<Rightarrow> (case f64_text N (jget payload ''amount'') of Some s \<Rightarrow> s | None \<Rightarrow> ''0''))"

definition support_email :: "env \<Rightarrow> string" where
  "support_email env = (case env ''SUPPORT_EMAIL'' of Some s \<Rightarrow> s | None \<Rightarrow> ''support@bookit4u.shop'')"

definition get_user_email :: "user_id \<Rightarrow> database \<Rightarrow> string \<times> database" where
  "get_user_email u d =
     (case query (\<lambda>T. map us_email (filter (\<lambda>r. us_id r = u) (users T))) d of
        (res, d1) \<Rightarrow> (case res of Some (e # _) \<Rightarrow> e | _ \<Rightarrow> ''bookit985@gmail.com'', d1))"

definition seat_labels_of :: "seat_id list \<Rightarrow> tables \<Rightarrow> string list" where
  "seat_labels_of ts T =
     map (\<lambda>r. ss_row_letter r @ dec (ss_seat_number r)) (filter (\<lambda>r. ss_id r \<in> set ts) (schedule_seats T))"

section \<open>The worker\<close>

text \<open>
  A delivery with what it draws from outside: the clock, fresh identifiers (ticket, its audit, the mail's audit),
  and the answers of the PDF upload (a URL, or an error) and of the mail server.
\<close>

record notice =
  nt_payload :: "json option"
  nt_now :: timestamp
  nt_ids :: "Uuid \<times> Uuid \<times> Uuid"
  nt_pdf :: "TicketPdfRequest \<Rightarrow> string option"
  nt_mail :: "string \<Rightarrow> mail \<Rightarrow> bool"

record notifier =
  nf_db :: database
  nf_mails :: "(string \<times> mail) list"  \<comment> \<open>mails handed to the mail server, latest first\<close>

definition notify_audit :: "crates \<Rightarrow> timestamp \<Rightarrow> Uuid \<Rightarrow> user_id \<Rightarrow> string \<Rightarrow> Uuid \<Rightarrow> string \<Rightarrow> json \<Rightarrow> UserAudit" where
  "notify_audit E now i u action oid amount details =
     \<lparr>ua_id = i, ua_user_id = u, ua_action = action, ua_order_id = oid, ua_amount = parsed_amount E amount,
      ua_details = details, ua_created_at = now\<rparr>"

definition ticket_stmts ::
    "crates \<Rightarrow> timestamp \<Rightarrow> Uuid \<times> Uuid \<Rightarrow> Ticket option \<Rightarrow> Uuid \<Rightarrow> user_id \<Rightarrow> schedule_id \<Rightarrow> seat_id list \<Rightarrow> string \<Rightarrow>
     string \<Rightarrow> (tables \<Rightarrow> tables) list" where
  "ticket_stmts E now ids existing oid u s ts pdf_url amount =
     (case existing of
        Some t \<Rightarrow>
          [\<lambda>T. T\<lparr>tickets := update_rows (\<lambda>r. tk_id r = tk_id t) (\<lambda>r. r\<lparr>tk_pdf_url := pdf_url\<rparr>) (tickets T)\<rparr>]
      | None \<Rightarrow>
          [\<lambda>T. T\<lparr>tickets := tickets T @
             [\<lparr>tk_id = fst ids, tk_order_id = oid, tk_user_id = u, tk_schedule_id = s, tk_seat_ids = seats_json ts,
               tk_pdf_url = pdf_url, tk_status = ''active'', tk_created_at = now, tk_updated_at = now\<rparr>]\<rparr>,
           \<lambda>T. T\<lparr>user_audits := user_audits T @
             [notify_audit E now (snd ids) u ''ticket_created'' oid amount
                (JObj [(''pdf_url'', JStr pdf_url), (''seat_ids'', seats_json ts)])]\<rparr>])"

definition mail_audit_stmt :: "crates \<Rightarrow> timestamp \<Rightarrow> Uuid \<Rightarrow> user_id \<Rightarrow> Uuid \<Rightarrow> string \<Rightarrow> string \<Rightarrow> tables \<Rightarrow> tables" where
  "mail_audit_stmt E now i u oid amount pdf_url T =
     T\<lparr>user_audits := user_audits T @
        [notify_audit E now i u ''booking_email_sent'' oid amount (JObj [(''ticket_url'', JStr pdf_url)])]\<rparr>"

text \<open>The mail and its audit, after the ticket is in the database.\<close>

definition mail_ticket ::
    "crates \<Rightarrow> env \<Rightarrow> notice \<Rightarrow> Uuid \<Rightarrow> user_id \<Rightarrow> string \<Rightarrow> string \<Rightarrow> string list \<Rightarrow> string \<Rightarrow> string \<Rightarrow> notifier \<Rightarrow>
     disposition \<times> notifier" where
  "mail_ticket E env n oid u venue show_time labels amount pdf_url st =
     (let (email, d1) = get_user_email u (nf_db st);
          m = BookingMail \<lparr>be_order_id = show_uuid E oid, be_venue = venue, be_show_time = show_time, be_seats = labels,
                be_seat_count = length labels, be_amount = amount, be_ticket_url = pdf_url,
                be_support_email = support_email env\<rparr>;
          st1 = st\<lparr>nf_db := d1\<rparr>
      in if \<not> nt_mail n email m then (Nacked False, st1)
         else (case execute (mail_audit_stmt E (nt_now n) (snd (snd (nt_ids n))) u oid amount pdf_url) d1 of
                 (res, d2) \<Rightarrow>
                   (if res = Inr () then Acked else Nacked False,
                    st1\<lparr>nf_db := d2, nf_mails := (email, m) # nf_mails st\<rparr>)))"

definition ticket_of :: "Uuid \<Rightarrow> tables \<Rightarrow> Ticket option" where
  "ticket_of oid T = (case filter (\<lambda>r. tk_order_id r = oid) (tickets T) of [] \<Rightarrow> None | r # _ \<Rightarrow> Some r)"

definition mail_recorded :: "Uuid \<Rightarrow> tables \<Rightarrow> bool" where
  "mail_recorded oid T \<longleftrightarrow>
     list_ex (\<lambda>r. ua_order_id r = oid \<and> ua_action r = ''booking_email_sent'') (user_audits T)"

text \<open>From the schedule details on: labels, PDF, ticket transaction, mail. \<open>d\<close> is the connection in use.\<close>

definition issue_ticket ::
    "crates \<Rightarrow> notify_crates \<Rightarrow> env \<Rightarrow> notice \<Rightarrow> json \<Rightarrow> Uuid \<Rightarrow> Ticket option \<Rightarrow> notifier \<Rightarrow> disposition \<times> notifier" where
  "issue_ticket E N env n payload oid existing st =
     (let u = i32_field payload ''user_id''; s = schedule_field payload; ts = parse_seat_ids payload;
          amount = amount_text N payload;
          (details, d1) = query (\<lambda>T. map (\<lambda>r. (sc_venue_name r, sc_start_time r)) (filter (\<lambda>r. sc_id r = s) (schedules T)))
            (nf_db st);
          schedule = (case details of Some (x # _) \<Rightarrow> Some x | _ \<Rightarrow> None);
          venue = (case Option.bind schedule fst of Some v \<Rightarrow> v | None \<Rightarrow> ''BookIt Venue'');
          show_time = (case schedule of Some x \<Rightarrow> show_time_text N (snd x) | None \<Rightarrow> ''See your ticket for schedule details'');
          (ok, d2) = db_get d1;
          (labels, d3) =
            (if ok then (case query (seat_labels_of ts) d2 of
                           (res, d3) \<Rightarrow> (case res of Some xs \<Rightarrow> xs | None \<Rightarrow> [], d3))
             else (map dec ts, d2));
          pdf = (case Option.bind existing (\<lambda>t. if valid_pdf_url N (tk_pdf_url t) then Some (tk_pdf_url t) else None) of
                   Some v \<Rightarrow> Some v
                 | None \<Rightarrow>
                     nt_pdf n \<lparr>pdf_order_id = show_uuid E oid, pdf_show_name = ''BookIt Show Ticket'',
                       pdf_show_time = show_time, pdf_place = ''Main Theater'', pdf_venue = venue, pdf_price = amount,
                       pdf_seat_numbers = labels\<rparr>)
      in case pdf of
           None \<Rightarrow> (Nacked False, st\<lparr>nf_db := d3\<rparr>)
         | Some pdf_url \<Rightarrow>
             (case transaction (ticket_stmts E (nt_now n) (fst (nt_ids n), fst (snd (nt_ids n))) existing oid u s ts
                 pdf_url amount) d3 of
                (Inl _, d4) \<Rightarrow> (Nacked False, st\<lparr>nf_db := d4\<rparr>)
              | (Inr _, d4) \<Rightarrow> mail_ticket E env n oid u venue show_time labels amount pdf_url (st\<lparr>nf_db := d4\<rparr>)))"

definition process_order_completed ::
    "crates \<Rightarrow> notify_crates \<Rightarrow> env \<Rightarrow> notice \<Rightarrow> json \<Rightarrow> notifier \<Rightarrow> disposition \<times> notifier" where
  "process_order_completed E N env n payload st =
     (case parse_uuid E (str_field payload ''order_id'' []) of
        None \<Rightarrow> (Acked, st)
      | Some oid \<Rightarrow>
          (case db_get (nf_db st) of (ok, d1) \<Rightarrow>
             if \<not> ok then (Nacked False, st\<lparr>nf_db := d1\<rparr>)
             else (case query (ticket_of oid) d1 of
                     (None, d2) \<Rightarrow> (Nacked False, st\<lparr>nf_db := d2\<rparr>)
                   | (Some existing, d2) \<Rightarrow>
                       (case query (mail_recorded oid) d2 of
                          (None, d3) \<Rightarrow> (Nacked False, st\<lparr>nf_db := d3\<rparr>)
                        | (Some True, d3) \<Rightarrow> (Acked, st\<lparr>nf_db := d3\<rparr>)
                        | (Some False, d3) \<Rightarrow>
                            (case existing of
                               Some t \<Rightarrow>
                                 if tk_status t \<noteq> ''active'' then (Acked, st\<lparr>nf_db := d3\<rparr>)
                                 else issue_ticket E N env n payload oid existing (st\<lparr>nf_db := d3\<rparr>)
                             | None \<Rightarrow> issue_ticket E N env n payload oid existing (st\<lparr>nf_db := d3\<rparr>))))))"

definition process_ticket_cancelled ::
    "notify_crates \<Rightarrow> env \<Rightarrow> notice \<Rightarrow> json \<Rightarrow> notifier \<Rightarrow> disposition \<times> notifier" where
  "process_ticket_cancelled N env n payload st =
     (let u = i32_field payload ''user_id''; ts = parse_seat_ids payload
      in case db_get (nf_db st) of (ok, d1) \<Rightarrow>
           if \<not> ok then (Nacked False, st\<lparr>nf_db := d1\<rparr>)
           else
             (let (email, d2) = get_user_email u d1;
                  (res, d3) = query (seat_labels_of ts) d2;
                  labels = (case res of Some xs \<Rightarrow> xs | None \<Rightarrow> []);
                  seats = (if labels = [] then map dec ts else labels);
                  m = CancellationMail \<lparr>cx_order_id = str_field payload ''order_id'' [], cx_seats = seats,
                        cx_seat_count = length seats, cx_refund_amount = amount_text N payload,
                        cx_support_email = support_email env\<rparr>;
                  st1 = st\<lparr>nf_db := d3\<rparr>
              in if nt_mail n email m then (Acked, st1\<lparr>nf_mails := (email, m) # nf_mails st\<rparr>)
                 else (Nacked False, st1)))"

definition process_notice ::
    "crates \<Rightarrow> notify_crates \<Rightarrow> env \<Rightarrow> notice \<Rightarrow> notifier \<Rightarrow> disposition \<times> notifier" where
  "process_notice E N env n st =
     (case nt_payload n of
        None \<Rightarrow> (Nacked False, st)
      | Some payload \<Rightarrow>
          (let ty = str_field payload ''event_type'' []
           in if ty = ''OrderCompleted'' \<or> ty = ''BookingSuccess'' then process_order_completed E N env n payload st
              else if ty = ''TicketCancelled'' then process_ticket_cancelled N env n payload st
              else (Acked, st)))"

fun process_notices ::
    "crates \<Rightarrow> notify_crates \<Rightarrow> env \<Rightarrow> notice option list \<Rightarrow> notifier \<Rightarrow> disposition list \<times> notifier" where
  "process_notices E N env [] st = ([], st)"
| "process_notices E N env (None # ns) st = process_notices E N env ns st"
| "process_notices E N env (Some n # ns) st =
     (let (a, st1) = process_notice E N env n st; (as, st2) = process_notices E N env ns st1 in (a # as, st2))"

end
