(* ===== verification/Notification_Props.thy ===== *)
theory Notification_Props
  imports Notification Payment_Props Outbox "HOL-Library.Sublist"
begin

text \<open>
  Properties of the notification worker: tickets and audits only grow and the constraints hold along every run,
  an acknowledged booking event has been mailed, a recorded mail is never sent again, and the mail settings are
  consistent.
\<close>

section \<open>Effects of one delivery\<close>

lemma get_user_email_rows: "get_user_email u d = (e, d') \<Longrightarrow> rows d' = rows d"
  by (auto simp: get_user_email_def dest!: queryD split: prod.splits)

text \<open>What a step may do to the tables: rows are added, and of a ticket only the link to its PDF changes.\<close>

definition ticket_key :: "Ticket \<Rightarrow> Ticket" where
  "ticket_key t = t\<lparr>tk_pdf_url := []\<rparr>"

definition notify_moves :: "tables \<Rightarrow> tables \<Rightarrow> bool" where
  "notify_moves T T' \<longleftrightarrow>
     prefix (map ticket_key (tickets T)) (map ticket_key (tickets T')) \<and>
     prefix (user_audits T) (user_audits T') \<and>
     T'\<lparr>tickets := [], user_audits := []\<rparr> = T\<lparr>tickets := [], user_audits := []\<rparr> \<and>
     (tables_ok T \<longrightarrow> tables_ok T')"

lemma notify_moves_refl [simp]: "notify_moves T T"
  by (simp add: notify_moves_def)

lemma notify_moves_trans: "notify_moves T U \<Longrightarrow> notify_moves U V \<Longrightarrow> notify_moves T V"
  by (auto simp: notify_moves_def intro: prefix_order.trans)

lemma notify_moves_recorded: "notify_moves T T' \<Longrightarrow> mail_recorded oid T \<Longrightarrow> mail_recorded oid T'"
  by (auto simp: notify_moves_def mail_recorded_def elim: prefixE)

lemma ticket_stmts_moves:
  assumes "tables_ok T \<longrightarrow> tables_ok (run_all (ticket_stmts E now ids existing oid u s ts url amount) T)"
  shows "notify_moves T (run_all (ticket_stmts E now ids existing oid u s ts url amount) T)"
proof (cases existing)
  case None
  with assms show ?thesis by (simp add: notify_moves_def ticket_stmts_def)
next
  case (Some t)
  have "map ticket_key (update_rows (\<lambda>r. tk_id r = tk_id t) (\<lambda>r. r\<lparr>tk_pdf_url := url\<rparr>) (tickets T)) =
      map ticket_key (tickets T)"
    by (rule map_update_rows) (simp add: ticket_key_def)
  with Some assms show ?thesis by (simp add: notify_moves_def ticket_stmts_def)
qed

lemma mail_audit_moves:
  "tables_ok (mail_audit_stmt E now i u oid amount url T) \<Longrightarrow>
   notify_moves T (mail_audit_stmt E now i u oid amount url T)"
  by (simp add: notify_moves_def mail_audit_stmt_def)

lemma mail_audit_recorded: "mail_recorded oid (mail_audit_stmt E now i u oid amount url T)"
  by (simp add: mail_recorded_def mail_audit_stmt_def notify_audit_def)

lemma mail_ticket_effect:
  assumes "mail_ticket E env n oid u venue show_time labels amount url st = (a, st')"
  shows "notify_moves (rows (nf_db st)) (rows (nf_db st')) \<and>
    (nf_mails st' = nf_mails st \<or>
     (\<exists>email b. nf_mails st' = (email, BookingMail b) # nf_mails st \<and> be_order_id b = show_uuid E oid)) \<and>
    (a = Acked \<longrightarrow> mail_recorded oid (rows (nf_db st')))"
proof -
  obtain email d1 where g: "get_user_email u (nf_db st) = (email, d1)" by (cases "get_user_email u (nf_db st)")
  let ?st = "mail_audit_stmt E (nt_now n) (snd (snd (nt_ids n))) u oid amount url"
  obtain res d2 where x: "execute ?st d1 = (res, d2)" by (cases "execute ?st d1")
  have m: "notify_moves (rows (nf_db st)) (rows d2)"
    using execute_cases [OF x] get_user_email_rows [OF g]
    by (auto intro!: mail_audit_moves)
  moreover have "res = Inr () \<Longrightarrow> mail_recorded oid (rows d2)"
    using x by (auto dest!: execute_Inr simp: mail_audit_recorded)
  ultimately show ?thesis
    using assms get_user_email_rows [OF g] by (auto simp: mail_ticket_def Let_def g x split: if_splits)
qed

text \<open>The three ways a booking event ends.\<close>

definition notify_effect :: "crates \<Rightarrow> Uuid \<Rightarrow> disposition \<Rightarrow> notifier \<Rightarrow> notifier \<Rightarrow> bool" where
  "notify_effect E oid a st st' \<longleftrightarrow>
     notify_moves (rows (nf_db st)) (rows (nf_db st')) \<and>
     (nf_mails st' = nf_mails st \<or>
      (\<exists>email b. nf_mails st' = (email, BookingMail b) # nf_mails st \<and> be_order_id b = show_uuid E oid \<and>
         \<not> mail_recorded oid (rows (nf_db st)))) \<and>
     (a = Acked \<longrightarrow> mail_recorded oid (rows (nf_db st')) \<or>
        (\<exists>t \<in> set (tickets (rows (nf_db st'))). tk_order_id t = oid \<and> tk_status t \<noteq> ''active''))"

lemma issue_ticket_effect:
  assumes "issue_ticket E N env n payload oid existing st = (a, st')" "\<not> mail_recorded oid (rows (nf_db st))"
  shows "notify_effect E oid a st st'"
proof -
  let ?s = "schedule_field payload" and ?ts = "parse_seat_ids payload"
  obtain details d1 where q: "query (\<lambda>T. map (\<lambda>r. (sc_venue_name r, sc_start_time r))
      (filter (\<lambda>r. sc_id r = ?s) (schedules T))) (nf_db st) = (details, d1)"
    by (metis surj_pair)
  obtain ok d2 where g: "db_get d1 = (ok, d2)" by (cases "db_get d1")
  obtain labels d3 where l: "(if ok then (case query (seat_labels_of ?ts) d2 of
        (res, d3) \<Rightarrow> (case res of Some xs \<Rightarrow> xs | None \<Rightarrow> [], d3)) else (map dec ?ts, d2)) = (labels, d3)"
    by (metis surj_pair)
  have d3: "rows d3 = rows (nf_db st)"
    using l queryD [OF q] db_getD [OF g] by (auto dest!: queryD split: if_splits prod.splits)
  show ?thesis
  proof (cases "nf_db st' = d3 \<and> nf_mails st' = nf_mails st \<and> a = Nacked False")
    case True
    then show ?thesis using d3 by (simp add: notify_effect_def)
  next
    case False
    then obtain venue show_time amount url res d4 where
        t: "transaction (ticket_stmts E (nt_now n) (fst (nt_ids n), fst (snd (nt_ids n))) existing oid
          (i32_field payload ''user_id'') ?s ?ts url amount) d3 = (res, d4)"
        and e: "(\<exists>e. res = Inl e) \<and> a = Nacked False \<and> st' = st\<lparr>nf_db := d4\<rparr> \<or>
          mail_ticket E env n oid (i32_field payload ''user_id'') venue show_time labels amount url
            (st\<lparr>nf_db := d4\<rparr>) = (a, st')"
      using assms(1) by (auto simp: issue_ticket_def q g l Let_def split: option.splits prod.splits sum.splits)
    from t have m: "notify_moves (rows (nf_db st)) (rows d4)"
      using ticket_stmts_moves d3 by (cases rule: transaction_cases) fastforce+
    from e show ?thesis
    proof
      assume "(\<exists>e. res = Inl e) \<and> a = Nacked False \<and> st' = st\<lparr>nf_db := d4\<rparr>"
      with m show ?thesis by (simp add: notify_effect_def)
    next
      assume "mail_ticket E env n oid (i32_field payload ''user_id'') venue show_time labels amount url
        (st\<lparr>nf_db := d4\<rparr>) = (a, st')"
      from mail_ticket_effect [OF this] m assms(2) show ?thesis
        by (auto simp: notify_effect_def intro: notify_moves_trans)
    qed
  qed
qed

lemma notify_effect_same_rows:
  "rows (nf_db st1) = rows (nf_db st) \<Longrightarrow> nf_mails st1 = nf_mails st \<Longrightarrow>
   notify_effect E oid a st1 st' \<Longrightarrow> notify_effect E oid a st st'"
  by (simp add: notify_effect_def)

lemma process_order_completed_effect:
  assumes "process_order_completed E N env n payload st = (a, st')"
    and "parse_uuid E (str_field payload ''order_id'' []) = Some oid"
  shows "notify_effect E oid a st st'"
proof -
  obtain ok d1 where g: "db_get (nf_db st) = (ok, d1)" by (cases "db_get (nf_db st)")
  obtain ex d2 where q: "query (ticket_of oid) d1 = (ex, d2)" by (cases "query (ticket_of oid) d1")
  obtain sent d3 where s: "query (mail_recorded oid) d2 = (sent, d3)" by (cases "query (mail_recorded oid) d2")
  have r: "rows d1 = rows (nf_db st)" "rows d2 = rows (nf_db st)" "rows d3 = rows (nf_db st)"
    using db_getD [OF g] queryD [OF q] queryD [OF s] by simp_all
  let ?st = "st\<lparr>nf_db := d3\<rparr>"
  consider (quiet) "rows (nf_db st') = rows (nf_db st)" "nf_mails st' = nf_mails st" "a \<noteq> Acked"
    | (sent) "rows (nf_db st') = rows (nf_db st)" "nf_mails st' = nf_mails st" "mail_recorded oid (rows (nf_db st))"
    | (cancelled) t where "rows (nf_db st') = rows (nf_db st)" "nf_mails st' = nf_mails st"
        "ticket_of oid (rows (nf_db st)) = Some t" "tk_status t \<noteq> ''active''"
    | (issue) existing where "issue_ticket E N env n payload oid existing ?st = (a, st')"
        "\<not> mail_recorded oid (rows (nf_db st))"
  proof (cases "ok \<and> ex \<noteq> None \<and> sent = Some False")
    case False
    then have "rows (nf_db st') = rows (nf_db st) \<and> nf_mails st' = nf_mails st \<and>
        (a = Acked \<longrightarrow> mail_recorded oid (rows (nf_db st)))"
      using assms queryD [OF s] r
      by (auto simp: process_order_completed_def g q s split: if_splits option.splits bool.splits)
    then show thesis using quiet sent by blast
  next
    case True
    then have ex: "ex = Some (ticket_of oid (rows (nf_db st)))" "\<not> mail_recorded oid (rows (nf_db st))"
      using queryD [OF q] queryD [OF s] r by auto
    show thesis
    proof (cases "\<exists>t. ticket_of oid (rows (nf_db st)) = Some t \<and> tk_status t \<noteq> ''active''")
      case True
      then obtain t where "ticket_of oid (rows (nf_db st)) = Some t" "tk_status t \<noteq> ''active''" by blast
      moreover from this have "st' = ?st"
        using assms \<open>ok \<and> ex \<noteq> None \<and> sent = Some False\<close> ex(1) by (simp add: process_order_completed_def g q s)
      ultimately show thesis using cancelled r by simp
    next
      case False
      then have "issue_ticket E N env n payload oid (ticket_of oid (rows (nf_db st))) ?st = (a, st')"
        using assms \<open>ok \<and> ex \<noteq> None \<and> sent = Some False\<close> ex(1)
        by (auto simp: process_order_completed_def g q s split: option.splits)
      then show thesis using issue ex(2) by blast
    qed
  qed
  then show ?thesis
  proof cases
    case (cancelled t)
    then have "t \<in> set (tickets (rows (nf_db st)))" "tk_order_id t = oid"
      by (auto simp: ticket_of_def filter_eq_Cons_iff split: list.splits)
    with cancelled show ?thesis by (auto simp: notify_effect_def)
  next
    case (issue existing)
    then have "notify_effect E oid a ?st st'" by (intro issue_ticket_effect) (simp_all add: r)
    then show ?thesis by (rule notify_effect_same_rows [rotated 2]) (simp_all add: r)
  qed (simp_all add: notify_effect_def)
qed

lemma process_ticket_cancelled_effect:
  assumes "process_ticket_cancelled N env n payload st = (a, st')"
  shows "rows (nf_db st') = rows (nf_db st) \<and>
    (nf_mails st' = nf_mails st \<and> a = Nacked False \<or>
     (\<exists>email x. nf_mails st' = (email, CancellationMail x) # nf_mails st) \<and> a = Acked)"
  using assms
  by (auto simp: process_ticket_cancelled_def Let_def
      dest!: db_getD get_user_email_rows queryD split: prod.splits if_splits)

section \<open>Runs\<close>

text \<open>The orders a booking mail may be about: those without a recorded mail when the run started.\<close>

definition fresh_mail :: "crates \<Rightarrow> tables \<Rightarrow> string \<times> mail \<Rightarrow> bool" where
  "fresh_mail E T x \<longleftrightarrow>
     (case snd x of
        BookingMail b \<Rightarrow> (\<exists>oid. be_order_id b = show_uuid E oid \<and> \<not> mail_recorded oid T)
      | CancellationMail c \<Rightarrow> True)"

definition mails_move :: "crates \<Rightarrow> notifier \<Rightarrow> notifier \<Rightarrow> bool" where
  "mails_move E st st' \<longleftrightarrow>
     notify_moves (rows (nf_db st)) (rows (nf_db st')) \<and>
     (\<exists>new. nf_mails st' = new @ nf_mails st \<and> list_all (fresh_mail E (rows (nf_db st))) new)"

lemma mails_move_refl [simp]: "mails_move E st st"
  by (simp add: mails_move_def)

lemma fresh_mail_mono: "notify_moves T T' \<Longrightarrow> fresh_mail E T' x \<Longrightarrow> fresh_mail E T x"
  by (auto simp: fresh_mail_def split: mail.splits dest: notify_moves_recorded)

lemma mails_move_trans: "mails_move E st st1 \<Longrightarrow> mails_move E st1 st2 \<Longrightarrow> mails_move E st st2"
  by (fastforce simp: mails_move_def list_all_iff intro: notify_moves_trans fresh_mail_mono)

lemma notify_effect_mails: "notify_effect E oid a st st' \<Longrightarrow> mails_move E st st'"
  by (auto simp: notify_effect_def mails_move_def fresh_mail_def)

lemma process_notice_move:
  assumes "process_notice E N env n st = (a, st')"
  shows "mails_move E st st'"
proof (cases "nt_payload n")
  case None
  with assms show ?thesis by (simp add: process_notice_def)
next
  case (Some payload)
  let ?ty = "str_field payload ''event_type'' []"
  consider (same) "st' = st" | (order) oid where "process_order_completed E N env n payload st = (a, st')"
        "parse_uuid E (str_field payload ''order_id'' []) = Some oid"
    | (cancel) "process_ticket_cancelled N env n payload st = (a, st')"
    using assms Some
    by (cases "parse_uuid E (str_field payload ''order_id'' [])")
      (auto simp: process_notice_def Let_def process_order_completed_def split: if_splits)
  then show ?thesis
  proof cases
    case (order oid)
    then show ?thesis by (blast intro: notify_effect_mails process_order_completed_effect)
  next
    case cancel
    from process_ticket_cancelled_effect [OF this] show ?thesis
      by (auto simp: mails_move_def fresh_mail_def)
  qed simp
qed

lemma process_notices_move:
  "process_notices E N env ns st = (as, st') \<Longrightarrow> mails_move E st st'"
proof (induction E N env ns st arbitrary: as st' rule: process_notices.induct)
  case (3 E N env n ns st)
  obtain a st1 where n: "process_notice E N env n st = (a, st1)" by (cases "process_notice E N env n st")
  obtain as1 st2 where r: "process_notices E N env ns st1 = (as1, st2)" by (cases "process_notices E N env ns st1")
  from 3 n r have "mails_move E st1 st'" by simp
  with process_notice_move [OF n] show ?case by (rule mails_move_trans)
qed simp_all

section \<open>A delivery without failures\<close>

lemma run_stmts_delivered:
  "db_faults d = [] \<Longrightarrow> tables_ok (f (rows d)) \<Longrightarrow> run_stmts (f # fs) d = run_stmts fs (d\<lparr>rows := f (rows d)\<rparr>)"
  by (simp add: checked_def)

lemma transaction_delivered:
  "db_faults d = [] \<Longrightarrow> run_stmts fs d = (Inr (), d\<lparr>rows := T\<rparr>) \<Longrightarrow> transaction fs d = (Inr (), d\<lparr>rows := T\<rparr>)"
  by (simp add: transaction_def)

lemma execute_delivered:
  "db_faults d = [] \<Longrightarrow> tables_ok (f (rows d)) \<Longrightarrow> execute f d = (Inr (), d\<lparr>rows := f (rows d)\<rparr>)"
  by (simp add: execute_def checked_def)

lemma tables_ok_add_ticket:
  assumes "tables_ok T" "tk_id t \<notin> tk_id ` set (tickets T)" "tk_order_id t \<notin> tk_order_id ` set (tickets T)"
    and "tk_order_id t \<in> od_id ` set (orders T)" "tk_user_id t \<in> us_id ` set (users T)"
    and "tk_schedule_id t \<in> sc_id ` set (schedules T)"
  shows "tables_ok (T\<lparr>tickets := tickets T @ [t]\<rparr>)"
  using assms unfolding tables_ok_def keys_ok_def refs_ok_def by simp

lemma tables_ok_add_audit:
  assumes "tables_ok T" "ua_id r \<notin> ua_id ` set (user_audits T)" "ua_order_id r \<in> od_id ` set (orders T)"
    and "ua_user_id r \<in> us_id ` set (users T)"
  shows "tables_ok (T\<lparr>user_audits := user_audits T @ [r]\<rparr>)"
  using assms unfolding tables_ok_def keys_ok_def refs_ok_def by simp

text \<open>The identifiers drawn by a delivery are new.\<close>

definition fresh_ids :: "notice \<Rightarrow> tables \<Rightarrow> bool" where
  "fresh_ids n T \<longleftrightarrow>
     (case nt_ids n of (i, j, k) \<Rightarrow>
        i \<notin> tk_id ` set (tickets T) \<and> j \<notin> ua_id ` set (user_audits T) \<and> k \<notin> ua_id ` set (user_audits T) \<and> j \<noteq> k)"

definition issued_ticket :: "timestamp \<Rightarrow> Uuid \<Rightarrow> Order \<Rightarrow> seat_id list \<Rightarrow> string \<Rightarrow> Ticket" where
  "issued_ticket now i r ts url =
     \<lparr>tk_id = i, tk_order_id = od_id r, tk_user_id = od_user_id r, tk_schedule_id = od_schedule_id r,
      tk_seat_ids = seats_json ts, tk_pdf_url = url, tk_status = ''active'', tk_created_at = now, tk_updated_at = now\<rparr>"

lemma order_refs:
  "tables_ok T \<Longrightarrow> r \<in> set (orders T) \<Longrightarrow>
   od_user_id r \<in> us_id ` set (users T) \<and> od_schedule_id r \<in> sc_id ` set (schedules T)"
  by (auto simp: tables_ok_def refs_ok_def)

lemma issue_ticket_no_faults:
  fixes T :: tables
  assumes "db_faults (nf_db st) = []" "rows (nf_db st) = T" "tables_ok T" "r \<in> set (orders T)"
    and "i32_field payload ''user_id'' = od_user_id r" "schedule_field payload = od_schedule_id r"
    and "od_id r \<notin> tk_order_id ` set (tickets T)" "fresh_ids n T"
    and "\<forall>q. nt_pdf n q = Some url" "\<forall>e m. nt_mail n e m"
  shows "\<exists>st' email b. issue_ticket E N env n payload (od_id r) None st = (Acked, st') \<and>
    tickets (rows (nf_db st')) =
      tickets T @ [issued_ticket (nt_now n) (fst (nt_ids n)) r (parse_seat_ids payload) url] \<and>
    mail_recorded (od_id r) (rows (nf_db st')) \<and>
    nf_mails st' = (email, BookingMail b) # nf_mails st \<and> be_order_id b = show_uuid E (od_id r) \<and>
    be_ticket_url b = url"
proof -
  obtain i j k where ids: "nt_ids n = (i, j, k)" by (cases "nt_ids n")
  let ?ts = "parse_seat_ids payload" and ?amount = "amount_text N payload"
  let ?t = "issued_ticket (nt_now n) i r ?ts url"
  let ?a = "notify_audit E (nt_now n) j (od_user_id r) ''ticket_created'' (od_id r) ?amount
      (JObj [(''pdf_url'', JStr url), (''seat_ids'', seats_json ?ts)])"
  let ?b = "notify_audit E (nt_now n) k (od_user_id r) ''booking_email_sent'' (od_id r) ?amount
      (JObj [(''ticket_url'', JStr url)])"
  let ?T1 = "T\<lparr>tickets := tickets T @ [?t]\<rparr>"
  let ?T2 = "?T1\<lparr>user_audits := user_audits T @ [?a]\<rparr>"
  let ?T3 = "?T2\<lparr>user_audits := user_audits ?T2 @ [?b]\<rparr>"
  note refs = order_refs [OF assms(3,4)]
  have fresh: "i \<notin> tk_id ` set (tickets T)" "j \<notin> ua_id ` set (user_audits T)" "k \<notin> ua_id ` set (user_audits T)" "j \<noteq> k"
    using assms(8) ids by (simp_all add: fresh_ids_def)
  have ok1: "tables_ok ?T1"
    by (rule tables_ok_add_ticket) (use assms refs fresh in \<open>simp_all add: issued_ticket_def\<close>)
  have ok2: "tables_ok ?T2"
    using tables_ok_add_audit [OF ok1, of ?a] assms refs fresh by (simp add: notify_audit_def)
  have ok3: "tables_ok ?T3"
    by (rule tables_ok_add_audit [OF ok2]) (use assms refs fresh in \<open>simp_all add: notify_audit_def\<close>)
  define d where "d = nf_db st"
  have d: "db_faults d = []" "rows d = T" using assms(1,2) by (simp_all add: d_def)
  have t: "transaction (ticket_stmts E (nt_now n) (i, j) None (od_id r) (od_user_id r) (od_schedule_id r) ?ts url
      ?amount) d = (Inr (), d\<lparr>rows := ?T2\<rparr>)"
    by (rule transaction_delivered [OF d(1)])
      (use ok1 ok2 d in \<open>simp add: ticket_stmts_def run_stmts_delivered issued_ticket_def del: run_stmts.simps(2)\<close>)
  obtain email where g: "get_user_email (od_user_id r) (d\<lparr>rows := ?T2\<rparr>) = (email, d\<lparr>rows := ?T2\<rparr>)"
    using d by (simp add: get_user_email_def)
  have x: "execute (mail_audit_stmt E (nt_now n) k (od_user_id r) (od_id r) ?amount url) (d\<lparr>rows := ?T2\<rparr>) =
      (Inr (), d\<lparr>rows := ?T3\<rparr>)"
    using ok3 d by (subst execute_delivered) (simp_all add: mail_audit_stmt_def)
  show ?thesis
    using assms(5,6,9,10) d
    by (auto simp: issue_ticket_def d_def [symmetric] ids t mail_ticket_def g x Let_def)
      (simp_all add: mail_recorded_def notify_audit_def)
qed

lemma process_order_completed_no_faults:
  assumes "db_faults (nf_db st) = []" "parse_uuid E (str_field payload ''order_id'' []) = Some oid"
    and "oid \<notin> tk_order_id ` set (tickets (rows (nf_db st)))" "\<not> mail_recorded oid (rows (nf_db st))"
  shows "process_order_completed E N env n payload st = issue_ticket E N env n payload oid None st"
proof -
  have "ticket_of oid (rows (nf_db st)) = None"
    using assms(3) by (auto simp: ticket_of_def filter_eq_Cons_iff split: list.split)
  with assms show ?thesis by (simp add: process_order_completed_def)
qed

section \<open>The published booking event\<close>

text \<open>The body that the outbox publishes for a row the payment processor wrote.\<close>

definition booking_body :: "crates \<Rightarrow> OutboxEvent \<Rightarrow> json" where
  "booking_body E e = json_insert ''event_type'' (JStr (oe_event_type e)) (oe_payload e)"

lemma as_i64_ints: "list_all in_i32 ts \<Longrightarrow> map as_i32 (List.map_filter as_i64 (map JInt ts)) = ts"
  by (induction ts) (simp_all add: List.map_filter_simps in_i32_in_i64 as_i32_id)

lemma booking_body_fields:
  assumes "in_i32 u" "in_i32 s" "list_all in_i32 ts"
  shows "str_field (booking_body E (order_event E now i ty oid u s ts amount)) ''event_type'' [] = ty"
    and "str_field (booking_body E (order_event E now i ty oid u s ts amount)) ''order_id'' [] = show_uuid E oid"
    and "i32_field (booking_body E (order_event E now i ty oid u s ts amount)) ''user_id'' = u"
    and "schedule_field (booking_body E (order_event E now i ty oid u s ts amount)) = s"
    and "parse_seat_ids (booking_body E (order_event E now i ty oid u s ts amount)) = ts"
  using assms as_i64_ints [of ts]
  by (simp_all add: booking_body_def order_event_def str_field_def i32_field_def schedule_field_def
      parse_seat_ids_def seats_json_def in_i32_in_i64 as_i32_id)

text \<open>The body of the message published for a claimed row of a booking is that body.\<close>

definition claimed :: "OutboxEvent \<Rightarrow> ClaimedEvent" where
  "claimed e =
     \<lparr>ce_id = oe_id e, ce_aggregate_id = oe_aggregate_id e, ce_event_type = oe_event_type e,
      ce_payload = oe_payload e, ce_attempts = oe_attempts e + 1\<rparr>"

lemma published_body:
  "oe_event_type e \<in> {''OrderCompleted'', ''TicketCancelled''} \<Longrightarrow> route_for (oe_event_type e) = Some r \<Longrightarrow>
   am_body (event_message E env (claimed e) r) = booking_body E e"
  by (auto simp: route_for_def event_message_def booking_body_def claimed_def Let_def split: if_splits)

lemma booking_event_effect:
  assumes "e = order_event E now i ''OrderCompleted'' (od_id r) (od_user_id r) (od_schedule_id r) ts amount"
    and "in_i32 (od_user_id r)" "in_i32 (od_schedule_id r)" "list_all in_i32 ts"
    and "parse_uuid E (show_uuid E (od_id r)) = Some (od_id r)"
    and "nt_payload n = Some (booking_body E e)" "\<forall>q. nt_pdf n q = Some url" "\<forall>x m. nt_mail n x m"
    and "db_faults (nf_db st) = []" "tables_ok (rows (nf_db st))" "r \<in> set (orders (rows (nf_db st)))"
    and "od_id r \<notin> tk_order_id ` set (tickets (rows (nf_db st)))" "\<not> mail_recorded (od_id r) (rows (nf_db st))"
    and "fresh_ids n (rows (nf_db st))"
  shows "\<exists>st' email b. process_notice E N env n st = (Acked, st') \<and>
    tickets (rows (nf_db st')) =
      tickets (rows (nf_db st)) @ [issued_ticket (nt_now n) (fst (nt_ids n)) r ts url] \<and>
    mail_recorded (od_id r) (rows (nf_db st')) \<and>
    nf_mails st' = (email, BookingMail b) # nf_mails st \<and> be_order_id b = show_uuid E (od_id r) \<and>
    be_ticket_url b = url"
proof -
  note f = booking_body_fields [OF assms(2-4), of E now i "''OrderCompleted''" "od_id r" amount, folded assms(1)]
  have "process_notice E N env n st = process_order_completed E N env n (booking_body E e) st"
    using assms(6) f(1) by (simp add: process_notice_def)
  also have "\<dots> = issue_ticket E N env n (booking_body E e) (od_id r) None st"
    by (rule process_order_completed_no_faults) (use assms f in simp_all)
  finally have p: "process_notice E N env n st = issue_ticket E N env n (booking_body E e) (od_id r) None st" .
  show ?thesis unfolding p
    using issue_ticket_no_faults [OF assms(9) refl assms(10,11) f(3,4) assms(12,14,7,8)] unfolding f(5) .
qed

section \<open>A concrete worker\<close>

definition demo_notify_crates :: notify_crates where
  "demo_notify_crates =
     \<lparr>parse_url = (\<lambda>v. Some \<lparr>url_scheme = ''https'', url_has_host = True, url_path = v\<rparr>),
      f64_text = (\<lambda>_. None), show_time_text = (\<lambda>_. ''soon'')\<rparr>"

definition demo_event :: OutboxEvent where
  "demo_event = order_event demo_crates 0 8 ''OrderCompleted'' 5 1 7 [3] ''120''"

definition demo_notice :: notice where
  "demo_notice =
     \<lparr>nt_payload = Some (booking_body demo_crates demo_event), nt_now = 1, nt_ids = (21, 22, 23),
      nt_pdf = (\<lambda>_. Some ''u''), nt_mail = (\<lambda>_ _. True)\<rparr>"

definition demo_notifier :: notifier where
  "demo_notifier = \<lparr>nf_db = \<lparr>rows = demo_after, db_faults = []\<rparr>, nf_mails = []\<rparr>"

lemma demo_notifier_rows [simp]:
  "rows (nf_db demo_notifier) = demo_after" "nf_mails demo_notifier = []" "db_faults (nf_db demo_notifier) = []"
  by (simp_all add: demo_notifier_def)

lemma demo_show_uuid [simp]: "show_uuid demo_crates 5 = ''5''"
proof -
  have "dec 5 = ''5''" by code_simp
  then show ?thesis by (simp add: demo_crates_def)
qed

lemma demo_event_fields [simp]:
  "str_field (booking_body demo_crates demo_event) ''event_type'' [] = ''OrderCompleted''"
  "str_field (booking_body demo_crates demo_event) ''order_id'' [] = ''5''"
  using booking_body_fields(1,2) [of 1 7 "[3]" demo_crates 0 8 "''OrderCompleted''" 5 "''120''"]
  by (simp_all add: demo_event_def in_i32_def)

lemma demo_ready [simp]:
  "fresh_ids demo_notice demo_after" "\<not> mail_recorded 5 demo_after" "tickets demo_after = []"
  by (simp_all add: fresh_ids_def demo_notice_def demo_after_def demo_defs mail_recorded_def)

lemma demo_notified:
  "\<exists>st' email b. process_notice demo_crates N env demo_notice demo_notifier = (Acked, st') \<and>
     tickets (rows (nf_db st')) = [issued_ticket 1 21 demo_order [3] ''u''] \<and>
     mail_recorded 5 (rows (nf_db st')) \<and> nf_mails st' = [(email, BookingMail b)] \<and> be_order_id b = ''5''"
proof -
  have o: "od_user_id demo_order = 1" "od_schedule_id demo_order = 7" by (simp_all add: demo_order_def)
  have n: "nt_payload demo_notice = Some (booking_body demo_crates demo_event)" "\<forall>q. nt_pdf demo_notice q = Some ''u''"
    "\<forall>x m. nt_mail demo_notice x m" "nt_now demo_notice = 1" "nt_ids demo_notice = (21, 22, 23)"
    by (simp_all add: demo_notice_def)
  have e: "demo_event = order_event demo_crates 0 8 ''OrderCompleted'' (od_id demo_order) (od_user_id demo_order)
      (od_schedule_id demo_order) [3] ''120''"
    by (simp add: demo_event_def o)
  from booking_event_effect [OF e, of demo_notice "''u''" demo_notifier N env] show ?thesis
    using n by (simp add: o in_i32_def) blast
qed

section \<open>Properties\<close>

text \<open>
  C34 (tickets are kept). Whatever events the notification worker consumes, with any redeliveries and failures,
  tickets are only added and of an old one only the link to its PDF changes, the audits only grow, the other
  tables stay as they are, the constraints keep holding and no order has two tickets.
\<close>

theorem notifications_keep_tickets:
  assumes "tables_ok (rows (nf_db st))" "process_notices E N env ns st = (as, st')"
  shows "prefix (map ticket_key (tickets (rows (nf_db st)))) (map ticket_key (tickets (rows (nf_db st')))) \<and>
    prefix (user_audits (rows (nf_db st))) (user_audits (rows (nf_db st'))) \<and>
    (rows (nf_db st'))\<lparr>tickets := [], user_audits := []\<rparr> = (rows (nf_db st))\<lparr>tickets := [], user_audits := []\<rparr> \<and>
    tables_ok (rows (nf_db st')) \<and> distinct (map tk_order_id (tickets (rows (nf_db st'))))"
  using process_notices_move [OF assms(2)] assms(1)
  by (simp add: mails_move_def notify_moves_def) (simp add: tables_ok_def keys_ok_def)

theorem notifications_keep_tickets_witness:
  "let (as, st') = process_notices demo_crates demo_notify_crates (\<lambda>_. None) [Some demo_notice, None] demo_notifier
   in prefix (user_audits demo_after) (user_audits (rows (nf_db st'))) \<and> tables_ok (rows (nf_db st'))"
proof -
  let ?ns = "[Some demo_notice, None]"
  obtain as st' where r: "process_notices demo_crates demo_notify_crates (\<lambda>_. None) ?ns demo_notifier = (as, st')"
    by (cases "process_notices demo_crates demo_notify_crates (\<lambda>_. None) ?ns demo_notifier")
  have "tables_ok (rows (nf_db demo_notifier))" by simp
  from notifications_keep_tickets [OF this r] r show ?thesis by simp
qed

text \<open>
  (an acknowledged booking is mailed). When the worker acknowledges an event of a completed order, the
  database says that its booking mail went out, or the order's ticket is no longer active.
\<close>

theorem acked_booking_is_mailed:
  assumes "nt_payload n = Some payload" "str_field payload ''event_type'' [] \<in> {''OrderCompleted'', ''BookingSuccess''}"
    and "parse_uuid E (str_field payload ''order_id'' []) = Some oid"
    and "process_notice E N env n st = (Acked, st')"
  shows "mail_recorded oid (rows (nf_db st')) \<or>
    (\<exists>t \<in> set (tickets (rows (nf_db st'))). tk_order_id t = oid \<and> tk_status t \<noteq> ''active'')"
proof -
  have "process_order_completed E N env n payload st = (Acked, st')"
    using assms by (auto simp: process_notice_def)
  from process_order_completed_effect [OF this assms(3)] show ?thesis by (simp add: notify_effect_def)
qed

theorem acked_booking_is_mailed_witness:
  "let st' = snd (process_notice demo_crates demo_notify_crates (\<lambda>_. None) demo_notice demo_notifier)
   in mail_recorded 5 (rows (nf_db st')) \<or>
      (\<exists>t \<in> set (tickets (rows (nf_db st'))). tk_order_id t = 5 \<and> tk_status t \<noteq> ''active'')"
proof -
  obtain st' where r: "process_notice demo_crates demo_notify_crates (\<lambda>_. None) demo_notice demo_notifier = (Acked, st')"
    using demo_notified by blast
  have "nt_payload demo_notice = Some (booking_body demo_crates demo_event)" by (simp add: demo_notice_def)
  from acked_booking_is_mailed [OF this _ _ r, of 5] r show ?thesis by simp
qed

text \<open>
  (a recorded mail is final). Along any run a booking mail is only ever sent for an order whose mail was not
  recorded when the run began, so no redelivery after the record sends it again.
\<close>

theorem recorded_mail_is_final:
  "\<exists>new. nf_mails (snd (process_notices E N env ns st)) = new @ nf_mails st \<and>
     (\<forall>email b. (email, BookingMail b) \<in> set new \<longrightarrow>
        (\<exists>oid. be_order_id b = show_uuid E oid \<and> \<not> mail_recorded oid (rows (nf_db st))))"
proof -
  obtain as st' where r: "process_notices E N env ns st = (as, st')" by (cases "process_notices E N env ns st")
  from process_notices_move [OF r] r show ?thesis
    by (fastforce simp: mails_move_def list_all_iff fresh_mail_def)
qed

theorem recorded_mail_is_final_witness:
  "\<exists>email b. nf_mails (snd (process_notices demo_crates demo_notify_crates (\<lambda>_. None) [Some demo_notice] demo_notifier)) =
     [(email, BookingMail b)] \<and> (\<exists>oid. be_order_id b = show_uuid demo_crates oid \<and> \<not> mail_recorded oid demo_after)"
proof -
  obtain st' email b where r: "process_notice demo_crates demo_notify_crates (\<lambda>_. None) demo_notice demo_notifier = (Acked, st')"
      "nf_mails st' = [(email, BookingMail b)]"
    using demo_notified by blast
  have m: "nf_mails (snd (process_notices demo_crates demo_notify_crates (\<lambda>_. None) [Some demo_notice] demo_notifier)) =
      [(email, BookingMail b)]"
    using r by simp
  from recorded_mail_is_final [of demo_crates demo_notify_crates "\<lambda>_. None" "[Some demo_notice]" demo_notifier] m
  show ?thesis by auto
qed

text \<open>
  (mail settings). Settings that are accepted have a port in range, use implicit TLS on 465 and not on 587,
  and name a user and a password; the sender is the user unless it is set.
\<close>

theorem smtp_settings_consistent:
  assumes "from_lookup env = Inr c"
  shows "0 < smtp_port c \<and> smtp_port c < 2 ^ 16 \<and> (smtp_port c = 465 \<longrightarrow> smtp_secure c) \<and>
    (smtp_port c = 587 \<longrightarrow> \<not> smtp_secure c) \<and> smtp_credentials env = Inr (smtp_user c, smtp_password c) \<and>
    smtp_from c = (case configured env ''SMTP_FROM'' of Some f \<Rightarrow> f | None \<Rightarrow> smtp_user c)"
  using assms
  by (auto simp: from_lookup_def Let_def in_u16_def parse_within_def split: sum.splits option.splits if_splits)

text \<open>Ordinary settings, with the port spelled out.\<close>

definition demo_smtp_env :: env where
  "demo_smtp_env k =
     (if k = ''SMTP_USER'' then Some ''a'' else if k = ''SMTP_PASS'' then Some ''b''
      else if k = ''SMTP_PORT'' then Some ''587'' else None)"

theorem smtp_settings_consistent_witness:
  "\<exists>c. from_lookup demo_smtp_env = Inr c \<and> smtp_port c = 587 \<and> \<not> smtp_secure c \<and> smtp_from c = ''a''"
proof -
  let ?c = "\<lparr>smtp_host = ''smtp.gmail.com'', smtp_port = 587, smtp_secure = False, smtp_user = ''a'',
    smtp_password = ''b'', smtp_from = ''a''\<rparr>"
  have "from_lookup demo_smtp_env = Inr ?c" by code_simp
  from this smtp_settings_consistent [OF this] show ?thesis by auto
qed

end
