(* ===== verification/Booking_System.thy ===== *)
theory Booking_System
  imports Payments_Api_Props Outbox_Props Notification_Props
begin

text \<open>
  The services on their shared database: any number of HTTP handlers, payment workers, outbox servers and
  notification workers take their steps in any order, with any messages, redeliveries and failures. The
  invariant that ties their tables together is proved once per kind of step and lifted to all runs.
\<close>

section \<open>Steps\<close>

text \<open>
  The rows everybody sees and the messages the outbox servers sent with the broker's answers. A handler of the HTTP API that writes does
  so in one transaction, which is its step; a message of a worker and a pass of the outbox server are a step
  each. The Redis servers, the faults of the connections and the inputs are arbitrary in every step.
\<close>

record system =
  sy_rows :: tables
  sy_channel :: "exchange list"

inductive system_step :: "crates \<Rightarrow> 'r redis \<Rightarrow> system \<Rightarrow> system \<Rightarrow> bool" for E and R :: "'r redis" where
  payment_step:
    "process_message E env R L m wk = (a, wk') \<Longrightarrow> rows (store wk) = sy_rows s \<Longrightarrow>
     system_step E R s (s\<lparr>sy_rows := rows (store wk')\<rparr>)"
| outbox_step:
    "run_pass E env inp ob = (go, ob') \<Longrightarrow> rows (ob_db ob) = sy_rows s \<Longrightarrow> ob_channel ob = sy_channel s \<Longrightarrow>
     system_step E R s \<lparr>sy_rows = rows (ob_db ob'), sy_channel = ob_channel ob'\<rparr>"
| notify_step:
    "process_notice E N env n nf = (a, nf') \<Longrightarrow> rows (nf_db nf) = sy_rows s \<Longrightarrow>
     system_step E R s (s\<lparr>sy_rows := rows (nf_db nf')\<rparr>)"
| request_step:
    "commit_request E R now ids u req amount created ht = (res, ht') \<Longrightarrow> rows (hs_db ht) = sy_rows s \<Longrightarrow>
     system_step E R s (s\<lparr>sy_rows := rows (hs_db ht')\<rparr>)"
| cancel_step:
    "transaction (cancel_stmts now i oid payload (rows d)) d = (res', d') \<Longrightarrow> rows d = sy_rows s \<Longrightarrow>
     system_step E R s (s\<lparr>sy_rows := rows d'\<rparr>)"

inductive system_run :: "crates \<Rightarrow> 'r redis \<Rightarrow> system \<Rightarrow> system \<Rightarrow> bool" for E and R :: "'r redis" where
  run_refl: "system_run E R s s"
| run_step: "system_run E R s s1 \<Longrightarrow> system_step E R s1 s2 \<Longrightarrow> system_run E R s s2"

section \<open>The invariant\<close>

text \<open>Every order's payment request is marked as succeeded, and its event is in the outbox.\<close>

definition settled :: "tables \<Rightarrow> bool" where
  "settled T \<longleftrightarrow>
     (\<forall>r \<in> set (orders T). \<forall>p \<in> set (payment_requests T).
        pr_id p = od_payment_request_id r \<longrightarrow> pr_status p = ''succeeded'')"

definition receipted :: "tables \<Rightarrow> bool" where
  "receipted T \<longleftrightarrow>
     (\<forall>r \<in> set (orders T). \<exists>e \<in> set (outbox_events T).
        oe_event_type e = ''OrderCompleted'' \<and> oe_aggregate_id e = od_id r)"

text \<open>Cancellations are requested of existing orders, at most once each, and never of a completed one.\<close>

definition cancel_event :: "Uuid \<Rightarrow> OutboxEvent \<Rightarrow> bool" where
  "cancel_event oid e \<longleftrightarrow> oe_event_type e = ''payment.cancellation_requested'' \<and> oe_aggregate_id e = oid"

definition cancel_requested_once :: "tables \<Rightarrow> bool" where
  "cancel_requested_once T \<longleftrightarrow>
     (\<forall>oid. 0 < count_if (cancel_event oid) (outbox_events T) \<longrightarrow> oid \<in> od_id ` set (orders T)) \<and>
     (\<forall>r \<in> set (orders T). count_if (cancel_event (od_id r)) (outbox_events T) \<le>
        (if od_status r = ''completed'' then 0 else 1))"

definition books_ok :: "tables \<Rightarrow> bool" where
  "books_ok T \<longleftrightarrow> announced T \<and> settled T \<and> receipted T \<and> cancel_requested_once T"

definition system_ok :: "crates \<Rightarrow> system \<Rightarrow> bool" where
  "system_ok E s \<longleftrightarrow> tables_ok (sy_rows s) \<and> outbox_ok E (set (sy_channel s)) (sy_rows s) \<and> books_ok (sy_rows s)"

lemma books_okI [intro?]: "announced T \<Longrightarrow> settled T \<Longrightarrow> receipted T \<Longrightarrow> cancel_requested_once T \<Longrightarrow> books_ok T"
  by (simp add: books_ok_def)

lemma books_okD:
  assumes "books_ok T"
  shows "announced T" "settled T" "receipted T" "cancel_requested_once T"
  using assms by (simp_all add: books_ok_def)

lemmas books_defs = announced_def settled_def receipted_def cancel_requested_once_def

lemma count_if_append [simp]: "count_if P (xs @ ys) = count_if P xs + count_if P ys"
  by (simp add: count_if_def)

lemma count_if_Cons [simp]: "count_if P (x # xs) = of_bool (P x) + count_if P xs"
  by (simp add: count_if_def)

lemma count_if_Nil [simp]: "count_if P [] = 0"
  by (simp add: count_if_def)

section \<open>One step\<close>

lemma image_update_rows: "(\<And>r. g (f r) = g r) \<Longrightarrow> g ` set (update_rows sel f rs) = g ` set rs"
  by (metis list.set_map map_update_rows)

lemma books_checkout:
  assumes "books_ok T" "tables_ok (run_all (checkout_stmts E now ids c) T)"
  shows "books_ok (run_all (checkout_stmts E now ids c) T)" (is "books_ok ?T")
proof -
  note b = books_okD [OF assms(1)]
  have fresh: "cc_order_id c \<notin> od_id ` set (orders T)"
    using assms(2) by (simp add: tables_ok_def keys_ok_def checkout_stmts_def set_seats_def new_order_def)
  then have none: "count_if (cancel_event (cc_order_id c)) (outbox_events T) = 0"
    using b(4) by (auto simp: cancel_requested_once_def)
  have ev: "\<not> cancel_event oid (order_event E now (snd ids) ''OrderCompleted'' (cc_order_id c) (cc_user_id c)
      (cc_schedule_id c) (cc_seat_ids c) (cc_total_amount c))" for oid
    by (simp add: cancel_event_def order_event_def)
  show ?thesis
  proof
    show "announced ?T"
      using b(1) by (auto simp: announced_def checkout_stmts_def set_seats_def set_update_rows)
    show "settled ?T"
      using b(2) by (auto simp: settled_def checkout_stmts_def set_seats_def set_update_rows new_order_def)
    show "receipted ?T"
      using b(3) by (auto simp: receipted_def checkout_stmts_def set_seats_def new_order_def order_event_def)
    show "cancel_requested_once ?T"
      using b(4) none ev by (auto simp: cancel_requested_once_def checkout_stmts_def set_seats_def new_order_def)
  qed
qed

lemma books_cancellation:
  assumes "books_ok T"
  shows "books_ok (run_all (cancellation_stmts E now ids x) T)" (is "books_ok ?T")
proof -
  note b = books_okD [OF assms]
  have ev: "\<not> cancel_event oid (order_event E now (snd ids) ''TicketCancelled'' (xc_order_id x) (xc_user_id x)
      (xc_schedule_id x) (xc_seat_ids x) (xc_amount x))" for oid
    by (simp add: cancel_event_def order_event_def)
  have ids: "od_id ` set (orders ?T) = od_id ` set (orders T)"
    by (simp add: cancellation_stmts_def set_seats_def image_update_rows)
  show ?thesis
  proof
    show "announced ?T" using b(1) by (auto simp: announced_def cancellation_stmts_def set_seats_def)
    show "settled ?T" using b(2) by (auto simp: settled_def cancellation_stmts_def set_seats_def set_update_rows)
    have o: "orders ?T = update_rows (\<lambda>r. od_id r = xc_order_id x) (\<lambda>r. r\<lparr>od_status := ''refunded''\<rparr>) (orders T)"
      and e: "outbox_events ?T = outbox_events T @ [order_event E now (snd ids) ''TicketCancelled'' (xc_order_id x)
        (xc_user_id x) (xc_schedule_id x) (xc_seat_ids x) (xc_amount x)]"
      by (simp_all add: cancellation_stmts_def set_seats_def)
    have old: "\<exists>r0 \<in> set (orders T). od_id r0 = od_id r \<and> (od_status r = ''completed'' \<longrightarrow> od_status r0 = ''completed'')"
      if "r \<in> set (orders ?T)" for r
      using that by (auto simp: o set_update_rows split: if_splits)
    show "receipted ?T"
      unfolding receipted_def
    proof
      fix r assume "r \<in> set (orders ?T)"
      from old [OF this] obtain r0 where "r0 \<in> set (orders T)" "od_id r0 = od_id r" by blast
      with b(3) show "\<exists>e \<in> set (outbox_events ?T). oe_event_type e = ''OrderCompleted'' \<and> oe_aggregate_id e = od_id r"
        unfolding receipted_def e by fastforce
    qed
    show "cancel_requested_once ?T"
      unfolding cancel_requested_once_def
    proof (intro conjI allI ballI impI)
      fix oid assume "0 < count_if (cancel_event oid) (outbox_events ?T)"
      then show "oid \<in> od_id ` set (orders ?T)" using b(4) unfolding ids by (simp add: e ev cancel_requested_once_def)
    next
      fix r assume "r \<in> set (orders ?T)"
      from old [OF this] obtain r0 where r0: "r0 \<in> set (orders T)" "od_id r0 = od_id r"
          "od_status r = ''completed'' \<longrightarrow> od_status r0 = ''completed''" by blast
      have "count_if (cancel_event (od_id r0)) (outbox_events T) \<le> (if od_status r0 = ''completed'' then 0 else 1)"
        using b(4) r0(1) by (simp add: cancel_requested_once_def)
      with r0 show "count_if (cancel_event (od_id r)) (outbox_events ?T) \<le> (if od_status r = ''completed'' then 0 else 1)"
        by (simp add: e ev split: if_splits)
    qed
  qed
qed

lemma books_fail:
  assumes "books_ok T"
  shows "books_ok (fail_request now p reason T)"
  using assms by (auto simp: books_ok_def books_defs fail_request_def set_update_rows)

lemma books_request:
  assumes "books_ok T" "tables_ok T" "tables_ok (run_all (request_stmts E now ids u req amount T) T)"
  shows "books_ok (run_all (request_stmts E now ids u req amount T) T)" (is "books_ok ?T")
proof (cases "existing_payment u (rq_key req) T")
  case None
  note b = books_okD [OF assms(1)]
  have ev: "\<not> cancel_event oid (payment_event now i ''payment.requested'' p payload)" for oid i p payload
    by (simp add: cancel_event_def payment_event_def)
  have "fst ids \<notin> pr_id ` set (payment_requests T)"
    using assms(3) None by (simp add: tables_ok_def keys_ok_def request_stmts_def new_request_def)
  moreover have "od_payment_request_id r \<in> pr_id ` set (payment_requests T)" if "r \<in> set (orders T)" for r
    using assms(2) that by (simp add: tables_ok_def refs_ok_def)
  ultimately have new: "od_payment_request_id r \<noteq> fst ids" if "r \<in> set (orders T)" for r
    using that by metis
  show ?thesis
  proof
    show "announced ?T" by (rule announced_request_stmts [OF b(1)])
    show "settled ?T" using b(2) new None by (fastforce simp: settled_def request_stmts_def new_request_def)
    show "receipted ?T" using b(3) None by (auto simp: receipted_def request_stmts_def)
    show "cancel_requested_once ?T" using b(4) None ev by (auto simp: cancel_requested_once_def request_stmts_def)
  qed
qed (use assms(1) in \<open>simp add: request_stmts_def\<close>)

lemma books_cancel_request:
  assumes "books_ok T" "tables_ok T"
  shows "books_ok (run_all (cancel_stmts now i oid payload T) T)" (is "books_ok ?T")
proof -
  note b = books_okD [OF assms(1)]
  let ?e = "payment_event now i ''payment.cancellation_requested'' oid payload"
  let ?open = "list_ex (completed_order oid) (orders T)"
  have o: "orders ?T = update_rows (completed_order oid) (\<lambda>r. r\<lparr>od_status := ''cancelling''\<rparr>) (orders T)"
    and ev: "outbox_events ?T = outbox_events T @ (if ?open then [?e] else [])"
    and p: "payment_requests ?T = payment_requests T"
    by (simp_all add: cancel_stmts_def)
  have ids: "od_id ` set (orders ?T) = od_id ` set (orders T)"
    by (simp add: o image_update_rows)
  have e: "cancel_event x ?e \<longleftrightarrow> x = oid" for x by (auto simp: cancel_event_def payment_event_def)
  have uniq: "r = r'" if "r \<in> set (orders T)" "r' \<in> set (orders T)" "od_id r = od_id r'" for r r'
    using assms(2) that by (auto simp: tables_ok_def keys_ok_def distinct_map inj_on_def)
  show ?thesis
  proof
    show "announced ?T" using b(1) by (auto simp: announced_def p ev)
    show "settled ?T" using b(2) by (auto simp: settled_def p o set_update_rows)
    show "receipted ?T" using b(3) by (fastforce simp: receipted_def ev o set_update_rows)
    show "cancel_requested_once ?T"
      unfolding cancel_requested_once_def
    proof (intro conjI allI ballI impI)
      fix x assume "0 < count_if (cancel_event x) (outbox_events ?T)"
      then have "0 < count_if (cancel_event x) (outbox_events T) \<or> ?open \<and> x = oid"
        by (auto simp: ev e split: if_splits)
      moreover have "oid \<in> od_id ` set (orders T)" if ?open
        using that by (auto simp: list_ex_iff completed_order_def)
      ultimately show "x \<in> od_id ` set (orders ?T)" using b(4) by (auto simp: ids cancel_requested_once_def)
    next
      fix r' assume "r' \<in> set (orders ?T)"
      then obtain r where r: "r \<in> set (orders T)"
          "r' = (if completed_order oid r then r\<lparr>od_status := ''cancelling''\<rparr> else r)"
        by (auto simp: o set_update_rows)
      have old: "count_if (cancel_event (od_id r)) (outbox_events T) \<le> (if od_status r = ''completed'' then 0 else 1)"
        using b(4) r(1) by (simp add: cancel_requested_once_def)
      show "count_if (cancel_event (od_id r')) (outbox_events ?T) \<le> (if od_status r' = ''completed'' then 0 else 1)"
      proof (cases "completed_order oid r")
        case True
        then show ?thesis using old r(2) by (simp add: ev e completed_order_def)
      next
        case False
        have "od_id r \<noteq> oid" if ?open
        proof -
          from that obtain x where "x \<in> set (orders T)" "completed_order oid x" by (auto simp: list_ex_iff)
          with uniq [OF r(1)] False show ?thesis by (auto simp: completed_order_def)
        qed
        with False old r(2) show ?thesis by (auto simp: ev e)
      qed
    qed
  qed
qed

lemma books_outbox:
  assumes "books_ok T" "outbox_moves T T'"
  shows "books_ok T'"
proof -
  note b = books_okD [OF assms(1)]
  have c: "map event_content (outbox_events T') = map event_content (outbox_events T)"
    and p: "list_all2 request_move (payment_requests T) (payment_requests T')"
    and same: "T'\<lparr>payment_requests := [], outbox_events := []\<rparr> = T\<lparr>payment_requests := [], outbox_events := []\<rparr>"
    using assms(2) by (simp_all add: outbox_moves_def)
  have o: "orders T' = orders T" using arg_cong [OF same, of orders] by simp
  have tag: "map (\<lambda>e. (oe_event_type e, oe_aggregate_id e)) (outbox_events T') =
      map (\<lambda>e. (oe_event_type e, oe_aggregate_id e)) (outbox_events T)"
    using arg_cong [OF c, of "map (\<lambda>(i, t, a, ty, x). (ty, a))"] by (simp add: event_content_def comp_def)
  have ex: "(\<exists>e \<in> set (outbox_events T'). oe_event_type e = ty \<and> oe_aggregate_id e = i) \<longleftrightarrow>
      (\<exists>e \<in> set (outbox_events T). oe_event_type e = ty \<and> oe_aggregate_id e = i)" for ty i
    using arg_cong [OF tag, of "\<lambda>xs. (ty, i) \<in> set xs"] by auto
  have cnt: "count_if (cancel_event oid) (outbox_events T') = count_if (cancel_event oid) (outbox_events T)" for oid
    using arg_cong [OF tag, of "\<lambda>xs. length (filter (\<lambda>(ty, a). ty = ''payment.cancellation_requested'' \<and> a = oid) xs)"]
    by (simp add: count_if_def cancel_event_def [abs_def] filter_map comp_def)
  have req: "\<exists>q \<in> set (payment_requests T). request_move q r" if "r \<in> set (payment_requests T')" for r
    using that p by (metis in_set_conv_nth list_all2_conv_all_nth)
  show ?thesis
  proof
    show "announced T'" using b(1) req ex by (fastforce simp: announced_def request_move_def)
    show "settled T'" using b(2) req by (fastforce simp: settled_def o request_move_def)
    show "receipted T'" using b(3) ex by (simp add: receipted_def o)
    show "cancel_requested_once T'" using b(4) by (simp add: cancel_requested_once_def o cnt)
  qed
qed

lemma notify_moves_sel:
  assumes "notify_moves T T'"
  shows "orders T' = orders T" "payment_requests T' = payment_requests T" "outbox_events T' = outbox_events T"
proof -
  have "T'\<lparr>tickets := [], user_audits := []\<rparr> = T\<lparr>tickets := [], user_audits := []\<rparr>"
    using assms by (simp add: notify_moves_def)
  from arg_cong [OF this, of orders] arg_cong [OF this, of payment_requests] arg_cong [OF this, of outbox_events]
  show "orders T' = orders T" "payment_requests T' = payment_requests T" "outbox_events T' = outbox_events T"
    by simp_all
qed

lemma books_notify: "books_ok T \<Longrightarrow> notify_moves T T' \<Longrightarrow> books_ok T'"
  by (simp add: books_ok_def books_defs notify_moves_sel)

text \<open>Events that are new in the outbox carry no mark yet.\<close>

lemma outbox_ok_same: "outbox_events T' = outbox_events T \<Longrightarrow> outbox_ok E C T' = outbox_ok E C T"
  by (simp add: outbox_ok_def)

lemma payment_step_ok:
  assumes "process_message E env R L m wk = (a, wk')" "tables_ok (rows (store wk))"
    and "outbox_ok E C (rows (store wk))" "books_ok (rows (store wk))"
  shows "tables_ok (rows (store wk')) \<and> outbox_ok E C (rows (store wk')) \<and> books_ok (rows (store wk'))"
proof -
  let ?T = "rows (store wk)"
  consider (same) "wk' = wk" | (checkout) payload where "process_checkout E R (L (dl_now m)) (dl_now m) (dl_ids m) payload wk = (a, wk')"
    | (cancel) payload where "process_cancellation E env (dl_provider m) R (dl_now m) (snd (dl_ids m)) payload wk = (a, wk')"
    using assms(1) by (auto simp: process_message_def split: option.splits if_splits)
  then show ?thesis
  proof cases
    case checkout
    then show ?thesis
    proof (cases rule: process_checkout_cases)
      case (failed p reason)
      then show ?thesis
        using assms(3) books_fail [OF assms(4), of "dl_now m" p reason] by (simp add: outbox_ok_def fail_request_def)
    next
      case (committed p c w1)
      have "outbox_ok E C (rows (store wk'))"
        using assms(3) unfolding committed(8)
        by (simp add: outbox_ok_def row_ok_def checkout_stmts_def set_seats_def order_event_def)
      with committed assms(2) books_checkout [OF assms(4), of E "dl_now m" "snd (dl_ids m)" c] show ?thesis by simp
    qed (use assms in simp_all)
  next
    case cancel
    then show ?thesis
    proof (cases rule: process_cancellation_rows)
      case (cancelled oid c)
      have "outbox_ok E C (rows (store wk'))"
        using assms(3) unfolding cancelled(4)
        by (simp add: outbox_ok_def row_ok_def cancellation_stmts_def set_seats_def order_event_def)
      with cancelled assms(2) books_cancellation [OF assms(4)] show ?thesis by simp
    qed (use assms in simp_all)
  qed (use assms in simp_all)
qed

lemma request_step_ok:
  assumes "commit_request E R now ids u req amount created ht = (res, ht')" "tables_ok (rows (hs_db ht))"
    and "outbox_ok E C (rows (hs_db ht))" "books_ok (rows (hs_db ht))"
  shows "tables_ok (rows (hs_db ht')) \<and> outbox_ok E C (rows (hs_db ht')) \<and> books_ok (rows (hs_db ht'))"
  using assms(1)
proof (cases rule: commit_request_cases)
  case added
  have "outbox_ok E C (rows (hs_db ht'))"
    using assms(3) added(1) unfolding added(2)
    by (simp add: outbox_ok_def row_ok_def request_stmts_def payment_event_def)
  with added assms(2) books_request [OF assms(4,2)] show ?thesis by simp
qed (use assms in simp)

lemma cancel_step_ok:
  assumes "transaction (cancel_stmts now i oid payload (rows d)) d = (res, d')" "tables_ok (rows d)"
    and "outbox_ok E C (rows d)" "books_ok (rows d)"
  shows "tables_ok (rows d') \<and> outbox_ok E C (rows d') \<and> books_ok (rows d')"
  using assms(1)
proof (cases rule: transaction_cases)
  case committed
  have "outbox_ok E C (rows d')"
    using assms(3) unfolding committed(1) by (simp add: cancel_stmts_def outbox_ok_def row_ok_def payment_event_def)
  with committed assms(2) books_cancel_request [OF assms(4,2)] show ?thesis by simp
qed (use assms in simp)

lemma system_step_ok:
  assumes "system_step E R s s'" "system_ok E s"
  shows "system_ok E s'"
  using assms
proof (cases rule: system_step.cases)
  case (payment_step env L m wk a wk')
  then show ?thesis using assms(2) payment_step_ok [OF payment_step(2), where C = "set (sy_channel s)"] by (simp add: system_ok_def)
next
  case (outbox_step env inp ob go ob')
  then show ?thesis
    using assms(2) run_pass_ok [OF outbox_step(2)] books_outbox by (auto simp: system_ok_def)
next
  case (notify_step N env n nf a nf')
  have m: "notify_moves (sy_rows s) (rows (nf_db nf'))"
    using process_notice_move [OF notify_step(2)] notify_step(3) by (simp add: mails_move_def)
  then have "tables_ok (rows (nf_db nf'))" using assms(2) by (simp add: notify_moves_def system_ok_def)
  then show ?thesis
    using assms(2) notify_step(1) books_notify [OF _ m] notify_moves_sel(3) [OF m]
    by (simp add: system_ok_def outbox_ok_def)
next
  case (request_step now ids u req amount created ht res ht')
  then show ?thesis using assms(2) request_step_ok [OF request_step(2), where C = "set (sy_channel s)"] by (simp add: system_ok_def)
next
  case (cancel_step now i oid payload d res' d')
  then show ?thesis using assms(2) cancel_step_ok [OF cancel_step(2), where C = "set (sy_channel s)" and E = E] by (simp add: system_ok_def)
qed

lemma system_run_ok: "system_run E R s s' \<Longrightarrow> system_ok E s \<Longrightarrow> system_ok E s'"
  by (induction rule: system_run.induct) (auto intro: system_step_ok)

lemma system_run_trans: "system_run E R s1 s2 \<Longrightarrow> system_run E R s s1 \<Longrightarrow> system_run E R s s2"
  by (induction rule: system_run.induct) (auto intro: run_step)

lemma system_run_one: "system_step E R s s' \<Longrightarrow> system_run E R s s'"
  by (rule run_step [OF run_refl])

section \<open>Handlers as runs\<close>

text \<open>What others do while a handler waits is a run of the system on the same database.\<close>

definition runs :: "crates \<Rightarrow> 'r redis \<Rightarrow> tables \<Rightarrow> tables \<Rightarrow> bool" where
  "runs E R T T' \<longleftrightarrow>
     (\<forall>C. \<exists>C'. system_run E R \<lparr>sy_rows = T, sy_channel = C\<rparr> \<lparr>sy_rows = T', sy_channel = C'\<rparr>)"

lemma runs_refl [simp]: "runs E R T T"
  by (auto simp: runs_def intro: run_refl)

lemma runs_trans: "runs E R T T1 \<Longrightarrow> runs E R T1 T2 \<Longrightarrow> runs E R T T2"
  unfolding runs_def using system_run_trans by meson

lemma runs_step:
  assumes "\<And>C. system_step E R \<lparr>sy_rows = T, sy_channel = C\<rparr> \<lparr>sy_rows = T', sy_channel = C\<rparr>"
  shows "runs E R T T'"
  using system_run_one [OF assms] by (auto simp: runs_def)

lemma commit_request_runs:
  "commit_request E R now ids u req amount created ht = (res, ht') \<Longrightarrow> runs E R (rows (hs_db ht)) (rows (hs_db ht'))"
  by (rule runs_step) (use request_step [of E R now ids u req amount created ht res ht' "\<lparr>sy_rows = rows (hs_db ht), sy_channel = C\<rparr>" for C] in simp)

lemma cancel_stmts_runs:
  "transaction (cancel_stmts now i oid payload (rows d)) d = (res, d') \<Longrightarrow> runs E R (rows d) (rows d')"
  by (rule runs_step) (use cancel_step [of now i oid payload d res d' "\<lparr>sy_rows = rows d, sy_channel = C\<rparr>" E R for C] in simp)

text \<open>The outcomes of a cancellation request.\<close>

lemma cancel_order_cases:
  assumes "cancel_order E N secret others now i headers oid key d = (res, d')"
  obtains (quiet) "rows d' = rows d" "\<And>resp. res = Inr resp \<Longrightarrow> \<not> cr_accepted resp"
    | (written) u r d2 res' where "authenticated_user N headers secret = Inr u" "r \<in> set (orders (rows d))"
        "completed_order oid r" "od_user_id r = u" "rows d2 = rows d"
        "transaction (cancel_stmts now i oid (cancel_payload E N u r key) (rows (others d2))) (others d2) = (res', d')"
        "(\<exists>e. res' = Inl e) \<longleftrightarrow> (\<exists>e. res = Inl e)"
proof (cases "authenticated_user N headers secret")
  case (Inl e)
  with assms show thesis by (intro quiet) (auto simp: cancel_order_def)
next
  case u: (Inr u)
  obtain ok d1 where g: "db_get d = (ok, d1)" by (cases "db_get d")
  obtain rs d2 where q: "query (\<lambda>T. filter (\<lambda>r. od_id r = oid) (orders T)) d1 = (rs, d2)"
    by (cases "query (\<lambda>T. filter (\<lambda>r. od_id r = oid) (orders T)) d1")
  have r: "rows d2 = rows d" "rs = None \<or> rs = Some (filter (\<lambda>r. od_id r = oid) (orders (rows d)))"
    using db_getD [OF g] queryD [OF q] by simp_all
  show thesis
  proof (cases "trim key \<noteq> [] \<and> ok \<and> (\<exists>r rest. rs = Some (r # rest) \<and> od_user_id r = u \<and> od_status r = ''completed'')")
    case True
    then obtain x rest where x: "rs = Some (x # rest)" "od_user_id x = u" "od_status x = ''completed''" by blast
    with r(2) have m: "x \<in> set (orders (rows d))" "completed_order oid x"
      by (auto simp: completed_order_def filter_eq_Cons_iff dest!: sym [of "x # rest"])
    obtain res' d4 where t: "transaction (cancel_stmts now i oid (cancel_payload E N u x key) (rows (others d2))) (others d2)
        = (res', d4)"
      by (metis surj_pair)
    have oid: "od_id x = oid" using m(2) by (simp add: completed_order_def)
    have "d' = d4 \<and> ((\<exists>e. res' = Inl e) \<longleftrightarrow> (\<exists>e. res = Inl e))"
      using assms True u g q x oid t by (auto simp: cancel_order_def split: sum.splits)
    with t show thesis by (intro written [OF u m x(2) r(1)]) auto
  next
    case False
    have "rows d' = rows d \<and> (\<forall>resp. res = Inr resp \<longrightarrow> \<not> cr_accepted resp)"
      using assms False u g q r db_getD [OF g]
      by (auto simp: cancel_order_def split: if_splits option.splits list.splits)
    then show thesis using quiet by blast
  qed
qed

section \<open>The message of a payment request\<close>

lemma payment_payload_fields:
  assumes "in_i32 u" "in_i32 (rq_schedule_id req)" "list_all in_i32 (rq_seat_ids req)"
  shows "as_str (jget (payment_payload E p u req amount) ''payment_request_id'') = Some (show_uuid E p)"
    and "i32_field (payment_payload E p u req amount) ''user_id'' = u"
    and "schedule_field (payment_payload E p u req amount) = rq_schedule_id req"
    and "parse_seat_ids (payment_payload E p u req amount) = rq_seat_ids req"
    and "str_field (payment_payload E p u req amount) ''amount'' x = amount"
    and "str_field (payment_payload E p u req amount) ''razorpay_order_id'' [] = or_else (rq_order_id req) []"
    and "as_str (jget (payment_payload E p u req amount) ''razorpay_payment_id'') = rq_payment_id req"
  using assms as_i64_ints [of "rq_seat_ids req"]
  by (simp_all add: payment_payload_def str_field_def i32_field_def schedule_field_def parse_seat_ids_def seats_json_def
      in_i32_in_i64 as_i32_id opt_str_def or_else_def split: option.split)

section \<open>Properties\<close>

text \<open>
  C3 (the services keep the books). Along every interleaving of the HTTP handlers' transactions, payment messages,
  outbox passes and notifications, with any redeliveries, lost connections and lost replies: the constraints of the
  schema hold, every payment request has its event in the outbox, every order belongs to a payment marked as
  succeeded and has its event, the outbox holds at most one cancellation request per order, only of existing orders
  and of none that is still completed, and an event is marked as published only if the broker acknowledged its very
  message. (The one request may be delivered, and the cancellation executed, several times.)
\<close>

theorem services_keep_the_books:
  assumes "system_ok E s" "system_run E R s s'"
  shows "tables_ok (sy_rows s') \<and> announced (sy_rows s') \<and> settled (sy_rows s') \<and> receipted (sy_rows s') \<and>
    cancel_requested_once (sy_rows s') \<and> outbox_ok E (set (sy_channel s')) (sy_rows s')"
  using system_run_ok [OF assms(2,1)] by (simp add: system_ok_def books_ok_def)

text \<open>
  The handlers stay inside the system: what a payment request or a cancellation request does to the database, with whatever
  runs of the other services between its phases, is itself a run of the system.
\<close>

lemma handlers_are_runs:
  assumes "\<forall>k x. runs E R (rows (hs_db x)) (rows (hs_db (others k x)))" "\<forall>x. runs E R (rows x) (rows (others' x))"
  shows "runs E R (rows (hs_db st)) (rows (hs_db (snd (request_payment E N env R secret others now ids headers req st)))) \<and>
    runs E R (rows d) (rows (snd (cancel_order E N secret others' now i headers oid key d)))"
proof
  obtain res st' where r: "request_payment E N env R secret others now ids headers req st = (res, st')"
    by (cases "request_payment E N env R secret others now ids headers req st")
  from r have "runs E R (rows (hs_db st)) (rows (hs_db st'))"
  proof (cases rule: request_payment_cases)
    case (fresh u st1)
    have o: "runs E R (rows (hs_db st)) (rows (hs_db (others 0 st1)))" using assms(1) fresh(4) by metis
    from fresh(6) show ?thesis
    proof
      assume "\<exists>w w1 created. nodes w = nodes (hs_cache (others 0 st1)) \<and>
            claim_checkout R (checkout_owner u (rq_key req))
              (map (seat_checkout_key (rq_schedule_id req)) (rq_seat_ids req)) [] w = (Inr created, w1) \<and>
            commit_request E R now ids u req (bd_show N (charge N req (rows (hs_db st)))) created
              (others 1 ((others 0 st1)\<lparr>hs_cache := w1\<rparr>)) = (res, st')"
      then obtain w1 created where c: "commit_request E R now ids u req (bd_show N (charge N req (rows (hs_db st)))) created
          (others 1 ((others 0 st1)\<lparr>hs_cache := w1\<rparr>)) = (res, st')" by blast
      have "runs E R (rows (hs_db (others 0 st1))) (rows (hs_db (others 1 ((others 0 st1)\<lparr>hs_cache := w1\<rparr>))))"
        using assms(1) [rule_format, of "(others 0 st1)\<lparr>hs_cache := w1\<rparr>" 1] by simp
      from runs_trans [OF o runs_trans [OF this commit_request_runs [OF c]]] show ?thesis .
    qed (use o in auto)
  qed simp_all
  with r show "runs E R (rows (hs_db st)) (rows (hs_db (snd (request_payment E N env R secret others now ids headers req st))))"
    by simp
next
  obtain res d' where c: "cancel_order E N secret others' now i headers oid key d = (res, d')"
    by (cases "cancel_order E N secret others' now i headers oid key d")
  from c have "runs E R (rows d) (rows d')"
  proof (cases rule: cancel_order_cases)
    case (written u r d2 res')
    then show ?thesis using runs_trans cancel_stmts_runs assms(2) by metis
  qed simp
  with c show "runs E R (rows d) (rows (snd (cancel_order E N secret others' now i headers oid key d)))" by simp
qed

text \<open>
  C29 (redelivery is harmless). In every state the services reach, delivering the checkout message of a payment
  request that has its order changes no row, even when the look-up of the order fails.
\<close>

theorem redelivered_checkout_harmless:
  assumes "system_ok E s" "system_run E R s s'"
    and "Option.bind (as_str (jget payload ''payment_request_id'')) (parse_uuid E) = Some p"
    and "rows (store wk) = sy_rows s'" "settles p (sy_rows s') \<noteq> []"
    and "process_checkout E R L now ids payload wk = (a, wk')"
  shows "rows (store wk') = sy_rows s'"
proof -
  have ok: "tables_ok (sy_rows s')" "settled (sy_rows s')"
    using system_run_ok [OF assms(2,1)] by (simp_all add: system_ok_def books_ok_def)
  obtain r where "r \<in> set (orders (sy_rows s'))" "od_payment_request_id r = p"
    using assms(5) by (auto simp: settles_def filter_empty_conv)
  with ok(2) have "\<forall>q \<in> set (payment_requests (sy_rows s')). pr_id q = p \<longrightarrow> pr_status q = ''succeeded''"
    by (auto simp: settled_def)
  from checkout_redelivery_rows [OF assms(3) _ _ _ assms(6), unfolded assms(4), OF ok(1) assms(5) this] assms(4)
  show ?thesis by simp
qed

text \<open>
  (an accepted cancellation). A cancellation request is accepted only for a completed order of the caller, and
  afterwards the order is no longer completed, whatever other requests did in between.
\<close>

theorem accepted_cancellation_claims_order:
  assumes "cancel_order E N secret others now i headers oid key d = (Inr resp, d')" "cr_accepted resp"
  shows "(\<exists>u r. authenticated_user N headers secret = Inr u \<and> r \<in> set (orders (rows d)) \<and> completed_order oid r \<and>
      od_user_id r = u) \<and> (\<forall>r \<in> set (orders (rows d')). \<not> completed_order oid r)"
  using assms(1)
proof (cases rule: cancel_order_cases)
  case quiet
  then show ?thesis using quiet(2) [OF refl] assms(2) by simp
next
  case (written u r d2 res')
  from written(7) obtain x where x: "res' = Inr x" by (cases res') simp_all
  have o: "orders (rows d') = update_rows (completed_order oid) (\<lambda>r. r\<lparr>od_status := ''cancelling''\<rparr>) (orders (rows (others d2)))"
    using transaction_Inr(1) [OF written(6) [unfolded x]] by (simp add: cancel_stmts_def)
  have "\<not> completed_order oid r'" if "r' \<in> set (orders (rows d'))" for r'
  proof -
    from that obtain r0 where "r' = (if completed_order oid r0 then r0\<lparr>od_status := ''cancelling''\<rparr> else r0)"
      unfolding o update_rows_def list.set_map by (rule imageE)
    then show ?thesis by (cases "completed_order oid r0") (simp_all add: completed_order_def)
  qed
  with written(1-4) show ?thesis by (intro conjI exI [of _ u] exI [of _ r]) simp_all
qed

text \<open>
  C33 (the order matches the request). An order made from the message of a payment request is for its user,
  schedule, seats and amount, settles exactly this request and carries the provider's identifiers.
\<close>

theorem order_matches_request:
  assumes "parse_uuid E (show_uuid E p) = Some p" "in_i32 u" "in_i32 (rq_schedule_id req)" "list_all in_i32 (rq_seat_ids req)"
    and "process_checkout E R L now ids (payment_payload E p u req amount) wk = (a, wk')"
    and "orders (rows (store wk')) \<noteq> orders (rows (store wk))" "r = last (orders (rows (store wk')))"
  shows "od_payment_request_id r = p \<and> od_user_id r = u \<and> od_schedule_id r = rq_schedule_id req \<and>
    od_seat_ids r = seats_json (rq_seat_ids req) \<and> od_total_amount r = parsed_amount E amount \<and>
    od_razorpay_payment_id r = rq_payment_id req \<and> od_razorpay_order_id r = or_else (rq_order_id req) []"
  using assms(5)
proof (cases rule: process_checkout_cases)
  case (committed p' c w1)
  note f = payment_payload_fields [OF assms(2-4), of E p amount]
  have "p' = p" using committed(1) assms(1) f(1) by simp
  moreover have "r = new_order E now c"
    using assms(7) committed(8) by (simp add: orders_of_stmts)
  ultimately show ?thesis
    unfolding committed(10) by (simp add: new_order_def f or_else_def opt_str_def split: option.split)
qed (use assms(6) in \<open>auto simp: orders_of_stmts\<close>)

section \<open>Witnesses\<close>

text \<open>
  From the tables in which the pending request of user 1 is announced, the checkout message of that request makes
  the order; the state is one the services reach.
\<close>

definition demo_announced :: tables where
  "demo_announced = demo_tables\<lparr>outbox_events := [payment_event 0 7 ''payment.requested'' 9 JNull]\<rparr>"

definition demo_system :: system where
  "demo_system = \<lparr>sy_rows = demo_announced, sy_channel = []\<rparr>"

lemma demo_system_ok: "system_ok demo_crates demo_system"
proof -
  have "tables_ok demo_announced"
    by (simp add: demo_announced_def payment_event_def db_eval demo_defs)
  moreover have "outbox_ok demo_crates {} demo_announced"
    by (simp add: outbox_ok_def row_ok_def demo_announced_def payment_event_def)
  moreover have "books_ok demo_announced"
    by (simp add: books_ok_def books_defs demo_announced_def demo_tables_def payment_event_def demo_request_def cancel_event_def)
  ultimately show ?thesis by (simp add: system_ok_def demo_system_def)
qed

definition demo_booked :: tables where
  "demo_booked =
     demo_after\<lparr>outbox_events := [payment_event 0 7 ''payment.requested'' 9 JNull,
       order_event demo_crates 0 8 ''OrderCompleted'' 5 1 7 [3] ''120'']\<rparr>"

definition demo_booker :: "keyspace worker" where
  "demo_booker = demo_worker\<lparr>store := \<lparr>rows = demo_announced, db_faults = []\<rparr>\<rparr>"

lemma demo_booking:
  "\<exists>wk'. process_checkout demo_crates mem_redis (single_node_lock mem_redis json_codec 0) 0 (5, 6, 8) demo_checkout
     demo_booker = (Acked, wk') \<and> rows (store wk') = demo_booked"
proof -
  have o: "order_exists 9 \<lparr>rows = demo_announced, db_faults = []\<rparr> = (False, \<lparr>rows = demo_announced, db_faults = []\<rparr>)"
    by (simp add: order_exists_def demo_announced_def demo_tables_def)
  have c: "commit_checkout demo_crates 0 (6, 8)
     \<lparr>cc_order_id = 5, cc_payment_request_id = 9, cc_user_id = 1, cc_schedule_id = 7, cc_seat_ids = [3],
      cc_total_amount = ''120'', cc_razorpay_order_id = [], cc_razorpay_payment_id = Some ''pay''\<rparr>
     \<lparr>rows = demo_announced, db_faults = []\<rparr> = (Inr (), \<lparr>rows = demo_booked, db_faults = []\<rparr>)"
    by (simp add: commit_checkout_def checkout_stmts_def demo_announced_def demo_booked_def demo_after_def db_eval demo_defs
        new_order_def parsed_amount_def payment_event_def)
  show ?thesis
    using demo_validated
    by (simp add: process_checkout_def finish_checkout_def demo_booker_def o c Let_def del: validate_locks.simps)
qed

lemma demo_reach: "system_run demo_crates mem_redis demo_system \<lparr>sy_rows = demo_booked, sy_channel = []\<rparr>"
proof -
  obtain wk' where w: "process_checkout demo_crates mem_redis (single_node_lock mem_redis json_codec 0) 0 (5, 6, 8)
     demo_checkout demo_booker = (Acked, wk')" "rows (store wk') = demo_booked"
    using demo_booking by blast
  let ?m = "\<lparr>dl_payload = Some demo_checkout, dl_now = 0, dl_ids = (5, 6, 8), dl_provider = (\<lambda>_ _. True)\<rparr>"
  have "process_message demo_crates (\<lambda>_. None) mem_redis (single_node_lock mem_redis json_codec) ?m demo_booker = (Acked, wk')"
    using w by (simp add: process_message_def str_field_def demo_checkout_def)
  from payment_step [OF this, of demo_system] w(2) show ?thesis
    by (intro system_run_one) (simp add: demo_system_def demo_booker_def)
qed

theorem services_keep_the_books_witness:
  "settled demo_booked \<and> receipted demo_booked \<and> cancel_requested_once demo_booked"
  using services_keep_the_books [OF demo_system_ok demo_reach] by simp

theorem redelivered_checkout_harmless_witness:
  "rows (store (snd (process_checkout demo_crates mem_redis (single_node_lock mem_redis json_codec 0) 1 (15, 16, 18)
     demo_checkout (demo_worker\<lparr>store := \<lparr>rows = demo_booked, db_faults = [Refused]\<rparr>\<rparr>)))) = demo_booked"
proof -
  let ?wk = "demo_worker\<lparr>store := \<lparr>rows = demo_booked, db_faults = [Refused]\<rparr>\<rparr>"
  obtain a wk' where r: "process_checkout demo_crates mem_redis (single_node_lock mem_redis json_codec 0) 1 (15, 16, 18)
     demo_checkout ?wk = (a, wk')"
    by (cases "process_checkout demo_crates mem_redis (single_node_lock mem_redis json_codec 0) 1 (15, 16, 18) demo_checkout ?wk")
  have "rows (store wk') = sy_rows \<lparr>sy_rows = demo_booked, sy_channel = []\<rparr>"
    by (rule redelivered_checkout_harmless [OF demo_system_ok demo_reach _ _ _ r, of 9])
      (simp_all add: settles_def demo_booked_def)
  with r show ?thesis by simp
qed

theorem accepted_cancellation_claims_order_witness:
  "\<exists>resp d'. cancel_order demo_crates demo_pay_crates [] (\<lambda>x. x) 0 30 bearer 5 ''k'' \<lparr>rows = demo_booked, db_faults = []\<rparr> =
     (Inr resp, d') \<and> (\<forall>r \<in> set (orders (rows d')). \<not> completed_order 5 r)"
proof -
  let ?d = "\<lparr>rows = demo_booked, db_faults = []\<rparr>"
  let ?sts = "cancel_stmts 0 30 5 (cancel_payload demo_crates demo_pay_crates 1 demo_order ''k'') demo_booked"
  have t: "trim ''k'' = ''k''" by code_simp
  have o: "orders demo_booked = [demo_order]" by (simp add: demo_booked_def)
  have f: "od_user_id demo_order = 1" "od_status demo_order = ''completed''" by (simp_all add: demo_order_def)
  have "tables_ok (run_all ?sts demo_booked)" "tables_ok (demo_booked\<lparr>orders := [demo_order\<lparr>od_status := ''cancelling''\<rparr>]\<rparr>)"
    by (simp_all add: cancel_stmts_def o completed_order_def f)
      (simp_all add: demo_booked_def demo_after_def db_eval demo_defs payment_event_def completed_order_def)
  then have "transaction ?sts ?d = (Inr (), \<lparr>rows = run_all ?sts demo_booked, db_faults = []\<rparr>)"
    by (simp add: transaction_def cancel_stmts_def o completed_order_def f checked_def update_rows_def)
  then have r: "cancel_order demo_crates demo_pay_crates [] (\<lambda>x. x) 0 30 bearer 5 ''k'' ?d =
      (Inr \<lparr>cr_order_id = show_uuid demo_crates 5, cr_status = ''cancelling'', cr_accepted = True\<rparr>,
       \<lparr>rows = run_all ?sts demo_booked, db_faults = []\<rparr>)"
    using t by (simp add: cancel_order_def o f)
  from accepted_cancellation_claims_order [OF r] r show ?thesis by simp
qed

theorem order_matches_request_witness:
  "\<exists>wk'. process_checkout demo_crates mem_redis (single_node_lock mem_redis json_codec 0) 0 (5, 6, 8)
     (payment_payload demo_crates 9 1 demo_body ''120'') demo_booker = (Acked, wk') \<and>
     od_payment_request_id (last (orders (rows (store wk')))) = 9 \<and> od_user_id (last (orders (rows (store wk')))) = 1"
proof -
  let ?p = "payment_payload demo_crates 9 1 demo_body ''120''"
  have i: "in_i32 1" "in_i32 (rq_schedule_id demo_body)" "list_all in_i32 (rq_seat_ids demo_body)" by (simp_all add: in_i32_def)
  have n: "dec 9 = ''9''" by code_simp
  then have u: "show_uuid demo_crates 9 = ''9''" by (simp add: demo_crates_def)
  note f = payment_payload_fields [OF i, of demo_crates 9 "''120''"]
  let ?d = "\<lparr>rows = demo_announced, db_faults = []\<rparr>"
  let ?c = "\<lparr>cc_order_id = 5, cc_payment_request_id = 9, cc_user_id = 1, cc_schedule_id = 7, cc_seat_ids = [3],
      cc_total_amount = ''120'', cc_razorpay_order_id = [], cc_razorpay_payment_id = None\<rparr>"
  have o: "order_exists 9 ?d = (False, ?d)" by (simp add: order_exists_def demo_announced_def demo_tables_def)
  obtain T where c: "commit_checkout demo_crates 0 (6, 8) ?c ?d = (Inr (), \<lparr>rows = T, db_faults = []\<rparr>)"
      and T: "orders T = [new_order demo_crates 0 ?c]"
    by (simp add: commit_checkout_def checkout_stmts_def demo_announced_def db_eval demo_defs new_order_def parsed_amount_def
        payment_event_def)
  obtain wk' where r: "process_checkout demo_crates mem_redis (single_node_lock mem_redis json_codec 0) 0 (5, 6, 8) ?p
      demo_booker = (Acked, wk')" and w: "rows (store wk') = T"
    using demo_validated f u
    by (simp add: process_checkout_def finish_checkout_def demo_booker_def o c Let_def or_else_def
        del: validate_locks.simps)
  have "orders (rows (store wk')) \<noteq> orders (rows (store demo_booker))"
    by (simp add: w T demo_booker_def demo_announced_def)
  from order_matches_request [OF _ i r this refl] r u show ?thesis by simp
qed

end
