(* ===== verification/Schedules_Admin.thy ===== *)
theory Schedules_Admin
  imports Payments_Api "HOL-Library.List_Lexorder" "HOL-Library.Product_Lexorder" "HOL-Library.Char_ord"
begin

text \<open>
  The administration of schedules (\<open>apps/http-server/src/api/admin/schedules_v2.rs\<close>) over the response cache of
  \<open>services/cache.rs\<close>: creating a schedule with the seats of a layout, adding extra seats, editing, and the
  life cycle of a schedule with its announcement in Redis. MongoDB and the parsing of times and prices belong
  to other crates and are parameters. A handler whose steps other requests can separate is given by its parts
  and as their composition.
\<close>

section \<open>The response cache\<close>

text \<open>
  Up to three retries, after 50, 100 and 200 milliseconds; the pauses do not show in the result. \<open>d\<close> decodes
  the cached text, and a text that does not decode is a miss.
\<close>

fun get_async_cached ::
    "nat \<Rightarrow> 'r redis \<Rightarrow> (string \<Rightarrow> 'a option) \<Rightarrow> string \<Rightarrow> ('r, 'p) world \<Rightarrow> 'a option \<times> ('r, 'p) world" where
  "get_async_cached retries R d k w =
     (case send 0 (reading (GET R k)) w of
        (Some (Some raw), w1) \<Rightarrow> (d raw, w1)
      | (Some None, w1) \<Rightarrow> (None, w1)
      | (None, w1) \<Rightarrow> (case retries of 0 \<Rightarrow> (None, w1) | Suc n \<Rightarrow> get_async_cached n R d k w1))"

fun set_async_cached ::
    "nat \<Rightarrow> 'r redis \<Rightarrow> string \<Rightarrow> string \<Rightarrow> int \<Rightarrow> ('r, 'p) world \<Rightarrow> ('r, 'p) world" where
  "set_async_cached retries R k raw ttl_secs w =
     (case send 0 (writing (SETPX R k raw (ttl_secs * 1000))) w of
        (Some _, w1) \<Rightarrow> w1
      | (None, w1) \<Rightarrow> (case retries of 0 \<Rightarrow> w1 | Suc n \<Rightarrow> set_async_cached n R k raw ttl_secs w1))"

fun invalidate_async :: "nat \<Rightarrow> 'r redis \<Rightarrow> string \<Rightarrow> ('r, 'p) world \<Rightarrow> ('r, 'p) world" where
  "invalidate_async retries R k w =
     (case send 0 (writing (DEL R k)) w of
        (Some _, w1) \<Rightarrow> w1
      | (None, w1) \<Rightarrow> (case retries of 0 \<Rightarrow> w1 | Suc n \<Rightarrow> invalidate_async n R k w1))"

declare get_async_cached.simps [simp del] set_async_cached.simps [simp del] invalidate_async.simps [simp del]

definition TTL_SHOW_SCHEDULES :: int where
  "TTL_SHOW_SCHEDULES = 24 * 60 * 60"

definition TTL_SCHEDULE_SEAT_COUNTS :: int where
  "TTL_SCHEDULE_SEAT_COUNTS = TTL_SHOW_SCHEDULES"

section \<open>Shows in MongoDB\<close>

datatype MongoShowType = MongoMovie | MongoConcert | MongoEvent | MongoGameEvent

record MongoShow =
  ms_title :: string
  ms_show_type :: MongoShowType

text \<open>
  The parameters: object ids (parsed, in hexadecimal form), the query for a show that is not deleted (\<open>Inl\<close> when
  it fails), the query for a show by id alone, RFC 3339 times and dates (as the midnight they start at), and
  prices.
\<close>

record admin_crates =
  parse_oid :: "string \<Rightarrow> string option"
  live_show :: "string \<Rightarrow> unit + MongoShow option"
  any_show :: "string \<Rightarrow> MongoShow option"
  parse_rfc3339 :: "string \<Rightarrow> timestamp option"
  parse_date :: "string \<Rightarrow> timestamp option"
  parse_price :: "string \<Rightarrow> BigDecimal option"

fun show_types_match :: "ShowType \<Rightarrow> MongoShowType \<Rightarrow> bool" where
  "show_types_match Movie MongoMovie = True"
| "show_types_match Concert MongoConcert = True"
| "show_types_match Event MongoEvent = True"
| "show_types_match GameEvent MongoGameEvent = True"
| "show_types_match _ _ = False"

fun show_type_name :: "ShowType \<Rightarrow> string" where
  "show_type_name Movie = ''Movie''"
| "show_type_name Concert = ''Concert''"
| "show_type_name Event = ''Event''"
| "show_type_name GameEvent = ''GameEvent''"

definition schedule_cache_keys :: "Schedule \<Rightarrow> string list" where
  "schedule_cache_keys r =
     (let show_type = show_type_name (sc_show_type r)
      in [cache_schedules_active_key,
          cache_show_schedules_key (sc_mongo_show_id r) (sc_venue_city r),
          cache_show_schedules_key (sc_mongo_show_id r) None,
          cache_movies_key None None,
          cache_movies_key (Some show_type) None,
          cache_movies_key None (sc_venue_city r),
          cache_movies_key (Some show_type) (sc_venue_city r)])"

definition invalidate_show_schedule_caches :: "'r redis \<Rightarrow> Schedule \<Rightarrow> ('r, 'p) world \<Rightarrow> ('r, 'p) world" where
  "invalidate_show_schedule_caches R r w = fold (invalidate_async 3 R) (schedule_cache_keys r) w"

section \<open>State and requests\<close>

record SeatLayoutSeat =
  ly_id :: int
  ly_layout_id :: int
  ly_row_letter :: string
  ly_seat_number :: int
  ly_seat_class :: LayoutSeatClass
  ly_x_pos :: "int option"
  ly_y_pos :: "int option"
  ly_block_name :: "string option"

record 'r catalog = "'r http" +
  seat_layout_seats :: "SeatLayoutSeat list"

text \<open>The work on the database or on the cache within the state.\<close>

definition on_db :: "(database \<Rightarrow> 'a \<times> database) \<Rightarrow> ('r, 'x) http_scheme \<Rightarrow> 'a \<times> ('r, 'x) http_scheme" where
  "on_db f st = (case f (hs_db st) of (x, d) \<Rightarrow> (x, st\<lparr>hs_db := d\<rparr>))"

definition on_cache ::
    "(('r, json) world \<Rightarrow> 'a \<times> ('r, json) world) \<Rightarrow> ('r, 'x) http_scheme \<Rightarrow> 'a \<times> ('r, 'x) http_scheme" where
  "on_cache f st = (case f (hs_cache st) of (x, w) \<Rightarrow> (x, st\<lparr>hs_cache := w\<rparr>))"

definition do_cache ::
    "(('r, json) world \<Rightarrow> ('r, json) world) \<Rightarrow> ('r, 'x) http_scheme \<Rightarrow> ('r, 'x) http_scheme" where
  "do_cache f st = st\<lparr>hs_cache := f (hs_cache st)\<rparr>"

record CreateScheduleRequest =
  cr_mongo_show_id :: string
  cr_show_type :: ShowType
  cr_layout_id :: int
  cr_date :: string
  cr_slot :: TimeSlot
  cr_start_time :: "string option"
  cr_end_time :: string
  cr_booking_open_at :: string
  cr_prices :: "string \<rightharpoonup> string"
  cr_venue_name :: "string option"
  cr_venue_address :: "string option"
  cr_venue_city :: string
  cr_venue_state :: "string option"

record ExtraSeatInput =
  ex_row_letter :: string
  ex_seat_number :: int
  ex_seat_class :: LayoutSeatClass
  ex_price :: string

record UpdateSeatInput =
  up_seat :: seat_id
  up_price :: "string option"
  up_status :: "SeatStatus option"

record UpdateScheduleRequest =
  ur_date :: "string option"
  ur_slot :: "TimeSlot option"
  ur_start_time :: "string option"
  ur_end_time :: "string option"
  ur_booking_open_at :: "string option"
  ur_venue_name :: "string option"
  ur_venue_address :: "string option"
  ur_venue_city :: "string option"
  ur_venue_state :: "string option"

record NewScheduleSeat =
  ns_schedule_id :: schedule_id
  ns_seat_index :: int
  ns_layout_seat_id :: "int option"
  ns_source :: SeatSource
  ns_row_letter :: string
  ns_seat_number :: int
  ns_seat_class :: LayoutSeatClass
  ns_price :: BigDecimal

section \<open>Transactions with reads\<close>

text \<open>
  The body of \<open>conn.transaction\<close>: an error rolls back, a lost reply of \<open>COMMIT\<close> is an error although the work
  is done. A statement inside it is \<open>run_stmts [f]\<close>.
\<close>

definition atomically ::
    "(database \<Rightarrow> (AppError + 'a) \<times> database) \<Rightarrow> database \<Rightarrow> (AppError + 'a) \<times> database" where
  "atomically body d =
     (case db_fault d of (fb, d0) \<Rightarrow>
        if fb \<noteq> Delivered then (Inl Database, d0)
        else case body d0 of
               (Inl e, d1) \<Rightarrow> (Inl e, d1\<lparr>rows := rows d0\<rparr>)
             | (Inr x, d1) \<Rightarrow>
                 (case db_fault d1 of (fc, d2) \<Rightarrow>
                    if fc = Refused then (Inl Database, d2\<lparr>rows := rows d0\<rparr>)
                    else (if fc = ReplyLost then Inl Database else Inr x, d2)))"

definition find_live :: "schedule_id \<Rightarrow> tables \<Rightarrow> Schedule option" where
  "find_live s T = find (\<lambda>r. sc_id r = s \<and> sc_deleted_at r = None) (schedules T)"

definition find_schedule :: "schedule_id \<Rightarrow> tables \<Rightarrow> Schedule option" where
  "find_schedule s T = find (\<lambda>r. sc_id r = s) (schedules T)"

text \<open>The row a transaction selects \<open>FOR UPDATE\<close>, with its two errors.\<close>

definition lock_live_schedule :: "schedule_id \<Rightarrow> database \<Rightarrow> (AppError + Schedule) \<times> database" where
  "lock_live_schedule s d =
     (case query (find_live s) d of
        (None, d1) \<Rightarrow> (Inl Database, d1)
      | (Some None, d1) \<Rightarrow> (Inl (NotFound ''Schedule not found''), d1)
      | (Some (Some r), d1) \<Rightarrow> (Inr r, d1))"

definition with_connection ::
    "(database \<Rightarrow> (AppError + 'a) \<times> database) \<Rightarrow> database \<Rightarrow> (AppError + 'a) \<times> database" where
  "with_connection f d = (case db_get d of (ok, d1) \<Rightarrow> if ok then f d1 else (Inl Internal, d1))"

section \<open>Creating a schedule\<close>

definition slot_hour :: "TimeSlot \<Rightarrow> int" where
  "slot_hour sl = (case sl of Morning \<Rightarrow> 10 | Afternoon \<Rightarrow> 14 | Evening \<Rightarrow> 18 | Night \<Rightarrow> 22)"

definition class_key :: "LayoutSeatClass \<Rightarrow> string" where
  "class_key c = (case c of Standard \<Rightarrow> ''Standard'' | Premium \<Rightarrow> ''Premium'' | Vip \<Rightarrow> ''VIP'' | Ga \<Rightarrow> ''GA'')"

definition class_price :: "admin_crates \<Rightarrow> (string \<rightharpoonup> string) \<Rightarrow> LayoutSeatClass \<Rightarrow> BigDecimal" where
  "class_price A prices c =
     (let price_str = (case prices (class_key c) of
          Some p \<Rightarrow> p | None \<Rightarrow> (case prices ''Standard'' of Some p \<Rightarrow> p | None \<Rightarrow> ''0''))
      in case parse_price A price_str of Some p \<Rightarrow> p | None \<Rightarrow> (0, 0))"

text \<open>
  The loop over the sorted seats: a (row, number) pair is taken once, and the seats taken are numbered from 1.
  \<open>n\<close> is \<open>new_seats.len()\<close>.
\<close>

fun copy_seats ::
    "admin_crates \<Rightarrow> (string \<rightharpoonup> string) \<Rightarrow> schedule_id \<Rightarrow> (string \<times> int) list \<Rightarrow> nat \<Rightarrow> SeatLayoutSeat list \<Rightarrow>
     AppError + NewScheduleSeat list" where
  "copy_seats A prices s seen_keys n [] = Inr []"
| "copy_seats A prices s seen_keys n (seat # seats) =
     (let key = (ly_row_letter seat, ly_seat_number seat)
      in if key \<in> set seen_keys then copy_seats A prices s seen_keys n seats
         else if \<not> in_i32 (int n + 1) then Inl (BadRequest ''Seat layout contains too many seats'')
         else
           (case copy_seats A prices s (key # seen_keys) (n + 1) seats of
              Inl e \<Rightarrow> Inl e
            | Inr ns \<Rightarrow>
                Inr (\<lparr>ns_schedule_id = s, ns_seat_index = int n + 1, ns_layout_seat_id = Some (ly_id seat),
                      ns_source = Base, ns_row_letter = ly_row_letter seat, ns_seat_number = ly_seat_number seat,
                      ns_seat_class = ly_seat_class seat, ns_price = class_price A prices (ly_seat_class seat)\<rparr> # ns)))"

definition seat_order :: "SeatLayoutSeat \<Rightarrow> string \<times> int \<times> int" where
  "seat_order r = (ly_row_letter r, ly_seat_number r, ly_id r)"

text \<open>A new row takes the next id of the sequence and the defaults of its other columns.\<close>

definition seat_row :: "seat_id \<Rightarrow> NewScheduleSeat \<Rightarrow> ScheduleSeat" where
  "seat_row i n =
     \<lparr>ss_id = i, ss_schedule_id = ns_schedule_id n, ss_seat_index = ns_seat_index n,
      ss_layout_seat_id = ns_layout_seat_id n, ss_source = ns_source n, ss_row_letter = ns_row_letter n,
      ss_seat_number = ns_seat_number n, ss_seat_class = ns_seat_class n, ss_price = ns_price n,
      ss_status = Available, ss_booking_id = None\<rparr>"

definition seat_rows :: "(nat \<Rightarrow> seat_id) \<Rightarrow> NewScheduleSeat list \<Rightarrow> ScheduleSeat list" where
  "seat_rows ids news = map (\<lambda>(k, n). seat_row (ids k) n) (List.enumerate 0 news)"

text \<open>\<open>INSERT ... ON CONFLICT DO NOTHING\<close>: a row that would break a key is skipped.\<close>

definition insert_or_skip :: "ScheduleSeat \<Rightarrow> tables \<Rightarrow> tables" where
  "insert_or_skip r T =
     (let T' = T\<lparr>schedule_seats := schedule_seats T @ [r]\<rparr> in if keys_ok T' then T' else T)"

definition insert_seats :: "ScheduleSeat list \<Rightarrow> tables \<Rightarrow> tables" where
  "insert_seats rs T = T\<lparr>schedule_seats := schedule_seats T @ rs\<rparr>"

definition insert_schedule :: "Schedule \<Rightarrow> tables \<Rightarrow> tables" where
  "insert_schedule r T = T\<lparr>schedules := schedules T @ [r]\<rparr>"

text \<open>The request's fields checked in the order of the code: the row to insert, without its id.\<close>

definition check_create :: "admin_crates \<Rightarrow> timestamp \<Rightarrow> CreateScheduleRequest \<Rightarrow> AppError + (schedule_id \<Rightarrow> Schedule)" where
  "check_create A now body =
     (let venue_city = trim (cr_venue_city body)
      in if venue_city = [] then Inl (BadRequest ''venue_city is required'')
         else case parse_oid A (trim (cr_mongo_show_id body)) of
           None \<Rightarrow> Inl (BadRequest ''mongo_show_id must be a valid MongoDB ObjectId'')
         | Some oid \<Rightarrow>
         (case live_show A oid of
           Inl _ \<Rightarrow> Inl Internal
         | Inr None \<Rightarrow> Inl (NotFound ''Show not found or has been deleted'')
         | Inr (Some show) \<Rightarrow>
           if \<not> show_types_match (cr_show_type body) (ms_show_type show)
           then Inl (BadRequest ''show_type does not match the referenced MongoDB show'')
           else case parse_date A (cr_date body) of
             None \<Rightarrow> Inl (BadRequest ''Invalid date format, expected YYYY-MM-DD'')
           | Some date \<Rightarrow>
           (case (case cr_start_time body of
                    Some st \<Rightarrow> parse_rfc3339 A st
                  | None \<Rightarrow> Some (date + seconds (slot_hour (cr_slot body) * 3600))) of
             None \<Rightarrow> Inl (BadRequest ''Invalid start_time: use ISO-8601'')
           | Some start_time \<Rightarrow>
           (case parse_rfc3339 A (cr_end_time body) of
             None \<Rightarrow> Inl (BadRequest ''Invalid end_time: use ISO-8601'')
           | Some end_time \<Rightarrow>
           (case parse_rfc3339 A (cr_booking_open_at body) of
             None \<Rightarrow> Inl (BadRequest ''Invalid booking_open_at: use ISO-8601'')
           | Some booking_open_at \<Rightarrow>
             if start_time \<le> booking_open_at then Inl (BadRequest ''booking_open_at must be before start_time'')
             else Inr (\<lambda>s.
               \<lparr>sc_id = s, sc_mongo_show_id = trim (cr_mongo_show_id body), sc_show_type = cr_show_type body,
                sc_layout_id = Some (cr_layout_id body), sc_start_time = start_time,
                sc_booking_open_at = booking_open_at, sc_lifecycle_state = ScheduleLifecycleState.Scheduled,
                sc_created_at = now, sc_deleted_at = None, sc_venue_name = cr_venue_name body,
                sc_venue_address = cr_venue_address body, sc_venue_city = Some venue_city,
                sc_venue_state = cr_venue_state body, sc_date = date, sc_slot = cr_slot body,
                sc_end_time = end_time\<rparr>))))))"

text \<open>The work on the database; \<open>s\<close> and \<open>ids\<close> are the next ids of the two sequences.\<close>

definition create_rows ::
    "admin_crates \<Rightarrow> SeatLayoutSeat list \<Rightarrow> schedule_id \<Rightarrow> (nat \<Rightarrow> seat_id) \<Rightarrow> CreateScheduleRequest \<Rightarrow>
     (schedule_id \<Rightarrow> Schedule) \<Rightarrow> database \<Rightarrow> (AppError + nat) \<times> database" where
  "create_rows A layout s ids body new d =
     (case query (\<lambda>_. filter (\<lambda>r. ly_layout_id r = cr_layout_id body) layout) d of
        (None, d1) \<Rightarrow> (Inl Internal, d1)
      | (Some [], d1) \<Rightarrow> (Inl (BadRequest ''Seat layout has no seats: add seats to the layout first''), d1)
      | (Some base_seats, d1) \<Rightarrow>
          (case execute (insert_schedule (new s)) d1 of
             (Inl _, d2) \<Rightarrow> (Inl Internal, d2)
           | (Inr _, d2) \<Rightarrow>
               (case copy_seats A (cr_prices body) s [] 0 (sort_key seat_order base_seats) of
                  Inl e \<Rightarrow> (Inl e, d2)
                | Inr news \<Rightarrow>
                    (case execute (fold insert_or_skip (seat_rows ids news)) d2 of
                       (Inl _, d3) \<Rightarrow> (Inl Internal, d3)
                     | (Inr _, d3) \<Rightarrow> (Inr (length news), d3)))))"

definition create_schedule ::
    "admin_crates \<Rightarrow> 'r redis \<Rightarrow> timestamp \<Rightarrow> schedule_id \<Rightarrow> (nat \<Rightarrow> seat_id) \<Rightarrow> CreateScheduleRequest \<Rightarrow> 'r catalog \<Rightarrow>
     (AppError + schedule_id \<times> nat) \<times> 'r catalog" where
  "create_schedule A R now s ids body st =
     (case check_create A now body of
        Inl e \<Rightarrow> (Inl e, st)
      | Inr new \<Rightarrow>
          (case on_db (with_connection (create_rows A (seat_layout_seats st) s ids body new)) st of
             (Inl e, st1) \<Rightarrow> (Inl e, st1)
           | (Inr n, st1) \<Rightarrow> (Inr (s, n), do_cache (invalidate_show_schedule_caches R (new s)) st1)))"

section \<open>Extra seats\<close>

text \<open>
  The loop over the request: \<open>seen_keys\<close> holds the pairs already in the schedule or in the request. The index after
  the last one must still be an \<open>i32\<close>.
\<close>

fun extra_seats ::
    "admin_crates \<Rightarrow> schedule_id \<Rightarrow> (string \<times> int) list \<Rightarrow> int \<Rightarrow> ExtraSeatInput list \<Rightarrow> AppError + NewScheduleSeat list" where
  "extra_seats A s seen_keys next_index [] = Inr []"
| "extra_seats A s seen_keys next_index (seat # seats) =
     (let key = (ex_row_letter seat, ex_seat_number seat)
      in if key \<in> set seen_keys then extra_seats A s seen_keys next_index seats
         else case parse_price A (ex_price seat) of
           None \<Rightarrow> Inl (BadRequest (''Invalid price: '' @ ex_price seat))
         | Some price \<Rightarrow>
             if \<not> in_i32 (next_index + 1) then Inl (BadRequest ''Schedule contains too many seats'')
             else
               (case extra_seats A s (key # seen_keys) (next_index + 1) seats of
                  Inl e \<Rightarrow> Inl e
                | Inr ns \<Rightarrow>
                    Inr (\<lparr>ns_schedule_id = s, ns_seat_index = next_index, ns_layout_seat_id = None, ns_source = Extra,
                          ns_row_letter = ex_row_letter seat, ns_seat_number = ex_seat_number seat,
                          ns_seat_class = ex_seat_class seat, ns_price = price\<rparr> # ns)))"

definition seats_in :: "schedule_id \<Rightarrow> tables \<Rightarrow> ScheduleSeat list" where
  "seats_in s T = filter (\<lambda>r. ss_schedule_id r = s) (schedule_seats T)"

definition seat_keys :: "schedule_id \<Rightarrow> tables \<Rightarrow> (string \<times> int) list" where
  "seat_keys s T = map (\<lambda>r. (ss_row_letter r, ss_seat_number r)) (seats_in s T)"

definition max_seat_index :: "schedule_id \<Rightarrow> tables \<Rightarrow> int option" where
  "max_seat_index s T =
     (case map ss_seat_index (seats_in s T) of [] \<Rightarrow> None | i # is \<Rightarrow> Some (fold max is i))"

definition add_seats_tx ::
    "admin_crates \<Rightarrow> schedule_id \<Rightarrow> (nat \<Rightarrow> seat_id) \<Rightarrow> ExtraSeatInput list \<Rightarrow> database \<Rightarrow>
     (AppError + ScheduleSeat list) \<times> database" where
  "add_seats_tx A s ids seats d =
     (case lock_live_schedule s d of
        (Inl e, d1) \<Rightarrow> (Inl e, d1)
      | (Inr sched, d1) \<Rightarrow>
          if sc_lifecycle_state sched \<noteq> ScheduleLifecycleState.Scheduled
          then (Inl (BadRequest ''Cannot add seats after the schedule has started''), d1)
          else
            (case query (seat_keys s) d1 of
               (None, d2) \<Rightarrow> (Inl Database, d2)
             | (Some keys, d2) \<Rightarrow>
                 (case query (max_seat_index s) d2 of
                    (None, d3) \<Rightarrow> (Inl Database, d3)
                  | (Some last_index, d3) \<Rightarrow>
                      (let next_index = (case last_index of Some i \<Rightarrow> i | None \<Rightarrow> 0) + 1
                       in if \<not> in_i32 next_index then (Inl (BadRequest ''Schedule contains too many seats''), d3)
                          else case extra_seats A s keys next_index seats of
                            Inl e \<Rightarrow> (Inl e, d3)
                          | Inr [] \<Rightarrow> (Inr [], d3)
                          | Inr news \<Rightarrow>
                              (case run_stmts [insert_seats (seat_rows ids news)] d3 of
                                 (Inl _, d4) \<Rightarrow> (Inl Database, d4)
                               | (Inr _, d4) \<Rightarrow> (Inr (seat_rows ids news), d4))))))"

definition add_extra_seats ::
    "admin_crates \<Rightarrow> 'r redis \<Rightarrow> schedule_id \<Rightarrow> (nat \<Rightarrow> seat_id) \<Rightarrow> ExtraSeatInput list \<Rightarrow> 'r catalog \<Rightarrow>
     (AppError + ScheduleSeat list) \<times> 'r catalog" where
  "add_extra_seats A R s ids seats st =
     (if seats = [] then (Inl (BadRequest ''seats must not be empty''), st)
      else
        (case on_db (with_connection (atomically (add_seats_tx A s ids seats))) st of
           (Inl e, st1) \<Rightarrow> (Inl e, st1)
         | (Inr inserted, st1) \<Rightarrow>
             (Inr inserted,
              do_cache (invalidate_async 3 R cache_schedules_active_key)
                (do_cache (invalidate_async 3 R (cache_schedule_key s)) st1))))"

section \<open>Editing and reading seats\<close>

definition update_seat :: "schedule_id \<Rightarrow> seat_id \<Rightarrow> (ScheduleSeat \<Rightarrow> ScheduleSeat) \<Rightarrow> tables \<Rightarrow> tables" where
  "update_seat s i f T =
     T\<lparr>schedule_seats := update_rows (\<lambda>r. ss_id r = i \<and> ss_schedule_id r = s) f (schedule_seats T)\<rparr>"

text \<open>One statement of the loop when its field is given; an error ends the request half done.\<close>

definition apply_update :: "(tables \<Rightarrow> tables) option \<Rightarrow> database \<Rightarrow> (AppError + unit) \<times> database" where
  "apply_update st d =
     (case st of
        None \<Rightarrow> (Inr (), d)
      | Some f \<Rightarrow> (case execute f d of (Inl _, d1) \<Rightarrow> (Inl Internal, d1) | (Inr _, d1) \<Rightarrow> (Inr (), d1)))"

fun update_seats_loop ::
    "admin_crates \<Rightarrow> schedule_id \<Rightarrow> UpdateSeatInput list \<Rightarrow> database \<Rightarrow> (AppError + unit) \<times> database" where
  "update_seats_loop A s [] d = (Inr (), d)"
| "update_seats_loop A s (u # us) d =
     (case apply_update (map_option (\<lambda>p. update_seat s (up_seat u) (\<lambda>r. r\<lparr>ss_price := p\<rparr>))
              (Option.bind (up_price u) (parse_price A))) d of
        (Inl e, d1) \<Rightarrow> (Inl e, d1)
      | (Inr _, d1) \<Rightarrow>
          (case apply_update (map_option (\<lambda>x. update_seat s (up_seat u) (\<lambda>r. r\<lparr>ss_status := x\<rparr>)) (up_status u)) d1 of
             (Inl e, d2) \<Rightarrow> (Inl e, d2)
           | (Inr _, d2) \<Rightarrow> update_seats_loop A s us d2))"

definition update_schedule_seats ::
    "admin_crates \<Rightarrow> 'r redis \<Rightarrow> schedule_id \<Rightarrow> UpdateSeatInput list \<Rightarrow> 'r catalog \<Rightarrow> (AppError + unit) \<times> 'r catalog" where
  "update_schedule_seats A R s us st =
     (if us = [] then (Inl (BadRequest ''seats array must not be empty''), st)
      else
        (case on_db (with_connection (\<lambda>d.
                case query (find_schedule s) d of
                  (Some (Some _), d1) \<Rightarrow> update_seats_loop A s us d1
                | (_, d1) \<Rightarrow> (Inl (NotFound ''Schedule not found''), d1))) st of
           (Inl e, st1) \<Rightarrow> (Inl e, st1)
         | (Inr _, st1) \<Rightarrow> (Inr (), do_cache (invalidate_async 3 R (cache_schedule_key s)) st1)))"

definition seat_map :: "schedule_id \<Rightarrow> tables \<Rightarrow> ScheduleSeat list" where
  "seat_map s T = sort_key ss_seat_index (seats_in s T)"

definition get_schedule_seats :: "schedule_id \<Rightarrow> 'r catalog \<Rightarrow> (AppError + ScheduleSeat list) \<times> 'r catalog" where
  "get_schedule_seats s st =
     on_db (with_connection (\<lambda>d. case query (seat_map s) d of (None, d1) \<Rightarrow> (Inl Internal, d1) | (Some xs, d1) \<Rightarrow> (Inr xs, d1))) st"

definition get_schedule :: "schedule_id \<Rightarrow> 'r catalog \<Rightarrow> (AppError + Schedule) \<times> 'r catalog" where
  "get_schedule s st =
     on_db (with_connection (\<lambda>d.
       case query (find_schedule s) d of
         (Some (Some r), d1) \<Rightarrow> (Inr r, d1) | (_, d1) \<Rightarrow> (Inl (NotFound ''Schedule not found''), d1))) st"

section \<open>The life cycle\<close>

text \<open>
  \<open>PUBLISH\<close> with its reply. The marker and the announcement: an error at either ends the request, after what came
  before has taken effect.
\<close>

definition publish_reply :: "string \<Rightarrow> json \<Rightarrow> ('r, json) world \<Rightarrow> bool \<times> ('r, json) world" where
  "publish_reply ch p w =
     (case next_fault w of (f, w1) \<Rightarrow>
        (f = Delivered, if f = Refused then w1 else w1\<lparr>published := (0, ch, p) # published w1\<rparr>))"

definition publish_schedule_lifecycle ::
    "'r redis \<Rightarrow> PubSubEvent \<Rightarrow> ('r, json) world \<Rightarrow> (AppError + unit) \<times> ('r, json) world" where
  "publish_schedule_lifecycle R event w =
     (case (case event of
              ScheduleOpened s \<Rightarrow> Some (writing (DEL R (schedule_closed_key s)))
            | ScheduleClosed s \<Rightarrow> Some (writing (SET R (schedule_closed_key s) ''1''))
            | _ \<Rightarrow> None) of
        None \<Rightarrow> (Inl Internal, w)
      | Some cmd \<Rightarrow>
          (case send 0 cmd w of
             (None, w1) \<Rightarrow> (Inl Internal, w1)
           | (Some _, w1) \<Rightarrow>
               (case publish_reply schedule_lifecycle_channel (event_json event) w1 of
                  (ok, w2) \<Rightarrow> (if ok then Inr () else Inl Internal, w2))))"

definition invalidate_schedule_lifecycle_caches :: "'r redis \<Rightarrow> Schedule \<Rightarrow> ('r, 'p) world \<Rightarrow> ('r, 'p) world" where
  "invalidate_schedule_lifecycle_caches R r w =
     invalidate_show_schedule_caches R r (invalidate_async 3 R (cache_schedule_key (sc_id r)) w)"

definition update_schedule_row :: "schedule_id \<Rightarrow> (Schedule \<Rightarrow> Schedule) \<Rightarrow> tables \<Rightarrow> tables" where
  "update_schedule_row s f T = T\<lparr>schedules := update_rows (\<lambda>r. sc_id r = s) f (schedules T)\<rparr>"

definition set_state :: "ScheduleLifecycleState \<Rightarrow> Schedule \<Rightarrow> Schedule" where
  "set_state x r = r\<lparr>sc_lifecycle_state := x\<rparr>"

definition move_state ::
    "schedule_id \<Rightarrow> ScheduleLifecycleState \<Rightarrow> Schedule \<Rightarrow> database \<Rightarrow> (AppError + Schedule) \<times> database" where
  "move_state s x current d =
     (case run_stmts [update_schedule_row s (set_state x)] d of
        (Inl _, d1) \<Rightarrow> (Inl Database, d1)
      | (Inr _, d1) \<Rightarrow> (Inr (set_state x current), d1))"

definition start_tx :: "schedule_id \<Rightarrow> database \<Rightarrow> (AppError + Schedule) \<times> database" where
  "start_tx s d =
     (case lock_live_schedule s d of
        (Inl e, d1) \<Rightarrow> (Inl e, d1)
      | (Inr current, d1) \<Rightarrow>
          if sc_lifecycle_state current = ScheduleLifecycleState.Closed
          then (Inl (BadRequest ''A closed schedule cannot be restarted''), d1)
          else if sc_lifecycle_state current = ScheduleLifecycleState.Open then (Inr current, d1)
          else move_state s ScheduleLifecycleState.Open current d1)"

definition close_tx :: "schedule_id \<Rightarrow> database \<Rightarrow> (AppError + Schedule) \<times> database" where
  "close_tx s d =
     (case lock_live_schedule s d of
        (Inl e, d1) \<Rightarrow> (Inl e, d1)
      | (Inr current, d1) \<Rightarrow>
          if sc_lifecycle_state current = ScheduleLifecycleState.Closed then (Inr current, d1)
          else move_state s ScheduleLifecycleState.Closed current d1)"

text \<open>What follows the transaction in both handlers; other requests may come in between.\<close>

definition announce ::
    "'r redis \<Rightarrow> PubSubEvent \<Rightarrow> Schedule \<Rightarrow> 'r catalog \<Rightarrow> (AppError + unit) \<times> 'r catalog" where
  "announce R event r st =
     (case on_cache (publish_schedule_lifecycle R event) st of
        (Inl e, st1) \<Rightarrow> (Inl e, st1)
      | (Inr _, st1) \<Rightarrow> (Inr (), do_cache (invalidate_schedule_lifecycle_caches R r) st1))"

definition start_schedule :: "'r redis \<Rightarrow> schedule_id \<Rightarrow> 'r catalog \<Rightarrow> (AppError + unit) \<times> 'r catalog" where
  "start_schedule R s st =
     (case on_db (with_connection (atomically (start_tx s))) st of
        (Inl e, st1) \<Rightarrow> (Inl e, st1)
      | (Inr r, st1) \<Rightarrow> announce R (ScheduleOpened s) r st1)"

definition close_schedule :: "'r redis \<Rightarrow> schedule_id \<Rightarrow> 'r catalog \<Rightarrow> (AppError + unit) \<times> 'r catalog" where
  "close_schedule R s st =
     (case on_db (with_connection (atomically (close_tx s))) st of
        (Inl e, st1) \<Rightarrow> (Inl e, st1)
      | (Inr r, st1) \<Rightarrow> announce R (ScheduleClosed s) r st1)"

definition delete_rows :: "timestamp \<Rightarrow> schedule_id \<Rightarrow> database \<Rightarrow> (AppError + Schedule) \<times> database" where
  "delete_rows now s d =
     (case query (find_live s) d of
        (Some (Some r), d1) \<Rightarrow>
          (case execute (update_schedule_row s
                  (\<lambda>r. r\<lparr>sc_deleted_at := Some now, sc_lifecycle_state := ScheduleLifecycleState.Closed\<rparr>)) d1 of
             (Inl _, d2) \<Rightarrow> (Inl Internal, d2)
           | (Inr _, d2) \<Rightarrow> (Inr r, d2))
      | (_, d1) \<Rightarrow> (Inl (NotFound ''Schedule not found''), d1))"

definition delete_schedule :: "'r redis \<Rightarrow> timestamp \<Rightarrow> schedule_id \<Rightarrow> 'r catalog \<Rightarrow> (AppError + unit) \<times> 'r catalog" where
  "delete_schedule R now s st =
     (case on_db (with_connection (delete_rows now s)) st of
        (Inl e, st1) \<Rightarrow> (Inl e, st1)
      | (Inr r, st1) \<Rightarrow> announce R (ScheduleClosed s) r st1)"

section \<open>Editing a schedule\<close>

record ScheduleChangeset =
  cs_date :: "timestamp option"
  cs_slot :: "TimeSlot option"
  cs_start_time :: "timestamp option"
  cs_end_time :: "timestamp option"
  cs_booking_open_at :: "timestamp option"
  cs_venue_name :: "string option"
  cs_venue_address :: "string option"
  cs_venue_city :: "string option"
  cs_venue_state :: "string option"

definition or_keep :: "'a option \<Rightarrow> 'a \<Rightarrow> 'a" where
  "or_keep x old = (case x of Some y \<Rightarrow> y | None \<Rightarrow> old)"

definition apply_changeset :: "ScheduleChangeset \<Rightarrow> Schedule \<Rightarrow> Schedule" where
  "apply_changeset c r =
     r\<lparr>sc_date := or_keep (cs_date c) (sc_date r), sc_slot := or_keep (cs_slot c) (sc_slot r),
       sc_start_time := or_keep (cs_start_time c) (sc_start_time r),
       sc_end_time := or_keep (cs_end_time c) (sc_end_time r),
       sc_booking_open_at := or_keep (cs_booking_open_at c) (sc_booking_open_at r),
       sc_venue_name := (case cs_venue_name c of Some v \<Rightarrow> Some v | None \<Rightarrow> sc_venue_name r),
       sc_venue_address := (case cs_venue_address c of Some v \<Rightarrow> Some v | None \<Rightarrow> sc_venue_address r),
       sc_venue_city := (case cs_venue_city c of Some v \<Rightarrow> Some v | None \<Rightarrow> sc_venue_city r),
       sc_venue_state := (case cs_venue_state c of Some v \<Rightarrow> Some v | None \<Rightarrow> sc_venue_state r)\<rparr>"

text \<open>A field that is given must parse; diesel refuses a changeset without any change.\<close>

definition parse_given :: "(string \<Rightarrow> 'a option) \<Rightarrow> string option \<Rightarrow> string \<Rightarrow> AppError + 'a option" where
  "parse_given p x msg =
     (case x of None \<Rightarrow> Inr None
      | Some t \<Rightarrow> (case p t of Some v \<Rightarrow> Inr (Some v) | None \<Rightarrow> Inl (BadRequest msg)))"

definition changeset_of :: "admin_crates \<Rightarrow> UpdateScheduleRequest \<Rightarrow> AppError + ScheduleChangeset" where
  "changeset_of A body =
     (case parse_given (parse_rfc3339 A) (ur_start_time body) ''Invalid start_time: use ISO-8601'' of
        Inl e \<Rightarrow> Inl e
      | Inr start_time \<Rightarrow>
     (case parse_given (parse_rfc3339 A) (ur_end_time body) ''Invalid end_time: use ISO-8601'' of
        Inl e \<Rightarrow> Inl e
      | Inr end_time \<Rightarrow>
     (case parse_given (parse_rfc3339 A) (ur_booking_open_at body) ''Invalid booking_open_at: use ISO-8601'' of
        Inl e \<Rightarrow> Inl e
      | Inr booking_open_at \<Rightarrow>
     (case parse_given (parse_date A) (ur_date body) ''Invalid date format, expected YYYY-MM-DD'' of
        Inl e \<Rightarrow> Inl e
      | Inr date \<Rightarrow>
          Inr \<lparr>cs_date = date, cs_slot = ur_slot body, cs_start_time = start_time, cs_end_time = end_time,
               cs_booking_open_at = booking_open_at, cs_venue_name = ur_venue_name body,
               cs_venue_address = ur_venue_address body, cs_venue_city = map_option trim (ur_venue_city body),
               cs_venue_state = ur_venue_state body\<rparr>))))"

definition empty_changeset :: ScheduleChangeset where
  "empty_changeset =
     \<lparr>cs_date = None, cs_slot = None, cs_start_time = None, cs_end_time = None, cs_booking_open_at = None,
      cs_venue_name = None, cs_venue_address = None, cs_venue_city = None, cs_venue_state = None\<rparr>"

text \<open>The row read, the update, and the row read again for the answer (the old one when that read fails).\<close>

definition edit_rows ::
    "admin_crates \<Rightarrow> schedule_id \<Rightarrow> UpdateScheduleRequest \<Rightarrow> database \<Rightarrow> (AppError + Schedule) \<times> database" where
  "edit_rows A s body d =
     (case query (find_live s) d of
        (Some (Some existing), d1) \<Rightarrow>
          (case changeset_of A body of
             Inl e \<Rightarrow> (Inl e, d1)
           | Inr c \<Rightarrow>
               if c = empty_changeset then (Inl Internal, d1)
               else (case execute (update_schedule_row s (apply_changeset c)) d1 of
                       (Inl _, d2) \<Rightarrow> (Inl Internal, d2)
                     | (Inr _, d2) \<Rightarrow> (Inr existing, d2)))
      | (_, d1) \<Rightarrow> (Inl (NotFound ''Schedule not found''), d1))"

definition update_schedule ::
    "admin_crates \<Rightarrow> 'r redis \<Rightarrow> schedule_id \<Rightarrow> UpdateScheduleRequest \<Rightarrow> 'r catalog \<Rightarrow> (AppError + Schedule) \<times> 'r catalog" where
  "update_schedule A R s body st =
     (if map_option trim (ur_venue_city body) = Some [] then (Inl (BadRequest ''venue_city must not be empty''), st)
      else
        (case on_db (with_connection (edit_rows A s body)) st of
           (Inl e, st1) \<Rightarrow> (Inl e, st1)
         | (Inr existing, st1) \<Rightarrow>
             (case on_db (query (find_schedule s)) (do_cache (invalidate_async 3 R (cache_schedule_key s)) st1) of
                (res, st2) \<Rightarrow>
                  let updated = (case res of Some (Some r) \<Rightarrow> r | _ \<Rightarrow> existing);
                      st3 = do_cache (invalidate_show_schedule_caches R existing) st2
                  in (Inr updated,
                      if sc_venue_city existing \<noteq> sc_venue_city updated
                      then do_cache (invalidate_show_schedule_caches R updated) st3 else st3))))"

section \<open>Listing\<close>

text \<open>\<open>num_seconds\<close> of a difference of timestamps truncates towards zero.\<close>

definition num_seconds :: "int \<Rightarrow> int" where
  "num_seconds d = (if d < 0 then - ((- d) div 1000000) else d div 1000000)"

definition count_seats :: "(ScheduleSeat \<Rightarrow> bool) \<Rightarrow> schedule_id list \<Rightarrow> tables \<Rightarrow> (schedule_id \<rightharpoonup> int)" where
  "count_seats P ss T =
     (\<lambda>s. let n = count_if (\<lambda>r. ss_schedule_id r = s \<and> P r) (schedule_seats T)
          in if s \<in> set ss \<and> 0 < n then Some (int n) else None)"

text \<open>The shows are found by the hexadecimal form of their ids, so a row finds its show when it stores that form.\<close>

record ScheduleView =
  vw_row :: Schedule
  vw_title :: string
  vw_total :: int
  vw_available :: int
  vw_booked :: int
  vw_seconds_until_open :: int
  vw_booking_open :: bool

definition count_of :: "(schedule_id \<rightharpoonup> int) \<Rightarrow> schedule_id \<Rightarrow> int" where
  "count_of m s = (case m s of Some n \<Rightarrow> n | None \<Rightarrow> 0)"

definition schedule_view ::
    "admin_crates \<Rightarrow> timestamp \<Rightarrow> (schedule_id \<rightharpoonup> int) \<Rightarrow> (schedule_id \<rightharpoonup> int) \<Rightarrow> Schedule \<Rightarrow> ScheduleView" where
  "schedule_view A now totals available r =
     \<lparr>vw_row = r,
      vw_title = (case (if parse_oid A (sc_mongo_show_id r) = Some (sc_mongo_show_id r)
                        then any_show A (sc_mongo_show_id r) else None) of
                    Some show \<Rightarrow> ms_title show | None \<Rightarrow> ''Unknown Show''),
      vw_total = count_of totals (sc_id r), vw_available = count_of available (sc_id r),
      vw_booked = count_of totals (sc_id r) - count_of available (sc_id r),
      vw_seconds_until_open = num_seconds (sc_booking_open_at r - now),
      vw_booking_open = (sc_lifecycle_state r = ScheduleLifecycleState.Open)\<rparr>"

definition live_schedules :: "tables \<Rightarrow> Schedule list" where
  "live_schedules T = sort_key sc_start_time (filter (\<lambda>r. sc_deleted_at r = None) (schedules T))"

definition list_rows ::
    "database \<Rightarrow> (AppError + Schedule list \<times> (schedule_id \<rightharpoonup> int) \<times> (schedule_id \<rightharpoonup> int)) \<times> database" where
  "list_rows d =
     (case query live_schedules d of
        (None, d1) \<Rightarrow> (Inl Internal, d1)
      | (Some [], d1) \<Rightarrow> (Inr ([], Map.empty, Map.empty), d1)
      | (Some rs, d1) \<Rightarrow>
          (case query (count_seats (\<lambda>_. True) (map sc_id rs)) d1 of
             (None, d2) \<Rightarrow> (Inl Internal, d2)
           | (Some totals, d2) \<Rightarrow>
               (case query (count_seats (\<lambda>r. ss_status r = Available) (map sc_id rs)) d2 of
                  (None, d3) \<Rightarrow> (Inl Internal, d3)
                | (Some available, d3) \<Rightarrow> (Inr (rs, totals, available), d3))))"

definition list_schedules :: "admin_crates \<Rightarrow> timestamp \<Rightarrow> 'r catalog \<Rightarrow> (AppError + ScheduleView list) \<times> 'r catalog" where
  "list_schedules A now st =
     (case on_db (with_connection list_rows) st of
        (Inl e, st1) \<Rightarrow> (Inl e, st1)
      | (Inr (rs, totals, available), st1) \<Rightarrow> (Inr (map (schedule_view A now totals available) rs), st1))"

end
