(* ===== verification/Socket_Adapter.thy ===== *)
theory Socket_Adapter
  imports Redis_Keys Wire_Format "HOL-Library.Multiset"
begin

text \<open>
  \<open>RedisSocketAdapter\<close> (\<open>packages/redis-conn/src/adapter.rs\<close>): the four concurrent maps in which a websocket
  server keeps its connections, the local deliveries, and the subscriber that turns the events of the Redis
  channels into deliveries. The specification is one table of connections, each with its user, its channel
  and the shows it follows; the adapter's maps are shown to implement it under every order of operations,
  late subscriptions of closed sockets included. Messages are JSON values; their text form is
  \<open>serde_json\<close>'s.
\<close>

section \<open>The registry\<close>

text \<open>\<open>'c\<close> is the type of the senders of the connections' channels. A \<open>DashSet\<close> is a list without duplicates.\<close>

record 'c RedisSocketAdapter =
  sockets :: "string \<rightharpoonup> 'c"
  user_sockets :: "user_id \<rightharpoonup> string list"
  show_sockets :: "schedule_id \<rightharpoonup> string list"
  socket_shows :: "string \<rightharpoonup> schedule_id list"

definition new_adapter :: "'c RedisSocketAdapter" where
  "new_adapter = \<lparr>sockets = Map.empty, user_sockets = Map.empty, show_sockets = Map.empty, socket_shows = Map.empty\<rparr>"

text \<open>\<open>entry(k).or_default().insert(x)\<close>, and \<open>get(k)\<close> followed by an insertion or a removal.\<close>

definition set_insert :: "'k \<Rightarrow> 'x \<Rightarrow> ('k \<rightharpoonup> 'x list) \<Rightarrow> ('k \<rightharpoonup> 'x list)" where
  "set_insert k x m = m(k \<mapsto> List.insert x (case m k of Some xs \<Rightarrow> xs | None \<Rightarrow> []))"

definition set_update :: "'k \<Rightarrow> ('x list \<Rightarrow> 'x list) \<Rightarrow> ('k \<rightharpoonup> 'x list) \<Rightarrow> ('k \<rightharpoonup> 'x list)" where
  "set_update k f m = (case m k of Some xs \<Rightarrow> m(k \<mapsto> f xs) | None \<Rightarrow> m)"

definition add_local_connection :: "string \<Rightarrow> user_id \<Rightarrow> 'c \<Rightarrow> 'c RedisSocketAdapter \<Rightarrow> 'c RedisSocketAdapter" where
  "add_local_connection x u tx a =
     a\<lparr>sockets := (sockets a)(x \<mapsto> tx), user_sockets := set_insert u x (user_sockets a),
       socket_shows := (socket_shows a)(x \<mapsto> [])\<rparr>"

definition remove_local_connection :: "string \<Rightarrow> user_id \<Rightarrow> 'c RedisSocketAdapter \<Rightarrow> 'c RedisSocketAdapter" where
  "remove_local_connection x u a =
     (let a1 = a\<lparr>sockets := (sockets a)(x := None), user_sockets := set_update u (removeAll x) (user_sockets a)\<rparr>
      in case socket_shows a1 x of
           None \<Rightarrow> a1
         | Some shows \<Rightarrow>
             a1\<lparr>socket_shows := (socket_shows a1)(x := None),
                show_sockets := fold (\<lambda>s. set_update s (removeAll x)) shows (show_sockets a1)\<rparr>)"

definition subscribe_local :: "string \<Rightarrow> schedule_id \<Rightarrow> 'c RedisSocketAdapter \<Rightarrow> 'c RedisSocketAdapter" where
  "subscribe_local x s a =
     a\<lparr>show_sockets := set_insert s x (show_sockets a),
       socket_shows := set_update x (List.insert s) (socket_shows a)\<rparr>"

definition unsubscribe_local :: "string \<Rightarrow> schedule_id \<Rightarrow> 'c RedisSocketAdapter \<Rightarrow> 'c RedisSocketAdapter" where
  "unsubscribe_local x s a =
     a\<lparr>show_sockets := set_update s (removeAll x) (show_sockets a),
       socket_shows := set_update x (removeAll s) (socket_shows a)\<rparr>"

section \<open>Deliveries\<close>

text \<open>The loop shared by the deliveries: a socket without a sender is skipped, a closed channel ignores the message.\<close>

definition send_each :: "json \<Rightarrow> 'c RedisSocketAdapter \<Rightarrow> string list \<Rightarrow> ('c \<times> json) list" where
  "send_each msg a xs = List.map_filter (\<lambda>x. map_option (\<lambda>tx. (tx, msg)) (sockets a x)) xs"

definition broadcast_to_room_local :: "schedule_id \<Rightarrow> json \<Rightarrow> 'c RedisSocketAdapter \<Rightarrow> ('c \<times> json) list" where
  "broadcast_to_room_local s msg a =
     (case show_sockets a s of Some xs \<Rightarrow> send_each msg a xs | None \<Rightarrow> [])"

definition broadcast_to_room_excluding_user ::
    "schedule_id \<Rightarrow> user_id \<Rightarrow> json \<Rightarrow> 'c RedisSocketAdapter \<Rightarrow> ('c \<times> json) list" where
  "broadcast_to_room_excluding_user s u msg a =
     (let excluded = (case user_sockets a u of Some xs \<Rightarrow> xs | None \<Rightarrow> [])
      in case show_sockets a s of
           Some xs \<Rightarrow> send_each msg a (filter (\<lambda>x. x \<notin> set excluded) xs)
         | None \<Rightarrow> [])"

definition send_to_user_local :: "user_id \<Rightarrow> json \<Rightarrow> 'c RedisSocketAdapter \<Rightarrow> ('c \<times> json) list" where
  "send_to_user_local u msg a =
     (case user_sockets a u of Some xs \<Rightarrow> send_each msg a xs | None \<Rightarrow> [])"

section \<open>The subscriber\<close>

definition room_notice :: "schedule_id \<Rightarrow> json \<Rightarrow> json" where
  "room_notice s payload =
     (case event_of_json payload of
        Some (SeatLocked u _ t) \<Rightarrow>
          JObj [(''event'', JStr ''seat_locked''), (''seat_id'', JInt t), (''showtime_id'', JInt s), (''user_id'', JInt u)]
      | Some (SeatUnlocked _ _ t) \<Rightarrow>
          JObj [(''event'', JStr ''seat_unlocked''), (''seat_id'', JInt t), (''showtime_id'', JInt s)]
      | _ \<Rightarrow> payload)"

definition lock_slots_notice :: "schedule_id \<Rightarrow> bool \<Rightarrow> seat_id list \<Rightarrow> seat_id list \<Rightarrow> json" where
  "lock_slots_notice s ok locked failed =
     JObj [(''event'', JStr ''lock_slots_response''), (''showtime_id'', JInt s), (''success'', JBool ok),
       (''locked_seat_ids'', JArr (map JInt locked)), (''failed_seat_ids'', JArr (map JInt failed))]"

text \<open>One message of the subscription; \<open>None\<close> is a payload that is not text.\<close>

definition on_message :: "string \<Rightarrow> json option \<Rightarrow> 'c RedisSocketAdapter \<Rightarrow> ('c \<times> json) list" where
  "on_message channel payload a =
     (case payload of
        None \<Rightarrow> []
      | Some p \<Rightarrow>
          (case strip_prefix ''room:'' channel of
             Some id_str \<Rightarrow>
               (case parse_i32 id_str of
                  Some s \<Rightarrow> broadcast_to_room_local s (room_notice s p) a
                | None \<Rightarrow> [])
           | None \<Rightarrow>
               if channel = global_events_channel then
                 (case event_of_json p of
                    Some (LockSlotsResponse u s ok locked failed) \<Rightarrow>
                      send_to_user_local u (lock_slots_notice s ok locked failed) a
                  | _ \<Rightarrow> [])
               else []))"

text \<open>
  What happens around an adapter, in the order it happens: connections and subscriptions come from the
  socket tasks, \<open>Attempt ok\<close> is one round of the subscriber's loop up to its stream (or to one of its
  failures, followed by the pause), \<open>StreamEnded\<close> the end of the stream. A message published while no stream
  is up is lost: Redis keeps nothing for absent subscribers.
\<close>

datatype 'c adapter_event =
    Attach string user_id 'c
  | Detach string user_id
  | Join string schedule_id
  | Leave string schedule_id
  | Attempt bool
  | StreamEnded
  | Incoming string "json option"

fun adapter_step :: "'c adapter_event \<Rightarrow> 'c RedisSocketAdapter \<times> bool \<Rightarrow> 'c RedisSocketAdapter \<times> bool" where
  "adapter_step (Attach x u tx) (a, up) = (add_local_connection x u tx a, up)"
| "adapter_step (Detach x u) (a, up) = (remove_local_connection x u a, up)"
| "adapter_step (Join x s) (a, up) = (subscribe_local x s a, up)"
| "adapter_step (Leave x s) (a, up) = (unsubscribe_local x s a, up)"
| "adapter_step (Attempt ok) (a, up) = (a, up \<or> ok)"
| "adapter_step StreamEnded (a, up) = (a, False)"
| "adapter_step (Incoming _ _) (a, up) = (a, up)"

fun run_subscriber :: "'c adapter_event list \<Rightarrow> 'c RedisSocketAdapter \<times> bool \<Rightarrow> ('c \<times> json) list list" where
  "run_subscriber [] st = []"
| "run_subscriber (Incoming channel payload # es) (a, up) =
     (if up then on_message channel payload a else []) # run_subscriber es (a, up)"
| "run_subscriber (e # es) st = run_subscriber es (adapter_step e st)"

section \<open>The specification: one table of connections\<close>

text \<open>A connection has its user, its channel and the shows it follows; \<open>seen\<close> are the socket ids handed out so far.\<close>

record 'c registry =
  conns :: "string \<rightharpoonup> user_id \<times> 'c \<times> schedule_id set"
  seen :: "string set"

definition conn_change :: "string \<Rightarrow> (schedule_id set \<Rightarrow> schedule_id set) \<Rightarrow> 'c registry \<Rightarrow> 'c registry" where
  "conn_change x f g =
     (case conns g x of Some (u, c, S) \<Rightarrow> g\<lparr>conns := (conns g)(x \<mapsto> (u, c, f S))\<rparr> | None \<Rightarrow> g)"

fun spec_step :: "'c adapter_event \<Rightarrow> 'c registry \<times> bool \<Rightarrow> 'c registry \<times> bool" where
  "spec_step (Attach x u c) (g, up) = (g\<lparr>conns := (conns g)(x \<mapsto> (u, c, {})), seen := insert x (seen g)\<rparr>, up)"
| "spec_step (Detach x u) (g, up) = (g\<lparr>conns := (conns g)(x := None)\<rparr>, up)"
| "spec_step (Join x s) (g, up) = (conn_change x (insert s) g, up)"
| "spec_step (Leave x s) (g, up) = (conn_change x (\<lambda>S. S - {s}) g, up)"
| "spec_step (Attempt ok) (g, up) = (g, up \<or> ok)"
| "spec_step StreamEnded (g, up) = (g, False)"
| "spec_step (Incoming _ _) (g, up) = (g, up)"

text \<open>Who gets a message, by user and followed shows, and what they get.\<close>

definition audience :: "string \<Rightarrow> json option \<Rightarrow> ((user_id \<Rightarrow> schedule_id set \<Rightarrow> bool) \<times> json) option" where
  "audience channel payload =
     (case payload of
        None \<Rightarrow> None
      | Some p \<Rightarrow>
          (case strip_prefix ''room:'' channel of
             Some id_str \<Rightarrow> map_option (\<lambda>s. (\<lambda>_ S. s \<in> S, room_notice s p)) (parse_i32 id_str)
           | None \<Rightarrow>
               if channel = global_events_channel then
                 (case event_of_json p of
                    Some (LockSlotsResponse u s ok locked failed) \<Rightarrow>
                      Some (\<lambda>v _. v = u, lock_slots_notice s ok locked failed)
                  | _ \<Rightarrow> None)
               else None))"

definition conn_member :: "(user_id \<Rightarrow> schedule_id set \<Rightarrow> bool) \<Rightarrow> 'c registry \<Rightarrow> string \<Rightarrow> bool" where
  "conn_member P g x \<longleftrightarrow> (case conns g x of Some (u, _, S) \<Rightarrow> P u S | None \<Rightarrow> False)"

definition conn_sender :: "'c registry \<Rightarrow> string \<Rightarrow> 'c" where
  "conn_sender g x = (case conns g x of Some (_, c, _) \<Rightarrow> c | None \<Rightarrow> undefined)"

text \<open>Each member of the audience gets the message once.\<close>

definition spec_deliver :: "(user_id \<Rightarrow> schedule_id set \<Rightarrow> bool) \<times> json \<Rightarrow> 'c registry \<Rightarrow> ('c \<times> json) multiset" where
  "spec_deliver am g =
     (case am of (P, msg) \<Rightarrow> image_mset (\<lambda>x. (conn_sender g x, msg)) (mset_set {x. conn_member P g x}))"

fun spec_run :: "'c adapter_event list \<Rightarrow> 'c registry \<times> bool \<Rightarrow> ('c \<times> json) multiset list" where
  "spec_run [] st = []"
| "spec_run (Incoming channel payload # es) (g, up) =
     (case audience channel payload of
        Some am \<Rightarrow> if up then spec_deliver am g else {#}
      | None \<Rightarrow> {#}) # spec_run es (g, up)"
| "spec_run (e # es) st = spec_run es (spec_step e st)"

text \<open>
  The orders the server can produce: a socket id is a fresh UUID, a socket is closed by its own task, and a
  subscription may come late, when the task that closes the socket has overtaken the one reading it.
\<close>

fun possible :: "'c adapter_event \<Rightarrow> 'c registry \<Rightarrow> bool" where
  "possible (Attach x u c) g = (x \<notin> seen g)"
| "possible (Detach x u) g = (case conns g x of Some (v, _) \<Rightarrow> v = u | None \<Rightarrow> False)"
| "possible (Join x s) g = (x \<in> seen g)"
| "possible (Leave x s) g = (x \<in> seen g)"
| "possible _ g = True"

fun possible_run :: "'c adapter_event list \<Rightarrow> 'c registry \<times> bool \<Rightarrow> bool" where
  "possible_run [] st = True"
| "possible_run (e # es) st = (possible e (fst st) \<and> possible_run es (spec_step e st))"

definition new_registry :: "'c registry" where
  "new_registry = \<lparr>conns = Map.empty, seen = {}\<rparr>"

section \<open>The maps implement the table\<close>

definition members :: "('k \<rightharpoonup> 'x list) \<Rightarrow> 'k \<Rightarrow> 'x list" where
  "members m k = (case m k of Some xs \<Rightarrow> xs | None \<Rightarrow> [])"

lemma members_simps [simp]:
  "members Map.empty k = []"
  "members (set_insert k x m) k' = (if k' = k then List.insert x (members m k) else members m k')"
  "members (m(k := None)) k' = (if k' = k then [] else members m k')"
  "members (m(k \<mapsto> xs)) k' = (if k' = k then xs else members m k')"
  by (simp_all add: members_def set_insert_def split: option.split)

lemma members_set_update [simp]:
  "f [] = [] \<Longrightarrow> members (set_update k f m) k' = (if k' = k then f (members m k) else members m k')"
  by (simp add: members_def set_update_def split: option.split)

lemma dom_set_update [simp]: "dom (set_update k f m) = dom m"
  by (auto simp: set_update_def dom_def split: option.splits)

lemma members_fold_remove:
  "members (fold (\<lambda>s. set_update s (removeAll x)) ss m) s' =
     (if s' \<in> set ss then removeAll x (members m s') else members m s')"
  by (induction ss arbitrary: m) auto

definition adapter_sim :: "'c RedisSocketAdapter \<Rightarrow> 'c registry \<Rightarrow> bool" where
  "adapter_sim a g \<longleftrightarrow>
     (\<forall>x. sockets a x = map_option (\<lambda>(u, c, S). c) (conns g x)) \<and>
     (\<forall>x u. x \<in> set (members (user_sockets a) u) \<longleftrightarrow> (\<exists>c S. conns g x = Some (u, c, S))) \<and>
     (\<forall>x. conns g x = None \<longrightarrow> socket_shows a x = None) \<and>
     (\<forall>x u c S. conns g x = Some (u, c, S) \<longrightarrow>
        socket_shows a x \<noteq> None \<and> set (members (socket_shows a) x) = S \<and>
        (\<forall>s. x \<in> set (members (show_sockets a) s) \<longleftrightarrow> s \<in> S)) \<and>
     (\<forall>x s. x \<in> set (members (show_sockets a) s) \<longrightarrow> x \<in> seen g) \<and>
     dom (conns g) \<subseteq> seen g \<and>
     (\<forall>u. distinct (members (user_sockets a) u)) \<and> (\<forall>s. distinct (members (show_sockets a) s))"

lemma adapter_simD:
  assumes "adapter_sim a g"
  shows "sockets a x = map_option (\<lambda>(u, c, S). c) (conns g x)"
    and "x \<in> set (members (user_sockets a) u) \<longleftrightarrow> (\<exists>c S. conns g x = Some (u, c, S))"
    and "conns g x = Some (u, c, S) \<Longrightarrow> x \<in> set (members (show_sockets a) s) \<longleftrightarrow> s \<in> S"
    and "distinct (members (user_sockets a) u)" and "distinct (members (show_sockets a) s)"
  using assms by (auto simp: adapter_sim_def)

lemma sim_shows:
  assumes "adapter_sim a g" "conns g x = Some (u, c, S)"
  shows "\<exists>ss. socket_shows a x = Some ss \<and> set ss = S"
proof -
  from assms have "socket_shows a x \<noteq> None" "set (members (socket_shows a) x) = S"
    unfolding adapter_sim_def by blast+
  then show ?thesis by (cases "socket_shows a x") (auto simp: members_def)
qed

lemma sim_new: "adapter_sim new_adapter new_registry"
  by (simp add: adapter_sim_def new_adapter_def new_registry_def)

lemma sim_Attach:
  assumes "adapter_sim a g" "x \<notin> seen g"
  shows "adapter_sim (add_local_connection x u tx a)
           (g\<lparr>conns := (conns g)(x \<mapsto> (u, tx, {})), seen := insert x (seen g)\<rparr>)"
  using assms unfolding adapter_sim_def add_local_connection_def
  by (intro conjI allI impI) (auto split: if_splits)

lemma sim_Detach:
  assumes "adapter_sim a g" "conns g x = Some (u, c, S)"
  shows "adapter_sim (remove_local_connection x u a) (g\<lparr>conns := (conns g)(x := None)\<rparr>)"
proof -
  from assms obtain ss where ss: "socket_shows a x = Some ss" "set ss = S"
    by (meson sim_shows)
  then have eq: "remove_local_connection x u a =
      a\<lparr>sockets := (sockets a)(x := None), user_sockets := set_update u (removeAll x) (user_sockets a),
        socket_shows := (socket_shows a)(x := None),
        show_sockets := fold (\<lambda>s. set_update s (removeAll x)) ss (show_sockets a)\<rparr>"
    by (simp add: remove_local_connection_def)
  show ?thesis
    using assms ss(2) unfolding adapter_sim_def eq
    by (intro conjI allI impI) (auto simp: members_fold_remove distinct_removeAll split: if_splits)
qed

text \<open>Changing what one socket follows, on both sides of its relation to the shows.\<close>

lemma sim_change:
  assumes sim: "adapter_sim a g" and x: "x \<in> seen g"
    and F: "\<And>ss. set (F ss) = f (set ss)"
    and other: "\<And>y s. y \<noteq> x \<Longrightarrow> y \<in> set (members m s) \<longleftrightarrow> y \<in> set (members (show_sockets a) s)"
    and own: "\<And>S s. (\<forall>t. x \<in> set (members (show_sockets a) t) \<longleftrightarrow> t \<in> S) \<Longrightarrow>
                x \<in> set (members m s) \<longleftrightarrow> s \<in> f S"
    and dist: "\<And>s. distinct (members m s)"
  shows "adapter_sim (a\<lparr>show_sockets := m, socket_shows := set_update x F (socket_shows a)\<rparr>) (conn_change x f g)"
proof -
  let ?a = "a\<lparr>show_sockets := m, socket_shows := set_update x F (socket_shows a)\<rparr>"
  have sel: "sockets ?a = sockets a" "user_sockets ?a = user_sockets a" "show_sockets ?a = m"
    "socket_shows ?a = set_update x F (socket_shows a)" by simp_all
  have seen: "seen (conn_change x f g) = seen g" "dom (conns (conn_change x f g)) = dom (conns g)"
    by (auto simp: conn_change_def split: option.splits)
  have conns: "conns (conn_change x f g) y =
      (if y = x then map_option (\<lambda>(u, c, S). (u, c, f S)) (conns g x) else conns g y)" for y
    by (simp add: conn_change_def split: option.split)
  have upd: "y \<noteq> x \<Longrightarrow> set_update x F (socket_shows a) y = socket_shows a y"
    "socket_shows a x = None \<Longrightarrow> set_update x F (socket_shows a) x = None"
    "socket_shows a x = Some ss \<Longrightarrow> set_update x F (socket_shows a) x = Some (F ss)" for y ss
    by (simp_all add: set_update_def split: option.split)
  have mem: "members n y = (case n y of Some xs \<Rightarrow> xs | None \<Rightarrow> [])" for n :: "string \<Rightarrow> schedule_id list option" and y
    by (simp add: members_def)
  show ?thesis
    unfolding adapter_sim_def seen conns sel
  proof (intro conjI allI impI)
    fix y u c S
    assume eq: "(if y = x then map_option (\<lambda>(u, c, S). (u, c, f S)) (conns g x) else conns g y) = Some (u, c, S)"
    then obtain S' where S': "conns g y = Some (u, c, S')" "S = (if y = x then f S' else S')"
      by (cases "conns g x") (auto split: if_splits)
    from sim_shows [OF sim S'(1)] obtain ss where ss: "socket_shows a y = Some ss" "set ss = S'" by blast
    show "set_update x F (socket_shows a) y \<noteq> None" using ss upd by (cases "y = x") auto
    show "set (members (set_update x F (socket_shows a)) y) = S"
      using ss upd S'(2) F by (cases "y = x") (auto simp: mem)
    show "y \<in> set (members m s) \<longleftrightarrow> s \<in> S" for s
      using adapter_simD(3) [OF sim S'(1)] own [of S' s] other [of y s] S'(2) by (cases "y = x") simp_all
  next
    fix y assume "(if y = x then map_option (\<lambda>(u, c, S). (u, c, f S)) (conns g x) else conns g y) = None"
    then have "conns g y = None" by (auto split: if_splits)
    with sim have "socket_shows a y = None" by (simp add: adapter_sim_def)
    then show "set_update x F (socket_shows a) y = None" using upd by (cases "y = x") auto
  next
    fix y s assume "y \<in> set (members m s)"
    then show "y \<in> seen g" using x other sim by (cases "y = x") (auto simp: adapter_sim_def)
  next
    show "dom (conns g) \<subseteq> seen g" using sim by (simp add: adapter_sim_def)
    show "distinct (members m s)" for s by (rule dist)
    show "distinct (members (user_sockets a) u)" for u by (rule adapter_simD(4) [OF sim])
    show "sockets a y = map_option (\<lambda>(u, c, S). c)
        (if y = x then map_option (\<lambda>(u, c, S). (u, c, f S)) (conns g x) else conns g y)" for y
      using adapter_simD(1) [OF sim] by (cases "conns g x") auto
    show "y \<in> set (members (user_sockets a) u) \<longleftrightarrow>
        (\<exists>c S. (if y = x then map_option (\<lambda>(u, c, S). (u, c, f S)) (conns g x) else conns g y) = Some (u, c, S))" for y u
      using adapter_simD(2) [OF sim, of y u] by auto
  qed
qed

lemma sim_Join:
  assumes "adapter_sim a g" "x \<in> seen g"
  shows "adapter_sim (subscribe_local x s a) (conn_change x (insert s) g)"
  unfolding subscribe_local_def
  by (rule sim_change [OF assms]) (use adapter_simD(5) [OF assms(1)] in auto)

lemma sim_Leave:
  assumes "adapter_sim a g" "x \<in> seen g"
  shows "adapter_sim (unsubscribe_local x s a) (conn_change x (\<lambda>S. S - {s}) g)"
  unfolding unsubscribe_local_def
  by (rule sim_change [OF assms]) (use adapter_simD(5) [OF assms(1)] in \<open>auto simp: distinct_removeAll\<close>)

section \<open>Deliveries are the specification's\<close>

lemma map_filter_Some: "(\<And>x. x \<in> set xs \<Longrightarrow> f x = Some (g x)) \<Longrightarrow> List.map_filter f xs = map g xs"
  by (induction xs) (auto simp: List.map_filter_def)

lemma mset_send_each:
  assumes sim: "adapter_sim a g" and xs: "distinct xs"
    and P: "\<And>x. conns g x \<noteq> None \<Longrightarrow> x \<in> set xs \<longleftrightarrow> conn_member P g x"
  shows "mset (send_each msg a xs) = spec_deliver (P, msg) g"
proof -
  let ?live = "\<lambda>x. conns g x \<noteq> None"
  have "send_each msg a xs = List.map_filter (\<lambda>x. map_option (\<lambda>tx. (tx, msg)) (sockets a x)) (filter ?live xs)"
    unfolding send_each_def
    by (induction xs) (auto simp: List.map_filter_def adapter_simD(1) [OF sim])
  also have "\<dots> = map (\<lambda>x. (conn_sender g x, msg)) (filter ?live xs)"
    by (rule map_filter_Some) (auto simp: adapter_simD(1) [OF sim] conn_sender_def)
  finally have eq: "send_each msg a xs = map (\<lambda>x. (conn_sender g x, msg)) (filter ?live xs)" .
  have "set (filter ?live xs) = {x. conn_member P g x}"
    using P by (auto simp: conn_member_def split: option.splits)
  moreover have "mset (filter ?live xs) = mset_set (set (filter ?live xs))"
    by (rule mset_set_set [symmetric]) (simp add: xs)
  ultimately show ?thesis by (simp add: eq spec_deliver_def)
qed

lemma broadcast_spec:
  assumes "adapter_sim a g"
  shows "mset (broadcast_to_room_local s msg a) = spec_deliver (\<lambda>_ S. s \<in> S, msg) g"
proof -
  have "broadcast_to_room_local s msg a = send_each msg a (members (show_sockets a) s)"
    by (simp add: broadcast_to_room_local_def members_def send_each_def List.map_filter_def split: option.split)
  also have "mset \<dots> = spec_deliver (\<lambda>_ S. s \<in> S, msg) g"
    using adapter_simD(3) [OF assms]
    by (intro mset_send_each [OF assms adapter_simD(5) [OF assms]]) (auto simp: conn_member_def)
  finally show ?thesis .
qed

lemma send_to_user_spec:
  assumes "adapter_sim a g"
  shows "mset (send_to_user_local u msg a) = spec_deliver (\<lambda>v _. v = u, msg) g"
proof -
  have "send_to_user_local u msg a = send_each msg a (members (user_sockets a) u)"
    by (simp add: send_to_user_local_def members_def send_each_def List.map_filter_def split: option.split)
  also have "mset \<dots> = spec_deliver (\<lambda>v _. v = u, msg) g"
    using adapter_simD(2) [OF assms]
    by (intro mset_send_each [OF assms adapter_simD(4) [OF assms]]) (auto simp: conn_member_def)
  finally show ?thesis .
qed

lemma broadcast_excluding_spec:
  assumes "adapter_sim a g"
  shows "mset (broadcast_to_room_excluding_user s u msg a) = spec_deliver (\<lambda>v S. s \<in> S \<and> v \<noteq> u, msg) g"
proof -
  have "broadcast_to_room_excluding_user s u msg a =
      send_each msg a (filter (\<lambda>x. x \<notin> set (members (user_sockets a) u)) (members (show_sockets a) s))"
    by (simp add: broadcast_to_room_excluding_user_def members_def send_each_def List.map_filter_def Let_def
        split: option.split)
  also have "mset \<dots> = spec_deliver (\<lambda>v S. s \<in> S \<and> v \<noteq> u, msg) g"
    using adapter_simD(2,3) [OF assms] adapter_simD(5) [OF assms, of s]
    by (intro mset_send_each [OF assms]) (auto simp: conn_member_def)
  finally show ?thesis .
qed

lemma on_message_spec:
  assumes "adapter_sim a g"
  shows "mset (on_message channel payload a) =
    (case audience channel payload of Some am \<Rightarrow> spec_deliver am g | None \<Rightarrow> {#})"
  by (auto simp: on_message_def audience_def broadcast_spec [OF assms] send_to_user_spec [OF assms]
      split: option.split PubSubEvent.split)

lemma sim_step:
  assumes "adapter_sim a g" "possible e g"
  shows "adapter_sim (fst (adapter_step e (a, up))) (fst (spec_step e (g, up)))"
    and "snd (adapter_step e (a, up)) = snd (spec_step e (g, up))"
proof -
  show "adapter_sim (fst (adapter_step e (a, up))) (fst (spec_step e (g, up)))"
    using assms
    by (cases e) (auto intro: sim_Attach sim_Detach sim_Join sim_Leave split: option.splits)
  show "snd (adapter_step e (a, up)) = snd (spec_step e (g, up))"
    by (cases e) simp_all
qed

lemma run_refines:
  "adapter_sim a g \<Longrightarrow> possible_run es (g, up) \<Longrightarrow> map mset (run_subscriber es (a, up)) = spec_run es (g, up)"
proof (induction es arbitrary: a g up)
  case Nil
  then show ?case by simp
next
  case (Cons e es)
  obtain a' up' where a': "adapter_step e (a, up) = (a', up')" by (cases "adapter_step e (a, up)")
  obtain g' up'' where g': "spec_step e (g, up) = (g', up'')" by (cases "spec_step e (g, up)")
  from sim_step [of a g e up] Cons.prems a' g' have "adapter_sim a' g'" "up'' = up'" by auto
  with Cons.IH [of a' g' up'] Cons.prems g' have IH: "map mset (run_subscriber es (a', up')) = spec_run es (g', up')"
    by simp
  show ?case
    using IH a' g' \<open>up'' = up'\<close> Cons.prems(1)
    by (cases e) (auto simp: on_message_spec split: option.split)
qed

text \<open>
  C8 (socket registry). Whatever connections, subscriptions, disconnections and subscriber failures precede it,
  and in whatever order, a message of the Redis channels is delivered exactly once to every connection the
  specification names (those following the show for a room event, those of the addressed user for a lock
  response) and to nobody else: in particular a closed socket gets nothing, even when its subscription is
  recorded after it was closed.
\<close>

theorem adapter_refines_registry:
  fixes es :: "'c adapter_event list"
  assumes "possible_run es (new_registry, False)"
  shows "map mset (run_subscriber es (new_adapter, False)) = spec_run es (new_registry, False)"
  by (rule run_refines [OF sim_new assms])

definition demo_events :: "nat adapter_event list" where
  "demo_events =
     [Attach ''a'' 7 0, Attach ''b'' 8 1, Join ''a'' 3, Attempt True, Incoming ''room:3'' (Some JNull),
      Detach ''a'' 7, Join ''a'' 3, Join ''b'' 3, Incoming ''room:3'' (Some JNull), StreamEnded,
      Incoming ''room:3'' (Some JNull)]"

lemma parse_i32_3: "parse_i32 ''3'' = Some 3"
proof -
  have "''3'' = dec 3" by code_simp
  then show ?thesis by (simp add: parse_i32_dec in_i32_def)
qed

theorem adapter_refines_registry_witness:
  "possible_run demo_events (new_registry, False) \<and>
   run_subscriber demo_events (new_adapter, False) = [[(0, JNull)], [(1, JNull)], []] \<and>
   spec_run demo_events (new_registry, False) = [{#(0, JNull)#}, {#(1, JNull)#}, {#}]"
proof -
  have p: "possible_run demo_events (new_registry, False)"
    by (simp add: demo_events_def new_registry_def conn_change_def)
  have notice: "room_notice 3 JNull = JNull" by (simp add: room_notice_def event_of_json_def)
  have r: "run_subscriber demo_events (new_adapter, False) = [[(0, JNull)], [(1, JNull)], []]"
    by (simp add: demo_events_def new_adapter_def on_message_def strip_prefix_def parse_i32_3 notice
        add_local_connection_def remove_local_connection_def subscribe_local_def set_insert_def set_update_def
        broadcast_to_room_local_def send_each_def List.map_filter_def)
  from adapter_refines_registry [OF p] p r show ?thesis by simp
qed

end
