(* ===== verification/Ws_Server.thy ===== *)
theory Ws_Server
  imports Socket_Adapter Lock_Backend Booking_DB Gateway_Api
begin

text \<open>
  The websocket server (\<open>apps/ws-server/src\<close>): \<open>locking.rs\<close> (the seat bitmap as a snapshot, the locks of a
  user, payment confirmation), \<open>hooks.rs\<close> (the handlers behind the socket, with the cached seat metadata of
  each schedule), \<open>handlers.rs\<close> (the requests of a socket and its life) and the authentication of \<open>main.rs\<close>.
  The gateway behind \<open>grpc_client.rs\<close> is a parameter, instantiated with the gateway's own gRPC handlers where
  the two are composed. The server's own connection to Redis is the first server of the pool list.
\<close>

section \<open>Seat states and snapshots\<close>

datatype SeatState = SeatState_Available | SeatState_Locked | SeatState_Booked

definition from_bitmap :: "8 word \<Rightarrow> SeatState" where
  "from_bitmap v = (if v = 1 then SeatState_Locked else if v = 2 then SeatState_Booked else SeatState_Available)"

fun status :: "SeatState \<Rightarrow> string" where
  "status SeatState_Available = ''AVAILABLE''"
| "status SeatState_Locked = ''LOCKED''"
| "status SeatState_Booked = ''BOOKED''"

fun state_bits :: "SeatState \<Rightarrow> 8 word" where
  "state_bits SeatState_Available = 0"
| "state_bits SeatState_Locked = 1"
| "state_bits SeatState_Booked = 2"

definition seat_bit_offset :: "seat_id \<Rightarrow> nat option" where
  "seat_bit_offset t = (if t < 0 \<or> 2 ^ 64 \<le> 2 * t then None else Some (nat t * 2))"

definition set_seat_state ::
    "'r redis \<Rightarrow> schedule_id \<Rightarrow> seat_id \<Rightarrow> SeatState \<Rightarrow> ('r, 'p) world \<Rightarrow> ('r, 'p) world" where
  "set_seat_state R s t state w =
     (case seat_bit_offset t of
        None \<Rightarrow> w
      | Some offset \<Rightarrow> snd (send 0 (writing (BITSET R (schedule_seat_bitmap s) offset (state_bits state))) w))"

text \<open>One byte of the bitmap, most significant field first.\<close>

definition byte_snapshots :: "nat \<Rightarrow> 8 word \<Rightarrow> (seat_id \<times> SeatState) list" where
  "byte_snapshots byte_index byte =
     List.map_filter
       (\<lambda>slot. let state = from_bitmap (bit_field slot byte)
               in if state \<noteq> SeatState_Available then Some (as_i32 (int (byte_index * 4 + slot)), state) else None)
       [0..<4]"

definition bitmap_snapshots :: "8 word list \<Rightarrow> (seat_id \<times> SeatState) list" where
  "bitmap_snapshots bitmap = concat (map (\<lambda>(i, b). byte_snapshots i b) (List.enumerate 0 bitmap))"

record RoomSeatSnapshot =
  rs_seat :: seat_id
  rs_state :: string
  rs_user :: "user_id option"

text \<open>A \<open>SeatStatusPayload\<close> as the JSON it is sent as; its state is always \<open>locked\<close>.\<close>

definition seat_status_json :: "schedule_id \<Rightarrow> seat_id \<Rightarrow> json" where
  "seat_status_json s t = JObj [(''seatId'', JInt t), (''showId'', JInt s), (''state'', JStr ''locked'')]"

definition room_seat_json :: "RoomSeatSnapshot \<Rightarrow> json" where
  "room_seat_json r =
     JObj [(''seat_id'', JInt (rs_seat r)), (''status'', JStr (rs_state r)),
       (''user_id'', case rs_user r of Some u \<Rightarrow> JInt u | None \<Rightarrow> JNull)]"

section \<open>Locks of a user\<close>

text \<open>A member is a JSON object with a seat id, or the plain seat id; \<open>of_text\<close> is \<open>serde_json::from_str\<close>.\<close>

definition parse_member_seat_id :: "(string \<Rightarrow> json option) \<Rightarrow> string \<Rightarrow> seat_id option" where
  "parse_member_seat_id of_text member =
     (case Option.bind (of_text member) (\<lambda>v. as_i64 (jget v ''seat_id'')) of
        Some n \<Rightarrow> Some (as_i32 n)
      | None \<Rightarrow> parse_i32 member)"

definition user_locks ::
    "'r redis \<Rightarrow> (string \<Rightarrow> json option) \<Rightarrow> schedule_id \<Rightarrow> user_id \<Rightarrow> ('r, 'p) world \<Rightarrow> seat_id list \<times> ('r, 'p) world" where
  "user_locks R of_text s u w =
     (case send 0 (reading (ZRANGE R (user_zset_key s u) None None)) w of
        (ms, w1) \<Rightarrow> (List.map_filter (parse_member_seat_id of_text) (case ms of Some xs \<Rightarrow> xs | None \<Rightarrow> []), w1))"

definition sync_locks_from_zset ::
    "'r redis \<Rightarrow> (string \<Rightarrow> json option) \<Rightarrow> int \<Rightarrow> user_id \<Rightarrow> schedule_id \<Rightarrow> ('r, 'p) world \<Rightarrow>
     json list \<times> ('r, 'p) world" where
  "sync_locks_from_zset R of_text now u s w =
     (case pool_get w of (ok, w1) \<Rightarrow>
        if \<not> ok then ([], w1)
        else (case user_locks R of_text s u (snd (send 0 (writing (ZREMRANGE R (user_zset_key s u) now)) w1)) of
                (ts, w2) \<Rightarrow> (map (seat_status_json s) ts, w2)))"

text \<open>The loop over the snapshot: the owner of a locked seat is read from its lock key.\<close>

fun snapshot_owners ::
    "'r redis \<Rightarrow> schedule_id \<Rightarrow> (seat_id \<times> SeatState) list \<Rightarrow> ('r, 'p) world \<Rightarrow>
     RoomSeatSnapshot list \<times> ('r, 'p) world" where
  "snapshot_owners R s [] w = ([], w)"
| "snapshot_owners R s ((t, state) # ts) w =
     (case (if state = SeatState_Locked
            then (case send 0 (reading (GET R (seat_lock_key s t))) w of (v, w1) \<Rightarrow> (parse_owner v, w1))
            else (None, w)) of
        (owner, w1) \<Rightarrow>
          (case snapshot_owners R s ts w1 of
             (rs, w2) \<Rightarrow> (\<lparr>rs_seat = t, rs_state = status state, rs_user = owner\<rparr> # rs, w2)))"

definition sync_room_state_snapshot ::
    "'r redis \<Rightarrow> (string \<Rightarrow> json option) \<Rightarrow> int \<Rightarrow> user_id \<Rightarrow> schedule_id \<Rightarrow> ('r, 'p) world \<Rightarrow>
     (RoomSeatSnapshot list \<times> json list) \<times> ('r, 'p) world" where
  "sync_room_state_snapshot R of_text now u s w =
     (case pool_get w of (ok, w1) \<Rightarrow>
        if \<not> ok then (([], []), w1)
        else
          (case send 0 (reading (GETBITS R (schedule_seat_bitmap s)))
                  (snd (send 0 (writing (ZREMRANGE R (user_zset_key s u) now)) w1)) of
             (bitmap, w2) \<Rightarrow>
               (case user_locks R of_text s u w2 of
                  (ts, w3) \<Rightarrow>
                    (case snapshot_owners R s (bitmap_snapshots (case bitmap of Some b \<Rightarrow> b | None \<Rightarrow> [])) w3 of
                       (seats, w4) \<Rightarrow> ((seats, map (seat_status_json s) ts), w4)))))"

fun confirm_loop ::
    "'r redis \<Rightarrow> ('r, json) world SeatLock \<Rightarrow> user_id \<Rightarrow> schedule_id \<Rightarrow> seat_id list \<Rightarrow> bool \<Rightarrow> ('r, json) world \<Rightarrow>
     bool \<times> ('r, json) world" where
  "confirm_loop R L u s [] good w = (good, w)"
| "confirm_loop R L u s (t # ts) good w =
     (case sl_book L s t u w of
        (True, w1) \<Rightarrow> confirm_loop R L u s ts good (set_seat_state R s t SeatState_Booked w1)
      | (False, w1) \<Rightarrow> confirm_loop R L u s ts False w1)"

definition confirm_payment ::
    "'r redis \<Rightarrow> ('r, json) world SeatLock \<Rightarrow> user_id \<Rightarrow> schedule_id \<Rightarrow> seat_id list \<Rightarrow> ('r, json) world \<Rightarrow>
     bool \<times> ('r, json) world" where
  "confirm_payment R L u s ts w =
     (case pool_get w of (ok, w1) \<Rightarrow> if ok then confirm_loop R L u s ts True w1 else (False, w1))"

section \<open>The server\<close>

record ScheduleSeatMetadata =
  md_total :: int
  md_indices :: "seat_id \<rightharpoonup> int"

text \<open>
  What a handler works on: the adapter, Redis, the database, the metadata of the schedules whose cell is
  initialised, the running sockets with the user and channel their tasks hold, and the messages sent.
\<close>

record ('r, 'c) WsHooks =
  ws_adapter :: "'c RedisSocketAdapter"
  ws_world :: "('r, json) world"
  ws_db :: database
  schedule_metadata :: "schedule_id \<rightharpoonup> ScheduleSeatMetadata"
  ws_tasks :: "string \<rightharpoonup> user_id \<times> 'c"
  ws_sent :: "('c \<times> json) list"

definition ws_send :: "('c \<times> json) list \<Rightarrow> ('r, 'c) WsHooks \<Rightarrow> ('r, 'c) WsHooks" where
  "ws_send ms h = h\<lparr>ws_sent := ws_sent h @ ms\<rparr>"

definition reply_to :: "user_id \<Rightarrow> json \<Rightarrow> ('r, 'c) WsHooks \<Rightarrow> ('r, 'c) WsHooks" where
  "reply_to u msg h = ws_send (send_to_user_local u msg (ws_adapter h)) h"

text \<open>The gateway's two procedures over gRPC; \<open>Inl\<close> is a status or a transport error.\<close>

record 'g GrpcLockClient =
  gr_lock_slot :: "user_id \<Rightarrow> schedule_id \<Rightarrow> SeatRequest \<Rightarrow> 'g \<Rightarrow> (string + LockResponse) \<times> 'g"
  gr_unlock_slot :: "user_id \<Rightarrow> schedule_id \<Rightarrow> SeatRequest \<Rightarrow> 'g \<Rightarrow> (string + bool \<times> seat_id list) \<times> 'g"

definition slot_request :: "seat_id list \<Rightarrow> int list \<Rightarrow> int \<Rightarrow> SeatRequest" where
  "slot_request ts idx n = \<lparr>seat_ids = ts, seat_indices_req = idx, total_seat_count_req = n\<rparr>"

section \<open>Seat metadata\<close>

text \<open>The initialisation of a schedule's cell, from the database.\<close>

definition seats_of :: "schedule_id \<Rightarrow> tables \<Rightarrow> (seat_id \<times> int) list" where
  "seats_of s T = map (\<lambda>r. (ss_id r, ss_seat_index r)) (filter (\<lambda>r. ss_schedule_id r = s) (schedule_seats T))"

definition load_metadata :: "schedule_id \<Rightarrow> database \<Rightarrow> (string + ScheduleSeatMetadata) \<times> database" where
  "load_metadata s d =
     (case db_get d of (ok, d1) \<Rightarrow>
        if \<not> ok then (Inl ''database pool unavailable'', d1)
        else
          (case query (\<lambda>T. find (\<lambda>r. sc_id r = s \<and> sc_deleted_at r = None) (schedules T)) d1 of
             (Some (Some sched), d2) \<Rightarrow>
               if sc_lifecycle_state sched \<noteq> ScheduleLifecycleState.Open then (Inl ''schedule is not open for booking'', d2)
               else
                 (case query (seats_of s) d2 of
                    (None, d3) \<Rightarrow> (Inl ''unable to load schedule seats'', d3)
                  | (Some seat_rows, d3) \<Rightarrow>
                      (if \<not> in_i32 (int (length seat_rows)) then Inl ''schedule contains too many seats''
                       else if seat_rows = [] then Inl ''schedule has no seats''
                       else Inr \<lparr>md_total = int (length seat_rows), md_indices = map_of seat_rows\<rparr>, d3))
           | (_, d2) \<Rightarrow> (Inl ''schedule not found'', d2)))"

text \<open>A cell is initialised once; a failed initialisation leaves it for the next request.\<close>

definition metadata_cell ::
    "schedule_id \<Rightarrow> ('r, 'c) WsHooks \<Rightarrow> (string + ScheduleSeatMetadata) \<times> ('r, 'c) WsHooks" where
  "metadata_cell s h =
     (case schedule_metadata h s of
        Some m \<Rightarrow> (Inr m, h)
      | None \<Rightarrow>
          (case load_metadata s (ws_db h) of
             (Inl e, d) \<Rightarrow> (Inl e, h\<lparr>ws_db := d\<rparr>)
           | (Inr m, d) \<Rightarrow> (Inr m, h\<lparr>ws_db := d, schedule_metadata := (schedule_metadata h)(s \<mapsto> m)\<rparr>)))"

fun check_indices :: "ScheduleSeatMetadata \<Rightarrow> (seat_id \<times> int) list \<Rightarrow> string + unit" where
  "check_indices m [] = Inr ()"
| "check_indices m ((t, i) # ps) =
     (if md_indices m t \<noteq> Some i then Inl (''seat '' @ dec t @ '' has an invalid schedule seat index'')
      else check_indices m ps)"

definition verified_seat_metadata ::
    "schedule_id \<Rightarrow> seat_id list \<Rightarrow> int list \<Rightarrow> int \<Rightarrow> ('r, 'c) WsHooks \<Rightarrow>
     (string + int list \<times> int) \<times> ('r, 'c) WsHooks" where
  "verified_seat_metadata s ts idx n h =
     (if ts = [] \<or> length ts \<noteq> length idx
      then (Inl ''seat ids and indices must be non-empty and aligned'', h)
      else
        (case metadata_cell s h of
           (Inl e, h1) \<Rightarrow> (Inl e, h1)
         | (Inr m, h1) \<Rightarrow>
             (if n \<noteq> md_total m then Inl ''total seat count does not match the schedule''
              else (case check_indices m (zip ts idx) of Inl e \<Rightarrow> Inl e | Inr _ \<Rightarrow> Inr (idx, md_total m)), h1)))"

section \<open>Handlers\<close>

definition lock_refused_json :: "schedule_id \<Rightarrow> string option \<Rightarrow> seat_id list \<Rightarrow> json" where
  "lock_refused_json s message ts =
     JObj ([(''event'', JStr ''lock_slots_response''), (''showtime_id'', JInt s), (''success'', JBool False)] @
       (case message of Some e \<Rightarrow> [(''message'', JStr e)] | None \<Rightarrow> []) @
       [(''locked_seat_ids'', JArr []), (''failed_seat_ids'', JArr (map JInt ts))])"

definition unlock_response_json :: "schedule_id \<Rightarrow> string option \<Rightarrow> bool \<Rightarrow> seat_id list \<Rightarrow> json" where
  "unlock_response_json s message ok ts =
     JObj ([(''event'', JStr ''unlock_slots_response''), (''showtime_id'', JInt s), (''success'', JBool ok)] @
       (case message of Some e \<Rightarrow> [(''message'', JStr e)] | None \<Rightarrow> []) @
       [(''unlocked_seat_ids'', JArr (map JInt ts))])"

definition on_lock_request ::
    "'g GrpcLockClient \<Rightarrow> user_id \<Rightarrow> schedule_id \<Rightarrow> seat_id list \<Rightarrow> int list \<Rightarrow> int \<Rightarrow>
     ('r, 'c) WsHooks \<times> 'g \<Rightarrow> ('r, 'c) WsHooks \<times> 'g" where
  "on_lock_request G u s ts idx n hg =
     (case hg of (h, g) \<Rightarrow>
        case verified_seat_metadata s ts idx n h of
          (Inl e, h1) \<Rightarrow> (reply_to u (lock_refused_json s (Some e) ts) h1, g)
        | (Inr (idx', n'), h1) \<Rightarrow>
            (case gr_lock_slot G u s (slot_request ts idx' n') g of
               (Inl _, g1) \<Rightarrow> (reply_to u (lock_refused_json s None ts) h1, g1)
             | (Inr _, g1) \<Rightarrow> (h1, g1)))"

definition on_unlock_request ::
    "'g GrpcLockClient \<Rightarrow> user_id \<Rightarrow> schedule_id \<Rightarrow> seat_id list \<Rightarrow> int list \<Rightarrow> int \<Rightarrow>
     ('r, 'c) WsHooks \<times> 'g \<Rightarrow> ('r, 'c) WsHooks \<times> 'g" where
  "on_unlock_request G u s ts idx n hg =
     (case hg of (h, g) \<Rightarrow>
        case verified_seat_metadata s ts idx n h of
          (Inl e, h1) \<Rightarrow> (reply_to u (unlock_response_json s (Some e) False []) h1, g)
        | (Inr (idx', n'), h1) \<Rightarrow>
            (case gr_unlock_slot G u s (slot_request ts idx' n') g of
               (Inl _, g1) \<Rightarrow> (reply_to u (unlock_response_json s None False []) h1, g1)
             | (Inr (ok, freed), g1) \<Rightarrow> (reply_to u (unlock_response_json s None ok freed) h1, g1)))"

definition ws_publish :: "string \<Rightarrow> PubSubEvent \<Rightarrow> ('r, 'c) WsHooks \<Rightarrow> ('r, 'c) WsHooks" where
  "ws_publish channel event h =
     h\<lparr>ws_world := (case pool_get (ws_world h) of (ok, w) \<Rightarrow>
        if ok then publish_node 0 channel (event_json event) w else w)\<rparr>"

definition publish_global :: "PubSubEvent \<Rightarrow> ('r, 'c) WsHooks \<Rightarrow> ('r, 'c) WsHooks" where
  "publish_global event h = ws_publish global_events_channel event h"

definition ws_publish_room :: "schedule_id \<Rightarrow> PubSubEvent \<Rightarrow> ('r, 'c) WsHooks \<Rightarrow> ('r, 'c) WsHooks" where
  "ws_publish_room s event h = ws_publish (room_channel s) event h"

definition on_register :: "user_id \<Rightarrow> string \<Rightarrow> ('r, 'c) WsHooks \<Rightarrow> ('r, 'c) WsHooks" where
  "on_register u x h = publish_global (Register u x) h"

definition on_disconnect :: "user_id \<Rightarrow> string \<Rightarrow> ('r, 'c) WsHooks \<Rightarrow> ('r, 'c) WsHooks" where
  "on_disconnect u x h = publish_global (Disconnect u x) h"

definition send_room_state_snapshot ::
    "'r redis \<Rightarrow> (string \<Rightarrow> json option) \<Rightarrow> int \<Rightarrow> user_id \<Rightarrow> schedule_id \<Rightarrow> ('r, 'c) WsHooks \<Rightarrow> ('r, 'c) WsHooks" where
  "send_room_state_snapshot R of_text now u s h =
     (case sync_room_state_snapshot R of_text now u s (ws_world h) of
        ((seats, locked), w) \<Rightarrow>
          reply_to u (JObj [(''event'', JStr ''room_state_snapshot''), (''showtime_id'', JInt s),
              (''seats'', JArr (map room_seat_json seats)), (''locked_seat_ids'', JArr locked)])
            (h\<lparr>ws_world := w\<rparr>))"

definition on_subscribe ::
    "'r redis \<Rightarrow> (string \<Rightarrow> json option) \<Rightarrow> int \<Rightarrow> user_id \<Rightarrow> string \<Rightarrow> schedule_id \<Rightarrow> ('r, 'c) WsHooks \<Rightarrow> ('r, 'c) WsHooks" where
  "on_subscribe R of_text now u x s h =
     send_room_state_snapshot R of_text now u s (h\<lparr>ws_adapter := subscribe_local x s (ws_adapter h)\<rparr>)"

definition on_unsubscribe :: "string \<Rightarrow> schedule_id \<Rightarrow> ('r, 'c) WsHooks \<Rightarrow> ('r, 'c) WsHooks" where
  "on_unsubscribe x s h = h\<lparr>ws_adapter := unsubscribe_local x s (ws_adapter h)\<rparr>"

definition on_sync_locks_request ::
    "'r redis \<Rightarrow> (string \<Rightarrow> json option) \<Rightarrow> int \<Rightarrow> user_id \<Rightarrow> schedule_id \<Rightarrow> ('r, 'c) WsHooks \<Rightarrow> ('r, 'c) WsHooks" where
  "on_sync_locks_request R of_text now u s h =
     (case sync_locks_from_zset R of_text now u s (ws_world h) of
        (locked, w) \<Rightarrow>
          reply_to u (JObj [(''event'', JStr ''sync_locks_response''), (''success'', JBool True),
              (''locked_seat_ids'', JArr locked)]) (h\<lparr>ws_world := w\<rparr>))"

definition on_payment_confirm ::
    "'r redis \<Rightarrow> ('r, json) world SeatLock \<Rightarrow> user_id \<Rightarrow> schedule_id \<Rightarrow> seat_id list \<Rightarrow> ('r, 'c) WsHooks \<Rightarrow> ('r, 'c) WsHooks" where
  "on_payment_confirm R L u s ts h =
     (case confirm_payment R L u s ts (ws_world h) of
        (ok, w) \<Rightarrow>
          let h1 = h\<lparr>ws_world := w\<rparr>
          in if ok then ws_publish_room s (PaymentConfirmed u s ts) h1 else h1)"

definition on_payment_timeout :: "user_id \<Rightarrow> schedule_id \<Rightarrow> seat_id list \<Rightarrow> ('r, 'c) WsHooks \<Rightarrow> ('r, 'c) WsHooks" where
  "on_payment_timeout u s ts h = ws_publish_room s (PaymentTimeout s ts) h"

section \<open>A socket\<close>

datatype WsRequest =
    Subscribe schedule_id
  | Unsubscribe schedule_id
  | LockSeatsReq schedule_id "seat_id list" "int list" int
  | UnlockSeatsReq schedule_id "seat_id list" "int list" int
  | SyncLocks schedule_id

text \<open>\<open>#[serde(tag = "type")]\<close>; the show is given as \<open>room_id\<close> or \<open>showtime_id\<close>, and giving both is an error.\<close>

fun room_field :: "json \<Rightarrow> schedule_id option" where
  "room_field (JObj fs) =
     (case (map_of fs ''room_id'', map_of fs ''showtime_id'') of
        (Some r, None) \<Rightarrow> de_i32 r
      | (None, Some r) \<Rightarrow> de_i32 r
      | _ \<Rightarrow> None)"
| "room_field _ = None"

definition request_of_json :: "json \<Rightarrow> WsRequest option" where
  "request_of_json v =
     (case (as_str (jget v ''type''), room_field v) of
        (Some tag, Some s) \<Rightarrow>
          let fields = (de_ids (jget v ''seat_ids''), de_ids (jget v ''seat_indices''), de_i32 (jget v ''total_seat_count''))
          in if tag = ''Subscribe'' then Some (Subscribe s)
             else if tag = ''Unsubscribe'' then Some (Unsubscribe s)
             else if tag = ''LockSeats'' then
               (case fields of (Some ts, Some idx, Some n) \<Rightarrow> Some (LockSeatsReq s ts idx n) | _ \<Rightarrow> None)
             else if tag = ''UnlockSeats'' then
               (case fields of (Some ts, Some idx, Some n) \<Rightarrow> Some (UnlockSeatsReq s ts idx n) | _ \<Rightarrow> None)
             else if tag = ''SyncLocks'' then Some (SyncLocks s)
             else None
      | _ \<Rightarrow> None)"

fun dispatch ::
    "'r redis \<Rightarrow> (string \<Rightarrow> json option) \<Rightarrow> 'g GrpcLockClient \<Rightarrow> int \<Rightarrow> user_id \<Rightarrow> string \<Rightarrow> WsRequest \<Rightarrow>
     ('r, 'c) WsHooks \<times> 'g \<Rightarrow> ('r, 'c) WsHooks \<times> 'g" where
  "dispatch R of_text G now u x (Subscribe s) (h, g) = (on_subscribe R of_text now u x s h, g)"
| "dispatch R of_text G now u x (Unsubscribe s) (h, g) = (on_unsubscribe x s h, g)"
| "dispatch R of_text G now u x (LockSeatsReq s ts idx n) (h, g) = on_lock_request G u s ts idx n (h, g)"
| "dispatch R of_text G now u x (UnlockSeatsReq s ts idx n) (h, g) = on_unlock_request G u s ts idx n (h, g)"
| "dispatch R of_text G now u x (SyncLocks s) (h, g) = (on_sync_locks_request R of_text now u s h, g)"

text \<open>
  The life of a socket in \<open>handle_socket\<close>: registration and acknowledgement, its text frames in order (one
  that is no request is skipped), and the end of either task.
\<close>

definition open_socket :: "string \<Rightarrow> user_id \<Rightarrow> 'c \<Rightarrow> ('r, 'c) WsHooks \<Rightarrow> ('r, 'c) WsHooks" where
  "open_socket x u tx h =
     ws_send [(tx, JObj [(''event'', JStr ''auth_ack''), (''user_id'', JInt u)])]
       (on_register u x
         (h\<lparr>ws_adapter := add_local_connection x u tx (ws_adapter h), ws_tasks := (ws_tasks h)(x \<mapsto> (u, tx))\<rparr>))"

definition handle_text ::
    "'r redis \<Rightarrow> (string \<Rightarrow> json option) \<Rightarrow> 'g GrpcLockClient \<Rightarrow> int \<Rightarrow> string \<Rightarrow> string \<Rightarrow>
     ('r, 'c) WsHooks \<times> 'g \<Rightarrow> ('r, 'c) WsHooks \<times> 'g" where
  "handle_text R of_text G now x frame hg =
     (case ws_tasks (fst hg) x of
        None \<Rightarrow> hg
      | Some (u, _) \<Rightarrow>
          (case Option.bind (of_text frame) request_of_json of
             None \<Rightarrow> hg
           | Some req \<Rightarrow> dispatch R of_text G now u x req hg))"

definition close_socket :: "string \<Rightarrow> ('r, 'c) WsHooks \<Rightarrow> ('r, 'c) WsHooks" where
  "close_socket x h =
     (case ws_tasks h x of
        None \<Rightarrow> h
      | Some (u, _) \<Rightarrow>
          on_disconnect u x
            (h\<lparr>ws_adapter := remove_local_connection x u (ws_adapter h), ws_tasks := (ws_tasks h)(x := None)\<rparr>))"

text \<open>
  The upgrade: a token that does not verify is refused, an identity that is no number becomes user 0.
  \<open>decode_sub\<close> is the verification of \<open>jsonwebtoken\<close>, giving the subject.
\<close>

definition ws_user :: "(string \<Rightarrow> string \<Rightarrow> string option) \<Rightarrow> string \<Rightarrow> string \<Rightarrow> user_id option" where
  "ws_user decode_sub jwt_secret token =
     (if token = ''mock_token'' then Some 1
      else map_option (\<lambda>sub. case parse_i32 sub of Some u \<Rightarrow> u | None \<Rightarrow> 0) (decode_sub jwt_secret token))"

definition ws_handler ::
    "(string \<Rightarrow> string \<Rightarrow> string option) \<Rightarrow> string \<Rightarrow> string \<Rightarrow> string \<Rightarrow> 'c \<Rightarrow> ('r, 'c) WsHooks \<Rightarrow> bool \<times> ('r, 'c) WsHooks" where
  "ws_handler decode_sub jwt_secret token x tx h =
     (case ws_user decode_sub jwt_secret token of
        None \<Rightarrow> (False, h)
      | Some u \<Rightarrow> (True, open_socket x u tx h))"

end
