(* ===== verification/User_Schedules.thy ===== *)
theory User_Schedules
  imports Schedules_Admin Ws_Server
begin

text \<open>
  The public schedule API (\<open>apps/http-server/src/api/user/schedules_v2.rs\<close>): lists and details read through the
  response cache, seat counts cached on their own, the seat map laid over the Redis bitmap, and the seats a
  user holds. The JSON text of rows and counts and the shows of MongoDB are parameters. One clock reading
  stands for those of a request.
\<close>

section \<open>The cached text\<close>

record cache_codec =
  en_schedules :: "Schedule list \<Rightarrow> string"
  de_schedules :: "string \<Rightarrow> Schedule list option"
  en_schedule :: "Schedule \<Rightarrow> string"
  de_schedule :: "string \<Rightarrow> Schedule option"
  de_count :: "string \<Rightarrow> int option"

text \<open>
  The pattern of the three reading handlers: what the cache has, else what the database has, which is then
  written back. \<open>load_missing\<close> and \<open>write_back\<close> are separate exchanges; other requests may come in between.
\<close>

definition write_back :: "'r redis \<Rightarrow> string \<Rightarrow> string \<Rightarrow> ('r, 'x) http_scheme \<Rightarrow> ('r, 'x) http_scheme" where
  "write_back R k raw st = do_cache (set_async_cached 3 R k raw TTL_SHOW_SCHEDULES) st"

definition load_missing ::
    "'r redis \<Rightarrow> (string \<Rightarrow> 'a option) \<Rightarrow> string \<Rightarrow> (database \<Rightarrow> (AppError + 'a) \<times> database) \<Rightarrow>
     ('r, 'x) http_scheme \<Rightarrow> (AppError + 'a \<times> bool) \<times> ('r, 'x) http_scheme" where
  "load_missing R de k load st =
     (case on_cache (get_async_cached 3 R de k) st of
        (Some x, st1) \<Rightarrow> (Inr (x, False), st1)
      | (None, st1) \<Rightarrow>
          (case on_db (with_connection load) st1 of
             (Inl e, st2) \<Rightarrow> (Inl e, st2)
           | (Inr x, st2) \<Rightarrow> (Inr (x, True), st2)))"

definition through_cache ::
    "'r redis \<Rightarrow> (string \<Rightarrow> 'a option) \<Rightarrow> ('a \<Rightarrow> string) \<Rightarrow> string \<Rightarrow> (database \<Rightarrow> (AppError + 'a) \<times> database) \<Rightarrow>
     ('r, 'x) http_scheme \<Rightarrow> (AppError + 'a) \<times> ('r, 'x) http_scheme" where
  "through_cache R de en k load st =
     (case load_missing R de k load st of
        (Inl e, st1) \<Rightarrow> (Inl e, st1)
      | (Inr (x, missed), st1) \<Rightarrow> (Inr x, if missed then write_back R k (en x) st1 else st1))"

section \<open>Seat counts\<close>

text \<open>
  Both keys of each schedule are read (concurrently in the code, whose order does not matter to the answers); a
  schedule with either missing is counted in the database, and its counts are written back.
\<close>

fun read_counts ::
    "'r redis \<Rightarrow> cache_codec \<Rightarrow> schedule_id list \<Rightarrow> ('r, 'p) world \<Rightarrow>
     ((schedule_id \<times> int \<times> int) list \<times> schedule_id list) \<times> ('r, 'p) world" where
  "read_counts R C [] w = (([], []), w)"
| "read_counts R C (s # ss) w =
     (case get_async_cached 3 R (de_count C) (cache_schedule_total_seats_key s) w of (t, w1) \<Rightarrow>
      case get_async_cached 3 R (de_count C) (cache_schedule_available_seats_key s) w1 of (a, w2) \<Rightarrow>
      case read_counts R C ss w2 of ((hits, missing), w3) \<Rightarrow>
        ((case (t, a) of
            (Some x, Some y) \<Rightarrow> ((s, x, y) # hits, missing)
          | _ \<Rightarrow> (hits, s # missing)), w3))"

definition count_missing ::
    "schedule_id list \<Rightarrow> database \<Rightarrow> (AppError + (schedule_id \<rightharpoonup> int) \<times> (schedule_id \<rightharpoonup> int)) \<times> database" where
  "count_missing ss d =
     (case query (count_seats (\<lambda>_. True) ss) d of
        (None, d1) \<Rightarrow> (Inl Internal, d1)
      | (Some totals, d1) \<Rightarrow>
          (case query (count_seats (\<lambda>r. ss_status r = Available) ss) d1 of
             (None, d2) \<Rightarrow> (Inl Internal, d2)
           | (Some available, d2) \<Rightarrow> (Inr (totals, available), d2)))"

definition write_counts ::
    "'r redis \<Rightarrow> (schedule_id \<rightharpoonup> int) \<Rightarrow> (schedule_id \<rightharpoonup> int) \<Rightarrow> schedule_id \<Rightarrow> ('r, 'p) world \<Rightarrow> ('r, 'p) world" where
  "write_counts R totals available s w =
     set_async_cached 3 R (cache_schedule_available_seats_key s) (dec (count_of available s)) TTL_SCHEDULE_SEAT_COUNTS
       (set_async_cached 3 R (cache_schedule_total_seats_key s) (dec (count_of totals s)) TTL_SCHEDULE_SEAT_COUNTS w)"

definition load_schedule_seat_counts ::
    "'r redis \<Rightarrow> cache_codec \<Rightarrow> schedule_id list \<Rightarrow> ('r, 'x) http_scheme \<Rightarrow>
     (AppError + (schedule_id \<rightharpoonup> int) \<times> (schedule_id \<rightharpoonup> int)) \<times> ('r, 'x) http_scheme" where
  "load_schedule_seat_counts R C ss st =
     (if ss = [] then (Inr (Map.empty, Map.empty), st)
      else
        (case on_cache (read_counts R C ss) st of ((hits, missing), st1) \<Rightarrow>
           (let totals = map_of (rev (map (\<lambda>(s, t, a). (s, t)) hits));
                available = map_of (rev (map (\<lambda>(s, t, a). (s, a)) hits))
            in if missing = [] then (Inr (totals, available), st1)
               else
                 (case on_db (with_connection (count_missing missing)) st1 of
                    (Inl e, st2) \<Rightarrow> (Inl e, st2)
                  | (Inr (dt, da), st2) \<Rightarrow>
                      (Inr (\<lambda>s. if s \<in> set missing then Some (count_of dt s) else totals s,
                            \<lambda>s. if s \<in> set missing then Some (count_of da s) else available s),
                       do_cache (fold (write_counts R dt da) missing) st2)))))"

section \<open>Lists\<close>

definition listed :: "timestamp \<Rightarrow> Schedule \<Rightarrow> bool" where
  "listed now r \<longleftrightarrow> sc_deleted_at r = None \<and> sc_lifecycle_state r \<noteq> ScheduleLifecycleState.Closed \<and> now < sc_start_time r"

definition select_schedules :: "(Schedule \<Rightarrow> bool) \<Rightarrow> tables \<Rightarrow> Schedule list" where
  "select_schedules P T = sort_key sc_start_time (filter P (schedules T))"

definition load_schedules :: "(Schedule \<Rightarrow> bool) \<Rightarrow> database \<Rightarrow> (AppError + Schedule list) \<times> database" where
  "load_schedules P d =
     (case query (select_schedules P) d of (None, d1) \<Rightarrow> (Inl Internal, d1) | (Some rs, d1) \<Rightarrow> (Inr rs, d1))"

text \<open>A row of an answer; the list of a show leaves out the show.\<close>

record UserScheduleView =
  uv_row :: Schedule
  uv_booking_open :: bool
  uv_seconds_until_open :: int
  uv_total :: int
  uv_available :: int
  uv_show :: "MongoShow option"

definition user_view ::
    "timestamp \<Rightarrow> (schedule_id \<rightharpoonup> int) \<Rightarrow> (schedule_id \<rightharpoonup> int) \<Rightarrow> MongoShow option \<Rightarrow> Schedule \<Rightarrow> UserScheduleView" where
  "user_view now totals available show r =
     \<lparr>uv_row = r, uv_booking_open = (sc_lifecycle_state r = ScheduleLifecycleState.Open),
      uv_seconds_until_open = num_seconds (sc_booking_open_at r - now),
      uv_total = count_of totals (sc_id r), uv_available = count_of available (sc_id r), uv_show = show\<rparr>"

text \<open>The shows are keyed by the hexadecimal form of their ids, as in the administration.\<close>

definition show_by_hex :: "admin_crates \<Rightarrow> string \<Rightarrow> MongoShow option" where
  "show_by_hex A x = (if parse_oid A x = Some x then any_show A x else None)"

definition list_active_schedules ::
    "'r redis \<Rightarrow> cache_codec \<Rightarrow> admin_crates \<Rightarrow> timestamp \<Rightarrow> ('r, 'x) http_scheme \<Rightarrow>
     (AppError + UserScheduleView list) \<times> ('r, 'x) http_scheme" where
  "list_active_schedules R C A now st =
     (case through_cache R (de_schedules C) (en_schedules C) cache_schedules_active_key (load_schedules (listed now)) st of
        (Inl e, st1) \<Rightarrow> (Inl e, st1)
      | (Inr loaded, st1) \<Rightarrow>
          (let rs = filter (listed now) loaded
           in case load_schedule_seat_counts R C (map sc_id rs) st1 of
                (Inl e, st2) \<Rightarrow> (Inl e, st2)
              | (Inr (totals, available), st2) \<Rightarrow>
                  (Inr (map (\<lambda>r. user_view now totals available (show_by_hex A (sc_mongo_show_id r)) r) rs), st2)))"

definition of_show :: "timestamp \<Rightarrow> string \<Rightarrow> string option \<Rightarrow> Schedule \<Rightarrow> bool" where
  "of_show now m city r \<longleftrightarrow> sc_mongo_show_id r = m \<and> listed now r \<and>
     (case city of Some c \<Rightarrow> sc_venue_city r = Some c | None \<Rightarrow> True)"

definition get_schedules_for_show ::
    "'r redis \<Rightarrow> cache_codec \<Rightarrow> timestamp \<Rightarrow> string \<Rightarrow> string option \<Rightarrow> ('r, 'x) http_scheme \<Rightarrow>
     (AppError + UserScheduleView list) \<times> ('r, 'x) http_scheme" where
  "get_schedules_for_show R C now m query_city st =
     (let city = city_filter query_city
      in case through_cache R (de_schedules C) (en_schedules C) (cache_show_schedules_key m city)
                (load_schedules (of_show now m city)) st of
           (Inl e, st1) \<Rightarrow> (Inl e, st1)
         | (Inr loaded, st1) \<Rightarrow>
             (let rs = filter (listed now) loaded
              in case load_schedule_seat_counts R C (map sc_id rs) st1 of
                   (Inl e, st2) \<Rightarrow> (Inl e, st2)
                 | (Inr (totals, available), st2) \<Rightarrow> (Inr (map (user_view now totals available None) rs), st2)))"

section \<open>Details\<close>

definition load_details :: "schedule_id \<Rightarrow> database \<Rightarrow> (AppError + Schedule) \<times> database" where
  "load_details s d =
     (case query (find_schedule s) d of
        (None, d1) \<Rightarrow> (Inl Internal, d1)
      | (Some None, d1) \<Rightarrow> (Inl (NotFound ''Schedule not found''), d1)
      | (Some (Some r), d1) \<Rightarrow> (Inr r, d1))"

record ScheduleDetails =
  dt_row :: Schedule
  dt_booking_open :: bool
  dt_seconds_until_open :: int
  dt_show :: "MongoShow option"

definition details_view :: "admin_crates \<Rightarrow> timestamp \<Rightarrow> Schedule \<Rightarrow> AppError + ScheduleDetails" where
  "details_view A now r =
     (if sc_deleted_at r \<noteq> None then Inl (NotFound ''Schedule deleted'')
      else Inr \<lparr>dt_row = r, dt_booking_open = (sc_lifecycle_state r = ScheduleLifecycleState.Open),
                dt_seconds_until_open = num_seconds (sc_booking_open_at r - now),
                dt_show = Option.bind (parse_oid A (sc_mongo_show_id r)) (any_show A)\<rparr>)"

definition get_schedule_details ::
    "'r redis \<Rightarrow> cache_codec \<Rightarrow> admin_crates \<Rightarrow> timestamp \<Rightarrow> schedule_id \<Rightarrow> ('r, 'x) http_scheme \<Rightarrow>
     (AppError + ScheduleDetails) \<times> ('r, 'x) http_scheme" where
  "get_schedule_details R C A now s st =
     (case through_cache R (de_schedule C) (en_schedule C) (cache_schedule_key s) (load_details s) st of
        (Inl e, st1) \<Rightarrow> (Inl e, st1)
      | (Inr r, st1) \<Rightarrow> (details_view A now r, st1))"

section \<open>The seat map\<close>

definition bitmap_seat_status :: "8 word list \<Rightarrow> seat_id \<Rightarrow> string option" where
  "bitmap_seat_status bitmap t =
     (if t < 0 then None
      else
        (let bit_offset = nat t * 2
         in if bit_offset div 8 < length bitmap
            then (let state = drop_bit (6 - bit_offset mod 8) (bitmap ! (bit_offset div 8)) AND 3
                  in Some (if state = 1 then ''Locked'' else if state = 2 then ''Booked'' else ''Available''))
            else None))"

definition status_text :: "SeatStatus \<Rightarrow> string" where
  "status_text x = (case x of Available \<Rightarrow> ''Available'' | Locked \<Rightarrow> ''Locked'' | Booked \<Rightarrow> ''Booked'')"

definition shown_status :: "8 word list \<Rightarrow> ScheduleSeat \<Rightarrow> string" where
  "shown_status bitmap r =
     (case bitmap_seat_status bitmap (ss_id r) of Some x \<Rightarrow> x | None \<Rightarrow> status_text (ss_status r))"

record SeatView =
  sv_seat :: ScheduleSeat
  sv_status :: string
  sv_locked_by :: "user_id option"

text \<open>The loop over the seats; \<open>connected\<close> is whether a connection to Redis was opened.\<close>

fun view_seats ::
    "'r redis \<Rightarrow> schedule_id \<Rightarrow> bool \<Rightarrow> 8 word list \<Rightarrow> ScheduleSeat list \<Rightarrow> ('r, 'p) world \<Rightarrow> SeatView list \<times> ('r, 'p) world" where
  "view_seats R s connected bitmap [] w = ([], w)"
| "view_seats R s connected bitmap (r # rs) w =
     (case (if shown_status bitmap r = ''Locked'' \<and> connected
            then send 0 (reading (GET R (seat_lock_key s (ss_id r)))) w else (None, w)) of (v, w1) \<Rightarrow>
      case view_seats R s connected bitmap rs w1 of (vs, w2) \<Rightarrow>
        (\<lparr>sv_seat = r, sv_status = shown_status bitmap r,
          sv_locked_by = Option.bind (Option.bind v id) parse_i32\<rparr> # vs, w2))"

text \<open>A missing bitmap and a failed read are an empty one: every seat falls back to the database.\<close>

definition read_bitmap :: "'r redis \<Rightarrow> schedule_id \<Rightarrow> bool \<Rightarrow> ('r, 'p) world \<Rightarrow> 8 word list \<times> ('r, 'p) world" where
  "read_bitmap R s connected w =
     (if connected
      then (case send 0 (reading (GETBITS R (schedule_seat_bitmap s))) w of
              (Some bs, w1) \<Rightarrow> (bs, w1) | (None, w1) \<Rightarrow> ([], w1))
      else ([], w))"

definition load_seat_map :: "schedule_id \<Rightarrow> database \<Rightarrow> (AppError + Schedule \<times> ScheduleSeat list) \<times> database" where
  "load_seat_map s d =
     (case query (find_schedule s) d of
        (Some (Some r), d1) \<Rightarrow>
          (case query (seat_map s) d1 of (None, d2) \<Rightarrow> (Inl Internal, d2) | (Some xs, d2) \<Rightarrow> (Inr (r, xs), d2))
      | (_, d1) \<Rightarrow> (Inl (NotFound ''Schedule not found''), d1))"

definition get_seat_map ::
    "'r redis \<Rightarrow> schedule_id \<Rightarrow> ('r, 'x) http_scheme \<Rightarrow> (AppError + Schedule \<times> SeatView list) \<times> ('r, 'x) http_scheme" where
  "get_seat_map R s st =
     (case on_db (with_connection (load_seat_map s)) st of
        (Inl e, st1) \<Rightarrow> (Inl e, st1)
      | (Inr (r, xs), st1) \<Rightarrow>
          (case on_cache pool_get st1 of (connected, st2) \<Rightarrow>
           case on_cache (read_bitmap R s connected) st2 of (bitmap, st3) \<Rightarrow>
           case on_cache (view_seats R s connected bitmap xs) st3 of (vs, st4) \<Rightarrow> (Inr (r, vs), st4)))"

section \<open>The caller's locks\<close>

definition get_my_locked_seats ::
    "'r redis \<Rightarrow> pay_crates \<Rightarrow> string \<Rightarrow> int \<Rightarrow> (string \<times> string) list \<Rightarrow> schedule_id \<Rightarrow> ('r, 'x) http_scheme \<Rightarrow>
     (AppError + user_id \<times> seat_id list) \<times> ('r, 'x) http_scheme" where
  "get_my_locked_seats R N secret now_secs headers s st =
     (case Payments_Api.authenticated_user N headers secret of
        Inl e \<Rightarrow> (Inl e, st)
      | Inr u \<Rightarrow> (case on_cache (get_user_locked_seats R now_secs s u) st of (ts, st1) \<Rightarrow> (Inr (u, ts), st1)))"

end
