(* ===== verification/Ws_Server_Props.thy ===== *)
theory Ws_Server_Props
  imports Ws_Server Lock_Server_Props
begin

text \<open>
  Properties of the websocket server: replies reach the requesting user only, lock requests passed to the
  gateway carry the schedule's own seats, the snapshot of a room is the seat bitmap, the outcome the lock
  server announces reaches the user's sockets, and what the snapshot cannot see when there are several Redis
  servers.
\<close>

section \<open>The snapshot is the bitmap\<close>

lemma map_filter_append: "List.map_filter f (xs @ ys) = List.map_filter f xs @ List.map_filter f ys"
  by (simp add: List.map_filter_def)

lemma map_filter_map: "List.map_filter f (map g xs) = List.map_filter (\<lambda>x. f (g x)) xs"
  by (induction xs) (auto simp: List.map_filter_def)

lemma map_filter_cong: "(\<And>x. x \<in> set xs \<Longrightarrow> f x = g x) \<Longrightarrow> List.map_filter f xs = List.map_filter g xs"
  by (induction xs) (auto simp: List.map_filter_def)

definition seat_field :: "8 word list \<Rightarrow> nat \<Rightarrow> (seat_id \<times> SeatState) option" where
  "seat_field bs k =
     (let state = from_bitmap (bf_get (2 * k) bs)
      in if state \<noteq> SeatState_Available then Some (int k, state) else None)"

lemma bf_get_append_left: "k < 4 * length bs \<Longrightarrow> bf_get (2 * k) (bs @ cs) = bf_get (2 * k) bs"
  by (simp add: bf_get_def nth_append less_mult_imp_div_less)

lemma bf_get_append_right:
  assumes "j < 4"
  shows "bf_get (2 * (4 * length bs + j)) (bs @ [b]) = bit_field j b"
proof -
  have e: "2 * (4 * length bs + j) = 2 * j + length bs * 8" by simp
  have "(2 * j + length bs * 8) div 8 = length bs" "(2 * j + length bs * 8) mod 8 = 2 * j"
    using assms by (simp_all only: div_mult_self1 mod_mult_self1 div_mult_self2) simp_all
  then show ?thesis unfolding e by (simp add: bf_get_def)
qed

lemma as_i32_seat: "length bs < 2 ^ 29 \<Longrightarrow> j < 4 \<Longrightarrow> as_i32 (int (length bs * 4 + j)) = int (4 * length bs + j)"
proof (subst as_i32_id)
  assume a: "length bs < 2 ^ 29" "j < 4"
  then have "length bs * 4 + j < 2 ^ 29 * 4" by linarith
  then have "int (length bs * 4 + j) < int (2 ^ 29 * 4)" by (simp only: of_nat_less_iff)
  then show "in_i32 (int (length bs * 4 + j))" by (simp add: in_i32_def)
  show "int (length bs * 4 + j) = int (4 * length bs + j)" by (simp only: mult.commute)
qed

lemma upt_four: "[0..<n + 4] = [0..<n] @ map (\<lambda>j. n + j) [0..<4]"
proof -
  have "map (\<lambda>j. j + n) [0..<4] = [n..<n + 4]" by (subst map_add_upt) (simp only: add.commute)
  then have "map (\<lambda>j. n + j) [0..<4] = [n..<n + 4]" by (simp only: add.commute [of n])
  then show ?thesis by (simp only: upt_add_eq_append [of 0 n 4, OF le0])
qed

lemma byte_snapshots_eq:
  assumes "length bs < 2 ^ 29"
  shows "byte_snapshots (length bs) b = List.map_filter (\<lambda>j. seat_field (bs @ [b]) (4 * length bs + j)) [0..<4]"
  unfolding byte_snapshots_def
proof (rule map_filter_cong)
  fix j assume "j \<in> set [0..<4::nat]"
  then have "j < 4" by (simp only: set_upt atLeastLessThan_iff)
  with assms show "(let state = from_bitmap (bit_field j b)
      in if state \<noteq> SeatState_Available then Some (as_i32 (int (length bs * 4 + j)), state) else None) =
      seat_field (bs @ [b]) (4 * length bs + j)"
    by (simp only: seat_field_def bf_get_append_right as_i32_seat)
qed

lemma bitmap_snapshots_eq:
  "length bs \<le> 2 ^ 29 \<Longrightarrow> bitmap_snapshots bs = List.map_filter (seat_field bs) [0..<4 * length bs]"
proof (induction bs rule: rev_induct)
  case Nil
  then show ?case by (simp add: bitmap_snapshots_def List.map_filter_def)
next
  case (snoc b bs)
  let ?n = "4 * length bs"
  from snoc.prems have len: "length bs < 2 ^ 29" by (simp only: length_append_singleton Suc_le_eq)
  have upt: "[0..<4 * length (bs @ [b])] = [0..<?n] @ map (\<lambda>j. ?n + j) [0..<4]"
    unfolding upt_four [symmetric] by (simp only: length_append_singleton mult_Suc_right add.commute)
  have left: "List.map_filter (seat_field (bs @ [b])) [0..<?n] = List.map_filter (seat_field bs) [0..<?n]"
    by (rule map_filter_cong) (simp add: seat_field_def bf_get_append_left)
  have "bitmap_snapshots (bs @ [b]) = bitmap_snapshots bs @ byte_snapshots (length bs) b"
    by (simp add: bitmap_snapshots_def enumerate_append_eq)
  also have "\<dots> = List.map_filter (seat_field (bs @ [b])) ([0..<?n] @ map (\<lambda>j. ?n + j) [0..<4])"
    using snoc.IH len unfolding map_filter_append map_filter_map left byte_snapshots_eq [OF len] by simp
  finally show ?case unfolding upt .
qed

lemma snapshot_owners_no_faults:
  assumes "faults w = []"
  shows "snapshot_owners R s ps w =
    (map (\<lambda>(t, state). \<lparr>rs_seat = t, rs_state = status state,
       rs_user = (if state = SeatState_Locked then parse_owner (Some (GET R (seat_lock_key s t) (nodes w ! 0))) else None)\<rparr>) ps, w)"
proof (induction ps)
  case Nil
  then show ?case by simp
next
  case (Cons p ps)
  obtain t state where p: "p = (t, state)" by (cases p)
  have w: "w\<lparr>nodes := (nodes w)[0 := nodes w ! 0]\<rparr> = w" by simp
  show ?case by (simp add: p Cons assms reading_def)
qed

lemma set_map_filter: "set (List.map_filter f xs) = {y. \<exists>x \<in> set xs. f x = Some y}"
  by (force simp: List.map_filter_def)

lemma sorted_seat_fields: "sorted_wrt (<) (map fst (List.map_filter (seat_field bs) [0..<n]))"
proof (induction n)
  case 0
  then show ?case by (simp add: List.map_filter_def)
next
  case (Suc n)
  have fst: "fst p = int k" if "seat_field bs k = Some p" for k p
    using that by (auto simp: seat_field_def Let_def split: if_splits)
  have less: "\<forall>p \<in> set (List.map_filter (seat_field bs) [0..<n]). fst p < int n"
    by (auto simp: set_map_filter dest: fst)
  have "List.map_filter (seat_field bs) [n] = (case seat_field bs n of Some p \<Rightarrow> [p] | None \<Rightarrow> [])"
    by (simp add: List.map_filter_def split: option.split)
  with Suc less fst show ?case
    by (cases "seat_field bs n") (simp_all add: map_filter_append sorted_wrt_append)
qed

lemma set_seat_fields:
  "(t, state) \<in> set (List.map_filter (seat_field bs) [0..<4 * length bs]) \<longleftrightarrow>
     0 \<le> t \<and> state = from_bitmap (bf_get (nat t * 2) bs) \<and> state \<noteq> SeatState_Available" (is "?l \<longleftrightarrow> ?r")
proof
  assume ?l
  then show ?r by (auto simp: set_map_filter seat_field_def Let_def mult.commute split: if_splits)
next
  assume r: ?r
  then have "bf_get (nat t * 2) bs \<noteq> 0" by (auto simp: from_bitmap_def)
  then have "nat t * 2 div 8 < length bs" by (auto simp: bf_get_def split: if_splits)
  then have "nat t < 4 * length bs" by linarith
  with r have "seat_field bs (nat t) = Some (t, state)" "nat t \<in> set [0..<4 * length bs]"
    by (auto simp: seat_field_def Let_def mult.commute)
  then show ?l unfolding set_map_filter by blast
qed

context redis_service
begin

lemma user_locks_no_faults:
  assumes "faults w = []"
  shows "user_locks R of_text s u w =
    (List.map_filter (parse_member_seat_id of_text) (ZRANGE R (user_zset_key s u) None None (nodes w ! 0)), w)"
  by (simp add: user_locks_def assms reading_def)

lemma room_snapshot_result:
  assumes "faults w = []" "nodes w \<noteq> []" "zset_typed (look R (nodes w ! 0) (user_zset_key s u))"
    and "length (GETBITS R (schedule_seat_bitmap s) (nodes w ! 0)) \<le> 2 ^ 29"
    and "sync_room_state_snapshot R of_text now u s w = ((seats, locked), w')"
  shows "seats = map (\<lambda>(t, state). \<lparr>rs_seat = t, rs_state = status state,
       rs_user = (if state = SeatState_Locked then parse_owner (Some (GET R (seat_lock_key s t) (nodes w ! 0))) else None)\<rparr>)
      (List.map_filter (seat_field (GETBITS R (schedule_seat_bitmap s) (nodes w ! 0)))
        [0..<4 * length (GETBITS R (schedule_seat_bitmap s) (nodes w ! 0))])"
    and "set locked = seat_status_json s ` {t. \<exists>m sc. (m, sc) \<in> set (zset_of (look R (nodes w ! 0) (user_zset_key s u))) \<and>
       now < sc \<and> parse_member_seat_id of_text m = Some t}"
proof -
  let ?k = "user_zset_key s u" and ?w = "w\<lparr>nodes := (nodes w)[0 := ZREMRANGE R (user_zset_key s u) now (nodes w ! 0)]\<rparr>"
  have n: "(nodes w)[0 := ZREMRANGE R ?k now (nodes w ! 0)] ! 0 = ZREMRANGE R ?k now (nodes w ! 0)"
    using assms(2) by simp
  have bits: "GETBITS R (schedule_seat_bitmap s) (ZREMRANGE R ?k now (nodes w ! 0)) = GETBITS R (schedule_seat_bitmap s) (nodes w ! 0)"
    and owner: "GET R (seat_lock_key s t) (ZREMRANGE R ?k now (nodes w ! 0)) = GET R (seat_lock_key s t) (nodes w ! 0)" for t
    by (simp_all add: GETBITS_def GET_def key_simps)
  have z: "set (ZRANGE R ?k None None (ZREMRANGE R ?k now (nodes w ! 0))) =
      fst ` {p \<in> set (zset_of (look R (nodes w ! 0) ?k)). now < snd p}"
    using assms(3) by (auto simp: set_ZRANGE within_def zset_of_zmap_entry)
  have run: "sync_room_state_snapshot R of_text now u s w =
      ((map (\<lambda>(t, state). \<lparr>rs_seat = t, rs_state = status state,
          rs_user = (if state = SeatState_Locked then parse_owner (Some (GET R (seat_lock_key s t) (nodes w ! 0))) else None)\<rparr>)
          (bitmap_snapshots (GETBITS R (schedule_seat_bitmap s) (nodes w ! 0))),
        map (seat_status_json s) (List.map_filter (parse_member_seat_id of_text)
          (ZRANGE R ?k None None (ZREMRANGE R ?k now (nodes w ! 0))))), ?w)"
    using assms(1) by (simp add: sync_room_state_snapshot_def writing_def reading_def user_locks_no_faults
        snapshot_owners_no_faults n bits owner case_prod_beta)
  from run assms(5) show "seats = map (\<lambda>(t, state). \<lparr>rs_seat = t, rs_state = status state,
       rs_user = (if state = SeatState_Locked then parse_owner (Some (GET R (seat_lock_key s t) (nodes w ! 0))) else None)\<rparr>)
      (List.map_filter (seat_field (GETBITS R (schedule_seat_bitmap s) (nodes w ! 0)))
        [0..<4 * length (GETBITS R (schedule_seat_bitmap s) (nodes w ! 0))])"
    by (simp add: bitmap_snapshots_eq [OF assms(4)])
  from run assms(5) have "locked = map (seat_status_json s) (List.map_filter (parse_member_seat_id of_text)
          (ZRANGE R ?k None None (ZREMRANGE R ?k now (nodes w ! 0))))" by simp
  then show "set locked = seat_status_json s ` {t. \<exists>m sc. (m, sc) \<in> set (zset_of (look R (nodes w ! 0) (user_zset_key s u))) \<and>
       now < sc \<and> parse_member_seat_id of_text m = Some t}"
    by (simp add: set_map_filter z)
qed

end

lemma snapshot_row_image:
  "\<lparr>rs_seat = t, rs_state = st, rs_user = ow\<rparr> \<in>
     (\<lambda>(t, state). \<lparr>rs_seat = t, rs_state = status state, rs_user = f t state\<rparr>) ` M \<longleftrightarrow>
   (\<exists>state. (t, state) \<in> M \<and> st = status state \<and> ow = f t state)"
proof
  assume "\<exists>state. (t, state) \<in> M \<and> st = status state \<and> ow = f t state"
  then obtain state where "(t, state) \<in> M" "st = status state" "ow = f t state" by blast
  then show "\<lparr>rs_seat = t, rs_state = st, rs_user = ow\<rparr> \<in>
     (\<lambda>(t, state). \<lparr>rs_seat = t, rs_state = status state, rs_user = f t state\<rparr>) ` M"
    by (intro image_eqI [of _ _ "(t, state)"]) simp_all
qed (elim imageE, clarsimp, blast)

section \<open>Properties of the snapshot\<close>

text \<open>
  C15 (room snapshot). Without faults, a subscriber is told of exactly the seats whose two bits in the bitmap say
  locked or booked, in ascending order, each with that state, a locked one with the owner its lock key names
  and a booked one without, and of exactly those of the user's own locks that have not expired.
\<close>

theorem room_snapshot_is_bitmap:
  assumes "redis_service R" "faults w = []" "nodes w \<noteq> []"
    and "zset_typed (look R (nodes w ! 0) (user_zset_key s u))"
    and "length (GETBITS R (schedule_seat_bitmap s) (nodes w ! 0)) \<le> 2 ^ 29"
    and "sync_room_state_snapshot R of_text now u s w = ((seats, locked), w')"
  shows "sorted_wrt (<) (map rs_seat seats) \<and>
    (\<forall>t st owner. \<lparr>rs_seat = t, rs_state = st, rs_user = owner\<rparr> \<in> set seats \<longleftrightarrow>
       0 \<le> t \<and>
       (let bits = bf_get (nat t * 2) (GETBITS R (schedule_seat_bitmap s) (nodes w ! 0))
        in bits = 1 \<and> st = ''LOCKED'' \<and> owner = parse_owner (Some (GET R (seat_lock_key s t) (nodes w ! 0))) \<or>
           bits = 2 \<and> st = ''BOOKED'' \<and> owner = None)) \<and>
    set locked = seat_status_json s ` {t. \<exists>m sc. (m, sc) \<in> set (zset_of (look R (nodes w ! 0) (user_zset_key s u))) \<and>
       now < sc \<and> parse_member_seat_id of_text m = Some t}"
proof -
  let ?bs = "GETBITS R (schedule_seat_bitmap s) (nodes w ! 0)"
  let ?row = "\<lambda>(t, state). \<lparr>rs_seat = t, rs_state = status state,
       rs_user = (if state = SeatState_Locked then parse_owner (Some (GET R (seat_lock_key s t) (nodes w ! 0))) else None)\<rparr>"
  note res = redis_service.room_snapshot_result [OF assms]
  have seats: "seats = map ?row (List.map_filter (seat_field ?bs) [0..<4 * length ?bs])" by (rule res(1))
  have "map rs_seat seats = map fst (List.map_filter (seat_field ?bs) [0..<4 * length ?bs])"
    by (simp add: seats case_prod_beta)
  then have sorted: "sorted_wrt (<) (map rs_seat seats)" by (simp only: sorted_seat_fields)
  let ?own = "\<lambda>t. parse_owner (Some (GET R (seat_lock_key s t) (nodes w ! 0)))"
  have rows: "\<lparr>rs_seat = t, rs_state = st, rs_user = owner\<rparr> \<in> set seats \<longleftrightarrow> 0 \<le> t \<and>
      (\<exists>state. (state = from_bitmap (bf_get (nat t * 2) ?bs) \<and> state \<noteq> SeatState_Available) \<and>
         st = status state \<and> owner = (if state = SeatState_Locked then ?own t else None))" for t st owner
    unfolding seats set_map snapshot_row_image set_seat_fields by blast
  have "\<lparr>rs_seat = t, rs_state = st, rs_user = owner\<rparr> \<in> set seats \<longleftrightarrow> 0 \<le> t \<and>
       (let bits = bf_get (nat t * 2) ?bs
        in bits = 1 \<and> st = ''LOCKED'' \<and> owner = parse_owner (Some (GET R (seat_lock_key s t) (nodes w ! 0))) \<or>
           bits = 2 \<and> st = ''BOOKED'' \<and> owner = None)" for t st owner
    unfolding rows by (cases "bf_get (nat t * 2) ?bs = 1"; cases "bf_get (nat t * 2) ?bs = 2") (simp_all add: from_bitmap_def)
  with sorted res(2) show ?thesis by (intro conjI allI)
qed

definition room_keyspace :: keyspace where
  "room_keyspace =
     [schedule_seat_bitmap 5 \<mapsto> \<lparr>rvalue = RBits [24], rttl = None\<rparr>,
      seat_lock_key 5 1 \<mapsto> str_entry (dec 7) None,
      user_zset_key 5 7 \<mapsto> \<lparr>rvalue = RZset [(dec 1, 400)], rttl = None\<rparr>]"

definition room_world :: "(keyspace, json) world" where
  "room_world = \<lparr>nodes = [room_keyspace], faults = [], published = []\<rparr>"

lemma room_world_simps:
  "nodes room_world = [room_keyspace]" "faults room_world = []"
  "look mem_redis room_keyspace k = room_keyspace k"
  "room_keyspace (schedule_seat_bitmap 5) = Some \<lparr>rvalue = RBits [24], rttl = None\<rparr>"
  "room_keyspace (seat_lock_key 5 1) = Some (str_entry (dec 7) None)"
  "room_keyspace (user_zset_key 5 7) = Some \<lparr>rvalue = RZset [(dec 1, 400)], rttl = None\<rparr>"
  by (simp_all add: room_world_def room_keyspace_def mem_redis_def key_simps)

theorem room_snapshot_is_bitmap_witness:
  "let ((seats, locked), w') = sync_room_state_snapshot mem_redis (\<lambda>_. None) 100 7 5 room_world
   in \<lparr>rs_seat = 1, rs_state = ''LOCKED'', rs_user = Some 7\<rparr> \<in> set seats \<and>
      \<lparr>rs_seat = 2, rs_state = ''BOOKED'', rs_user = None\<rparr> \<in> set seats \<and>
      set locked = {seat_status_json 5 1}"
proof -
  obtain seats locked w' where run:
    "sync_room_state_snapshot mem_redis (\<lambda>_. None) 100 7 5 room_world = ((seats, locked), w')"
    by (metis surj_pair)
  have bits: "GETBITS mem_redis (schedule_seat_bitmap 5) (nodes room_world ! 0) = [24]"
    by (simp add: room_world_simps GETBITS_def bits_of_def)
  have len: "length (GETBITS mem_redis (schedule_seat_bitmap 5) (nodes room_world ! 0)) \<le> 2 ^ 29"
    unfolding bits by simp
  have typed: "faults room_world = []" "nodes room_world \<noteq> []"
    "zset_typed (look mem_redis (nodes room_world ! 0) (user_zset_key 5 7))"
    by (simp_all add: room_world_simps zset_typed_def)
  note res = room_snapshot_is_bitmap [OF mem.redis_service_axioms typed len run]
  have get: "GET mem_redis (seat_lock_key 5 1) (nodes room_world ! 0) = Some (dec 7)"
    by (simp add: room_world_simps GET_def str_of_def str_entry_def)
  have fields: "bf_get (nat 1 * 2) [24] = 1" "bf_get (nat 2 * 2) [24] = 2" by code_simp+
  have "in_i32 7" "in_i32 1" by (simp_all add: in_i32_def)
  then have "parse_owner (Some (Some (dec 7))) = Some 7" "parse_i32 (dec 1) = Some 1" by (simp_all add: parse_owner_def)
  with res fields get bits show ?thesis
    by (simp add: run room_world_simps zset_typed_def zset_of_def parse_member_seat_id_def)
qed

section \<open>One server, and several\<close>

lemma length_bf_set: "length (bf_set off v bs) = max (length bs) (Suc (off div 8))"
  by (simp add: bf_set_def Let_def)

lemma metadata_single:
  assumes "faults w = []" "nodes w \<noteq> []" "in_i32 t" "0 \<le> t"
    and "update_seat_metadata_lua R J now s [t] u x w = (b, w1)"
  shows "b \<and> w1 = w\<lparr>nodes := (nodes w)[node_of s t (length (nodes w)) :=
      metadata_pipe R J s u (now + x) t (nodes w ! node_of s t (length (nodes w)))]\<rparr>"
proof -
  have "bit_offset t < 2 ^ 32" by (rule bit_offset_small [OF assms(3,4)])
  with assms(1,2,5) show ?thesis
    by (auto simp: update_seat_metadata_lua_def metadata_seat_def with_pool_def pool_for_seat_def writing_def)
qed

context redis_service
begin

lemma metadata_pipe_look:
  "look R (metadata_pipe R J s u x t r) (schedule_seat_bitmap s) = bits_entry (bit_offset t) 1 (look R r (schedule_seat_bitmap s))"
  "look R (metadata_pipe R J s u x t r) (seat_lock_key s' t') = look R r (seat_lock_key s' t')"
  "zset_typed (look R r (user_zset_key s v)) \<Longrightarrow> zset_typed (look R (metadata_pipe R J s u x t r) (user_zset_key s v))"
  by (cases "v = u"; simp add: metadata_pipe_def Let_def even_bit_offset key_simps zset_typed_zmap_entry)+

end

text \<open>
  (locked seats are shown). With one Redis server and no faults, once a user holds a seat's lock and the lock
  server has recorded its metadata, every later subscriber of the room is shown that seat as locked by that
  user.
\<close>

theorem locked_seat_is_shown:
  assumes "redis_service R" "faults w = []" "nodes w = [r]" "in_i32 t" "0 \<le> t"
    and "bits_typed (look R r (schedule_seat_bitmap s))"
    and "length (GETBITS R (schedule_seat_bitmap s) r) \<le> 2 ^ 29"
    and "zset_typed (look R r (user_zset_key s v))"
    and "sn_holder R s t w = Some u"
    and "update_seat_metadata_lua R J now s [t] u x w = (b, w1)"
    and "sync_room_state_snapshot R of_text now' v s w1 = ((seats, locked), w2)"
  shows "b \<and> \<lparr>rs_seat = t, rs_state = ''LOCKED'', rs_user = Some u\<rparr> \<in> set seats"
proof -
  let ?r = "metadata_pipe R J s u (now + x) t r"
  have n: "nodes w \<noteq> []" by (simp add: assms(3))
  from metadata_single [OF assms(2) n assms(4,5,10)] have b: "b" and w1: "nodes w1 = [?r]" "faults w1 = []"
    by (simp_all add: assms(2,3))
  note look = redis_service.metadata_pipe_look [OF assms(1)]
  have zs: "zset_typed (look R ?r (user_zset_key s v))" by (rule look(3) [OF assms(8)])
  have off: "bit_offset t < 2 ^ 32" by (rule bit_offset_small [OF assms(4,5)])
  have bits: "GETBITS R (schedule_seat_bitmap s) ?r = bf_set (bit_offset t) 1 (GETBITS R (schedule_seat_bitmap s) r)"
    using bits_of_bits_entry [OF off assms(6)] by (simp add: GETBITS_def look)
  have "bit_offset t div 8 < 2 ^ 29" using off by (simp add: less_mult_imp_div_less)
  with assms(7) have len: "length (GETBITS R (schedule_seat_bitmap s) (nodes w1 ! 0)) \<le> 2 ^ 29"
    by (simp add: w1 bits length_bf_set)
  have field: "bf_get (nat t * 2) (GETBITS R (schedule_seat_bitmap s) ?r) = 1"
    using bf_get_set_same [of "bit_offset t" 1] bits bit_offset_nonneg [OF assms(4,5)] by simp
  have own: "parse_owner (Some (GET R (seat_lock_key s t) ?r)) = Some u"
    using assms(3,9) by (simp add: GET_def look sn_holder_def cell_owner_def lock_cell_def)
  have w1': "nodes w1 \<noteq> []" "zset_typed (look R (nodes w1 ! 0) (user_zset_key s v))" using zs by (simp_all add: w1)
  note res = redis_service.room_snapshot_result(1) [OF assms(1) w1(2) w1' len assms(11)]
  have "(t, SeatState_Locked) \<in> set (List.map_filter (seat_field (GETBITS R (schedule_seat_bitmap s) ?r))
      [0..<4 * length (GETBITS R (schedule_seat_bitmap s) ?r)])"
    unfolding set_seat_fields field by (simp add: from_bitmap_def assms(5))
  then have "\<lparr>rs_seat = t, rs_state = ''LOCKED'', rs_user = Some u\<rparr> \<in> set seats"
    unfolding res set_map snapshot_row_image using own by (intro exI [of _ SeatState_Locked]) (simp add: w1)
  with b show ?thesis by simp
qed

definition lone_world :: "(keyspace, json) world" where
  "lone_world = \<lparr>nodes = [[seat_lock_key 5 1 \<mapsto> str_entry (dec 7) None]], faults = [], published = []\<rparr>"

theorem locked_seat_is_shown_witness:
  "\<lparr>rs_seat = 1, rs_state = ''LOCKED'', rs_user = Some 7\<rparr> \<in>
     set (fst (fst (sync_room_state_snapshot mem_redis (\<lambda>_. None) 101 8 5
       (snd (update_seat_metadata_lua mem_redis json_codec 100 5 [1] 7 300 lone_world)))))"
proof -
  obtain b w1 where w1: "update_seat_metadata_lua mem_redis json_codec 100 5 [1] 7 300 lone_world = (b, w1)"
    by (metis surj_pair)
  obtain seats locked w2 where run:
    "sync_room_state_snapshot mem_redis (\<lambda>_. None) 101 8 5 w1 = ((seats, locked), w2)"
    by (metis surj_pair)
  let ?r = "[seat_lock_key 5 1 \<mapsto> str_entry (dec 7) None]"
  have "in_i32 7" by (simp add: in_i32_def)
  then have h: "sn_holder mem_redis 5 1 lone_world = Some 7"
    by (simp add: sn_holder_def cell_owner_def lock_cell_def lone_world_def mem_redis_def str_of_def str_entry_def parse_owner_def)
  have "b \<and> \<lparr>rs_seat = 1, rs_state = ''LOCKED'', rs_user = Some 7\<rparr> \<in> set seats"
    by (rule locked_seat_is_shown [OF mem.redis_service_axioms _ _ _ _ _ _ _ h w1 run, of ?r])
      (simp_all add: lone_world_def in_i32_def bits_typed_def zset_typed_def mem_redis_def key_simps GETBITS_def bits_of_def)
  then show ?thesis by (simp add: w1 run)
qed

text \<open>
  (locks on other servers). The metadata of a lock goes to the seat's own server. When that is not the first
  one, the only one the services read through their own connection, nothing of it is visible there: the room
  snapshot, the list of the user's locks and the due entries of the expiry queue are what they were before.
\<close>

theorem lock_unseen_on_other_servers:
  assumes "faults w = []" "nodes w \<noteq> []" "node_of s t (length (nodes w)) \<noteq> 0"
    and "update_seat_metadata_lua R J now s [t] u x w = (b, w1)"
  shows "fst (sync_room_state_snapshot R of_text now' v s' w1) = fst (sync_room_state_snapshot R of_text now' v s' w) \<and>
    fst (get_user_locked_seats R now' s u w1) = fst (get_user_locked_seats R now' s u w) \<and>
    ZRANGE R seat_processing_queue_key None (Some now') (nodes w1 ! 0) =
      ZRANGE R seat_processing_queue_key None (Some now') (nodes w ! 0)"
proof -
  let ?i = "node_of s t (length (nodes w))"
  have w1: "w1 = w\<lparr>nodes := (nodes w)[?i := metadata_pipe R J s u (now + x) t (nodes w ! ?i)]\<rparr>"
    using assms(1,2,4)
    by (auto simp: update_seat_metadata_lua_def metadata_seat_def with_pool_def pool_for_seat_def writing_def)
  have same: "nodes w1 ! 0 = nodes w ! 0" "nodes w1 \<noteq> []" "faults w1 = []" using assms(1-3) by (simp_all add: w1)
  have "fst (sync_room_state_snapshot R of_text now' v s' w1) = fst (sync_room_state_snapshot R of_text now' v s' w)"
    using assms(1,2) same
    by (simp add: sync_room_state_snapshot_def user_locks_def snapshot_owners_no_faults writing_def reading_def case_prod_beta)
  moreover have "fst (get_user_locked_seats R now' s u w1) = fst (get_user_locked_seats R now' s u w)"
    using assms(1,2) same by (simp add: get_user_locked_seats_def with_pool_def reading_def)
  ultimately show ?thesis using same(1) by simp
qed

theorem lock_unseen_on_other_servers_witness:
  "node_of 5 1 2 \<noteq> 0 \<and>
   fst (sync_room_state_snapshot mem_redis (\<lambda>_. None) 101 7 5
     (snd (update_seat_metadata_lua mem_redis json_codec 100 5 [1] 7 300 (fresh_world 2)))) = ([], [])"
proof -
  obtain b w1 where w1: "update_seat_metadata_lua mem_redis json_codec 100 5 [1] 7 300 (fresh_world 2) = (b, w1)"
    by (metis surj_pair)
  have "dec 5 = ''5''" "dec 1 = ''1''" "crc16 (as_bytes ''5:1'') = 0xE279" by code_simp+
  then have n: "node_of 5 1 2 \<noteq> 0" by (simp add: node_of_def)
  have empty: "fst (sync_room_state_snapshot mem_redis (\<lambda>_. None) 101 7 5 (fresh_world 2)) = ([], [])"
    by (simp add: sync_room_state_snapshot_def user_locks_def writing_def reading_def mem_redis_def GETBITS_def
        bits_of_def zmap_entry_def zset_entry_def zset_of_def bitmap_snapshots_def List.map_filter_def)
  show ?thesis
    using lock_unseen_on_other_servers [OF _ _ _ w1, of "\<lambda>_. None" 101 7 5] n empty by (simp add: w1)
qed

section \<open>Verified seat metadata\<close>

lemma check_indices_Inr: "check_indices m ps = Inr x \<Longrightarrow> (t, i) \<in> set ps \<Longrightarrow> md_indices m t = Some i"
  by (induction ps) (auto split: if_splits)

lemma load_metadata_Inr:
  assumes "load_metadata s d = (Inr m, d')"
  shows "\<exists>r \<in> set (schedules (rows d)). sc_id r = s \<and> sc_deleted_at r = None \<and>
      sc_lifecycle_state r = ScheduleLifecycleState.Open"
    and "md_total m = int (length (seats_of s (rows d)))" and "md_indices m = map_of (seats_of s (rows d))"
proof -
  obtain ok d1 where d1: "db_get d = (ok, d1)" by (cases "db_get d")
  let ?q = "\<lambda>T. find (\<lambda>r. sc_id r = s \<and> sc_deleted_at r = None) (schedules T)"
  obtain x d2 where d2: "query ?q d1 = (x, d2)" by (cases "query ?q d1")
  obtain y d3 where d3: "query (seats_of s) d2 = (y, d3)" by (cases "query (seats_of s) d2")
  note rows = db_getD [OF d1] queryD [OF d2] queryD [OF d3]
  from assms d1 d2 d3 obtain r where x: "x = Some (Some r)" "sc_lifecycle_state r = ScheduleLifecycleState.Open"
    and y: "\<exists>xs. y = Some xs \<and> md_total m = int (length xs) \<and> md_indices m = map_of xs"
    by (auto simp: load_metadata_def split: if_splits option.splits)
  from x(1) rows have "find (\<lambda>r. sc_id r = s \<and> sc_deleted_at r = None) (schedules (rows d)) = Some r" by auto
  then have "r \<in> set (schedules (rows d))" "sc_id r = s" "sc_deleted_at r = None"
    by (auto simp: find_Some_iff)
  with x show "\<exists>r \<in> set (schedules (rows d)). sc_id r = s \<and> sc_deleted_at r = None \<and>
      sc_lifecycle_state r = ScheduleLifecycleState.Open" by blast
  from y rows show "md_total m = int (length (seats_of s (rows d)))" "md_indices m = map_of (seats_of s (rows d))"
    by auto
qed

lemma verified_Inr:
  assumes "verified_seat_metadata s ts idx n h = (Inr r, h1)"
  obtains m where "schedule_metadata h1 s = Some m" "metadata_cell s h = (Inr m, h1)" "r = (idx, n)" "n = md_total m"
    "ts \<noteq> []" "length ts = length idx" "check_indices m (zip ts idx) = Inr ()"
  using assms that
  by (auto simp: verified_seat_metadata_def metadata_cell_def split: if_splits sum.splits option.splits prod.splits)

text \<open>
  (metadata is never refreshed). Once a schedule's metadata has been loaded, a request that passed passes again
  whatever the database says: closing or deleting the schedule, or changing its seats, is not noticed by the
  websocket server until it restarts.
\<close>

theorem metadata_never_refreshed:
  assumes "verified_seat_metadata s ts idx n h = (Inr r, h1)"
  shows "verified_seat_metadata s ts idx n (h1\<lparr>ws_db := d, ws_world := w\<rparr>) = (Inr r, h1\<lparr>ws_db := d, ws_world := w\<rparr>)"
  using assms by (elim verified_Inr) (simp add: verified_seat_metadata_def metadata_cell_def)

definition hall_schedule :: "ScheduleLifecycleState \<Rightarrow> Schedule" where
  "hall_schedule st =
     \<lparr>sc_id = 5, sc_mongo_show_id = ''m'', sc_show_type = Movie, sc_layout_id = None, sc_start_time = 0,
      sc_booking_open_at = 0, sc_lifecycle_state = st, sc_created_at = 0, sc_deleted_at = None,
      sc_venue_name = None, sc_venue_address = None, sc_venue_city = None, sc_venue_state = None, sc_date = 0,
      sc_slot = Morning, sc_end_time = 0\<rparr>"

definition hall_seat :: ScheduleSeat where
  "hall_seat =
     \<lparr>ss_id = 11, ss_schedule_id = 5, ss_seat_index = 1, ss_layout_seat_id = None, ss_source = Base,
      ss_row_letter = ''A'', ss_seat_number = 1, ss_seat_class = Standard, ss_price = (100, 0),
      ss_status = Available, ss_booking_id = None\<rparr>"

definition hall_db :: "ScheduleLifecycleState \<Rightarrow> database" where
  "hall_db st =
     \<lparr>rows = \<lparr>users = [], schedules = [hall_schedule st], schedule_seats = [hall_seat], orders = [], tickets = [],
        user_audits = [], payment_requests = [], outbox_events = []\<rparr>, db_faults = []\<rparr>"

definition new_hooks :: "('r, json) world \<Rightarrow> database \<Rightarrow> ('r, 'c) WsHooks" where
  "new_hooks w d =
     \<lparr>ws_adapter = new_adapter, ws_world = w, ws_db = d, schedule_metadata = Map.empty, ws_tasks = Map.empty,
      ws_sent = []\<rparr>"

lemma hall_verified:
  "fst (verified_seat_metadata 5 [11] [1] 1 (new_hooks (fresh_world 1) (hall_db ScheduleLifecycleState.Open))) = Inr ([1], 1)"
  by (simp add: verified_seat_metadata_def metadata_cell_def load_metadata_def new_hooks_def hall_db_def hall_schedule_def
      hall_seat_def seats_of_def in_i32_def)

theorem metadata_never_refreshed_witness:
  "\<exists>h1. verified_seat_metadata 5 [11] [1] 1
      (new_hooks (fresh_world 1) (hall_db ScheduleLifecycleState.Open) :: (keyspace, nat) WsHooks) = (Inr ([1], 1), h1) \<and>
    fst (verified_seat_metadata 5 [11] [1] 1 (h1\<lparr>ws_db := hall_db ScheduleLifecycleState.Closed, ws_world := fresh_world 1\<rparr>)) = Inr ([1], 1)"
proof -
  obtain h1 where run: "verified_seat_metadata 5 [11] [1] 1
      (new_hooks (fresh_world 1) (hall_db ScheduleLifecycleState.Open) :: (keyspace, nat) WsHooks) = (Inr ([1], 1), h1)"
    using hall_verified by (metis prod.collapse)
  from metadata_never_refreshed [OF run] run show ?thesis by simp
qed

section \<open>Replies stay with their user\<close>

text \<open>The server's events in the order they happen: sockets, their frames, and the messages of the subscription.\<close>

datatype 'c ws_event =
    WsOpen string user_id 'c
  | WsFrame int string string
  | WsClose string
  | WsRedis string "json option"

fun ws_step ::
    "'r redis \<Rightarrow> (string \<Rightarrow> json option) \<Rightarrow> 'g GrpcLockClient \<Rightarrow> 'c ws_event \<Rightarrow> ('r, 'c) WsHooks \<times> 'g \<Rightarrow>
     ('r, 'c) WsHooks \<times> 'g" where
  "ws_step R of_text G (WsOpen x u tx) (h, g) = (open_socket x u tx h, g)"
| "ws_step R of_text G (WsFrame now x frame) (h, g) = handle_text R of_text G now x frame (h, g)"
| "ws_step R of_text G (WsClose x) (h, g) = (close_socket x h, g)"
| "ws_step R of_text G (WsRedis channel payload) (h, g) = (ws_send (on_message channel payload (ws_adapter h)) h, g)"

definition ws_run ::
    "'r redis \<Rightarrow> (string \<Rightarrow> json option) \<Rightarrow> 'g GrpcLockClient \<Rightarrow> 'c ws_event list \<Rightarrow> ('r, 'c) WsHooks \<times> 'g \<Rightarrow>
     ('r, 'c) WsHooks \<times> 'g" where
  "ws_run R of_text G es hg = fold (ws_step R of_text G) es hg"

definition opened :: "'c ws_event list \<Rightarrow> string list" where
  "opened es = List.map_filter (\<lambda>e. case e of WsOpen x _ _ \<Rightarrow> Some x | _ \<Rightarrow> None) es"

definition ws_ok :: "string set \<Rightarrow> ('r, 'c) WsHooks \<Rightarrow> bool" where
  "ws_ok X h \<longleftrightarrow> (\<exists>g. adapter_sim (ws_adapter h) g \<and> seen g \<subseteq> X \<and>
     ws_tasks h = (\<lambda>x. map_option (\<lambda>(u, c, S). (u, c)) (conns g x)))"

lemma ws_publish_sel [simp]:
  "ws_adapter (ws_publish ch e h) = ws_adapter h" "ws_tasks (ws_publish ch e h) = ws_tasks h"
  "ws_sent (ws_publish ch e h) = ws_sent h"
  by (simp_all add: ws_publish_def)

lemma ws_send_sel [simp]:
  "ws_adapter (ws_send ms h) = ws_adapter h" "ws_tasks (ws_send ms h) = ws_tasks h"
  "ws_sent (ws_send ms h) = ws_sent h @ ms"
  by (simp_all add: ws_send_def)

lemma ws_ok_cong: "ws_adapter h' = ws_adapter h \<Longrightarrow> ws_tasks h' = ws_tasks h \<Longrightarrow> ws_ok X h' = ws_ok X h"
  by (simp add: ws_ok_def)

lemma metadata_cell_sel:
  "metadata_cell s h = (r, h') \<Longrightarrow> ws_adapter h' = ws_adapter h \<and> ws_tasks h' = ws_tasks h \<and> ws_sent h' = ws_sent h"
  by (auto simp: metadata_cell_def split: option.splits prod.splits sum.splits)

lemma verified_sel:
  "verified_seat_metadata s ts idx n h = (r, h') \<Longrightarrow>
   ws_adapter h' = ws_adapter h \<and> ws_tasks h' = ws_tasks h \<and> ws_sent h' = ws_sent h"
  by (auto simp: verified_seat_metadata_def dest: metadata_cell_sel split: if_splits prod.splits sum.splits)

text \<open>What a frame of user \<open>u\<close> may do: sockets come and go elsewhere, and every new message is for \<open>u\<close>.\<close>

definition only_replies :: "user_id \<Rightarrow> ('r, 'c) WsHooks \<Rightarrow> ('r, 'c) WsHooks \<Rightarrow> bool" where
  "only_replies u h h' \<longleftrightarrow> ws_tasks h' = ws_tasks h \<and>
     (\<exists>ms. ws_sent h' = ws_sent h @ ms \<and> (\<forall>(c, msg) \<in> set ms. \<exists>y. ws_tasks h y = Some (u, c)))"

lemma reply_member:
  assumes "ws_ok X h" "(c, m) \<in> set (send_to_user_local u msg (ws_adapter h))"
  shows "\<exists>y. ws_tasks h y = Some (u, c)"
proof -
  from assms(1) obtain g where g: "adapter_sim (ws_adapter h) g"
    "ws_tasks h = (\<lambda>x. map_option (\<lambda>(u, c, S). (u, c)) (conns g x))" by (auto simp: ws_ok_def)
  from assms(2) obtain xs where "user_sockets (ws_adapter h) u = Some xs" "(c, m) \<in> set (send_each msg (ws_adapter h) xs)"
    by (cases "user_sockets (ws_adapter h) u") (auto simp: send_to_user_local_def)
  then obtain x where x: "x \<in> set (members (user_sockets (ws_adapter h)) u)" "sockets (ws_adapter h) x = Some c"
    by (auto simp: send_each_def set_map_filter members_def)
  from x(1) adapter_simD(2) [OF g(1)] obtain c' S where "conns g x = Some (u, c', S)" by blast
  with x(2) adapter_simD(1) [OF g(1), of x] have "ws_tasks h x = Some (u, c)" by (simp add: g(2))
  then show ?thesis by blast
qed

lemma only_replies_reply:
  assumes "ws_ok X h'" "ws_tasks h' = ws_tasks h" "ws_sent h' = ws_sent h"
  shows "only_replies u h (reply_to u msg h')"
  using reply_member [OF assms(1)] assms(2,3) by (fastforce simp: only_replies_def reply_to_def)

lemma ws_ok_subscribe:
  assumes "ws_ok X h" "ws_tasks h x = Some (u, c)"
  shows "ws_ok X (h\<lparr>ws_adapter := subscribe_local x s (ws_adapter h)\<rparr>)"
    and "ws_ok X (h\<lparr>ws_adapter := unsubscribe_local x s (ws_adapter h)\<rparr>)"
proof -
  from assms(1) obtain g where g: "adapter_sim (ws_adapter h) g" "seen g \<subseteq> X"
    "ws_tasks h = (\<lambda>x. map_option (\<lambda>(u, c, S). (u, c)) (conns g x))" by (auto simp: ws_ok_def)
  from g(1) g(3) assms(2) have "x \<in> seen g" by (auto simp: adapter_sim_def)
  note sim = sim_Join [OF g(1) this, of s] sim_Leave [OF g(1) this, of s]
  have tasks: "(\<lambda>y. map_option (\<lambda>(u, c, S). (u, c)) (conns (conn_change x f g) y)) = ws_tasks h"
    "seen (conn_change x f g) = seen g" for f
    by (auto simp: g(3) conn_change_def split: option.split)
  show "ws_ok X (h\<lparr>ws_adapter := subscribe_local x s (ws_adapter h)\<rparr>)"
    "ws_ok X (h\<lparr>ws_adapter := unsubscribe_local x s (ws_adapter h)\<rparr>)"
    unfolding ws_ok_def using sim tasks g(2) by (auto intro!: exI)
qed

lemma frame_effect:
  fixes h :: "('r, 'c) WsHooks"
  assumes "ws_ok X h" "ws_tasks h x = Some (u, c)" "handle_text R of_text G now x frame (h, g) = (h', g')"
  shows "ws_ok X h' \<and> only_replies u h h'"
proof -
  have id: "ws_ok X h \<and> only_replies u h h" using assms(1) by (simp add: only_replies_def)
  have reply: "ws_ok X (reply_to u msg h1) \<and> only_replies u h (reply_to u msg h1)"
    if "ws_ok X h1" "ws_tasks h1 = ws_tasks h" "ws_sent h1 = ws_sent h" for msg and h1 :: "('r, 'c) WsHooks"
    using that only_replies_reply [OF that] ws_ok_cong [of "reply_to u msg h1" h1 X] by (simp add: reply_to_def)
  have same: "ws_ok X h1 \<and> only_replies u h h1"
    if "ws_adapter h1 = ws_adapter h \<and> ws_tasks h1 = ws_tasks h \<and> ws_sent h1 = ws_sent h" for h1 :: "('r, 'c) WsHooks"
    using that assms(1) ws_ok_cong [of h1 h X] by (simp add: only_replies_def)
  show ?thesis
  proof (cases "Option.bind (of_text frame) request_of_json")
    case None
    with assms id show ?thesis by (simp add: handle_text_def)
  next
    case (Some req)
    with assms have d: "dispatch R of_text G now u x req (h, g) = (h', g')" by (simp add: handle_text_def)
    show ?thesis
    proof (cases req)
      case (Subscribe s)
      obtain seats locked w where "sync_room_state_snapshot R of_text now u s (ws_world h) = ((seats, locked), w)"
        by (metis surj_pair)
      with d Subscribe have "\<exists>msg. h' = reply_to u msg
          ((h\<lparr>ws_adapter := subscribe_local x s (ws_adapter h)\<rparr>)\<lparr>ws_world := w\<rparr>)"
        by (auto simp: on_subscribe_def send_room_state_snapshot_def)
      with reply [of "(h\<lparr>ws_adapter := subscribe_local x s (ws_adapter h)\<rparr>)\<lparr>ws_world := w\<rparr>"]
        ws_ok_subscribe(1) [OF assms(1,2), of s] show ?thesis by (auto simp: ws_ok_def)
    next
      case (Unsubscribe s)
      with d ws_ok_subscribe(2) [OF assms(1,2), of s] show ?thesis
        by (auto simp: on_unsubscribe_def only_replies_def)
    next
      case (SyncLocks s)
      obtain locked w where "sync_locks_from_zset R of_text now u s (ws_world h) = (locked, w)"
        by (metis surj_pair)
      with d SyncLocks have "\<exists>msg. h' = reply_to u msg (h\<lparr>ws_world := w\<rparr>)"
        by (auto simp: on_sync_locks_request_def)
      with reply [of "h\<lparr>ws_world := w\<rparr>"] assms(1) show ?thesis by (auto simp: ws_ok_def)
    next
      case (LockSeatsReq s ts idx n)
      obtain r h1 where v: "verified_seat_metadata s ts idx n h = (r, h1)" by (metis surj_pair)
      note h1 = verified_sel [OF v]
      have ok1: "ws_ok X h1" using h1 ws_ok_cong [of h1 h X] assms(1) by simp
      from d v LockSeatsReq have "h' = h1 \<or> (\<exists>msg. h' = reply_to u msg h1)"
        by (auto simp: on_lock_request_def split: sum.splits prod.splits)
      with reply [OF ok1] same [OF h1] h1 show ?thesis by auto
    next
      case (UnlockSeatsReq s ts idx n)
      obtain r h1 where v: "verified_seat_metadata s ts idx n h = (r, h1)" by (metis surj_pair)
      note h1 = verified_sel [OF v]
      have ok1: "ws_ok X h1" using h1 ws_ok_cong [of h1 h X] assms(1) by simp
      from d v UnlockSeatsReq have "\<exists>msg. h' = reply_to u msg h1"
        by (auto simp: on_unlock_request_def split: sum.splits prod.splits)
      with reply [OF ok1] h1 show ?thesis by auto
    qed
  qed
qed

lemma ws_step_ok:
  assumes "ws_ok X h" "\<And>x u c. e = WsOpen x u c \<Longrightarrow> x \<notin> X" "ws_step R of_text G e (h, g) = (h', g')"
  shows "ws_ok (X \<union> set (opened [e])) h'"
proof (cases e)
  case (WsOpen x u tx)
  from assms(1) obtain r where r: "adapter_sim (ws_adapter h) r" "seen r \<subseteq> X"
    "ws_tasks h = (\<lambda>x. map_option (\<lambda>(u, c, S). (u, c)) (conns r x))" by (auto simp: ws_ok_def)
  have "x \<notin> seen r" using r(2) assms(2) WsOpen by auto
  from sim_Attach [OF r(1) this] r(2,3) assms(3) WsOpen show ?thesis
    by (auto simp: ws_ok_def open_socket_def on_register_def publish_global_def opened_def List.map_filter_def
        intro!: exI [of _ "r\<lparr>conns := (conns r)(x \<mapsto> (u, tx, {})), seen := insert x (seen r)\<rparr>"])
next
  case (WsFrame now x frame)
  show ?thesis
  proof (cases "ws_tasks h x")
    case None
    with assms(1,3) WsFrame show ?thesis by (simp add: handle_text_def opened_def List.map_filter_def)
  next
    case (Some p)
    then have "ws_tasks h x = Some (fst p, snd p)" by simp
    from frame_effect [OF assms(1) this, of R of_text G now frame g h' g'] WsFrame assms(3) show ?thesis
      by (simp add: opened_def List.map_filter_def)
  qed
next
  case (WsClose x)
  show ?thesis
  proof (cases "ws_tasks h x")
    case None
    with assms(1,3) WsClose show ?thesis by (simp add: close_socket_def opened_def List.map_filter_def)
  next
    case (Some p)
    then obtain u c where x: "ws_tasks h x = Some (u, c)" by (cases p) auto
    from assms(1) obtain r where r: "adapter_sim (ws_adapter h) r" "seen r \<subseteq> X"
      "ws_tasks h = (\<lambda>x. map_option (\<lambda>(u, c, S). (u, c)) (conns r x))" by (auto simp: ws_ok_def)
    from x r(3) obtain S where "conns r x = Some (u, c, S)" by auto
    from sim_Detach [OF r(1) this] r(2,3) x assms(3) WsClose show ?thesis
      by (auto simp: ws_ok_def close_socket_def on_disconnect_def publish_global_def opened_def List.map_filter_def
          intro!: exI [of _ "r\<lparr>conns := (conns r)(x := None)\<rparr>"])
  qed
next
  case (WsRedis ch p)
  with assms(1,3) show ?thesis by (auto simp: ws_ok_def opened_def List.map_filter_def)
qed

lemma opened_Cons: "opened (e # es) = opened [e] @ opened es"
  by (simp add: opened_def List.map_filter_def)

lemma ws_run_ok:
  assumes "ws_ok X h" "distinct (opened es)" "set (opened es) \<inter> X = {}" "ws_run R of_text G es (h, g) = (h', g')"
  shows "ws_ok (X \<union> set (opened es)) h'"
  using assms
proof (induction es arbitrary: X h g)
  case Nil
  then show ?case by (simp add: ws_run_def opened_def List.map_filter_def)
next
  case (Cons e es)
  obtain h1 g1 where 1: "ws_step R of_text G e (h, g) = (h1, g1)" by (metis surj_pair)
  have fresh: "x \<notin> X" if "e = WsOpen x u c" for x u c
    using Cons.prems(3) that by (auto simp: opened_def List.map_filter_def)
  from ws_step_ok [OF Cons.prems(1) fresh 1] have ok: "ws_ok (X \<union> set (opened [e])) h1" .
  from Cons.prems(4) 1 have "ws_run R of_text G es (h1, g1) = (h', g')" by (simp add: ws_run_def)
  from Cons.IH [OF ok _ _ this] Cons.prems(2,3) show ?case
    unfolding opened_Cons [of e es] by (auto simp: Un_assoc)
qed

text \<open>
  C14 (replies stay with their user). Whatever sockets, frames and Redis messages the server has handled since it started,
  the next frame of a socket makes it send messages only to connections of the user that socket was opened for.
\<close>

theorem ws_replies_stay_with_user:
  fixes h :: "('r, 'c) WsHooks" and w :: "('r, json) world"
  assumes "distinct (opened es)" "ws_run R of_text G es (new_hooks w d, g0) = (h, g)"
    and "ws_tasks h x = Some (u, c)" "ws_step R of_text G (WsFrame now x frame) (h, g) = (h', g')"
  shows "\<exists>ms. ws_sent h' = ws_sent h @ ms \<and> (\<forall>(c', msg) \<in> set ms. \<exists>y. ws_tasks h y = Some (u, c'))"
proof -
  have "ws_ok {} (new_hooks w d :: ('r, 'c) WsHooks)"
    using sim_new by (auto simp: ws_ok_def new_hooks_def new_registry_def intro!: exI [of _ new_registry])
  from ws_run_ok [OF this assms(1) _ assms(2)] have "ws_ok (set (opened es)) h" by simp
  from frame_effect [OF this assms(3), of R of_text G now frame g h' g'] assms(4)
  show ?thesis by (simp add: only_replies_def)
qed

definition idle_gateway :: "unit GrpcLockClient" where
  "idle_gateway = \<lparr>gr_lock_slot = (\<lambda>_ _ _ g. (Inl ''unavailable'', g)), gr_unlock_slot = (\<lambda>_ _ _ g. (Inl ''unavailable'', g))\<rparr>"

definition sync_frame :: "string \<Rightarrow> json option" where
  "sync_frame _ = Some (JObj [(''type'', JStr ''SyncLocks''), (''room_id'', JInt 5)])"

theorem ws_replies_stay_with_user_witness:
  "let (h, g) = ws_run mem_redis sync_frame idle_gateway [WsOpen ''a'' 7 (0::nat), WsOpen ''b'' 8 1]
         (new_hooks (fresh_world 1) (hall_db ScheduleLifecycleState.Open), ());
       (h', g') = ws_step mem_redis sync_frame idle_gateway (WsFrame 100 ''a'' []) (h, g)
   in length (ws_sent h') = Suc (length (ws_sent h)) \<and>
      (\<exists>ms. ws_sent h' = ws_sent h @ ms \<and> list_all (\<lambda>(c', msg). \<exists>y. ws_tasks h y = Some (7, c')) ms)"
proof -
  let ?es = "[WsOpen ''a'' 7 (0::nat), WsOpen ''b'' 8 1]"
  obtain h g where run: "ws_run mem_redis sync_frame idle_gateway ?es
      (new_hooks (fresh_world 1) (hall_db ScheduleLifecycleState.Open), ()) = (h, g)" by (metis surj_pair)
  obtain h' g' where step: "ws_step mem_redis sync_frame idle_gateway (WsFrame 100 ''a'' []) (h, g) = (h', g')"
    by (metis surj_pair)
  have h: "ws_tasks h ''a'' = Some (7, 0)" "ws_adapter h = fst (adapter_step (Attach ''b'' 8 1)
      (add_local_connection ''a'' 7 0 new_adapter, True))"
    using run by (auto simp: ws_run_def open_socket_def on_register_def publish_global_def new_hooks_def)
  have req: "request_of_json (JObj [(''type'', JStr ''SyncLocks''), (''room_id'', JInt 5)]) = Some (SyncLocks 5)"
    by (simp add: request_of_json_def in_i32_def)
  obtain locked w where "sync_locks_from_zset mem_redis sync_frame 100 7 5 (ws_world h) = (locked, w)"
    by (metis surj_pair)
  with step have "length (ws_sent h') = Suc (length (ws_sent h))"
    by (auto simp: handle_text_def h sync_frame_def req on_sync_locks_request_def reply_to_def ws_send_def
        send_to_user_local_def send_each_def List.map_filter_def add_local_connection_def set_insert_def new_adapter_def)
  moreover have "distinct (opened ?es)" by (simp add: opened_def List.map_filter_def)
  ultimately show ?thesis
    unfolding Let_def run case_prod_conv step using ws_replies_stay_with_user [OF _ run h(1) step] by (simp add: list_all_iff)
qed

section \<open>Refused lock requests\<close>

text \<open>The gateway behind the server: its own gRPC handlers, at a moment of its clocks.\<close>

definition gateway_client :: "'r redis \<Rightarrow> int \<Rightarrow> int \<Rightarrow> 'r gateway GrpcLockClient" where
  "gateway_client R unix_now now_ms =
     \<lparr>gr_lock_slot = lock_slot R unix_now now_ms, gr_unlock_slot = unlock_slot R unix_now now_ms\<rparr>"

definition idle_actors :: "'r gateway \<Rightarrow> bool" where
  "idle_actors g \<longleftrightarrow> (\<forall>s a. actor_of s g = Some a \<longrightarrow> sender a = [])"

lemma lock_submit_queue:
  assumes "gw_ok R g" "idle_actors g" "lock_submit R n u s ts idx c g = (sub, g1)"
  shows "rmq g1 = rmq g"
    and "sub = Queued adm failed \<Longrightarrow> \<exists>a. actor_of s g1 = Some a \<and> sender a = [TLock u adm]"
proof -
  obtain r g0 where r: "get_or_create_show_actor R n s c g = (r, g0)"
    by (cases "get_or_create_show_actor R n s c g")
  note fr = get_or_create_frame [OF r] and ok = get_or_create_ok(1) [OF r assms(1)]
  have idle: "sender a = []" if "actor_of s g0 = Some a" for a
    using fr(4) assms(2) that by (auto simp: idle_actors_def new_actor_def)
  have goal: "rmq g1 = rmq g \<and> (\<forall>adm failed. sub = Queued adm failed \<longrightarrow>
      (\<exists>a. actor_of s g1 = Some a \<and> sender a = [TLock u adm]))"
  proof (cases "length ts = length idx \<and> (\<exists>a a1. r = Inr a \<and> begin_request n a = Inr a1)")
    case False
    with assms(3) r fr(2) show ?thesis by (auto simp: lock_submit_def split: sum.splits if_splits)
  next
    case True
    then obtain a a1 where a: "r = Inr a" "begin_request n a = Inr a1" and len: "length ts = length idx" by blast
    have act: "actor_of s g0 = Some a" using fr(5) a(1) .
    have a1: "actor_ok a1" "sender a1 = []"
      using begin_request_Inr [OF a(2)] idle [OF act] ok act by (auto simp: gw_ok_def actors_ok_def)
    obtain q a2 where q: "register_all (zip ts idx) a1 = (q, a2)" by (metis surj_pair)
    note reg = register_all_spec [OF a1(1) q]
    show ?thesis
    proof (cases q)
      case (Inl e)
      with assms(3) r a len q fr(2) show ?thesis by (auto simp: lock_submit_def)
    next
      case (Inr seats)
      obtain adm failed a3 where ad: "admit_all seats a2 = ((adm, failed), a3)" by (metis surj_pair)
      have "sender a3 = []" using admit_all_spec [OF _ _ ad] reg Inr a1(2) by auto
      with assms(3) r a len q Inr ad fr(2) show ?thesis
        by (auto simp: lock_submit_def clear_admission_def split: if_splits)
    qed
  qed
  then show "rmq g1 = rmq g" "sub = Queued adm failed \<Longrightarrow> \<exists>a. actor_of s g1 = Some a \<and> sender a = [TLock u adm]"
    by blast+
qed

lemma lock_refused_queue:
  assumes "gw_ok R g" "idle_actors g" "lock R n m u s ts idx c g = (Inr res, g')" "locked_seat_ids res = []"
  shows "rmq g' = rmq g"
proof -
  obtain sub g1 where sub: "lock_submit R n u s ts idx c g = (sub, g1)" by (metis surj_pair)
  note q = lock_submit_queue [OF assms(1,2) sub]
  show ?thesis
  proof (cases sub)
    case (Answered r)
    with assms(3) sub q(1) show ?thesis by (simp add: lock_def)
  next
    case (Queued adm failed)
    with q(2) obtain a where a: "actor_of s g1 = Some a" "sender a = [TLock u adm]" by blast
    obtain res1 g2 where ap: "acquire_and_publish R m u s adm (upd_actor s (\<lambda>a. a\<lparr>sender := []\<rparr>) g1) = (res1, g2)"
      by (metis surj_pair)
    have "locked_seat_ids res1 = []" "rmq g' = rmq g2"
      using assms(3,4) sub Queued a ap
      by (auto simp: lock_def run_show_actor_def lock_finish_def clear_admission_def split: prod.splits)
    moreover have "rmq g2 = rmq g1" if "locked_seat_ids res1 = []"
      using ap that by (auto simp: acquire_and_publish_def Let_def split: prod.splits if_splits)
    ultimately show ?thesis using q(1) by simp
  qed
qed

text \<open>
  (a refused lock request is not answered). A request that passes the metadata check and of which the gateway locks no
  seat leaves no trace for the client: the websocket server sends nothing, and no message is queued from
  which the lock server could announce an outcome later.
\<close>

theorem refused_lock_unanswered:
  assumes "verified_seat_metadata s ts idx n h = (Inr (idx', n'), h1)"
    and "gw_ok R g" "idle_actors g"
    and "lock_slot R unix_now now_ms u s (slot_request ts idx' n') g = (Inr res, g')" "\<not> success res"
  shows "on_lock_request (gateway_client R unix_now now_ms) u s ts idx n (h, g) = (h1, g') \<and>
    ws_sent h1 = ws_sent h \<and> rmq g' = rmq g"
proof -
  obtain r where r: "lock R unix_now now_ms u s ts idx' n' g = (Inr r, g')" "locked_seat_ids r = []"
    using assms(4,5) by (auto simp: lock_slot_def slot_request_def split: if_splits prod.splits sum.splits)
  note queue = lock_refused_queue [OF assms(2,3) r]
  show ?thesis
    using assms(1,4) verified_sel [OF assms(1)] queue by (simp add: on_lock_request_def gateway_client_def)
qed

text \<open>A gateway whose connection is refused when it takes the lock.\<close>

definition refusing_gateway :: "keyspace gateway" where
  "refusing_gateway = empty_gateway\<lparr>net := \<lparr>nodes = [Map.empty], faults = [Delivered, Delivered, Refused], published = []\<rparr>\<rparr>"

theorem refused_lock_unanswered_witness:
  "\<exists>h1 g'. on_lock_request (gateway_client mem_redis 0 0) 7 5 [11] [1] 1
       (new_hooks (fresh_world 1) (hall_db ScheduleLifecycleState.Open) :: (keyspace, nat) WsHooks, refusing_gateway) = (h1, g') \<and>
     ws_sent h1 = [] \<and> locking_queue (rmq g') = []"
proof -
  let ?h = "new_hooks (fresh_world 1) (hall_db ScheduleLifecycleState.Open) :: (keyspace, nat) WsHooks"
  obtain h1 where v: "verified_seat_metadata 5 [11] [1] 1 ?h = (Inr ([1], 1), h1)"
    using hall_verified by (metis prod.collapse)
  have f: "fst (lock_slot mem_redis 0 0 7 5 (slot_request [11] [1] 1) refusing_gateway) =
      Inr \<lparr>success = False, lr_locked = [], lr_failed = [11]\<rparr>"
    by (simp add: lock_slot_def slot_request_def slot_request_invalid_def refusing_gateway_def gateway_eval
        pool_get_def send_def next_fault_def Let_def)
  then obtain g' where l: "lock_slot mem_redis 0 0 7 5 (slot_request [11] [1] 1) refusing_gateway =
      (Inr \<lparr>success = False, lr_locked = [], lr_failed = [11]\<rparr>, g')" by (metis prod.collapse)
  have ok: "gw_ok mem_redis refusing_gateway" "idle_actors refusing_gateway"
    by (simp_all add: refusing_gateway_def gw_ok_def actors_ok_def empty_gateway_def actor_of_def idle_actors_def
        sn_ok_def lock_cell_def mem_redis_simps)
  from refused_lock_unanswered [OF v ok l] show ?thesis
    by (simp add: refusing_gateway_def empty_gateway_def new_hooks_def)
qed

section \<open>The outcome of a lock request\<close>

lemma send_keeps_published: "send i c w = (r, w') \<Longrightarrow> published w' = published w"
  by (auto simp: send_def next_fault_def Let_def split: prod.splits list.splits fault.splits)

lemma metadata_loop_no_faults:
  assumes "faults w = []" "nodes w \<noteq> []" "\<forall>t \<in> set ts. in_i32 t \<and> 0 \<le> t"
    and "metadata_loop R J s u x ts b w = (b', w')"
  shows "b' = b \<and> faults w' = [] \<and> nodes w' \<noteq> [] \<and> published w' = published w"
  using assms
proof (induction ts arbitrary: b w)
  case Nil
  then show ?case by simp
next
  case (Cons t ts)
  obtain ok w1 where 1: "metadata_seat R J s u x t w = (ok, w1)" by (metis surj_pair)
  have "bit_offset t < 2 ^ 32" using Cons.prems(3) by (intro bit_offset_small) auto
  with 1 Cons.prems(1,2) have w1: "ok" "faults w1 = []" "nodes w1 \<noteq> []" "published w1 = published w"
    by (auto simp: metadata_seat_def with_pool_def pool_for_seat_def)
  from Cons.IH [OF w1(2,3), of "b \<and> ok"] Cons.prems(3,4) 1 w1 show ?case by simp
qed

lemma ls_publish_no_faults:
  "faults w = [] \<Longrightarrow> ls_publish ch e w = w\<lparr>published := (0, ch, event_json e) # published w\<rparr>"
  by (simp add: ls_publish_def publish_node_def)

lemma fold_publish_locked:
  "faults w = [] \<Longrightarrow> fold (\<lambda>t. publish_room_event (SeatLocked u s t)) ts w =
     w\<lparr>published := rev (map (\<lambda>t. (0, room_channel s, event_json (SeatLocked u s t))) ts) @ published w\<rparr>"
  by (induction ts arbitrary: w) (simp_all add: publish_room_event_def ls_publish_no_faults)

lemma room_channel_prefix: "strip_prefix ''room:'' (room_channel s) = Some (dec s)"
  by (simp add: strip_prefix_def room_channel_def)

lemma global_channel_prefix: "strip_prefix ''room:'' global_events_channel = None"
  by (simp add: strip_prefix_def global_events_channel_def)

text \<open>
  C13 (the outcome reaches the user). Without faults, when the lock server has handled a lock message it has announced the
  seats to the room and the outcome to the user; a websocket server that listens delivers the outcome once
  to each connection of that user and to nobody else, and each seat once to every connection following the
  show.
\<close>

theorem lock_outcome_reaches_user:
  assumes "faults w = []" "nodes w \<noteq> []" "sm_action m \<noteq> ''unlock''"
    and "in_i32 (sm_user m)" "in_i32 (sm_showtime m)" "\<forall>t \<in> set (sm_seats m). in_i32 t \<and> 0 \<le> t"
    and "adapter_sim a g"
  shows "\<exists>told. published (process_lock_request (single_node_lock R J) now m w) = rev told @ published w \<and>
    map (\<lambda>(node, channel, payload). mset (on_message channel (Some payload) a)) told =
      map (\<lambda>t. spec_deliver (\<lambda>_ S. sm_showtime m \<in> S,
          JObj [(''event'', JStr ''seat_locked''), (''seat_id'', JInt t), (''showtime_id'', JInt (sm_showtime m)),
            (''user_id'', JInt (sm_user m))]) g) (sm_seats m) @
      [spec_deliver (\<lambda>v _. v = sm_user m, lock_slots_notice (sm_showtime m) True (sm_seats m) []) g]"
proof -
  let ?s = "sm_showtime m" and ?u = "sm_user m" and ?ts = "sm_seats m"
  obtain b w1 where meta: "update_seat_metadata_lua R J (now div 1000) ?s ?ts ?u LOCK_TTL_SECS w = (b, w1)"
    by (metis surj_pair)
  from metadata_loop_no_faults [OF assms(1,2,6) meta [unfolded update_seat_metadata_lua_def]]
  have b: "b" "faults w1 = []" "published w1 = published w" by auto
  let ?told = "map (\<lambda>t. (0, room_channel ?s, event_json (SeatLocked ?u ?s t))) ?ts @
    [(0, global_events_channel, event_json (LockSlotsResponse ?u ?s True ?ts []))]"
  have "metadata_retry (single_node_lock R J) now m 0 3 w = (True, w1)"
    using meta b(1) by (simp add: numeral_3_eq_3)
  then have "published (process_lock_request (single_node_lock R J) now m w) = rev ?told @ published w"
    using assms(3) b by (simp add: process_lock_request_def Let_def fold_publish_locked publish_global_event_def
        ls_publish_no_faults)
  moreover have "event_of_json (event_json (LockSlotsResponse ?u ?s True ?ts [])) = Some (LockSlotsResponse ?u ?s True ?ts [])"
    using assms(4-6) by (intro event_of_json_event_json) (simp add: list_all_iff)
  moreover have "event_of_json (event_json (SeatLocked ?u ?s t)) = Some (SeatLocked ?u ?s t)" if "t \<in> set ?ts" for t
    using assms(4-6) that by (intro event_of_json_event_json) simp
  ultimately show ?thesis
    using assms(5)
    by (intro exI [of _ ?told])
      (simp add: on_message_spec [OF assms(7)] audience_def room_channel_prefix global_channel_prefix room_notice_def
        del: event_json.simps)
qed

definition lock_message :: SeatLockMessage where
  "lock_message = \<lparr>sm_action = ''lock'', sm_user = 7, sm_showtime = 5, sm_seats = [11], sm_timestamp = 0\<rparr>"

theorem lock_outcome_reaches_user_witness:
  "\<exists>told. published (process_lock_request (single_node_lock mem_redis json_codec) 0 lock_message (fresh_world 1)) = rev told \<and>
     map (\<lambda>(node, channel, payload). mset (on_message channel (Some payload)
         (subscribe_local ''a'' 5 (add_local_connection ''a'' 7 (0::nat) new_adapter)))) told =
       [{#(0, JObj [(''event'', JStr ''seat_locked''), (''seat_id'', JInt 11), (''showtime_id'', JInt 5),
            (''user_id'', JInt 7)])#},
        {#(0, lock_slots_notice 5 True [11] [])#}]"
proof -
  let ?g = "\<lparr>conns = [''a'' \<mapsto> (7, 0::nat, {5})], seen = {''a''}\<rparr>"
  have "adapter_sim (add_local_connection ''a'' 7 (0::nat) new_adapter) \<lparr>conns = [''a'' \<mapsto> (7, 0, {})], seen = {''a''}\<rparr>"
    using sim_Attach [OF sim_new, of "''a''" 7 0] by (simp add: new_registry_def)
  from sim_Join [OF this, of "''a''" 5] have sim:
    "adapter_sim (subscribe_local ''a'' 5 (add_local_connection ''a'' 7 (0::nat) new_adapter)) ?g"
    by (simp add: conn_change_def)
  have who: "{x. conn_member (\<lambda>_ S. 5 \<in> S) ?g x} = {''a''}" "{x. conn_member (\<lambda>v _. v = 7) ?g x} = {''a''}"
    by (auto simp: conn_member_def split: if_splits)
  have send: "conn_sender ?g ''a'' = 0" by (simp add: conn_sender_def)
  have m: "sm_action lock_message \<noteq> ''unlock''" "in_i32 (sm_user lock_message)" "in_i32 (sm_showtime lock_message)"
    "\<forall>t \<in> set (sm_seats lock_message). in_i32 t \<and> 0 \<le> t" by (simp_all add: lock_message_def in_i32_def)
  from lock_outcome_reaches_user [OF _ _ m sim, of "fresh_world 1" mem_redis json_codec 0]
  show ?thesis by (simp add: lock_message_def spec_deliver_def who send)
qed

end
