(* ===== verification/Schedules_Props.thy ===== *)
theory Schedules_Props
  imports Schedules_Admin Ws_Server_Props
begin

text \<open>
  Properties of the schedule administration. The inventory of a schedule is an invariant of every run of the
  admin handlers under any faults: seat indices are exactly 1 to the number of seats, seats are only added
  before the schedule opens, the life cycle only moves forward. On it rest the gateway's fixed seat arrays
  and the websocket server's cached metadata. Then the announcement of a closing, and where it can go wrong.
\<close>

section \<open>The inventory\<close>

definition dense :: "schedule_id \<Rightarrow> tables \<Rightarrow> bool" where
  "dense s T \<longleftrightarrow> set (map ss_seat_index (seats_in s T)) = {1..int (length (seats_in s T))}"

definition inventory :: "tables \<Rightarrow> bool" where
  "inventory T \<longleftrightarrow> tables_ok T \<and> (\<forall>s. dense s T) \<and>
     ss_schedule_id ` set (schedule_seats T) \<subseteq> sc_id ` set (schedules T) \<and>
     (\<forall>r \<in> set (schedules T). sc_deleted_at r \<noteq> None \<longrightarrow> sc_lifecycle_state r = ScheduleLifecycleState.Closed)"

text \<open>What identifies a seat for the gateway, and the order of the life cycle.\<close>

definition seat_ident :: "ScheduleSeat \<Rightarrow> seat_id \<times> int \<times> string \<times> int" where
  "seat_ident r = (ss_id r, ss_seat_index r, ss_row_letter r, ss_seat_number r)"

fun stage :: "ScheduleLifecycleState \<Rightarrow> nat" where
  "stage ScheduleLifecycleState.Scheduled = 0"
| "stage ScheduleLifecycleState.Open = 1"
| "stage ScheduleLifecycleState.Closed = 2"

definition row_moves :: "Schedule \<Rightarrow> Schedule \<Rightarrow> bool" where
  "row_moves r r' \<longleftrightarrow> sc_id r' = sc_id r \<and> stage (sc_lifecycle_state r) \<le> stage (sc_lifecycle_state r') \<and>
     (sc_deleted_at r \<noteq> None \<longrightarrow> sc_deleted_at r' \<noteq> None)"

definition schedule_moves :: "tables \<Rightarrow> tables \<Rightarrow> bool" where
  "schedule_moves T T' \<longleftrightarrow>
     (\<forall>r \<in> set (schedules T). \<exists>r' \<in> set (schedules T'). row_moves r r') \<and>
     (\<forall>s. \<exists>new. map seat_ident (seats_in s T') = map seat_ident (seats_in s T) @ new \<and>
        ((\<exists>r \<in> set (schedules T). sc_id r = s \<and> sc_lifecycle_state r \<noteq> ScheduleLifecycleState.Scheduled) \<longrightarrow> new = []))"

lemma row_moves_refl: "row_moves r r"
  by (simp add: row_moves_def)

lemma schedule_moves_refl: "schedule_moves T T"
  by (auto simp: schedule_moves_def intro: row_moves_refl)

lemma stage_pos: "stage x = 0 \<longleftrightarrow> x = ScheduleLifecycleState.Scheduled"
  by (cases x) simp_all

lemma schedule_moves_trans:
  assumes "schedule_moves T T1" "schedule_moves T1 T2"
  shows "schedule_moves T T2"
  unfolding schedule_moves_def
proof (intro conjI ballI allI)
  fix r assume "r \<in> set (schedules T)"
  with assms obtain r1 where r1: "r1 \<in> set (schedules T1)" "row_moves r r1" by (auto simp: schedule_moves_def)
  with assms(2) obtain r2 where "r2 \<in> set (schedules T2)" "row_moves r1 r2" by (auto simp: schedule_moves_def)
  with r1 show "\<exists>r' \<in> set (schedules T2). row_moves r r'" by (auto simp: row_moves_def)
next
  fix s
  from assms obtain n1 n2 where n: "map seat_ident (seats_in s T1) = map seat_ident (seats_in s T) @ n1"
      "map seat_ident (seats_in s T2) = map seat_ident (seats_in s T1) @ n2"
    and e1: "(\<exists>r \<in> set (schedules T). sc_id r = s \<and> sc_lifecycle_state r \<noteq> ScheduleLifecycleState.Scheduled) \<Longrightarrow> n1 = []"
    and e2: "(\<exists>r \<in> set (schedules T1). sc_id r = s \<and> sc_lifecycle_state r \<noteq> ScheduleLifecycleState.Scheduled) \<Longrightarrow> n2 = []"
    unfolding schedule_moves_def by metis
  have "n1 @ n2 = []" if r: "r \<in> set (schedules T)" "sc_id r = s" "sc_lifecycle_state r \<noteq> ScheduleLifecycleState.Scheduled" for r
  proof -
    from assms(1) r(1) obtain r1 where r1: "r1 \<in> set (schedules T1)" "row_moves r r1" by (auto simp: schedule_moves_def)
    with r(3) have "stage (sc_lifecycle_state r1) \<noteq> 0" by (auto simp: row_moves_def stage_pos [symmetric])
    with r1 r e1 e2 show ?thesis by (auto simp: row_moves_def stage_pos)
  qed
  with n show "\<exists>new. map seat_ident (seats_in s T2) = map seat_ident (seats_in s T) @ new \<and>
      ((\<exists>r \<in> set (schedules T). sc_id r = s \<and> sc_lifecycle_state r \<noteq> ScheduleLifecycleState.Scheduled) \<longrightarrow> new = [])"
    by (intro exI [of _ "n1 @ n2"]) auto
qed

lemma length_ident: "map seat_ident (seats_in s T') = map seat_ident (seats_in s T) \<Longrightarrow>
    length (seats_in s T') = length (seats_in s T) \<and> map ss_seat_index (seats_in s T') = map ss_seat_index (seats_in s T)"
proof
  assume a: "map seat_ident (seats_in s T') = map seat_ident (seats_in s T)"
  then show "length (seats_in s T') = length (seats_in s T)" by (metis length_map)
  have "map (fst \<circ> snd) (map seat_ident (seats_in s T')) = map (fst \<circ> snd) (map seat_ident (seats_in s T))" using a by simp
  then show "map ss_seat_index (seats_in s T') = map ss_seat_index (seats_in s T)"
    by (simp add: comp_def seat_ident_def)
qed

text \<open>A statement that leaves the identity of every seat alone and moves the schedules forward.\<close>

lemma inventory_same_seats:
  assumes "inventory T" "tables_ok T'" "map (\<lambda>r. (ss_schedule_id r, seat_ident r)) (schedule_seats T') =
      map (\<lambda>r. (ss_schedule_id r, seat_ident r)) (schedule_seats T)"
    and "\<forall>r \<in> set (schedules T). \<exists>r' \<in> set (schedules T'). row_moves r r'"
    and "\<forall>r' \<in> set (schedules T'). sc_deleted_at r' \<noteq> None \<longrightarrow> sc_lifecycle_state r' = ScheduleLifecycleState.Closed"
  shows "inventory T' \<and> schedule_moves T T'"
proof -
  have filt: "map snd (filter (\<lambda>p. fst p = s) (map (\<lambda>r. (ss_schedule_id r, seat_ident r)) rs)) =
      map seat_ident (filter (\<lambda>r. ss_schedule_id r = s) rs)" for s rs
    by (induction rs) auto
  have same: "map seat_ident (seats_in s T') = map seat_ident (seats_in s T)" for s
    using filt [of s "schedule_seats T'"] filt [of s "schedule_seats T"] by (simp add: seats_in_def assms(3))
  have "set (map fst (map (\<lambda>r. (ss_schedule_id r, seat_ident r)) (schedule_seats T'))) =
      set (map fst (map (\<lambda>r. (ss_schedule_id r, seat_ident r)) (schedule_seats T)))"
    unfolding assms(3) ..
  then have refs: "ss_schedule_id ` set (schedule_seats T') = ss_schedule_id ` set (schedule_seats T)"
    by (simp add: image_image)
  have "sc_id ` set (schedules T) \<subseteq> sc_id ` set (schedules T')"
  proof (rule subsetI, elim imageE)
    fix x r assume r: "x = sc_id r" "r \<in> set (schedules T)"
    with assms(4) obtain r' where "r' \<in> set (schedules T')" "row_moves r r'" by blast
    with r(1) show "x \<in> sc_id ` set (schedules T')" by (auto simp: row_moves_def intro: image_eqI [of _ _ r'])
  qed
  moreover have "ss_schedule_id ` set (schedule_seats T) \<subseteq> sc_id ` set (schedules T)"
    using assms(1) by (simp add: inventory_def)
  ultimately have sub: "ss_schedule_id ` set (schedule_seats T') \<subseteq> sc_id ` set (schedules T')"
    using refs by (simp only: order_trans)
  have "dense s T'" for s
    using assms(1) length_ident [OF same [of s]] by (simp only: dense_def inventory_def)
  with assms(2,5) sub have "inventory T'" by (simp add: inventory_def)
  moreover have "schedule_moves T T'" using assms(4) same by (simp add: schedule_moves_def)
  ultimately show ?thesis ..
qed

section \<open>Statements\<close>

lemma update_seat_moves:
  assumes "inventory T" "tables_ok (update_seat s i f T)" "\<And>r. seat_ident (f r) = seat_ident r"
    and "\<And>r. ss_schedule_id (f r) = ss_schedule_id r"
  shows "inventory (update_seat s i f T) \<and> schedule_moves T (update_seat s i f T)"
proof (rule inventory_same_seats [OF assms(1,2)])
  show "map (\<lambda>r. (ss_schedule_id r, seat_ident r)) (schedule_seats (update_seat s i f T)) =
      map (\<lambda>r. (ss_schedule_id r, seat_ident r)) (schedule_seats T)"
    by (simp add: update_seat_def map_update_rows assms(3,4))
  show "\<forall>r \<in> set (schedules T). \<exists>r' \<in> set (schedules (update_seat s i f T)). row_moves r r'"
    by (auto simp: update_seat_def intro: row_moves_refl)
  show "\<forall>r' \<in> set (schedules (update_seat s i f T)). sc_deleted_at r' \<noteq> None \<longrightarrow>
      sc_lifecycle_state r' = ScheduleLifecycleState.Closed"
    using assms(1) by (simp add: update_seat_def inventory_def)
qed

lemma update_schedule_row_moves:
  assumes "inventory T" "tables_ok (update_schedule_row s f T)"
    and "\<And>r. r \<in> set (schedules T) \<Longrightarrow> sc_id r = s \<Longrightarrow> row_moves r (f r) \<and>
      (sc_deleted_at (f r) \<noteq> None \<longrightarrow> sc_lifecycle_state (f r) = ScheduleLifecycleState.Closed)"
  shows "inventory (update_schedule_row s f T) \<and> schedule_moves T (update_schedule_row s f T)"
proof (rule inventory_same_seats [OF assms(1,2)])
  show "map (\<lambda>r. (ss_schedule_id r, seat_ident r)) (schedule_seats (update_schedule_row s f T)) =
      map (\<lambda>r. (ss_schedule_id r, seat_ident r)) (schedule_seats T)"
    by (simp add: update_schedule_row_def)
  have set: "set (schedules (update_schedule_row s f T)) = (\<lambda>r. if sc_id r = s then f r else r) ` set (schedules T)"
    by (simp add: update_schedule_row_def set_update_rows)
  show "\<forall>r \<in> set (schedules T). \<exists>r' \<in> set (schedules (update_schedule_row s f T)). row_moves r r'"
  proof
    fix r assume r: "r \<in> set (schedules T)"
    show "\<exists>r' \<in> set (schedules (update_schedule_row s f T)). row_moves r r'"
      unfolding set by (rule bexI [OF _ imageI [OF r]]) (use assms(3) [OF r] in \<open>simp add: row_moves_refl\<close>)
  qed
  show "\<forall>r' \<in> set (schedules (update_schedule_row s f T)). sc_deleted_at r' \<noteq> None \<longrightarrow>
      sc_lifecycle_state r' = ScheduleLifecycleState.Closed"
    unfolding set using assms(1,3) by (auto simp: inventory_def)
qed

text \<open>New schedules, and new seats of a schedule still being prepared.\<close>

lemma seats_in_insert:
  "seats_in s (insert_seats rs T) = seats_in s T @ filter (\<lambda>r. ss_schedule_id r = s) rs"
  "seats_in s (insert_schedule r T) = seats_in s T"
  by (simp_all add: seats_in_def insert_seats_def insert_schedule_def)

lemma insert_schedule_moves:
  assumes "inventory T" "tables_ok (insert_schedule r T)" "sc_deleted_at r = None"
  shows "inventory (insert_schedule r T) \<and> schedule_moves T (insert_schedule r T)"
proof (rule inventory_same_seats [OF assms(1,2)])
  show "\<forall>x \<in> set (schedules T). \<exists>r' \<in> set (schedules (insert_schedule r T)). row_moves x r'"
    by (auto simp: insert_schedule_def intro: row_moves_refl)
  show "\<forall>r' \<in> set (schedules (insert_schedule r T)). sc_deleted_at r' \<noteq> None \<longrightarrow>
      sc_lifecycle_state r' = ScheduleLifecycleState.Closed"
    using assms(1,3) by (auto simp: insert_schedule_def inventory_def)
qed (simp add: insert_schedule_def)

lemma insert_seats_moves:
  assumes "inventory T" "tables_ok (insert_seats rs T)" "\<forall>r \<in> set rs. ss_schedule_id r = s"
    and "map ss_seat_index rs = map (\<lambda>k. int (length (seats_in s T)) + int k + 1) [0..<length rs]"
    and "\<forall>r \<in> set (schedules T). sc_id r = s \<longrightarrow> sc_lifecycle_state r = ScheduleLifecycleState.Scheduled"
    and "s \<in> sc_id ` set (schedules T)"
  shows "inventory (insert_seats rs T) \<and> schedule_moves T (insert_seats rs T)"
proof -
  have filt: "filter (\<lambda>r. ss_schedule_id r = s') rs = (if s' = s then rs else [])" for s'
    using assms(3) by (auto simp: filter_id_conv filter_empty_conv)
  let ?n = "int (length (seats_in s T))"
  have new: "set (map ss_seat_index rs) = {?n + 1..?n + int (length rs)}"
  proof -
    have "set (map ss_seat_index rs) = (\<lambda>k. ?n + int k + 1) ` {0..<length rs}"
      unfolding assms(4) by simp
    also have "\<dots> = {?n + 1..?n + int (length rs)}"
    proof (intro equalityI subsetI)
      fix x assume "x \<in> {?n + 1..?n + int (length rs)}"
      then have "x = ?n + int (nat (x - ?n - 1)) + 1" "nat (x - ?n - 1) \<in> {0..<length rs}" by auto
      then show "x \<in> (\<lambda>k. ?n + int k + 1) ` {0..<length rs}" by (rule image_eqI)
    qed auto
    finally show ?thesis .
  qed
  have "dense s' (insert_seats rs T)" for s'
  proof (cases "s' = s")
    case True
    have "set (map ss_seat_index (seats_in s T)) = {1..?n}" using assms(1) by (simp add: inventory_def dense_def)
    then have "set (map ss_seat_index (seats_in s (insert_seats rs T))) = {1..?n} \<union> {?n + 1..?n + int (length rs)}"
      unfolding seats_in_insert filt using new by simp
    also have "\<dots> = {1..int (length (seats_in s (insert_seats rs T)))}"
      unfolding seats_in_insert filt by auto
    finally show ?thesis by (simp add: dense_def True)
  next
    case False
    then show ?thesis using assms(1) by (simp add: dense_def seats_in_insert filt inventory_def)
  qed
  then have inv: "inventory (insert_seats rs T)"
    using assms(1-3,6) by (auto simp: inventory_def insert_seats_def)
  have "schedule_moves T (insert_seats rs T)"
    unfolding schedule_moves_def
  proof (intro conjI allI)
    show "\<forall>r \<in> set (schedules T). \<exists>r' \<in> set (schedules (insert_seats rs T)). row_moves r r'"
      by (auto simp: insert_seats_def intro: row_moves_refl)
    show "\<exists>new. map seat_ident (seats_in s' (insert_seats rs T)) = map seat_ident (seats_in s' T) @ new \<and>
        ((\<exists>r \<in> set (schedules T). sc_id r = s' \<and> sc_lifecycle_state r \<noteq> ScheduleLifecycleState.Scheduled) \<longrightarrow> new = [])" for s'
      unfolding seats_in_insert filt using assms(5) by (cases "s' = s") auto
  qed
  with inv show ?thesis ..
qed

section \<open>Handlers\<close>

lemma copy_seats_Inr:
  "copy_seats A prices s seen_keys n seats = Inr news \<Longrightarrow>
   map ns_seat_index news = map (\<lambda>k. int n + int k + 1) [0..<length news] \<and>
   (\<forall>x \<in> set news. ns_schedule_id x = s \<and> (ns_row_letter x, ns_seat_number x) \<notin> set seen_keys) \<and>
   distinct (map (\<lambda>x. (ns_row_letter x, ns_seat_number x)) news)"
proof (induction A prices s seen_keys n seats arbitrary: news rule: copy_seats.induct)
  case (2 A prices s seen_keys n seat seats)
  let ?key = "(ly_row_letter seat, ly_seat_number seat)"
  show ?case
  proof (cases "?key \<in> set seen_keys")
    case True
    with 2 show ?thesis by simp
  next
    case False
    with 2(3) obtain ns where ns: "copy_seats A prices s (?key # seen_keys) (n + 1) seats = Inr ns"
      and news: "news = \<lparr>ns_schedule_id = s, ns_seat_index = int n + 1, ns_layout_seat_id = Some (ly_id seat),
          ns_source = Base, ns_row_letter = ly_row_letter seat, ns_seat_number = ly_seat_number seat,
          ns_seat_class = ly_seat_class seat, ns_price = class_price A prices (ly_seat_class seat)\<rparr> # ns"
      and small: "in_i32 (int n + 1)"
      by (auto simp: Let_def split: if_splits sum.splits)
    from 2(2) [OF refl False _ ns] small have IH:
      "map ns_seat_index ns = map (\<lambda>k. int (n + 1) + int k + 1) [0..<length ns]"
      "\<forall>x \<in> set ns. ns_schedule_id x = s \<and> (ns_row_letter x, ns_seat_number x) \<notin> set (?key # seen_keys)"
      "distinct (map (\<lambda>x. (ns_row_letter x, ns_seat_number x)) ns)" by simp_all
    have "map (\<lambda>k. int n + int k + 1) [0..<Suc (length ns)] =
        (int n + 1) # map (\<lambda>k. int (n + 1) + int k + 1) [0..<length ns]"
      by (simp add: upt_conv_Cons map_Suc_upt [symmetric] del: upt_Suc)
    with IH news False show ?thesis by auto
  qed
qed simp

lemma extra_seats_Inr:
  "extra_seats A s seen_keys n seats = Inr news \<Longrightarrow>
   map ns_seat_index news = map (\<lambda>k. n + int k) [0..<length news] \<and> (\<forall>x \<in> set news. ns_schedule_id x = s)"
proof (induction A s seen_keys n seats arbitrary: news rule: extra_seats.induct)
  case (2 A s seen_keys n seat seats)
  let ?key = "(ex_row_letter seat, ex_seat_number seat)"
  show ?case
  proof (cases "?key \<in> set seen_keys")
    case True
    with 2 show ?thesis by simp
  next
    case False
    with 2(3) obtain price ns where ns: "extra_seats A s (?key # seen_keys) (n + 1) seats = Inr ns"
      and price: "parse_price A (ex_price seat) = Some price" and small: "in_i32 (n + 1)"
      and news: "news = \<lparr>ns_schedule_id = s, ns_seat_index = n, ns_layout_seat_id = None, ns_source = Extra,
          ns_row_letter = ex_row_letter seat, ns_seat_number = ex_seat_number seat,
          ns_seat_class = ex_seat_class seat, ns_price = price\<rparr> # ns"
      by (auto simp: Let_def split: if_splits sum.splits option.splits)
    from 2(2) [OF refl False price _ ns] small have IH:
      "map ns_seat_index ns = map (\<lambda>k. n + 1 + int k) [0..<length ns]" "\<forall>x \<in> set ns. ns_schedule_id x = s" by simp_all
    have "map (\<lambda>k. n + int k) [0..<Suc (length ns)] = n # map (\<lambda>k. n + 1 + int k) [0..<length ns]"
      by (simp add: upt_conv_Cons map_Suc_upt [symmetric] del: upt_Suc)
    with IH news show ?thesis by simp
  qed
qed simp

lemma seat_rows_sel:
  "length (seat_rows ids news) = length news"
  "map ss_seat_index (seat_rows ids news) = map ns_seat_index news"
  "map ss_schedule_id (seat_rows ids news) = map ns_schedule_id news"
  "map (\<lambda>r. (ss_row_letter r, ss_seat_number r)) (seat_rows ids news) = map (\<lambda>x. (ns_row_letter x, ns_seat_number x)) news"
  "map ss_id (seat_rows ids news) = map ids [0..<length news]"
  by (simp_all add: seat_rows_def enumerate_eq_zip seat_row_def case_prod_beta comp_def)
    (induction news rule: rev_induct; simp)+

lemma fold_insert_or_skip:
  "keys_ok (insert_seats rs T) \<Longrightarrow> fold insert_or_skip rs T = insert_seats rs T"
proof (induction rs rule: rev_induct)
  case Nil
  then show ?case by (simp add: insert_seats_def)
next
  case (snoc r rs)
  have "keys_ok (insert_seats rs T)" using snoc.prems by (simp add: keys_ok_def insert_seats_def)
  with snoc.IH snoc.prems show ?case by (simp add: insert_or_skip_def insert_seats_def Let_def)
qed

lemma atomically_cases:
  assumes "atomically body d = (res, d')"
  obtains (unchanged) "rows d' = rows d"
    | (finished) x d0 d1 where "rows d0 = rows d" "body d0 = (Inr x, d1)" "rows d' = rows d1" "res = Inl Database \<or> res = Inr x"
proof -
  obtain fb d0 where fb: "db_fault d = (fb, d0)" by (cases "db_fault d")
  obtain r d1 where b: "body d0 = (r, d1)" by (cases "body d0")
  obtain fc d2 where fc: "db_fault d1 = (fc, d2)" by (cases "db_fault d1")
  note r = db_faultD [OF fb] db_faultD [OF fc]
  show thesis
  proof (cases "fb = Delivered \<and> fc \<noteq> Refused \<and> (\<exists>x. r = Inr x)")
    case True
    then obtain x where "r = Inr x" by blast
    with True assms fb b fc r show thesis
      by (intro finished [of d0 x d1]) (auto simp: atomically_def split: if_splits)
  next
    case False
    with assms fb b fc r show thesis
      by (intro unchanged) (auto simp: atomically_def split: if_splits sum.splits)
  qed
qed

lemma with_connection_cases:
  assumes "with_connection f d = (res, d')"
  obtains (refused) "rows d' = rows d" "res = Inl Internal" | (run) d1 where "rows d1 = rows d" "f d1 = (res, d')"
  using assms by (auto simp: with_connection_def dest!: db_getD split: prod.splits if_splits)

lemma lock_live_scheduleD:
  assumes "lock_live_schedule s d = (r, d')"
  shows "rows d' = rows d"
    and "r = Inr x \<Longrightarrow> x \<in> set (schedules (rows d)) \<and> sc_id x = s \<and> sc_deleted_at x = None"
proof -
  obtain y d1 where y: "query (find_live s) d = (y, d1)" by (cases "query (find_live s) d")
  note q = queryD [OF y]
  from assms y q show "rows d' = rows d" by (auto simp: lock_live_schedule_def split: option.splits)
  assume "r = Inr x"
  with assms y q have "find_live s (rows d) = Some x" by (auto simp: lock_live_schedule_def split: option.splits)
  then show "x \<in> set (schedules (rows d)) \<and> sc_id x = s \<and> sc_deleted_at x = None"
    by (auto simp: find_live_def find_Some_iff)
qed

text \<open>A step of the tables that keeps the inventory and moves the schedules forward.\<close>

definition advances :: "tables \<Rightarrow> tables \<Rightarrow> bool" where
  "advances T T' \<longleftrightarrow> (inventory T \<longrightarrow> inventory T' \<and> schedule_moves T T')"

lemma advances_refl [simp]: "advances T T"
  by (simp add: advances_def schedule_moves_refl)

lemma advances_trans: "advances T T1 \<Longrightarrow> advances T1 T2 \<Longrightarrow> advances T T2"
  by (auto simp: advances_def intro: schedule_moves_trans)

lemma execute_advances:
  assumes "execute f d = (res, d')" "tables_ok (f (rows d)) \<Longrightarrow> advances (rows d) (f (rows d))"
  shows "advances (rows d) (rows d')"
  using execute_cases [OF assms(1)] assms(2) by auto

lemma run_stmts_advances:
  assumes "run_stmts [f] d = (Inr x, d')" "tables_ok (f (rows d)) \<Longrightarrow> advances (rows d) (f (rows d))"
  shows "advances (rows d) (rows d')"
proof -
  obtain g d0 where g: "db_fault d = (g, d0)" by (cases "db_fault d")
  from assms(1) g db_faultD [OF g] have "rows d' = f (rows d)" "tables_ok (f (rows d))"
    by (auto dest!: checked_ok split: if_splits option.splits)
  with assms(2) show ?thesis by simp
qed

lemma atomically_advances:
  assumes "\<And>d x d1. body d = (Inr x, d1) \<Longrightarrow> advances (rows d) (rows d1)"
  shows "advances (rows d) (rows (snd (atomically body d)))"
proof -
  obtain res d' where r: "atomically body d = (res, d')" by (cases "atomically body d")
  then show ?thesis
  proof (cases rule: atomically_cases)
    case unchanged
    with r show ?thesis by simp
  next
    case (finished x d0 d1)
    with assms [OF finished(2)] r show ?thesis by simp
  qed
qed

lemma with_connection_advances:
  assumes "\<And>d. advances (rows d) (rows (snd (f d)))"
  shows "advances (rows d) (rows (snd (with_connection f d)))"
proof -
  obtain res d' where r: "with_connection f d = (res, d')" by (cases "with_connection f d")
  then show ?thesis
  proof (cases rule: with_connection_cases)
    case refused
    with r show ?thesis by simp
  next
    case (run d1)
    with assms [of d1] r show ?thesis by simp
  qed
qed

text \<open>The row a statement rewrites is the only one with its id.\<close>

lemma inventory_unique_id:
  "inventory T \<Longrightarrow> r \<in> set (schedules T) \<Longrightarrow> r' \<in> set (schedules T) \<Longrightarrow> sc_id r = sc_id r' \<Longrightarrow> r = r'"
  by (auto simp: inventory_def tables_ok_def keys_ok_def distinct_map inj_on_def)

lemma set_state_advances:
  assumes "x \<in> set (schedules T)" "sc_id x = s" "sc_deleted_at x = None"
    and "stage (sc_lifecycle_state x) \<le> stage y" "tables_ok (update_schedule_row s (set_state y) T)"
  shows "advances T (update_schedule_row s (set_state y) T)"
  unfolding advances_def
proof
  assume inv: "inventory T"
  show "inventory (update_schedule_row s (set_state y) T) \<and> schedule_moves T (update_schedule_row s (set_state y) T)"
  proof (rule update_schedule_row_moves [OF inv assms(5)])
    fix r assume "r \<in> set (schedules T)" "sc_id r = s"
    with inventory_unique_id [OF inv _ assms(1)] assms(2) have "r = x" by simp
    with assms(3,4) show "row_moves r (set_state y r) \<and> (sc_deleted_at (set_state y r) \<noteq> None \<longrightarrow>
        sc_lifecycle_state (set_state y r) = ScheduleLifecycleState.Closed)"
      by (simp add: row_moves_def set_state_def)
  qed
qed

lemma move_state_advances:
  assumes "lock_live_schedule s d = (Inr x, d1)" "stage (sc_lifecycle_state x) \<le> stage y"
    and "move_state s y x d1 = (Inr z, d2)"
  shows "advances (rows d) (rows d2)"
proof -
  note l = lock_live_scheduleD [OF assms(1)]
  from assms(3) obtain u where "run_stmts [update_schedule_row s (set_state y)] d1 = (Inr u, d2)"
    by (auto simp: move_state_def split: prod.splits sum.splits)
  then have "advances (rows d1) (rows d2)"
    by (rule run_stmts_advances) (use set_state_advances [of x "rows d" s y] l assms(2) in simp)
  with l(1) show ?thesis by simp
qed

lemma start_tx_advances: "start_tx s d = (Inr z, d2) \<Longrightarrow> advances (rows d) (rows d2)"
proof -
  assume a: "start_tx s d = (Inr z, d2)"
  obtain r d1 where l: "lock_live_schedule s d = (r, d1)" by (cases "lock_live_schedule s d")
  with a obtain x where r: "r = Inr x" by (cases r) (auto simp: start_tx_def)
  note l' = lock_live_scheduleD(1) [OF l]
  consider (same) "d2 = d1" | (moved) "sc_lifecycle_state x = ScheduleLifecycleState.Scheduled"
      "move_state s ScheduleLifecycleState.Open x d1 = (Inr z, d2)"
    using a l r by (cases "sc_lifecycle_state x") (auto simp: start_tx_def)
  then show ?thesis
  proof cases
    case same
    with l' show ?thesis by simp
  next
    case moved
    with l r show ?thesis by (intro move_state_advances) auto
  qed
qed

lemma close_tx_advances: "close_tx s d = (Inr z, d2) \<Longrightarrow> advances (rows d) (rows d2)"
proof -
  assume a: "close_tx s d = (Inr z, d2)"
  obtain r d1 where l: "lock_live_schedule s d = (r, d1)" by (cases "lock_live_schedule s d")
  with a obtain x where r: "r = Inr x" by (cases r) (auto simp: close_tx_def)
  note l' = lock_live_scheduleD(1) [OF l]
  consider (same) "d2 = d1" | (moved) "move_state s ScheduleLifecycleState.Closed x d1 = (Inr z, d2)"
    using a l r by (auto simp: close_tx_def split: if_splits)
  then show ?thesis
  proof cases
    case same
    with l' show ?thesis by simp
  next
    case moved
    have "stage (sc_lifecycle_state x) \<le> stage ScheduleLifecycleState.Closed" by (cases "sc_lifecycle_state x") simp_all
    with l r moved show ?thesis by (intro move_state_advances) auto
  qed
qed

lemma query_find_liveD:
  "query (find_live s) d = (Some (Some x), d1) \<Longrightarrow>
   rows d1 = rows d \<and> x \<in> set (schedules (rows d)) \<and> sc_id x = s \<and> sc_deleted_at x = None"
  using queryD [of "find_live s" d "Some (Some x)" d1] by (auto simp: find_live_def find_Some_iff dest!: sym [of "Some x"])

text \<open>A statement on schedule rows, whatever the rows it selects.\<close>

lemma row_update_advances:
  assumes "tables_ok (update_schedule_row s f T)"
    and "\<And>r. (sc_deleted_at r \<noteq> None \<Longrightarrow> sc_lifecycle_state r = ScheduleLifecycleState.Closed) \<Longrightarrow> row_moves r (f r) \<and>
      (sc_deleted_at (f r) \<noteq> None \<longrightarrow> sc_lifecycle_state (f r) = ScheduleLifecycleState.Closed)"
  shows "advances T (update_schedule_row s f T)"
  unfolding advances_def
proof
  assume inv: "inventory T"
  then show "inventory (update_schedule_row s f T) \<and> schedule_moves T (update_schedule_row s f T)"
    by (rule update_schedule_row_moves [OF _ assms(1)]) (use inv assms(2) in \<open>simp add: inventory_def\<close>)
qed

lemma delete_rows_advances: "advances (rows d) (rows (snd (delete_rows now s d)))"
proof -
  obtain q d1 where q: "query (find_live s) d = (q, d1)" by (cases "query (find_live s) d")
  have r1: "rows d1 = rows d" using queryD [OF q] by simp
  show ?thesis
  proof (cases "\<exists>x. q = Some (Some x)")
    case True
    then obtain x where x: "q = Some (Some x)" by blast
    let ?f = "update_schedule_row s
        (\<lambda>r. r\<lparr>sc_deleted_at := Some now, sc_lifecycle_state := ScheduleLifecycleState.Closed\<rparr>)"
    obtain res d2 where e: "execute ?f d1 = (res, d2)" by (cases "execute ?f d1")
    have st: "stage y \<le> stage ScheduleLifecycleState.Closed" for y by (cases y) simp_all
    have "advances (rows d1) (rows d2)"
      by (rule execute_advances [OF e])
        (use st in \<open>auto simp: row_moves_def intro!: row_update_advances\<close>)
    with q x e r1 show ?thesis by (simp add: delete_rows_def split: sum.split)
  next
    case False
    with q r1 show ?thesis by (auto simp: delete_rows_def split: option.split)
  qed
qed

lemma edit_rows_advances: "advances (rows d) (rows (snd (edit_rows A s body d)))"
proof -
  obtain q d1 where q: "query (find_live s) d = (q, d1)" by (cases "query (find_live s) d")
  have r1: "rows d1 = rows d" using queryD [OF q] by simp
  show ?thesis
  proof (cases "\<exists>x c. q = Some (Some x) \<and> changeset_of A body = Inr c \<and> c \<noteq> empty_changeset")
    case True
    then obtain x c where x: "q = Some (Some x)" "changeset_of A body = Inr c" "c \<noteq> empty_changeset" by blast
    obtain res d2 where e: "execute (update_schedule_row s (apply_changeset c)) d1 = (res, d2)"
      by (cases "execute (update_schedule_row s (apply_changeset c)) d1")
    have "advances (rows d1) (rows d2)"
      by (rule execute_advances [OF e]) (auto simp: row_moves_def apply_changeset_def intro!: row_update_advances)
    with q x e r1 show ?thesis by (simp add: edit_rows_def split: sum.split)
  next
    case False
    with q r1 show ?thesis by (auto simp: edit_rows_def split: option.split sum.split)
  qed
qed

lemma apply_update_advances:
  assumes "\<And>f T. st = Some f \<Longrightarrow> tables_ok (f T) \<Longrightarrow> advances T (f T)"
  shows "advances (rows d) (rows (snd (apply_update st d)))"
proof (cases st)
  case (Some f)
  obtain res d1 where e: "execute f d = (res, d1)" by (cases "execute f d")
  have "advances (rows d) (rows d1)" using assms [OF Some] by (rule execute_advances [OF e])
  with Some e show ?thesis by (simp add: apply_update_def split: sum.split)
qed (simp add: apply_update_def)

lemma update_seat_advances:
  "(\<And>r. seat_ident (f r) = seat_ident r) \<Longrightarrow> (\<And>r. ss_schedule_id (f r) = ss_schedule_id r) \<Longrightarrow>
   tables_ok (update_seat s i f T) \<Longrightarrow> advances T (update_seat s i f T)"
  unfolding advances_def by (intro impI update_seat_moves)

lemma update_seats_loop_advances: "advances (rows d) (rows (snd (update_seats_loop A s us d)))"
proof (induction us arbitrary: d)
  case (Cons u us)
  let ?p = "map_option (\<lambda>p. update_seat s (up_seat u) (\<lambda>r. r\<lparr>ss_price := p\<rparr>)) (Option.bind (up_price u) (parse_price A))"
  let ?x = "map_option (\<lambda>x. update_seat s (up_seat u) (\<lambda>r. r\<lparr>ss_status := x\<rparr>)) (up_status u)"
  obtain r1 d1 where e1: "apply_update ?p d = (r1, d1)" by (cases "apply_update ?p d")
  obtain r2 d2 where e2: "apply_update ?x d1 = (r2, d2)" by (cases "apply_update ?x d1")
  have "advances (rows d) (rows (snd (apply_update ?p d)))"
    by (rule apply_update_advances) (auto intro!: update_seat_advances simp: seat_ident_def)
  then have a1: "advances (rows d) (rows d1)" by (simp add: e1)
  have "advances (rows d1) (rows (snd (apply_update ?x d1)))"
    by (rule apply_update_advances) (auto intro!: update_seat_advances simp: seat_ident_def)
  then have a2: "advances (rows d1) (rows d2)" by (simp add: e2)
  from a1 advances_trans [OF a1 a2] advances_trans [OF advances_trans [OF a1 a2] Cons.IH [of d2]] e1 e2
  show ?case by (simp split: sum.split)
qed simp

text \<open>The largest index of a dense schedule is the number of its seats.\<close>

lemma fold_max: "fold max is (i::int) = Max (insert i (set is))"
  by (metis Max.set_eq_fold list.simps(15))

lemma max_seat_index_dense:
  assumes "dense s T"
  shows "(case max_seat_index s T of Some i \<Rightarrow> i | None \<Rightarrow> 0) = int (length (seats_in s T))"
proof (cases "seats_in s T")
  case (Cons r rs)
  have "max_seat_index s T = Some (Max (set (map ss_seat_index (seats_in s T))))"
    by (simp add: max_seat_index_def Cons fold_max)
  also have "set (map ss_seat_index (seats_in s T)) = {1..int (length (seats_in s T))}" using assms by (simp only: dense_def)
  also have "Max {1..int (length (seats_in s T))} = int (length (seats_in s T))" using Cons by (intro Max_eqI) auto
  finally show ?thesis by simp
qed (simp add: max_seat_index_def)

lemma add_seats_tx_Inr:
  assumes "add_seats_tx A s ids seats d = (Inr z, d')"
  shows "rows d' = rows d \<or>
    (\<exists>x keys news d1. x \<in> set (schedules (rows d)) \<and> sc_id x = s \<and>
       sc_lifecycle_state x = ScheduleLifecycleState.Scheduled \<and> rows d1 = rows d \<and>
       extra_seats A s keys ((case max_seat_index s (rows d) of Some i \<Rightarrow> i | None \<Rightarrow> 0) + 1) seats = Inr news \<and>
       run_stmts [insert_seats (seat_rows ids news)] d1 = (Inr (), d'))"
proof -
  obtain r d1 where l: "lock_live_schedule s d = (r, d1)" by (cases "lock_live_schedule s d")
  with assms obtain x where r: "r = Inr x" by (cases r) (auto simp: add_seats_tx_def)
  note l' = lock_live_scheduleD [OF l]
  with assms l r have st: "sc_lifecycle_state x = ScheduleLifecycleState.Scheduled"
    by (auto simp: add_seats_tx_def split: if_splits)
  obtain q d2 where q: "query (seat_keys s) d1 = (q, d2)" by (cases "query (seat_keys s) d1")
  with assms l r st obtain keys where keys: "q = Some keys" by (cases q) (auto simp: add_seats_tx_def)
  obtain m d3 where m: "query (max_seat_index s) d2 = (m, d3)" by (cases "query (max_seat_index s) d2")
  with assms l r st q keys obtain mx where mx: "m = Some mx" by (cases m) (auto simp: add_seats_tx_def)
  have r3: "rows d3 = rows d" "mx = max_seat_index s (rows d)"
    using l'(1) queryD [OF q] queryD [OF m] mx by auto
  let ?n = "(case mx of Some i \<Rightarrow> i | None \<Rightarrow> 0) + 1"
  from assms l r st q keys m mx have i: "in_i32 ?n" by (auto simp: add_seats_tx_def Let_def split: if_splits)
  with assms l r st q keys m mx obtain news where news: "extra_seats A s keys ?n seats = Inr news"
    by (auto simp: add_seats_tx_def Let_def split: sum.splits)
  show ?thesis
  proof (cases news)
    case Nil
    with assms l r st q keys m mx i news r3 show ?thesis by (auto simp: add_seats_tx_def Let_def)
  next
    case (Cons n ns)
    obtain e d4 where e: "run_stmts [insert_seats (seat_rows ids news)] d3 = (e, d4)"
      by (cases "run_stmts [insert_seats (seat_rows ids news)] d3")
    with assms l r st q keys m mx i news Cons have "d4 = d'" "e = Inr ()"
      by (auto simp: add_seats_tx_def Let_def split: sum.splits simp del: run_stmts.simps)
    with e news r3 l'(2) [OF r] st show ?thesis by blast
  qed
qed

lemma insert_seats_advances:
  assumes "tables_ok (insert_seats rs T)" "\<forall>r \<in> set rs. ss_schedule_id r = s"
    and "map ss_seat_index rs = map (\<lambda>k. int (length (seats_in s T)) + int k + 1) [0..<length rs]"
    and "x \<in> set (schedules T)" "sc_id x = s" "sc_lifecycle_state x = ScheduleLifecycleState.Scheduled"
    and "inventory T"
  shows "inventory (insert_seats rs T) \<and> schedule_moves T (insert_seats rs T)"
proof (rule insert_seats_moves [OF assms(7,1-3)])
  show "\<forall>r \<in> set (schedules T). sc_id r = s \<longrightarrow> sc_lifecycle_state r = ScheduleLifecycleState.Scheduled"
    using inventory_unique_id [OF assms(7) _ assms(4)] assms(5,6) by auto
  show "s \<in> sc_id ` set (schedules T)" using assms(4,5) by blast
qed

lemma seat_rows_of:
  "(\<forall>x \<in> set news. ns_schedule_id x = s) \<Longrightarrow> \<forall>r \<in> set (seat_rows ids news). ss_schedule_id r = s"
proof -
  assume "\<forall>x \<in> set news. ns_schedule_id x = s"
  then have "set (map ss_schedule_id (seat_rows ids news)) \<subseteq> {s}" unfolding seat_rows_sel by auto
  then show ?thesis by auto
qed

lemma add_seats_tx_advances:
  assumes "add_seats_tx A s ids seats d = (Inr z, d')"
  shows "advances (rows d) (rows d')"
  using add_seats_tx_Inr [OF assms]
proof (elim disjE exE conjE)
  fix x keys news d1
  let ?i = "(case max_seat_index s (rows d) of Some i \<Rightarrow> i | None \<Rightarrow> 0) + 1"
  assume x: "x \<in> set (schedules (rows d))" "sc_id x = s" "sc_lifecycle_state x = ScheduleLifecycleState.Scheduled"
    and d1: "rows d1 = rows d" and news: "extra_seats A s keys ?i seats = Inr news"
    and e: "run_stmts [insert_seats (seat_rows ids news)] d1 = (Inr (), d')"
  note n = extra_seats_Inr [OF news]
  have "advances (rows d1) (rows d')"
  proof (rule run_stmts_advances [OF e])
    assume ok: "tables_ok (insert_seats (seat_rows ids news) (rows d1))"
    show "advances (rows d1) (insert_seats (seat_rows ids news) (rows d1))"
      unfolding advances_def d1
    proof
      assume inv: "inventory (rows d)"
      then have "?i = int (length (seats_in s (rows d))) + 1" using max_seat_index_dense [of s "rows d"] by (simp add: inventory_def)
      with n have "map ss_seat_index (seat_rows ids news) =
          map (\<lambda>k. int (length (seats_in s (rows d))) + int k + 1) [0..<length (seat_rows ids news)]"
        unfolding seat_rows_sel by (simp add: algebra_simps)
      with ok d1 seat_rows_of n x inv show "inventory (insert_seats (seat_rows ids news) (rows d)) \<and>
          schedule_moves (rows d) (insert_seats (seat_rows ids news) (rows d))"
        by (intro insert_seats_advances) auto
    qed
  qed
  with d1 show ?thesis by simp
qed simp

section \<open>Creating\<close>

text \<open>The ids a sequence hands out: distinct, and not those of rows already there.\<close>

definition unused_ids :: "(nat \<Rightarrow> seat_id) \<Rightarrow> tables \<Rightarrow> bool" where
  "unused_ids ids T \<longleftrightarrow> inj ids \<and> (\<forall>r \<in> set (schedule_seats T). ss_id r \<notin> range ids)"

lemma check_create_row:
  "check_create A now body = Inr new \<Longrightarrow>
   sc_id (new s) = s \<and> sc_lifecycle_state (new s) = ScheduleLifecycleState.Scheduled \<and> sc_deleted_at (new s) = None"
  by (auto simp: check_create_def Let_def split: if_splits option.splits sum.splits)

lemma copied_seats_keys:
  assumes "copy_seats A prices s [] 0 seats = Inr news" "unused_ids ids T" "tables_ok T" "seats_in s T = []"
  shows "keys_ok (insert_seats (seat_rows ids news) T)"
proof -
  note n = copy_seats_Inr [OF assms(1)]
  let ?rs = "seat_rows ids news"
  have of_s: "\<forall>r \<in> set ?rs. ss_schedule_id r = s" using n by (intro seat_rows_of) auto
  have others: "\<forall>r \<in> set (schedule_seats T). ss_schedule_id r \<noteq> s"
    using assms(4) by (auto simp: seats_in_def filter_empty_conv)
  have ids: "set (map ss_id ?rs) \<subseteq> range ids" unfolding seat_rows_sel by auto
  have "distinct (map ids [0..<length news])"
    using assms(2) by (simp add: unused_ids_def distinct_map inj_on_def)
  then have d1: "distinct (map ss_id (schedule_seats T @ ?rs))"
    using assms(2,3) ids by (auto simp: unused_ids_def tables_ok_def keys_ok_def seat_rows_sel)
  have "distinct (map ss_seat_index ?rs)"
    unfolding seat_rows_sel using n by (auto simp: distinct_map inj_on_def)
  then have d2: "distinct (map (\<lambda>r. (ss_schedule_id r, ss_seat_index r)) (schedule_seats T @ ?rs))"
    using assms(3) of_s others by (auto simp: tables_ok_def keys_ok_def distinct_map inj_on_def)
  have "distinct (map (\<lambda>r. (ss_row_letter r, ss_seat_number r)) ?rs)"
    unfolding seat_rows_sel using n by simp
  then have d3: "distinct (map (\<lambda>r. (ss_schedule_id r, ss_row_letter r, ss_seat_number r)) (schedule_seats T @ ?rs))"
    using assms(3) of_s others by (auto simp: tables_ok_def keys_ok_def distinct_map inj_on_def)
  show ?thesis using assms(3) d1 d2 d3 by (simp only: tables_ok_def keys_ok_def insert_seats_def tables.simps) simp
qed

text \<open>The two statements of the creation, one after the other.\<close>

lemma create_rows_cases:
  assumes "create_rows A layout s ids body new d = (res, d')"
  obtains (failed) "rows d' = rows d"
    | (bare) "rows d' = insert_schedule (new s) (rows d)" "tables_ok (rows d')"
    | (seats) news base_seats where "copy_seats A (cr_prices body) s [] 0 base_seats = Inr news"
        "tables_ok (insert_schedule (new s) (rows d))"
        "rows d' = fold insert_or_skip (seat_rows ids news) (insert_schedule (new s) (rows d))" "tables_ok (rows d')"
proof -
  let ?q = "\<lambda>_::tables. filter (\<lambda>r. ly_layout_id r = cr_layout_id body) layout"
  obtain q d1 where q: "query ?q d = (q, d1)" by (cases "query ?q d")
  have r1: "rows d1 = rows d" using queryD [OF q] by simp
  show thesis
  proof (cases "\<exists>b bs. q = Some (b # bs)")
    case False
    with assms q r1 have "rows d' = rows d" by (auto simp: create_rows_def split: option.splits list.splits)
    then show thesis by (rule failed)
  next
    case True
    then obtain b bs where b: "q = Some (b # bs)" by blast
    obtain e d2 where e: "execute (insert_schedule (new s)) d1 = (e, d2)" by (cases "execute (insert_schedule (new s)) d1")
    note ec = execute_cases [OF e]
    let ?sorted = "sort_key seat_order (b # bs)"
    show thesis
    proof (cases "\<exists>u news. e = Inr u \<and> copy_seats A (cr_prices body) s [] 0 ?sorted = Inr news")
      case False
      with assms q b e have "d' = d2" by (auto simp: create_rows_def split: sum.splits simp del: sort_key_simps)
      with ec r1 show thesis using failed bare by auto
    next
      case True
      then obtain u news where n: "e = Inr u" "copy_seats A (cr_prices body) s [] 0 ?sorted = Inr news" by blast
      obtain e3 d3 where e3: "execute (fold insert_or_skip (seat_rows ids news)) d2 = (e3, d3)"
        by (cases "execute (fold insert_or_skip (seat_rows ids news)) d2")
      with assms q b e n have d3: "d' = d3" by (auto simp: create_rows_def split: sum.splits simp del: sort_key_simps)
      from n(1) e have r2: "rows d2 = insert_schedule (new s) (rows d) \<and> tables_ok (rows d2)"
        using execute_Inr [of "insert_schedule (new s)" d1 u d2] r1 by auto
      from execute_cases [OF e3] show thesis
      proof
        assume "rows d3 = rows d2"
        with r2 d3 show thesis by (intro bare) auto
      next
        assume "rows d3 = fold insert_or_skip (seat_rows ids news) (rows d2) \<and> tables_ok (rows d3)"
        with r2 d3 n(2) show thesis by (intro seats) auto
      qed
    qed
  qed
qed

lemma create_rows_advances:
  assumes "create_rows A layout s ids body new d = (res, d')" "unused_ids ids (rows d)"
    and new: "sc_id (new s) = s" "sc_lifecycle_state (new s) = ScheduleLifecycleState.Scheduled" "sc_deleted_at (new s) = None"
  shows "advances (rows d) (rows d')"
  unfolding advances_def
proof
  assume inv: "inventory (rows d)"
  let ?T = "insert_schedule (new s) (rows d)"
  from assms(1) show "inventory (rows d') \<and> schedule_moves (rows d) (rows d')"
  proof (cases rule: create_rows_cases)
    case failed
    with inv show ?thesis by (simp add: schedule_moves_refl)
  next
    case bare
    with insert_schedule_moves [OF inv _ new(3)] show ?thesis by metis
  next
    case (seats news base_seats)
    note m1 = insert_schedule_moves [OF inv seats(2) new(3)]
    have "s \<notin> sc_id ` set (schedules (rows d))"
      using seats(2) new(1) by (auto simp: tables_ok_def keys_ok_def insert_schedule_def)
    with inv have none: "seats_in s (rows d) = []"
      by (auto simp: inventory_def seats_in_def filter_empty_conv)
    then have none': "seats_in s ?T = []" by (simp add: seats_in_insert)
    have fresh: "unused_ids ids ?T" using assms(2) by (simp add: unused_ids_def insert_schedule_def)
    note n = copy_seats_Inr [OF seats(1)]
    have eq: "rows d' = insert_seats (seat_rows ids news) ?T"
      using seats(3) fold_insert_or_skip [OF copied_seats_keys [OF seats(1) fresh seats(2) none']] by simp
    have "inventory (rows d') \<and> schedule_moves ?T (rows d')"
      unfolding eq
    proof (rule insert_seats_advances)
      show "tables_ok (insert_seats (seat_rows ids news) ?T)" using seats(4) eq by simp
      show "\<forall>r \<in> set (seat_rows ids news). ss_schedule_id r = s" using n by (intro seat_rows_of) auto
      show "map ss_seat_index (seat_rows ids news) =
          map (\<lambda>k. int (length (seats_in s ?T)) + int k + 1) [0..<length (seat_rows ids news)]"
        unfolding seat_rows_sel none' using n by simp
      show "new s \<in> set (schedules ?T)" by (simp add: insert_schedule_def)
    qed (use new m1 in auto)
    with m1 show ?thesis using schedule_moves_trans by blast
  qed
qed

section \<open>Runs of the administration\<close>

text \<open>
  The requests of the admin router on schedules, one handler after the other under any faults of the database
  and of Redis. A creation gets its ids from the sequences.
\<close>

datatype admin_op =
    CreateSchedule timestamp schedule_id "nat \<Rightarrow> seat_id" CreateScheduleRequest
  | AddExtraSeats schedule_id "nat \<Rightarrow> seat_id" "ExtraSeatInput list"
  | UpdateSeats schedule_id "UpdateSeatInput list"
  | UpdateSchedule schedule_id UpdateScheduleRequest
  | StartSchedule schedule_id
  | CloseSchedule schedule_id
  | DeleteSchedule timestamp schedule_id
  | GetSchedule schedule_id
  | GetSeats schedule_id
  | ListSchedules timestamp

fun admin_step :: "admin_crates \<Rightarrow> 'r redis \<Rightarrow> admin_op \<Rightarrow> 'r catalog \<Rightarrow> 'r catalog" where
  "admin_step A R (CreateSchedule now s ids body) st = snd (create_schedule A R now s ids body st)"
| "admin_step A R (AddExtraSeats s ids seats) st = snd (add_extra_seats A R s ids seats st)"
| "admin_step A R (UpdateSeats s us) st = snd (update_schedule_seats A R s us st)"
| "admin_step A R (UpdateSchedule s body) st = snd (update_schedule A R s body st)"
| "admin_step A R (StartSchedule s) st = snd (start_schedule R s st)"
| "admin_step A R (CloseSchedule s) st = snd (close_schedule R s st)"
| "admin_step A R (DeleteSchedule now s) st = snd (delete_schedule R now s st)"
| "admin_step A R (GetSchedule s) st = snd (get_schedule s st)"
| "admin_step A R (GetSeats s) st = snd (get_schedule_seats s st)"
| "admin_step A R (ListSchedules now) st = snd (list_schedules A now st)"

definition op_fresh :: "admin_op \<Rightarrow> tables \<Rightarrow> bool" where
  "op_fresh op T = (case op of CreateSchedule _ _ ids _ \<Rightarrow> unused_ids ids T | _ \<Rightarrow> True)"

inductive admin_run :: "admin_crates \<Rightarrow> 'r redis \<Rightarrow> 'r catalog \<Rightarrow> 'r catalog \<Rightarrow> bool" for A R st where
  run_start: "admin_run A R st st"
| run_op: "admin_run A R st st' \<Longrightarrow> op_fresh op (rows (hs_db st')) \<Longrightarrow> admin_run A R st (admin_step A R op st')"

lemma hs_db_on_cache: "hs_db (snd (on_cache f st)) = hs_db st" "hs_db (do_cache g st) = hs_db st"
  by (simp_all add: on_cache_def do_cache_def split: prod.split)

lemma hs_db_on_db: "on_db f st = (res, st1) \<Longrightarrow> hs_db st1 = snd (f (hs_db st)) \<and> res = fst (f (hs_db st))"
  by (auto simp: on_db_def split: prod.splits)

lemma hs_db_announce: "hs_db (snd (announce R ev r st)) = hs_db st"
proof -
  obtain e st1 where e: "on_cache (publish_schedule_lifecycle R ev) st = (e, st1)"
    by (cases "on_cache (publish_schedule_lifecycle R ev) st")
  with hs_db_on_cache(1) [of "publish_schedule_lifecycle R ev" st] have "hs_db st1 = hs_db st" by simp
  with e show ?thesis by (simp add: announce_def hs_db_on_cache split: sum.split)
qed

text \<open>Apart from the creation, which needs fresh ids, every handler leaves the database with its part of the work.\<close>

lemma on_db_advances:
  assumes "\<And>d. advances (rows d) (rows (snd (f d)))" "on_db (with_connection f) st = (res, st1)"
  shows "advances (rows (hs_db st)) (rows (hs_db st1))"
  using with_connection_advances [of f "hs_db st", OF assms(1)] hs_db_on_db [OF assms(2)] by simp

lemma reads_advance:
  assumes "snd (on_db (with_connection (\<lambda>d. case query q d of (x, d1) \<Rightarrow> (g x, d1))) st) = st1"
  shows "advances (rows (hs_db st)) (rows (hs_db st1))"
proof -
  obtain res st2 where e: "on_db (with_connection (\<lambda>d. case query q d of (x, d1) \<Rightarrow> (g x, d1))) st = (res, st2)"
    by (cases "on_db (with_connection (\<lambda>d. case query q d of (x, d1) \<Rightarrow> (g x, d1))) st")
  have "advances (rows (hs_db st)) (rows (hs_db st2))"
    by (rule on_db_advances [OF _ e]) (auto dest: queryD split: prod.split)
  with assms e show ?thesis by simp
qed

lemma list_rows_same: "rows (snd (list_rows d)) = rows d"
  by (auto simp: list_rows_def dest!: queryD split: prod.split option.split list.split)

lemma life_cycle_handlers_advance:
  "advances (rows (hs_db st)) (rows (hs_db (snd (start_schedule R s st))))"
  "advances (rows (hs_db st)) (rows (hs_db (snd (close_schedule R s st))))"
  "advances (rows (hs_db st)) (rows (hs_db (snd (delete_schedule R now s st))))"
proof -
  obtain r1 st1 where 1: "on_db (with_connection (atomically (start_tx s))) st = (r1, st1)"
    by (cases "on_db (with_connection (atomically (start_tx s))) st")
  show "advances (rows (hs_db st)) (rows (hs_db (snd (start_schedule R s st))))"
    using on_db_advances [OF atomically_advances [OF start_tx_advances] 1]
    by (simp add: start_schedule_def 1 hs_db_announce split: sum.split)
  obtain r2 st2 where 2: "on_db (with_connection (atomically (close_tx s))) st = (r2, st2)"
    by (cases "on_db (with_connection (atomically (close_tx s))) st")
  show "advances (rows (hs_db st)) (rows (hs_db (snd (close_schedule R s st))))"
    using on_db_advances [OF atomically_advances [OF close_tx_advances] 2]
    by (simp add: close_schedule_def 2 hs_db_announce split: sum.split)
  obtain r3 st3 where 3: "on_db (with_connection (delete_rows now s)) st = (r3, st3)"
    by (cases "on_db (with_connection (delete_rows now s)) st")
  show "advances (rows (hs_db st)) (rows (hs_db (snd (delete_schedule R now s st))))"
    using on_db_advances [OF delete_rows_advances 3]
    by (simp add: delete_schedule_def 3 hs_db_announce split: sum.split)
qed

lemma seat_handlers_advance:
  "advances (rows (hs_db st)) (rows (hs_db (snd (add_extra_seats A R s ids seats st))))"
  "advances (rows (hs_db st)) (rows (hs_db (snd (update_schedule_seats A R s us st))))"
proof -
  obtain r1 st1 where 1: "on_db (with_connection (atomically (add_seats_tx A s ids seats))) st = (r1, st1)"
    by (cases "on_db (with_connection (atomically (add_seats_tx A s ids seats))) st")
  show "advances (rows (hs_db st)) (rows (hs_db (snd (add_extra_seats A R s ids seats st))))"
    using on_db_advances [OF atomically_advances [OF add_seats_tx_advances] 1]
    by (simp add: add_extra_seats_def 1 hs_db_on_cache split: sum.split)
  let ?f = "\<lambda>d. case query (find_schedule s) d of
      (Some (Some _), d1) \<Rightarrow> update_seats_loop A s us d1 | (_, d1) \<Rightarrow> (Inl (NotFound ''Schedule not found''), d1)"
  obtain r2 st2 where 2: "on_db (with_connection ?f) st = (r2, st2)" by (cases "on_db (with_connection ?f) st")
  have "advances (rows d) (rows (snd (?f d)))" for d
  proof -
    obtain q d1 where q: "query (find_schedule s) d = (q, d1)" by (cases "query (find_schedule s) d")
    from queryD [OF q] have "rows d1 = rows d" by simp
    with q update_seats_loop_advances [of d1 A s us] show ?thesis by (simp split: option.split)
  qed
  from on_db_advances [OF this 2] show "advances (rows (hs_db st)) (rows (hs_db (snd (update_schedule_seats A R s us st))))"
    by (simp add: update_schedule_seats_def 2 hs_db_on_cache split: sum.split)
qed

lemma update_schedule_advances: "advances (rows (hs_db st)) (rows (hs_db (snd (update_schedule A R s body st))))"
proof -
  obtain r1 st1 where 1: "on_db (with_connection (edit_rows A s body)) st = (r1, st1)"
    by (cases "on_db (with_connection (edit_rows A s body)) st")
  note a = on_db_advances [OF edit_rows_advances 1]
  let ?c = "do_cache (invalidate_async 3 R (cache_schedule_key s)) st1"
  obtain r2 st2 where 2: "on_db (query (find_schedule s)) ?c = (r2, st2)" by (cases "on_db (query (find_schedule s)) ?c")
  have "rows (hs_db st2) = rows (hs_db st1)"
    using hs_db_on_db [OF 2] queryD [of "find_schedule s" "hs_db st1"] by (metis hs_db_on_cache(2) prod.collapse)
  with a show ?thesis by (simp add: update_schedule_def 1 2 hs_db_on_cache Let_def split: sum.split)
qed

lemma create_schedule_advances:
  assumes "unused_ids ids (rows (hs_db st))"
  shows "advances (rows (hs_db st)) (rows (hs_db (snd (create_schedule A R now s ids body st))))"
proof (cases "check_create A now body")
  case (Inl e)
  then show ?thesis by (simp add: create_schedule_def)
next
  case (Inr new)
  note row = check_create_row [OF Inr, of s]
  let ?f = "create_rows A (seat_layout_seats st) s ids body new"
  obtain r1 st1 where 1: "on_db (with_connection ?f) st = (r1, st1)" by (cases "on_db (with_connection ?f) st")
  obtain r d' where w: "with_connection ?f (hs_db st) = (r, d')" by (cases "with_connection ?f (hs_db st)")
  then have "advances (rows (hs_db st)) (rows d')"
  proof (cases rule: with_connection_cases)
    case refused
    then show ?thesis by simp
  next
    case (run d1)
    with create_rows_advances [OF run(2), of] row assms show ?thesis by simp
  qed
  with hs_db_on_db [OF 1] w have "advances (rows (hs_db st)) (rows (hs_db st1))" by simp
  then show ?thesis by (simp add: create_schedule_def Inr 1 hs_db_on_cache split: sum.split)
qed

lemma get_handlers_advance:
  "advances (rows (hs_db st)) (rows (hs_db (snd (get_schedule s st))))"
  "advances (rows (hs_db st)) (rows (hs_db (snd (get_schedule_seats s st))))"
  "advances (rows (hs_db st)) (rows (hs_db (snd (list_schedules A now st))))"
proof -
  let ?g = "\<lambda>d. case query (find_schedule s) d of
      (Some (Some r), d1) \<Rightarrow> (Inr r, d1) | (_, d1) \<Rightarrow> (Inl (NotFound ''Schedule not found''), d1)"
  obtain r1 st1 where 1: "on_db (with_connection ?g) st = (r1, st1)" by (cases "on_db (with_connection ?g) st")
  have "advances (rows d) (rows (snd (?g d)))" for d
    by (cases "query (find_schedule s) d") (auto dest!: queryD split: option.split)
  from on_db_advances [OF this 1] show "advances (rows (hs_db st)) (rows (hs_db (snd (get_schedule s st))))"
    by (simp add: get_schedule_def 1)
  let ?h = "\<lambda>d. case query (seat_map s) d of (None, d1) \<Rightarrow> (Inl Internal, d1) | (Some xs, d1) \<Rightarrow> (Inr xs, d1)"
  obtain r2 st2 where 2: "on_db (with_connection ?h) st = (r2, st2)" by (cases "on_db (with_connection ?h) st")
  have "advances (rows d) (rows (snd (?h d)))" for d
    by (cases "query (seat_map s) d") (auto dest!: queryD split: option.split)
  from on_db_advances [OF this 2] show "advances (rows (hs_db st)) (rows (hs_db (snd (get_schedule_seats s st))))"
    by (simp add: get_schedule_seats_def 2)
  obtain r3 st3 where 3: "on_db (with_connection list_rows) st = (r3, st3)" by (cases "on_db (with_connection list_rows) st")
  from on_db_advances [OF _ 3] show "advances (rows (hs_db st)) (rows (hs_db (snd (list_schedules A now st))))"
    by (simp add: list_schedules_def 3 list_rows_same split: sum.split prod.split)
qed

lemma admin_step_advances:
  "op_fresh op (rows (hs_db st)) \<Longrightarrow> advances (rows (hs_db st)) (rows (hs_db (admin_step A R op st)))"
  by (cases op) (simp_all add: op_fresh_def create_schedule_advances seat_handlers_advance
      update_schedule_advances life_cycle_handlers_advance get_handlers_advance)

lemma admin_run_advances: "admin_run A R st st' \<Longrightarrow> advances (rows (hs_db st)) (rows (hs_db st'))"
  by (induction rule: admin_run.induct) (auto intro: advances_trans admin_step_advances)

text \<open>
  C9 (the seat inventory). Whatever the admin handlers do, in any order and under any faults: the constraints hold,
  the seat indices of every schedule stay exactly the numbers from 1 to its number of seats, no seat loses its id, its index or its place
  and none is added once the schedule has left the state Scheduled, the life cycle never moves back, and a
  deleted schedule is closed and stays deleted.
\<close>

theorem schedules_keep_inventory:
  assumes "admin_run A R st st'" "inventory (rows (hs_db st))"
  shows "inventory (rows (hs_db st')) \<and> schedule_moves (rows (hs_db st)) (rows (hs_db st'))"
  using admin_run_advances [OF assms(1)] assms(2) by (simp add: advances_def)

lemma seats_of_seats_in: "seats_of s T = map (\<lambda>r. (ss_id r, ss_seat_index r)) (seats_in s T)"
  by (simp add: seats_of_def seats_in_def)

lemma seats_of_ident:
  "map seat_ident (seats_in s T') = map seat_ident (seats_in s T) \<Longrightarrow> seats_of s T' = seats_of s T"
proof -
  assume a: "map seat_ident (seats_in s T') = map seat_ident (seats_in s T)"
  have "map (\<lambda>(a, b, c, d). (a, b)) (map seat_ident (seats_in s T')) = map (\<lambda>(a, b, c, d). (a, b)) (map seat_ident (seats_in s T))"
    using a by simp
  then show ?thesis by (simp add: seats_of_seats_in seat_ident_def comp_def)
qed

lemma seat_index_unique:
  "inventory T \<Longrightarrow> r \<in> set (schedule_seats T) \<Longrightarrow> r' \<in> set (schedule_seats T) \<Longrightarrow>
   ss_schedule_id r = ss_schedule_id r' \<Longrightarrow> ss_seat_index r = ss_seat_index r' \<Longrightarrow> r = r'"
  by (auto simp: inventory_def tables_ok_def keys_ok_def distinct_map inj_on_def)

lemma loaded_metadata_stays:
  assumes "load_metadata s d0 = (Inr m, d)" "rows d0 = rows (hs_db st)" "inventory (rows (hs_db st))" "admin_run A R st st'"
  shows "md_total m = int (length (filter (\<lambda>r. ss_schedule_id r = s) (schedule_seats (rows (hs_db st'))))) \<and>
    (\<forall>t i. md_indices m t = Some i \<longrightarrow> 1 \<le> i \<and> i \<le> md_total m \<and>
       (\<exists>r \<in> set (schedule_seats (rows (hs_db st'))). ss_schedule_id r = s \<and> ss_id r = t \<and> ss_seat_index r = i) \<and>
       (\<forall>t'. md_indices m t' = Some i \<longrightarrow> t' = t))"
proof -
  let ?T = "rows (hs_db st)" and ?T' = "rows (hs_db st')"
  note load = load_metadata_Inr [OF assms(1), unfolded assms(2)]
  have moves: "inventory ?T'" "schedule_moves ?T ?T'"
    using admin_run_advances [OF assms(4)] assms(3) by (simp_all add: advances_def)
  obtain r0 where r0: "r0 \<in> set (schedules ?T)" "sc_id r0 = s" "sc_lifecycle_state r0 \<noteq> ScheduleLifecycleState.Scheduled"
    using load(1) by auto
  have "\<exists>new. map seat_ident (seats_in s ?T') = map seat_ident (seats_in s ?T) @ new \<and> new = []"
    using moves(2) r0 unfolding schedule_moves_def by blast
  then have same: "seats_of s ?T' = seats_of s ?T" by (intro seats_of_ident) simp
  have total: "md_total m = int (length (seats_in s ?T'))"
    using load(2) same by (simp add: seats_of_seats_in [symmetric]) (metis length_map seats_of_seats_in)
  have idx: "\<exists>r \<in> set (seats_in s ?T'). ss_id r = t \<and> ss_seat_index r = i" if "md_indices m t = Some i" for t i
    using map_of_SomeD [of "seats_of s ?T'" t i] that load(3) same by (auto simp: seats_of_seats_in)
  have range: "1 \<le> i \<and> i \<le> md_total m" if "md_indices m t = Some i" for t i
  proof -
    from idx [OF that] have "i \<in> set (map ss_seat_index (seats_in s ?T'))" by auto
    also have "\<dots> = {1..int (length (seats_in s ?T'))}" using moves(1) by (simp only: inventory_def dense_def)
    finally show ?thesis by (simp add: total)
  qed
  have uniq: "t' = t" if "md_indices m t = Some i" "md_indices m t' = Some i" for t t' i
    using idx [OF that(1)] idx [OF that(2)] seat_index_unique [OF moves(1)] by (auto simp: seats_in_def)
  from total idx range uniq show ?thesis by (auto simp: seats_in_def)
qed

text \<open>
  C16 (cached metadata stays true). The websocket server loads a schedule's seats once and never again. That is safe for the
  seats: after any further run of the administration every cached seat is still a seat of the schedule under its
  cached index, the indices lie between 1 and the cached total, no two seats share one, and the total is still
  the number of seats. A request built on them fits the gateway's seat array.
\<close>

theorem metadata_stays_true:
  assumes "load_metadata s (hs_db st) = (Inr m, d)" "inventory (rows (hs_db st))" "admin_run A R st st'"
  shows "md_total m = int (length (filter (\<lambda>r. ss_schedule_id r = s) (schedule_seats (rows (hs_db st'))))) \<and>
    (\<forall>t i. md_indices m t = Some i \<longrightarrow> 1 \<le> i \<and> i \<le> md_total m \<and>
       (\<exists>r \<in> set (schedule_seats (rows (hs_db st'))). ss_schedule_id r = s \<and> ss_id r = t \<and> ss_seat_index r = i) \<and>
       (\<forall>t'. md_indices m t' = Some i \<longrightarrow> t' = t))"
  by (rule loaded_metadata_stays [OF assms(1) refl assms(2,3)])

section \<open>Requests against cached metadata\<close>

lemma admin_run_trans: "admin_run A R st1 st2 \<Longrightarrow> admin_run A R st st1 \<Longrightarrow> admin_run A R st st2"
  by (induction rule: admin_run.induct) (auto intro: run_op)

text \<open>
  A websocket server next to the administration: it starts without metadata, the administration goes on, the server
  does anything that leaves its metadata alone, and it checks requests against the database of that moment.
\<close>

inductive seat_checks :: "admin_crates \<Rightarrow> 'r redis \<Rightarrow> 'r catalog \<Rightarrow> 'r catalog \<Rightarrow> ('q, 'c) WsHooks \<Rightarrow> bool"
  for A R st0 where
  checks_start: "admin_run A R st0 st \<Longrightarrow> schedule_metadata h = Map.empty \<Longrightarrow> seat_checks A R st0 st h"
| checks_admin: "seat_checks A R st0 st h \<Longrightarrow> op_fresh op (rows (hs_db st)) \<Longrightarrow> seat_checks A R st0 (admin_step A R op st) h"
| checks_other: "seat_checks A R st0 st h \<Longrightarrow> schedule_metadata h' = schedule_metadata h \<Longrightarrow> seat_checks A R st0 st h'"
| checks_request: "seat_checks A R st0 st h \<Longrightarrow> rows (ws_db h) = rows (hs_db st) \<Longrightarrow>
     verified_seat_metadata s ts idx n h = (res, h') \<Longrightarrow> seat_checks A R st0 st h'"

text \<open>Where the metadata of a schedule comes from: a state of the past, or of now.\<close>

definition open_in :: "schedule_id \<Rightarrow> tables \<Rightarrow> bool" where
  "open_in s T \<longleftrightarrow>
     (\<exists>r \<in> set (schedules T). sc_id r = s \<and> sc_deleted_at r = None \<and> sc_lifecycle_state r = ScheduleLifecycleState.Open)"

definition loaded_from :: "admin_crates \<Rightarrow> 'r redis \<Rightarrow> 'r catalog \<Rightarrow> 'r catalog \<Rightarrow> schedule_id \<Rightarrow> ScheduleSeatMetadata \<Rightarrow> bool" where
  "loaded_from A R st0 st s m \<longleftrightarrow>
     (\<exists>st1 d0 d. admin_run A R st0 st1 \<and> admin_run A R st1 st \<and> rows d0 = rows (hs_db st1) \<and>
        load_metadata s d0 = (Inr m, d))"

lemma loaded_from_op:
  "loaded_from A R st0 st s m \<Longrightarrow> op_fresh op (rows (hs_db st)) \<Longrightarrow> loaded_from A R st0 (admin_step A R op st) s m"
  unfolding loaded_from_def using run_op by blast

lemma metadata_cell_loaded:
  assumes "metadata_cell s h = (x, h')" "rows (ws_db h) = rows (hs_db st)" "admin_run A R st0 st"
    and "\<And>s' m. schedule_metadata h s' = Some m \<Longrightarrow> loaded_from A R st0 st s' m"
  shows "\<And>s' m. schedule_metadata h' s' = Some m \<Longrightarrow> loaded_from A R st0 st s' m"
    and "\<And>m. x = Inr m \<Longrightarrow> schedule_metadata h' s = Some m"
    and "\<And>m. x = Inr m \<Longrightarrow> schedule_metadata h s = None \<Longrightarrow> \<exists>d. load_metadata s (ws_db h) = (Inr m, d)"
proof -
  have new: "loaded_from A R st0 st s m" if "load_metadata s (ws_db h) = (Inr m, d)" for m d
    unfolding loaded_from_def using that assms(2,3) run_start by blast
  show "\<And>s' m. schedule_metadata h' s' = Some m \<Longrightarrow> loaded_from A R st0 st s' m"
    "\<And>m. x = Inr m \<Longrightarrow> schedule_metadata h' s = Some m"
    "\<And>m. x = Inr m \<Longrightarrow> schedule_metadata h s = None \<Longrightarrow> \<exists>d. load_metadata s (ws_db h) = (Inr m, d)"
    using assms(1) assms(4) new
    by (auto simp: metadata_cell_def split: option.splits prod.splits sum.splits if_splits)
qed

lemma seat_checks_loaded:
  "seat_checks A R st0 st h \<Longrightarrow>
   admin_run A R st0 st \<and> (\<forall>s m. schedule_metadata h s = Some m \<longrightarrow> loaded_from A R st0 st s m)"
proof (induction rule: seat_checks.induct)
  case (checks_admin st h op)
  then show ?case using run_op loaded_from_op by blast
next
  case (checks_request st h s ts idx n res h')
  show ?case
  proof (cases "ts = [] \<or> length ts \<noteq> length idx")
    case True
    with checks_request show ?thesis by (simp add: verified_seat_metadata_def)
  next
    case False
    obtain x h1 where c: "metadata_cell s h = (x, h1)" by (cases "metadata_cell s h")
    have "h' = h1"
      using checks_request.hyps(3) False c by (auto simp: verified_seat_metadata_def split: sum.splits if_splits)
    with metadata_cell_loaded(1) [OF c checks_request.hyps(2)] checks_request.IH show ?thesis by blast
  qed
qed simp_all

text \<open>
  C17 (lock requests are the schedule's). Along any interleaving of the administration with the websocket server, a
  lock or unlock request that passes the check is not empty and every seat of it belongs to its schedule, now, under the
  very index given, between 1 and the given seat count, which is that of the schedule: this is all the gateway is
  ever sent. The schedule was open and not deleted when its metadata was loaded, which is now if none was cached; a
  closing after that is not noticed.
\<close>

theorem forwarded_seats_belong:
  assumes "inventory (rows (hs_db st0))" "seat_checks A R st0 st h" "rows (ws_db h) = rows (hs_db st)"
    and "verified_seat_metadata s ts idx n h = (Inr (idx', n'), h1)"
  shows "ts \<noteq> [] \<and> idx' = idx \<and> n' = n \<and> length idx = length ts \<and>
    n = int (length (filter (\<lambda>r. ss_schedule_id r = s) (schedule_seats (rows (hs_db st))))) \<and>
    (\<forall>k < length ts. 1 \<le> idx ! k \<and> idx ! k \<le> n \<and> (\<exists>r \<in> set (schedule_seats (rows (hs_db st))).
       ss_schedule_id r = s \<and> ss_id r = ts ! k \<and> ss_seat_index r = idx ! k)) \<and>
    (\<exists>st1. admin_run A R st0 st1 \<and> admin_run A R st1 st \<and> open_in s (rows (hs_db st1))) \<and>
    (schedule_metadata h s = None \<longrightarrow> open_in s (rows (hs_db st)))"
proof -
  from assms(4) obtain m where m: "metadata_cell s h = (Inr m, h1)" "idx' = idx" "n' = n" "n = md_total m"
    "ts \<noteq> []" "length ts = length idx" "check_indices m (zip ts idx) = Inr ()"
    by (auto elim!: verified_Inr)
  note past = seat_checks_loaded [OF assms(2)]
  have run: "admin_run A R st0 st" and known: "\<And>s' m. schedule_metadata h s' = Some m \<Longrightarrow> loaded_from A R st0 st s' m"
    using past by simp_all
  note cell = metadata_cell_loaded [OF m(1) assms(3) run known]
  have "loaded_from A R st0 st s m" by (rule cell(1) [OF _ cell(2) [OF _ refl]])
  then obtain st1 d0 d where l: "admin_run A R st0 st1" "admin_run A R st1 st"
      "rows d0 = rows (hs_db st1)" "load_metadata s d0 = (Inr m, d)"
    by (auto simp: loaded_from_def)
  have "inventory (rows (hs_db st1))" using admin_run_advances [OF l(1)] assms(1) by (simp add: advances_def)
  note stays = loaded_metadata_stays [OF l(4,3) this l(2)]
  have named: "md_indices m (ts ! k) = Some (idx ! k)" if "k < length ts" for k
    using check_indices_Inr [OF m(7)] that m(6) by (auto simp: set_zip)
  have "open_in s (rows (hs_db st1))" using load_metadata_Inr(1) [OF l(4)] l(3) by (simp add: open_in_def)
  moreover have "open_in s (rows (hs_db st))" if "schedule_metadata h s = None"
    using cell(3) [OF _ refl that] load_metadata_Inr(1) assms(3) unfolding open_in_def by metis
  moreover have "1 \<le> idx ! k \<and> idx ! k \<le> n \<and> (\<exists>r \<in> set (schedule_seats (rows (hs_db st))).
      ss_schedule_id r = s \<and> ss_id r = ts ! k \<and> ss_seat_index r = idx ! k)" if "k < length ts" for k
    using stays [THEN conjunct2, rule_format, OF named [OF that]] m(4) by simp
  ultimately show ?thesis using m(2-6) conjunct1 [OF stays] l(1,2) by auto
qed

section \<open>A hall\<close>

definition plain_admin :: admin_crates where
  "plain_admin =
     \<lparr>parse_oid = (\<lambda>x. Some x), live_show = (\<lambda>_. Inr None), any_show = (\<lambda>_. None), parse_rfc3339 = (\<lambda>_. None),
      parse_date = (\<lambda>_. None), parse_price = (\<lambda>_. Some (100, 0))\<rparr>"

definition hall_catalog :: "ScheduleLifecycleState \<Rightarrow> keyspace catalog" where
  "hall_catalog x = \<lparr>hs_cache = fresh_world 1, hs_db = hall_db x, seat_layout_seats = []\<rparr>"

definition more_seats :: "ExtraSeatInput list" where
  "more_seats = map (\<lambda>(r, n). \<lparr>ex_row_letter = r, ex_seat_number = n, ex_seat_class = Vip, ex_price = ''100''\<rparr>)
     [(''A'', 1), (''B'', 1)]"

lemma hall_inventory: "inventory (rows (hall_db x))"
  by (auto simp: inventory_def dense_def hall_db_def hall_schedule_def hall_seat_def tables_ok_def keys_ok_def refs_ok_def
      seats_in_def)

lemma hall_more:
  "map ss_seat_index (schedule_seats (rows (hs_db (admin_step plain_admin mem_redis
     (AddExtraSeats 5 (\<lambda>k. 20 + int k) more_seats) (hall_catalog ScheduleLifecycleState.Scheduled))))) = [1, 2]"
  by (simp add: add_extra_seats_def more_seats_def on_db_def with_connection_def db_get_def db_fault_def atomically_def
      add_seats_tx_def lock_live_schedule_def query_def find_live_def hall_catalog_def hall_db_def hall_schedule_def
      hall_seat_def seat_keys_def seats_in_def max_seat_index_def in_i32_def plain_admin_def Let_def checked_def
      insert_seats_def seat_rows_def seat_row_def tables_ok_def keys_ok_def refs_ok_def do_cache_def)

theorem schedules_keep_inventory_witness:
  "inventory (rows (hs_db (admin_step plain_admin mem_redis (AddExtraSeats 5 (\<lambda>k. 20 + int k) more_seats)
     (hall_catalog ScheduleLifecycleState.Scheduled)))) \<and>
   map ss_seat_index (schedule_seats (rows (hs_db (admin_step plain_admin mem_redis
     (AddExtraSeats 5 (\<lambda>k. 20 + int k) more_seats) (hall_catalog ScheduleLifecycleState.Scheduled))))) = [1, 2]"
proof -
  let ?st = "hall_catalog ScheduleLifecycleState.Scheduled" and ?op = "AddExtraSeats 5 (\<lambda>k. 20 + int k) more_seats"
  have "admin_run plain_admin mem_redis ?st (admin_step plain_admin mem_redis ?op ?st)"
    by (rule admin_run.run_op [OF admin_run.run_start]) (simp add: op_fresh_def)
  from schedules_keep_inventory [OF this] hall_inventory hall_more show ?thesis by (simp add: hall_catalog_def)
qed

theorem metadata_stays_true_witness:
  "\<exists>m. fst (load_metadata 5 (hall_db ScheduleLifecycleState.Open)) = Inr m \<and> md_total m = 1 \<and>
     int (length (filter (\<lambda>r. ss_schedule_id r = 5) (schedule_seats (rows (hs_db
       (admin_step plain_admin mem_redis (AddExtraSeats 5 (\<lambda>k. 20 + int k) more_seats)
         (hall_catalog ScheduleLifecycleState.Open))))))) = 1"
proof -
  let ?st = "hall_catalog ScheduleLifecycleState.Open" and ?op = "AddExtraSeats 5 (\<lambda>k. 20 + int k) more_seats"
  obtain m d where m: "load_metadata 5 (hall_db ScheduleLifecycleState.Open) = (Inr m, d)" "md_total m = 1"
    by (simp add: load_metadata_def hall_db_def hall_schedule_def hall_seat_def seats_of_def in_i32_def db_get_def db_fault_def query_def)
  have run: "admin_run plain_admin mem_redis ?st (admin_step plain_admin mem_redis ?op ?st)"
    by (rule admin_run.run_op [OF admin_run.run_start]) (simp add: op_fresh_def)
  have "hs_db ?st = hall_db ScheduleLifecycleState.Open" by (simp add: hall_catalog_def)
  with metadata_stays_true [OF _ _ run, of 5 m d] m hall_inventory show ?thesis by simp
qed

theorem forwarded_seats_belong_witness:
  "let st = admin_step plain_admin mem_redis (CloseSchedule 5) (hall_catalog ScheduleLifecycleState.Open);
       h1 = snd (verified_seat_metadata 5 [11] [1] 1
         (new_hooks (fresh_world 1) (hall_db ScheduleLifecycleState.Open) :: (keyspace, nat) WsHooks))
   in fst (verified_seat_metadata 5 [11] [1] 1 (h1\<lparr>ws_db := hs_db st, ws_world := fresh_world 1\<rparr>)) = Inr ([1], 1) \<and>
      (\<exists>r \<in> set (schedule_seats (rows (hs_db st))). ss_schedule_id r = 5 \<and> ss_id r = 11 \<and> ss_seat_index r = 1)"
proof -
  let ?old = "hall_catalog ScheduleLifecycleState.Open"
  let ?st = "admin_step plain_admin mem_redis (CloseSchedule 5) ?old"
  let ?h = "new_hooks (fresh_world 1) (hall_db ScheduleLifecycleState.Open) :: (keyspace, nat) WsHooks"
  obtain h1 where run: "verified_seat_metadata 5 [11] [1] 1 ?h = (Inr ([1], 1), h1)"
    using hall_verified by (metis prod.collapse)
  let ?h2 = "h1\<lparr>ws_db := hs_db ?st, ws_world := fresh_world 1\<rparr>"
  have 0: "seat_checks plain_admin mem_redis ?old ?old ?h"
    by (rule checks_start [OF run_start]) (simp add: new_hooks_def)
  have "seat_checks plain_admin mem_redis ?old ?old h1"
    by (rule checks_request [OF 0 _ run]) (simp add: new_hooks_def hall_catalog_def)
  then have "seat_checks plain_admin mem_redis ?old ?st h1" by (rule checks_admin) (simp add: op_fresh_def)
  then have c: "seat_checks plain_admin mem_redis ?old ?st ?h2" by (rule checks_other) simp
  have i: "inventory (rows (hs_db ?old))" using hall_inventory by (simp add: hall_catalog_def)
  from forwarded_seats_belong [OF i c _ metadata_never_refreshed [OF run]] metadata_never_refreshed [OF run] run
  show ?thesis by (simp add: Let_def)
qed

end
