(* ===== verification/Schedules_Lifecycle.thy ===== *)
theory Schedules_Lifecycle
  imports Schedules_Props Gateway_Props
begin

text \<open>
  How a closing reaches the gateways, and where it may not: the handlers of \<open>admin/schedules_v2.rs\<close> write the
  database, then the marker in Redis, then the announcement, and the gateway of \<open>state_active.rs\<close> reads the
  marker when it has no actor for the schedule.
\<close>

section \<open>What the exchanges leave alone\<close>

lemma published_send: "send i c w = (r, w') \<Longrightarrow> published w' = published w"
  by (auto simp: send_def next_fault_def Let_def split: list.splits fault.splits prod.splits)

lemma send_del_frame:
  assumes "redis_service R" "k \<noteq> k'" "nodes w \<noteq> []" "send 0 (writing (DEL R k)) w = (r, w1)"
  shows "nodes w1 \<noteq> [] \<and> look R (nodes w1 ! 0) k' = look R (nodes w ! 0) k' \<and> published w1 = published w"
  using assms(4)
proof (cases rule: send_cases)
  case run
  have "nodes w1 \<noteq> []" using run(1) assms(3) by (metis length_list_update length_0_conv)
  with run assms(2,3) redis_service.look_DEL [OF assms(1)] published_send [OF assms(4)] show ?thesis
    by (simp add: writing_def)
next
  case skip
  with assms(3) published_send [OF assms(4)] show ?thesis by simp
qed

lemma invalidate_async_frame:
  assumes "redis_service R" "k \<noteq> k'" "nodes w \<noteq> []"
  shows "nodes (invalidate_async n R k w) \<noteq> [] \<and>
    look R (nodes (invalidate_async n R k w) ! 0) k' = look R (nodes w ! 0) k' \<and>
    published (invalidate_async n R k w) = published w"
  using assms(3)
proof (induction n arbitrary: w)
  case 0
  obtain r w1 where s: "send 0 (writing (DEL R k)) w = (r, w1)" by (cases "send 0 (writing (DEL R k)) w")
  from s send_del_frame [OF assms(1,2) 0 s] show ?case by (simp add: invalidate_async.simps split: option.split)
next
  case (Suc n)
  obtain r w1 where s: "send 0 (writing (DEL R k)) w = (r, w1)" by (cases "send 0 (writing (DEL R k)) w")
  from s send_del_frame [OF assms(1,2) Suc.prems s] Suc.IH [of w1]
  show ?case by (simp add: invalidate_async.simps split: option.split)
qed

text \<open>The marker is none of the cache keys.\<close>

lemma cache_keys_start:
  "\<exists>x. cache_schedule_key s = CHR ''c'' # x" "\<exists>x. cache_show_schedules_key m c = CHR ''c'' # x"
  "\<exists>x. cache_movies_key t c = CHR ''c'' # x" "\<exists>x. cache_schedules_active_key = CHR ''c'' # x"
  unfolding cache_schedule_key_def cache_show_schedules_key_def cache_movies_key_def MOVIES_ALL_def
      cache_schedules_active_key_def append_Cons
  by (rule exI, rule refl)+

lemma closed_key_start: "schedule_closed_key s \<noteq> CHR ''c'' # x"
  unfolding schedule_closed_key_def append_Cons by simp

lemma closed_key_not_cached:
  "schedule_closed_key s \<notin> set (schedule_cache_keys r)" "schedule_closed_key s \<noteq> cache_schedule_key s'"
proof -
  have "list_all (\<lambda>k. \<exists>x. k = CHR ''c'' # x) (schedule_cache_keys r)"
    unfolding schedule_cache_keys_def Let_def list.pred_inject by (intro conjI cache_keys_start list.pred_inject(1))
  then show "schedule_closed_key s \<notin> set (schedule_cache_keys r)"
    unfolding list_all_iff using closed_key_start by blast
  show "schedule_closed_key s \<noteq> cache_schedule_key s'" using cache_keys_start(1) closed_key_start by metis
qed

lemma invalidate_all_frame:
  assumes "redis_service R" "k' \<notin> set ks" "nodes w \<noteq> []"
  shows "nodes (fold (invalidate_async n R) ks w) \<noteq> [] \<and>
    look R (nodes (fold (invalidate_async n R) ks w) ! 0) k' = look R (nodes w ! 0) k' \<and>
    published (fold (invalidate_async n R) ks w) = published w"
  using assms(2,3)
proof (induction ks arbitrary: w)
  case (Cons k ks)
  then have "k \<noteq> k'" "k' \<notin> set ks" by auto
  with Cons.prems(2) invalidate_async_frame [OF assms(1), of k k' w n] Cons.IH [of "invalidate_async n R k w"]
  show ?case by simp
qed simp

lemma lifecycle_caches_frame:
  assumes "redis_service R" "nodes w \<noteq> []"
  shows "nodes (invalidate_schedule_lifecycle_caches R r w) \<noteq> [] \<and>
    look R (nodes (invalidate_schedule_lifecycle_caches R r w) ! 0) (schedule_closed_key s) =
      look R (nodes w ! 0) (schedule_closed_key s) \<and>
    published (invalidate_schedule_lifecycle_caches R r w) = published w"
proof -
  note 1 = invalidate_async_frame [OF assms(1) closed_key_not_cached(2) [of s "sc_id r", symmetric] assms(2), of 3]
  from 1 invalidate_all_frame [OF assms(1) closed_key_not_cached(1) [of s r], of "invalidate_async 3 R (cache_schedule_key (sc_id r)) w" 3]
  show ?thesis by (simp add: invalidate_schedule_lifecycle_caches_def invalidate_show_schedule_caches_def)
qed

section \<open>Announcements\<close>

text \<open>A successful announcement has set or removed the marker and is published.\<close>

lemma publish_lifecycle_Inr:
  assumes "redis_service R" "publish_schedule_lifecycle R (if c then ScheduleClosed s else ScheduleOpened s) w = (Inr (), w')"
    and "nodes w \<noteq> []"
  shows "nodes w' \<noteq> [] \<and> (EXISTS R (schedule_closed_key s) (nodes w' ! 0) \<longleftrightarrow> c) \<and>
    (0, schedule_lifecycle_channel, event_json (if c then ScheduleClosed s else ScheduleOpened s)) \<in> set (published w')"
proof -
  let ?cmd = "writing (if c then SET R (schedule_closed_key s) ''1'' else DEL R (schedule_closed_key s))"
  obtain x w1 where s: "send 0 ?cmd w = (x, w1)" by (cases "send 0 ?cmd w")
  with assms(2) obtain u where x: "x = Some u"
    by (cases c; cases x) (auto simp: publish_schedule_lifecycle_def)
  obtain ok w2 where p: "publish_reply schedule_lifecycle_channel
      (event_json (if c then ScheduleClosed s else ScheduleOpened s)) w1 = (ok, w2)"
    by (cases "publish_reply schedule_lifecycle_channel (event_json (if c then ScheduleClosed s else ScheduleOpened s)) w1")
  with assms(2) s x have w2: "ok" "w' = w2"
    by (cases c; auto simp: publish_schedule_lifecycle_def split: if_splits simp del: event_json.simps)+
  have n2: "nodes w2 = nodes w1" "(0, schedule_lifecycle_channel, event_json (if c then ScheduleClosed s else ScheduleOpened s)) \<in> set (published w2)"
    using p w2(1) by (auto simp: publish_reply_def next_fault_def split: list.splits if_splits simp del: event_json.simps)
  have "nodes w1 = (nodes w)[0 := snd (?cmd (nodes w ! 0))]" using send_Some(1) [of 0 ?cmd w u w1] s x by simp
  with assms(3) have "nodes w1 \<noteq> [] \<and> (EXISTS R (schedule_closed_key s) (nodes w1 ! 0) \<longleftrightarrow> c)"
    using redis_service.look_SET [OF assms(1)] redis_service.look_DEL [OF assms(1)]
    by (cases c) (auto simp: writing_def EXISTS_def)
  with n2 w2 show ?thesis by (simp del: event_json.simps)
qed

lemma announce_Inr:
  assumes "redis_service R" "announce R (if c then ScheduleClosed s else ScheduleOpened s) r st = (Inr (), st')"
    and "nodes (hs_cache st) \<noteq> []"
  shows "nodes (hs_cache st') \<noteq> [] \<and> (EXISTS R (schedule_closed_key s) (nodes (hs_cache st') ! 0) \<longleftrightarrow> c) \<and>
    (0, schedule_lifecycle_channel, event_json (if c then ScheduleClosed s else ScheduleOpened s)) \<in> set (published (hs_cache st'))"
proof -
  let ?ev = "if c then ScheduleClosed s else ScheduleOpened s"
  obtain x w1 where p: "publish_schedule_lifecycle R ?ev (hs_cache st) = (x, w1)"
    by (cases "publish_schedule_lifecycle R ?ev (hs_cache st)")
  with assms(2) have x: "x = Inr ()" and st': "hs_cache st' = invalidate_schedule_lifecycle_caches R r w1"
    by (auto simp: announce_def on_cache_def do_cache_def split: sum.splits)
  note 1 = publish_lifecycle_Inr [OF assms(1) p [unfolded x] assms(3)]
  from 1 lifecycle_caches_frame [OF assms(1), of w1 r s] show ?thesis
    by (simp add: st' EXISTS_def del: event_json.simps)
qed

section \<open>Closing\<close>

lemma filter_update_rows:
  "(\<And>r. P (f r) = P r) \<Longrightarrow> (\<And>r. g (f r) = g r) \<Longrightarrow>
   map g (filter P (update_rows sel f rs)) = map g (filter P rs)"
  by (induction rs) (auto simp: update_rows_def)

lemma set_state_tables_ok:
  assumes "tables_ok T"
  shows "tables_ok (update_schedule_row s (set_state x) T)"
proof -
  have ids: "map sc_id (update_rows (\<lambda>r. sc_id r = s) (set_state x) (schedules T)) = map sc_id (schedules T)"
    by (rule map_update_rows) (simp add: set_state_def)
  have active: "map (\<lambda>r. (sc_mongo_show_id r, sc_venue_city r, case sc_venue_name r of Some n \<Rightarrow> n | None \<Rightarrow> [], sc_start_time r))
      (filter (\<lambda>r. sc_deleted_at r = None \<and> sc_venue_city r \<noteq> None) (update_rows (\<lambda>r. sc_id r = s) (set_state x) (schedules T))) =
    map (\<lambda>r. (sc_mongo_show_id r, sc_venue_city r, case sc_venue_name r of Some n \<Rightarrow> n | None \<Rightarrow> [], sc_start_time r))
      (filter (\<lambda>r. sc_deleted_at r = None \<and> sc_venue_city r \<noteq> None) (schedules T))"
    by (rule filter_update_rows) (simp_all add: set_state_def)
  have "sc_id ` set (update_rows (\<lambda>r. sc_id r = s) (set_state x) (schedules T)) = sc_id ` set (schedules T)"
    using ids by (metis list.set_map)
  with ids active assms show ?thesis
    by (simp add: tables_ok_def keys_ok_def refs_ok_def update_schedule_row_def)
qed

lemma find_live_set_state:
  "find_live s (update_schedule_row s (set_state x) T) = map_option (set_state x) (find_live s T)"
proof -
  have "find P (map h rs) = map_option h (find P rs)" if "\<And>r. P (h r) = P r" for P and h :: "Schedule \<Rightarrow> Schedule" and rs
    using that by (induction rs) auto
  note this [of "\<lambda>r. sc_id r = s \<and> sc_deleted_at r = None" "\<lambda>r. if sc_id r = s then set_state x r else r" "schedules T"]
  moreover have "map_option (\<lambda>r. if sc_id r = s then set_state x r else r) (find_live s T) = map_option (set_state x) (find_live s T)"
  proof (cases "find_live s T")
    case (Some r)
    then have "sc_id r = s" using find_Some_iff [of _ "schedules T" r] by (auto simp: find_live_def)
    with Some show ?thesis by simp
  qed simp
  ultimately show ?thesis by (simp add: find_live_def update_schedule_row_def update_rows_def set_state_def)
qed

lemma lock_live_schedule_Inr:
  "lock_live_schedule s d = (Inr x, d1) \<Longrightarrow> rows d1 = rows d \<and> find_live s (rows d) = Some x"
  by (auto simp: lock_live_schedule_def dest!: queryD split: prod.splits option.splits)

lemma run_one_stmt:
  "run_stmts [f] d = (Inr u, d') \<Longrightarrow> rows d' = f (rows d)"
  using run_stmts_Inr [of "[f]" d u d'] by (simp del: run_stmts.simps)

lemma move_state_Inr: "move_state s y x d = (Inr z, d') \<Longrightarrow>
    z = set_state y x \<and> rows d' = update_schedule_row s (set_state y) (rows d)"
  by (auto simp: move_state_def dest!: run_one_stmt split: prod.splits sum.splits simp del: run_stmts.simps)

text \<open>After a transaction of the life cycle that reports success the row has the state it asked for.\<close>

lemma close_tx_Inr:
  assumes "close_tx s d = (Inr z, d')"
  shows "sc_lifecycle_state z = ScheduleLifecycleState.Closed \<and> find_live s (rows d') = Some z"
proof -
  obtain r d1 where l: "lock_live_schedule s d = (r, d1)" by (cases "lock_live_schedule s d")
  with assms obtain x where r: "r = Inr x" by (cases r) (auto simp: close_tx_def)
  note lx = lock_live_schedule_Inr [OF l [unfolded r]]
  show ?thesis
  proof (cases "sc_lifecycle_state x = ScheduleLifecycleState.Closed")
    case True
    with assms l r lx show ?thesis by (auto simp: close_tx_def)
  next
    case False
    with assms l r have "move_state s ScheduleLifecycleState.Closed x d1 = (Inr z, d')" by (simp add: close_tx_def)
    from move_state_Inr [OF this] lx show ?thesis by (simp add: find_live_set_state set_state_def)
  qed
qed

lemma committed_close:
  assumes "on_db (with_connection (atomically (close_tx s))) st = (Inr z, st1)"
  shows "sc_lifecycle_state z = ScheduleLifecycleState.Closed \<and> find_live s (rows (hs_db st1)) = Some z \<and> hs_cache st1 = hs_cache st"
proof -
  have c: "with_connection (atomically (close_tx s)) (hs_db st) = (Inr z, hs_db st1)"
    using hs_db_on_db [OF assms] by (cases "with_connection (atomically (close_tx s)) (hs_db st)") simp
  then obtain d1 where a: "atomically (close_tx s) d1 = (Inr z, hs_db st1)" by (cases rule: with_connection_cases) auto
  have "find_live s (rows (hs_db st1)) = Some z \<and> sc_lifecycle_state z = ScheduleLifecycleState.Closed"
  proof -
    obtain fb d0 where fb: "db_fault d1 = (fb, d0)" by (cases "db_fault d1")
    obtain y d2 where b: "close_tx s d0 = (y, d2)" by (cases "close_tx s d0")
    obtain fc d3 where fc: "db_fault d2 = (fc, d3)" by (cases "db_fault d2")
    from a fb b fc have "y = Inr z" "hs_db st1 = d3"
      by (auto simp: atomically_def split: if_splits sum.splits)
    with close_tx_Inr b db_faultD [OF fc] show ?thesis by auto
  qed
  with assms show ?thesis by (auto simp: on_db_def split: prod.splits)
qed

text \<open>
  C12 (a closing reaches every gateway). When the close request is answered with success, whatever was lost on the way, the
  row is closed, the announcement is on its channel and the marker is set: a gateway that has no cell for the
  schedule, even one that missed the announcement or was started later, refuses every lock request for it.
\<close>

theorem close_reaches_gateways:
  assumes "redis_service R" "nodes (hs_cache st) \<noteq> []" "close_schedule R s st = (Inr (), st')"
    and "nodes (net g) = nodes (hs_cache st')" "faults (net g) = []" "map_of (show_actors g) s = None" "length ts = length idx"
  shows "(\<exists>r. find_live s (rows (hs_db st')) = Some r \<and> sc_lifecycle_state r = ScheduleLifecycleState.Closed) \<and>
    (0, schedule_lifecycle_channel, event_json (ScheduleClosed s)) \<in> set (published (hs_cache st')) \<and>
    fst (lock R n m u s ts idx c g) = Inl ''schedule is closed''"
proof -
  obtain y st1 where t: "on_db (with_connection (atomically (close_tx s))) st = (y, st1)"
    by (cases "on_db (with_connection (atomically (close_tx s))) st")
  with assms(3) obtain z where y: "y = Inr z" by (cases y) (auto simp: close_schedule_def)
  note cc = committed_close [OF t [unfolded y]]
  from assms(3) t y have a: "announce R (if True then ScheduleClosed s else ScheduleOpened s) z st1 = (Inr (), st')"
    by (simp add: close_schedule_def)
  have ne: "nodes (hs_cache st1) \<noteq> []" using cc assms(2) by simp
  note an = announce_Inr [OF assms(1) a ne]
  have "hs_db st' = hs_db st1" using hs_db_announce [of R "ScheduleClosed s" z st1] a by simp
  moreover have "fst (lock R n m u s ts idx c g) = Inl ''schedule is closed''"
    using assms(4-7) an by (simp add: lock_def lock_submit_def get_or_create_show_actor_def closed_in_redis_def
        on_net_def reading_def)
  ultimately show ?thesis using cc an by (simp del: event_json.simps)
qed

theorem close_reaches_gateways_witness:
  "fst (close_schedule mem_redis 5 (hall_catalog ScheduleLifecycleState.Open)) = Inr () \<and>
   fst (lock mem_redis 0 0 7 5 [1] [1] 1 (empty_gateway\<lparr>net := (fresh_world 1)\<lparr>nodes :=
      nodes (hs_cache (snd (close_schedule mem_redis 5 (hall_catalog ScheduleLifecycleState.Open))))\<rparr>\<rparr>)) =
     Inl ''schedule is closed''"
proof -
  let ?r = "close_schedule mem_redis 5 (hall_catalog ScheduleLifecycleState.Open)"
  have "fst ?r = Inr ()"
    by (simp add: close_schedule_def on_db_def with_connection_def db_get_def db_fault_def atomically_def close_tx_def
        lock_live_schedule_def query_def find_live_def hall_catalog_def hall_db_def hall_schedule_def hall_seat_def
        move_state_def checked_def update_schedule_row_def set_state_def update_rows_def tables_ok_def keys_ok_def refs_ok_def
        announce_def on_cache_def publish_schedule_lifecycle_def publish_reply_def fresh_world_def)
  then obtain st' where r: "?r = (Inr (), st')" by (cases ?r) simp
  have ne: "nodes (hs_cache (hall_catalog ScheduleLifecycleState.Open)) \<noteq> []" by (simp add: hall_catalog_def fresh_world_def)
  from close_reaches_gateways [OF mem.redis_service_axioms ne r, of "empty_gateway\<lparr>net := (fresh_world 1)\<lparr>nodes := nodes (hs_cache st')\<rparr>\<rparr>" "[1]" "[1]"] r
  show ?thesis by (simp add: empty_gateway_def fresh_world_def)
qed

section \<open>Retries\<close>

lemma lock_live_no_faults:
  "db_faults d = [] \<Longrightarrow> find_live s (rows d) = Some x \<Longrightarrow> lock_live_schedule s d = (Inr x, d)"
  by (simp add: lock_live_schedule_def query_def db_fault_def)

lemma move_state_no_faults:
  "db_faults d = [] \<Longrightarrow> tables_ok (rows d) \<Longrightarrow>
   move_state s y x d = (Inr (set_state y x), d\<lparr>rows := update_schedule_row s (set_state y) (rows d)\<rparr>)"
  by (simp add: move_state_def db_fault_def checked_def set_state_tables_ok)

lemma close_tx_no_faults:
  assumes "db_faults d = []" "tables_ok (rows d)" "find_live s (rows d) = Some x"
  shows "\<exists>z d'. close_tx s d = (Inr z, d') \<and> db_faults d' = []"
  using assms by (simp add: close_tx_def lock_live_no_faults move_state_no_faults)

lemma close_no_faults:
  assumes "db_faults (hs_db st) = []" "faults (hs_cache st) = []" "tables_ok (rows (hs_db st))"
    and "find_live s (rows (hs_db st)) = Some x"
  shows "fst (close_schedule R s st) = Inr ()"
proof -
  obtain z d' where z: "close_tx s (hs_db st) = (Inr z, d')" "db_faults d' = []"
    using close_tx_no_faults [OF assms(1,3,4)] by blast
  with assms(1,2) show ?thesis
    by (simp add: close_schedule_def on_db_def with_connection_def db_get_def db_fault_def atomically_def
        announce_def on_cache_def publish_schedule_lifecycle_def publish_reply_def del: event_json.simps)
qed

lemma close_keeps_live:
  assumes "tables_ok (rows (hs_db st))" "find_live s (rows (hs_db st)) = Some x"
  shows "tables_ok (rows (hs_db (snd (close_schedule R s st)))) \<and>
    find_live s (rows (hs_db (snd (close_schedule R s st)))) \<noteq> None"
proof -
  let ?f = "atomically (close_tx s)"
  obtain y st1 where t: "on_db (with_connection ?f) st = (y, st1)" by (cases "on_db (with_connection ?f) st")
  obtain r d' where c: "with_connection ?f (hs_db st) = (r, d')" by (cases "with_connection ?f (hs_db st)")
  have same: "hs_db (snd (close_schedule R s st)) = d'"
    using hs_db_on_db [OF t] c by (simp add: close_schedule_def t hs_db_announce split: sum.split)
  from c have "tables_ok (rows d') \<and> find_live s (rows d') \<noteq> None"
  proof (cases rule: with_connection_cases)
    case refused
    with assms show ?thesis by simp
  next
    case (run d1)
    from run(2) show ?thesis
    proof (cases rule: atomically_cases)
      case unchanged
      with run(1) assms show ?thesis by simp
    next
      case (finished z d0 d2)
      have "rows d2 = rows d0 \<or> rows d2 = update_schedule_row s (set_state ScheduleLifecycleState.Closed) (rows d0)"
        using finished(2) by (auto simp: close_tx_def dest!: lock_live_scheduleD(1) move_state_Inr split: prod.splits sum.splits if_splits)
      with finished close_tx_Inr [OF finished(2)] run(1) assms(1) set_state_tables_ok show ?thesis by auto
    qed
  qed
  then show ?thesis by (simp add: same)
qed

text \<open>
  (a failed closing can be repeated). Whatever an attempt to close a live schedule came to, even one that lost the
  connection after its commit or half way through the announcement, the next attempt over a healthy network
  succeeds, and so the previous theorem applies to it.
\<close>

theorem close_can_be_repeated:
  assumes "tables_ok (rows (hs_db st))" "find_live s (rows (hs_db st)) = Some x"
    and "close_schedule R s st = (res, st1)"
    and "rows (hs_db st2) = rows (hs_db st1)" "db_faults (hs_db st2) = []" "faults (hs_cache st2) = []"
  shows "fst (close_schedule R s st2) = Inr ()"
proof -
  from close_keeps_live [OF assms(1,2), of R] assms(3) have "tables_ok (rows (hs_db st1))" "find_live s (rows (hs_db st1)) \<noteq> None"
    by simp_all
  with assms(4-6) show ?thesis by (auto intro: close_no_faults)
qed

text \<open>The hall with a cache that refuses its first exchange.\<close>

definition deaf_hall :: "keyspace catalog" where
  "deaf_hall = (hall_catalog ScheduleLifecycleState.Open)\<lparr>hs_cache := (fresh_world 1)\<lparr>faults := [Refused]\<rparr>\<rparr>"

lemma hall_tables: "tables_ok (rows (hall_db x))"
  using hall_inventory by (simp add: inventory_def)

lemma deaf_hall_live: "find_live 5 (rows (hs_db deaf_hall)) = Some (hall_schedule ScheduleLifecycleState.Open)"
  by (simp add: deaf_hall_def hall_catalog_def hall_db_def find_live_def hall_schedule_def)

theorem close_can_be_repeated_witness:
  "fst (close_schedule mem_redis 5 deaf_hall) = Inl Internal \<and>
   fst (close_schedule mem_redis 5 (snd (close_schedule mem_redis 5 deaf_hall))) = Inr ()"
proof -
  have 1: "fst (close_schedule mem_redis 5 deaf_hall) = Inl Internal \<and>
      db_faults (hs_db (snd (close_schedule mem_redis 5 deaf_hall))) = [] \<and>
      faults (hs_cache (snd (close_schedule mem_redis 5 deaf_hall))) = []"
    by (simp add: close_schedule_def on_db_def with_connection_def db_get_def db_fault_def atomically_def close_tx_def
        lock_live_schedule_def query_def find_live_def deaf_hall_def hall_catalog_def hall_db_def hall_schedule_def hall_seat_def
        move_state_def checked_def update_schedule_row_def set_state_def update_rows_def tables_ok_def keys_ok_def refs_ok_def
        announce_def on_cache_def publish_schedule_lifecycle_def send_def next_fault_def fresh_world_def Let_def writing_def)
  have ok: "tables_ok (rows (hs_db deaf_hall))" using hall_tables by (simp add: deaf_hall_def hall_catalog_def)
  obtain res st1 where r: "close_schedule mem_redis 5 deaf_hall = (res, st1)" by (cases "close_schedule mem_redis 5 deaf_hall")
  from close_can_be_repeated [OF ok deaf_hall_live r refl] 1 r show ?thesis by simp
qed

section \<open>Where the order of writes shows\<close>

lemma dead_query:
  assumes "find_live s (rows d) = None"
  shows "(\<exists>e d'. lock_live_schedule s d = (Inl e, d')) \<and> (\<exists>e d'. delete_rows now s d = (Inl e, d'))"
proof -
  obtain q d1 where q: "query (find_live s) d = (q, d1)" by (cases "query (find_live s) d")
  with queryD [OF q] assms have "q = None \<or> q = Some None" by auto
  then show ?thesis by (elim disjE) (simp_all add: lock_live_schedule_def delete_rows_def q)
qed

lemma atomically_Inl:
  fixes f :: "database \<Rightarrow> (AppError + Schedule) \<times> database"
  assumes "\<And>d'. rows d' = rows d \<Longrightarrow> \<exists>e d''. f d' = (Inl e, d'')"
  shows "\<exists>e d'. atomically f d = (Inl e, d')"
proof -
  obtain fb d0 where fb: "db_fault d = (fb, d0)" by (cases "db_fault d")
  obtain e d1 where "f d0 = (Inl e, d1)" using assms [OF db_faultD [OF fb]] by blast
  with fb show ?thesis by (simp add: atomically_def)
qed

lemma on_db_Inl:
  fixes f :: "database \<Rightarrow> (AppError + Schedule) \<times> database"
  assumes "\<And>d'. rows d' = rows (hs_db st) \<Longrightarrow> \<exists>e d''. f d' = (Inl e, d'')"
  shows "\<exists>e d'. on_db (with_connection f) st = (Inl e, st\<lparr>hs_db := d'\<rparr>)"
proof -
  obtain ok d1 where g: "db_get (hs_db st) = (ok, d1)" by (cases "db_get (hs_db st)")
  obtain e d2 where "f d1 = (Inl e, d2)" using assms [OF db_getD [OF g]] by blast
  with g show ?thesis by (cases ok) (auto simp: on_db_def with_connection_def)
qed

text \<open>
  (a deletion cannot be repeated). Once the row is marked as deleted, no request to delete, close or start the schedule
  touches Redis again, whatever the faults: if the deletion failed before its announcement, the marker stays
  unset and no gateway is ever told.
\<close>

theorem deleted_schedule_is_never_announced:
  assumes "find_live s (rows (hs_db st)) = None"
  shows "(\<exists>e. fst (delete_schedule R now s st) = Inl e) \<and> hs_cache (snd (delete_schedule R now s st)) = hs_cache st \<and>
    (\<exists>e. fst (close_schedule R s st) = Inl e) \<and> hs_cache (snd (close_schedule R s st)) = hs_cache st \<and>
    (\<exists>e. fst (start_schedule R s st) = Inl e) \<and> hs_cache (snd (start_schedule R s st)) = hs_cache st"
proof -
  have dead: "find_live s (rows d) = None" if "rows d = rows (hs_db st)" for d using assms that by simp
  have "\<exists>e d'. on_db (with_connection (delete_rows now s)) st = (Inl e, st\<lparr>hs_db := d'\<rparr>)"
    by (rule on_db_Inl) (use dead dead_query in blast)
  then obtain e1 d1 where 1: "on_db (with_connection (delete_rows now s)) st = (Inl e1, st\<lparr>hs_db := d1\<rparr>)" by blast
  have c: "\<exists>e d'. close_tx s d = (Inl e, d')" and o: "\<exists>e d'. start_tx s d = (Inl e, d')"
    if "rows d = rows (hs_db st)" for d
  proof -
    from dead_query [OF dead [OF that]] have "\<exists>e d'. lock_live_schedule s d = (Inl e, d')" ..
    then show "\<exists>e d'. close_tx s d = (Inl e, d')" "\<exists>e d'. start_tx s d = (Inl e, d')"
      by (auto simp: close_tx_def start_tx_def)
  qed
  obtain e2 d2 where 2: "on_db (with_connection (atomically (close_tx s))) st = (Inl e2, st\<lparr>hs_db := d2\<rparr>)"
    using on_db_Inl [of st "atomically (close_tx s)"] atomically_Inl [of _ "close_tx s"] c by metis
  obtain e3 d3 where 3: "on_db (with_connection (atomically (start_tx s))) st = (Inl e3, st\<lparr>hs_db := d3\<rparr>)"
    using on_db_Inl [of st "atomically (start_tx s)"] atomically_Inl [of _ "start_tx s"] o by metis
  show ?thesis by (simp add: delete_schedule_def close_schedule_def start_schedule_def 1 2 3)
qed

theorem deleted_schedule_is_never_announced_witness:
  "fst (delete_schedule mem_redis 9 5 deaf_hall) = Inl Internal \<and>
   (\<exists>e. fst (delete_schedule mem_redis 9 5 (snd (delete_schedule mem_redis 9 5 deaf_hall))) = Inl e) \<and>
   \<not> EXISTS mem_redis (schedule_closed_key 5) (nodes (hs_cache (snd (delete_schedule mem_redis 9 5
       (snd (delete_schedule mem_redis 9 5 deaf_hall))))) ! 0)"
proof -
  let ?st = "snd (delete_schedule mem_redis 9 5 deaf_hall)"
  have 1: "fst (delete_schedule mem_redis 9 5 deaf_hall) = Inl Internal \<and> find_live 5 (rows (hs_db ?st)) = None \<and>
      \<not> EXISTS mem_redis (schedule_closed_key 5) (nodes (hs_cache ?st) ! 0)"
    by (simp add: delete_schedule_def on_db_def with_connection_def db_get_def db_fault_def delete_rows_def execute_def
        query_def find_live_def deaf_hall_def hall_catalog_def hall_db_def hall_schedule_def hall_seat_def
        checked_def update_schedule_row_def update_rows_def tables_ok_def keys_ok_def refs_ok_def EXISTS_def mem_redis_simps
        announce_def on_cache_def publish_schedule_lifecycle_def send_def next_fault_def fresh_world_def Let_def writing_def)
  from deleted_schedule_is_never_announced [of 5 ?st mem_redis 9] 1 show ?thesis by simp
qed

text \<open>
  (a late opening undoes a closing). Neither handler holds the row while it announces. When a schedule is closed between
  the transaction of a start request and its announcement, all three succeed, the row is closed, and the marker
  is gone with \<open>ScheduleOpened\<close> announced last: the gateways take lock requests for the closed schedule again.
\<close>

theorem late_opening_unmarks_closed:
  assumes "redis_service R" "nodes (hs_cache st) \<noteq> []"
    and "on_db (with_connection (atomically (start_tx s))) st = (Inr r, st1)"
    and "close_schedule R s st1 = (Inr (), st2)" "announce R (ScheduleOpened s) r st2 = (Inr (), st3)"
  shows "(\<exists>x. find_live s (rows (hs_db st3)) = Some x \<and> sc_lifecycle_state x = ScheduleLifecycleState.Closed) \<and>
    \<not> EXISTS R (schedule_closed_key s) (nodes (hs_cache st3) ! 0) \<and>
    (0, schedule_lifecycle_channel, event_json (ScheduleOpened s)) \<in> set (published (hs_cache st3))"
proof -
  have ne1: "nodes (hs_cache st1) \<noteq> []" using assms(2,3) by (auto simp: on_db_def split: prod.splits)
  obtain y stc where t: "on_db (with_connection (atomically (close_tx s))) st1 = (y, stc)"
    by (cases "on_db (with_connection (atomically (close_tx s))) st1")
  with assms(4) obtain z where y: "y = Inr z" by (cases y) (auto simp: close_schedule_def)
  note cc = committed_close [OF t [unfolded y]]
  from assms(4) t y have a: "announce R (if True then ScheduleClosed s else ScheduleOpened s) z stc = (Inr (), st2)"
    by (simp add: close_schedule_def)
  have ne2: "nodes (hs_cache st2) \<noteq> []" using announce_Inr [OF assms(1) a] cc ne1 by simp
  have "hs_db st3 = hs_db stc"
    using hs_db_announce [of R "ScheduleClosed s" z stc] hs_db_announce [of R "ScheduleOpened s" r st2] a assms(5) by simp
  with cc announce_Inr [OF assms(1), of False s r st2 st3] assms(5) ne2 show ?thesis by (simp del: event_json.simps)
qed

lemma faults_invalidate: "faults w = [] \<Longrightarrow> faults (invalidate_async n R k w) = []"
  by (cases n) (simp_all add: invalidate_async.simps)

lemma faults_invalidate_all: "faults w = [] \<Longrightarrow> faults (fold (invalidate_async n R) ks w) = []"
  by (induction ks arbitrary: w) (simp_all add: faults_invalidate)

lemma faults_lifecycle_caches: "faults w = [] \<Longrightarrow> faults (invalidate_schedule_lifecycle_caches R r w) = []"
  by (simp add: invalidate_schedule_lifecycle_caches_def invalidate_show_schedule_caches_def faults_invalidate
      faults_invalidate_all)

lemma faults_announce:
  "faults (hs_cache st) = [] \<Longrightarrow> faults (hs_cache (snd (announce R (if c then ScheduleClosed s else ScheduleOpened s) r st))) = []"
  by (cases c) (simp_all add: announce_def on_cache_def do_cache_def publish_schedule_lifecycle_def publish_reply_def
      faults_lifecycle_caches del: event_json.simps)

theorem late_opening_unmarks_closed_witness:
  "\<exists>st3 :: keyspace catalog. (\<exists>x. find_live 5 (rows (hs_db st3)) = Some x \<and> sc_lifecycle_state x = ScheduleLifecycleState.Closed) \<and>
     \<not> EXISTS mem_redis (schedule_closed_key 5) (nodes (hs_cache st3) ! 0)"
proof -
  let ?st = "hall_catalog ScheduleLifecycleState.Open"
  let ?o = "on_db (with_connection (atomically (start_tx 5))) ?st"
  let ?c = "close_schedule mem_redis 5 ?st"
  have o: "?o = (Inr (hall_schedule ScheduleLifecycleState.Open), ?st)"
    by (simp add: on_db_def with_connection_def db_get_def db_fault_def atomically_def start_tx_def
        lock_live_schedule_def query_def find_live_def hall_catalog_def hall_db_def hall_schedule_def)
  have fl: "find_live 5 (rows (hs_db ?st)) = Some (hall_schedule ScheduleLifecycleState.Open)"
    by (simp add: hall_catalog_def hall_db_def find_live_def hall_schedule_def)
  have "fst ?c = Inr ()"
    by (rule close_no_faults [OF _ _ _ fl]) (simp_all add: hall_catalog_def fresh_world_def hall_tables, simp add: hall_db_def)
  then obtain st2 where c: "?c = (Inr (), st2)" by (cases ?c) simp
  obtain y stc where t: "on_db (with_connection (atomically (close_tx 5))) ?st = (y, stc)"
    by (cases "on_db (with_connection (atomically (close_tx 5))) ?st")
  with c obtain z where y: "y = Inr z" by (cases y) (auto simp: close_schedule_def)
  have "faults (hs_cache stc) = []" using committed_close [OF t [unfolded y]] by (simp add: hall_catalog_def fresh_world_def)
  from faults_announce [OF this, of mem_redis True 5 z] c t y have f2: "faults (hs_cache st2) = []"
    by (simp add: close_schedule_def)
  then obtain st3 where a: "announce mem_redis (ScheduleOpened 5) (hall_schedule ScheduleLifecycleState.Open) st2 = (Inr (), st3)"
    by (simp add: announce_def on_cache_def publish_schedule_lifecycle_def publish_reply_def del: event_json.simps)
  have ne: "nodes (hs_cache ?st) \<noteq> []" by (simp add: hall_catalog_def fresh_world_def)
  from late_opening_unmarks_closed [OF mem.redis_service_axioms ne o c a] show ?thesis by blast
qed

end
