(* ===== verification/User_Schedules_Props.thy ===== *)
theory User_Schedules_Props
  imports User_Schedules Schedules_Lifecycle
begin

text \<open>
  Properties of the public schedule API: its seat map decodes the bitmap as the websocket server does, what a closing
  over a healthy cache leaves in it, and where the two sources of truth of a reading, the cache and the
  bitmap over the database, let an old or a lost value win.
\<close>

section \<open>The seat map\<close>

lemma bitmap_seat_status_bf:
  "0 \<le> t \<Longrightarrow> bitmap_seat_status bs t =
     (if nat t * 2 div 8 < length bs
      then Some (let state = bf_get (nat t * 2) bs in if state = 1 then ''Locked'' else if state = 2 then ''Booked'' else ''Available'')
      else None)"
proof -
  have "6 - n * 2 mod 8 = 6 - 2 * (n * 2 mod 8 div 2)" for n :: nat by presburger
  from this [of "nat t"] show "0 \<le> t \<Longrightarrow> ?thesis" by (simp add: bitmap_seat_status_def bf_get_def bit_field_def Let_def)
qed

text \<open>
  C26 (two readers of one bitmap). The public seat map and the websocket server decode the bitmap with code of their own
  and agree on every seat: what the map calls locked or booked is what a subscriber of the room is told, and the
  map falls back to the database exactly for the seats beyond the end of the bitmap.
\<close>

theorem seat_map_matches_rooms:
  assumes "length bs \<le> 2 ^ 29" "0 \<le> t"
  shows "(bitmap_seat_status bs t = Some ''Locked'' \<longleftrightarrow> (t, SeatState_Locked) \<in> set (bitmap_snapshots bs)) \<and>
    (bitmap_seat_status bs t = Some ''Booked'' \<longleftrightarrow> (t, SeatState_Booked) \<in> set (bitmap_snapshots bs)) \<and>
    (bitmap_seat_status bs t = None \<longleftrightarrow> 4 * length bs \<le> nat t)"
proof -
  note field = set_seat_fields [of t _ bs, folded bitmap_snapshots_eq [OF assms(1)]]
  have beyond: "bf_get (nat t * 2) bs = 0" if "\<not> nat t * 2 div 8 < length bs" using that by (simp add: bf_get_def)
  have "nat t * 2 div 8 < length bs \<longleftrightarrow> \<not> 4 * length bs \<le> nat t" by linarith
  then show ?thesis
    unfolding field bitmap_seat_status_bf [OF assms(2)] using beyond assms(2)
    by (cases "bf_get (nat t * 2) bs = 1"; cases "bf_get (nat t * 2) bs = 2") (auto simp: from_bitmap_def Let_def)
qed

theorem seat_map_matches_rooms_witness:
  "bitmap_seat_status [24] 1 = Some ''Locked'' \<and> (1, SeatState_Locked) \<in> set (bitmap_snapshots [24])"
proof -
  have "bitmap_seat_status [24] 1 = Some ''Locked''" by (simp add: bitmap_seat_status_def)
  with seat_map_matches_rooms [of "[24]" 1] show ?thesis by simp
qed

text \<open>
  (a lost bitmap hides bookings). A booked seat whose schedule has no bitmap, after a loss of Redis, is shown as booked
  from the database. As soon as a seat of the same byte is locked, the byte exists, and the booked seat is shown
  as available.
\<close>

theorem lock_hides_booked_neighbour:
  assumes "redis_service R" "faults w = []" "nodes w = [r0]" "look R r0 (schedule_seat_bitmap s) = None"
    and "in_i32 t" "0 \<le> t" "0 \<le> ss_id row" "ss_id row \<noteq> t" "ss_id row div 4 = t div 4" "ss_status row = Booked"
    and "update_seat_metadata_lua R J now s [t] u x w = (b, w1)"
  shows "shown_status (GETBITS R (schedule_seat_bitmap s) (nodes w ! 0)) row = ''Booked'' \<and>
    shown_status (GETBITS R (schedule_seat_bitmap s) (nodes w1 ! 0)) row = ''Available''"
proof -
  let ?r = "metadata_pipe R J s u (now + x) t r0" and ?k = "nat (ss_id row)"
  have n: "nodes w \<noteq> []" by (simp add: assms(3))
  from metadata_single [OF assms(2) n assms(5,6,11)] have w1: "nodes w1 = [?r]" by (simp add: assms(3))
  have off: "bit_offset t < 2 ^ 32" "bit_offset t = nat t * 2"
    using bit_offset_small [OF assms(5,6)] bit_offset_nonneg [OF assms(5,6)] by simp_all
  have typed: "bits_typed (look R r0 (schedule_seat_bitmap s))" by (simp add: assms(4) bits_typed_def)
  have bits: "GETBITS R (schedule_seat_bitmap s) ?r = bf_set (nat t * 2) 1 []"
    using bits_of_bits_entry [OF off(1) typed] assms(4) off(2)
    by (simp add: GETBITS_def redis_service.metadata_pipe_look [OF assms(1)] bits_of_def)
  have byte: "?k * 2 div 8 = nat t * 2 div 8"
  proof -
    obtain i j where ij: "ss_id row = int i" "t = int j" using assms(6,7) by (metis nonneg_int_cases)
    have "i * 2 div 8 = i div 4" "j * 2 div 8 = j div 4" by presburger+
    moreover from ij assms(9) have "int (i div 4) = int (j div 4)" by (simp only: zdiv_int of_nat_numeral)
    ultimately show ?thesis by (simp add: ij)
  qed
  have "?k * 2 \<noteq> nat t * 2" using assms(6-8) by simp
  then have "bf_get (?k * 2) (bf_set (nat t * 2) 1 []) = bf_get (?k * 2) []" by (intro bf_get_set_other) simp_all
  then have zero: "bf_get (?k * 2) (bf_set (nat t * 2) 1 []) = 0" by (simp add: bf_get_def)
  have "?k * 2 div 8 < length (bf_set (nat t * 2) 1 [])" by (simp add: length_bf_set byte)
  then have "bitmap_seat_status (bf_set (nat t * 2) 1 []) (ss_id row) = Some ''Available''"
    by (simp add: bitmap_seat_status_bf assms(7) zero)
  moreover have "bitmap_seat_status [] (ss_id row) = None" by (simp add: bitmap_seat_status_bf assms(7))
  moreover have "GETBITS R (schedule_seat_bitmap s) r0 = []" using assms(4) by (simp add: GETBITS_def bits_of_def)
  ultimately show ?thesis
    using assms(3,10) by (simp add: shown_status_def w1 bits status_text_def)
qed

theorem lock_hides_booked_neighbour_witness:
  "shown_status (GETBITS mem_redis (schedule_seat_bitmap 5) (nodes (fresh_world 1 :: (keyspace, json) world) ! 0))
      (hall_seat\<lparr>ss_status := Booked\<rparr>) = ''Booked'' \<and>
   shown_status (GETBITS mem_redis (schedule_seat_bitmap 5)
      (nodes (snd (update_seat_metadata_lua mem_redis json_codec 100 5 [10] 7 300 (fresh_world 1 :: (keyspace, json) world))) ! 0))
      (hall_seat\<lparr>ss_status := Booked\<rparr>) = ''Available''"
proof -
  obtain b w1 where w1: "update_seat_metadata_lua mem_redis json_codec 100 5 [10] 7 300
      (fresh_world 1 :: (keyspace, json) world) = (b, w1)" by (metis surj_pair)
  show ?thesis
    unfolding w1 snd_conv
    by (rule lock_hides_booked_neighbour [OF mem.redis_service_axioms _ _ _ _ _ _ _ _ _ w1, of "\<lambda>_. None"])
      (simp_all add: fresh_world_def mem_redis_def in_i32_def hall_seat_def)
qed

section \<open>The cache without faults\<close>

lemma get_no_faults: "faults w = [] \<Longrightarrow> get_async_cached n R d k w = (Option.bind (GET R k (nodes w ! 0)) d, w)"
  by (cases n) (simp_all add: get_async_cached.simps reading_def split: option.split)

lemma invalidate_no_faults:
  "faults w = [] \<Longrightarrow> invalidate_async n R k w = w\<lparr>nodes := (nodes w)[0 := DEL R k (nodes w ! 0)]\<rparr>"
  by (cases n) (simp_all add: invalidate_async.simps writing_def)

lemma invalidate_all_no_faults:
  assumes "redis_service R" "faults w = []" "nodes w \<noteq> []"
  shows "nodes (fold (invalidate_async n R) ks w) \<noteq> [] \<and>
    look R (nodes (fold (invalidate_async n R) ks w) ! 0) = (\<lambda>k. if k \<in> set ks then None else look R (nodes w ! 0) k)"
  using assms(2,3)
proof (induction ks arbitrary: w)
  case (Cons k ks)
  let ?w = "w\<lparr>nodes := (nodes w)[0 := DEL R k (nodes w ! 0)]\<rparr>"
  from Cons.prems redis_service.look_DEL [OF assms(1)] have w: "faults ?w = []" "nodes ?w \<noteq> []"
    "look R (nodes ?w ! 0) = (look R (nodes w ! 0))(k := None)" by simp_all
  have "fold (invalidate_async n R) (k # ks) w = fold (invalidate_async n R) ks ?w"
    by (simp add: invalidate_no_faults [OF Cons.prems(1)])
  with Cons.IH [OF w(1,2)] w(3) show ?case by auto
qed simp

lemma through_cache_Inr:
  assumes "through_cache R de en k load st = (Inr x, st')" "faults (hs_cache st) = []"
  shows "(\<exists>raw. GET R k (nodes (hs_cache st) ! 0) = Some raw \<and> de raw = Some x) \<or>
    (\<exists>d d'. rows d = rows (hs_db st) \<and> load d = (Inr x, d'))"
proof (cases "Option.bind (GET R k (nodes (hs_cache st) ! 0)) de")
  case (Some y)
  with assms have "y = x"
    by (simp add: through_cache_def load_missing_def on_cache_def get_no_faults)
  with Some show ?thesis by (auto simp: bind_eq_Some_conv)
next
  case None
  obtain res st2 where l: "on_db (with_connection load) st = (res, st2)" by (cases "on_db (with_connection load) st")
  from assms None l have "res = Inr x"
    by (auto simp: through_cache_def load_missing_def on_cache_def get_no_faults split: sum.splits)
  with hs_db_on_db [OF l] have "with_connection load (hs_db st) = (Inr x, hs_db st2)"
    by (cases "with_connection load (hs_db st)") simp
  then show ?thesis by (cases rule: with_connection_cases) auto
qed

section \<open>A closing and the lists\<close>

lemma closed_cache:
  assumes "redis_service R" "faults (hs_cache st) = []" "nodes (hs_cache st) \<noteq> []"
    and "announce R (ScheduleClosed s) z st = (Inr (), st')"
  shows "faults (hs_cache st') = [] \<and>
    (\<forall>k. look R (nodes (hs_cache st') ! 0) k =
      (if k \<in> insert (cache_schedule_key (sc_id z)) (set (schedule_cache_keys z)) then None
       else if k = schedule_closed_key s then Some (str_entry ''1'' None)
       else look R (nodes (hs_cache st) ! 0) k))"
proof -
  let ?r = "SET R (schedule_closed_key s) ''1'' (nodes (hs_cache st) ! 0)"
  let ?w = "hs_cache st\<lparr>nodes := (nodes (hs_cache st))[0 := ?r],
      published := (0, schedule_lifecycle_channel, event_json (ScheduleClosed s)) # published (hs_cache st)\<rparr>"
  have w: "faults ?w = []" "nodes ?w \<noteq> []" "look R (nodes ?w ! 0) = (look R (nodes (hs_cache st) ! 0))(schedule_closed_key s \<mapsto> str_entry ''1'' None)"
    using assms(2,3) redis_service.look_SET [OF assms(1)] by simp_all
  let ?w1 = "?w\<lparr>nodes := (nodes ?w)[0 := DEL R (cache_schedule_key (sc_id z)) (nodes ?w ! 0)]\<rparr>"
  have w1: "faults ?w1 = []" "nodes ?w1 \<noteq> []" "look R (nodes ?w1 ! 0) = (look R (nodes ?w ! 0))(cache_schedule_key (sc_id z) := None)"
    using w redis_service.look_DEL [OF assms(1)] by simp_all
  have "hs_cache st' = invalidate_schedule_lifecycle_caches R z ?w"
    using assms(2,4) by (simp add: announce_def on_cache_def do_cache_def publish_schedule_lifecycle_def publish_reply_def
        writing_def del: event_json.simps split: prod.splits) (auto simp del: event_json.simps)
  also have "\<dots> = fold (invalidate_async 3 R) (schedule_cache_keys z) ?w1"
    unfolding invalidate_schedule_lifecycle_caches_def invalidate_show_schedule_caches_def invalidate_no_faults [OF w(1)] ..
  finally have eq: "hs_cache st' = fold (invalidate_async 3 R) (schedule_cache_keys z) ?w1" .
  have "faults (hs_cache st') = []" unfolding eq by (rule faults_invalidate_all [OF w1(1)])
  moreover have "look R (nodes (hs_cache st') ! 0) = (\<lambda>k. if k \<in> set (schedule_cache_keys z) then None else look R (nodes ?w1 ! 0) k)"
    unfolding eq using invalidate_all_no_faults [OF assms(1) w1(1,2)] by blast
  ultimately show ?thesis unfolding w1(3) w(3) by auto
qed

lemma closed_rows:
  assumes "tables_ok T" "find_live s T = Some z" "sc_lifecycle_state z = ScheduleLifecycleState.Closed"
    and "r \<in> set (schedules T)" "sc_id r = s"
  shows "sc_lifecycle_state r = ScheduleLifecycleState.Closed"
proof -
  have "z \<in> set (schedules T)" "sc_id z = s"
    using assms(2) find_Some_iff [of _ "schedules T" z] by (auto simp: find_live_def)
  with assms(1,4,5) have "r = z" by (auto simp: tables_ok_def keys_ok_def distinct_map inj_on_def)
  with assms(3) show ?thesis by simp
qed

lemma load_schedules_Inr: "load_schedules P d = (Inr rs, d') \<Longrightarrow> set rs = {r \<in> set (schedules (rows d)). P r}"
  by (auto simp: load_schedules_def select_schedules_def dest!: queryD split: prod.splits option.splits)

lemma load_details_Inr: "load_details s d = (Inr r, d') \<Longrightarrow> r \<in> set (schedules (rows d)) \<and> sc_id r = s"
  by (auto simp: load_details_def find_schedule_def find_Some_iff dest!: queryD sym [of "Some r"]
      split: prod.splits option.splits)

text \<open>A closing over a healthy cache: the rows, and what is left in the cache.\<close>

lemma close_healthy:
  assumes "redis_service R" "faults (hs_cache st) = []" "nodes (hs_cache st) \<noteq> []"
    and "tables_ok (rows (hs_db st))" "find_live s (rows (hs_db st)) = Some x"
    and "close_schedule R s st = (Inr (), st1)"
  obtains z where "find_live s (rows (hs_db st1)) = Some z" "sc_lifecycle_state z = ScheduleLifecycleState.Closed"
    "tables_ok (rows (hs_db st1))" "faults (hs_cache st1) = []" "schedule_cache_keys z = schedule_cache_keys x" "sc_id z = s"
    "\<And>k. look R (nodes (hs_cache st1) ! 0) k = (if k \<in> insert (cache_schedule_key s) (set (schedule_cache_keys x)) then None
       else if k = schedule_closed_key s then Some (str_entry ''1'' None) else look R (nodes (hs_cache st) ! 0) k)"
proof -
  obtain y stc where t: "on_db (with_connection (atomically (close_tx s))) st = (y, stc)"
    by (cases "on_db (with_connection (atomically (close_tx s))) st")
  with assms(6) obtain z where y: "y = Inr z" by (cases y) (auto simp: close_schedule_def)
  note cc = committed_close [OF t [unfolded y]]
  from assms(6) t y have a: "announce R (ScheduleClosed s) z stc = (Inr (), st1)" by (simp add: close_schedule_def)
  have db: "hs_db st1 = hs_db stc" using hs_db_announce [of R "ScheduleClosed s" z stc] a by simp
  have same: "z = x \<or> z = set_state ScheduleLifecycleState.Closed x"
  proof -
    have c: "with_connection (atomically (close_tx s)) (hs_db st) = (Inr z, hs_db stc)"
      using hs_db_on_db [OF t] y by (cases "with_connection (atomically (close_tx s)) (hs_db st)") simp
    then obtain d1 where d1: "rows d1 = rows (hs_db st)" "atomically (close_tx s) d1 = (Inr z, hs_db stc)"
      by (cases rule: with_connection_cases) auto
    from d1(2) obtain d0 d2 where d2: "rows d0 = rows d1" "close_tx s d0 = (Inr z, d2)"
      by (auto simp: atomically_def dest!: db_faultD split: prod.splits if_splits sum.splits)
    then show ?thesis
      using assms(5) d1(1) by (auto simp: close_tx_def dest!: lock_live_schedule_Inr move_state_Inr split: prod.splits sum.splits if_splits)
  qed
  then have keys: "schedule_cache_keys z = schedule_cache_keys x" by (auto simp: schedule_cache_keys_def set_state_def)
  have id: "sc_id z = s"
    using cc find_Some_iff [of _ "schedules (rows (hs_db stc))" z] by (auto simp: find_live_def)
  have ok: "tables_ok (rows (hs_db st1))" using close_keeps_live [OF assms(4,5), of R] assms(6) by simp
  from closed_cache [OF assms(1) _ _ a] cc assms(2,3) that [of z] ok keys id db show thesis by simp
qed

definition plain_codec :: cache_codec where
  "plain_codec =
     \<lparr>en_schedules = (\<lambda>_. ''[]''), de_schedules = (\<lambda>x. if x = ''[]'' then Some [] else None),
      en_schedule = (\<lambda>r. dec (int (stage (sc_lifecycle_state r)))),
      de_schedule = (\<lambda>x. if x = dec 1 then Some (hall_schedule ScheduleLifecycleState.Open) else None),
      de_count = parse_dec\<rparr>"

section \<open>Old values that win\<close>

lemma set_no_faults:
  "faults w = [] \<Longrightarrow> set_async_cached n R k raw ttl w =
     w\<lparr>nodes := (nodes w)[0 := SETPX R k raw (ttl * 1000) (nodes w ! 0)]\<rparr>"
  by (cases n) (simp_all add: set_async_cached.simps writing_def)

lemma through_cache_hit:
  assumes "faults (hs_cache st) = []" "GET R k (nodes (hs_cache st) ! 0) = Some raw" "de raw = Some x"
  shows "through_cache R de en k load st = (Inr x, st)"
  using assms by (simp add: through_cache_def load_missing_def on_cache_def get_no_faults)

text \<open>
  (a late write brings back the old row). A reader that missed the cache and read an open row before a closing, and
  writes it back after the closing has removed the key, leaves it in the cache: until it expires a day later, the details of the
  closed schedule call it open for booking.
\<close>

theorem late_cache_write_is_stale:
  assumes "redis_service R" "nodes (hs_cache st) \<noteq> []"
    and "load_missing R (de_schedule C) (cache_schedule_key s) (load_details s) st = (Inr (r, True), st1)"
    and "sc_lifecycle_state r = ScheduleLifecycleState.Open" "sc_deleted_at r = None" "de_schedule C (en_schedule C r) = Some r"
    and "close_schedule R s st1 = (Inr (), st2)" "faults (hs_cache st2) = []" "nodes (hs_cache st2) \<noteq> []"
    and "write_back R (cache_schedule_key s) (en_schedule C r) st2 = st3"
  shows "(\<exists>x. find_live s (rows (hs_db st3)) = Some x \<and> sc_lifecycle_state x = ScheduleLifecycleState.Closed) \<and>
    (\<exists>d. get_schedule_details R C A now s st3 = (Inr d, st3) \<and> dt_booking_open d)"
proof -
  obtain y stc where t: "on_db (with_connection (atomically (close_tx s))) st1 = (y, stc)"
    by (cases "on_db (with_connection (atomically (close_tx s))) st1")
  with assms(7) obtain z where y: "y = Inr z" by (cases y) (auto simp: close_schedule_def)
  note cc = committed_close [OF t [unfolded y]]
  from assms(7) t y have a: "announce R (ScheduleClosed s) z stc = (Inr (), st2)" by (simp add: close_schedule_def)
  have db: "hs_db st3 = hs_db stc"
    using hs_db_announce [of R "ScheduleClosed s" z stc] a assms(10) by (auto simp: write_back_def hs_db_on_cache)
  have st3: "hs_cache st3 = hs_cache st2\<lparr>nodes := (nodes (hs_cache st2))[0 :=
      SETPX R (cache_schedule_key s) (en_schedule C r) (TTL_SHOW_SCHEDULES * 1000) (nodes (hs_cache st2) ! 0)]\<rparr>"
    using assms(10) by (auto simp: write_back_def do_cache_def set_no_faults [OF assms(8)])
  have "faults (hs_cache st3) = []" "GET R (cache_schedule_key s) (nodes (hs_cache st3) ! 0) = Some (en_schedule C r)"
    using assms(8,9) redis_service.look_SETPX [OF assms(1)]
    by (simp_all add: st3 GET_def TTL_SHOW_SCHEDULES_def str_of_def str_entry_def)
  from through_cache_hit [OF this, of "de_schedule C" r "en_schedule C" "load_details s", OF assms(6)]
  have "get_schedule_details R C A now s st3 = (details_view A now r, st3)" by (simp add: get_schedule_details_def)
  with cc db assms(4,5) show ?thesis by (simp add: details_view_def)
qed

theorem late_cache_write_is_stale_witness:
  "\<exists>st3 :: keyspace catalog. (\<exists>x. find_live 5 (rows (hs_db st3)) = Some x \<and> sc_lifecycle_state x = ScheduleLifecycleState.Closed) \<and>
     (\<exists>d. get_schedule_details mem_redis plain_codec plain_admin 0 5 st3 = (Inr d, st3) \<and> dt_booking_open d)"
proof -
  let ?st = "hall_catalog ScheduleLifecycleState.Open" and ?row = "hall_schedule ScheduleLifecycleState.Open"
  have l: "load_missing mem_redis (de_schedule plain_codec) (cache_schedule_key 5) (load_details 5) ?st = (Inr (?row, True), ?st)"
    by (simp add: load_missing_def on_cache_def get_no_faults hall_catalog_def fresh_world_def GET_def mem_redis_simps str_of_def
        on_db_def with_connection_def db_get_def db_fault_def load_details_def query_def find_schedule_def hall_db_def hall_schedule_def)
  have h: "faults (hs_cache ?st) = []" "nodes (hs_cache ?st) \<noteq> []" "tables_ok (rows (hs_db ?st))" "db_faults (hs_db ?st) = []"
    "find_live 5 (rows (hs_db ?st)) = Some ?row"
    using hall_tables by (simp_all add: hall_catalog_def fresh_world_def hall_db_def find_live_def hall_schedule_def)
  have c: "close_schedule mem_redis 5 ?st = (Inr (), snd (close_schedule mem_redis 5 ?st))"
    using close_no_faults [OF h(4,1,3,5)] by (metis prod.collapse)
  obtain y stc where t: "on_db (with_connection (atomically (close_tx 5))) ?st = (y, stc)"
    by (cases "on_db (with_connection (atomically (close_tx 5))) ?st")
  with c obtain z where y: "y = Inr z" by (cases y) (auto simp: close_schedule_def)
  have stc: "hs_cache stc = hs_cache ?st" using committed_close [OF t [unfolded y]] by simp
  from c t y have a: "announce mem_redis (ScheduleClosed 5) z stc = (Inr (), snd (close_schedule mem_redis 5 ?st))"
    by (simp add: close_schedule_def)
  have f: "faults (hs_cache (snd (close_schedule mem_redis 5 ?st))) = []"
    using closed_cache [OF mem.redis_service_axioms _ _ a] stc h(1,2) by simp
  have n: "nodes (hs_cache (snd (close_schedule mem_redis 5 ?st))) \<noteq> []"
    using announce_Inr [OF mem.redis_service_axioms, of True 5 z stc] a stc h(2) by simp
  have row: "sc_lifecycle_state ?row = ScheduleLifecycleState.Open" "sc_deleted_at ?row = None"
    "de_schedule plain_codec (en_schedule plain_codec ?row) = Some ?row"
    by (simp_all add: hall_schedule_def plain_codec_def)
  from late_cache_write_is_stale [OF mem.redis_service_axioms h(2) l row c f n refl, of plain_admin 0] show ?thesis by blast
qed

text \<open>
  (extra seats leave the counts). Adding seats removes the row of the schedule and the list of active schedules from the
  cache, but not its two seat counts: as long as those are cached, every list shows the old numbers.
\<close>

theorem extra_seats_leave_counts:
  assumes "redis_service R" "faults (hs_cache st) = []" "nodes (hs_cache st) \<noteq> []"
    and "Option.bind (GET R (cache_schedule_total_seats_key s) (nodes (hs_cache st) ! 0)) (de_count C) = Some t"
    and "Option.bind (GET R (cache_schedule_available_seats_key s) (nodes (hs_cache st) ! 0)) (de_count C) = Some a"
  shows "fst (load_schedule_seat_counts R C [s] (snd (add_extra_seats A R s ids seats st))) = Inr ([s \<mapsto> t], [s \<mapsto> a])"
proof -
  let ?st = "snd (add_extra_seats A R s ids seats st)"
  obtain res st1 where d: "on_db (with_connection (atomically (add_seats_tx A s ids seats))) st = (res, st1)"
    by (cases "on_db (with_connection (atomically (add_seats_tx A s ids seats))) st")
  then have c1: "hs_cache st1 = hs_cache st" by (auto simp: on_db_def split: prod.splits)
  let ?ks = "[cache_schedule_key s, cache_schedules_active_key]"
  have alt: "hs_cache ?st = hs_cache st \<or> hs_cache ?st = fold (invalidate_async 3 R) ?ks (hs_cache st)"
    using c1 by (simp add: add_extra_seats_def d do_cache_def split: sum.split)
  have f: "faults (hs_cache ?st) = []"
    using alt assms(2) faults_invalidate_all [OF assms(2), of 3 R ?ks] by (elim disjE) (simp_all only:)
  have keys: "cache_schedule_total_seats_key s \<notin> set ?ks" "cache_schedule_available_seats_key s \<notin> set ?ks"
    by (simp_all add: cache_schedule_total_seats_key_def cache_schedule_available_seats_key_def cache_schedule_key_def
        cache_schedules_active_key_def)
  have g: "GET R k (nodes (hs_cache ?st) ! 0) = GET R k (nodes (hs_cache st) ! 0)" if "k \<notin> set ?ks" for k
    using alt that invalidate_all_no_faults [OF assms(1-3), of 3 ?ks] by (elim disjE) (simp_all only: GET_def if_False)
  note g = g [OF keys(1)] g [OF keys(2)]
  show ?thesis
    using assms(4,5) by (simp add: load_schedule_seat_counts_def on_cache_def get_no_faults [OF f] g Let_def)
qed

definition counted_hall :: "keyspace catalog" where
  "counted_hall = (hall_catalog ScheduleLifecycleState.Scheduled)\<lparr>hs_cache :=
     \<lparr>nodes = [[cache_schedule_total_seats_key 5 \<mapsto> str_entry (dec 1) None,
               cache_schedule_available_seats_key 5 \<mapsto> str_entry (dec 1) None]], faults = [], published = []\<rparr>\<rparr>"

theorem extra_seats_leave_counts_witness:
  "fst (load_schedule_seat_counts mem_redis plain_codec [5]
     (snd (add_extra_seats plain_admin mem_redis 5 (\<lambda>k. 20 + int k) more_seats counted_hall))) = Inr ([5 \<mapsto> 1], [5 \<mapsto> 1]) \<and>
   map ss_seat_index (schedule_seats (rows (hs_db
     (snd (add_extra_seats plain_admin mem_redis 5 (\<lambda>k. 20 + int k) more_seats counted_hall))))) = [1, 2]"
proof -
  have "map ss_seat_index (schedule_seats (rows (hs_db
      (snd (add_extra_seats plain_admin mem_redis 5 (\<lambda>k. 20 + int k) more_seats counted_hall))))) = [1, 2]"
    by (simp add: add_extra_seats_def more_seats_def on_db_def with_connection_def db_get_def db_fault_def atomically_def
        add_seats_tx_def lock_live_schedule_def query_def find_live_def counted_hall_def hall_catalog_def hall_db_def
        hall_schedule_def hall_seat_def seat_keys_def seats_in_def max_seat_index_def in_i32_def plain_admin_def Let_def
        checked_def insert_seats_def seat_rows_def seat_row_def tables_ok_def keys_ok_def refs_ok_def do_cache_def)
  moreover have "cache_schedule_total_seats_key 5 \<noteq> cache_schedule_available_seats_key 5"
    by (simp add: cache_schedule_total_seats_key_def cache_schedule_available_seats_key_def)
  ultimately show ?thesis
    using extra_seats_leave_counts [OF mem.redis_service_axioms, of counted_hall 5 plain_codec 1 1 plain_admin "\<lambda>k. 20 + int k" more_seats]
    by (simp add: counted_hall_def GET_def mem_redis_simps str_of_def str_entry_def plain_codec_def)
qed

end
