(* ===== verification/List_Cache.thy ===== *)
theory List_Cache
  imports User_Schedules_Props
begin

text \<open>
  The cached lists of the public schedule API, from an empty cache on: what the reading handlers of
  \<open>user/schedules_v2.rs\<close> write back under which key, along any run of them with the life-cycle handlers of
  \<open>admin/schedules_v2.rs\<close> and with failing exchanges, and that a closing then removes every list with the schedule.
\<close>

section \<open>Lists and their keys\<close>

definition list_key :: "string \<Rightarrow> bool" where
  "list_key k \<longleftrightarrow> k = cache_schedules_active_key \<or> (\<exists>m c. k = cache_show_schedules_key m c)"

lemma list_key_simps [simp]:
  "list_key cache_schedules_active_key" "list_key (cache_show_schedules_key m c)" "\<not> list_key (cache_schedule_key s)"
  "\<not> list_key (cache_schedule_total_seats_key s)" "\<not> list_key (cache_schedule_available_seats_key s)"
  "\<not> list_key (schedule_closed_key s)"
  by (auto simp: list_key_def cache_schedules_active_key_def cache_show_schedules_key_def cache_schedule_key_def
      cache_schedule_total_seats_key_def cache_schedule_available_seats_key_def schedule_closed_key_def)

text \<open>A row may be in the list of all active schedules, in that of its show, and in that of its show and city.\<close>

definition belongs_under :: "string \<Rightarrow> Schedule \<Rightarrow> bool" where
  "belongs_under k r \<longleftrightarrow> k = cache_schedules_active_key \<or> k = cache_show_schedules_key (sc_mongo_show_id r) None \<or>
     k = cache_show_schedules_key (sc_mongo_show_id r) (sc_venue_city r)"

definition place :: "Schedule \<Rightarrow> schedule_id \<times> string \<times> string option" where
  "place r = (sc_id r, sc_mongo_show_id r, sc_venue_city r)"

definition places :: "tables \<Rightarrow> (schedule_id \<times> string \<times> string option) set" where
  "places T = place ` set (schedules T)"

definition lists_filed :: "'r redis \<Rightarrow> cache_codec \<Rightarrow> 'r catalog \<Rightarrow> bool" where
  "lists_filed R C st \<longleftrightarrow> nodes (hs_cache st) \<noteq> [] \<and>
     (\<forall>k raw rs. list_key k \<longrightarrow> GET R k (nodes (hs_cache st) ! 0) = Some raw \<longrightarrow> de_schedules C raw = Some rs \<longrightarrow>
        (\<forall>r \<in> set rs. belongs_under k r \<and> place r \<in> places (rows (hs_db st))))"

section \<open>Exchanges that add no list\<close>

definition fades :: "'r redis \<Rightarrow> ('r, 'p) world \<Rightarrow> ('r, 'p) world \<Rightarrow> bool" where
  "fades R w w' \<longleftrightarrow> (nodes w \<noteq> [] \<longrightarrow> nodes w' \<noteq> [] \<and> (\<forall>k. list_key k \<longrightarrow>
     look R (nodes w' ! 0) k = look R (nodes w ! 0) k \<or> look R (nodes w' ! 0) k = None))"

lemma fades_same: "nodes w' = nodes w \<Longrightarrow> fades R w w'"
  by (simp add: fades_def)

lemma fades_refl [simp]: "fades R w w"
  by (simp add: fades_same)

lemma fades_trans [trans]: "fades R w w1 \<Longrightarrow> fades R w1 w2 \<Longrightarrow> fades R w w2"
  unfolding fades_def by metis

lemma send_fades:
  assumes "send 0 c w = (x, w')"
    and "\<And>r k. list_key k \<Longrightarrow> look R (snd (c r)) k = look R r k \<or> look R (snd (c r)) k = None"
  shows "fades R w w'"
  using assms(1)
proof (cases rule: send_cases)
  case run
  with assms(2) show ?thesis by (auto simp: fades_def)
qed (rule fades_same)

lemma reading_fades: "send 0 (reading f) w = (x, w') \<Longrightarrow> fades R w w'"
  by (rule send_fades) (auto simp: reading_def)

lemma del_fades: "redis_service R \<Longrightarrow> send 0 (writing (DEL R k)) w = (x, w') \<Longrightarrow> fades R w w'"
  by (rule send_fades) (auto simp: writing_def redis_service.look_DEL split: if_splits)

lemma set_fades: "redis_service R \<Longrightarrow> \<not> list_key k \<Longrightarrow> send 0 (writing (SET R k v)) w = (x, w') \<Longrightarrow> fades R w w'"
  by (rule send_fades) (auto simp: writing_def redis_service.look_SET split: if_splits)

lemma setpx_fades:
  "redis_service R \<Longrightarrow> \<not> list_key k \<Longrightarrow> 0 < t \<Longrightarrow> send 0 (writing (SETPX R k v t)) w = (x, w') \<Longrightarrow> fades R w w'"
  by (rule send_fades) (auto simp: writing_def redis_service.look_SETPX split: if_splits)

lemma get_cached_fades: "fades R w (snd (get_async_cached n R d k w))"
proof (induction n arbitrary: w)
  case 0
  show ?case by (cases "send 0 (reading (GET R k)) w")
      (auto simp: get_async_cached.simps dest: reading_fades split: option.split)
next
  case (Suc n)
  obtain x w1 where s: "send 0 (reading (GET R k)) w = (x, w1)" by (cases "send 0 (reading (GET R k)) w")
  from reading_fades [OF s] fades_trans [OF reading_fades [OF s] Suc.IH] s show ?case
    by (auto simp: get_async_cached.simps split: option.split)
qed

lemma invalidate_fades: "redis_service R \<Longrightarrow> fades R w (invalidate_async n R k w)"
proof (induction n arbitrary: w)
  case 0
  then show ?case by (cases "send 0 (writing (DEL R k)) w")
      (auto simp: invalidate_async.simps dest: del_fades split: option.split)
next
  case (Suc n)
  obtain x w1 where s: "send 0 (writing (DEL R k)) w = (x, w1)" by (cases "send 0 (writing (DEL R k)) w")
  from del_fades [OF Suc.prems s] fades_trans [OF del_fades [OF Suc.prems s] Suc.IH [OF Suc.prems]] s show ?case
    by (auto simp: invalidate_async.simps split: option.split)
qed

lemma invalidate_all_fades: "redis_service R \<Longrightarrow> fades R w (fold (invalidate_async n R) ks w)"
proof (induction ks arbitrary: w)
  case (Cons k ks)
  then show ?case using fades_trans [OF invalidate_fades [OF Cons.prems] Cons.IH [OF Cons.prems]] by simp
qed simp

text \<open>A list written back is under its key alone.\<close>

lemma set_cached_look:
  assumes "redis_service R" "0 < t" "nodes w \<noteq> []"
  shows "nodes (set_async_cached n R k v t w) \<noteq> [] \<and>
    (look R (nodes (set_async_cached n R k v t w) ! 0) = look R (nodes w ! 0) \<or>
     look R (nodes (set_async_cached n R k v t w) ! 0) = (look R (nodes w ! 0))(k \<mapsto> str_entry v (Some (t * 1000))))"
  using assms(3)
proof (induction n arbitrary: w)
  case 0
  obtain x w1 where s: "send 0 (writing (SETPX R k v (t * 1000))) w = (x, w1)"
    by (cases "send 0 (writing (SETPX R k v (t * 1000))) w")
  from s show ?case
    by (cases rule: send_cases)
      (use s 0 assms(1,2) in \<open>auto simp: set_async_cached.simps writing_def redis_service.look_SETPX split: option.split\<close>)
next
  case (Suc n)
  obtain x w1 where s: "send 0 (writing (SETPX R k v (t * 1000))) w = (x, w1)"
    by (cases "send 0 (writing (SETPX R k v (t * 1000))) w")
  from s have w1: "nodes w1 \<noteq> [] \<and> (look R (nodes w1 ! 0) = look R (nodes w ! 0) \<or>
      look R (nodes w1 ! 0) = (look R (nodes w ! 0))(k \<mapsto> str_entry v (Some (t * 1000))))"
    by (cases rule: send_cases) (use Suc.prems assms(1,2) in \<open>auto simp: writing_def redis_service.look_SETPX\<close>)
  with Suc.IH [of w1] s show ?case by (auto simp: set_async_cached.simps split: option.split)
qed

lemma set_cached_fades: "redis_service R \<Longrightarrow> \<not> list_key k \<Longrightarrow> 0 < t \<Longrightarrow> fades R w (set_async_cached n R k v t w)"
  using set_cached_look [of R t w n k v] by (auto simp: fades_def split: if_splits)

lemma read_counts_fades: "fades R w (snd (read_counts R C ss w))"
proof (induction ss arbitrary: w)
  case (Cons s ss)
  obtain t w1 where 1: "get_async_cached 3 R (de_count C) (cache_schedule_total_seats_key s) w = (t, w1)" by (metis surj_pair)
  obtain a w2 where 2: "get_async_cached 3 R (de_count C) (cache_schedule_available_seats_key s) w1 = (a, w2)" by (metis surj_pair)
  have "fades R w w1" "fades R w1 w2" using get_cached_fades [of R w] get_cached_fades [of R w1] 1 2 by (metis snd_conv)+
  from fades_trans [OF fades_trans [OF this] Cons.IH] show ?case by (cases "read_counts R C ss w2") (auto simp: 1 2)
qed simp

lemma write_counts_fades: "redis_service R \<Longrightarrow> fades R w (fold (write_counts R dt da) ss w)"
proof (induction ss arbitrary: w)
  case (Cons s ss)
  have "fades R w (write_counts R dt da s w)"
    unfolding write_counts_def
    by (rule fades_trans [OF set_cached_fades set_cached_fades])
      (use Cons.prems in \<open>simp_all add: TTL_SCHEDULE_SEAT_COUNTS_def TTL_SHOW_SCHEDULES_def\<close>)
  from fades_trans [OF this Cons.IH [OF Cons.prems]] show ?case by simp
qed simp

lemma publish_fades: "publish_reply ch x w = (ok, w') \<Longrightarrow> fades R w w'"
  by (rule fades_same) (cases "next_fault w"; use nodes_next_fault [of w] in \<open>auto simp: publish_reply_def\<close>)

lemma lifecycle_fades:
  assumes "redis_service R"
  shows "fades R w (snd (publish_schedule_lifecycle R ev w))"
proof -
  have cmd: "fades R w (snd (case send 0 c w of (None, w1) \<Rightarrow> (Inl e, w1)
      | (Some u, w1) \<Rightarrow> (case publish_reply ch x w1 of (ok, w2) \<Rightarrow> (if ok then Inr () else Inl e', w2))))"
    if "\<And>y w1. send 0 c w = (y, w1) \<Longrightarrow> fades R w w1" for c :: "'a \<Rightarrow> unit \<times> 'a" and e e' :: AppError and ch x
  proof -
    obtain y w1 where s: "send 0 c w = (y, w1)" by (cases "send 0 c w")
    obtain ok w2 where p: "publish_reply ch x w1 = (ok, w2)" by (cases "publish_reply ch x w1")
    from that [OF s] fades_trans [OF that [OF s] publish_fades [OF p]] s p show ?thesis by (simp split: option.split)
  qed
  show ?thesis
  proof (cases ev)
    case (ScheduleOpened s)
    from cmd [OF del_fades [OF assms, where k = "schedule_closed_key s"]] ScheduleOpened show ?thesis
      by (simp add: publish_schedule_lifecycle_def del: event_json.simps)
  next
    case (ScheduleClosed s)
    from cmd [OF set_fades [OF assms list_key_simps(6), where v = "''1''"]] ScheduleClosed show ?thesis
      by (simp add: publish_schedule_lifecycle_def del: event_json.simps)
  qed (simp_all add: publish_schedule_lifecycle_def)
qed

lemma announce_fades:
  assumes "redis_service R"
  shows "fades R (hs_cache st) (hs_cache (snd (announce R ev r st)))"
proof -
  have inv: "fades R w (invalidate_schedule_lifecycle_caches R r w)" for w :: "('a, json) world"
    unfolding invalidate_schedule_lifecycle_caches_def invalidate_show_schedule_caches_def
    by (rule fades_trans [OF invalidate_fades [OF assms] invalidate_all_fades [OF assms]])
  obtain y w where p: "publish_schedule_lifecycle R ev (hs_cache st) = (y, w)"
    by (cases "publish_schedule_lifecycle R ev (hs_cache st)")
  with lifecycle_fades [OF assms, of "hs_cache st" ev] have f: "fades R (hs_cache st) w" by simp
  from f fades_trans [OF f inv] p show ?thesis by (simp add: announce_def on_cache_def do_cache_def split: sum.split)
qed

section \<open>Rows that keep their place\<close>

lemma places_update_row: "(\<And>r. place (f r) = place r) \<Longrightarrow> places (update_schedule_row s f T) = places T"
proof -
  assume a: "\<And>r. place (f r) = place r"
  have "place ` (\<lambda>r. if sc_id r = s then f r else r) ` A = place ` A" for A
    unfolding image_image by (intro image_cong) (simp_all add: a)
  moreover have "set (schedules (update_schedule_row s f T)) = (\<lambda>r. if sc_id r = s then f r else r) ` set (schedules T)"
    by (simp add: update_schedule_row_def update_rows_def)
  ultimately show ?thesis unfolding places_def by (simp only:)
qed

lemma on_db_places:
  assumes "\<And>d r d'. f d = (r, d') \<Longrightarrow> places (rows d) \<subseteq> places (rows d')" "on_db (with_connection f) st = (res, st1)"
  shows "places (rows (hs_db st)) \<subseteq> places (rows (hs_db st1)) \<and> hs_cache st1 = hs_cache st"
proof -
  obtain r d' where c: "with_connection f (hs_db st) = (r, d')" by (cases "with_connection f (hs_db st)")
  then have "places (rows (hs_db st)) \<subseteq> places (rows d')"
    by (cases rule: with_connection_cases) (use assms(1) in \<open>fastforce+\<close>)
  with c assms(2) show ?thesis by (auto simp: on_db_def)
qed

lemma atomically_places:
  assumes "\<And>d x d'. f d = (Inr x, d') \<Longrightarrow> places (rows d) \<subseteq> places (rows d')" "atomically f d = (res, d')"
  shows "places (rows d) \<subseteq> places (rows d')"
  using assms(2) by (cases rule: atomically_cases) (use assms(1) in \<open>fastforce+\<close>)

lemma set_state_place [simp]: "place (set_state y r) = place r"
  by (simp add: place_def set_state_def)

lemma life_cycle_places:
  "start_tx s d = (Inr z, d') \<Longrightarrow> places (rows d) \<subseteq> places (rows d')"
  "close_tx s d = (Inr z, d') \<Longrightarrow> places (rows d) \<subseteq> places (rows d')"
  "delete_rows now s d = (r, d') \<Longrightarrow> places (rows d) \<subseteq> places (rows d')"
proof -
  show "start_tx s d = (Inr z, d') \<Longrightarrow> places (rows d) \<subseteq> places (rows d')"
    by (auto simp: start_tx_def places_update_row dest!: lock_live_schedule_Inr move_state_Inr split: prod.splits sum.splits if_splits)
  show "close_tx s d = (Inr z, d') \<Longrightarrow> places (rows d) \<subseteq> places (rows d')"
    by (auto simp: close_tx_def places_update_row dest!: lock_live_schedule_Inr move_state_Inr split: prod.splits sum.splits if_splits)
  assume a: "delete_rows now s d = (r, d')"
  let ?f = "update_schedule_row s (\<lambda>r. r\<lparr>sc_deleted_at := Some now, sc_lifecycle_state := ScheduleLifecycleState.Closed\<rparr>)"
  obtain q d1 where q: "query (find_live s) d = (q, d1)" by (cases "query (find_live s) d")
  obtain u d2 where e: "execute ?f d1 = (u, d2)" by (cases "execute ?f d1")
  have "d' = d1 \<or> d' = d2" using a q e by (auto simp: delete_rows_def split: option.splits sum.splits)
  moreover have "places (?f T) = places T" for T by (rule places_update_row) (simp add: place_def)
  ultimately show "places (rows d) \<subseteq> places (rows d')" using queryD [OF q] execute_cases [OF e] by auto
qed

section \<open>Every list is filed\<close>

lemma lists_filed_fades:
  assumes "lists_filed R C st" "fades R (hs_cache st) (hs_cache st')" "places (rows (hs_db st)) \<subseteq> places (rows (hs_db st'))"
  shows "lists_filed R C st'"
proof -
  have "GET R k (nodes (hs_cache st) ! 0) = Some raw" if "list_key k" "GET R k (nodes (hs_cache st') ! 0) = Some raw" for k raw
    using that assms(1,2) by (auto simp: GET_def lists_filed_def fades_def str_of_def dest!: spec [of _ k])
  with assms show ?thesis unfolding lists_filed_def fades_def by blast
qed

lemma load_missing_cases:
  assumes "load_missing R d k load st = (res, st1)" "\<And>d r d'. load d = (r, d') \<Longrightarrow> rows d' = rows d"
  shows "fades R (hs_cache st) (hs_cache st1) \<and> rows (hs_db st1) = rows (hs_db st) \<and>
    (\<forall>x. res = Inr (x, True) \<longrightarrow> (\<exists>d d'. rows d = rows (hs_db st) \<and> load d = (Inr x, d')))"
proof -
  obtain y w where g: "get_async_cached 3 R d k (hs_cache st) = (y, w)" by (cases "get_async_cached 3 R d k (hs_cache st)")
  obtain r d' where c: "with_connection load (hs_db st) = (r, d')" by (cases "with_connection load (hs_db st)")
  then have "rows d' = rows (hs_db st) \<and> (\<forall>x. r = Inr x \<longrightarrow> (\<exists>d d'. rows d = rows (hs_db st) \<and> load d = (Inr x, d')))"
    by (cases rule: with_connection_cases) (use assms(2) in \<open>fastforce+\<close>)
  moreover have "fades R (hs_cache st) w" using get_cached_fades [of R "hs_cache st" 3 d k] g by simp
  ultimately show ?thesis
    using assms(1) g c by (auto simp: load_missing_def on_cache_def on_db_def split: option.splits sum.splits)
qed

lemma load_schedules_rows: "load_schedules P d = (r, d') \<Longrightarrow> rows d' = rows d"
  by (auto simp: load_schedules_def dest!: queryD split: prod.splits option.splits)

lemma load_details_rows: "load_details s d = (r, d') \<Longrightarrow> rows d' = rows d"
  by (auto simp: load_details_def dest!: queryD split: prod.splits option.splits)

lemma through_cache_filed:
  assumes "redis_service R" "\<forall>rs rs'. de_schedules C (en_schedules C rs) = Some rs' \<longrightarrow> rs' = rs" "lists_filed R C st"
    and "\<And>r. P r \<Longrightarrow> belongs_under k r"
    and "through_cache R (de_schedules C) (en_schedules C) k (load_schedules P) st = (res, st')"
  shows "lists_filed R C st'"
proof -
  obtain y st1 where l: "load_missing R (de_schedules C) k (load_schedules P) st = (y, st1)"
    by (cases "load_missing R (de_schedules C) k (load_schedules P) st")
  have m: "fades R (hs_cache st) (hs_cache st1) \<and> rows (hs_db st1) = rows (hs_db st) \<and>
      (\<forall>x. y = Inr (x, True) \<longrightarrow> (\<exists>d d'. rows d = rows (hs_db st) \<and> load_schedules P d = (Inr x, d')))"
    by (rule load_missing_cases [OF l]) (rule load_schedules_rows)
  have f1: "lists_filed R C st1" by (rule lists_filed_fades [OF assms(3)]) (use m in auto)
  show ?thesis
  proof (cases "\<exists>x. y = Inr (x, True)")
    case False
    then consider e where "y = Inl e" | x where "y = Inr (x, False)" by (metis obj_sumE surj_pair)
    then have "st' = st1" by cases (use assms(5) l in \<open>simp_all add: through_cache_def\<close>)
    with f1 show ?thesis by simp
  next
    case True
    then obtain rs where rs: "y = Inr (rs, True)" by blast
    with assms(5) l have st': "st' = write_back R k (en_schedules C rs) st1" by (simp add: through_cache_def)
    from m rs obtain d d' where d: "rows d = rows (hs_db st)" "load_schedules P d = (Inr rs, d')" by blast
    from load_schedules_Inr [OF d(2)] d(1) m have new: "set rs = {r \<in> set (schedules (rows (hs_db st1))). P r}" by simp
    let ?w = "set_async_cached 3 R k (en_schedules C rs) TTL_SHOW_SCHEDULES (hs_cache st1)"
    have w: "nodes ?w \<noteq> [] \<and> (look R (nodes ?w ! 0) = look R (nodes (hs_cache st1) ! 0) \<or>
        look R (nodes ?w ! 0) = (look R (nodes (hs_cache st1) ! 0))
          (k \<mapsto> str_entry (en_schedules C rs) (Some (TTL_SHOW_SCHEDULES * 1000))))"
      by (rule set_cached_look [OF assms(1)]) (use f1 in \<open>simp_all add: lists_filed_def TTL_SHOW_SCHEDULES_def\<close>)
    have "belongs_under k r \<and> place r \<in> places (rows (hs_db st1))" if "r \<in> set rs" for r
      using new assms(4) that by (auto simp: places_def)
    note new = this
    have "\<forall>r \<in> set rs'. belongs_under k' r \<and> place r \<in> places (rows (hs_db st1))"
      if "list_key k'" "GET R k' (nodes ?w ! 0) = Some raw" "de_schedules C raw = Some rs'" for k' raw rs'
    proof (cases "look R (nodes ?w ! 0) k' = look R (nodes (hs_cache st1) ! 0) k'")
      case True
      with that(2) have "GET R k' (nodes (hs_cache st1) ! 0) = Some raw" by (simp add: GET_def)
      with f1 that show ?thesis unfolding lists_filed_def by blast
    next
      case False
      with w have "k' = k" "look R (nodes ?w ! 0) k = Some (str_entry (en_schedules C rs) (Some (TTL_SHOW_SCHEDULES * 1000)))"
        by (metis fun_upd_apply)+
      with that(2) have "raw = en_schedules C rs" "k' = k" by (simp_all add: GET_def str_of_def str_entry_def)
      moreover have "rs' = rs" using that(3) \<open>raw = en_schedules C rs\<close> assms(2) by blast
      ultimately show ?thesis using new by simp
    qed
    with w show ?thesis unfolding lists_filed_def st' write_back_def do_cache_def by (simp del: split_paired_All)
  qed
qed

lemma seat_counts_fade:
  assumes "redis_service R" "load_schedule_seat_counts R C ss st = (res, st')"
  shows "fades R (hs_cache st) (hs_cache st') \<and> rows (hs_db st') = rows (hs_db st)"
proof -
  obtain h m w where g: "read_counts R C ss (hs_cache st) = ((h, m), w)" by (metis surj_pair)
  obtain r d' where c: "with_connection (count_missing m) (hs_db st) = (r, d')" by (metis surj_pair)
  have cm: "rows d1 = rows d" if "count_missing m d = (x, d1)" for d x d1
    using that by (auto simp: count_missing_def dest!: queryD split: prod.splits option.splits)
  from c have "rows d' = rows (hs_db st)" by (cases rule: with_connection_cases) (use cm in \<open>fastforce+\<close>)
  moreover have "fades R (hs_cache st) w" using read_counts_fades [of R "hs_cache st" C ss] g by simp
  ultimately show ?thesis
    using assms(2) g c fades_trans [OF _ write_counts_fades [OF assms(1)]]
    by (auto simp: load_schedule_seat_counts_def on_cache_def on_db_def do_cache_def Let_def split: if_splits sum.splits)
qed

section \<open>Runs\<close>

text \<open>
  Each handler on the state the others left, under any faults of its exchanges. Everything else that
  happens may remove lists (they also expire), write other keys, add schedules and change those there are, but for
  their show and city.
\<close>

inductive listing_run :: "'r redis \<Rightarrow> cache_codec \<Rightarrow> 'r catalog \<Rightarrow> 'r catalog \<Rightarrow> bool" for R C st0 where
  listing_start: "listing_run R C st0 st0"
| run_active: "listing_run R C st0 st \<Longrightarrow> list_active_schedules R C A now st = (res, st') \<Longrightarrow> listing_run R C st0 st'"
| run_show: "listing_run R C st0 st \<Longrightarrow> get_schedules_for_show R C now m q st = (res, st') \<Longrightarrow> listing_run R C st0 st'"
| run_details: "listing_run R C st0 st \<Longrightarrow> get_schedule_details R C A now s st = (res', st') \<Longrightarrow> listing_run R C st0 st'"
| run_start: "listing_run R C st0 st \<Longrightarrow> start_schedule R s st = (done', st') \<Longrightarrow> listing_run R C st0 st'"
| run_close: "listing_run R C st0 st \<Longrightarrow> close_schedule R s st = (done', st') \<Longrightarrow> listing_run R C st0 st'"
| run_delete: "listing_run R C st0 st \<Longrightarrow> delete_schedule R now s st = (done', st') \<Longrightarrow> listing_run R C st0 st'"
| run_other: "listing_run R C st0 st \<Longrightarrow> fades R (hs_cache st) (hs_cache st') \<Longrightarrow>
     places (rows (hs_db st)) \<subseteq> places (rows (hs_db st')) \<Longrightarrow> listing_run R C st0 st'"

lemma list_readers_filed:
  assumes "redis_service R" "\<forall>rs rs'. de_schedules C (en_schedules C rs) = Some rs' \<longrightarrow> rs' = rs" "lists_filed R C st"
  shows "list_active_schedules R C A now st = (res, st') \<Longrightarrow> lists_filed R C st'"
    and "get_schedules_for_show R C now m q st = (res, st') \<Longrightarrow> lists_filed R C st'"
proof -
  have counts: "lists_filed R C st2" if "lists_filed R C st1" "load_schedule_seat_counts R C ss st1 = (x, st2)" for st1 st2 ss x
    using lists_filed_fades [OF that(1)] seat_counts_fade [OF assms(1) that(2)] by simp
  show "lists_filed R C st'" if run: "list_active_schedules R C A now st = (res, st')"
  proof -
    obtain y st1 where t: "through_cache R (de_schedules C) (en_schedules C) cache_schedules_active_key
        (load_schedules (listed now)) st = (y, st1)" by (metis surj_pair)
    have "lists_filed R C st1" by (rule through_cache_filed [OF assms _ t]) (simp add: belongs_under_def)
    with run t counts show ?thesis
      by (auto simp: list_active_schedules_def Let_def split: sum.splits prod.splits)
  qed
  show "lists_filed R C st'" if run: "get_schedules_for_show R C now m q st = (res, st')"
  proof -
    obtain y st1 where t: "through_cache R (de_schedules C) (en_schedules C) (cache_show_schedules_key m (city_filter q))
        (load_schedules (of_show now m (city_filter q))) st = (y, st1)" by (metis surj_pair)
    have "lists_filed R C st1"
      by (rule through_cache_filed [OF assms _ t]) (auto simp: belongs_under_def of_show_def split: option.splits)
    with run t counts show ?thesis
      by (auto simp: get_schedules_for_show_def Let_def split: sum.splits prod.splits)
  qed
qed

lemma details_filed:
  assumes "redis_service R" "lists_filed R C st" "get_schedule_details R C A now s st = (res, st')"
  shows "lists_filed R C st'"
proof -
  obtain y st1 where l: "load_missing R (de_schedule C) (cache_schedule_key s) (load_details s) st = (y, st1)" by (metis surj_pair)
  have m: "fades R (hs_cache st) (hs_cache st1) \<and> rows (hs_db st1) = rows (hs_db st)"
    using load_missing_cases [OF l] load_details_rows by blast
  have w: "fades R (hs_cache st1) (hs_cache (write_back R (cache_schedule_key s) raw st1)) \<and>
      hs_db (write_back R (cache_schedule_key s) raw st1) = hs_db st1" for raw
    by (simp add: write_back_def do_cache_def TTL_SHOW_SCHEDULES_def set_cached_fades assms(1))
  have "fades R (hs_cache st) (hs_cache st') \<and> rows (hs_db st') = rows (hs_db st)"
    using assms(3) l m w fades_trans [OF conjunct1 [OF m] conjunct1 [OF w]]
    by (auto simp: get_schedule_details_def through_cache_def split: sum.splits prod.splits if_splits)
  with lists_filed_fades [OF assms(2)] show ?thesis by simp
qed

lemma announced_filed:
  assumes "redis_service R" "lists_filed R C st" "\<And>d r d'. f d = (r, d') \<Longrightarrow> places (rows d) \<subseteq> places (rows d')"
    and "(case on_db (with_connection f) st of (Inl e, st1) \<Rightarrow> (Inl e, st1) | (Inr r, st1) \<Rightarrow> announce R ev r st1) = (res, st')"
  shows "lists_filed R C st'"
proof -
  obtain y st1 where d: "on_db (with_connection f) st = (y, st1)" by (metis surj_pair)
  from on_db_places [OF assms(3) d] have 1: "lists_filed R C st1" by (intro lists_filed_fades [OF assms(2)]) simp_all
  show ?thesis
  proof (cases y)
    case (Inr r)
    with assms(4) d have "st' = snd (announce R ev r st1)" by simp
    with lists_filed_fades [OF 1 announce_fades [OF assms(1)]] show ?thesis by (simp add: hs_db_announce)
  qed (use 1 assms(4) d in simp)
qed

lemma listing_run_filed:
  assumes "redis_service R" "\<forall>rs rs'. de_schedules C (en_schedules C rs) = Some rs' \<longrightarrow> rs' = rs" "lists_filed R C st0"
  shows "listing_run R C st0 st \<Longrightarrow> lists_filed R C st"
proof (induction rule: listing_run.induct)
  case listing_start
  show ?case by (rule assms(3))
next
  case (run_active st A now res st')
  then show ?case using list_readers_filed(1) [OF assms(1,2)] by blast
next
  case (run_show st now m q res st')
  then show ?case using list_readers_filed(2) [OF assms(1,2)] by blast
next
  case (run_details st A now s res' st')
  then show ?case using details_filed [OF assms(1)] by blast
next
  case (run_start st s done' st')
  show ?case
    by (rule announced_filed [OF assms(1) run_start.IH _ run_start.hyps(2) [unfolded start_schedule_def]])
      (rule atomically_places, rule life_cycle_places(1))
next
  case (run_close st s done' st')
  show ?case
    by (rule announced_filed [OF assms(1) run_close.IH _ run_close.hyps(2) [unfolded close_schedule_def]])
      (rule atomically_places, rule life_cycle_places(2))
next
  case (run_delete st now s done' st')
  show ?case
    by (rule announced_filed [OF assms(1) run_delete.IH _ run_delete.hyps(2) [unfolded delete_schedule_def]])
      (rule life_cycle_places(3))
next
  case (run_other st st')
  then show ?case using lists_filed_fades by blast
qed

section \<open>A closing and the lists\<close>

text \<open>The keys a row of the database may be cached under are among those the handler removes.\<close>

lemma keys_removed: "belongs_under k x \<Longrightarrow> k \<in> set (schedule_cache_keys x)"
  by (auto simp: belongs_under_def schedule_cache_keys_def Let_def)

lemma same_place:
  assumes "tables_ok T" "find_live s T = Some x" "place r \<in> places T" "sc_id r = s"
  shows "place r = place x"
proof -
  obtain r' where r': "r' \<in> set (schedules T)" "place r = place r'" using assms(3) by (auto simp: places_def)
  have x: "x \<in> set (schedules T)" "sc_id x = s"
    using assms(2) find_Some_iff [of _ "schedules T" x] by (auto simp: find_live_def)
  have "distinct (map sc_id (schedules T))" using assms(1) by (simp add: tables_ok_def keys_ok_def)
  moreover have "sc_id r' = sc_id x" using r'(2) assms(4) x(2) by (simp add: place_def)
  ultimately have "r' = x" using r'(1) x(1) by (simp add: distinct_map inj_on_def)
  with r'(2) show ?thesis by simp
qed

lemma belongs_place: "place r = place x \<Longrightarrow> belongs_under k r = belongs_under k x"
  by (simp add: place_def belongs_under_def)

text \<open>
  C25 (a closed schedule leaves the lists). From an empty list cache on, after any run of the readers of the public API
  and of the life-cycle handlers with any failures, a closing that succeeds while the cache answers leaves no list, of active
  schedules or of any show and city, that names the schedule, and its details do not call it open. The reading handlers
  run as wholes (one that a closing overtakes writes an old list back), and no schedule is moved to another city.
\<close>

theorem closed_schedule_not_listed:
  assumes "redis_service R" "\<forall>rs rs'. de_schedules C (en_schedules C rs) = Some rs' \<longrightarrow> rs' = rs"
    and "nodes (hs_cache st0) \<noteq> []" "\<forall>k. list_key k \<longrightarrow> look R (nodes (hs_cache st0) ! 0) k = None"
    and "listing_run R C st0 st" "faults (hs_cache st) = []"
    and "tables_ok (rows (hs_db st))" "find_live s (rows (hs_db st)) = Some x"
    and "close_schedule R s st = (Inr (), st1)"
  shows "(\<forall>A now vs st2. list_active_schedules R C A now st1 = (Inr vs, st2) \<longrightarrow> s \<notin> (sc_id \<circ> uv_row) ` set vs) \<and>
    (\<forall>now m q vs st2. get_schedules_for_show R C now m q st1 = (Inr vs, st2) \<longrightarrow> s \<notin> (sc_id \<circ> uv_row) ` set vs) \<and>
    (\<forall>A now d st2. get_schedule_details R C A now s st1 = (Inr d, st2) \<longrightarrow> \<not> dt_booking_open d)"
proof -
  have "lists_filed R C st0" using assms(3,4) by (simp add: lists_filed_def GET_def str_of_def)
  note filed = listing_run_filed [OF assms(1,2) this assms(5)]
  then have ne: "nodes (hs_cache st) \<noteq> []" by (simp add: lists_filed_def)
  obtain z where z: "find_live s (rows (hs_db st1)) = Some z" "sc_lifecycle_state z = ScheduleLifecycleState.Closed"
    "tables_ok (rows (hs_db st1))" "faults (hs_cache st1) = []"
    and cache: "\<And>k. look R (nodes (hs_cache st1) ! 0) k = (if k \<in> insert (cache_schedule_key s) (set (schedule_cache_keys x)) then None
       else if k = schedule_closed_key s then Some (str_entry ''1'' None) else look R (nodes (hs_cache st) ! 0) k)"
    by (rule close_healthy [OF assms(1,6) ne assms(7-9)]) (rule that, assumption+)
  note closed = closed_rows [OF z(3,1,2)]
  have lists: "s \<notin> sc_id ` set (filter (listed now) rs)"
    if "list_key k" "through_cache R (de_schedules C) (en_schedules C) k (load_schedules P) st1 = (Inr rs, st2)" for now rs k P st2
    using through_cache_Inr [OF that(2) z(4)]
  proof (elim disjE exE conjE)
    fix raw assume raw: "GET R k (nodes (hs_cache st1) ! 0) = Some raw" "de_schedules C raw = Some rs"
    have "k \<noteq> schedule_closed_key s" using that(1) by auto
    with raw(1) have old: "GET R k (nodes (hs_cache st) ! 0) = Some raw" "k \<notin> set (schedule_cache_keys x)"
      by (auto simp: GET_def cache str_of_def split: if_splits)
    have "sc_id r \<noteq> s" if r: "r \<in> set rs" for r
    proof
      assume "sc_id r = s"
      moreover have "belongs_under k r" "place r \<in> places (rows (hs_db st))"
        using filed \<open>list_key k\<close> old(1) raw(2) r unfolding lists_filed_def by blast+
      ultimately show False using same_place [OF assms(7,8)] belongs_place keys_removed old(2) by metis
    qed
    then show ?thesis by auto
  next
    fix d d' assume "rows d = rows (hs_db st1)" "load_schedules P d = (Inr rs, d')"
    with load_schedules_Inr closed show ?thesis by (fastforce simp: listed_def)
  qed
  have active: "s \<notin> (sc_id \<circ> uv_row) ` set vs" if run: "list_active_schedules R C A now st1 = (Inr vs, st2)" for A now vs st2
  proof -
    from run obtain rs st3 tot av where t: "through_cache R (de_schedules C) (en_schedules C) cache_schedules_active_key
          (load_schedules (listed now)) st1 = (Inr rs, st3)"
      and vs: "vs = map (\<lambda>r. user_view now tot av (show_by_hex A (sc_mongo_show_id r)) r) (filter (listed now) rs)"
      by (auto simp: list_active_schedules_def Let_def split: prod.splits sum.splits)
    from lists [OF _ t] show ?thesis by (simp add: vs image_image user_view_def)
  qed
  have show_list: "s \<notin> (sc_id \<circ> uv_row) ` set vs" if run: "get_schedules_for_show R C now m q st1 = (Inr vs, st2)" for now m q vs st2
  proof -
    from run obtain rs st3 tot av where t: "through_cache R (de_schedules C) (en_schedules C)
          (cache_show_schedules_key m (city_filter q)) (load_schedules (of_show now m (city_filter q))) st1 = (Inr rs, st3)"
      and vs: "vs = map (user_view now tot av None) (filter (listed now) rs)"
      by (auto simp: get_schedules_for_show_def Let_def split: prod.splits sum.splits)
    from lists [OF _ t] show ?thesis by (simp add: vs image_image user_view_def)
  qed
  have details: "\<not> dt_booking_open d" if "get_schedule_details R C A now s st1 = (Inr d, st2)" for A now d st2
  proof -
    from that obtain r st3 where t: "through_cache R (de_schedule C) (en_schedule C) (cache_schedule_key s) (load_details s) st1 = (Inr r, st3)"
      and v: "details_view A now r = Inr d" by (auto simp: get_schedule_details_def split: prod.splits sum.splits)
    have "GET R (cache_schedule_key s) (nodes (hs_cache st1) ! 0) = None" by (simp add: GET_def cache str_of_def)
    with through_cache_Inr [OF t z(4)] obtain e e' where "rows e = rows (hs_db st1)" "load_details s e = (Inr r, e')" by auto
    with load_details_Inr closed have "sc_lifecycle_state r = ScheduleLifecycleState.Closed" by metis
    with v show ?thesis by (auto simp: details_view_def split: if_splits)
  qed
  from active show_list details show ?thesis by blast
qed

section \<open>A listing and a closing\<close>

text \<open>A codec for the lists of the hall.\<close>

definition hall_codec :: cache_codec where
  "hall_codec =
     \<lparr>en_schedules = (\<lambda>rs. if rs = [hall_schedule ScheduleLifecycleState.Open] then ''[5]'' else ''?''),
      de_schedules = (\<lambda>x. if x = ''[5]'' then Some [hall_schedule ScheduleLifecycleState.Open] else None),
      en_schedule = (\<lambda>_. ''?''), de_schedule = (\<lambda>_. None), de_count = parse_dec\<rparr>"

definition listed_hall :: "keyspace catalog" where
  "listed_hall = snd (list_active_schedules mem_redis hall_codec plain_admin (-1) (hall_catalog ScheduleLifecycleState.Open))"

lemma listed_hall:
  "hs_db listed_hall = hall_db ScheduleLifecycleState.Open" "faults (hs_cache listed_hall) = []"
  "GET mem_redis cache_schedules_active_key (nodes (hs_cache listed_hall) ! 0) = Some ''[5]''"
proof -
  let ?w = "\<lparr>nodes = [[cache_schedules_active_key \<mapsto> str_entry ''[5]'' (Some (TTL_SHOW_SCHEDULES * 1000))]],
      faults = [], published = []\<rparr> :: (keyspace, json) world"
  let ?st = "(hall_catalog ScheduleLifecycleState.Open)\<lparr>hs_cache := ?w\<rparr>"
  have t: "through_cache mem_redis (de_schedules hall_codec) (en_schedules hall_codec) cache_schedules_active_key
      (load_schedules (listed (-1))) (hall_catalog ScheduleLifecycleState.Open) = (Inr [hall_schedule ScheduleLifecycleState.Open], ?st)"
    by (simp add: through_cache_def load_missing_def on_cache_def get_no_faults hall_catalog_def fresh_world_def GET_def
        mem_redis_simps str_of_def on_db_def with_connection_def db_get_def db_fault_def load_schedules_def query_def
        select_schedules_def hall_db_def listed_def hall_schedule_def write_back_def do_cache_def set_no_faults hall_codec_def)
  have k: "cache_schedule_total_seats_key 5 \<noteq> cache_schedules_active_key" "cache_schedule_available_seats_key 5 \<noteq> cache_schedules_active_key"
    using list_key_simps(1,4,5) by metis+
  obtain y st2 where c: "load_schedule_seat_counts mem_redis hall_codec [5] ?st = (y, st2)" by (metis surj_pair)
  moreover have r: "read_counts mem_redis hall_codec [5] ?w = (([], [5]), ?w)"
    using k by (simp add: get_no_faults GET_def mem_redis_simps str_of_def)
  moreover obtain dt da where d: "with_connection (count_missing [5]) (hall_db ScheduleLifecycleState.Open) =
      (Inr (dt, da), hall_db ScheduleLifecycleState.Open)"
    by (simp add: with_connection_def db_get_def db_fault_def count_missing_def query_def hall_db_def)
  ultimately have st2: "st2 = ?st\<lparr>hs_cache := write_counts mem_redis dt da 5 ?w\<rparr>"
    by (simp add: load_schedule_seat_counts_def on_cache_def on_db_def do_cache_def Let_def hall_catalog_def del: read_counts.simps)
  have "listed_hall = st2"
    using c by (simp add: listed_hall_def list_active_schedules_def t Let_def split: sum.split)
      (simp add: listed_def hall_schedule_def split: sum.split)
  note eq = this [unfolded st2]
  show "hs_db listed_hall = hall_db ScheduleLifecycleState.Open" "faults (hs_cache listed_hall) = []"
    "GET mem_redis cache_schedules_active_key (nodes (hs_cache listed_hall) ! 0) = Some ''[5]''"
    unfolding eq using k [symmetric] by (simp_all add: hall_catalog_def write_counts_def set_no_faults mem_redis_simps GET_def str_of_def str_entry_def)
qed

theorem closed_schedule_not_listed_witness:
  "\<exists>st1. close_schedule mem_redis 5 listed_hall = (Inr (), st1) \<and>
     GET mem_redis cache_schedules_active_key (nodes (hs_cache listed_hall) ! 0) = Some ''[5]'' \<and>
     \<not> (\<exists>A now vs st2. list_active_schedules mem_redis hall_codec A now st1 = (Inr vs, st2) \<and> 5 \<in> (sc_id \<circ> uv_row) ` set vs)"
proof -
  let ?st0 = "hall_catalog ScheduleLifecycleState.Open"
  have codec: "\<forall>rs rs'. de_schedules hall_codec (en_schedules hall_codec rs) = Some rs' \<longrightarrow> rs' = rs"
    by (simp add: hall_codec_def)
  have empty: "nodes (hs_cache ?st0) \<noteq> []" "\<forall>k. list_key k \<longrightarrow> look mem_redis (nodes (hs_cache ?st0) ! 0) k = None"
    by (simp_all add: hall_catalog_def fresh_world_def mem_redis_simps)
  have run: "listing_run mem_redis hall_codec ?st0 listed_hall"
    by (rule run_active [OF listing_start, where A = plain_admin and now = "-1"])
      (unfold listed_hall_def, rule prod.collapse [symmetric])
  have live: "find_live 5 (rows (hs_db listed_hall)) = Some (hall_schedule ScheduleLifecycleState.Open)"
    "tables_ok (rows (hs_db listed_hall))" "db_faults (hs_db listed_hall) = []"
    using hall_tables by (simp_all add: listed_hall hall_db_def find_live_def hall_schedule_def)
  have c: "close_schedule mem_redis 5 listed_hall = (Inr (), snd (close_schedule mem_redis 5 listed_hall))"
    using close_no_faults [OF live(3) listed_hall(2) live(2,1)] by (metis prod.collapse)
  note closed = closed_schedule_not_listed [OF mem.redis_service_axioms codec empty run listed_hall(2) live(2,1) c]
  show ?thesis by (intro exI conjI, rule c, rule listed_hall(3)) (use conjunct1 [OF closed] in blast)
qed

end
