(* ===== verification/Search_Pipeline.thy ===== *)
theory Search_Pipeline
  imports Wire_Format Redis_Service
begin

text \<open>
  The way of a show from MongoDB into the search index: the change-data-capture worker
  (\<open>apps/cdc-worker/src\<close>) follows the change stream of the shows and writes each change, with a sequence
  number, into an outbox collection before it moves its checkpoint; the search server
  (\<open>apps/search-server/src/outbox.rs\<close>, \<open>stream.rs\<close>) applies the outbox to Elasticsearch in sequence and moves a
  checkpoint of its own. Both survive failed exchanges by repeating; the faults are those of \<open>Redis_Service\<close>.
\<close>

section \<open>Changes and events\<close>

datatype bson =
    BNull
  | BString string
  | BInt int
  | BDouble "32 word"
  | BDateTime int
  | BObjectId string
  | BArray "bson list"
  | BDocument "(string \<times> bson) list"

type_synonym document = "(string \<times> bson) list"

record SearchOutboxEvent =
  so_token :: string
  so_show_id :: string
  so_operation :: string
  so_title :: "string option"
  so_city :: "string option"
  so_thumbnail_url :: "string option"
  so_venue :: "string option"
  so_document :: "json option"
  so_trace :: json

definition string_field :: "document \<Rightarrow> string \<Rightarrow> string option" where
  "string_field doc f = (case map_of doc f of Some (BString x) \<Rightarrow> Some x | _ \<Rightarrow> None)"

definition as_bson_str :: "bson \<Rightarrow> string option" where
  "as_bson_str b = (case b of BString x \<Rightarrow> Some x | _ \<Rightarrow> None)"

definition string_array_field :: "document \<Rightarrow> string \<Rightarrow> json" where
  "string_array_field doc f =
     JArr (map JStr (List.map_filter as_bson_str (case map_of doc f of Some (BArray xs) \<Rightarrow> xs | _ \<Rightarrow> [])))"

definition opt_json :: "string option \<Rightarrow> json" where
  "opt_json x = (case x of Some t \<Rightarrow> JStr t | None \<Rightarrow> JNull)"

definition delete_event :: "string \<Rightarrow> string \<Rightarrow> SearchOutboxEvent" where
  "delete_event show_id token =
     \<lparr>so_token = token, so_show_id = show_id, so_operation = ''delete'', so_title = None, so_city = None,
      so_thumbnail_url = None, so_venue = None, so_document = None, so_trace = JNull\<rparr>"

definition search_document :: "string \<Rightarrow> document \<Rightarrow> json" where
  "search_document show_id doc =
     JObj [(''id'', JStr show_id), (''title'', opt_json (string_field doc ''title'')),
       (''description'', opt_json (string_field doc ''description'')), (''tags'', string_array_field doc ''tags''),
       (''category_ids'', string_array_field doc ''category_ids''),
       (''show_type'', opt_json (string_field doc ''show_type'')), (''city'', opt_json (string_field doc ''city'')),
       (''venue'', opt_json (string_field doc ''venue'')),
       (''thumbnail_url'', opt_json (string_field doc ''thumbnail_url'')),
       (''poster_url'', opt_json (string_field doc ''poster_url''))]"

definition change_to_outbox_event ::
    "string \<Rightarrow> string \<Rightarrow> string \<Rightarrow> document option \<Rightarrow> string + SearchOutboxEvent" where
  "change_to_outbox_event operation show_id token full_document =
     (if operation = ''delete'' then Inr (delete_event show_id token)
      else case full_document of
             None \<Rightarrow> Inl ''change event did not include full_document''
           | Some doc \<Rightarrow>
               if map_of doc ''deleted_at'' \<notin> {None, Some BNull} then Inr (delete_event show_id token)
               else if string_field doc ''title'' \<in> {None, Some []} then Inl ''show change does not contain a title''
               else Inr \<lparr>so_token = token, so_show_id = show_id, so_operation = ''upsert'',
                         so_title = string_field doc ''title'', so_city = string_field doc ''city'',
                         so_thumbnail_url = string_field doc ''thumbnail_url'', so_venue = string_field doc ''venue'',
                         so_document = Some (search_document show_id doc), so_trace = JNull\<rparr>)"

text \<open>
  One event of the change stream. The document of an update is looked up when the event is delivered, so two
  deliveries of a change may carry different ones.
\<close>

record change =
  ch_token :: string
  ch_operation :: string
  ch_show_id :: "string option"
  ch_document :: "document option"

section \<open>The collections\<close>

record SearchDoc =
  sd_event :: SearchOutboxEvent
  sd_sequence :: int

record mongo =
  outbox_docs :: "SearchDoc list"
  sequence :: "int option"
  cdc_checkpoint :: "string option"
  es_checkpoint :: "int option"
  m_faults :: "fault list"

definition m_fault :: "mongo \<Rightarrow> fault \<times> mongo" where
  "m_fault m = (case m_faults m of [] \<Rightarrow> (Delivered, m) | f # fs \<Rightarrow> (f, m\<lparr>m_faults := fs\<rparr>))"

definition m_read :: "(mongo \<Rightarrow> 'a) \<Rightarrow> mongo \<Rightarrow> 'a option \<times> mongo" where
  "m_read q m = (case m_fault m of (f, m') \<Rightarrow> (if f = Delivered then Some (q m') else None, m'))"

definition m_write :: "(mongo \<Rightarrow> 'a \<times> mongo) \<Rightarrow> mongo \<Rightarrow> 'a option \<times> mongo" where
  "m_write c m =
     (case m_fault m of (f, m') \<Rightarrow>
        if f = Refused then (None, m')
        else case c m' of (x, m'') \<Rightarrow> (if f = Delivered then Some x else None, m''))"

text \<open>Both workers create the indexes first; creating one that exists changes nothing.\<close>

definition ensure_collections :: "mongo \<Rightarrow> bool \<times> mongo" where
  "ensure_collections m =
     (case m_read (\<lambda>_. ()) m of
        (None, m1) \<Rightarrow> (False, m1)
      | (Some _, m1) \<Rightarrow> (case m_read (\<lambda>_. ()) m1 of (x, m2) \<Rightarrow> (x \<noteq> None, m2)))"

definition load_mongo_checkpoint :: "mongo \<Rightarrow> string option option \<times> mongo" where
  "load_mongo_checkpoint = m_read cdc_checkpoint"

text \<open>\<open>findAndModify\<close> with \<open>$inc\<close> and an upsert, the value after it returned.\<close>

definition next_sequence :: "mongo \<Rightarrow> int option \<times> mongo" where
  "next_sequence = m_write (\<lambda>m. let n = (case sequence m of Some v \<Rightarrow> v | None \<Rightarrow> 0) + 1 in (n, m\<lparr>sequence := Some n\<rparr>))"

text \<open>The unique keys are the token, which is the document's id, and the sequence number; \<open>False\<close> is \<open>E11000\<close>.\<close>

definition insert_doc :: "SearchDoc \<Rightarrow> mongo \<Rightarrow> bool \<times> mongo" where
  "insert_doc d m =
     (if so_token (sd_event d) \<in> (\<lambda>x. so_token (sd_event x)) ` set (outbox_docs m) \<or>
         sd_sequence d \<in> sd_sequence ` set (outbox_docs m)
      then (False, m) else (True, m\<lparr>outbox_docs := outbox_docs m @ [d]\<rparr>))"

definition advance_checkpoint :: "string \<Rightarrow> mongo \<Rightarrow> bool \<times> mongo" where
  "advance_checkpoint t m = (case m_write (\<lambda>m. ((), m\<lparr>cdc_checkpoint := Some t\<rparr>)) m of (x, m1) \<Rightarrow> (x \<noteq> None, m1))"

definition record_mongo_outbox_event :: "SearchOutboxEvent \<Rightarrow> mongo \<Rightarrow> bool \<times> mongo" where
  "record_mongo_outbox_event ev m =
     (case m_read (\<lambda>m. so_token ev \<in> (\<lambda>x. so_token (sd_event x)) ` set (outbox_docs m)) m of
        (None, m1) \<Rightarrow> (False, m1)
      | (Some True, m1) \<Rightarrow> advance_checkpoint (so_token ev) m1
      | (Some False, m1) \<Rightarrow>
          (case next_sequence m1 of
             (None, m2) \<Rightarrow> (False, m2)
           | (Some n, m2) \<Rightarrow>
               (case m_write (insert_doc \<lparr>sd_event = ev, sd_sequence = n\<rparr>) m2 of
                  (None, m3) \<Rightarrow> (False, m3)
                | (Some _, m3) \<Rightarrow> advance_checkpoint (so_token ev) m3)))"

section \<open>The change-data-capture worker\<close>

text \<open>
  \<open>source\<close> is the change stream, the tokens of all changes so far; \<open>cursor\<close> the position of the open stream. Which
  documents Elasticsearch takes, \<open>es_accepts\<close>, is its own: it answers any other with an error status.
\<close>

record pipeline =
  source :: "string list"
  cursor :: "nat option"
  db :: mongo
  index :: "string \<rightharpoonup> json"
  es_accepts :: "json \<Rightarrow> bool"
  es_faults :: "fault list"
  failures :: nat

definition position :: "string \<Rightarrow> string list \<Rightarrow> nat" where
  "position t log = length (takeWhile (\<lambda>x. x \<noteq> t) log)"

text \<open>
  One turn of the loop up to the open stream: resumed after the checkpoint, or from now on without one. An error
  ends the turn; opening the stream is an exchange of its own.
\<close>

definition connect :: "pipeline \<Rightarrow> pipeline" where
  "connect p =
     (case ensure_collections (db p) of
        (False, m1) \<Rightarrow> p\<lparr>cursor := None, db := m1\<rparr>
      | (True, m1) \<Rightarrow>
          (case load_mongo_checkpoint m1 of
             (None, m2) \<Rightarrow> p\<lparr>cursor := None, db := m2\<rparr>
           | (Some resume_token, m2) \<Rightarrow>
               (case m_read (\<lambda>_. ()) m2 of
                  (None, m3) \<Rightarrow> p\<lparr>cursor := None, db := m3\<rparr>
                | (Some _, m3) \<Rightarrow>
                    p\<lparr>cursor := Some (case resume_token of Some t \<Rightarrow> position t (source p) + 1 | None \<Rightarrow> length (source p)),
                      db := m3\<rparr>)))"

text \<open>
  One event of the stream: any error breaks the stream without moving the checkpoint. \<open>carrier\<close> is the trace
  context put into the event.
\<close>

definition handle_change :: "json \<Rightarrow> change \<Rightarrow> mongo \<Rightarrow> bool \<times> mongo" where
  "handle_change carrier c m =
     (case ch_show_id c of
        None \<Rightarrow> (False, m)
      | Some show_id \<Rightarrow>
          (case change_to_outbox_event (ch_operation c) show_id (ch_token c) (ch_document c) of
             Inl _ \<Rightarrow> (False, m)
           | Inr ev \<Rightarrow> record_mongo_outbox_event (ev\<lparr>so_trace := carrier\<rparr>) m))"

text \<open>The stream delivers the change at the cursor.\<close>

definition deliver :: "json \<Rightarrow> change \<Rightarrow> pipeline \<Rightarrow> pipeline" where
  "deliver carrier c p =
     (case cursor p of
        None \<Rightarrow> p
      | Some i \<Rightarrow>
          if i < length (source p) \<and> source p ! i = ch_token c
          then (case handle_change carrier c (db p) of (ok, m) \<Rightarrow>
                  p\<lparr>cursor := (if ok then Some (i + 1) else None), db := m\<rparr>)
          else p)"

section \<open>The indexer\<close>

record ClaimedSearchEvent =
  ce_sequence :: int
  ce_show_id :: string
  ce_operation :: string
  ce_document :: "json option"
  ce_trace :: json

definition parse_claimed_event :: "SearchDoc \<Rightarrow> ClaimedSearchEvent" where
  "parse_claimed_event d =
     \<lparr>ce_sequence = sd_sequence d, ce_show_id = so_show_id (sd_event d), ce_operation = so_operation (sd_event d),
      ce_document = so_document (sd_event d), ce_trace = so_trace (sd_event d)\<rparr>"

text \<open>\<open>None\<close> when a query failed. The candidate is the least sequence number above the checkpoint.\<close>

definition claim_next :: "mongo \<Rightarrow> ClaimedSearchEvent option option \<times> mongo" where
  "claim_next m =
     (case m_read es_checkpoint m of
        (None, m1) \<Rightarrow> (None, m1)
      | (Some checkpoint, m1) \<Rightarrow>
          (let last_sequence = (case checkpoint of Some n \<Rightarrow> n | None \<Rightarrow> 0)
           in case m_read (\<lambda>m. find (\<lambda>d. last_sequence < sd_sequence d) (sort_key sd_sequence (outbox_docs m))) m1 of
                (None, m2) \<Rightarrow> (None, m2)
              | (Some candidate, m2) \<Rightarrow> (Some (map_option parse_claimed_event candidate), m2)))"

definition mark_indexed :: "ClaimedSearchEvent \<Rightarrow> mongo \<Rightarrow> mongo" where
  "mark_indexed ev m = snd (m_write (\<lambda>m. ((), m\<lparr>es_checkpoint := Some (ce_sequence ev)\<rparr>)) m)"

text \<open>
  \<open>PUT\<close> and \<open>DELETE\<close> of one document; an error status, a timeout and a lost reply are errors, the last one after
  the effect. Deleting what is not there succeeds.
\<close>

definition es_request :: "bool \<Rightarrow> ((string \<rightharpoonup> json) \<Rightarrow> (string \<rightharpoonup> json)) \<Rightarrow> pipeline \<Rightarrow> bool \<times> pipeline" where
  "es_request accepted c p =
     (case (case es_faults p of [] \<Rightarrow> (Delivered, p) | f # fs \<Rightarrow> (f, p\<lparr>es_faults := fs\<rparr>)) of (f, p') \<Rightarrow>
        (f = Delivered \<and> accepted, if f = Refused \<or> \<not> accepted then p' else p'\<lparr>index := c (index p')\<rparr>))"

definition apply_event :: "ClaimedSearchEvent \<Rightarrow> pipeline \<Rightarrow> bool \<times> pipeline" where
  "apply_event ev p =
     (if ce_operation ev = ''upsert'' then
        (case ce_document ev of
           None \<Rightarrow> (False, p)
         | Some doc \<Rightarrow> es_request (es_accepts p doc) (\<lambda>ix. ix(ce_show_id ev \<mapsto> doc)) p)
      else if ce_operation ev = ''delete'' then es_request True (\<lambda>ix. ix(ce_show_id ev := None)) p
      else (False, p))"

text \<open>One turn of the indexer's loop, and the pause after a failure.\<close>

definition index_pass :: "pipeline \<Rightarrow> pipeline" where
  "index_pass p =
     (case claim_next (db p) of
        (None, m) \<Rightarrow> p\<lparr>db := m\<rparr>
      | (Some None, m) \<Rightarrow> p\<lparr>db := m, failures := 0\<rparr>
      | (Some (Some ev), m) \<Rightarrow>
          (case apply_event ev (p\<lparr>db := m\<rparr>) of (ok, p1) \<Rightarrow>
             if ok then p1\<lparr>failures := 0, db := mark_indexed ev (db p1)\<rparr>
             else p1\<lparr>failures := failures p1 + 1\<rparr>))"

definition index_delay_seconds :: "nat \<Rightarrow> nat" where
  "index_delay_seconds consecutive_failures = min (2 ^ min (max consecutive_failures 1) 8) 300"

section \<open>Runs\<close>

text \<open>
  The two workers, the source and the network in any order. A change enters the stream under a new token; a stream
  may break at any time.
\<close>

datatype pipe_event =
    Changed string
  | Connected
  | Arrived json change
  | Broken
  | Indexed

fun pipe_step :: "pipe_event \<Rightarrow> pipeline \<Rightarrow> pipeline" where
  "pipe_step (Changed t) p = (if t \<in> set (source p) then p else p\<lparr>source := source p @ [t]\<rparr>)"
| "pipe_step Connected p = connect p"
| "pipe_step (Arrived carrier c) p = deliver carrier c p"
| "pipe_step Broken p = p\<lparr>cursor := None\<rparr>"
| "pipe_step Indexed p = index_pass p"

definition pipe_run :: "pipe_event list \<Rightarrow> pipeline \<Rightarrow> pipeline" where
  "pipe_run es p = fold pipe_step es p"

definition new_pipeline :: "(json \<Rightarrow> bool) \<Rightarrow> fault list \<Rightarrow> fault list \<Rightarrow> pipeline" where
  "new_pipeline acc fs es =
     \<lparr>source = [], cursor = None,
      db = \<lparr>outbox_docs = [], sequence = None, cdc_checkpoint = None, es_checkpoint = None, m_faults = fs\<rparr>,
      index = Map.empty, es_accepts = acc, es_faults = es, failures = 0\<rparr>"

end
