(* ===== verification/Search_Props.thy ===== *)
theory Search_Props
  imports Search_Pipeline
begin

text \<open>
  Properties of the search pipeline: along every run the index is a replay of the outbox up to the indexer's
  checkpoint, at most one event ahead, and the outbox keeps the order of the source; once the worker has a
  checkpoint it skips no change, and before it has one it may.
\<close>

section \<open>Exchanges\<close>

text \<open>\<open>m_same\<close>: the collections are the same, whatever became of the faults.\<close>

definition m_same :: "mongo \<Rightarrow> mongo \<Rightarrow> bool" where
  "m_same m m' \<longleftrightarrow> m' = m\<lparr>m_faults := m_faults m'\<rparr>"

lemma m_same_refl [simp]: "m_same m m"
  by (simp add: m_same_def)

lemma m_same_trans: "m_same m m1 \<Longrightarrow> m_same m1 m2 \<Longrightarrow> m_same m m2"
  by (cases m; cases m1; cases m2) (simp add: m_same_def)

lemma m_sameD:
  "m_same m m' \<Longrightarrow> outbox_docs m' = outbox_docs m \<and> sequence m' = sequence m \<and> cdc_checkpoint m' = cdc_checkpoint m \<and>
     es_checkpoint m' = es_checkpoint m"
  by (cases m; cases m') (simp add: m_same_def)

lemma m_fault_same: "m_fault m = (f, m') \<Longrightarrow> m_same m m'"
  by (auto simp: m_fault_def m_same_def split: list.splits)

lemma m_readD: "m_read q m = (x, m') \<Longrightarrow> m_same m m' \<and> (x = None \<or> x = Some (q m'))"
  by (auto simp: m_read_def dest: m_fault_same split: prod.splits)

lemma m_write_cases:
  assumes "m_write c m = (x, m')"
  obtains (refused) "x = None" "m_same m m'" | (run) m1 where "m_same m m1" "m' = snd (c m1)" "x = None \<or> x = Some (fst (c m1))"
proof -
  obtain f m1 where f: "m_fault m = (f, m1)" by (cases "m_fault m")
  with assms m_fault_same [OF f] refused run [of m1] show thesis
    by (auto simp: m_write_def split: if_splits prod.splits)
qed

lemma ensure_collections_same: "ensure_collections m = (b, m') \<Longrightarrow> m_same m m'"
  by (auto simp: ensure_collections_def dest!: m_readD intro: m_same_trans split: prod.splits option.splits)

text \<open>What recording an event can do to the collections, by how far it gets.\<close>

definition tokens :: "mongo \<Rightarrow> string list" where
  "tokens m = map (\<lambda>d. so_token (sd_event d)) (outbox_docs m)"

definition last_number :: "mongo \<Rightarrow> int" where
  "last_number m = (case sequence m of Some v \<Rightarrow> v | None \<Rightarrow> 0)"

definition numbers_ok :: "mongo \<Rightarrow> bool" where
  "numbers_ok m \<longleftrightarrow> sorted_wrt (<) (map sd_sequence (outbox_docs m)) \<and> 0 \<le> last_number m \<and>
     (\<forall>d \<in> set (outbox_docs m). 0 < sd_sequence d \<and> sd_sequence d \<le> last_number m) \<and>
     (\<forall>n. es_checkpoint m = Some n \<longrightarrow> 0 \<le> n \<and> n \<le> last_number m)"

inductive recorded :: "SearchOutboxEvent \<Rightarrow> mongo \<Rightarrow> bool \<Rightarrow> mongo \<Rightarrow> bool" for ev m where
  left: "outbox_docs m' = outbox_docs m \<Longrightarrow> cdc_checkpoint m' = cdc_checkpoint m \<Longrightarrow> es_checkpoint m' = es_checkpoint m \<Longrightarrow>
     last_number m \<le> last_number m' \<Longrightarrow> recorded ev m False m'"
| present: "outbox_docs m' = outbox_docs m \<Longrightarrow> so_token ev \<in> set (tokens m) \<Longrightarrow>
     cdc_checkpoint m' = Some (so_token ev) \<or> \<not> ok \<and> cdc_checkpoint m' = cdc_checkpoint m \<Longrightarrow> es_checkpoint m' = es_checkpoint m \<Longrightarrow>
     last_number m' = last_number m \<Longrightarrow> recorded ev m ok m'"
| added: "so_token ev \<notin> set (tokens m) \<Longrightarrow> outbox_docs m' = outbox_docs m @ [\<lparr>sd_event = ev, sd_sequence = last_number m + 1\<rparr>] \<Longrightarrow>
     cdc_checkpoint m' = Some (so_token ev) \<or> \<not> ok \<and> cdc_checkpoint m' = cdc_checkpoint m \<Longrightarrow> es_checkpoint m' = es_checkpoint m \<Longrightarrow>
     last_number m' = last_number m + 1 \<Longrightarrow> recorded ev m ok m'"

lemma advance_checkpointD:
  assumes "advance_checkpoint t m = (ok, m')"
  shows "outbox_docs m' = outbox_docs m \<and> sequence m' = sequence m \<and> es_checkpoint m' = es_checkpoint m \<and>
    (cdc_checkpoint m' = Some t \<or> \<not> ok \<and> cdc_checkpoint m' = cdc_checkpoint m)"
proof -
  obtain x m1 where w: "m_write (\<lambda>m. ((), m\<lparr>cdc_checkpoint := Some t\<rparr>)) m = (x, m1)"
    by (cases "m_write (\<lambda>m. ((), m\<lparr>cdc_checkpoint := Some t\<rparr>)) m")
  with assms have e: "ok = (x \<noteq> None)" "m' = m1" by (simp_all add: advance_checkpoint_def)
  from w show ?thesis
  proof (cases rule: m_write_cases)
    case refused
    with e m_sameD [OF refused(2)] show ?thesis by simp
  next
    case (run m0)
    with e m_sameD [OF run(1)] show ?thesis by simp
  qed
qed

lemma next_sequenceD:
  assumes "next_sequence m = (x, m')"
  shows "outbox_docs m' = outbox_docs m \<and> cdc_checkpoint m' = cdc_checkpoint m \<and> es_checkpoint m' = es_checkpoint m \<and>
    last_number m \<le> last_number m' \<and> (\<forall>n. x = Some n \<longrightarrow> n = last_number m + 1 \<and> last_number m' = n)"
  using assms unfolding next_sequence_def
proof (cases rule: m_write_cases)
  case refused
  with m_sameD [OF refused(2)] show ?thesis by (simp add: last_number_def)
next
  case (run m0)
  with m_sameD [OF run(1)] show ?thesis by (auto simp: last_number_def Let_def)
qed

lemma record_recorded:
  assumes "record_mongo_outbox_event ev m = (ok, m')" "numbers_ok m"
  shows "recorded ev m ok m'"
proof -
  let ?q = "\<lambda>m. so_token ev \<in> (\<lambda>x. so_token (sd_event x)) ` set (outbox_docs m)"
  obtain x m1 where q: "m_read ?q m = (x, m1)" by (cases "m_read ?q m")
  note s1 = m_sameD [OF conjunct1 [OF m_readD [OF q]]]
  have x: "x = None \<or> x = Some (so_token ev \<in> set (tokens m))" using m_readD [OF q] s1 by (auto simp: tokens_def)
  show ?thesis
  proof (cases x)
    case None
    with assms q s1 show ?thesis by (auto simp: record_mongo_outbox_event_def last_number_def intro: recorded.left)
  next
    case (Some dup)
    show ?thesis
    proof (cases dup)
      case True
      with Some assms q have "advance_checkpoint (so_token ev) m1 = (ok, m')" by (simp add: record_mongo_outbox_event_def)
      from advance_checkpointD [OF this] True Some x s1 show ?thesis by (intro recorded.present) (auto simp: last_number_def)
    next
      case False
      with Some x have new: "so_token ev \<notin> set (tokens m)" by auto
      obtain y m2 where n: "next_sequence m1 = (y, m2)" by (cases "next_sequence m1")
      note s2 = next_sequenceD [OF n]
      have l: "last_number m1 = last_number m" using s1 by (simp add: last_number_def)
      show ?thesis
      proof (cases y)
        case None
        with \<open>x = Some dup\<close> False assms q n have "ok = False" "m' = m2" by (auto simp: record_mongo_outbox_event_def)
        with s1 s2 l show ?thesis by (auto intro!: recorded.left)
      next
        case (Some k)
        then have k: "k = last_number m + 1" "last_number m2 = k" using s2 l by auto
        let ?d = "\<lparr>sd_event = ev, sd_sequence = k\<rparr>"
        obtain z m3 where w: "m_write (insert_doc ?d) m2 = (z, m3)" by (cases "m_write (insert_doc ?d) m2")
        have ins: "insert_doc ?d m0 = (True, m0\<lparr>outbox_docs := outbox_docs m0 @ [?d]\<rparr>)" if "m_same m2 m0" for m0
        proof -
          have docs: "outbox_docs m0 = outbox_docs m" using m_sameD [OF that] s2 s1 by simp
          have "k \<notin> sd_sequence ` set (outbox_docs m)" using assms(2) k(1) by (auto simp: numbers_ok_def)
          with new docs show ?thesis by (simp add: insert_doc_def tokens_def)
        qed
        have rest: "(if z = None then (False, m3) else advance_checkpoint (so_token ev) m3) = (ok, m')"
          using assms(1) q \<open>x = Some dup\<close> False n Some w by (auto simp: record_mongo_outbox_event_def split: option.splits)
        from w show ?thesis
        proof (cases rule: m_write_cases)
          case refused
          with rest m_sameD [OF refused(2)] s1 s2 l show ?thesis by (auto simp: last_number_def intro!: recorded.left)
        next
          case (run m0)
          note s0 = m_sameD [OF run(1)]
          have m3: "outbox_docs m3 = outbox_docs m @ [?d]" "cdc_checkpoint m3 = cdc_checkpoint m" "es_checkpoint m3 = es_checkpoint m"
            "last_number m3 = k"
            using run(2) ins [OF run(1)] s0 s1 s2 k by (simp_all add: last_number_def)
          show ?thesis
          proof (cases z)
            case None
            with rest have "ok = False" "m' = m3" by auto
            with m3 new k show ?thesis by (intro recorded.added) auto
          next
            case (Some u)
            with rest have "advance_checkpoint (so_token ev) m3 = (ok, m')" by simp
            from advance_checkpointD [OF this] m3 new k show ?thesis by (intro recorded.added) (auto simp: last_number_def)
          qed
        qed
      qed
    qed
  qed
qed

section \<open>The order of the source\<close>

lemma position_nth: "t \<in> set log \<Longrightarrow> position t log < length log \<and> log ! position t log = t"
proof -
  assume t: "t \<in> set log"
  then have "takeWhile (\<lambda>x. x \<noteq> t) log \<noteq> log" by (metis (mono_tags, lifting) takeWhile_eq_all_conv)
  then have "length (takeWhile (\<lambda>x. x \<noteq> t) log) \<noteq> length log" by (metis takeWhile_eq_take take_all order_refl)
  then have l: "position t log < length log" using length_takeWhile_le [of "\<lambda>x. x \<noteq> t" log] by (simp add: position_def)
  with nth_length_takeWhile [of "\<lambda>x. x \<noteq> t" log] show ?thesis by (simp add: position_def)
qed

lemma position_append: "t \<in> set log \<Longrightarrow> position t (log @ xs) = position t log"
  by (simp add: position_def takeWhile_append1 [of t])

lemma position_at: "distinct log \<Longrightarrow> i < length log \<Longrightarrow> position (log ! i) log = i"
  by (metis nth_eq_iff_index_eq nth_mem position_nth)

definition order_ok :: "pipeline \<Rightarrow> bool" where
  "order_ok p \<longleftrightarrow> distinct (source p) \<and> set (tokens (db p)) \<subseteq> set (source p) \<and>
     sorted_wrt (<) (map (\<lambda>t. position t (source p)) (tokens (db p))) \<and>
     (\<forall>t. cdc_checkpoint (db p) = Some t \<longrightarrow> t \<in> set (tokens (db p)) \<and>
        (\<forall>u \<in> set (tokens (db p)). position u (source p) \<le> position t (source p) + 1)) \<and>
     (\<forall>i. cursor p = Some i \<longrightarrow> i \<le> length (source p) \<and> (\<forall>u \<in> set (tokens (db p)). position u (source p) \<le> i) \<and>
        (\<forall>t. cdc_checkpoint (db p) = Some t \<longrightarrow> position t (source p) + 1 = i))"

text \<open>What the events of the indexer rest on: an upsert has a document, and there is no third operation.\<close>

definition docs_ok :: "mongo \<Rightarrow> bool" where
  "docs_ok m \<longleftrightarrow> (\<forall>d \<in> set (outbox_docs m). so_operation (sd_event d) = ''upsert'' \<and> so_document (sd_event d) \<noteq> None \<or>
     so_operation (sd_event d) = ''delete'')"

definition apply_doc :: "SearchDoc \<Rightarrow> (string \<rightharpoonup> json) \<Rightarrow> (string \<rightharpoonup> json)" where
  "apply_doc d ix =
     ix(so_show_id (sd_event d) := (if so_operation (sd_event d) = ''upsert'' then so_document (sd_event d) else None))"

definition replay :: "SearchDoc list \<Rightarrow> (string \<rightharpoonup> json)" where
  "replay ds = fold apply_doc ds Map.empty"

definition done_upto :: "mongo \<Rightarrow> int" where
  "done_upto m = (case es_checkpoint m of Some n \<Rightarrow> n | None \<Rightarrow> 0)"

definition acknowledged :: "mongo \<Rightarrow> nat" where
  "acknowledged m = length (filter (\<lambda>d. sd_sequence d \<le> done_upto m) (outbox_docs m))"

definition index_ok :: "pipeline \<Rightarrow> bool" where
  "index_ok p \<longleftrightarrow> (\<exists>n. acknowledged (db p) \<le> n \<and> n \<le> acknowledged (db p) + 1 \<and> n \<le> length (outbox_docs (db p)) \<and>
     index p = replay (take n (outbox_docs (db p))))"

definition pipe_ok :: "pipeline \<Rightarrow> bool" where
  "pipe_ok p \<longleftrightarrow> order_ok p \<and> numbers_ok (db p) \<and> docs_ok (db p) \<and> index_ok p"

text \<open>In a list of increasing numbers the ones up to a bound are a prefix.\<close>

lemma filter_prefix:
  "sorted_wrt (<) (map f ds) \<Longrightarrow> filter (\<lambda>d. f d \<le> (n::int)) ds = take (length (filter (\<lambda>d. f d \<le> n) ds)) ds"
proof (induction ds)
  case (Cons d ds)
  show ?case
  proof (cases "f d \<le> n")
    case True
    with Cons show ?thesis by simp
  next
    case False
    with Cons.prems have "\<forall>x \<in> set ds. \<not> f x \<le> n" by auto
    with False show ?thesis by (simp add: filter_False)
  qed
qed simp

lemma find_next:
  assumes "sorted_wrt (<) (map f ds)"
  shows "find (\<lambda>d. (n::int) < f d) (sort_key f ds) =
    (let k = length (filter (\<lambda>d. f d \<le> n) ds) in if k < length ds then Some (ds ! k) else None)"
proof -
  have "sorted (map f ds)" using assms by (simp add: strict_sorted_iff)
  then have "sort_key f ds = ds" by (simp add: sorted_sort_id sort_key_id_if_sorted)
  moreover have "find (\<lambda>d. n < f d) ds =
      (let k = length (filter (\<lambda>d. f d \<le> n) ds) in if k < length ds then Some (ds ! k) else None)"
    using assms
  proof (induction ds)
    case (Cons d ds)
    show ?case
    proof (cases "f d \<le> n")
      case True
      with Cons show ?thesis by (simp add: Let_def)
    next
      case False
      with Cons.prems have "filter (\<lambda>d. f d \<le> n) ds = []" by (auto simp: filter_empty_conv)
      with False show ?thesis by simp
    qed
  qed simp
  ultimately show ?thesis by simp
qed

lemma sd_step:
  assumes "sorted_wrt (<) (map f ds)" "k < length ds" "k = length (filter (\<lambda>d. f d \<le> (n::int)) ds)"
  shows "length (filter (\<lambda>d. f d \<le> f (ds ! k)) ds) = k + 1"
proof -
  have "f (ds ! i) \<le> f (ds ! k) \<longleftrightarrow> i \<le> k" if "i < length ds" for i
    using sorted_wrt_nth_less [OF assms(1), of i k] sorted_wrt_nth_less [OF assms(1), of k i] that assms(2)
    by (cases i k rule: linorder_cases) auto
  then have "{i. i < length ds \<and> f (ds ! i) \<le> f (ds ! k)} = {..k}" using assms(2) by auto
  then show ?thesis by (simp add: length_filter_conv_card)
qed

section \<open>Steps keep the invariant\<close>

lemma recorded_docs:
  assumes "recorded ev m ok m'" "numbers_ok m" "docs_ok m"
    and "so_operation ev = ''upsert'' \<and> so_document ev \<noteq> None \<or> so_operation ev = ''delete''"
  shows "numbers_ok m' \<and> docs_ok m' \<and> es_checkpoint m' = es_checkpoint m \<and>
    (\<exists>xs. outbox_docs m' = outbox_docs m @ xs \<and> (\<forall>d \<in> set xs. last_number m < sd_sequence d))"
  using assms
proof (cases rule: recorded.cases)
  case left
  with assms(2,3) show ?thesis by (auto simp: numbers_ok_def docs_ok_def; force)
next
  case present
  with assms(2,3) show ?thesis by (auto simp: numbers_ok_def docs_ok_def)
next
  case added
  with assms(2-4) show ?thesis by (auto simp: numbers_ok_def docs_ok_def sorted_wrt_append; force)
qed

lemma index_ok_append:
  assumes "numbers_ok m" "es_checkpoint m' = es_checkpoint m" "outbox_docs m' = outbox_docs m @ xs"
    and "\<forall>d \<in> set xs. last_number m < sd_sequence d" "index_ok p" "db p = m" "index p' = index p" "db p' = m'"
  shows "index_ok p'"
proof -
  have "done_upto m \<le> last_number m" using assms(1) by (auto simp: numbers_ok_def done_upto_def split: option.split)
  then have "acknowledged m' = acknowledged m"
    using assms(2-4) by (auto simp: acknowledged_def done_upto_def filter_empty_conv)
  with assms(3,5-8) show ?thesis by (auto simp: index_ok_def)
qed

lemma event_ops:
  "change_to_outbox_event op s t doc = Inr ev \<Longrightarrow>
   so_token ev = t \<and> (so_operation ev = ''upsert'' \<and> so_document ev \<noteq> None \<or> so_operation ev = ''delete'')"
  by (auto simp: change_to_outbox_event_def delete_event_def split: if_splits option.splits)

lemma handle_change_cases:
  assumes "handle_change carrier c m = (ok, m')" "numbers_ok m"
  obtains (refused) "\<not> ok" "m' = m"
    | (tried) ev where "recorded ev m ok m'" "so_token ev = ch_token c"
        "so_operation ev = ''upsert'' \<and> so_document ev \<noteq> None \<or> so_operation ev = ''delete''"
proof (cases "ch_show_id c")
  case None
  with assms refused show thesis by (simp add: handle_change_def)
next
  case (Some s)
  show thesis
  proof (cases "change_to_outbox_event (ch_operation c) s (ch_token c) (ch_document c)")
    case (Inl e)
    with Some assms refused show thesis by (simp add: handle_change_def)
  next
    case (Inr ev)
    with Some assms(1) have "record_mongo_outbox_event (ev\<lparr>so_trace := carrier\<rparr>) m = (ok, m')" by (simp add: handle_change_def)
    from record_recorded [OF this assms(2)] event_ops [OF Inr] show thesis by (intro tried) auto
  qed
qed

lemma position_less: "t \<in> set log \<Longrightarrow> position t log < length log"
  using position_nth by blast

lemma order_ok_grow:
  assumes "order_ok p" "t \<notin> set (source p)"
  shows "order_ok (p\<lparr>source := source p @ [t]\<rparr>)"
proof -
  have pos: "position u (source p @ [t]) = position u (source p)" if "u \<in> set (tokens (db p))" for u
    using that assms(1) by (auto simp: order_ok_def intro: position_append)
  then have "map (\<lambda>u. position u (source p @ [t])) (tokens (db p)) = map (\<lambda>u. position u (source p)) (tokens (db p))" by simp
  then show ?thesis
    using assms pos unfolding order_ok_def by (simp del: map_eq_conv) (auto simp: pos)
qed

text \<open>Recording the change at the cursor.\<close>

lemma order_ok_record:
  assumes ok: "order_ok p" and c: "cursor p = Some i" "i < length (source p)" "source p ! i = so_token ev"
    and rec: "recorded ev (db p) b m"
  shows "order_ok (p\<lparr>cursor := (if b then Some (i + 1) else None), db := m\<rparr>)"
proof -
  let ?pos = "\<lambda>t. position t (source p)" and ?T = "tokens (db p)"
  from ok have dist: "distinct (source p)" and sub: "set ?T \<subseteq> set (source p)" and sorted: "sorted_wrt (<) (map ?pos ?T)"
    and cp: "\<And>t. cdc_checkpoint (db p) = Some t \<Longrightarrow> t \<in> set ?T" by (auto simp: order_ok_def)
  from ok c(1) have cur: "\<And>u. u \<in> set ?T \<Longrightarrow> ?pos u \<le> i" "\<And>t. cdc_checkpoint (db p) = Some t \<Longrightarrow> ?pos t + 1 = i"
    by (auto simp: order_ok_def)
  have here: "?pos (so_token ev) = i" using position_at [OF dist c(2)] c(3) by simp
  have ne: "?pos u < i" if "u \<in> set ?T" "u \<noteq> so_token ev" for u
    using cur(1) [OF that(1)] position_nth [of u "source p"] that sub c(3) by (metis le_neq_implies_less subsetD)
  have src: "so_token ev \<in> set (source p)" using c(2,3) by (metis nth_mem)
  have new: "\<exists>ys. tokens m = ?T @ ys \<and> set ys \<subseteq> {so_token ev} \<and> sorted_wrt (<) (map ?pos (tokens m)) \<and>
      (cdc_checkpoint m = Some (so_token ev) \<and> so_token ev \<in> set (tokens m) \<or> \<not> b \<and> cdc_checkpoint m = cdc_checkpoint (db p))"
    using rec
  proof (cases rule: recorded.cases)
    case left
    then show ?thesis using sorted by (auto simp: tokens_def)
  next
    case present
    then show ?thesis using sorted by (auto simp: tokens_def)
  next
    case added
    have "sorted_wrt (<) (map ?pos (?T @ [so_token ev]))"
      using sorted ne here added(1) by (auto simp: sorted_wrt_append)
    moreover have "tokens m = ?T @ [so_token ev]" using added(2) by (simp add: tokens_def)
    ultimately show ?thesis using added(3) by auto
  qed
  then obtain ys where ys: "tokens m = ?T @ ys" "set ys \<subseteq> {so_token ev}" "sorted_wrt (<) (map ?pos (tokens m))"
    and ck: "cdc_checkpoint m = Some (so_token ev) \<and> so_token ev \<in> set (tokens m) \<or> \<not> b \<and> cdc_checkpoint m = cdc_checkpoint (db p)"
    by blast
  have le: "?pos u \<le> i" if "u \<in> set (tokens m)" for u using that ys(1,2) cur(1) here by auto
  have sub': "set (tokens m) \<subseteq> set (source p)" using ys(1,2) sub src by auto
  have cks: "t \<in> set (tokens m) \<and> (\<forall>u \<in> set (tokens m). ?pos u \<le> ?pos t + 1)" if t: "cdc_checkpoint m = Some t" for t
    using ck
  proof
    assume "cdc_checkpoint m = Some (so_token ev) \<and> so_token ev \<in> set (tokens m)"
    with t le here show ?thesis by (auto intro: le_SucI)
  next
    assume "\<not> b \<and> cdc_checkpoint m = cdc_checkpoint (db p)"
    with t have "cdc_checkpoint (db p) = Some t" by simp
    with cur(2) cp ys(1) le show ?thesis by fastforce
  qed
  have curs: "i + 1 \<le> length (source p) \<and> (\<forall>u \<in> set (tokens m). ?pos u \<le> i + 1) \<and>
      (\<forall>t. cdc_checkpoint m = Some t \<longrightarrow> ?pos t + 1 = i + 1)" if b
    using that ck c(2) le here by (auto intro: le_SucI)
  show ?thesis
    unfolding order_ok_def using dist sub' ys(3) cks curs by auto
qed

lemma pipe_ok_deliver: "pipe_ok p \<Longrightarrow> pipe_ok (deliver carrier c p)"
proof -
  assume ok: "pipe_ok p"
  show ?thesis
  proof (cases "\<exists>i. cursor p = Some i \<and> i < length (source p) \<and> source p ! i = ch_token c")
    case False
    with ok show ?thesis by (auto simp: deliver_def split: option.split)
  next
    case True
    then obtain i where i: "cursor p = Some i" "i < length (source p)" "source p ! i = ch_token c" by blast
    obtain b m where h: "handle_change carrier c (db p) = (b, m)" by (cases "handle_change carrier c (db p)")
    let ?p = "p\<lparr>cursor := (if b then Some (i + 1) else None), db := m\<rparr>"
    have d: "deliver carrier c p = ?p" using i h by (simp add: deliver_def)
    have n: "numbers_ok (db p)" using ok by (simp add: pipe_ok_def)
    from h n show ?thesis
    proof (cases rule: handle_change_cases)
      case refused
      with ok d show ?thesis by (auto simp: pipe_ok_def order_ok_def index_ok_def)
    next
      case (tried ev)
      have docs: "docs_ok (db p)" using ok by (simp add: pipe_ok_def)
      from recorded_docs [OF tried(1) n docs tried(3)] obtain xs where r: "numbers_ok m" "docs_ok m"
        "es_checkpoint m = es_checkpoint (db p)" "outbox_docs m = outbox_docs (db p) @ xs"
        "\<forall>d \<in> set xs. last_number (db p) < sd_sequence d" by blast
      have "index_ok ?p" by (rule index_ok_append [OF n r(3-5), of p]) (use ok in \<open>simp_all add: pipe_ok_def\<close>)
      moreover have "order_ok ?p" by (rule order_ok_record [OF _ i(1,2) _ tried(1)]) (use ok i(3) tried(2) in \<open>simp_all add: pipe_ok_def\<close>)
      ultimately show ?thesis using r d by (simp add: pipe_ok_def)
    qed
  qed
qed

lemma connect_cases:
  obtains (closed) m where "connect p = p\<lparr>cursor := None, db := m\<rparr>" "m_same (db p) m"
    | (opened) m where "m_same (db p) m" "connect p = p\<lparr>cursor := Some (case cdc_checkpoint (db p) of
        Some t \<Rightarrow> position t (source p) + 1 | None \<Rightarrow> length (source p)), db := m\<rparr>"
proof -
  obtain b m1 where e: "ensure_collections (db p) = (b, m1)" by (cases "ensure_collections (db p)")
  obtain x m2 where l: "load_mongo_checkpoint m1 = (x, m2)" by (cases "load_mongo_checkpoint m1")
  obtain y m3 where w: "m_read (\<lambda>_. ()) m2 = (y, m3)" by (cases "m_read (\<lambda>_. ()) m2")
  note s1 = ensure_collections_same [OF e]
  have s2: "m_same (db p) m2" and x: "x = None \<or> x = Some (cdc_checkpoint (db p))"
    using m_readD [OF l [unfolded load_mongo_checkpoint_def]] s1 m_same_trans [OF s1] m_sameD by auto
  have s3: "m_same (db p) m3" using m_readD [OF w] m_same_trans [OF s2] by blast
  show thesis
  proof (cases "b \<and> x \<noteq> None \<and> y \<noteq> None")
    case True
    with e l w x show thesis by (intro opened [OF s3]) (auto simp: connect_def)
  next
    case False
    then have "connect p \<in> {p\<lparr>cursor := None, db := m1\<rparr>, p\<lparr>cursor := None, db := m2\<rparr>, p\<lparr>cursor := None, db := m3\<rparr>}"
      using e l w by (cases b; cases x; cases y) (simp_all add: connect_def)
    with closed s1 s2 s3 show thesis by blast
  qed
qed

lemma pipe_ok_same_db:
  assumes "pipe_ok p" "m_same (db p) m" "p' = p\<lparr>cursor := c, db := m\<rparr>"
    and "\<And>i. c = Some i \<Longrightarrow> i \<le> length (source p) \<and> (\<forall>u \<in> set (tokens (db p)). position u (source p) \<le> i) \<and>
        (\<forall>t. cdc_checkpoint (db p) = Some t \<longrightarrow> position t (source p) + 1 = i)"
  shows "pipe_ok p'"
proof -
  have e: "tokens m = tokens (db p)" "last_number m = last_number (db p)" "acknowledged m = acknowledged (db p)"
    using m_sameD [OF assms(2)] by (simp_all add: tokens_def last_number_def acknowledged_def done_upto_def)
  with assms(1,3,4) m_sameD [OF assms(2)] show ?thesis
    by (simp add: pipe_ok_def order_ok_def numbers_ok_def docs_ok_def index_ok_def)
qed

lemma pipe_ok_connect: "pipe_ok p \<Longrightarrow> pipe_ok (connect p)"
proof (cases p rule: connect_cases)
  case (closed m)
  assume "pipe_ok p"
  then show ?thesis by (rule pipe_ok_same_db [OF _ closed(2,1)]) simp
next
  case (opened m)
  assume ok: "pipe_ok p"
  then have ord: "order_ok p" by (simp add: pipe_ok_def)
  show ?thesis
  proof (rule pipe_ok_same_db [OF ok opened(1,2)])
    fix i assume i: "Some (case cdc_checkpoint (db p) of Some t \<Rightarrow> position t (source p) + 1 | None \<Rightarrow> length (source p)) = Some i"
    show "i \<le> length (source p) \<and> (\<forall>u \<in> set (tokens (db p)). position u (source p) \<le> i) \<and>
        (\<forall>t. cdc_checkpoint (db p) = Some t \<longrightarrow> position t (source p) + 1 = i)"
    proof (cases "cdc_checkpoint (db p)")
      case None
      with i ord show ?thesis by (auto simp: order_ok_def intro: less_imp_le position_less)
    next
      case (Some t)
      with ord have t: "t \<in> set (source p)" by (auto simp: order_ok_def)
      from ord Some have "\<forall>u \<in> set (tokens (db p)). position u (source p) \<le> position t (source p) + 1" by (simp add: order_ok_def)
      with Some i position_less [OF t] show ?thesis by auto
    qed
  qed
qed

text \<open>The indexer applies the next event of the outbox, and applying it twice is applying it once.\<close>

lemma apply_doc_twice: "apply_doc d (apply_doc d ix) = apply_doc d ix"
  by (simp add: apply_doc_def)

lemma apply_event_cases:
  assumes "apply_event (parse_claimed_event d) p = (ok, p')" "so_operation (sd_event d) = ''upsert'' \<and> so_document (sd_event d) \<noteq> None \<or>
     so_operation (sd_event d) = ''delete''"
  shows "source p' = source p \<and> cursor p' = cursor p \<and> db p' = db p \<and>
    (index p' = apply_doc d (index p) \<or> \<not> ok \<and> index p' = index p)"
proof -
  have es: "source p2 = source p \<and> cursor p2 = cursor p \<and> db p2 = db p \<and> (index p2 = c (index p) \<or> \<not> b \<and> index p2 = index p)"
    if "es_request a c p = (b, p2)" for a c b p2
    using that by (auto simp: es_request_def split: list.splits if_splits prod.splits)
  show ?thesis
  proof (cases "so_operation (sd_event d) = ''upsert''")
    case True
    with assms obtain doc where doc: "so_document (sd_event d) = Some doc" by auto
    with True assms(1) have "es_request (es_accepts p doc) (\<lambda>ix. ix(so_show_id (sd_event d) \<mapsto> doc)) p = (ok, p')"
      by (simp add: apply_event_def parse_claimed_event_def)
    from es [OF this] True doc show ?thesis by (simp add: apply_doc_def)
  next
    case False
    with assms have "es_request True (\<lambda>ix. ix(so_show_id (sd_event d) := None)) p = (ok, p')"
      by (simp add: apply_event_def parse_claimed_event_def)
    from es [OF this] False show ?thesis by (simp add: apply_doc_def)
  qed
qed

abbreviation in_sequence :: "mongo \<Rightarrow> bool" where
  "in_sequence m \<equiv> sorted_wrt (<) (map sd_sequence (outbox_docs m))"

lemma claim_nextD:
  assumes "claim_next m = (x, m')" "in_sequence m"
  shows "m_same m m'" "x = Some (Some ev) \<Longrightarrow> acknowledged m < length (outbox_docs m) \<and>
    ev = parse_claimed_event (outbox_docs m ! acknowledged m)"
proof -
  obtain c m1 where c: "m_read es_checkpoint m = (c, m1)" by (cases "m_read es_checkpoint m")
  note s1 = m_readD [OF c]
  let ?q = "\<lambda>n m. find (\<lambda>d. n < sd_sequence d) (sort_key sd_sequence (outbox_docs m))"
  have "m_same m m' \<and> (x = Some (Some ev) \<longrightarrow> acknowledged m < length (outbox_docs m) \<and> ev = parse_claimed_event (outbox_docs m ! acknowledged m))"
  proof (cases c)
    case None
    with assms c s1 show ?thesis by (auto simp: claim_next_def)
  next
    case (Some cp)
    then have cp: "(case cp of Some n \<Rightarrow> n | None \<Rightarrow> 0) = done_upto m" using s1 m_sameD [of m m1] by (auto simp: done_upto_def)
    obtain y m2 where y: "m_read (?q (done_upto m)) m1 = (y, m2)" by (cases "m_read (?q (done_upto m)) m1")
    have s2: "m_same m m2" using s1 m_readD [OF y] m_same_trans by blast
    have "x = map_option (map_option parse_claimed_event) y" "m' = m2"
      using assms(1) c Some cp y by (cases y; simp add: claim_next_def Let_def)+
    moreover have "y = None \<or> y = Some (?q (done_upto m) m)" using m_readD [OF y] m_sameD [OF s2] by auto
    moreover note find_next [OF assms(2), of "done_upto m", folded acknowledged_def]
    ultimately show ?thesis using s2 by (auto simp: Let_def split: if_splits)
  qed
  then show "m_same m m'" "x = Some (Some ev) \<Longrightarrow> acknowledged m < length (outbox_docs m) \<and>
    ev = parse_claimed_event (outbox_docs m ! acknowledged m)" by blast+
qed

lemma replay_take: "n < length ds \<Longrightarrow> replay (take (n + 1) ds) = apply_doc (ds ! n) (replay (take n ds))"
  by (simp add: replay_def take_Suc_conv_app_nth)

text \<open>What a pass of the indexer does, and that it keeps the index a replay.\<close>

lemma index_pass_spec:
  assumes "in_sequence (db p)" "docs_ok (db p)"
  shows "source (index_pass p) = source p \<and> cursor (index_pass p) = cursor p \<and>
      outbox_docs (db (index_pass p)) = outbox_docs (db p) \<and> sequence (db (index_pass p)) = sequence (db p) \<and>
      cdc_checkpoint (db (index_pass p)) = cdc_checkpoint (db p) \<and>
      (es_checkpoint (db (index_pass p)) = es_checkpoint (db p) \<or>
       es_checkpoint (db (index_pass p)) \<in> Some ` sd_sequence ` set (outbox_docs (db p))) \<and>
      (index_ok p \<longrightarrow> index_ok (index_pass p))"
proof -
  obtain x m where c: "claim_next (db p) = (x, m)" by (cases "claim_next (db p)")
  note sm = m_sameD [OF claim_nextD(1) [OF c assms(1)]]
  have am: "acknowledged m = acknowledged (db p)" using sm by (simp add: acknowledged_def done_upto_def)
  show ?thesis
  proof (cases "\<exists>ev. x = Some (Some ev)")
    case False
    with c sm am show ?thesis by (auto simp: index_pass_def index_ok_def split: option.splits)
  next
    case True
    then obtain ev where ev: "x = Some (Some ev)" by blast
    let ?a = "acknowledged (db p)" and ?ds = "outbox_docs (db p)"
    from claim_nextD(2) [OF c assms(1) ev] have a: "?a < length ?ds" and ev': "ev = parse_claimed_event (?ds ! ?a)" by simp_all
    obtain b p2 where ap: "apply_event ev (p\<lparr>db := m\<rparr>) = (b, p2)" by (cases "apply_event ev (p\<lparr>db := m\<rparr>)")
    have in_ds: "?ds ! ?a \<in> set ?ds" using a by simp
    with assms(2) apply_event_cases [OF ap [unfolded ev']] have p2: "source p2 = source p" "cursor p2 = cursor p" "db p2 = m"
      "index p2 = apply_doc (?ds ! ?a) (index p) \<or> \<not> b \<and> index p2 = index p" by (auto simp: docs_ok_def)
    have ap1: "replay (take (?a + 1) ?ds) = apply_doc (?ds ! ?a) (index p)" if "index_ok p"
    proof -
      from that obtain n where n: "?a \<le> n" "n \<le> ?a + 1" "index p = replay (take n ?ds)" by (auto simp: index_ok_def)
      then consider "n = ?a" | "n = ?a + 1" by linarith
      then show ?thesis by cases (use n(3) replay_take [OF a] in \<open>simp_all add: apply_doc_twice\<close>)
    qed
    show ?thesis
    proof (cases b)
      case False
      have "index_ok (p2\<lparr>failures := failures p2 + 1\<rparr>)" if ok: "index_ok p"
        using p2(4)
      proof
        assume "index p2 = apply_doc (?ds ! ?a) (index p)"
        then show ?thesis using ap1 [OF ok] a sm by (intro index_ok_def [THEN iffD2] exI [of _ "?a + 1"]) (simp add: p2(3) am)
      next
        assume "\<not> b \<and> index p2 = index p"
        with ok sm show ?thesis by (simp add: index_ok_def p2(3) am)
      qed
      with False c ev ap sm p2(1-3) show ?thesis by (simp add: index_pass_def)
    next
      case True
      obtain y m2 where w: "m_write (\<lambda>m. ((), m\<lparr>es_checkpoint := Some (ce_sequence ev)\<rparr>)) m = (y, m2)"
        by (cases "m_write (\<lambda>m. ((), m\<lparr>es_checkpoint := Some (ce_sequence ev)\<rparr>)) m")
      have seq: "ce_sequence ev = sd_sequence (?ds ! ?a)" by (simp add: ev' parse_claimed_event_def)
      have m2: "outbox_docs m2 = ?ds" "sequence m2 = sequence (db p)" "cdc_checkpoint m2 = cdc_checkpoint (db p)"
        "es_checkpoint m2 = es_checkpoint (db p) \<or> es_checkpoint m2 = Some (sd_sequence (?ds ! ?a))"
        using w sm seq by (auto elim!: m_write_cases dest!: m_sameD)
      have ack: "acknowledged m2 = ?a \<or> acknowledged m2 = ?a + 1"
        using m2(4)
      proof
        assume "es_checkpoint m2 = es_checkpoint (db p)"
        then show ?thesis using m2(1) by (simp add: acknowledged_def done_upto_def)
      next
        assume "es_checkpoint m2 = Some (sd_sequence (?ds ! ?a))"
        with sd_step [OF assms(1) a acknowledged_def] show ?thesis using m2(1) by (simp add: acknowledged_def done_upto_def)
      qed
      let ?p = "p2\<lparr>failures := 0, db := m2\<rparr>"
      have "index_ok ?p" if "index_ok p"
        using ack ap1 [OF that] p2(4) True a by (intro index_ok_def [THEN iffD2] exI [of _ "?a + 1"]) (auto simp: m2(1))
      moreover have "index_pass p = ?p" using c ev ap True w p2(3) by (simp add: index_pass_def mark_indexed_def)
      ultimately show ?thesis using p2(1,2) m2 in_ds by auto
    qed
  qed
qed

lemma numbers_in_sequence: "numbers_ok m \<Longrightarrow> in_sequence m"
  by (simp add: numbers_ok_def)

lemma pipe_ok_index: "pipe_ok p \<Longrightarrow> pipe_ok (index_pass p)"
proof -
  assume "pipe_ok p"
  then have num: "numbers_ok (db p)" and docs: "docs_ok (db p)" and ord: "order_ok p" and ix: "index_ok p"
    by (simp_all add: pipe_ok_def)
  note spec = index_pass_spec [OF numbers_in_sequence [OF num] docs]
  have "last_number (db (index_pass p)) = last_number (db p)" using spec by (simp add: last_number_def)
  with spec num have "numbers_ok (db (index_pass p))" by (auto simp: numbers_ok_def; force)
  moreover have "order_ok (index_pass p)" using spec ord by (simp add: order_ok_def tokens_def)
  moreover have "docs_ok (db (index_pass p))" using spec docs by (simp add: docs_ok_def)
  ultimately show ?thesis using spec ix by (simp add: pipe_ok_def)
qed

lemma pipe_ok_step: "pipe_ok p \<Longrightarrow> pipe_ok (pipe_step e p)"
proof (cases e)
  case (Changed t)
  assume "pipe_ok p"
  with order_ok_grow [of p t] Changed show ?thesis by (auto simp: pipe_ok_def index_ok_def)
next
  case Broken
  assume "pipe_ok p"
  with Broken show ?thesis by (simp add: pipe_ok_def order_ok_def index_ok_def)
qed (simp_all add: pipe_ok_connect pipe_ok_deliver pipe_ok_index)

lemma pipe_ok_run: "pipe_ok p \<Longrightarrow> pipe_ok (pipe_run es p)"
  unfolding pipe_run_def by (induction es arbitrary: p) (simp_all add: pipe_ok_step del: pipe_step.simps)

lemma pipe_ok_new: "pipe_ok (new_pipeline acc fs es)"
  by (simp add: pipe_ok_def new_pipeline_def order_ok_def numbers_ok_def docs_ok_def index_ok_def tokens_def last_number_def
      acknowledged_def done_upto_def replay_def)

section \<open>What one step does to the record of changes\<close>

definition converts :: "change \<Rightarrow> bool" where
  "converts c =
     (case ch_show_id c of
        None \<Rightarrow> False
      | Some s \<Rightarrow> (case change_to_outbox_event (ch_operation c) s (ch_token c) (ch_document c) of Inl _ \<Rightarrow> False | Inr _ \<Rightarrow> True))"

lemma handle_change_refused: "\<not> converts c \<Longrightarrow> handle_change carrier c m = (False, m)"
  by (simp add: converts_def handle_change_def split: option.splits sum.splits)

lemma index_pass_same:
  assumes "pipe_ok p"
  shows "source (index_pass p) = source p \<and> cursor (index_pass p) = cursor p \<and>
    outbox_docs (db (index_pass p)) = outbox_docs (db p) \<and> cdc_checkpoint (db (index_pass p)) = cdc_checkpoint (db p)"
  using index_pass_spec [OF numbers_in_sequence, of p] assms by (simp add: pipe_ok_def)

abbreviation resume_at :: "pipeline \<Rightarrow> nat" where
  "resume_at p \<equiv> (case cdc_checkpoint (db p) of Some t \<Rightarrow> position t (source p) + 1 | None \<Rightarrow> length (source p))"

lemma deliver_cases:
  assumes "pipe_ok p" "p' = deliver carrier c p"
  obtains (quiet) "tokens (db p') = tokens (db p)" "cdc_checkpoint (db p') = cdc_checkpoint (db p)" "source p' = source p"
      "cursor p' = cursor p \<or> cursor p' = None"
    | (recording) i ys where "cursor p = Some i" "i < length (source p)" "source p ! i = ch_token c" "converts c"
      "source p' = source p" "tokens (db p') = tokens (db p) @ ys" "set ys \<subseteq> {ch_token c}"
      "cdc_checkpoint (db p') = Some (ch_token c) \<and> ch_token c \<in> set (tokens (db p')) \<or>
         cdc_checkpoint (db p') = cdc_checkpoint (db p) \<and> cursor p' = None"
      "cursor p' = None \<or> cursor p' = Some (i + 1)"
proof (cases "\<exists>i. cursor p = Some i \<and> i < length (source p) \<and> source p ! i = ch_token c")
  case False
  then have "p' = p" using assms(2) by (auto simp: deliver_def split: option.split)
  then show thesis by (intro quiet) simp_all
next
  case True
  then obtain i where i: "cursor p = Some i" "i < length (source p)" "source p ! i = ch_token c" by blast
  obtain b m where h: "handle_change carrier c (db p) = (b, m)" by (cases "handle_change carrier c (db p)")
  have d: "p' = p\<lparr>cursor := (if b then Some (i + 1) else None), db := m\<rparr>" using i h assms(2) by (simp add: deliver_def)
  show thesis
  proof (cases "converts c")
    case False
    with h handle_change_refused have "\<not> b" "m = db p" by auto
    with d show thesis by (intro quiet) simp_all
  next
    case True
    have "numbers_ok (db p)" using assms(1) by (simp add: pipe_ok_def)
    with h show thesis
    proof (cases rule: handle_change_cases)
      case refused
      with d show thesis by (intro quiet) simp_all
    next
      case (tried ev)
      from tried(1) have "\<exists>ys. tokens m = tokens (db p) @ ys \<and> set ys \<subseteq> {ch_token c} \<and>
          (cdc_checkpoint m = Some (ch_token c) \<and> ch_token c \<in> set (tokens m) \<or> \<not> b \<and> cdc_checkpoint m = cdc_checkpoint (db p))"
        by (cases rule: recorded.cases) (use tried(2) in \<open>auto simp: tokens_def\<close>)
      with d show thesis by (elim exE conjE) (rule recording [OF i True], auto)
    qed
  qed
qed

lemma pipe_step_cases:
  assumes "pipe_ok p" "p' = pipe_step e p"
  obtains (quiet) ts where "tokens (db p') = tokens (db p)" "cdc_checkpoint (db p') = cdc_checkpoint (db p)"
      "source p' = source p @ ts" "cursor p' = cursor p \<or> cursor p' = None \<or> cursor p' = Some (resume_at p) \<and> ts = []"
    | (recording) i carrier c ys where "e = Arrived carrier c" "cursor p = Some i" "i < length (source p)"
      "source p ! i = ch_token c" "converts c" "source p' = source p" "tokens (db p') = tokens (db p) @ ys"
      "set ys \<subseteq> {ch_token c}"
      "cdc_checkpoint (db p') = Some (ch_token c) \<and> ch_token c \<in> set (tokens (db p')) \<or>
         cdc_checkpoint (db p') = cdc_checkpoint (db p) \<and> cursor p' = None"
      "cursor p' = None \<or> cursor p' = Some (i + 1)"
proof (cases e)
  case (Changed t)
  with assms(2) show thesis by (intro quiet [of "if t \<in> set (source p) then [] else [t]"]) simp_all
next
  case Connected
  then have "p' = connect p" using assms(2) by simp
  then show thesis
    by (cases rule: connect_cases [of p]) (auto intro!: quiet [of "[]"] dest!: m_sameD simp: tokens_def)
next
  case (Arrived carrier c)
  then have "p' = deliver carrier c p" using assms(2) by simp
  with assms(1) show thesis
  proof (cases rule: deliver_cases)
    case quiet
    then show thesis by (intro that(1) [of "[]"]) auto
  next
    case (recording i ys)
    then show thesis by (rule that(2) [OF Arrived])
  qed
next
  case Broken
  with assms(2) show thesis by (intro quiet [of "[]"]) simp_all
next
  case Indexed
  with assms index_pass_same [OF assms(1)] show thesis by (intro quiet [of "[]"]) (simp_all add: tokens_def)
qed

section \<open>Runs from a checkpoint\<close>

text \<open>All changes from position \<open>k\<close> up to the checkpoint are in the outbox.\<close>

definition none_skipped :: "nat \<Rightarrow> pipeline \<Rightarrow> bool" where
  "none_skipped k p \<longleftrightarrow> (\<exists>t. cdc_checkpoint (db p) = Some t \<and> k \<le> position t (source p) \<and>
     (\<forall>u \<in> set (source p). k \<le> position u (source p) \<and> position u (source p) \<le> position t (source p) \<longrightarrow>
        u \<in> set (tokens (db p))))"

lemma checkpoint_in_source: "pipe_ok p \<Longrightarrow> cdc_checkpoint (db p) = Some t \<Longrightarrow> t \<in> set (source p)"
  by (auto simp: pipe_ok_def order_ok_def)

lemma none_skipped_quiet:
  assumes "pipe_ok p" "none_skipped k p" "tokens (db p') = tokens (db p)" "cdc_checkpoint (db p') = cdc_checkpoint (db p)"
    and "source p' = source p @ ts"
  shows "none_skipped k p'"
proof -
  from assms(2) obtain t where t: "cdc_checkpoint (db p) = Some t" "k \<le> position t (source p)"
    "\<forall>u \<in> set (source p). k \<le> position u (source p) \<and> position u (source p) \<le> position t (source p) \<longrightarrow> u \<in> set (tokens (db p))"
    by (auto simp: none_skipped_def)
  note ts = checkpoint_in_source [OF assms(1) t(1)]
  have "u \<in> set (tokens (db p))"
    if u: "k \<le> position u (source p')" "position u (source p') \<le> position t (source p')" "u \<in> set (source p')" for u
  proof (cases "u \<in> set (source p)")
    case True
    with t(3) u(1,2) ts assms(5) show ?thesis by (simp add: position_append)
  next
    case False
    then have "length (source p) \<le> position u (source p')"
      by (simp add: assms(5) position_def takeWhile_append takeWhile_eq_all_conv)
    with u(2) position_less [OF ts] ts assms(5) show ?thesis by (simp add: position_append)
  qed
  with t ts assms(3-5) show ?thesis by (auto simp: none_skipped_def position_append)
qed

lemma none_skipped_step:
  assumes "pipe_ok p" "none_skipped k p"
  shows "none_skipped k (pipe_step e p)"
  using assms(1) refl
proof (cases rule: pipe_step_cases [of p "pipe_step e p" e])
  case (quiet ts)
  with assms none_skipped_quiet show ?thesis by blast
next
  case (recording i carrier c ys)
  let ?p = "pipe_step e p"
  from assms(2) obtain t where t: "cdc_checkpoint (db p) = Some t" "k \<le> position t (source p)"
    "\<forall>u \<in> set (source p). k \<le> position u (source p) \<and> position u (source p) \<le> position t (source p) \<longrightarrow> u \<in> set (tokens (db p))"
    by (auto simp: none_skipped_def)
  from assms(1) have dist: "distinct (source p)" and i: "position t (source p) + 1 = i"
    using recording(2) t(1) by (auto simp: pipe_ok_def order_ok_def)
  have here: "position (ch_token c) (source p) = i" using position_at [OF dist recording(3)] recording(4) by simp
  from recording(9) show ?thesis
  proof
    assume ck: "cdc_checkpoint (db ?p) = Some (ch_token c) \<and> ch_token c \<in> set (tokens (db ?p))"
    have "u \<in> set (tokens (db ?p))"
      if u: "u \<in> set (source p)" "k \<le> position u (source p)" "position u (source p) \<le> i" for u
    proof (cases "position u (source p) = i")
      case True
      with u(1) position_nth recording(4) have "u = ch_token c" by metis
      with ck show ?thesis by simp
    next
      case False
      with u t(3) i recording(7) show ?thesis by simp
    qed
    with ck t(2) here i recording(6) show ?thesis by (auto simp: none_skipped_def)
  next
    assume "cdc_checkpoint (db ?p) = cdc_checkpoint (db p) \<and> cursor ?p = None"
    with t recording(6,7) show ?thesis by (auto simp: none_skipped_def)
  qed
qed

text \<open>A property of the pipeline that every step keeps holds along a run.\<close>

lemma pipe_run_induct:
  assumes "pipe_ok p" "P p" "\<And>e p. e \<in> set es \<Longrightarrow> pipe_ok p \<Longrightarrow> P p \<Longrightarrow> P (pipe_step e p)"
  shows "P (pipe_run es p)"
  using assms unfolding pipe_run_def
proof (induction es arbitrary: p)
  case (Cons e es)
  have "pipe_ok (pipe_step e p)" "P (pipe_step e p)" using Cons.prems by (auto intro: pipe_ok_step)
  with Cons show ?case by simp
qed simp

lemma none_skipped_run: "pipe_ok p \<Longrightarrow> none_skipped k p \<Longrightarrow> none_skipped k (pipe_run es p)"
  by (erule pipe_run_induct [where P = "none_skipped k"]) (auto intro: none_skipped_step)

text \<open>A change in front of the checkpoint that never converts, and one that no open stream will reach.\<close>

definition blocked_at :: "string \<Rightarrow> pipeline \<Rightarrow> bool" where
  "blocked_at t p \<longleftrightarrow> t \<in> set (source p) \<and> t \<notin> set (tokens (db p)) \<and>
     (\<exists>s. cdc_checkpoint (db p) = Some s \<and> position s (source p) < position t (source p))"

lemma blocked_at_step:
  assumes "pipe_ok p" "blocked_at t p" "\<And>carrier c. e = Arrived carrier c \<Longrightarrow> ch_token c = t \<Longrightarrow> \<not> converts c"
  shows "blocked_at t (pipe_step e p)"
proof -
  let ?p = "pipe_step e p"
  from assms(2) obtain s where t: "t \<in> set (source p)" "t \<notin> set (tokens (db p))"
    and s: "cdc_checkpoint (db p) = Some s" "position s (source p) < position t (source p)" by (auto simp: blocked_at_def)
  note src = checkpoint_in_source [OF assms(1) s(1)]
  show ?thesis
    using assms(1) refl
  proof (cases rule: pipe_step_cases [of p ?p e])
    case (quiet ts)
    with t s src show ?thesis by (auto simp: blocked_at_def position_append)
  next
    case (recording i carrier c ys)
    from assms(1) have dist: "distinct (source p)" and i: "position s (source p) + 1 = i"
      using recording(2) s(1) by (auto simp: pipe_ok_def order_ok_def)
    have here: "position (ch_token c) (source p) = i" using position_at [OF dist recording(3)] recording(4) by simp
    have ne: "ch_token c \<noteq> t" using assms(3) [OF recording(1)] recording(5) by blast
    then have "i \<noteq> position t (source p)" using position_nth [OF t(1)] recording(4) by metis
    with i s(2) have "i < position t (source p)" by simp
    moreover have "t \<notin> set (tokens (db ?p))" using recording(7,8) t(2) ne by auto
    ultimately show ?thesis using recording(6,9) t(1) s here by (auto simp: blocked_at_def)
  qed
qed

definition passed_by :: "string \<Rightarrow> pipeline \<Rightarrow> bool" where
  "passed_by u p \<longleftrightarrow> u \<in> set (source p) \<and> u \<notin> set (tokens (db p)) \<and>
     (\<forall>i. cursor p = Some i \<longrightarrow> position u (source p) < i) \<and>
     (\<forall>s. cdc_checkpoint (db p) = Some s \<longrightarrow> position u (source p) < position s (source p))"

lemma passed_by_step:
  assumes "pipe_ok p" "passed_by u p"
  shows "passed_by u (pipe_step e p)"
proof -
  let ?p = "pipe_step e p"
  from assms(2) have u: "u \<in> set (source p)" "u \<notin> set (tokens (db p))"
    and c: "\<And>i. cursor p = Some i \<Longrightarrow> position u (source p) < i"
    and k: "\<And>s. cdc_checkpoint (db p) = Some s \<Longrightarrow> position u (source p) < position s (source p)"
    by (auto simp: passed_by_def)
  note less = position_less [OF u(1)]
  show ?thesis
    using assms(1) refl
  proof (cases rule: pipe_step_cases [of p ?p e])
    case (quiet ts)
    have cur: "position u (source p) < i" if "cursor ?p = Some i" for i
      using that quiet(4) c k less by (auto split: option.splits intro: less_SucI)
    have "position u (source p) < position s (source ?p)" if "cdc_checkpoint (db p) = Some s" for s
      using k [OF that] checkpoint_in_source [OF assms(1) that] quiet(3) by (simp add: position_append)
    with quiet(1-3) u cur show ?thesis by (auto simp: passed_by_def position_append)
  next
    case (recording i carrier ch ys)
    from assms(1) have dist: "distinct (source p)" by (simp add: pipe_ok_def order_ok_def)
    have here: "position (ch_token ch) (source p) = i" using position_at [OF dist recording(3)] recording(4) by simp
    with c [OF recording(2)] have ne: "ch_token ch \<noteq> u" by auto
    have "u \<notin> set (tokens (db ?p))" using recording(7,8) u(2) ne by auto
    with recording(6,9,10) u(1) c [OF recording(2)] k here show ?thesis by (auto simp: passed_by_def)
  qed
qed

lemma passed_by_run: "pipe_ok p \<Longrightarrow> passed_by u p \<Longrightarrow> passed_by u (pipe_run es p)"
  by (erule pipe_run_induct [where P = "passed_by u"]) (auto intro: passed_by_step)

text \<open>Without faults a pass acknowledges the next event, if there is one.\<close>

lemma m_read_clean: "m_faults m = [] \<Longrightarrow> m_read q m = (Some (q m), m)"
  by (simp add: m_read_def m_fault_def)

lemma m_write_clean: "m_faults m = [] \<Longrightarrow> m_write c m = (Some (fst (c m)), snd (c m))"
  by (simp add: m_write_def m_fault_def split: prod.split)

lemma claim_next_clean:
  assumes "m_faults m = []" "in_sequence m"
  shows "claim_next m = (Some (if acknowledged m < length (outbox_docs m)
    then Some (parse_claimed_event (outbox_docs m ! acknowledged m)) else None), m)"
proof -
  have "find (\<lambda>d. done_upto m < sd_sequence d) (sort_key sd_sequence (outbox_docs m)) =
      (if acknowledged m < length (outbox_docs m) then Some (outbox_docs m ! acknowledged m) else None)"
    using find_next [OF assms(2), of "done_upto m"] by (simp add: Let_def acknowledged_def)
  with assms(1) show ?thesis by (simp add: claim_next_def m_read_clean done_upto_def Let_def)
qed

definition all_accepted :: "pipeline \<Rightarrow> bool" where
  "all_accepted p \<longleftrightarrow> (\<forall>d \<in> set (outbox_docs (db p)). \<forall>doc \<in> set_option (so_document (sd_event d)). es_accepts p doc)"

definition clean :: "pipeline \<Rightarrow> bool" where
  "clean p \<longleftrightarrow> in_sequence (db p) \<and> docs_ok (db p) \<and> index_ok p \<and> all_accepted p \<and> m_faults (db p) = [] \<and> es_faults p = []"

lemma index_pass_clean:
  assumes "clean p"
  shows "clean (index_pass p) \<and> outbox_docs (db (index_pass p)) = outbox_docs (db p) \<and>
    min (length (outbox_docs (db p))) (acknowledged (db p) + 1) \<le> acknowledged (db (index_pass p))"
proof -
  let ?ds = "outbox_docs (db p)" and ?a = "acknowledged (db p)"
  from assms have sq: "in_sequence (db p)" and docs: "docs_ok (db p)" and ix: "index_ok p" and nf: "m_faults (db p) = []" "es_faults p = []"
    and acc: "all_accepted p" by (simp_all add: clean_def)
  note spec = index_pass_spec [OF sq docs] and c = claim_next_clean [OF nf(1) sq]
  have "m_faults (db (index_pass p)) = [] \<and> es_faults (index_pass p) = [] \<and> es_accepts (index_pass p) = es_accepts p \<and>
    min (length ?ds) (?a + 1) \<le> acknowledged (db (index_pass p))"
  proof (cases "?a < length ?ds")
    case False
    with c nf show ?thesis by (simp add: index_pass_def)
  next
    case True
    let ?ev = "parse_claimed_event (?ds ! ?a)"
    have d: "?ds ! ?a \<in> set ?ds" using True by simp
    obtain f where ap: "apply_event ?ev p = (True, p\<lparr>index := f\<rparr>)"
      using d docs acc nf(2) by (fastforce simp: apply_event_def es_request_def parse_claimed_event_def docs_ok_def all_accepted_def)
    have seq: "ce_sequence ?ev = sd_sequence (?ds ! ?a)" by (simp add: parse_claimed_event_def)
    have "index_pass p = p\<lparr>index := f, failures := 0, db := (db p)\<lparr>es_checkpoint := Some (sd_sequence (?ds ! ?a))\<rparr>\<rparr>"
      using c True ap nf(1) seq by (simp add: index_pass_def mark_indexed_def m_write_clean)
    with sd_step [OF sq True acknowledged_def] nf show ?thesis by (simp add: acknowledged_def done_upto_def)
  qed
  with spec sq docs ix acc show ?thesis by (simp add: clean_def docs_ok_def all_accepted_def)
qed

lemma index_passes_clean:
  assumes "clean p"
  shows "clean ((index_pass ^^ n) p) \<and> outbox_docs (db ((index_pass ^^ n) p)) = outbox_docs (db p) \<and>
    min (length (outbox_docs (db p))) n \<le> acknowledged (db ((index_pass ^^ n) p))"
proof (induction n)
  case (Suc n)
  with index_pass_clean [of "(index_pass ^^ n) p"] show ?case by (simp add: min_def split: if_splits)
qed (use assms in simp)

lemma clean_catches_up:
  assumes "clean p" "length (outbox_docs (db p)) \<le> n"
  shows "index ((index_pass ^^ n) p) = replay (outbox_docs (db p))"
  using index_passes_clean [OF assms(1), of n] assms(2) by (auto simp: clean_def index_ok_def)

text \<open>Concrete changes and runs.\<close>

definition made :: "string \<Rightarrow> string \<Rightarrow> change" where
  "made t title = \<lparr>ch_token = t, ch_operation = ''insert'', ch_show_id = Some ''show'',
     ch_document = Some [(''title'', BString title), (''city'', BString ''Pune'')]\<rparr>"

definition one_recorded :: "pipe_event list" where
  "one_recorded = [Connected, Changed ''a'', Arrived JNull (made ''a'' ''Hamlet'')]"

lemmas pipe_eval = pipe_run_def one_recorded_def made_def new_pipeline_def connect_def ensure_collections_def m_read_def m_write_def
  m_fault_def load_mongo_checkpoint_def deliver_def handle_change_def change_to_outbox_event_def delete_event_def string_field_def
  record_mongo_outbox_event_def next_sequence_def insert_doc_def advance_checkpoint_def position_def tokens_def converts_def

section \<open>Properties\<close>

text \<open>
  C10 (search index). Along every run of the two workers, the change-data-capture worker being the only producer of the
  outbox, with any faults, the search index is the result of applying
  the first \<open>n\<close> events of the outbox in order, where \<open>n\<close> is the number of acknowledged events or one more; the
  events are numbered in increasing order and stand in the order in which the changes were made.
\<close>

theorem search_index_replays_outbox:
  "\<exists>n. let p = pipe_run es (new_pipeline acc fs gs) in
     acknowledged (db p) \<le> n \<and> n \<le> acknowledged (db p) + 1 \<and> index p = replay (take n (outbox_docs (db p))) \<and>
     sorted_wrt (<) (map sd_sequence (outbox_docs (db p))) \<and>
     sorted_wrt (<) (map (\<lambda>d. position (so_token (sd_event d)) (source p)) (outbox_docs (db p)))"
proof -
  let ?p = "pipe_run es (new_pipeline acc fs gs)"
  have "pipe_ok ?p" by (intro pipe_ok_run pipe_ok_new)
  then have "index_ok ?p" "numbers_ok (db ?p)" "order_ok ?p" by (simp_all only: pipe_ok_def)
  then show ?thesis
    unfolding index_ok_def numbers_ok_def order_ok_def tokens_def map_map comp_def Let_def by blast
qed

text \<open>
  C11 (nothing skipped). Once the worker has a checkpoint, and as long as nobody else writes to its outbox, no later run skips a change: whatever fails in between, the
  checkpoint only moves forward and every change between the old and the new one is in the outbox.
\<close>

theorem no_change_is_skipped:
  assumes "cdc_checkpoint (db (pipe_run es (new_pipeline acc fs gs))) = Some t"
    and "p = pipe_run later (pipe_run es (new_pipeline acc fs gs))"
  shows "\<exists>t'. cdc_checkpoint (db p) = Some t' \<and> position t (source (pipe_run es (new_pipeline acc fs gs))) \<le> position t' (source p) \<and>
    (\<forall>i. position t (source (pipe_run es (new_pipeline acc fs gs))) \<le> i \<and> i \<le> position t' (source p) \<longrightarrow>
       source p ! i \<in> set (tokens (db p)))"
proof -
  let ?p = "pipe_run es (new_pipeline acc fs gs)" and ?k = "position t (source (pipe_run es (new_pipeline acc fs gs)))"
  have ok: "pipe_ok ?p" by (intro pipe_ok_run pipe_ok_new)
  then have t: "t \<in> set (tokens (db ?p))" "set (tokens (db ?p)) \<subseteq> set (source ?p)"
    using assms(1) by (auto simp: pipe_ok_def order_ok_def)
  have "u = t" if "u \<in> set (source ?p)" "?k \<le> position u (source ?p)" "position u (source ?p) \<le> ?k" for u
    using that t position_nth [of u "source ?p"] position_nth [of t "source ?p"] by (metis le_antisym subsetD)
  with t(1) have "\<forall>u \<in> set (source ?p). ?k \<le> position u (source ?p) \<and> position u (source ?p) \<le> ?k \<longrightarrow>
      u \<in> set (tokens (db ?p))" by blast
  with assms(1) have "none_skipped ?k ?p" unfolding none_skipped_def by blast
  then have n: "none_skipped ?k p" unfolding assms(2) by (rule none_skipped_run [OF ok])
  have okp: "pipe_ok p" unfolding assms(2) by (intro pipe_ok_run ok)
  from n obtain t' where t': "cdc_checkpoint (db p) = Some t'" "?k \<le> position t' (source p)"
    "\<forall>u \<in> set (source p). ?k \<le> position u (source p) \<and> position u (source p) \<le> position t' (source p) \<longrightarrow> u \<in> set (tokens (db p))"
    by (auto simp: none_skipped_def)
  have dist: "distinct (source p)" using okp by (simp add: pipe_ok_def order_ok_def)
  have "i < length (source p)" if "i \<le> position t' (source p)" for i
    using that position_less [OF checkpoint_in_source [OF okp t'(1)]] by simp
  with t'(3) have "source p ! i \<in> set (tokens (db p))" if "?k \<le> i" "i \<le> position t' (source p)" for i
    using that position_at [OF dist, of i] by simp
  with t'(1,2) show ?thesis by blast
qed

theorem no_change_is_skipped_witness:
  "\<exists>t'. cdc_checkpoint (db (pipe_run [Broken, Changed ''b'', Connected, Arrived JNull (made ''b'' ''Macbeth'')]
       (pipe_run one_recorded (new_pipeline (\<lambda>_. True) [] [])))) = Some t' \<and>
     position ''a'' (source (pipe_run one_recorded (new_pipeline (\<lambda>_. True) [] []))) \<le>
       position t' (source (pipe_run [Broken, Changed ''b'', Connected, Arrived JNull (made ''b'' ''Macbeth'')]
         (pipe_run one_recorded (new_pipeline (\<lambda>_. True) [] []))))"
proof -
  have "cdc_checkpoint (db (pipe_run one_recorded (new_pipeline (\<lambda>_. True) [] []))) = Some ''a''" by (simp add: pipe_eval Let_def)
  from no_change_is_skipped [OF this refl, of "[Broken, Changed ''b'', Connected, Arrived JNull (made ''b'' ''Macbeth'')]"]
  show ?thesis by blast
qed

text \<open>
  (poison change). A change that never converts, a published show without a title say, holds up the worker for
  ever: each delivery breaks the stream without moving the checkpoint, and no change at or after it is recorded
  by any run.
\<close>

theorem unconvertible_change_blocks:
  assumes "p = pipe_run es (new_pipeline acc fs gs)" "cdc_checkpoint (db p) = Some s"
    and "t \<in> set (source p)" "t \<notin> set (tokens (db p))" "position s (source p) < position t (source p)"
    and "\<And>carrier c. Arrived carrier c \<in> set later \<Longrightarrow> ch_token c = t \<Longrightarrow> \<not> converts c"
    and "u \<in> set (tokens (db (pipe_run later p)))"
  shows "position u (source (pipe_run later p)) < position t (source (pipe_run later p))"
proof -
  let ?p = "pipe_run later p"
  have ok: "pipe_ok p" unfolding assms(1) by (intro pipe_ok_run pipe_ok_new)
  have "blocked_at t p" using assms(2-5) by (auto simp: blocked_at_def)
  then have "blocked_at t ?p"
    by (rule pipe_run_induct [where P = "blocked_at t", OF ok]) (rule blocked_at_step, assumption+, use assms(6) in blast)
  then obtain s' where b: "t \<in> set (source ?p)" "t \<notin> set (tokens (db ?p))" "cdc_checkpoint (db ?p) = Some s'"
    "position s' (source ?p) < position t (source ?p)" by (auto simp: blocked_at_def)
  have "pipe_ok ?p" by (rule pipe_ok_run [OF ok])
  with b(3) assms(7) have u: "u \<in> set (source ?p)" "position u (source ?p) \<le> position s' (source ?p) + 1"
    by (auto simp: pipe_ok_def order_ok_def)
  have "position u (source ?p) \<noteq> position t (source ?p)"
    using position_nth [OF u(1)] position_nth [OF b(1)] assms(7) b(2) by metis
  with u(2) b(4) show ?thesis by linarith
qed

theorem unconvertible_change_blocks_witness:
  "position ''a'' (source (pipe_run [Connected, Arrived JNull (made ''b'' []), Connected]
      (pipe_run (one_recorded @ [Changed ''b'']) (new_pipeline (\<lambda>_. True) [] [])))) <
   position ''b'' (source (pipe_run [Connected, Arrived JNull (made ''b'' []), Connected]
      (pipe_run (one_recorded @ [Changed ''b'']) (new_pipeline (\<lambda>_. True) [] []))))"
  by (rule unconvertible_change_blocks [OF refl, of "one_recorded @ [Changed ''b'']" "\<lambda>_. True" "[]" "[]" "''a''"])
    (auto simp: pipe_eval Let_def)

text \<open>
  (lost before the first checkpoint). As long as no change has been recorded the worker resumes from now: a change
  whose recording failed, or that was made while the worker was disconnected, never reaches the outbox.
\<close>

theorem change_before_checkpoint_is_lost:
  assumes "p = pipe_run es (new_pipeline acc fs gs)" "cdc_checkpoint (db p) = None" "cursor p = None"
    and "u \<in> set (source p)" "u \<notin> set (tokens (db p))"
  shows "u \<notin> set (tokens (db (pipe_run later p)))"
proof -
  have "pipe_ok p" unfolding assms(1) by (intro pipe_ok_run pipe_ok_new)
  moreover have "passed_by u p" using assms(2-5) by (simp add: passed_by_def)
  ultimately show ?thesis using passed_by_run by (auto simp: passed_by_def)
qed

theorem change_before_checkpoint_is_lost_witness:
  "''a'' \<notin> set (tokens (db (pipe_run [Connected, Changed ''b'', Arrived JNull (made ''b'' ''Macbeth'')]
     (pipe_run one_recorded (new_pipeline (\<lambda>_. True) [Delivered, Delivered, Delivered, Delivered, Refused] [])))))"
  by (rule change_before_checkpoint_is_lost [OF refl, of one_recorded]) (simp_all add: pipe_eval Let_def)

text \<open>
  (the index catches up). Once the network recovers, and if Elasticsearch takes the documents, as many passes of the indexer as the outbox has events bring
  the search index to the replay of the whole outbox, from whatever state a run with faults has left.
\<close>

theorem indexer_catches_up:
  assumes "p = pipe_run es (new_pipeline acc fs gs)" "m_faults (db p) = []" "es_faults p = []" "all_accepted p"
    and "length (outbox_docs (db p)) \<le> n"
  shows "index ((index_pass ^^ n) p) = replay (outbox_docs (db p))"
proof -
  have "pipe_ok p" unfolding assms(1) by (intro pipe_ok_run pipe_ok_new)
  then have "clean p" using assms(2-4) numbers_in_sequence by (simp add: clean_def pipe_ok_def)
  then show ?thesis using assms(5) by (rule clean_catches_up)
qed

theorem indexer_catches_up_witness:
  "index ((index_pass ^^ 1) (pipe_run one_recorded (new_pipeline (\<lambda>_. True) [] []))) =
     replay (outbox_docs (db (pipe_run one_recorded (new_pipeline (\<lambda>_. True) [] []))))"
  by (rule indexer_catches_up [OF refl]) (simp_all add: pipe_eval all_accepted_def Let_def)

end
