(* ===== verification/Shows_Admin.thy ===== *)
theory Shows_Admin
  imports Search_Pipeline Schedules_Admin "HOL-Library.Option_ord"
begin

text \<open>
  The administration of shows (\<open>apps/http-server/src/api/admin/shows.rs\<close> over the documents of
  \<open>packages/mongo-conn/src/models/show.rs\<close>): creating, replacing and deleting a show in one MongoDB transaction with
  an event of the search outbox, numbered by a counter of its own, and the list, which asks Elasticsearch first.
  The state is the search pipeline of \<open>Search_Pipeline\<close> together with the collection of shows and the cache.
\<close>

section \<open>Documents\<close>

type_synonym f32 = "32 word"

datatype ShowStatus = ComingSoon | NowShowing | Ended | Cancelled

definition show_status_text :: "ShowStatus \<Rightarrow> string" where
  "show_status_text x =
     (case x of ComingSoon \<Rightarrow> ''comingSoon'' | NowShowing \<Rightarrow> ''nowShowing'' | Ended \<Rightarrow> ''ended'' | Cancelled \<Rightarrow> ''cancelled'')"

definition mongo_show_type_text :: "MongoShowType \<Rightarrow> string" where
  "mongo_show_type_text x =
     (case x of MongoMovie \<Rightarrow> ''Movie'' | MongoConcert \<Rightarrow> ''Concert'' | MongoEvent \<Rightarrow> ''Event'' | MongoGameEvent \<Rightarrow> ''GameEvent'')"

record CastMember =
  cm_name :: string
  cm_photo_url :: string
  cm_role :: "string option"
  cm_display_order :: "int option"

record PerformerInfo =
  pf_name :: string
  pf_photo_url :: "string option"
  pf_role :: "string option"
  pf_bio :: "string option"

record TeamInfo =
  tm_name :: string
  tm_logo_url :: "string option"
  tm_city :: "string option"
  tm_captain :: "string option"

record Show =
  sh_id :: "string option"
  sh_show_type :: MongoShowType
  sh_title :: string
  sh_description :: "string option"
  sh_tags :: "string list"
  sh_category_ids :: "string list option"
  sh_poster_url :: "string option"
  sh_backdrop_url :: "string option"
  sh_thumbnail_url :: "string option"
  sh_trailer_url :: "string option"
  sh_teaser_url :: "string option"
  sh_language :: "string option"
  sh_genre :: "string list"
  sh_score :: "f32 option"
  sh_weight :: "int option"
  sh_next_start_time :: "timestamp option"
  sh_status :: ShowStatus
  sh_duration_minutes :: "int option"
  sh_director :: "string option"
  sh_director_photo_url :: "string option"
  sh_cast :: "CastMember list option"
  sh_host :: "string option"
  sh_host_photo_url :: "string option"
  sh_performers :: "PerformerInfo list option"
  sh_sport :: "string option"
  sh_team_a :: "TeamInfo option"
  sh_team_b :: "TeamInfo option"
  sh_venue :: "string option"
  sh_match_round :: "string option"
  sh_city :: "string option"
  sh_created_at :: "timestamp option"
  sh_deleted_at :: "timestamp option"

record CreateShowRequest =
  sr_show_type :: MongoShowType
  sr_title :: string
  sr_description :: "string option"
  sr_tags :: "string list option"
  sr_poster_url :: "string option"
  sr_backdrop_url :: "string option"
  sr_thumbnail_url :: "string option"
  sr_trailer_url :: "string option"
  sr_teaser_url :: "string option"
  sr_language :: "string option"
  sr_genre :: "string list option"
  sr_category_ids :: "string list option"
  sr_score :: "f32 option"
  sr_weight :: "int option"
  sr_status :: "ShowStatus option"
  sr_duration_minutes :: "int option"
  sr_director :: "string option"
  sr_director_photo_url :: "string option"
  sr_cast :: "CastMember list option"
  sr_host :: "string option"
  sr_host_photo_url :: "string option"
  sr_performers :: "PerformerInfo list option"
  sr_sport :: "string option"
  sr_team_a :: "TeamInfo option"
  sr_team_b :: "TeamInfo option"
  sr_venue :: "string option"
  sr_match_round :: "string option"
  sr_city :: "string option"

definition or_default :: "'a option \<Rightarrow> 'a \<Rightarrow> 'a" where
  "or_default x d = (case x of Some y \<Rightarrow> y | None \<Rightarrow> d)"

definition show_of :: "timestamp \<Rightarrow> CreateShowRequest \<Rightarrow> Show" where
  "show_of now r =
     \<lparr>sh_id = None, sh_show_type = sr_show_type r, sh_title = sr_title r, sh_description = sr_description r,
      sh_tags = or_default (sr_tags r) [], sh_category_ids = sr_category_ids r, sh_poster_url = sr_poster_url r,
      sh_backdrop_url = sr_backdrop_url r, sh_thumbnail_url = sr_thumbnail_url r, sh_trailer_url = sr_trailer_url r,
      sh_teaser_url = sr_teaser_url r, sh_language = sr_language r, sh_genre = or_default (sr_genre r) [],
      sh_score = sr_score r, sh_weight = Some (or_default (sr_weight r) 0), sh_next_start_time = None,
      sh_status = or_default (sr_status r) ComingSoon, sh_duration_minutes = sr_duration_minutes r,
      sh_director = sr_director r, sh_director_photo_url = sr_director_photo_url r, sh_cast = sr_cast r,
      sh_host = sr_host r, sh_host_photo_url = sr_host_photo_url r, sh_performers = sr_performers r,
      sh_sport = sr_sport r, sh_team_a = sr_team_a r, sh_team_b = sr_team_b r, sh_venue = sr_venue r,
      sh_match_round = sr_match_round r, sh_city = sr_city r, sh_created_at = Some now, sh_deleted_at = None\<rparr>"

text \<open>The serde form of a show: \<open>_id\<close> and \<open>category_ids\<close> are left out when absent, any other absent field is null.\<close>

definition bson_opt :: "('a \<Rightarrow> bson) \<Rightarrow> 'a option \<Rightarrow> bson" where
  "bson_opt f x = (case x of Some y \<Rightarrow> f y | None \<Rightarrow> BNull)"

abbreviation bson_str :: "string option \<Rightarrow> bson" where
  "bson_str \<equiv> bson_opt BString"

definition bson_time :: "timestamp option \<Rightarrow> bson" where
  "bson_time = bson_opt (\<lambda>t. BDateTime (t div 1000))"

definition cast_document :: "CastMember \<Rightarrow> bson" where
  "cast_document c = BDocument [(''name'', BString (cm_name c)), (''photo_url'', BString (cm_photo_url c)),
     (''role'', bson_str (cm_role c)), (''display_order'', bson_opt BInt (cm_display_order c))]"

definition performer_document :: "PerformerInfo \<Rightarrow> bson" where
  "performer_document p = BDocument [(''name'', BString (pf_name p)), (''photo_url'', bson_str (pf_photo_url p)),
     (''role'', bson_str (pf_role p)), (''bio'', bson_str (pf_bio p))]"

definition team_document :: "TeamInfo \<Rightarrow> bson" where
  "team_document t = BDocument [(''name'', BString (tm_name t)), (''logo_url'', bson_str (tm_logo_url t)),
     (''city'', bson_str (tm_city t)), (''captain'', bson_str (tm_captain t))]"

definition show_document :: "Show \<Rightarrow> document" where
  "show_document s =
     (case sh_id s of Some x \<Rightarrow> [(''_id'', BObjectId x)] | None \<Rightarrow> []) @
     [(''show_type'', BString (mongo_show_type_text (sh_show_type s))), (''title'', BString (sh_title s)),
      (''description'', bson_str (sh_description s)), (''tags'', BArray (map BString (sh_tags s)))] @
     (case sh_category_ids s of Some xs \<Rightarrow> [(''category_ids'', BArray (map BString xs))] | None \<Rightarrow> []) @
     [(''poster_url'', bson_str (sh_poster_url s)), (''backdrop_url'', bson_str (sh_backdrop_url s)),
      (''thumbnail_url'', bson_str (sh_thumbnail_url s)), (''trailer_url'', bson_str (sh_trailer_url s)),
      (''teaser_url'', bson_str (sh_teaser_url s)), (''language'', bson_str (sh_language s)),
      (''genre'', BArray (map BString (sh_genre s))), (''score'', bson_opt BDouble (sh_score s)),
      (''weight'', bson_opt BInt (sh_weight s)), (''next_start_time'', bson_time (sh_next_start_time s)),
      (''status'', BString (show_status_text (sh_status s))),
      (''duration_minutes'', bson_opt BInt (sh_duration_minutes s)), (''director'', bson_str (sh_director s)),
      (''director_photo_url'', bson_str (sh_director_photo_url s)),
      (''cast'', bson_opt (\<lambda>xs. BArray (map cast_document xs)) (sh_cast s)), (''host'', bson_str (sh_host s)),
      (''host_photo_url'', bson_str (sh_host_photo_url s)),
      (''performers'', bson_opt (\<lambda>xs. BArray (map performer_document xs)) (sh_performers s)),
      (''sport'', bson_str (sh_sport s)), (''team_a'', bson_opt team_document (sh_team_a s)),
      (''team_b'', bson_opt team_document (sh_team_b s)), (''venue'', bson_str (sh_venue s)),
      (''match_round'', bson_str (sh_match_round s)), (''city'', bson_str (sh_city s)),
      (''created_at'', bson_time (sh_created_at s)), (''deleted_at'', bson_time (sh_deleted_at s))]"

section \<open>State\<close>

text \<open>
  Of other crates: object ids (parsed, in hexadecimal form), the JSON value of a document, and the
  case-insensitive regular expression match of MongoDB.
\<close>

record show_crates =
  oid_of :: "string \<Rightarrow> string option"
  json_of :: "document \<Rightarrow> json"
  regex_match :: "string \<Rightarrow> string \<Rightarrow> bool"

record 'r show_server =
  ps_pipe :: pipeline
  ps_shows :: "Show list"
  ps_lsn :: "int option"
  ps_cache :: "('r, json) world"

definition on_mongo :: "(mongo \<Rightarrow> 'a \<times> mongo) \<Rightarrow> 'r show_server \<Rightarrow> 'a \<times> 'r show_server" where
  "on_mongo f st = (case f (db (ps_pipe st)) of (x, m) \<Rightarrow> (x, st\<lparr>ps_pipe := (ps_pipe st)\<lparr>db := m\<rparr>\<rparr>))"

definition find_show :: "string \<Rightarrow> Show list \<Rightarrow> Show option" where
  "find_show x shows = find (\<lambda>s. sh_id s = Some x) shows"

section \<open>One transaction\<close>

text \<open>
  What the three handlers write: the collection, the counter \<open>search_outbox_lsn\<close>, and the event under that
  number. The outbox document gets an object id of its own as \<open>_id\<close>. An error on the way drops the session,
  which aborts the transaction; a commit whose reply is lost is an error although the work is done.
\<close>

definition search_event :: "string \<Rightarrow> string \<Rightarrow> string \<Rightarrow> json option \<Rightarrow> SearchOutboxEvent" where
  "search_event oid show_id operation doc =
     \<lparr>so_token = oid, so_show_id = show_id, so_operation = operation, so_title = None, so_city = None,
      so_thumbnail_url = None, so_venue = None, so_document = doc, so_trace = JNull\<rparr>"

definition next_lsn :: "int option \<Rightarrow> int" where
  "next_lsn lsn = (case lsn of Some v \<Rightarrow> v | None \<Rightarrow> 0) + 1"

text \<open>The change stream gets the change of the collection, if it is one, under the token \<open>t\<close>.\<close>

definition show_tx ::
    "(Show list \<Rightarrow> Show list) \<Rightarrow> SearchOutboxEvent \<Rightarrow> string \<Rightarrow> 'r show_server \<Rightarrow> bool \<times> 'r show_server" where
  "show_tx write ev t st =
     (case on_mongo (m_read (\<lambda>_. ())) st of
        (None, st1) \<Rightarrow> (False, st1)
      | (Some _, st1) \<Rightarrow>
          (case on_mongo (m_read (\<lambda>_. ())) st1 of
             (None, st2) \<Rightarrow> (False, st2)
           | (Some _, st2) \<Rightarrow>
               (case on_mongo (m_read (\<lambda>_. ())) st2 of
                  (None, st3) \<Rightarrow> (False, st3)
                | (Some _, st3) \<Rightarrow>
                    (case on_mongo (m_read (insert_doc \<lparr>sd_event = ev, sd_sequence = next_lsn (ps_lsn st)\<rparr>)) st3 of
                       (None, st4) \<Rightarrow> (False, st4)
                     | (Some (False, _), st4) \<Rightarrow> (False, st4)
                     | (Some (True, inserted), st4) \<Rightarrow>
                         (case on_mongo m_fault st4 of (f, st5) \<Rightarrow>
                            if f = Refused then (False, st5)
                            else (f = Delivered,
                                  st5\<lparr>ps_shows := write (ps_shows st5), ps_lsn := Some (next_lsn (ps_lsn st)),
                                      ps_pipe := (ps_pipe st5)\<lparr>
                                        source := (if write (ps_shows st5) = ps_shows st5 then source (ps_pipe st5)
                                                   else source (ps_pipe st5) @ [t]),
                                        db := (db (ps_pipe st5))\<lparr>outbox_docs := outbox_docs inserted\<rparr>\<rparr>\<rparr>))))))"

section \<open>Handlers\<close>

definition drop_show_keys :: "'r redis \<Rightarrow> string list \<Rightarrow> 'r show_server \<Rightarrow> 'r show_server" where
  "drop_show_keys R ks st = st\<lparr>ps_cache := fold (invalidate_async 3 R) ks (ps_cache st)\<rparr>"

text \<open>\<open>new_id\<close> and \<open>oid\<close> are the object ids the driver draws, \<open>t\<close> the token of the change.\<close>

definition create_show ::
    "show_crates \<Rightarrow> 'r redis \<Rightarrow> timestamp \<Rightarrow> string \<Rightarrow> string \<Rightarrow> string \<Rightarrow> CreateShowRequest \<Rightarrow> 'r show_server \<Rightarrow>
     (AppError + string) \<times> 'r show_server" where
  "create_show S R now new_id oid t body st =
     (if trim (sr_title body) = [] then (Inl (BadRequest ''title is required''), st)
      else
        (let show = show_of now body
         in case show_tx (\<lambda>shows. shows @ [show\<lparr>sh_id := Some new_id\<rparr>])
                   (search_event oid new_id ''upsert'' (Some (json_of S (show_document show)))) t st of
              (False, st1) \<Rightarrow> (Inl Internal, st1)
            | (True, st1) \<Rightarrow> (Inr new_id, drop_show_keys R [CACHE_SHOWS, CACHE_DASHBOARD_GRID] st1)))"

definition show_keys :: "string \<Rightarrow> string list" where
  "show_keys i = [cache_show_key i, cache_schedules_active_key, CACHE_SHOWS, CACHE_DASHBOARD_GRID]"

definition update_show ::
    "show_crates \<Rightarrow> 'r redis \<Rightarrow> timestamp \<Rightarrow> string \<Rightarrow> string \<Rightarrow> string \<Rightarrow> CreateShowRequest \<Rightarrow> 'r show_server \<Rightarrow>
     (AppError + unit) \<times> 'r show_server" where
  "update_show S R now i oid t body st =
     (case oid_of S i of
        None \<Rightarrow> (Inl (BadRequest ''Invalid show id''), st)
      | Some x \<Rightarrow>
          (case on_mongo (m_read (\<lambda>_. find_show x (ps_shows st))) st of
             (None, st1) \<Rightarrow> (Inl Internal, st1)
           | (Some None, st1) \<Rightarrow> (Inl (NotFound ''Show not found''), st1)
           | (Some (Some existing), st1) \<Rightarrow>
               (let show = (show_of now body)\<lparr>sh_id := Some x, sh_created_at := sh_created_at existing\<rparr>
                in case show_tx (update_rows (\<lambda>s. sh_id s = Some x) (\<lambda>_. show))
                          (search_event oid x ''upsert'' (Some (json_of S (show_document show)))) t st1 of
                     (False, st2) \<Rightarrow> (Inl Internal, st2)
                   | (True, st2) \<Rightarrow> (Inr (), drop_show_keys R (show_keys i) st2))))"

text \<open>No look-up precedes a deletion: an id without a show is acknowledged, with its event.\<close>

definition delete_show ::
    "show_crates \<Rightarrow> 'r redis \<Rightarrow> timestamp \<Rightarrow> string \<Rightarrow> string \<Rightarrow> string \<Rightarrow> 'r show_server \<Rightarrow>
     (AppError + unit) \<times> 'r show_server" where
  "delete_show S R now i oid t st =
     (case oid_of S i of
        None \<Rightarrow> (Inl (BadRequest ''Invalid show id''), st)
      | Some x \<Rightarrow>
          (case show_tx (update_rows (\<lambda>s. sh_id s = Some x) (\<lambda>s. s\<lparr>sh_deleted_at := Some now\<rparr>))
                  (search_event oid x ''delete'' None) t st of
             (False, st1) \<Rightarrow> (Inl Internal, st1)
           | (True, st1) \<Rightarrow> (Inr (), drop_show_keys R (show_keys i) st1)))"

definition get_show :: "show_crates \<Rightarrow> string \<Rightarrow> 'r show_server \<Rightarrow> (AppError + string \<times> Show) \<times> 'r show_server" where
  "get_show S i st =
     (case oid_of S i of
        None \<Rightarrow> (Inl (BadRequest ''Invalid show id''), st)
      | Some x \<Rightarrow>
          (case on_mongo (m_read (\<lambda>_. find_show x (ps_shows st))) st of
             (None, st1) \<Rightarrow> (Inl Internal, st1)
           | (Some None, st1) \<Rightarrow> (Inl (NotFound ''Show not found''), st1)
           | (Some (Some show), st1) \<Rightarrow> (Inr (i, show), st1)))"

section \<open>The list\<close>

text \<open>
  \<open>es_post\<close> is the request to Elasticsearch with the timeouts of its client: \<open>None\<close> when it fails, has an error
  status or a body that is no JSON.
\<close>

definition search_body :: "string \<Rightarrow> string option \<Rightarrow> int \<Rightarrow> int \<Rightarrow> json" where
  "search_body search show_type offset limit =
     JObj [(''from'', JInt offset), (''size'', JInt limit), (''_source'', JBool False),
       (''query'', JObj [(''bool'', JObj
         [(''must'', JArr [JObj [(''multi_match'', JObj
             [(''query'', JStr search),
              (''fields'', JArr (map JStr [''title^3'', ''tags^2'', ''venue'', ''description'', ''category_ids''])),
              (''fuzziness'', JStr ''AUTO'')])]]),
          (''filter'', JArr (case show_type of
              Some x \<Rightarrow> if trim x = [] then [] else [JObj [(''term'', JObj [(''show_type'', JStr x)])]]
            | None \<Rightarrow> [])),
          (''must_not'', JArr [JObj [(''exists'', JObj [(''field'', JStr ''deleted_at'')])]])])])]"

definition hit_ids :: "json \<Rightarrow> string list option" where
  "hit_ids payload =
     (case jget (jget payload ''hits'') ''hits'' of
        JArr hits \<Rightarrow> Some (List.map_filter (\<lambda>hit. case jget hit ''_id'' of JStr x \<Rightarrow> Some x | _ \<Rightarrow> None) hits)
      | _ \<Rightarrow> None)"

definition elasticsearch_show_ids ::
    "env \<Rightarrow> (string \<Rightarrow> json \<Rightarrow> json option) \<Rightarrow> string \<Rightarrow> string option \<Rightarrow> int \<Rightarrow> int \<Rightarrow> string list option" where
  "elasticsearch_show_ids env es_post search show_type offset limit =
     (case env ''ELASTICSEARCH_URL'' of
        None \<Rightarrow> None
      | Some url \<Rightarrow>
          (let base_url = rev (dropWhile (\<lambda>c. c = CHR ''/'') (rev url))
           in if base_url = [] then None
              else Option.bind (es_post (base_url @ ''/shows/_search'') (search_body search show_type offset limit)) hit_ids))"

text \<open>The query of MongoDB: a limit of zero is no limit.\<close>

definition mongo_find :: "(Show \<Rightarrow> bool) \<Rightarrow> int \<Rightarrow> int \<Rightarrow> Show list \<Rightarrow> Show list" where
  "mongo_find P skip limit shows =
     (let xs = drop (nat skip) (rev (sort_key (\<lambda>s. case sh_created_at s of Some c \<Rightarrow> Some (c div 1000) | None \<Rightarrow> None) (rev (filter P shows))))
      in if limit = 0 then xs else take (nat limit) xs)"

definition selected :: "show_crates \<Rightarrow> string option \<Rightarrow> string option \<Rightarrow> string list option \<Rightarrow> Show \<Rightarrow> bool" where
  "selected S show_type search elastic_ids s \<longleftrightarrow>
     sh_deleted_at s = None \<and> (\<forall>x \<in> set_option show_type. mongo_show_type_text (sh_show_type s) = x) \<and>
     (case elastic_ids of
        Some ids \<Rightarrow> (case sh_id s of Some x \<Rightarrow> x \<in> set (List.map_filter (oid_of S) ids) | None \<Rightarrow> False)
      | None \<Rightarrow> (case search of
            Some r \<Rightarrow> regex_match S r (sh_title s) \<or> (\<exists>x \<in> set (sh_tags s). regex_match S r x)
          | None \<Rightarrow> True))"

definition rank_of :: "string list \<Rightarrow> Show \<Rightarrow> nat" where
  "rank_of ids s =
     (case sh_id s of
        None \<Rightarrow> length ids
      | Some x \<Rightarrow> (case map_of (rev (zip ids [0..<length ids])) x of Some n \<Rightarrow> n | None \<Rightarrow> length ids))"

record ListShowsQuery =
  lq_show_type :: "string option"
  lq_search :: "string option"
  lq_page :: "int option"
  lq_limit :: "int option"

definition list_shows ::
    "show_crates \<Rightarrow> env \<Rightarrow> (string \<Rightarrow> json \<Rightarrow> json option) \<Rightarrow> ListShowsQuery \<Rightarrow> 'r show_server \<Rightarrow>
     (AppError + Show list) \<times> 'r show_server" where
  "list_shows S env es_post q st =
     (let limit = min (or_default (lq_limit q) 50) 200;
          page = or_default (lq_page q) 0;
          offset = as_u64 (page * limit);
          search = (case lq_search q of Some x \<Rightarrow> (if trim x = [] then None else Some (trim x)) | None \<Rightarrow> None);
          elastic_ids = Option.bind search (\<lambda>x. elasticsearch_show_ids env es_post x (lq_show_type q) offset limit);
          skip = (if elastic_ids = None then offset else 0)
      in case on_mongo (m_read (\<lambda>_. mongo_find (selected S (lq_show_type q) search elastic_ids) skip limit (ps_shows st))) st of
           (None, st1) \<Rightarrow> (Inl Internal, st1)
         | (Some results, st1) \<Rightarrow>
             (Inr (case elastic_ids of None \<Rightarrow> results | Some ids \<Rightarrow> sort_key (rank_of ids) results), st1))"

section \<open>Runs\<close>

text \<open>
  The requests of the administration among the events of the search pipeline. The driver draws object ids that are
  not in use, and a change enters the change stream under a new token.
\<close>

datatype show_op =
    CreateShow timestamp string string string CreateShowRequest
  | UpdateShow timestamp string string string CreateShowRequest
  | DeleteShow timestamp string string string

fun show_do :: "show_crates \<Rightarrow> 'r redis \<Rightarrow> show_op \<Rightarrow> 'r show_server \<Rightarrow> (AppError + unit) \<times> 'r show_server" where
  "show_do S R (CreateShow now new_id oid t body) st =
     (case create_show S R now new_id oid t body st of (Inl e, st1) \<Rightarrow> (Inl e, st1) | (Inr _, st1) \<Rightarrow> (Inr (), st1))"
| "show_do S R (UpdateShow now i oid t body) st = update_show S R now i oid t body st"
| "show_do S R (DeleteShow now i oid t) st = delete_show S R now i oid t st"

definition op_possible :: "show_op \<Rightarrow> 'r show_server \<Rightarrow> bool" where
  "op_possible op st =
     (case op of
        CreateShow now new_id oid t body \<Rightarrow> Some new_id \<notin> sh_id ` set (ps_shows st) \<and> t \<notin> set (source (ps_pipe st))
      | UpdateShow now i oid t body \<Rightarrow> t \<notin> set (source (ps_pipe st))
      | DeleteShow now i oid t \<Rightarrow> t \<notin> set (source (ps_pipe st)))"

datatype site_event = ShowRequest show_op | Pipe pipe_event

fun site_step :: "show_crates \<Rightarrow> 'r redis \<Rightarrow> site_event \<Rightarrow> 'r show_server \<Rightarrow> 'r show_server" where
  "site_step S R (ShowRequest op) st = (if op_possible op st then snd (show_do S R op st) else st)"
| "site_step S R (Pipe e) st = st\<lparr>ps_pipe := pipe_step e (ps_pipe st)\<rparr>"

definition site_run :: "show_crates \<Rightarrow> 'r redis \<Rightarrow> site_event list \<Rightarrow> 'r show_server \<Rightarrow> 'r show_server" where
  "site_run S R es st = fold (site_step S R) es st"

definition new_site :: "(json \<Rightarrow> bool) \<Rightarrow> fault list \<Rightarrow> fault list \<Rightarrow> ('r, json) world \<Rightarrow> 'r show_server" where
  "new_site acc fs gs w = \<lparr>ps_pipe = new_pipeline acc fs gs, ps_shows = [], ps_lsn = None, ps_cache = w\<rparr>"

end
