(* ===== verification/Shows_Props.thy ===== *)
theory Shows_Props
  imports Shows_Admin Search_Props
begin

text \<open>
  Properties of the show administration: a write of a show is one transaction with its event; as long as it is the only
  producer of the outbox, the search index shows exactly the live shows once it has caught up; with the
  change-data-capture worker beside it, the two counters of the outbox collide.
\<close>

section \<open>The transaction\<close>

abbreviation docs_of :: "'r show_server \<Rightarrow> SearchDoc list" where
  "docs_of st \<equiv> outbox_docs (db (ps_pipe st))"

text \<open>\<open>calm\<close>: nothing but the faults ahead has changed.\<close>

definition calm :: "'r show_server \<Rightarrow> 'r show_server \<Rightarrow> bool" where
  "calm st st' \<longleftrightarrow> (\<exists>m. m_same (db (ps_pipe st)) m \<and> st' = st\<lparr>ps_pipe := (ps_pipe st)\<lparr>db := m\<rparr>\<rparr>)"

lemma calm_refl [simp]: "calm st st"
  unfolding calm_def by (intro exI [of _ "db (ps_pipe st)"]) simp

lemma calm_trans: "calm st st1 \<Longrightarrow> calm st1 st2 \<Longrightarrow> calm st st2"
  unfolding calm_def by (elim exE conjE, rule_tac x = ma in exI) (simp add: m_same_trans)

lemma calm_on_mongo_fault: "on_mongo m_fault st = (f, st') \<Longrightarrow> calm st st'"
  by (auto simp: on_mongo_def calm_def dest: m_fault_same split: prod.splits)

lemma calm_on_mongo:
  assumes "on_mongo (m_read q) st = (x, st')"
  shows "calm st st' \<and> (x = None \<or> x = Some (q (db (ps_pipe st'))))"
proof -
  obtain y m where r: "m_read q (db (ps_pipe st)) = (y, m)" by (cases "m_read q (db (ps_pipe st))")
  with assms have "x = y" "st' = st\<lparr>ps_pipe := (ps_pipe st)\<lparr>db := m\<rparr>\<rparr>" by (simp_all add: on_mongo_def)
  with m_readD [OF r] show ?thesis by (auto simp: calm_def)
qed

lemma calmD:
  assumes "calm st st'"
  shows "ps_shows st' = ps_shows st \<and> ps_lsn st' = ps_lsn st \<and> ps_cache st' = ps_cache st \<and> docs_of st' = docs_of st \<and>
    source (ps_pipe st') = source (ps_pipe st) \<and> cursor (ps_pipe st') = cursor (ps_pipe st) \<and>
    index (ps_pipe st') = index (ps_pipe st) \<and> es_checkpoint (db (ps_pipe st')) = es_checkpoint (db (ps_pipe st)) \<and>
    sequence (db (ps_pipe st')) = sequence (db (ps_pipe st)) \<and>
    cdc_checkpoint (db (ps_pipe st')) = cdc_checkpoint (db (ps_pipe st)) \<and>
    es_accepts (ps_pipe st') = es_accepts (ps_pipe st)"
  using assms m_sameD by (auto simp: calm_def)

text \<open>The state after the commit.\<close>

definition committed ::
    "(Show list \<Rightarrow> Show list) \<Rightarrow> SearchOutboxEvent \<Rightarrow> string \<Rightarrow> 'r show_server \<Rightarrow> 'r show_server \<Rightarrow> bool" where
  "committed write ev t st st' \<longleftrightarrow>
     next_lsn (ps_lsn st) \<notin> sd_sequence ` set (docs_of st) \<and>
     ps_shows st' = write (ps_shows st) \<and> ps_lsn st' = Some (next_lsn (ps_lsn st)) \<and> ps_cache st' = ps_cache st \<and>
     docs_of st' = docs_of st @ [\<lparr>sd_event = ev, sd_sequence = next_lsn (ps_lsn st)\<rparr>] \<and>
     source (ps_pipe st') = (if write (ps_shows st) = ps_shows st then source (ps_pipe st) else source (ps_pipe st) @ [t]) \<and>
     cursor (ps_pipe st') = cursor (ps_pipe st) \<and> index (ps_pipe st') = index (ps_pipe st) \<and>
     es_checkpoint (db (ps_pipe st')) = es_checkpoint (db (ps_pipe st)) \<and>
     sequence (db (ps_pipe st')) = sequence (db (ps_pipe st)) \<and>
     cdc_checkpoint (db (ps_pipe st')) = cdc_checkpoint (db (ps_pipe st)) \<and>
     es_accepts (ps_pipe st') = es_accepts (ps_pipe st)"

lemma show_tx_cases:
  assumes "show_tx write ev t st = (ok, st')"
  obtains (aborted) "\<not> ok" "calm st st'" | (applied) "committed write ev t st st'"
proof -
  let ?ins = "insert_doc \<lparr>sd_event = ev, sd_sequence = next_lsn (ps_lsn st)\<rparr>"
  obtain x1 st1 where e1: "on_mongo (m_read (\<lambda>_. ())) st = (x1, st1)" by (cases "on_mongo (m_read (\<lambda>_. ())) st")
  obtain x2 st2 where e2: "on_mongo (m_read (\<lambda>_. ())) st1 = (x2, st2)" by (cases "on_mongo (m_read (\<lambda>_. ())) st1")
  obtain x3 st3 where e3: "on_mongo (m_read (\<lambda>_. ())) st2 = (x3, st3)" by (cases "on_mongo (m_read (\<lambda>_. ())) st2")
  obtain x4 st4 where e4: "on_mongo (m_read ?ins) st3 = (x4, st4)" by (cases "on_mongo (m_read ?ins) st3")
  obtain f st5 where e5: "on_mongo m_fault st4 = (f, st5)" by (cases "on_mongo m_fault st4")
  note c1 = conjunct1 [OF calm_on_mongo [OF e1]]
  note c2 = calm_trans [OF c1 conjunct1 [OF calm_on_mongo [OF e2]]]
  note c3 = calm_trans [OF c2 conjunct1 [OF calm_on_mongo [OF e3]]]
  note c4 = calm_trans [OF c3 conjunct1 [OF calm_on_mongo [OF e4]]]
  note c5 = calm_trans [OF c4 calm_on_mongo_fault [OF e5]]
  have x4: "x4 = None \<or> x4 = Some (?ins (db (ps_pipe st4)))" using calm_on_mongo [OF e4] by simp
  show thesis
  proof (cases "x1 \<noteq> None \<and> x2 \<noteq> None \<and> x3 \<noteq> None \<and> (\<exists>m. x4 = Some (True, m)) \<and> f \<noteq> Refused")
    case True
    then obtain m where m: "x4 = Some (True, m)" by blast
    with x4 have i: "?ins (db (ps_pipe st4)) = (True, m)" by simp
    then have n: "next_lsn (ps_lsn st) \<notin> sd_sequence ` set (docs_of st)" and
      d: "outbox_docs m = docs_of st @ [\<lparr>sd_event = ev, sd_sequence = next_lsn (ps_lsn st)\<rparr>]"
      using calmD [OF c4] by (auto simp: insert_doc_def split: if_splits)
    from True assms e1 e2 e3 e4 e5 m have "st' = st5\<lparr>ps_shows := write (ps_shows st5), ps_lsn := Some (next_lsn (ps_lsn st)),
        ps_pipe := (ps_pipe st5)\<lparr>source := (if write (ps_shows st5) = ps_shows st5 then source (ps_pipe st5)
          else source (ps_pipe st5) @ [t]), db := (db (ps_pipe st5))\<lparr>outbox_docs := outbox_docs m\<rparr>\<rparr>\<rparr>"
      by (auto simp: show_tx_def)
    then have "committed write ev t st st'" using n d calmD [OF c5] by (simp add: committed_def)
    then show thesis by (rule applied)
  next
    case False
    have "\<not> ok \<and> st' \<in> {st1, st2, st3, st4, st5}"
      using assms e1 e2 e3 e4 e5 False
      by (cases x1; cases x2; cases x3; cases x4) (auto simp: show_tx_def split: prod.splits bool.splits if_splits)
    with c1 c2 c3 c4 c5 show thesis using aborted by blast
  qed
qed

section \<open>One request\<close>

text \<open>Which show a request is about, what it writes, and its event.\<close>

definition show_written :: "show_crates \<Rightarrow> show_op \<Rightarrow> 'r show_server \<Rightarrow> string \<Rightarrow> (Show list \<Rightarrow> Show list) \<Rightarrow> SearchOutboxEvent \<Rightarrow> bool" where
  "show_written S op st x write ev =
     (case op of
        CreateShow now new_id oid t body \<Rightarrow>
          x = new_id \<and> write = (\<lambda>shows. shows @ [(show_of now body)\<lparr>sh_id := Some x\<rparr>]) \<and>
          ev = search_event oid x ''upsert'' (Some (json_of S (show_document (show_of now body))))
      | UpdateShow now i oid t body \<Rightarrow>
          oid_of S i = Some x \<and>
          (\<exists>old. find_show x (ps_shows st) = Some old \<and>
             (let show = (show_of now body)\<lparr>sh_id := Some x, sh_created_at := sh_created_at old\<rparr>
              in write = update_rows (\<lambda>s. sh_id s = Some x) (\<lambda>_. show) \<and>
                 ev = search_event oid x ''upsert'' (Some (json_of S (show_document show)))))
      | DeleteShow now i oid t \<Rightarrow>
          oid_of S i = Some x \<and> write = update_rows (\<lambda>s. sh_id s = Some x) (\<lambda>s. s\<lparr>sh_deleted_at := Some now\<rparr>) \<and>
          ev = search_event oid x ''delete'' None)"

definition change_token :: "show_op \<Rightarrow> string" where
  "change_token op = (case op of CreateShow _ _ _ t _ \<Rightarrow> t | UpdateShow _ _ _ t _ \<Rightarrow> t | DeleteShow _ _ _ t \<Rightarrow> t)"

lemma drop_keys_sel [simp]:
  "ps_pipe (drop_show_keys R ks st) = ps_pipe st" "ps_shows (drop_show_keys R ks st) = ps_shows st" "ps_lsn (drop_show_keys R ks st) = ps_lsn st"
  by (simp_all add: drop_show_keys_def)

text \<open>A commit up to the cache, which the handler clears afterwards.\<close>

definition request_committed ::
    "(Show list \<Rightarrow> Show list) \<Rightarrow> SearchOutboxEvent \<Rightarrow> string \<Rightarrow> 'r show_server \<Rightarrow> 'r show_server \<Rightarrow> bool" where
  "request_committed write ev t st st' \<longleftrightarrow> (\<exists>st1. committed write ev t st st1 \<and>
     ps_pipe st' = ps_pipe st1 \<and> ps_shows st' = ps_shows st1 \<and> ps_lsn st' = ps_lsn st1)"

lemma request_committedI:
  "committed write ev t st st1 \<Longrightarrow> request_committed write ev t st st1"
  "committed write ev t st st1 \<Longrightarrow> request_committed write ev t st (drop_show_keys R ks st1)"
  unfolding request_committed_def by auto

lemma committed_calm: "calm st st1 \<Longrightarrow> committed write ev t st1 st2 \<Longrightarrow> committed write ev t st st2"
  using calmD [of st st1] by (simp add: committed_def)

lemma show_do_cases:
  assumes "show_do S R op st = (res, st')"
  obtains (refused) e where "res = Inl e" "calm st st'"
    | (written) x wr ev where "show_written S op st x wr ev" "request_committed wr ev (change_token op) st st'"
proof (cases op)
  case (CreateShow now new_id oid t body)
  let ?w = "\<lambda>shows. shows @ [(show_of now body)\<lparr>sh_id := Some new_id\<rparr>]"
  let ?ev = "search_event oid new_id ''upsert'' (Some (json_of S (show_document (show_of now body))))"
  obtain b st1 where t: "show_tx ?w ?ev t st = (b, st1)" by (cases "show_tx ?w ?ev t st")
  show thesis
  proof (cases "trim (sr_title body) = []")
    case True
    with assms CreateShow show thesis by (intro refused) (auto simp: create_show_def)
  next
    case False
    with assms CreateShow t have r: "res = (if b then Inr () else Inl Internal)"
      "st' = (if b then drop_show_keys R [CACHE_SHOWS, CACHE_DASHBOARD_GRID] st1 else st1)"
      by (auto simp: create_show_def Let_def split: if_splits)
    from t show thesis
    proof (cases rule: show_tx_cases)
      case aborted
      with r show thesis by (intro refused) auto
    next
      case applied
      with r CreateShow show thesis
        by (intro written [of new_id ?w ?ev]) (auto simp: show_written_def change_token_def intro: request_committedI)
    qed
  qed
next
  case (UpdateShow now i oid t body)
  show thesis
  proof (cases "oid_of S i")
    case None
    with assms UpdateShow show thesis by (intro refused) (auto simp: update_show_def)
  next
    case (Some x)
    obtain y st1 where f: "on_mongo (m_read (\<lambda>_. find_show x (ps_shows st))) st = (y, st1)"
      by (cases "on_mongo (m_read (\<lambda>_. find_show x (ps_shows st))) st")
    note c = calm_on_mongo [OF f]
    show thesis
    proof (cases "\<exists>old. y = Some (Some old)")
      case False
      with assms UpdateShow Some f c have "(\<exists>e. res = Inl e) \<and> calm st st'"
        by (auto simp: update_show_def split: option.splits)
      then show thesis using refused by blast
    next
      case True
      then obtain old where old: "y = Some (Some old)" by blast
      with c have fs: "find_show x (ps_shows st) = Some old" by auto
      let ?show = "(show_of now body)\<lparr>sh_id := Some x, sh_created_at := sh_created_at old\<rparr>"
      let ?w = "update_rows (\<lambda>s. sh_id s = Some x) (\<lambda>_. ?show)"
      let ?ev = "search_event oid x ''upsert'' (Some (json_of S (show_document ?show)))"
      obtain b st2 where t: "show_tx ?w ?ev t st1 = (b, st2)" by (cases "show_tx ?w ?ev t st1")
      with assms UpdateShow Some f old have r: "res = (if b then Inr () else Inl Internal)"
        "st' = (if b then drop_show_keys R (show_keys i) st2 else st2)"
        by (auto simp: update_show_def Let_def split: if_splits)
      from t show thesis
      proof (cases rule: show_tx_cases)
        case aborted
        with r calm_trans [OF conjunct1 [OF c]] show thesis by (intro refused) auto
      next
        case applied
        with conjunct1 [OF c] have "committed ?w ?ev t st st2" using committed_calm by blast
        with r UpdateShow Some fs show thesis
          by (intro written [of x ?w ?ev]) (auto simp: show_written_def change_token_def Let_def intro: request_committedI)
      qed
    qed
  qed
next
  case (DeleteShow now i oid t)
  show thesis
  proof (cases "oid_of S i")
    case None
    with assms DeleteShow show thesis by (intro refused) (auto simp: delete_show_def)
  next
    case (Some x)
    let ?w = "update_rows (\<lambda>s. sh_id s = Some x) (\<lambda>s. s\<lparr>sh_deleted_at := Some now\<rparr>)"
    let ?ev = "search_event oid x ''delete'' None"
    obtain b st1 where t: "show_tx ?w ?ev t st = (b, st1)" by (cases "show_tx ?w ?ev t st")
    with assms DeleteShow Some have r: "res = (if b then Inr () else Inl Internal)"
      "st' = (if b then drop_show_keys R (show_keys i) st1 else st1)"
      by (auto simp: delete_show_def split: if_splits)
    from t show thesis
    proof (cases rule: show_tx_cases)
      case aborted
      with r show thesis by (intro refused) auto
    next
      case applied
      with r DeleteShow Some show thesis
        by (intro written [of x ?w ?ev]) (auto simp: show_written_def change_token_def intro: request_committedI)
    qed
  qed
qed

section \<open>The catalogue and its events\<close>

lemma find_show_update:
  assumes "\<And>s. sh_id s = Some x \<Longrightarrow> sh_id (f s) = Some x"
  shows "find_show y (update_rows (\<lambda>s. sh_id s = Some x) f xs) =
    (if y = x then map_option f (find_show x xs) else find_show y xs)"
  unfolding find_show_def update_rows_def by (induction xs) (auto simp: assms)

lemma find_show_append:
  "find_show y (xs @ [s]) = (case find_show y xs of Some z \<Rightarrow> Some z | None \<Rightarrow> if sh_id s = Some y then Some s else None)"
  unfolding find_show_def by (induction xs) auto

lemma find_show_None: "Some x \<notin> sh_id ` set xs \<Longrightarrow> find_show x xs = None"
  unfolding find_show_def by (force simp: find_None_iff)

text \<open>What the index should hold for a show: its document while it is live, nothing otherwise.\<close>

definition shown_as :: "show_crates \<Rightarrow> Show option \<Rightarrow> json option \<Rightarrow> bool" where
  "shown_as S show entry \<longleftrightarrow>
     (case show of
        Some s \<Rightarrow>
          if sh_deleted_at s = None
          then entry \<in> {Some (json_of S (show_document s)), Some (json_of S (show_document (s\<lparr>sh_id := None\<rparr>)))}
          else entry = None
      | None \<Rightarrow> entry = None)"

lemma show_of_live [simp]: "sh_deleted_at (show_of now body) = None" "sh_id (show_of now body) = None"
  "(show_of now body)\<lparr>sh_id := None\<rparr> = show_of now body"
  by (simp_all add: show_of_def)

lemma show_written_shown:
  assumes "show_written S op st x wr ev" "op_possible op st"
  shows "so_operation ev = ''upsert'' \<and> so_document ev \<noteq> None \<or> so_operation ev = ''delete''"
    and "(\<And>y. shown_as S (find_show y (ps_shows st)) (ix y)) \<Longrightarrow>
      shown_as S (find_show y (wr (ps_shows st))) (apply_doc \<lparr>sd_event = ev, sd_sequence = n\<rparr> ix y)"
proof -
  have "(so_operation ev = ''upsert'' \<and> so_document ev \<noteq> None \<or> so_operation ev = ''delete'') \<and>
    ((\<forall>y. shown_as S (find_show y (ps_shows st)) (ix y)) \<longrightarrow>
      shown_as S (find_show y (wr (ps_shows st))) (apply_doc \<lparr>sd_event = ev, sd_sequence = n\<rparr> ix y))"
  proof (cases op)
    case (CreateShow now new_id oid t body)
    with assms(2) have "find_show new_id (ps_shows st) = None" by (intro find_show_None) (simp add: op_possible_def)
    with CreateShow assms(1) show ?thesis
      by (auto simp: show_written_def search_event_def apply_doc_def find_show_append shown_as_def split: option.splits)
  next
    case (UpdateShow now i oid t body)
    with assms(1) show ?thesis
      by (auto simp: show_written_def search_event_def apply_doc_def find_show_update shown_as_def Let_def)
  next
    case (DeleteShow now i oid t)
    with assms(1) show ?thesis
      by (auto simp: show_written_def search_event_def apply_doc_def find_show_update shown_as_def split: option.splits)
  qed
  then show "so_operation ev = ''upsert'' \<and> so_document ev \<noteq> None \<or> so_operation ev = ''delete''"
    and "(\<And>y. shown_as S (find_show y (ps_shows st)) (ix y)) \<Longrightarrow>
      shown_as S (find_show y (wr (ps_shows st))) (apply_doc \<lparr>sd_event = ev, sd_sequence = n\<rparr> ix y)" by blast+
qed

definition counted :: "'r show_server \<Rightarrow> bool" where
  "counted st \<longleftrightarrow> map sd_sequence (docs_of st) = map int [1..<length (docs_of st) + 1] \<and>
     next_lsn (ps_lsn st) = int (length (docs_of st)) + 1 \<and> done_upto (db (ps_pipe st)) \<le> int (length (docs_of st))"

definition site_ok :: "show_crates \<Rightarrow> 'r show_server \<Rightarrow> bool" where
  "site_ok S st \<longleftrightarrow> counted st \<and> docs_ok (db (ps_pipe st)) \<and> index_ok (ps_pipe st) \<and>
     (\<forall>x. shown_as S (find_show x (ps_shows st)) (replay (docs_of st) x))"

lemma counted_in_sequence: "counted st \<Longrightarrow> in_sequence (db (ps_pipe st))"
  by (simp add: counted_def sorted_wrt_map sorted_wrt_upt del: upt_Suc)

lemma index_ok_more:
  assumes "index_ok p" "es_checkpoint (db p') = es_checkpoint (db p)" "outbox_docs (db p') = outbox_docs (db p) @ [d]"
    and "done_upto (db p) < sd_sequence d" "index p' = index p"
  shows "index_ok p'"
proof -
  have "acknowledged (db p') = acknowledged (db p)" using assms(2-4) by (simp add: acknowledged_def done_upto_def)
  with assms show ?thesis by (auto simp: index_ok_def)
qed

lemma site_ok_request:
  assumes "site_ok S st" "op_possible op st"
  shows "site_ok S (snd (show_do S R op st))"
proof -
  obtain res st' where d: "show_do S R op st = (res, st')" by (cases "show_do S R op st")
  from assms(1) have cnt: "counted st" and docs: "docs_ok (db (ps_pipe st))" and ix: "index_ok (ps_pipe st)"
    and shown: "\<And>x. shown_as S (find_show x (ps_shows st)) (replay (docs_of st) x)" by (auto simp: site_ok_def)
  from d have "site_ok S st'"
  proof (cases rule: show_do_cases)
    case (refused e)
    note c = calmD [OF refused(2)]
    have "counted st'" "docs_ok (db (ps_pipe st'))" "index_ok (ps_pipe st')"
      using cnt docs ix c by (simp_all add: counted_def docs_ok_def index_ok_def acknowledged_def done_upto_def)
    with shown c show ?thesis by (simp add: site_ok_def)
  next
    case (written x wr ev)
    let ?n = "next_lsn (ps_lsn st)"
    let ?d = "\<lparr>sd_event = ev, sd_sequence = ?n\<rparr>"
    from written(2) have new: "ps_shows st' = wr (ps_shows st)" "ps_lsn st' = Some ?n" "docs_of st' = docs_of st @ [?d]"
      "index (ps_pipe st') = index (ps_pipe st)" "es_checkpoint (db (ps_pipe st')) = es_checkpoint (db (ps_pipe st))"
      by (auto simp: request_committed_def committed_def)
    have n: "?n = int (length (docs_of st)) + 1" "done_upto (db (ps_pipe st)) \<le> int (length (docs_of st))"
      using cnt by (simp_all add: counted_def)
    have "counted st'" using cnt n new by (simp add: counted_def next_lsn_def done_upto_def)
    moreover have "docs_ok (db (ps_pipe st'))"
      using docs new(3) show_written_shown(1) [OF written(1) assms(2)] by (simp add: docs_ok_def)
    moreover have "index_ok (ps_pipe st')" by (rule index_ok_more [OF ix new(5,3) _ new(4)]) (use n in simp)
    moreover have "shown_as S (find_show y (ps_shows st')) (replay (docs_of st') y)" for y
      using show_written_shown(2) [OF written(1) assms(2) shown] new by (simp add: replay_def)
    ultimately show ?thesis by (simp add: site_ok_def)
  qed
  with d show ?thesis by simp
qed

fun is_arrival :: "site_event \<Rightarrow> bool" where
  "is_arrival (Pipe (Arrived _ _)) = True"
| "is_arrival _ = False"

lemma site_ok_pipe:
  assumes "site_ok S st" "\<not> is_arrival (Pipe e)"
  shows "site_ok S (st\<lparr>ps_pipe := pipe_step e (ps_pipe st)\<rparr>)"
proof -
  let ?p = "ps_pipe st" and ?p' = "pipe_step e (ps_pipe st)"
  from assms(1) have cnt: "counted st" and docs: "docs_ok (db ?p)" and ix: "index_ok ?p" by (simp_all add: site_ok_def)
  have "outbox_docs (db ?p') = outbox_docs (db ?p) \<and> index_ok ?p' \<and>
    (es_checkpoint (db ?p') = es_checkpoint (db ?p) \<or> es_checkpoint (db ?p') \<in> Some ` sd_sequence ` set (outbox_docs (db ?p)))"
  proof (cases e)
    case (Changed t)
    with ix show ?thesis by (simp add: index_ok_def)
  next
    case Connected
    then show ?thesis using ix
      by (cases rule: connect_cases [of ?p]) (auto dest!: m_sameD simp: index_ok_def acknowledged_def done_upto_def)
  next
    case Arrived
    with assms(2) show ?thesis by simp
  next
    case Broken
    with ix show ?thesis by (simp add: index_ok_def)
  next
    case Indexed
    with index_pass_spec [OF counted_in_sequence [OF cnt] docs] ix show ?thesis by simp
  qed
  then have p: "outbox_docs (db ?p') = outbox_docs (db ?p)" "index_ok ?p'"
    "es_checkpoint (db ?p') = es_checkpoint (db ?p) \<or> es_checkpoint (db ?p') \<in> Some ` sd_sequence ` set (outbox_docs (db ?p))"
    by blast+
  have "sd_sequence d \<le> int (length (docs_of st))" if "d \<in> set (docs_of st)" for d
  proof -
    have "sd_sequence d \<in> set (map sd_sequence (docs_of st))" using that by simp
    with cnt have "sd_sequence d \<in> set (map int [1..<length (docs_of st) + 1])" by (simp only: counted_def)
    then show ?thesis by auto
  qed
  with p cnt have "done_upto (db ?p') \<le> int (length (docs_of st))" by (auto simp: counted_def done_upto_def)
  with p(1) cnt have "counted (st\<lparr>ps_pipe := ?p'\<rparr>)" by (simp add: counted_def)
  with p docs assms(1) show ?thesis by (simp add: site_ok_def docs_ok_def)
qed

lemma site_ok_step: "site_ok S st \<Longrightarrow> \<not> is_arrival e \<Longrightarrow> site_ok S (site_step S R e st)"
  by (cases e) (simp_all add: site_ok_request site_ok_pipe del: show_do.simps pipe_step.simps)

lemma site_ok_run: "site_ok S st \<Longrightarrow> \<not> list_ex is_arrival es \<Longrightarrow> site_ok S (site_run S R es st)"
  unfolding site_run_def by (induction es arbitrary: st) (simp_all add: site_ok_step del: site_step.simps)

lemma site_ok_new: "site_ok S (new_site acc fs gs w)"
  by (simp add: site_ok_def counted_def new_site_def new_pipeline_def docs_ok_def index_ok_def acknowledged_def done_upto_def
      replay_def shown_as_def find_show_def next_lsn_def)

section \<open>Two counters\<close>

text \<open>The producers of events take none out of the outbox, never use a number twice, and leave the indexer's checkpoint.\<close>

abbreviation unique_numbers :: "mongo \<Rightarrow> bool" where
  "unique_numbers m \<equiv> distinct (map sd_sequence (outbox_docs m))"

definition keeps_docs :: "mongo \<Rightarrow> mongo \<Rightarrow> bool" where
  "keeps_docs m m' \<longleftrightarrow> set (outbox_docs m) \<subseteq> set (outbox_docs m') \<and> (unique_numbers m \<longrightarrow> unique_numbers m') \<and>
     es_checkpoint m' = es_checkpoint m"

lemma keeps_docs_refl [simp]: "keeps_docs m m"
  by (simp add: keeps_docs_def)

lemma keeps_docs_trans: "keeps_docs m m1 \<Longrightarrow> keeps_docs m1 m2 \<Longrightarrow> keeps_docs m m2"
  by (auto simp: keeps_docs_def)

lemma m_same_keeps: "m_same m m' \<Longrightarrow> keeps_docs m m'"
  by (simp add: keeps_docs_def m_sameD)

lemma m_write_keeps:
  assumes "m_write c m = (x, m')" "\<And>m. keeps_docs m (snd (c m))"
  shows "keeps_docs m m'"
  using assms(1)
proof (cases rule: m_write_cases)
  case refused
  then show ?thesis by (simp add: m_same_keeps)
next
  case (run m1)
  then show ?thesis using keeps_docs_trans [OF m_same_keeps assms(2)] by blast
qed

lemma record_keeps: "keeps_docs m (snd (record_mongo_outbox_event ev m))"
proof -
  have adv: "keeps_docs m (snd (advance_checkpoint t m))" for t m
    using advance_checkpointD [of t m] by (cases "advance_checkpoint t m") (simp add: keeps_docs_def)
  have ins: "keeps_docs m (snd (m_write (insert_doc d) m))" for d m
    by (rule m_write_keeps [OF surjective_pairing]) (auto simp: insert_doc_def keeps_docs_def)
  let ?q = "\<lambda>m. so_token ev \<in> (\<lambda>x. so_token (sd_event x)) ` set (outbox_docs m)"
  obtain x m1 where q: "m_read ?q m = (x, m1)" by (cases "m_read ?q m")
  have k1: "keeps_docs m m1" using m_readD [OF q] m_same_keeps by blast
  obtain y m2 where n: "next_sequence m1 = (y, m2)" by (cases "next_sequence m1")
  have k2: "keeps_docs m m2" using next_sequenceD [OF n] k1 by (simp add: keeps_docs_def)
  have k3: "keeps_docs m (snd (m_write (insert_doc d) m2))" for d using keeps_docs_trans [OF k2 ins] .
  show ?thesis
    using q n k1 k2 keeps_docs_trans [OF k1 adv] keeps_docs_trans [OF keeps_docs_trans [OF k2 ins] adv] k3
    by (auto simp: record_mongo_outbox_event_def split: option.splits bool.splits prod.splits) (metis snd_conv)+
qed

lemma claim_next_same: "claim_next m = (x, m') \<Longrightarrow> m_same m m'"
  by (auto simp: claim_next_def Let_def dest!: m_readD intro: m_same_trans split: prod.splits option.splits)

lemma apply_event_db: "apply_event ev p = (b, p') \<Longrightarrow> db p' = db p"
  by (auto simp: apply_event_def es_request_def split: if_splits option.splits prod.splits list.splits)

lemma mark_indexedD:
  "outbox_docs (mark_indexed ev m) = outbox_docs m \<and> es_checkpoint (mark_indexed ev m) \<in> {es_checkpoint m, Some (ce_sequence ev)}"
proof -
  let ?c = "\<lambda>m. ((), m\<lparr>es_checkpoint := Some (ce_sequence ev)\<rparr>)"
  obtain x m' where w: "m_write ?c m = (x, m')" by (cases "m_write ?c m")
  from w have "outbox_docs m' = outbox_docs m \<and> es_checkpoint m' \<in> {es_checkpoint m, Some (ce_sequence ev)}"
    by (cases rule: m_write_cases) (auto dest!: m_sameD)
  with w show ?thesis by (simp add: mark_indexed_def)
qed

lemma index_pass_docs: "outbox_docs (db (index_pass p)) = outbox_docs (db p)"
proof -
  obtain x m where c: "claim_next (db p) = (x, m)" by (cases "claim_next (db p)")
  with m_sameD [OF claim_next_same [OF c]] show ?thesis
    by (auto simp: index_pass_def mark_indexedD dest!: apply_event_db split: option.splits prod.splits if_splits)
qed

lemma deliver_keeps: "keeps_docs (db p) (db (deliver carrier c p))"
proof -
  have "keeps_docs m (snd (handle_change carrier c m))" for m
    using record_keeps by (simp add: handle_change_def split: option.split sum.split)
  then have "keeps_docs m m'" if "handle_change carrier c m = (b, m')" for m b m' using that by (metis snd_conv)
  then show ?thesis by (auto simp: deliver_def split: option.split prod.split)
qed

lemma pipe_step_keeps: "e \<noteq> Indexed \<Longrightarrow> keeps_docs (db p) (db (pipe_step e p))"
proof (cases e)
  case Connected
  then show ?thesis by (cases rule: connect_cases [of p]) (simp_all add: m_same_keeps)
qed (simp_all add: deliver_keeps)

lemma pipe_step_docs: "set (outbox_docs (db p)) \<subseteq> set (outbox_docs (db (pipe_step e p)))"
  using pipe_step_keeps [of e p] by (cases "e = Indexed") (simp_all add: keeps_docs_def index_pass_docs)

definition number_taken :: "'r show_server \<Rightarrow> bool" where
  "number_taken st \<longleftrightarrow> next_lsn (ps_lsn st) \<in> sd_sequence ` set (docs_of st)"

lemma taken_show_do:
  assumes "number_taken st" "show_do S R op st = (res, st')"
  shows "(\<exists>e. res = Inl e) \<and> calm st st'"
  using assms(2)
proof (cases rule: show_do_cases)
  case (refused e)
  then show ?thesis by blast
next
  case (written x wr ev)
  with assms(1) show ?thesis by (auto simp: request_committed_def committed_def number_taken_def)
qed

lemma taken_step:
  assumes "number_taken st"
  shows "number_taken (site_step S R e st) \<and> ps_shows (site_step S R e st) = ps_shows st"
proof (cases e)
  case (ShowRequest op)
  obtain res st' where d: "show_do S R op st = (res, st')" by (cases "show_do S R op st")
  from calmD [OF conjunct2 [OF taken_show_do [OF assms d]]] assms d ShowRequest show ?thesis
    by (simp add: number_taken_def del: show_do.simps)
next
  case (Pipe e)
  with assms pipe_step_docs [of "ps_pipe st" e] show ?thesis
    by (auto simp: number_taken_def simp del: pipe_step.simps)
qed

lemma taken_run: "number_taken st \<Longrightarrow> number_taken (site_run S R es st) \<and> ps_shows (site_run S R es st) = ps_shows st"
  unfolding site_run_def by (induction es arbitrary: st) (simp_all add: taken_step del: site_step.simps)

text \<open>A concrete site: ids are their own hexadecimal form.\<close>

definition plain_show_crates :: show_crates where
  "plain_show_crates = \<lparr>oid_of = (\<lambda>i. Some i), json_of = (\<lambda>_. JNull), regex_match = (=)\<rparr>"

definition plain_show :: "string \<Rightarrow> CreateShowRequest" where
  "plain_show title =
     \<lparr>sr_show_type = MongoMovie, sr_title = title, sr_description = None, sr_tags = None, sr_poster_url = None,
      sr_backdrop_url = None, sr_thumbnail_url = None, sr_trailer_url = None, sr_teaser_url = None, sr_language = None,
      sr_genre = None, sr_category_ids = None, sr_score = None, sr_weight = None, sr_status = None,
      sr_duration_minutes = None, sr_director = None, sr_director_photo_url = None, sr_cast = None, sr_host = None,
      sr_host_photo_url = None, sr_performers = None, sr_sport = None, sr_team_a = None, sr_team_b = None,
      sr_venue = None, sr_match_round = None, sr_city = None\<rparr>"

definition one_show :: "site_event list" where
  "one_show = [ShowRequest (CreateShow 0 ''a'' ''o'' ''t'' (plain_show ''Hamlet''))]"

abbreviation empty_site :: "fault list \<Rightarrow> keyspace show_server" where
  "empty_site fs \<equiv> new_site (\<lambda>_. True) fs [] (fresh_world 1)"

lemmas site_eval = site_run_def one_show_def new_site_def op_possible_def create_show_def show_tx_def on_mongo_def
  plain_show_crates_def plain_show_def trim_def is_space_def search_event_def next_lsn_def show_of_def or_default_def drop_show_keys_def
  pipe_eval

section \<open>Properties\<close>

text \<open>
  C18 (the index shows the catalogue). As long as the administration is the only producer of the outbox, then after any
  run of requests and of the indexer, with any failures, and if Elasticsearch takes the documents, as many clean passes of the indexer as there are events
  make the search index hold exactly the live shows, each with its current document.
\<close>

theorem index_shows_catalogue:
  assumes "st = site_run S R es (new_site acc fs gs w)" "\<not> list_ex is_arrival es"
    and "m_faults (db (ps_pipe st)) = []" "es_faults (ps_pipe st) = []" "all_accepted (ps_pipe st)"
    and "length (docs_of st) \<le> n"
  shows "shown_as S (find_show x (ps_shows st)) (index ((index_pass ^^ n) (ps_pipe st)) x)"
proof -
  have ok: "site_ok S st" unfolding assms(1) by (intro site_ok_run site_ok_new assms(2))
  then have "clean (ps_pipe st)" using assms(3-5) counted_in_sequence [of st] by (simp add: clean_def site_ok_def)
  with clean_catches_up [OF this assms(6)] ok show ?thesis by (simp add: site_ok_def)
qed

theorem index_shows_catalogue_witness:
  "shown_as plain_show_crates (find_show ''a'' (ps_shows (site_run plain_show_crates mem_redis one_show (empty_site []))))
     (index ((index_pass ^^ 1) (ps_pipe (site_run plain_show_crates mem_redis one_show (empty_site [])))) ''a'')"
  by (rule index_shows_catalogue [OF refl]) (simp_all add: site_eval all_accepted_def Let_def)

text \<open>
  C20 (a write of a show is atomic). Whatever fails, a request to create, replace or delete a show either leaves the
  shows, the counter, the outbox and the change stream as they were, or does all of it: the show is written, the
  counter has moved by one, and one event of that number is in the outbox. A success answer means the latter.
\<close>

theorem show_write_is_atomic:
  assumes "show_do S R op st = (res, st')"
  shows "(\<exists>e. res = Inl e) \<and> ps_shows st' = ps_shows st \<and> ps_lsn st' = ps_lsn st \<and> docs_of st' = docs_of st \<and>
      source (ps_pipe st') = source (ps_pipe st) \<or>
    (\<exists>x wr ev. show_written S op st x wr ev \<and> ps_shows st' = wr (ps_shows st) \<and>
       ps_lsn st' = Some (next_lsn (ps_lsn st)) \<and>
       docs_of st' = docs_of st @ [\<lparr>sd_event = ev, sd_sequence = next_lsn (ps_lsn st)\<rparr>] \<and>
       source (ps_pipe st') = source (ps_pipe st) @ (if ps_shows st' = ps_shows st then [] else [change_token op]))"
  using assms
proof (cases rule: show_do_cases)
  case (refused e)
  with calmD [OF refused(2)] show ?thesis by simp
next
  case (written x wr ev)
  then have "ps_shows st' = wr (ps_shows st)" "ps_lsn st' = Some (next_lsn (ps_lsn st))"
    "docs_of st' = docs_of st @ [\<lparr>sd_event = ev, sd_sequence = next_lsn (ps_lsn st)\<rparr>]"
    "source (ps_pipe st') = source (ps_pipe st) @ (if wr (ps_shows st) = ps_shows st then [] else [change_token op])"
    by (auto simp: request_committed_def committed_def)
  with written(1) show ?thesis by metis
qed

theorem show_write_is_atomic_witness:
  "\<exists>res st'. show_do plain_show_crates mem_redis (DeleteShow 0 ''a'' ''p'' ''u'') (empty_site [Refused]) = (res, st') \<and>
     (ps_lsn st' = ps_lsn (empty_site [Refused]) \<or> ps_lsn st' = Some (next_lsn (ps_lsn (empty_site [Refused]))))"
proof -
  obtain res st' where d: "show_do plain_show_crates mem_redis (DeleteShow 0 ''a'' ''p'' ''u'') (empty_site [Refused]) = (res, st')"
    by (cases "show_do plain_show_crates mem_redis (DeleteShow 0 ''a'' ''p'' ''u'') (empty_site [Refused])")
  with show_write_is_atomic [OF d] show ?thesis by blast
qed

text \<open>
  (two counters block the catalogue). The administration and the change-data-capture worker number the events of
  one outbox with counters of their own, under a unique index. As soon as an event has the number the administration
  comes to next, every request to create, replace or delete a show fails, after any further run of both.
\<close>

theorem two_counters_block_shows:
  assumes "next_lsn (ps_lsn st) \<in> sd_sequence ` set (docs_of st)"
  shows "ps_shows (site_run S R es st) = ps_shows st \<and> (\<exists>e. fst (show_do S R op (site_run S R es st)) = Inl e)"
proof -
  have t: "number_taken st" using assms by (simp add: number_taken_def)
  obtain res st' where d: "show_do S R op (site_run S R es st) = (res, st')" by (cases "show_do S R op (site_run S R es st)")
  from taken_run [OF t, of S R es] taken_show_do [OF _ d] d show ?thesis by auto
qed

theorem two_counters_block_shows_witness:
  "\<exists>e. fst (show_do plain_show_crates mem_redis (DeleteShow 0 ''a'' ''p'' ''u'')
     (site_run plain_show_crates mem_redis [Pipe Indexed]
       (site_run plain_show_crates mem_redis
         ([Pipe Connected, Pipe (Changed ''x''), Pipe (Arrived JNull (made ''x'' ''Lear''))]) (empty_site [])))) = Inl e"
  by (rule conjunct2 [OF two_counters_block_shows]) (simp add: site_eval Let_def)

text \<open>
  (two counters lose a change). When the number the change-data-capture worker draws is taken by an event of the
  administration, the insertion fails with the error the worker reads as a duplicate of the change: it moves its
  checkpoint past a change that is not in the outbox.
\<close>

theorem two_counters_lose_change:
  assumes "last_number m + 1 \<in> sd_sequence ` set (outbox_docs m)" "so_token ev \<notin> set (tokens m)" "m_faults m = []"
    and "record_mongo_outbox_event ev m = (ok, m')"
  shows "ok \<and> cdc_checkpoint m' = Some (so_token ev) \<and> so_token ev \<notin> set (tokens m')"
proof -
  let ?m1 = "m\<lparr>sequence := Some (last_number m + 1)\<rparr>"
  have n: "next_sequence m = (Some (last_number m + 1), ?m1)"
    using assms(3) by (simp add: next_sequence_def m_write_clean last_number_def Let_def)
  have "insert_doc \<lparr>sd_event = ev, sd_sequence = last_number m + 1\<rparr> ?m1 = (False, ?m1)"
    using assms(1) by (simp add: insert_doc_def)
  moreover have "so_token ev \<notin> (\<lambda>x. so_token (sd_event x)) ` set (outbox_docs m)" using assms(2) by (simp add: tokens_def)
  ultimately have "record_mongo_outbox_event ev m = (True, ?m1\<lparr>cdc_checkpoint := Some (so_token ev)\<rparr>)"
    using assms(3) n by (simp add: record_mongo_outbox_event_def m_read_clean m_write_clean advance_checkpoint_def)
  with assms(2,4) show ?thesis by (auto simp: tokens_def)
qed

theorem two_counters_lose_change_witness:
  "\<exists>m m' ev. outbox_docs m \<noteq> [] \<and> record_mongo_outbox_event ev m = (True, m') \<and> so_token ev \<notin> set (tokens m')"
proof -
  let ?m = "db (ps_pipe (site_run plain_show_crates mem_redis one_show (empty_site [])))"
  let ?ev = "delete_event ''a'' ''t''"
  have m: "last_number ?m + 1 \<in> sd_sequence ` set (outbox_docs ?m)" "so_token ?ev \<notin> set (tokens ?m)" "m_faults ?m = []"
    "outbox_docs ?m \<noteq> []"
    by (simp_all add: site_eval Let_def last_number_def)
  obtain ok m' where r: "record_mongo_outbox_event ?ev ?m = (ok, m')" by (cases "record_mongo_outbox_event ?ev ?m")
  from two_counters_lose_change [OF m(1-3) r] r m(4) show ?thesis
    by (intro exI [of _ ?m] exI [of _ m'] exI [of _ ?ev]) simp
qed

end
