(* ===== verification/Index_Blocked.thy ===== *)
theory Index_Blocked
  imports Shows_Props
begin

text \<open>
  An event that Elasticsearch refuses blocks the search index: the indexer takes events in the order of their numbers
  and retries the refused one for ever. The events of \<open>update_show\<close> are such: their document carries the metadata field
  \<open>_id\<close>, which Elasticsearch does not take in a document.
\<close>

section \<open>The least event above the checkpoint\<close>

lemma find_least:
  "sorted (map f xs) \<Longrightarrow> find P xs = Some d \<Longrightarrow> d \<in> set xs \<and> P d \<and> (\<forall>e \<in> set xs. P e \<longrightarrow> f d \<le> f e)"
  by (induction xs) (auto split: if_splits)

lemma claim_next_least:
  assumes "claim_next m = (Some (Some ev), m')"
  obtains d where "d \<in> set (outbox_docs m)" "ev = parse_claimed_event d" "done_upto m < sd_sequence d"
    "\<And>e. e \<in> set (outbox_docs m) \<Longrightarrow> done_upto m < sd_sequence e \<Longrightarrow> sd_sequence d \<le> sd_sequence e"
proof -
  let ?q = "\<lambda>m'. find (\<lambda>d. done_upto m < sd_sequence d) (sort_key sd_sequence (outbox_docs m'))"
  obtain c m1 where c: "m_read es_checkpoint m = (c, m1)" by (cases "m_read es_checkpoint m")
  note s1 = m_readD [OF c]
  obtain y m2 where q: "m_read ?q m1 = (y, m2)" by (cases "m_read ?q m1")
  note s2 = m_readD [OF q]
  have "c = None \<or> c = Some (es_checkpoint m)" using s1 m_sameD [of m m1] by auto
  then obtain d where d: "y = Some (Some d)" "ev = parse_claimed_event d"
    using assms c q by (auto simp: claim_next_def Let_def done_upto_def [symmetric] split: option.splits prod.splits)
  have docs: "outbox_docs m2 = outbox_docs m" using m_sameD [of m m1] m_sameD [of m1 m2] s1 s2 by simp
  have "?q m2 = Some d" using d(1) s2 by auto
  from find_least [OF _ this, of sd_sequence] docs d(2) show thesis by (intro that [of d]) simp_all
qed

section \<open>A refused event\<close>

text \<open>Event \<open>n\<close> of the outbox has a document that Elasticsearch does not take, and is not acknowledged.\<close>

definition blocked :: "int \<Rightarrow> pipeline \<Rightarrow> bool" where
  "blocked n p \<longleftrightarrow> unique_numbers (db p) \<and> done_upto (db p) < n \<and>
     (\<exists>d doc. d \<in> set (outbox_docs (db p)) \<and> sd_sequence d = n \<and> so_operation (sd_event d) = ''upsert'' \<and>
        so_document (sd_event d) = Some doc \<and> \<not> es_accepts p doc)"

lemma apply_event_accepts: "apply_event ev p = (b, p') \<Longrightarrow> es_accepts p' = es_accepts p"
  by (auto simp: apply_event_def es_request_def split: if_splits option.splits prod.splits list.splits)

lemma apply_event_refused:
  "ce_operation ev = ''upsert'' \<Longrightarrow> ce_document ev = Some doc \<Longrightarrow> \<not> es_accepts p doc \<Longrightarrow> \<not> fst (apply_event ev p)"
  by (auto simp: apply_event_def es_request_def split: prod.split)

lemma pipe_step_accepts: "es_accepts (pipe_step e p) = es_accepts p"
proof (cases e)
  case Connected
  then show ?thesis by (cases rule: connect_cases [of p]) simp_all
qed (auto simp: deliver_def index_pass_def dest!: apply_event_accepts split: option.splits prod.splits)

lemma done_upto_index_pass:
  assumes "unique_numbers (db p)" "done_upto (db p) < n" "d \<in> set (outbox_docs (db p))" "sd_sequence d = n"
    and "so_operation (sd_event d) = ''upsert''" "so_document (sd_event d) = Some doc" "\<not> es_accepts p doc"
  shows "done_upto (db (index_pass p)) < n"
proof -
  obtain x m where c: "claim_next (db p) = (x, m)" by (cases "claim_next (db p)")
  note same = m_sameD [OF claim_next_same [OF c]]
  have k: "done_upto m < n" using same assms(2) by (simp add: done_upto_def)
  show ?thesis
  proof (cases "\<exists>ev. x = Some (Some ev)")
    case False
    with c k show ?thesis by (auto simp: index_pass_def split: option.splits)
  next
    case True
    then obtain ev where ev: "x = Some (Some ev)" by blast
    with c obtain e where e: "e \<in> set (outbox_docs (db p))" "ev = parse_claimed_event e"
      "sd_sequence e \<le> n" using claim_next_least [of "db p" ev m] assms(2-4) by metis
    obtain b p1 where a: "apply_event ev (p\<lparr>db := m\<rparr>) = (b, p1)" by (cases "apply_event ev (p\<lparr>db := m\<rparr>)")
    have p1: "db p1 = m" using apply_event_db [OF a] by simp
    show ?thesis
    proof (cases "sd_sequence e = n")
      case True
      then have "e = d" using assms(1,3,4) e(1) by (simp add: distinct_map inj_on_def)
      with e(2) assms(5-7) have "\<not> fst (apply_event ev (p\<lparr>db := m\<rparr>))"
        by (intro apply_event_refused) (simp_all add: parse_claimed_event_def)
      with a c ev p1 k show ?thesis by (simp add: index_pass_def)
    next
      case False
      then have "ce_sequence ev < n" using e(2,3) by (simp add: parse_claimed_event_def)
      with mark_indexedD [of ev m] k have "done_upto (mark_indexed ev m) < n" by (auto simp: done_upto_def)
      with a c ev p1 k show ?thesis by (simp add: index_pass_def)
    qed
  qed
qed

lemma blocked_step:
  assumes "blocked n p"
  shows "blocked n (pipe_step e p)"
proof (cases "e = Indexed")
  case True
  with assms done_upto_index_pass [of p n] index_pass_docs [of p] pipe_step_accepts [of Indexed p] show ?thesis
    by (auto simp: blocked_def)
next
  case False
  with assms pipe_step_keeps [OF False, of p] pipe_step_accepts [of e p] show ?thesis
    by (auto simp: blocked_def keeps_docs_def done_upto_def simp del: pipe_step.simps)
qed

lemma blocked_request:
  assumes "blocked n (ps_pipe st)" "show_do S R op st = (res, st')"
  shows "blocked n (ps_pipe st')"
  using assms(2)
proof (cases rule: show_do_cases)
  case (refused e)
  with assms(1) calmD [OF refused(2)] show ?thesis by (simp add: blocked_def done_upto_def)
next
  case (written x wr ev)
  with assms(1) show ?thesis by (auto simp: request_committed_def committed_def blocked_def done_upto_def)
qed

lemma blocked_run:
  assumes "blocked n (ps_pipe st)"
  shows "blocked n (ps_pipe (site_run S R es st))"
  using assms unfolding site_run_def
proof (induction es arbitrary: st)
  case (Cons e es)
  have "blocked n (ps_pipe (site_step S R e st))"
  proof (cases e)
    case (ShowRequest op)
    with Cons.prems blocked_request [OF Cons.prems surjective_pairing] show ?thesis by (simp del: show_do.simps)
  next
    case (Pipe p)
    with Cons.prems show ?thesis by (simp add: blocked_step del: pipe_step.simps)
  qed
  with Cons.IH show ?case by simp
qed simp

lemma site_run_accepts: "es_accepts (ps_pipe (site_run S R es st)) = es_accepts (ps_pipe st)"
proof -
  have step: "es_accepts (ps_pipe (site_step S R e st)) = es_accepts (ps_pipe st)" for e and st :: "'a show_server"
  proof (cases e)
    case (ShowRequest op)
    obtain res st' where d: "show_do S R op st = (res, st')" by (cases "show_do S R op st")
    then have "es_accepts (ps_pipe st') = es_accepts (ps_pipe st)"
      by (cases rule: show_do_cases) (auto simp: request_committed_def committed_def dest: calmD)
    with d ShowRequest show ?thesis by (simp del: show_do.simps)
  qed (simp add: pipe_step_accepts del: pipe_step.simps)
  show ?thesis unfolding site_run_def by (induction es arbitrary: st) (simp_all add: step del: site_step.simps)
qed

section \<open>Properties\<close>

text \<open>
  C19 (an update blocks the index). Elasticsearch takes no document with the metadata field \<open>_id\<close>, and the document of an
  updated show carries it. So from the first update of a site on, whatever requests, changes and passes follow, the
  indexer never gets past the event of that update: neither it nor any later event is ever acknowledged.
\<close>

theorem update_blocks_index:
  assumes "\<forall>doc. jget doc ''_id'' \<noteq> JNull \<longrightarrow> \<not> acc doc"
    and "\<forall>d x. map_of d ''_id'' = Some (BObjectId x) \<longrightarrow> jget (json_of S d) ''_id'' \<noteq> JNull"
    and "st = site_run S R es (new_site acc fs gs w)" "\<not> list_ex is_arrival es"
    and "show_do S R (UpdateShow now i oid t body) st = (Inr (), st')"
  shows "next_lsn (ps_lsn st) \<in> sd_sequence ` set (docs_of st') \<and>
    done_upto (db (ps_pipe (site_run S R later st'))) < next_lsn (ps_lsn st)"
proof -
  let ?n = "next_lsn (ps_lsn st)"
  have "site_ok S st" unfolding assms(3) by (intro site_ok_run site_ok_new assms(4))
  then have cnt: "counted st" by (simp add: site_ok_def)
  have nums: "unique_numbers (db (ps_pipe st))" "done_upto (db (ps_pipe st)) < ?n"
    using cnt by (simp_all add: counted_def distinct_map)
  have acc: "es_accepts (ps_pipe st) = acc" unfolding assms(3) site_run_accepts by (simp add: new_site_def new_pipeline_def)
  from assms(5) have "blocked ?n (ps_pipe st') \<and> ?n \<in> sd_sequence ` set (docs_of st')"
  proof (cases rule: show_do_cases)
    case (refused e)
    then show ?thesis by simp
  next
    case (written x wr ev)
    then obtain s where ev: "so_operation ev = ''upsert''" "so_document ev = Some (json_of S (show_document s))" "sh_id s = Some x"
      by (auto simp: show_written_def search_event_def Let_def)
    then have "map_of (show_document s) ''_id'' = Some (BObjectId x)" by (simp add: show_document_def)
    then have "\<not> acc (json_of S (show_document s))" using assms(1,2) by blast
    with written(2) nums acc ev show ?thesis
      by (auto simp: request_committed_def committed_def blocked_def done_upto_def)
  qed
  then show ?thesis using blocked_run [of ?n st' S R later] by (simp add: blocked_def)
qed

definition real_show_crates :: show_crates where
  "real_show_crates = plain_show_crates\<lparr>json_of := (\<lambda>d. JObj (case map_of d ''_id'' of
     Some (BObjectId x) \<Rightarrow> [(''_id'', JStr x)] | _ \<Rightarrow> []))\<rparr>"

theorem update_blocks_index_witness:
  "\<exists>st'. show_do real_show_crates mem_redis (UpdateShow 1 ''a'' ''p'' ''u'' (plain_show ''Lear''))
       (site_run real_show_crates mem_redis one_show (new_site (\<lambda>doc. jget doc ''_id'' = JNull) [] [] (fresh_world 1))) = (Inr (), st') \<and>
     done_upto (db (ps_pipe (site_run real_show_crates mem_redis [Pipe Indexed, Pipe Indexed, Pipe Indexed] st'))) < 2"
proof -
  let ?st = "site_run real_show_crates mem_redis one_show (new_site (\<lambda>doc. jget doc ''_id'' = JNull) [] [] (fresh_world 1))"
  let ?op = "UpdateShow 1 ''a'' ''p'' ''u'' (plain_show ''Lear'')"
  have n: "next_lsn (ps_lsn ?st) = 2" by (simp add: site_eval real_show_crates_def Let_def)
  have "fst (show_do real_show_crates mem_redis ?op ?st) = Inr ()"
    by (simp add: site_eval real_show_crates_def update_show_def find_show_def update_rows_def Let_def)
  then obtain st' where d: "show_do real_show_crates mem_redis ?op ?st = (Inr (), st')"
    by (cases "show_do real_show_crates mem_redis ?op ?st") auto
  have "done_upto (db (ps_pipe (site_run real_show_crates mem_redis [Pipe Indexed, Pipe Indexed, Pipe Indexed] st'))) < next_lsn (ps_lsn ?st)"
    by (rule conjunct2 [OF update_blocks_index [OF _ _ refl _ d]])
      (auto simp: real_show_crates_def one_show_def)
  with d n show ?thesis by auto
qed

end
