(* ===== verification/Accounts.thy ===== *)
theory Accounts
  imports Schedules_Admin
begin

text \<open>
  Accounts: sign-up, login and Google login (\<open>apps/http-server/src/api/auth.rs\<close>), the reset of an
  administrator's password (\<open>api/admin/password_reset.rs\<close>), the tokens (\<open>helpers/jwt.rs\<close>) and the extractors that
  guard the other routes (\<open>middleware/auth.rs\<close>). Bcrypt, JWT and Google's token service are other programs and
  parameters. Errors carry their status and text.
\<close>

section \<open>Parameters and messages\<close>

record Claims =
  cl_sub :: string
  cl_email :: string
  cl_role :: string
  cl_exp :: int

text \<open>Google's answer: no reply, an error status, a body without the claims, or the claims.\<close>

datatype google_reply =
    GoogleUnreachable
  | GoogleRefused
  | GoogleGarbled
  | GoogleTokenInfo (gi_aud: string) (gi_email: string) (gi_email_verified: string) (gi_exp: string)

text \<open>
  Hashing draws a salt. Decoding gets the time, since it refuses an expired token; it checks the signature under the
  secret.
\<close>

record auth_crates =
  bcrypt_hash :: "string \<Rightarrow> string \<Rightarrow> string option"
  bcrypt_verify :: "string \<Rightarrow> string \<Rightarrow> bool option"
  jwt_encode :: "string \<Rightarrow> Claims \<Rightarrow> string option"
  jwt_decode :: "string \<Rightarrow> int \<Rightarrow> string \<Rightarrow> Claims option"
  google_token_info :: "string \<Rightarrow> google_reply"

text \<open>What the code relies on: a password verifies against its hash, and a token decodes until it expires.\<close>

definition auth_laws :: "auth_crates \<Rightarrow> bool" where
  "auth_laws A \<longleftrightarrow>
     (\<forall>salt p h. bcrypt_hash A salt p = Some h \<longrightarrow> bcrypt_verify A p h = Some True) \<and>
     (\<forall>k c t now. jwt_encode A k c = Some t \<longrightarrow> now \<le> cl_exp c \<longrightarrow> jwt_decode A k now t = Some c)"

type_synonym status_error = "nat \<times> string"

record SignupRequest =
  sg_email :: string
  sg_password :: string
  sg_role :: "string option"

record LoginRequest =
  lg_email :: string
  lg_password :: string

record UserPublic =
  upub_id :: user_id
  upub_email :: string
  upub_role :: string

record AuthResponse =
  ar_token :: string
  ar_user :: UserPublic

definition role_text :: "UserRole \<Rightarrow> string" where
  "role_text r = (case r of UserRole_Admin \<Rightarrow> ''Admin'' | UserRole_User \<Rightarrow> ''User'')"

definition to_public :: "User \<Rightarrow> UserPublic" where
  "to_public u = \<lparr>upub_id = us_id u, upub_email = us_email u, upub_role = role_text (us_role u)\<rparr>"

section \<open>Tokens\<close>

text \<open>The secret the server signs with, and the one the extractors verify with; seven days of life.\<close>

definition server_secret :: "env \<Rightarrow> string" where
  "server_secret env = (case env ''JWT_SECRET'' of Some k \<Rightarrow> k | None \<Rightarrow> ''supersecretjwtkey'')"

definition decode_secret :: "env \<Rightarrow> string" where
  "decode_secret env = (case env ''JWT_SECRET'' of Some k \<Rightarrow> k | None \<Rightarrow> ''secret'')"

definition create_jwt :: "auth_crates \<Rightarrow> int \<Rightarrow> string \<Rightarrow> User \<Rightarrow> string option" where
  "create_jwt A now_secs secret u =
     jwt_encode A secret
       \<lparr>cl_sub = dec (us_id u), cl_email = us_email u, cl_role = role_text (us_role u), cl_exp = now_secs + 7 * 24 * 60 * 60\<rparr>"

text \<open>The text of a decoding error comes from the crate and is left out.\<close>

definition decode_token :: "auth_crates \<Rightarrow> env \<Rightarrow> int \<Rightarrow> string \<Rightarrow> AppError + Claims" where
  "decode_token A env now_secs token =
     (case jwt_decode A (decode_secret env) now_secs token of
        Some c \<Rightarrow> Inr c | None \<Rightarrow> Inl (Unauthorized ''Invalid token''))"

definition user_id_from_claims :: "Claims \<Rightarrow> AppError + user_id" where
  "user_id_from_claims c = (case parse_i32 (cl_sub c) of Some u \<Rightarrow> Inr u | None \<Rightarrow> Inl Internal)"

definition auth_user :: "auth_crates \<Rightarrow> env \<Rightarrow> int \<Rightarrow> (string \<times> string) list \<Rightarrow> AppError + Claims" where
  "auth_user A env now_secs headers =
     (case map_of headers ''authorization'' of
        None \<Rightarrow> Inl (Unauthorized ''Missing Authorization header'')
      | Some v \<Rightarrow>
          (case strip_prefix ''Bearer '' v of
             None \<Rightarrow> Inl (Unauthorized ''Authorization must use Bearer scheme'')
           | Some token \<Rightarrow> decode_token A env now_secs token))"

definition admin_user :: "auth_crates \<Rightarrow> env \<Rightarrow> int \<Rightarrow> (string \<times> string) list \<Rightarrow> AppError + Claims" where
  "admin_user A env now_secs headers =
     (case auth_user A env now_secs headers of
        Inl e \<Rightarrow> Inl e
      | Inr c \<Rightarrow> if cl_role c \<noteq> ''Admin'' then Inl (Forbidden ''Admin access required'') else Inr c)"

definition me :: "auth_crates \<Rightarrow> env \<Rightarrow> int \<Rightarrow> (string \<times> string) list \<Rightarrow> AppError + string \<times> string \<times> string" where
  "me A env now_secs headers =
     (case auth_user A env now_secs headers of Inl e \<Rightarrow> Inl e | Inr c \<Rightarrow> Inr (cl_sub c, cl_email c, cl_role c))"

section \<open>Sign-up and login\<close>

definition user_by_email :: "string \<Rightarrow> tables \<Rightarrow> User option" where
  "user_by_email e T = find (\<lambda>u. us_email u = e) (users T)"

definition insert_user :: "User \<Rightarrow> tables \<Rightarrow> tables" where
  "insert_user u T = T\<lparr>users := users T @ [u]\<rparr>"

definition no_connection :: status_error where
  "no_connection = (500, ''Database connection failed.'')"

definition answer_with_token ::
    "auth_crates \<Rightarrow> int \<Rightarrow> string \<Rightarrow> string \<Rightarrow> User \<Rightarrow> status_error + AuthResponse" where
  "answer_with_token A now_secs secret failure u =
     (case create_jwt A now_secs secret u of
        None \<Rightarrow> Inl (500, failure)
      | Some token \<Rightarrow> Inr \<lparr>ar_token = token, ar_user = to_public u\<rparr>)"

text \<open>
  A failed look-up counts as a free address; the unique index is what decides. \<open>new_id\<close> and \<open>now\<close> are the
  serial number and the default of the row.
\<close>

definition signup ::
    "auth_crates \<Rightarrow> int \<Rightarrow> string \<Rightarrow> string \<Rightarrow> user_id \<Rightarrow> timestamp \<Rightarrow> SignupRequest \<Rightarrow> ('r, 'x) http_scheme \<Rightarrow>
     (status_error + AuthResponse) \<times> ('r, 'x) http_scheme" where
  "signup A now_secs secret salt new_id now req st =
     (if trim (sg_email req) = [] then (Inl (400, ''Email address is required.''), st)
      else if CHR ''@'' \<notin> set (sg_email req) then (Inl (400, ''Please enter a valid email address.''), st)
      else if length (sg_password req) < 6 then (Inl (400, ''Password must be at least 6 characters.''), st)
      else
        (case on_db db_get st of
           (False, st1) \<Rightarrow> (Inl no_connection, st1)
         | (True, st1) \<Rightarrow>
             (case on_db (query (user_by_email (sg_email req))) st1 of
                (Some (Some _), st2) \<Rightarrow> (Inl (409, ''An account with this email already exists.''), st2)
              | (_, st2) \<Rightarrow>
                  (case bcrypt_hash A salt (sg_password req) of
                     None \<Rightarrow> (Inl (500, ''Failed to process password.''), st2)
                   | Some hashed \<Rightarrow>
                       (let u = \<lparr>us_id = new_id, us_email = sg_email req, us_password_hash = hashed,
                                 us_role = (if sg_role req = Some ''admin'' then UserRole_Admin else UserRole_User),
                                 us_created_at = now\<rparr>
                        in case on_db (execute (insert_user u)) st2 of
                             (Inl _, st3) \<Rightarrow> (Inl (500, ''Failed to create account.''), st3)
                           | (Inr _, st3) \<Rightarrow>
                               (answer_with_token A now_secs secret ''Account created but token failed.'' u, st3))))))"

definition login ::
    "auth_crates \<Rightarrow> int \<Rightarrow> string \<Rightarrow> LoginRequest \<Rightarrow> ('r, 'x) http_scheme \<Rightarrow>
     (status_error + AuthResponse) \<times> ('r, 'x) http_scheme" where
  "login A now_secs secret req st =
     (if trim (lg_email req) = [] then (Inl (400, ''Email address is required.''), st)
      else if lg_password req = [] then (Inl (400, ''Password is required.''), st)
      else
        (case on_db db_get st of
           (False, st1) \<Rightarrow> (Inl no_connection, st1)
         | (True, st1) \<Rightarrow>
             (case on_db (query (user_by_email (lg_email req))) st1 of
                (Some (Some u), st2) \<Rightarrow>
                  (case bcrypt_verify A (lg_password req) (us_password_hash u) of
                     None \<Rightarrow> (Inl (500, ''Failed to verify password.''), st2)
                   | Some False \<Rightarrow> (Inl (401, ''Incorrect password.''), st2)
                   | Some True \<Rightarrow> (answer_with_token A now_secs secret ''Login succeeded but token failed.'' u, st2))
              | (_, st2) \<Rightarrow> (Inl (401, ''No account found with that email.''), st2))))"

section \<open>Google login\<close>

definition parse_i64_or_0 :: "string \<Rightarrow> int" where
  "parse_i64_or_0 s = (case parse_within in_i64 s of Some n \<Rightarrow> n | None \<Rightarrow> 0)"

definition check_google ::
    "auth_crates \<Rightarrow> env \<Rightarrow> int \<Rightarrow> string \<Rightarrow> status_error + string" where
  "check_google A env now_secs credential =
     (case env ''GOOGLE_CLIENT_ID'' of
        None \<Rightarrow> Inl (503, ''Google login is not configured.'')
      | Some client_id \<Rightarrow>
          if trim credential = [] then Inl (400, ''Google credential is required.'')
          else case google_token_info A (trim credential) of
                 GoogleUnreachable \<Rightarrow> Inl (502, ''Google token verification failed.'')
               | GoogleRefused \<Rightarrow> Inl (401, ''Invalid Google credential.'')
               | GoogleGarbled \<Rightarrow> Inl (401, ''Invalid Google token response.'')
               | GoogleTokenInfo aud email verified expiry \<Rightarrow>
                   if aud \<noteq> client_id \<or> verified \<noteq> ''true'' \<or> parse_i64_or_0 expiry \<le> now_secs
                   then Inl (401, ''Google credential validation failed.'')
                   else Inr (map lower (trim email)))"

text \<open>\<open>random_password\<close> is the password a new account gets.\<close>

definition google_login ::
    "auth_crates \<Rightarrow> env \<Rightarrow> int \<Rightarrow> string \<Rightarrow> string \<Rightarrow> string \<Rightarrow> user_id \<Rightarrow> timestamp \<Rightarrow> string \<Rightarrow> ('r, 'x) http_scheme \<Rightarrow>
     (status_error + AuthResponse) \<times> ('r, 'x) http_scheme" where
  "google_login A env now_secs secret salt random_password new_id now credential st =
     (case check_google A env now_secs credential of
        Inl e \<Rightarrow> (Inl e, st)
      | Inr email \<Rightarrow>
          (case on_db db_get st of
             (False, st1) \<Rightarrow> (Inl no_connection, st1)
           | (True, st1) \<Rightarrow>
               (case on_db (query (user_by_email email)) st1 of
                  (None, st2) \<Rightarrow> (Inl (500, ''Failed to find account.''), st2)
                | (Some (Some u), st2) \<Rightarrow>
                    (answer_with_token A now_secs secret ''Google login succeeded but token creation failed.'' u, st2)
                | (Some None, st2) \<Rightarrow>
                    (case bcrypt_hash A salt random_password of
                       None \<Rightarrow> (Inl (500, ''Failed to initialize Google account.''), st2)
                     | Some hashed \<Rightarrow>
                         (let u = \<lparr>us_id = new_id, us_email = email, us_password_hash = hashed, us_role = UserRole_User,
                                   us_created_at = now\<rparr>
                          in case on_db (execute (insert_user u)) st2 of
                               (Inl _, st3) \<Rightarrow> (Inl (500, ''Failed to create Google account.''), st3)
                             | (Inr _, st3) \<Rightarrow>
                                 (answer_with_token A now_secs secret
                                    ''Google login succeeded but token creation failed.'' u, st3))))))"

section \<open>The reset of an administrator's password\<close>

definition RESET_TTL_SECS :: int where
  "RESET_TTL_SECS = 60 * 15"

definition reset_key :: "string \<Rightarrow> string" where
  "reset_key email = ''admin:pwd_reset:'' @ email"

text \<open>\<open>token\<close> is the random token drawn; the answer carries it.\<close>

definition reset_request ::
    "'r redis \<Rightarrow> string \<Rightarrow> string \<Rightarrow> ('r, 'x) http_scheme \<Rightarrow> (status_error + string) \<times> ('r, 'x) http_scheme" where
  "reset_request R token email st =
     (if trim email = [] then (Inl (400, ''Email is required.''), st)
      else
        (case on_db db_get st of
           (False, st1) \<Rightarrow> (Inl no_connection, st1)
         | (True, st1) \<Rightarrow>
             (case on_db (query (user_by_email email)) st1 of
                (Some (Some u), st2) \<Rightarrow>
                  if us_role u \<noteq> UserRole_Admin then (Inl (403, ''No admin account found with that email.''), st2)
                  else
                    (case on_cache (send 0 (writing (SETPX R (reset_key email) token (RESET_TTL_SECS * 1000)))) st2 of
                       (None, st3) \<Rightarrow> (Inl (500, ''Cache error.''), st3)
                     | (Some _, st3) \<Rightarrow> (Inr token, st3))
              | (_, st2) \<Rightarrow> (Inl (404, ''No admin account found with that email.''), st2))))"

definition set_password :: "string \<Rightarrow> string \<Rightarrow> tables \<Rightarrow> tables" where
  "set_password email hashed T =
     T\<lparr>users := update_rows (\<lambda>u. us_email u = email) (\<lambda>u. u\<lparr>us_password_hash := hashed\<rparr>) (users T)\<rparr>"

definition reset_confirm ::
    "auth_crates \<Rightarrow> 'r redis \<Rightarrow> string \<Rightarrow> string \<Rightarrow> string \<Rightarrow> string \<Rightarrow> ('r, 'x) http_scheme \<Rightarrow>
     (status_error + unit) \<times> ('r, 'x) http_scheme" where
  "reset_confirm A R salt email token new_password st =
     (if length new_password < 8 then (Inl (400, ''Password must be at least 8 characters.''), st)
      else
        (case on_cache (send 0 (reading (GET R (reset_key email)))) st of
           (None, st1) \<Rightarrow> (Inl (500, ''Cache error.''), st1)
         | (Some None, st1) \<Rightarrow> (Inl (410, ''Reset token not found or has expired. Please request a new one.''), st1)
         | (Some (Some stored), st1) \<Rightarrow>
             if stored \<noteq> token then (Inl (401, ''Invalid reset token.''), st1)
             else
               (case bcrypt_hash A salt new_password of
                  None \<Rightarrow> (Inl (500, ''Failed to hash password.''), st1)
                | Some hashed \<Rightarrow>
                    (case on_db db_get st1 of
                       (False, st2) \<Rightarrow> (Inl no_connection, st2)
                     | (True, st2) \<Rightarrow>
                         (case on_db (execute (set_password email hashed)) st2 of
                            (Inl _, st3) \<Rightarrow> (Inl (500, ''Failed to update password.''), st3)
                          | (Inr _, st3) \<Rightarrow>
                              if user_by_email email (rows (hs_db st3)) = None then (Inl (404, ''User not found.''), st3)
                              else (Inr (), snd (on_cache (send 0 (writing (DEL R (reset_key email)))) st3)))))))"

end
