(* ===== verification/Accounts_Props.thy ===== *)
theory Accounts_Props
  imports Accounts
begin

text \<open>
  Properties of accounts: identities are never changed, a password only with the token of a reset, a login answer
  needs the password of the account, and a token identifies its user to the extractors.
\<close>

section \<open>What the handlers do to the users\<close>

definition identity :: "User \<Rightarrow> user_id \<times> string \<times> UserRole" where
  "identity u = (us_id u, us_email u, us_role u)"

text \<open>Rows are only added, and of an existing row only the password hash changes.\<close>

definition users_advance :: "tables \<Rightarrow> tables \<Rightarrow> bool" where
  "users_advance T T' \<longleftrightarrow> (\<exists>new. map identity (users T') = map identity (users T) @ new) \<and>
     T' = T\<lparr>users := users T'\<rparr> \<and> (tables_ok T \<longrightarrow> tables_ok T')"

lemma users_advance_refl [simp]: "users_advance T T"
  by (simp add: users_advance_def)

lemma users_advance_trans: "users_advance T T1 \<Longrightarrow> users_advance T1 T2 \<Longrightarrow> users_advance T T2"
proof -
  assume a: "users_advance T T1" "users_advance T1 T2"
  then have "T2 = T\<lparr>users := users T2\<rparr>"
    by (cases T; cases T1; cases T2) (simp add: users_advance_def)
  with a show ?thesis unfolding users_advance_def by auto
qed

lemma on_db_rows_same:
  "on_db db_get st = (b, st1) \<Longrightarrow> rows (hs_db st1) = rows (hs_db st)"
  "on_db (query q) st = (x, st1) \<Longrightarrow> rows (hs_db st1) = rows (hs_db st) \<and> (x = None \<or> x = Some (q (rows (hs_db st))))"
  by (auto simp: on_db_def dest: db_getD queryD split: prod.splits)

lemma on_db_execute:
  assumes "on_db (execute f) st = (res, st1)"
  shows "rows (hs_db st1) = rows (hs_db st) \<or> rows (hs_db st1) = f (rows (hs_db st)) \<and> tables_ok (rows (hs_db st1))"
    and "res = Inr x \<Longrightarrow> rows (hs_db st1) = f (rows (hs_db st)) \<and> tables_ok (rows (hs_db st1))"
proof -
  obtain r d where e: "execute f (hs_db st) = (r, d)" by (cases "execute f (hs_db st)")
  with assms have "res = r" "st1 = st\<lparr>hs_db := d\<rparr>" by (simp_all add: on_db_def)
  with execute_cases [OF e] execute_Inr [of f "hs_db st" x d] e
  show "rows (hs_db st1) = rows (hs_db st) \<or> rows (hs_db st1) = f (rows (hs_db st)) \<and> tables_ok (rows (hs_db st1))"
    and "res = Inr x \<Longrightarrow> rows (hs_db st1) = f (rows (hs_db st)) \<and> tables_ok (rows (hs_db st1))" by auto
qed

lemma on_cache_db [simp]: "hs_db (snd (on_cache f st)) = hs_db st"
  by (simp add: on_cache_def split: prod.split)

lemma on_cache_dbD: "on_cache f st = (x, st1) \<Longrightarrow> hs_db st1 = hs_db st"
  by (auto simp: on_cache_def split: prod.splits)

lemma insert_user_advance:
  "on_db (execute (insert_user u)) st = (res, st1) \<Longrightarrow> users_advance (rows (hs_db st)) (rows (hs_db st1))"
  using on_db_execute(1) [of "insert_user u" st res st1] by (auto simp: users_advance_def insert_user_def)

lemma set_password_advance:
  "on_db (execute (set_password e h)) st = (res, st1) \<Longrightarrow> users_advance (rows (hs_db st)) (rows (hs_db st1))"
proof -
  assume "on_db (execute (set_password e h)) st = (res, st1)"
  moreover have "map identity (update_rows P (\<lambda>u. u\<lparr>us_password_hash := h\<rparr>) us) = map identity us" for P us
    by (rule map_update_rows) (simp add: identity_def)
  ultimately show ?thesis
    using on_db_execute(1) [of "set_password e h" st res st1] by (auto simp: users_advance_def set_password_def)
qed

lemma signup_advance: "users_advance (rows (hs_db st)) (rows (hs_db (snd (signup A n k salt i now req st))))"
  by (auto simp: signup_def Let_def dest!: on_db_rows_same insert_user_advance
      split: prod.splits option.splits sum.splits bool.splits)

lemma login_rows: "rows (hs_db (snd (login A n k req st))) = rows (hs_db st)"
  by (auto simp: login_def dest!: on_db_rows_same split: prod.splits option.splits bool.splits)

lemma google_advance: "users_advance (rows (hs_db st)) (rows (hs_db (snd (google_login A env n k salt pw i now cred st))))"
  by (auto simp: google_login_def Let_def dest!: on_db_rows_same insert_user_advance
      split: prod.splits option.splits sum.splits bool.splits)

lemma reset_request_rows: "rows (hs_db (snd (reset_request R t e st))) = rows (hs_db st)"
  by (auto simp: reset_request_def dest!: on_db_rows_same on_cache_dbD split: prod.splits option.splits bool.splits)

lemma reset_confirm_advance: "users_advance (rows (hs_db st)) (rows (hs_db (snd (reset_confirm A R salt e t pw st))))"
  by (auto simp: reset_confirm_def dest!: on_db_rows_same set_password_advance on_cache_dbD
      split: prod.splits option.splits sum.splits bool.splits)

section \<open>Runs\<close>

datatype account_op =
    Signup int string string user_id timestamp SignupRequest
  | Login int string LoginRequest
  | GoogleLogin env int string string string user_id timestamp string
  | ResetRequest string string
  | ResetConfirm string string string string

fun account_step :: "auth_crates \<Rightarrow> 'r redis \<Rightarrow> account_op \<Rightarrow> ('r, 'x) http_scheme \<Rightarrow> ('r, 'x) http_scheme" where
  "account_step A R (Signup n k salt i now req) st = snd (signup A n k salt i now req st)"
| "account_step A R (Login n k req) st = snd (login A n k req st)"
| "account_step A R (GoogleLogin env n k salt pw i now cred) st = snd (google_login A env n k salt pw i now cred st)"
| "account_step A R (ResetRequest t e) st = snd (reset_request R t e st)"
| "account_step A R (ResetConfirm salt e t pw) st = snd (reset_confirm A R salt e t pw st)"

definition account_run :: "auth_crates \<Rightarrow> 'r redis \<Rightarrow> account_op list \<Rightarrow> ('r, 'x) http_scheme \<Rightarrow> ('r, 'x) http_scheme" where
  "account_run A R ops st = fold (account_step A R) ops st"

lemma account_step_advances: "users_advance (rows (hs_db st)) (rows (hs_db (account_step A R op st)))"
  by (cases op) (simp_all add: signup_advance google_advance reset_confirm_advance login_rows reset_request_rows)

lemma account_run_advances: "users_advance (rows (hs_db st)) (rows (hs_db (account_run A R ops st)))"
  unfolding account_run_def
proof (induction ops arbitrary: st)
  case (Cons op ops)
  from users_advance_trans [OF account_step_advances Cons.IH [of "account_step A R op st"]] show ?case by simp
qed simp

section \<open>Tokens and passwords\<close>

lemma user_by_email_unique:
  "tables_ok T \<Longrightarrow> u \<in> set (users T) \<Longrightarrow> user_by_email (us_email u) T = Some u"
proof -
  assume "tables_ok T" and u: "u \<in> set (users T)"
  then have "distinct (map us_email (users T))" by (simp add: tables_ok_def keys_ok_def)
  moreover have "distinct (map us_email us) \<Longrightarrow> u \<in> set us \<Longrightarrow> find (\<lambda>v. us_email v = us_email u) us = Some u" for us
    by (induction us) (auto simp: image_iff)
  ultimately show ?thesis using u by (simp add: user_by_email_def)
qed

lemma answer_Inr:
  "answer_with_token A n k f u = Inr r \<Longrightarrow> create_jwt A n k u = Some (ar_token r) \<and> ar_user r = to_public u"
  by (auto simp: answer_with_token_def split: option.splits)

lemma create_jwt_decodes:
  assumes "auth_laws A" "create_jwt A now_secs k u = Some t" "later \<le> now_secs + 7 * 24 * 60 * 60"
  shows "jwt_decode A k later t = Some \<lparr>cl_sub = dec (us_id u), cl_email = us_email u, cl_role = role_text (us_role u),
    cl_exp = now_secs + 7 * 24 * 60 * 60\<rparr>"
  using assms by (auto simp: auth_laws_def create_jwt_def)

lemma auth_user_bearer: "auth_user A env m [(''authorization'', ''Bearer '' @ t)] = decode_token A env m t"
  by (simp add: auth_user_def strip_prefix_def)

lemma signup_Inr:
  assumes "signup A n k salt i now req st = (Inr r, st1)"
  obtains u h where "u \<in> set (users (rows (hs_db st1)))" "tables_ok (rows (hs_db st1))"
    "bcrypt_hash A salt (sg_password req) = Some h" "us_email u = sg_email req" "us_password_hash u = h" "us_id u = i"
    "us_role u = (if sg_role req = Some ''admin'' then UserRole_Admin else UserRole_User)"
    "create_jwt A n k u = Some (ar_token r)" "ar_user r = to_public u" "trim (sg_email req) \<noteq> []" "sg_password req \<noteq> []"
proof -
  from assms obtain st2 x h where h: "bcrypt_hash A salt (sg_password req) = Some h"
    and e: "on_db (execute (insert_user \<lparr>us_id = i, us_email = sg_email req, us_password_hash = h,
       us_role = (if sg_role req = Some ''admin'' then UserRole_Admin else UserRole_User), us_created_at = now\<rparr>)) st2 = (Inr x, st1)"
    and a: "answer_with_token A n k ''Account created but token failed.'' \<lparr>us_id = i, us_email = sg_email req, us_password_hash = h,
       us_role = (if sg_role req = Some ''admin'' then UserRole_Admin else UserRole_User), us_created_at = now\<rparr> = Inr r"
    and t: "trim (sg_email req) \<noteq> []" "\<not> length (sg_password req) < 6"
    by (auto simp: signup_def Let_def split: prod.splits option.splits sum.splits bool.splits if_splits)
  from on_db_execute(2) [OF e refl] show thesis
    by (intro that [OF _ _ h _ _ _ _ conjunct1 [OF answer_Inr [OF a]] conjunct2 [OF answer_Inr [OF a]]])
      (use t in \<open>auto simp: insert_user_def\<close>)
qed

lemma users_replaced_ok:
  assumes "tables_ok T" "map us_id us = map us_id (users T)" "map us_email us = map us_email (users T)"
  shows "tables_ok (T\<lparr>users := us\<rparr>)"
proof -
  from arg_cong [OF assms(2), of set] have "us_id ` set us = us_id ` set (users T)" by simp
  with assms show ?thesis by (simp add: tables_ok_def keys_ok_def refs_ok_def)
qed

lemma set_password_ok: "tables_ok T \<Longrightarrow> tables_ok (set_password e h T)"
  unfolding set_password_def by (rule users_replaced_ok) (simp_all add: map_update_rows)

lemma set_password_other:
  "u \<in> set (users T) \<Longrightarrow> us_email u \<noteq> e \<Longrightarrow> u \<in> set (users (set_password e h T))"
  by (auto simp: set_password_def set_update_rows)

lemma insert_user_keeps:
  "on_db (execute (insert_user v)) st = (res, st1) \<Longrightarrow> u \<in> set (users (rows (hs_db st))) \<Longrightarrow> u \<in> set (users (rows (hs_db st1)))"
  using on_db_execute(1) [of "insert_user v" st res st1] by (auto simp: insert_user_def)

lemma signup_keeps: "u \<in> set (users (rows (hs_db st))) \<Longrightarrow> u \<in> set (users (rows (hs_db (snd (signup A n k salt i now req st)))))"
  by (auto simp: signup_def Let_def dest!: on_db_rows_same intro: insert_user_keeps
      split: prod.splits option.splits sum.splits bool.splits)

lemma google_keeps:
  "u \<in> set (users (rows (hs_db st))) \<Longrightarrow> u \<in> set (users (rows (hs_db (snd (google_login A env n k salt pw i now cred st)))))"
  by (auto simp: google_login_def Let_def dest!: on_db_rows_same intro: insert_user_keeps
      split: prod.splits option.splits sum.splits bool.splits)

text \<open>How a confirmed reset changes the tables.\<close>

lemma reset_confirm_rows:
  assumes "reset_confirm A R salt e t pw st = (res, st1)"
  shows "rows (hs_db st1) = rows (hs_db st) \<or>
    (\<exists>h. bcrypt_hash A salt pw = Some h \<and> rows (hs_db st1) = set_password e h (rows (hs_db st)) \<and>
       GET R (reset_key e) (nodes (hs_cache st) ! 0) = Some t \<and> 8 \<le> length pw)"
proof -
  obtain x st2 where c: "on_cache (send 0 (reading (GET R (reset_key e)))) st = (x, st2)"
    by (cases "on_cache (send 0 (reading (GET R (reset_key e)))) st")
  have x: "x = None \<or> x = Some (GET R (reset_key e) (nodes (hs_cache st) ! 0))"
  proof -
    obtain y w where s: "send 0 (reading (GET R (reset_key e))) (hs_cache st) = (y, w)"
      by (cases "send 0 (reading (GET R (reset_key e))) (hs_cache st)")
    with c have "x = y" by (simp add: on_cache_def)
    with send_Some [of 0 "reading (GET R (reset_key e))" "hs_cache st" _ w] s show ?thesis
      by (cases y) (auto simp: reading_def)
  qed
  note r = on_cache_dbD [OF c]
  show ?thesis
  proof (cases "\<not> length pw < 8 \<and> x = Some (Some t)")
    case False
    with assms c r show ?thesis
      by (auto simp: reset_confirm_def split: if_splits option.splits)
  next
    case True
    with x have g: "GET R (reset_key e) (nodes (hs_cache st) ! 0) = Some t" "8 \<le> length pw" by auto
    show ?thesis
    proof (cases "bcrypt_hash A salt pw")
      case None
      with assms c r True show ?thesis by (auto simp: reset_confirm_def)
    next
      case (Some h)
      obtain b st3 where d: "on_db db_get st2 = (b, st3)" by (cases "on_db db_get st2")
      obtain y st4 where ex: "on_db (execute (set_password e h)) st3 = (y, st4)" by (cases "on_db (execute (set_password e h)) st3")
      from assms c True Some d ex have "hs_db st1 = hs_db st3 \<or> hs_db st1 = hs_db st4"
        by (auto simp: reset_confirm_def split: if_splits sum.splits bool.splits)
      with on_db_rows_same(1) [OF d] on_db_execute(1) [OF ex] r g Some show ?thesis by auto
    qed
  qed
qed

lemma account_step_keeps:
  assumes "u \<in> set (users (rows (hs_db st)))" "\<And>salt t pw. op \<noteq> ResetConfirm salt (us_email u) t pw"
  shows "u \<in> set (users (rows (hs_db (account_step A R op st))))"
proof (cases op)
  case (ResetConfirm salt e t pw)
  obtain res st1 where r: "reset_confirm A R salt e t pw st = (res, st1)" by (cases "reset_confirm A R salt e t pw st")
  have "us_email u \<noteq> e" using assms(2) ResetConfirm by blast
  with reset_confirm_rows [OF r] assms(1) set_password_other r ResetConfirm show ?thesis by auto
qed (use assms(1) in \<open>simp_all add: signup_keeps google_keeps login_rows reset_request_rows\<close>)

lemma account_run_keeps:
  assumes "u \<in> set (users (rows (hs_db st)))" "\<And>salt t pw. ResetConfirm salt (us_email u) t pw \<notin> set ops"
  shows "u \<in> set (users (rows (hs_db (account_run A R ops st))))"
  using assms unfolding account_run_def
proof (induction ops arbitrary: st)
  case (Cons op ops)
  have "u \<in> set (users (rows (hs_db (account_step A R op st))))" using Cons.prems by (intro account_step_keeps) auto
  with Cons.IH [of "account_step A R op st"] Cons.prems(2) show ?case by simp
qed simp

lemma login_earned:
  assumes "login A n k req st = (Inr r, st1)"
  shows "rows (hs_db st1) = rows (hs_db st) \<and>
    (\<exists>u \<in> set (users (rows (hs_db st))). us_email u = lg_email req \<and> ar_user r = to_public u \<and>
       bcrypt_verify A (lg_password req) (us_password_hash u) = Some True \<and> create_jwt A n k u = Some (ar_token r))"
proof -
  from assms obtain st2 b st3 u where g: "on_db db_get st = (b, st2)"
    and q: "on_db (query (user_by_email (lg_email req))) st2 = (Some (Some u), st3)"
    and v: "bcrypt_verify A (lg_password req) (us_password_hash u) = Some True"
    and a: "answer_with_token A n k ''Login succeeded but token failed.'' u = Inr r" and st3: "st1 = st3"
    by (auto simp: login_def split: prod.splits option.splits bool.splits if_splits)
  from on_db_rows_same(1) [OF g] on_db_rows_same(2) [OF q] st3
  have "rows (hs_db st1) = rows (hs_db st)" "user_by_email (lg_email req) (rows (hs_db st)) = Some u" by simp_all
  then show ?thesis using v answer_Inr [OF a] by (auto simp: user_by_email_def find_Some_iff)
qed

text \<open>A concrete instance of the other programs: hashes are the passwords, a token is its claims in letters.\<close>

definition field :: "string \<Rightarrow> string" where
  "field x = concat (map (\<lambda>c. [CHR ''a'', c]) x) @ ''b''"

fun take_field :: "string \<Rightarrow> string \<times> string" where
  "take_field (t # c # rest) = (if t = CHR ''a'' then (case take_field rest of (x, y) \<Rightarrow> (c # x, y)) else ([], c # rest))"
| "take_field _ = ([], [])"

lemma take_field_field: "take_field (field x @ y) = (x, y)"
  by (induction x) (cases y; simp add: field_def)+

definition token_of :: "string \<Rightarrow> Claims \<Rightarrow> string" where
  "token_of k c = field k @ field (cl_sub c) @ field (cl_email c) @ field (cl_role c) @ field (dec (cl_exp c))"

definition claims_of :: "string \<Rightarrow> int \<Rightarrow> string \<Rightarrow> Claims option" where
  "claims_of k now_secs t =
     (case take_field t of (k', t1) \<Rightarrow> case take_field t1 of (a, t2) \<Rightarrow> case take_field t2 of (b, t3) \<Rightarrow>
      case take_field t3 of (c, t4) \<Rightarrow> case take_field t4 of (d, _) \<Rightarrow>
        (case parse_dec d of
           Some e \<Rightarrow> if k' = k \<and> now_secs \<le> e then Some \<lparr>cl_sub = a, cl_email = b, cl_role = c, cl_exp = e\<rparr> else None
         | None \<Rightarrow> None))"

definition plain_auth :: auth_crates where
  "plain_auth = \<lparr>bcrypt_hash = (\<lambda>_ p. Some p), bcrypt_verify = (\<lambda>p h. Some (p = h)), jwt_encode = (\<lambda>k c. Some (token_of k c)),
     jwt_decode = claims_of, google_token_info = (\<lambda>_. GoogleUnreachable)\<rparr>"

lemma claims_of_token: "now_secs \<le> cl_exp c \<Longrightarrow> claims_of k now_secs (token_of k c) = Some c"
  using take_field_field [of "dec (cl_exp c)" "[]"] by (simp add: claims_of_def token_of_def take_field_field)

lemma plain_auth_laws: "auth_laws plain_auth"
  by (simp add: auth_laws_def plain_auth_def claims_of_token)

definition one_user :: "UserRole \<Rightarrow> keyspace http" where
  "one_user r = \<lparr>hs_cache = fresh_world 1,
     hs_db = \<lparr>rows = \<lparr>users = [\<lparr>us_id = 7, us_email = ''a@b'', us_password_hash = ''secret1'', us_role = r, us_created_at = 0\<rparr>],
       schedules = [], schedule_seats = [], orders = [], tickets = [], user_audits = [], payment_requests = [], outbox_events = []\<rparr>,
     db_faults = []\<rparr>\<rparr>"

definition visitor :: "string option \<Rightarrow> SignupRequest" where
  "visitor role = \<lparr>sg_email = ''c@d'', sg_password = ''hunter22'', sg_role = role\<rparr>"

lemma one_user_ok: "tables_ok (rows (hs_db (one_user r)))"
  by (simp add: one_user_def tables_ok_def keys_ok_def refs_ok_def)

lemmas account_eval = one_user_def visitor_def plain_auth_def signup_def login_def reset_request_def reset_confirm_def on_db_def on_cache_def
  user_by_email_def insert_user_def set_password_def execute_def checked_def db_fault_def db_get_def query_def tables_ok_def keys_ok_def refs_ok_def
  answer_with_token_def create_jwt_def to_public_def trim_def is_space_def update_rows_def

section \<open>Properties\<close>

text \<open>
  C24 (identities are kept). Along any run of the account handlers, with any failures, no user disappears and none changes
  id, address or role, other tables are untouched, and the constraints hold, the unique address among them.
\<close>

theorem accounts_keep_identities:
  assumes "tables_ok (rows (hs_db st))" "T = rows (hs_db (account_run A R ops st))"
  shows "(\<exists>new. map identity (users T) = map identity (users (rows (hs_db st))) @ new) \<and>
    T = (rows (hs_db st))\<lparr>users := users T\<rparr> \<and> tables_ok T"
  using account_run_advances [of st A R ops] assms by (auto simp: users_advance_def)

theorem accounts_keep_identities_witness:
  "tables_ok (rows (hs_db (account_run plain_auth mem_redis
     [Signup 0 ''k'' ''s'' 8 0 (visitor None), Login 1 ''k'' \<lparr>lg_email = ''a@b'', lg_password = ''x''\<rparr>] (one_user UserRole_User))))"
  using accounts_keep_identities [OF one_user_ok refl] by blast

text \<open>
  C21 (a password is replaced only by its reset). When a request changes the password hash of a user at all, it is the
  confirmation of a reset for that address, it carries the token Redis had for the address, and the new hash is
  that of the password it brought.
\<close>

theorem password_change_needs_token:
  assumes "u \<in> set (users (rows (hs_db st)))" "u \<notin> set (users (rows (hs_db (account_step A R op st))))"
  shows "\<exists>salt t pw. op = ResetConfirm salt (us_email u) t pw \<and>
    GET R (reset_key (us_email u)) (nodes (hs_cache st) ! 0) = Some t \<and> 8 \<le> length pw \<and>
    (\<exists>h. bcrypt_hash A salt pw = Some h \<and>
       u\<lparr>us_password_hash := h\<rparr> \<in> set (users (rows (hs_db (account_step A R op st)))))"
proof -
  from account_step_keeps [OF assms(1)] assms(2) obtain salt t pw where op: "op = ResetConfirm salt (us_email u) t pw" by metis
  obtain res st1 where r: "reset_confirm A R salt (us_email u) t pw st = (res, st1)"
    by (cases "reset_confirm A R salt (us_email u) t pw st")
  with op have st1: "account_step A R op st = st1" by simp
  with reset_confirm_rows [OF r] assms obtain h where h: "bcrypt_hash A salt pw = Some h"
    "rows (hs_db st1) = set_password (us_email u) h (rows (hs_db st))"
    "GET R (reset_key (us_email u)) (nodes (hs_cache st) ! 0) = Some t" "8 \<le> length pw" by auto
  have "u\<lparr>us_password_hash := h\<rparr> \<in> set (users (rows (hs_db st1)))"
    using assms(1) h(2) by (auto simp: set_password_def intro: update_rows_hit)
  with op h st1 show ?thesis by blast
qed

theorem password_change_needs_token_witness:
  "\<exists>salt t pw. ResetConfirm ''s'' ''a@b'' ''tok'' ''hunter22'' = ResetConfirm salt ''a@b'' t pw \<and>
     GET mem_redis (reset_key ''a@b'') (nodes (hs_cache (snd (reset_request mem_redis ''tok'' ''a@b'' (one_user UserRole_Admin)))) ! 0) = Some t"
proof -
  let ?st = "snd (reset_request mem_redis ''tok'' ''a@b'' (one_user UserRole_Admin))"
  let ?u = "\<lparr>us_id = 7, us_email = ''a@b'', us_password_hash = ''secret1'', us_role = UserRole_Admin, us_created_at = 0\<rparr>"
  have st: "hs_db ?st = hs_db (one_user UserRole_Admin)" "GET mem_redis (reset_key ''a@b'') (nodes (hs_cache ?st) ! 0) = Some ''tok''"
    "faults (hs_cache ?st) = []"
    by (simp_all add: account_eval fresh_world_def writing_def mem_redis_simps GET_def RESET_TTL_SECS_def)
  then have "?u \<in> set (users (rows (hs_db ?st)))" by (simp add: one_user_def)
  moreover have "?u \<notin> set (users (rows (hs_db (account_step plain_auth mem_redis (ResetConfirm ''s'' ''a@b'' ''tok'' ''hunter22'') ?st))))"
    using st by (simp add: reset_confirm_def on_cache_def on_db_def reading_def plain_auth_def one_user_def execute_def checked_def
        set_password_def update_rows_def tables_ok_def keys_ok_def refs_ok_def user_by_email_def split: prod.split)
  ultimately show ?thesis using password_change_needs_token [of ?u ?st] by fastforce
qed

text \<open>
  C23 (sign up, then log in). An account that was signed up can log in with its password, with the same identity, after
  any requests of others, as long as its own password was not reset.
\<close>

theorem signup_then_login:
  assumes "auth_laws A" "\<forall>c. jwt_encode A k c \<noteq> None" "signup A n k salt i now req st = (Inr r, st1)"
    and "st2 = account_run A R ops st1" "\<forall>s t pw. ResetConfirm s (sg_email req) t pw \<notin> set ops" "db_faults (hs_db st2) = []"
  shows "\<exists>r'. fst (login A m k \<lparr>lg_email = sg_email req, lg_password = sg_password req\<rparr> st2) = Inr r' \<and> ar_user r' = ar_user r"
  using assms(3)
proof (rule signup_Inr)
  fix u h
  assume u: "u \<in> set (users (rows (hs_db st1)))" "tables_ok (rows (hs_db st1))" "bcrypt_hash A salt (sg_password req) = Some h"
    "us_email u = sg_email req" "us_password_hash u = h" "ar_user r = to_public u" "trim (sg_email req) \<noteq> []" "sg_password req \<noteq> []"
  have "u \<in> set (users (rows (hs_db st2)))" unfolding assms(4) using u(1,4) assms(5) by (intro account_run_keeps) auto
  moreover have "tables_ok (rows (hs_db st2))"
    unfolding assms(4) using account_run_advances [of st1 A R ops] u(2) by (simp add: users_advance_def)
  ultimately have f: "user_by_email (sg_email req) (rows (hs_db st2)) = Some u" using user_by_email_unique u(4) by metis
  have v: "bcrypt_verify A (sg_password req) (us_password_hash u) = Some True" using assms(1) u(3,5) by (simp add: auth_laws_def)
  obtain t where "create_jwt A m k u = Some t" using assms(2) by (auto simp: create_jwt_def)
  with f v u(6-8) assms(6) show ?thesis
    by (simp add: login_def on_db_def answer_with_token_def)
qed

theorem signup_then_login_witness:
  "\<exists>r r' st1. signup plain_auth 0 ''k'' ''s'' 8 0 (visitor None) (one_user UserRole_User) = (Inr r, st1) \<and>
     fst (login plain_auth 5 ''k'' \<lparr>lg_email = ''c@d'', lg_password = ''hunter22''\<rparr> st1) = Inr r' \<and> ar_user r' = ar_user r"
proof -
  obtain r st1 where s: "signup plain_auth 0 ''k'' ''s'' 8 0 (visitor None) (one_user UserRole_User) = (Inr r, st1)"
    and f: "db_faults (hs_db st1) = []"
    by (simp add: account_eval)
  have "st1 = account_run plain_auth mem_redis [] st1" by (simp add: account_run_def)
  from signup_then_login [OF plain_auth_laws _ s this, of 5] s f show ?thesis by (simp add: plain_auth_def visitor_def)
qed

text \<open>
  (a login answer is earned). A login that is answered with a token names an account of that address whose stored hash
  the password verified against; the token is that account's, and nothing was written.
\<close>

theorem login_needs_password:
  assumes "login A n k req st = (Inr r, st1)"
  shows "rows (hs_db st1) = rows (hs_db st) \<and>
    (\<exists>u \<in> set (users (rows (hs_db st))). us_email u = lg_email req \<and> ar_user r = to_public u \<and>
       bcrypt_verify A (lg_password req) (us_password_hash u) = Some True \<and> create_jwt A n k u = Some (ar_token r))"
  using assms by (rule login_earned)

theorem login_needs_password_witness:
  "\<exists>r st1. login plain_auth 0 ''k'' \<lparr>lg_email = ''a@b'', lg_password = ''secret1''\<rparr> (one_user UserRole_User) = (Inr r, st1) \<and>
     rows (hs_db st1) = rows (hs_db (one_user UserRole_User))"
proof -
  obtain r st1 where l: "login plain_auth 0 ''k'' \<lparr>lg_email = ''a@b'', lg_password = ''secret1''\<rparr> (one_user UserRole_User) = (Inr r, st1)"
    by (simp add: account_eval)
  from login_needs_password [OF l] l show ?thesis by blast
qed

text \<open>
  C22 (a token identifies its user). With one secret for the service, the token of a login is accepted by the extractor
  for seven days, as the user who logged in, and by the administrators' extractor exactly when that user is one.
\<close>

theorem token_identifies_user:
  assumes "auth_laws A" "env ''JWT_SECRET'' = Some k" "login A n (server_secret env) req st = (Inr r, st1)"
    and "m \<le> n + 7 * 24 * 60 * 60" "in_i32 (upub_id (ar_user r))"
    and "headers = [(''authorization'', ''Bearer '' @ ar_token r)]"
  shows "\<exists>c. auth_user A env m headers = Inr c \<and> user_id_from_claims c = Inr (upub_id (ar_user r)) \<and>
    me A env m headers = Inr (dec (upub_id (ar_user r)), lg_email req, upub_role (ar_user r)) \<and>
    (admin_user A env m headers = Inr c \<longleftrightarrow> upub_role (ar_user r) = ''Admin'')"
proof -
  from login_earned [OF assms(3)] obtain u where u: "us_email u = lg_email req" "ar_user r = to_public u"
    "create_jwt A n (server_secret env) u = Some (ar_token r)" by blast
  have "decode_secret env = server_secret env" using assms(2) by (simp add: decode_secret_def server_secret_def)
  with create_jwt_decodes [OF assms(1) u(3) assms(4)] u(1,2) assms(5) show ?thesis
    unfolding admin_user_def me_def assms(6) auth_user_bearer
    by (simp add: decode_token_def user_id_from_claims_def to_public_def)
qed

theorem token_identifies_user_witness:
  "\<exists>r st1. login plain_auth 0 ''k'' \<lparr>lg_email = ''a@b'', lg_password = ''secret1''\<rparr> (one_user UserRole_User) = (Inr r, st1) \<and>
     me plain_auth (\<lambda>_. Some ''k'') 60 [(''authorization'', ''Bearer '' @ ar_token r)] = Inr (''7'', ''a@b'', ''User'')"
proof -
  let ?e = "\<lambda>_. Some ''k''" and ?req = "\<lparr>lg_email = ''a@b'', lg_password = ''secret1''\<rparr>"
  obtain r st1 where l: "login plain_auth 0 (server_secret ?e) ?req (one_user UserRole_User) = (Inr r, st1)"
    and u: "ar_user r = \<lparr>upub_id = 7, upub_email = ''a@b'', upub_role = ''User''\<rparr>"
    by (simp add: account_eval role_text_def)
  from token_identifies_user [OF plain_auth_laws refl l, of 60, OF _ _ refl] u
  have "me plain_auth ?e 60 [(''authorization'', ''Bearer '' @ ar_token r)] = Inr (dec 7, ''a@b'', ''User'')"
    by (auto simp: in_i32_def)
  moreover have "dec 7 = ''7''" by (rule dec_7)
  ultimately show ?thesis using l by (simp add: server_secret_def)
qed

text \<open>
  (anyone can become an administrator). The sign-up route takes the role from the request: whoever names the role
  \<open>admin\<close> gets an account whose token the administrators' extractor accepts.
\<close>

theorem signup_makes_admins:
  assumes "auth_laws A" "env ''JWT_SECRET'' = Some k" "sg_role req = Some ''admin''"
    and "signup A n (server_secret env) salt i now req st = (Inr r, st1)" "m \<le> n + 7 * 24 * 60 * 60"
  shows "\<exists>c. admin_user A env m [(''authorization'', ''Bearer '' @ ar_token r)] = Inr c"
  using assms(4)
proof (rule signup_Inr)
  fix u h
  assume u: "us_role u = (if sg_role req = Some ''admin'' then UserRole_Admin else UserRole_User)"
    "create_jwt A n (server_secret env) u = Some (ar_token r)"
  have "decode_secret env = server_secret env" using assms(2) by (simp add: decode_secret_def server_secret_def)
  with create_jwt_decodes [OF assms(1) u(2) assms(5)] u(1) assms(3) show ?thesis
    unfolding admin_user_def auth_user_bearer by (simp add: decode_token_def role_text_def)
qed

theorem signup_makes_admins_witness:
  "\<exists>r st1 c. signup plain_auth 0 ''k'' ''s'' 8 0 (visitor (Some ''admin'')) (one_user UserRole_User) = (Inr r, st1) \<and>
     admin_user plain_auth (\<lambda>_. Some ''k'') 60 [(''authorization'', ''Bearer '' @ ar_token r)] = Inr c"
proof -
  let ?e = "\<lambda>_. Some ''k''"
  obtain r st1 where s: "signup plain_auth 0 (server_secret ?e) ''s'' 8 0 (visitor (Some ''admin'')) (one_user UserRole_User) = (Inr r, st1)"
    by (simp add: account_eval)
  from signup_makes_admins [OF plain_auth_laws refl _ s, of 60] s show ?thesis by (auto simp: visitor_def server_secret_def)
qed

text \<open>
  (a reset needs no secret). The route that opens a reset answers whoever asks with the token itself: without any
  credential, and with the address of an administrator alone, two requests replace that account's password.
\<close>

theorem reset_takes_over:
  assumes "redis_service R" "faults (hs_cache st) = []" "nodes (hs_cache st) \<noteq> []" "db_faults (hs_db st) = []"
    and "tables_ok (rows (hs_db st))" "u \<in> set (users (rows (hs_db st)))" "us_role u = UserRole_Admin"
    and "trim (us_email u) \<noteq> []" "8 \<le> length pw" "bcrypt_hash A salt pw = Some h"
    and "reset_request R t (us_email u) st = (res, st1)"
  shows "res = Inr t \<and> (\<exists>st2. reset_confirm A R salt (us_email u) t pw st1 = (Inr (), st2) \<and>
    u\<lparr>us_password_hash := h\<rparr> \<in> set (users (rows (hs_db st2))))"
proof -
  have f: "user_by_email (us_email u) (rows (hs_db st)) = Some u" by (rule user_by_email_unique [OF assms(5,6)])
  have req: "res = Inr t" "hs_db st1 = hs_db st" "faults (hs_cache st1) = []"
    "GET R (reset_key (us_email u)) (nodes (hs_cache st1) ! 0) = Some t"
    using assms(11) f assms(2-4,7,8) redis_service.look_SETPX [OF assms(1)]
    by (auto simp: reset_request_def on_db_def on_cache_def writing_def RESET_TTL_SECS_def GET_def redis_service.look_SETPX [OF assms(1)])
  have mem: "u\<lparr>us_password_hash := h\<rparr> \<in> set (users (set_password (us_email u) h (rows (hs_db st))))"
    using assms(6) by (auto simp: set_password_def intro: update_rows_hit)
  then have new: "user_by_email (us_email u) (set_password (us_email u) h (rows (hs_db st))) \<noteq> None"
    by (auto simp: user_by_email_def find_None_iff)
  have "execute (set_password (us_email u) h) (hs_db st) = (Inr (), (hs_db st)\<lparr>rows := set_password (us_email u) h (rows (hs_db st))\<rparr>)"
    using assms(4) set_password_ok [OF assms(5)] by (simp add: execute_def checked_def)
  with req new assms(4,9,10) have "\<exists>st2. reset_confirm A R salt (us_email u) t pw st1 = (Inr (), st2) \<and>
      rows (hs_db st2) = set_password (us_email u) h (rows (hs_db st))"
    by (auto simp: reset_confirm_def on_db_def on_cache_def reading_def split: option.splits prod.splits)
  with mem req(1) show ?thesis by auto
qed

theorem reset_takes_over_witness:
  "\<exists>st1 st2. reset_request mem_redis ''tok'' ''a@b'' (one_user UserRole_Admin) = (Inr ''tok'', st1) \<and>
     reset_confirm plain_auth mem_redis ''s'' ''a@b'' ''tok'' ''hunter22'' st1 = (Inr (), st2)"
proof -
  let ?u = "\<lparr>us_id = 7, us_email = ''a@b'', us_password_hash = ''secret1'', us_role = UserRole_Admin, us_created_at = 0\<rparr>"
  obtain res st1 where r: "reset_request mem_redis ''tok'' (us_email ?u) (one_user UserRole_Admin) = (res, st1)"
    by (cases "reset_request mem_redis ''tok'' (us_email ?u) (one_user UserRole_Admin)")
  have "?u \<in> set (users (rows (hs_db (one_user UserRole_Admin))))" by (simp add: one_user_def)
  from reset_takes_over [OF mem.redis_service_axioms _ _ _ one_user_ok this _ _ _ _ r, of "''hunter22''" plain_auth "''s''" "''hunter22''"] r
  show ?thesis by (auto simp: one_user_def fresh_world_def plain_auth_def trim_def is_space_def)
qed

text \<open>
  (two default secrets). Without the variable \<open>JWT_SECRET\<close> the service signs with one constant and verifies with
  another: the extractor takes a token made with the word \<open>secret\<close>.
\<close>

theorem default_secrets_differ:
  assumes "env ''JWT_SECRET'' = None" "jwt_decode A ''secret'' m t = Some c"
  shows "server_secret env \<noteq> decode_secret env \<and> auth_user A env m [(''authorization'', ''Bearer '' @ t)] = Inr c"
  using assms unfolding auth_user_bearer by (simp add: server_secret_def decode_secret_def decode_token_def)

theorem default_secrets_differ_witness:
  "auth_user plain_auth (\<lambda>_. None) 0 [(''authorization'', ''Bearer '' @ token_of ''secret'' \<lparr>cl_sub = ''1'', cl_email = [], cl_role = ''Admin'', cl_exp = 9\<rparr>)] =
     Inr \<lparr>cl_sub = ''1'', cl_email = [], cl_role = ''Admin'', cl_exp = 9\<rparr>"
  by (rule conjunct2 [OF default_secrets_differ]) (simp_all add: plain_auth_def claims_of_token)

end
