(* ===== verification/Spec2Isabelle.thy ===== *)
theory Spec2Isabelle
  imports Gateway_Api Gateway_Props Lock_Backend Lock_Server_Props Booking_System List_Cache Search_Props Index_Blocked Accounts_Props
begin

text \<open>
  BookIt, a seat-booking system of Rust services.

  \<^bold>\<open>The program.\<close> A user opens a schedule, locks seats, pays, and gets a ticket by mail. The gateway
  (\<open>src/apps/gateway-keeper\<close>) admits lock and cancel requests: per schedule an actor keeps one admission flag per
  seat, the seat locks themselves are keys of several Redis servers (\<open>src/packages/redis-conn\<close>), and everything it
  decides is announced on Redis channels and queued for the lock server (\<open>src/apps/lock-server\<close>), which repeats the
  metadata, releases locks and, as an elected updater, settles the leases that ran out. The HTTP API
  (\<open>src/apps/http-server\<close>) takes payment and cancellation requests and writes them with an event into the shared
  PostgreSQL database (\<open>src/packages/db\<close>); the outbox server (\<open>src/apps/outbox-server\<close>) publishes the events; the
  payment processor (\<open>src/apps/payment-processor\<close>) turns them into orders or refunds, with events of their own; the
  notification worker (\<open>src/apps/notification-worker\<close>) issues tickets and sends mails for those.

  \<^bold>\<open>The world.\<close> \<open>Redis_Service\<close> has a server as the locale \<open>redis_service\<close>: its operations are parameters, its laws
  the documented effect of each command on \<open>look\<close>, instantiated by a server in memory. A \<open>world\<close> is a list of such
  servers with a schedule of faults: each exchange is delivered, refused, or takes effect and loses its reply.
  \<open>Booking_DB\<close> has the tables with the keys and references of the migrations, checked on every statement, and
  transactions that commit, roll back, or commit and lose the reply. Third-party functions (parsing and printing of
  UUIDs, decimals and JSON text, HMAC, JWT, mail, PDF, broker, provider) are parameters; \<open>crates\<close>, \<open>pay_crates\<close> and
  \<open>notify_crates\<close> collect them. Machine integers of 32 and 64 bits are integers with their casts written out
  (\<open>as_i32\<close>, \<open>as_u64\<close>), bytes and the bitmap's two-bit fields are words; identifiers are words of 128 bits.

  \<^bold>\<open>Theories and what their lemmas show.\<close>

  \<^item> \<open>Bookit_Prelude\<close>, \<open>Redis_Keys\<close> (\<open>keys.rs\<close>), \<open>Wire_Format\<close> (\<open>adapter.rs\<close>, queue entries): casts, decimal
  printing and parsing, every key builder with injectivity and disjointness of the key families, the event type
  with its tagged JSON encoding and decoding.

  \<^item> \<open>Seat_Lock\<close> states the contract of a seat lock as the locales \<open>exclusive\<close> (a lease with one holder) and
  \<open>seat_lock\<close>; \<open>Single_Node_Lock\<close> (\<open>single_node_lock.rs\<close>) and \<open>Cluster_Lock\<close> (\<open>cluster_lock.rs\<close>) model all
  operations with their scripts and interpret the contract; \<open>Single_Node_Props\<close> has the single winner, the holder's
  safety, the bitmap. \<open>Lock_Backend\<close> (\<open>lib.rs\<close>, \<open>seat_lock.rs\<close>, \<open>db.rs\<close>) has the retry loops, which end, and the
  trait object.

  \<^item> \<open>Show_Actor\<close>, \<open>Gateway\<close> (\<open>state_active.rs\<close>) and \<open>Gateway_Api\<close> (\<open>main.rs\<close>, \<open>proxy.rs\<close>, \<open>grpc_service.rs\<close>):
  admission, eviction with its atomic accesses interleaved as a step relation, locking, cancelling, expiry, the
  lifecycle of schedules, handlers and proxy. \<open>Gateway_Props\<close> shows that lock answers are truthful and that the
  admission flags are those of the seats in progress. \<open>Circuit_Breaker\<close> answers as the history of successes and
  failures demands;
  \<open>Rate_Limit\<close> equals a reference window.

  \<^item> \<open>Lock_Server\<close> with \<open>Lock_Server_Props\<close>: queue messages, retries, the elected updater, acknowledgements.

  \<^item> \<open>Payments_Api\<close> with \<open>Payments_Api_Props\<close> (\<open>payments.rs\<close>, \<open>errors.rs\<close>): payment requests with their
  idempotency keys and checkout keys, provider orders, the checkout summary, cancellation requests; handlers are split
  where other requests can come in between.

  \<^item> \<open>Payment_Processor\<close> with \<open>Payment_Props\<close>; \<open>Outbox\<close> with \<open>Outbox_Props\<close>; \<open>Notification\<close> with
  \<open>Notification_Props\<close>: the workers on the database, each with the outcomes of one delivery as a case rule, from which
  the properties of its runs follow.

  \<^item> \<open>Booking_System\<close> lets all services step on one database in any order and lifts the invariant that ties
  payment requests, events and orders together to every run. This theory adds the way of a booking from the
  checkout to its ticket.

  \<^item> \<open>Socket_Adapter\<close> (\<open>adapter.rs\<close>): the registries of connections, rooms and users; every run of connections,
  subscriptions and Redis messages delivers what a specification with one set of rooms per connection delivers.
  \<open>Ws_Server\<close> with \<open>Ws_Server_Props\<close> (\<open>ws-server/src\<close>): sockets, requests and hooks over the gateway's gRPC service,
  the seat snapshots and the metadata check; replies stay with their user, the lock server's outcome reaches the
  sockets, and a snapshot is what the bitmap says.

  \<^item> \<open>Schedules_Admin\<close> with \<open>Schedules_Props\<close> and \<open>Schedules_Lifecycle\<close> (\<open>api/admin/schedules_v2.rs\<close>,
  \<open>services/cache.rs\<close>): creation, extra seats, life cycle and edits with their transactions and the cache. The
  inventory invariant holds along every run of the administration, what the websocket server cached stays true for
  its seats (not for the life cycle), so that its check lets through only seats of the schedule, and a
  closing that was answered with success reaches every gateway.

  \<^item> \<open>User_Schedules\<close> with \<open>User_Schedules_Props\<close> (\<open>api/user/schedules_v2.rs\<close>): lists, details and seat counts through
  the cache, the seat map over the bitmap, which agrees with the rooms. \<open>List_Cache\<close>: what the readers leave in the
  cache along any run, and that a closing then removes every list with the schedule.

  \<^item> \<open>Search_Pipeline\<close> with \<open>Search_Props\<close> (\<open>cdc-worker/src\<close>, \<open>search-server/src/outbox.rs\<close>, \<open>stream.rs\<close>): the way of
  a show from MongoDB's change stream through the sequenced outbox into Elasticsearch. The index is always a replay
  of a prefix of the outbox, from a checkpoint on no change is skipped as long as the worker is the outbox's only
  producer, and the index catches up.

  \<^item> \<open>Shows_Admin\<close> with \<open>Shows_Props\<close> (\<open>api/admin/shows.rs\<close>, \<open>mongo-conn/src/models/show.rs\<close>): the catalogue of
  shows and the transaction of every write with its search event, on the same MongoDB as \<open>Search_Pipeline\<close>. A write
  is atomic; alone, the administration and the indexer bring the index to exactly the live shows; with the
  change-data-capture worker beside it, the two counters collide. \<open>Index_Blocked\<close>: an event that Elasticsearch refuses,
  as that of every update, stops the indexer for good.

  \<^item> \<open>Accounts\<close> with \<open>Accounts_Props\<close> (\<open>api/auth.rs\<close>, \<open>api/admin/password_reset.rs\<close>, \<open>helpers/jwt.rs\<close>,
  \<open>middleware/auth.rs\<close>): sign-up, login, reset and tokens on the users of the shared database; identities never
  change, a password only with the token of a reset, and a token identifies its user to the extractors.

  \<^bold>\<open>Loops, bounds and fuel.\<close> Loops over seats, servers, messages and passes are structural recursion or folds, so
  no fuel is needed; a worker's endless loop is the list of its deliveries or passes, and a theorem holds for every
  list. The retry loops of connections count their attempts down. Waiting times are values of the model where the
  code computes them (leases of 300 seconds, retry delays of 2 to 256 seconds, the five minutes of a claim).

  \<^bold>\<open>Where the model is coarser than the code.\<close> A handler that does not write to the database runs as one step
  between the exchanges it makes; texts of internal errors are left out, since the code only logs them; strings are
  lists of bytes. The futures of a replicated write run in pool order. Wrong-type errors of Redis do not occur,
  because the key families are disjoint.

  \<^bold>\<open>Not modelled.\<close>
  The layout, category, ticket and public catalogue handlers of the HTTP API and the queries of the search server
  are queries and response shaping around external databases. The seven-day expiry of search events is
  left out. Start-up code, CORS, telemetry, the broker's
  topology, template rendering, SMTP, and drawing and uploading of PDFs are third-party calls. The web front end and
  the load-test runner are other programs; \<open>state.rs\<close>, \<open>consumer.rs\<close> and \<open>handlers.rs\<close> of gateway and lock server
  are earlier versions that the build does not use.
\<close>

section \<open>From a checkout to its ticket\<close>

lemma parse_seat_ids_in_i32: "list_all in_i32 (parse_seat_ids payload)"
  by (auto simp: parse_seat_ids_def list_all_iff in_i32_as_i32 split: option.splits)

text \<open>
  C6 (a booking reaches its ticket). Whenever a checkout message creates an order, it also leaves an event in the
  outbox; whoever receives the message the outbox server makes of that event, with the database up, the upload
  and the mail server answering, acknowledges it, adds the active ticket of exactly this order with exactly
  its seats, and sends and records one mail about it.
\<close>

theorem booking_reaches_its_ticket:
  assumes "process_checkout E R L now ids payload st = (a, st')"
    and "orders (rows (store st')) \<noteq> orders (rows (store st))"
    and r: "r = last (orders (rows (store st')))" and e: "e = last (outbox_events (rows (store st')))"
    and "\<forall>i. parse_uuid E (show_uuid E i) = Some i"
    and n: "nt_payload n = map_option (\<lambda>x. am_body (event_message E env (claimed e) x)) (route_for (oe_event_type e))"
    and "\<forall>q. nt_pdf n q = Some url" "\<forall>x m. nt_mail n x m"
    and "db_faults (nf_db nf) = []" "tables_ok (rows (nf_db nf))" "r \<in> set (orders (rows (nf_db nf)))"
    and "od_id r \<notin> tk_order_id ` set (tickets (rows (nf_db nf)))" "\<not> mail_recorded (od_id r) (rows (nf_db nf))"
    and "fresh_ids n (rows (nf_db nf))"
  shows "\<exists>nf' email b. process_notice E N env' n nf = (Acked, nf') \<and>
    tickets (rows (nf_db nf')) =
      tickets (rows (nf_db nf)) @ [issued_ticket (nt_now n) (fst (nt_ids n)) r (parse_seat_ids payload) url] \<and>
    mail_recorded (od_id r) (rows (nf_db nf')) \<and>
    nf_mails nf' = (email, BookingMail b) # nf_mails nf \<and> be_order_id b = show_uuid E (od_id r)"
  using assms(1)
proof (cases rule: process_checkout_cases)
  case (committed p c w1)
  let ?i = "snd (snd ids)"
  have r': "r = new_order E now c" using r committed by (simp add: checkout_stmts_def set_seats_def)
  have e': "e = order_event E now ?i ''OrderCompleted'' (od_id r) (od_user_id r) (od_schedule_id r)
      (parse_seat_ids payload) (cc_total_amount c)"
    using e committed by (simp add: r' new_order_def checkout_stmts_def set_seats_def)
  have ty: "oe_event_type e = ''OrderCompleted''" by (simp add: e' order_event_def)
  then obtain x where x: "route_for (oe_event_type e) = Some x" by (simp add: route_for_def)
  have body: "nt_payload n = Some (booking_body E e)"
    using n x published_body [of e x] ty by simp
  have u: "in_i32 (od_user_id r)" and s: "in_i32 (od_schedule_id r)"
    using committed by (simp_all add: r' new_order_def i32_field_def schedule_field_def in_i32_as_i32)
  from booking_event_effect [OF e' u s parse_seat_ids_in_i32 _ body assms(7-14), of N env'] assms(5)
  show ?thesis by blast
qed (use assms(2) in \<open>auto simp: orders_of_stmts\<close>)

theorem booking_reaches_its_ticket_witness:
  "\<exists>nf'. process_notice demo_crates demo_notify_crates (\<lambda>_. None) demo_notice demo_notifier = (Acked, nf') \<and>
     tickets (rows (nf_db nf')) = [issued_ticket 1 21 demo_order [3] ''u'']"
proof -
  obtain st' where st': "process_checkout demo_crates mem_redis (single_node_lock mem_redis json_codec 0) 0 (5, 6, 8)
     demo_checkout demo_worker = (Acked, st')" "rows (store st') = demo_after"
    using demo_run by blast
  have u: "\<forall>i. parse_uuid demo_crates (show_uuid demo_crates i) = Some i"
    by (simp add: demo_crates_def dec_def)
  have new: "orders (rows (store st')) \<noteq> orders (rows (store demo_worker))" by (simp add: st'(2))
  have last: "demo_order = last (orders (rows (store st')))" "demo_event = last (outbox_events (rows (store st')))"
    by (simp_all add: st'(2)) (simp add: demo_after_def demo_event_def)
  have ty: "oe_event_type demo_event = ''OrderCompleted''" by (simp add: demo_event_def order_event_def)
  then obtain x where x: "route_for (oe_event_type demo_event) = Some x" by (simp add: route_for_def)
  have n: "nt_payload demo_notice = map_option (\<lambda>x. am_body (event_message demo_crates (\<lambda>_. None) (claimed demo_event) x))
      (route_for (oe_event_type demo_event))"
    using x published_body [of demo_event x] ty by (simp add: demo_notice_def)
  have d: "\<forall>q. nt_pdf demo_notice q = Some ''u''" "\<forall>x m. nt_mail demo_notice x m" "nt_now demo_notice = 1"
    "fst (nt_ids demo_notice) = 21"
    by (simp_all add: demo_notice_def)
  have "\<exists>nf' email b. process_notice demo_crates demo_notify_crates (\<lambda>_. None) demo_notice demo_notifier = (Acked, nf') \<and>
      tickets (rows (nf_db nf')) = tickets (rows (nf_db demo_notifier)) @
        [issued_ticket (nt_now demo_notice) (fst (nt_ids demo_notice)) demo_order (parse_seat_ids demo_checkout) ''u''] \<and>
      mail_recorded (od_id demo_order) (rows (nf_db nf')) \<and>
      nf_mails nf' = (email, BookingMail b) # nf_mails demo_notifier \<and> be_order_id b = show_uuid demo_crates (od_id demo_order)"
    by (rule booking_reaches_its_ticket [OF st'(1) new last u n d(1,2)]) simp_all
  then show ?thesis by (simp add: d) blast
qed

end
